(* ===== verification/Prelude.thy ===== *)
theory Prelude
  imports Main "HOL-Library.Word"
begin

text \<open>
  Shared vocabulary of the development: the machine integers of the C sources, byte buffers
  and their little-endian fields, the error codes the sources return, and the generic list
  lemmas the component theories use.

  Signed 64-bit quantities (\<^verbatim>\<open>s64\<close>, \<^verbatim>\<open>long long\<close>) are \<^typ>\<open>int\<close>; where the C code guards
  against overflow, the guard is part of the model and the component proves that the guarded
  values stay inside the 64-bit range. Unsigned words whose wrap-around matters are
  \<^typ>\<open>32 word\<close> or \<^typ>\<open>64 word\<close>.
\<close>

unbundle bit_operations_syntax

type_synonym byte = "8 word"
type_synonym s64 = int
type_synonym u64 = nat

named_theorems buf_simps
named_theorems run_simps

section \<open>64-bit range\<close>

definition INT64_MAX :: int where
  "INT64_MAX = 9223372036854775807"

definition in_s64 :: "int \<Rightarrow> bool" where
  "in_s64 x \<longleftrightarrow> - INT64_MAX - 1 \<le> x \<and> x \<le> INT64_MAX"

lemma INT64_MAX_pos [simp]: "0 < INT64_MAX" "0 \<le> INT64_MAX"
  by (simp_all add: INT64_MAX_def)

text \<open>A signed 64-bit result that wraps around, as it does on the target.\<close>

definition wrap64 :: "int \<Rightarrow> int" where
  "wrap64 x = signed_take_bit 63 x"

lemma wrap64_cong: "\<exists>k. wrap64 x = x + k * 2 ^ 64"
proof -
  have "wrap64 x mod 2 ^ 64 = x mod 2 ^ 64"
    using take_bit_signed_take_bit [of 64 63 x] by (simp add: wrap64_def take_bit_eq_mod)
  then have "2 ^ 64 dvd wrap64 x - x" by (simp only: mod_eq_dvd_iff)
  then obtain k where "wrap64 x - x = 2 ^ 64 * k" by (elim dvdE)
  then have "wrap64 x = x + k * 2 ^ 64" by simp
  then show ?thesis by blast
qed

lemma wrap64_range: "- (2 ^ 63) \<le> wrap64 x" "wrap64 x < 2 ^ 63"
  using signed_take_bit_int_greater_eq_minus_exp [of 63 x] signed_take_bit_int_less_exp [of 63 x]
  by (simp_all add: wrap64_def)

lemma wrap64_id: "- (2 ^ 63) \<le> x \<Longrightarrow> x < 2 ^ 63 \<Longrightarrow> wrap64 x = x"
  by (simp add: wrap64_def signed_take_bit_int_eq_self_iff)

lemma le_div_imp_mult_le:
  fixes a b c :: int
  assumes "0 < b" and "a \<le> c div b"
  shows "a * b \<le> c"
proof -
  have "a * b \<le> c div b * b"
    using assms by (simp add: mult_right_mono)
  also have "\<dots> \<le> c"
    using assms(1) by (metis add_le_same_cancel1 div_mult_mod_eq le_add_same_cancel1 pos_mod_sign)
  finally show ?thesis .
qed

lemma le_zdiv_iff:
  fixes a b c :: int
  assumes "0 < b"
  shows "a \<le> c div b \<longleftrightarrow> a * b \<le> c"
proof
  show "a * b \<le> c" if "a \<le> c div b" using le_div_imp_mult_le [OF assms that] .
  show "a \<le> c div b" if "a * b \<le> c" using zdiv_mono1 [OF that assms] assms by simp
qed

section \<open>Error codes\<close>

text \<open>The \<^verbatim>\<open>errno\<close> values the sources set, test or return negated.\<close>

datatype errno =
    EPERM | ENOENT | EIO | ENXIO | ENOMEM | EBUSY | EEXIST | ENOTDIR | EINVAL | ENOSPC | EROFS
  | ERANGE | ENAMETOOLONG | ENOTSUP | EOPNOTSUPP

section \<open>Rounding to multiples\<close>

definition round_up :: "nat \<Rightarrow> nat \<Rightarrow> nat" where
  "round_up k n = (n + k - 1) div k * k"

lemma round_up_ge:
  assumes "0 < k"
  shows "n \<le> round_up k n"
proof -
  have "n + k - 1 < (n + k - 1) div k * k + k"
    using assms by (metis add.commute div_mult_mod_eq mod_less_divisor nat_add_left_cancel_less)
  with assms show ?thesis unfolding round_up_def by linarith
qed

lemma round_up_dvd [simp]: "k dvd round_up k n"
  by (simp add: round_up_def)

lemma round_up_less:
  assumes "0 < k"
  shows "round_up k n < n + k"
proof -
  have "(n + k - 1) div k * k \<le> n + k - 1" by (rule div_times_less_eq_dividend)
  with assms show ?thesis unfolding round_up_def by linarith
qed

lemma round_up_int_ge:
  fixes x k :: int
  assumes "0 < k"
  shows "x \<le> (x + k - 1) div k * k"
proof -
  have "(x + k - 1) div k * k + (x + k - 1) mod k = x + k - 1" by simp
  moreover have "(x + k - 1) mod k < k" using assms by simp
  ultimately show ?thesis by linarith
qed

lemma round_up_int_mult:
  fixes q k :: int
  assumes "0 < k"
  shows "(q * k + k - 1) div k * k = q * k"
proof -
  have "(q * k + k - 1) div k = ((k - 1) + q * k) div k" by (simp add: algebra_simps)
  also have "\<dots> = q + (k - 1) div k" using assms by (simp add: div_mult_self1)
  finally show ?thesis using assms by simp
qed

section \<open>Byte buffers\<close>

text \<open>
  A C buffer is a byte list. \<open>get_bytes\<close> reads a field, \<open>put_bytes\<close> is the \<^verbatim>\<open>memcpy\<close> of a
  field into a buffer; both are used in range only, and \<open>put_bytes\<close> keeps the length then.
\<close>

definition get_bytes :: "byte list \<Rightarrow> nat \<Rightarrow> nat \<Rightarrow> byte list" where
  "get_bytes buf off n = take n (drop off buf)"

definition put_bytes :: "byte list \<Rightarrow> nat \<Rightarrow> byte list \<Rightarrow> byte list" where
  "put_bytes buf off bs = take off buf @ bs @ drop (off + length bs) buf"

lemma length_put_bytes [simp, buf_simps]:
  "off + length bs \<le> length buf \<Longrightarrow> length (put_bytes buf off bs) = length buf"
  by (simp add: put_bytes_def)

lemma get_put_same [simp, buf_simps]:
  "off + length bs \<le> length buf \<Longrightarrow> n = length bs \<Longrightarrow> get_bytes (put_bytes buf off bs) off n = bs"
  by (simp add: get_bytes_def put_bytes_def)

lemma nth_put_bytes:
  assumes "off + length bs \<le> length buf" and "i < length buf"
  shows "put_bytes buf off bs ! i =
    (if off \<le> i \<and> i < off + length bs then bs ! (i - off) else buf ! i)"
  using assms by (auto simp: put_bytes_def nth_append)

lemma get_put_other:
  assumes "off + length bs \<le> length buf" and "a + n \<le> length buf"
    and "a + n \<le> off \<or> off + length bs \<le> a"
  shows "get_bytes (put_bytes buf off bs) a n = get_bytes buf a n"
proof (rule nth_equalityI)
  show "length (get_bytes (put_bytes buf off bs) a n) = length (get_bytes buf a n)"
    using assms by (simp add: get_bytes_def)
next
  fix i
  assume "i < length (get_bytes (put_bytes buf off bs) a n)"
  then have "i < n" and "a + i < length buf"
    using assms by (auto simp: get_bytes_def)
  then show "get_bytes (put_bytes buf off bs) a n ! i = get_bytes buf a n ! i"
    using assms by (auto simp: get_bytes_def nth_put_bytes)
qed

section \<open>Little-endian fields\<close>

text \<open>\<^verbatim>\<open>cpu_to_le16/32/64\<close> and their inverses, for fields of \<open>n\<close> bytes.\<close>

fun le_bytes :: "nat \<Rightarrow> nat \<Rightarrow> byte list" where
  "le_bytes 0 v = []"
| "le_bytes (Suc n) v = word_of_nat (v mod 256) # le_bytes n (v div 256)"

fun le_val :: "byte list \<Rightarrow> nat" where
  "le_val [] = 0"
| "le_val (b # bs) = unat b + 256 * le_val bs"

lemma le_bytes_numeral: "le_bytes (numeral k) v = word_of_nat (v mod 256) # le_bytes (pred_numeral k) (v div 256)"
  "le_bytes (Suc 0) v = [word_of_nat (v mod 256)]"
  by (simp_all only: numeral_eq_Suc [of k] le_bytes.simps)

lemma length_le_bytes [simp, buf_simps]: "length (le_bytes n v) = n"
  by (induction n arbitrary: v) auto

lemma unat_byte_of_nat [simp]: "v < 256 \<Longrightarrow> unat (word_of_nat v :: byte) = v"
  by (simp add: unat_of_nat)

lemma unat_byte_less: "unat (b :: byte) < 256"
  using unsigned_less [of b, where ?'a = nat] by simp

lemma le_val_le_bytes: "le_val (le_bytes n v) = v mod 256 ^ n"
proof (induction n arbitrary: v)
  case 0
  then show ?case by simp
next
  case (Suc n)
  have "le_val (le_bytes (Suc n) v) = v mod 256 + 256 * (v div 256 mod 256 ^ n)"
    by (simp add: Suc.IH unat_of_nat)
  also have "\<dots> = v mod 256 ^ Suc n"
    by (simp add: mod_mult2_eq)
  finally show ?case .
qed

lemma le_val_le_bytes_id [simp]: "v < 256 ^ n \<Longrightarrow> le_val (le_bytes n v) = v"
  by (simp add: le_val_le_bytes)

lemma le_bytes_le_val [simp]: "n = length bs \<Longrightarrow> le_bytes n (le_val bs) = bs"
  by (induction bs arbitrary: n) (auto simp: unat_byte_less)

lemma le_val_bound: "le_val bs < 256 ^ length bs"
proof (induction bs)
  case Nil
  then show ?case by simp
next
  case (Cons b bs)
  with unat_byte_less [of b] show ?case by auto
qed

definition get_le :: "byte list \<Rightarrow> nat \<Rightarrow> nat \<Rightarrow> nat" where
  "get_le buf off n = le_val (get_bytes buf off n)"

definition put_le :: "byte list \<Rightarrow> nat \<Rightarrow> nat \<Rightarrow> nat \<Rightarrow> byte list" where
  "put_le buf off n v = put_bytes buf off (le_bytes n v)"

lemma length_put_le [simp, buf_simps]:
  "off + n \<le> length buf \<Longrightarrow> length (put_le buf off n v) = length buf"
  by (simp add: put_le_def)

lemma get_put_le_same [buf_simps]:
  "off + n \<le> length buf \<Longrightarrow> get_le (put_le buf off n v) off n = v mod 256 ^ n"
  by (simp add: get_le_def put_le_def le_val_le_bytes)

lemma get_put_le_other:
  "off + n \<le> length buf \<Longrightarrow> a + k \<le> length buf \<Longrightarrow> a + k \<le> off \<or> off + n \<le> a \<Longrightarrow>
    get_le (put_le buf off n v) a k = get_le buf a k"
  by (simp add: get_le_def put_le_def get_put_other)

end
