(* ===== verification/Wr_Table.thy ===== *)
theory Wr_Table
  imports Prelude
begin

text \<open>
  The table of KOIO write high-water marks of a mounted volume (\<^verbatim>\<open>struct nk_wr\<close> and the
  \<^verbatim>\<open>wr_*\<close> functions of \<^verbatim>\<open>ntfs_bridge.c\<close>): an unordered growing array of pairs of a full MFT
  reference and the end of the highest range handed to the kernel for that file.

  The interface the block-map code relies on is the locale \<open>hwm_table\<close>: a partial map from
  MFT references to marks whose update may fail only when it has to grow the array. The array
  operations implement it as long as no reference occurs twice, which every operation keeps.
\<close>

section \<open>The array operations\<close>

record ntfs_inode =
  mft_no :: nat
  sequence_number :: nat

definition nk_mref :: "(nat \<Rightarrow> nat \<Rightarrow> u64) \<Rightarrow> ntfs_inode \<Rightarrow> u64" where
  "nk_mref MK_MREF ni = MK_MREF (mft_no ni) (sequence_number ni)"

record nk_wr =
  mref :: u64
  hwm :: s64

lemma nk_wr_collapse [simp]: "\<lparr>mref = mref w, hwm = hwm w\<rparr> = w"
  by (cases w) simp

type_synonym wr_array = "nk_wr list"

text \<open>\<open>wr_find\<close> returns the index of the first entry for the reference, as the C code its address.\<close>

fun wr_find_from :: "nat \<Rightarrow> wr_array \<Rightarrow> u64 \<Rightarrow> nat option" where
  "wr_find_from i [] m = None"
| "wr_find_from i (w # ws) m = (if mref w = m then Some i else wr_find_from (Suc i) ws m)"

definition wr_find :: "wr_array \<Rightarrow> u64 \<Rightarrow> nat option" where
  "wr_find t m = wr_find_from 0 t m"

definition wr_hwm :: "wr_array \<Rightarrow> u64 \<Rightarrow> s64" where
  "wr_hwm t m = (case wr_find t m of Some i \<Rightarrow> hwm (t ! i) | None \<Rightarrow> 0)"

text \<open>
  \<open>mem\<close> is whether \<^verbatim>\<open>realloc\<close> succeeds; \<open>None\<close> is the return value \<open>-1\<close>, with the table
  unchanged.
\<close>

definition wr_set :: "bool \<Rightarrow> wr_array \<Rightarrow> u64 \<Rightarrow> s64 \<Rightarrow> wr_array option" where
  "wr_set mem t m h =
     (case wr_find t m of
        Some i \<Rightarrow> Some (t[i := (t ! i)\<lparr>hwm := h\<rparr>])
      | None \<Rightarrow> if mem then Some (t @ [\<lparr>mref = m, hwm = h\<rparr>]) else None)"

text \<open>The dropped entry is overwritten by the last one, and the array shrinks by one.\<close>

definition wr_drop :: "wr_array \<Rightarrow> u64 \<Rightarrow> wr_array" where
  "wr_drop t m =
     (case wr_find t m of Some i \<Rightarrow> butlast (t[i := last t]) | None \<Rightarrow> t)"

section \<open>The interface\<close>

locale hwm_table =
  fixes empty :: 't
    and look :: "'t \<Rightarrow> u64 \<Rightarrow> s64 option"
    and upd :: "bool \<Rightarrow> 't \<Rightarrow> u64 \<Rightarrow> s64 \<Rightarrow> 't option"
    and del :: "'t \<Rightarrow> u64 \<Rightarrow> 't"
    and invar :: "'t \<Rightarrow> bool"
  assumes look_empty: "look empty m = None"
    and look_upd: "invar t \<Longrightarrow> upd mem t m h = Some t' \<Longrightarrow> look t' = (look t)(m \<mapsto> h)"
    and upd_None_iff: "invar t \<Longrightarrow> upd mem t m h = None \<longleftrightarrow> \<not> mem \<and> look t m = None"
    and look_del: "invar t \<Longrightarrow> look (del t m) = (look t)(m := None)"
    and invar_empty: "invar empty"
    and invar_upd: "invar t \<Longrightarrow> upd mem t m h = Some t' \<Longrightarrow> invar t'"
    and invar_del: "invar t \<Longrightarrow> invar (del t m)"
begin

lemma upd_known_never_fails:
  assumes "invar t" and "look t m = Some h0"
  shows "\<exists>t'. upd mem t m h = Some t'"
  using upd_None_iff [OF assms(1), of mem m h] assms(2) by (cases "upd mem t m h") auto

lemma look_upd_other:
  "invar t \<Longrightarrow> upd mem t m h = Some t' \<Longrightarrow> m' \<noteq> m \<Longrightarrow> look t' m' = look t m'"
  by (simp add: look_upd)

lemma upd_del_restores:
  assumes "invar t" and "look t m = None" and "upd mem t m h = Some t'"
  shows "look (del t' m) = look t"
  using assms look_del [OF invar_upd [OF assms(1,3)], of m] look_upd [OF assms(1,3)]
  by (auto simp: fun_eq_iff)

lemma del_del: "invar t \<Longrightarrow> look (del (del t m) m) = look (del t m)"
  by (simp add: look_del invar_del)

end

section \<open>The array implements the interface\<close>

text \<open>The invariant: no reference occurs twice. The abstraction: the association list as a map.\<close>

definition wr_inv :: "wr_array \<Rightarrow> bool" where
  "wr_inv t \<longleftrightarrow> distinct (map mref t)"

definition wr_map :: "wr_array \<Rightarrow> u64 \<Rightarrow> s64 option" where
  "wr_map t = map_of (map (\<lambda>w. (mref w, hwm w)) t)"

lemma wr_find_from_Suc:
  "wr_find_from (Suc j) t m = map_option Suc (wr_find_from j t m)"
  by (induction t arbitrary: j) simp_all

lemma wr_find_Nil [simp]: "wr_find [] m = None"
  by (simp add: wr_find_def)

lemma wr_find_Cons [simp]:
  "wr_find (w # ws) m = (if mref w = m then Some 0 else map_option Suc (wr_find ws m))"
  by (simp add: wr_find_def wr_find_from_Suc)

lemma wr_find_Some:
  "wr_find t m = Some i \<Longrightarrow> i < length t \<and> mref (t ! i) = m"
  by (induction t arbitrary: i) (auto split: if_splits)

lemma wr_find_None_iff: "wr_find t m = None \<longleftrightarrow> m \<notin> mref ` set t"
  by (induction t) auto

lemma wr_map_find: "wr_map t m = map_option (\<lambda>i. hwm (t ! i)) (wr_find t m)"
  by (induction t) (auto simp: wr_map_def option.map_comp comp_def)

lemma wr_hwm_map: "wr_hwm t m = (case wr_map t m of Some h \<Rightarrow> h | None \<Rightarrow> 0)"
  by (simp add: wr_hwm_def wr_map_find split: option.splits)

lemma wr_map_Some_iff:
  "wr_inv t \<Longrightarrow> wr_map t m = Some h \<longleftrightarrow> \<lparr>mref = m, hwm = h\<rparr> \<in> set t"
proof -
  assume "wr_inv t"
  then have "distinct (map fst (map (\<lambda>w. (mref w, hwm w)) t))"
    by (simp add: wr_inv_def comp_def)
  then have "wr_map t m = Some h \<longleftrightarrow> (m, h) \<in> set (map (\<lambda>w. (mref w, hwm w)) t)"
    unfolding wr_map_def by (metis map_of_is_SomeI map_of_SomeD)
  also have "\<dots> \<longleftrightarrow> \<lparr>mref = m, hwm = h\<rparr> \<in> set t"
    by (auto simp: image_iff intro!: bexI [of _ "\<lparr>mref = m, hwm = h\<rparr>"])
  finally show ?thesis .
qed

lemma wr_map_update:
  "wr_find t m = Some i \<Longrightarrow> wr_map (t[i := (t ! i)\<lparr>hwm := h\<rparr>]) = (wr_map t)(m \<mapsto> h)"
proof (induction t arbitrary: i)
  case Nil
  then show ?case by simp
next
  case (Cons w ws)
  show ?case
  proof (cases "mref w = m")
    case True
    with Cons.prems show ?thesis by (auto simp: wr_map_def fun_eq_iff)
  next
    case False
    with Cons.prems obtain j where "wr_find ws m = Some j" and "i = Suc j" by auto
    with False Cons.IH [of j] show ?thesis by (auto simp: wr_map_def fun_eq_iff)
  qed
qed

lemma mref_update: "map mref (t[i := (t ! i)\<lparr>hwm := h\<rparr>]) = map mref t"
  by (cases "i < length t") (auto intro!: nth_equalityI simp: nth_list_update list_update_beyond)

lemma wr_inv_drop_set:
  assumes "wr_inv t" and "wr_find t m = Some i"
  shows "wr_inv (wr_drop t m) \<and> set (wr_drop t m) = set t - {t ! i}"
proof -
  have i: "i < length t" and ne: "t \<noteq> []" using wr_find_Some [OF assms(2)] by auto
  have dis: "distinct t" using assms(1) by (simp add: wr_inv_def distinct_map)
  obtain ys z where t: "t = ys @ [z]" using ne by (metis rev_exhaust)
  have inj: "inj_on mref (set t)" using assms(1) by (simp add: wr_inv_def distinct_map)
  show ?thesis
  proof (cases "i = length ys")
    case True
    with assms t dis inj show ?thesis
      by (auto simp: wr_drop_def wr_inv_def distinct_map nth_append list_update_append)
  next
    case False
    with i t have iy: "i < length ys" by simp
    then have drop: "wr_drop t m = ys[i := z]"
      using assms(2) t by (simp add: wr_drop_def list_update_append)
    have z: "z \<notin> set ys" and dy: "distinct ys" using dis t by auto
    have "distinct (ys[i := z])" using z dy by (simp add: distinct_list_update)
    moreover have "set (ys[i := z]) = insert z (set ys - {ys ! i})"
      using dy iy by (simp add: set_update_distinct)
    moreover have "inj_on mref (set (ys[i := z]))"
      using inj t calculation(2) by (auto intro: inj_on_subset)
    ultimately show ?thesis
      using drop t z iy by (auto simp: wr_inv_def distinct_map nth_append)
  qed
qed

lemma wr_map_drop:
  assumes "wr_inv t"
  shows "wr_map (wr_drop t m) = (wr_map t)(m := None)"
proof (cases "wr_find t m")
  case None
  then show ?thesis by (auto simp: wr_drop_def wr_map_find fun_eq_iff)
next
  case (Some i)
  note d = wr_inv_drop_set [OF assms Some]
  have i: "i < length t" "mref (t ! i) = m" using wr_find_Some [OF Some] by auto
  have inj: "inj_on mref (set t)" using assms by (simp add: wr_inv_def distinct_map)
  have "wr_map (wr_drop t m) x = Some h \<longleftrightarrow> ((wr_map t)(m := None)) x = Some h" for x h
  proof -
    have "\<lparr>mref = x, hwm = h\<rparr> = t ! i \<longleftrightarrow> \<lparr>mref = x, hwm = h\<rparr> \<in> set t \<and> x = m"
      using i inj_onD [OF inj, of "\<lparr>mref = x, hwm = h\<rparr>" "t ! i"] by (metis nk_wr.select_convs(1) nth_mem)
    with d show ?thesis
      using wr_map_Some_iff [of "wr_drop t m" x h] wr_map_Some_iff [OF assms, of x h] by auto
  qed
  then show ?thesis by (metis (no_types) ext not_None_eq)
qed

lemma wr_set_spec:
  assumes "wr_inv t" and "wr_set mem t m h = Some t'"
  shows "wr_inv t' \<and> wr_map t' = (wr_map t)(m \<mapsto> h)"
proof (cases "wr_find t m")
  case None
  then have "m \<notin> mref ` set t" by (simp add: wr_find_None_iff)
  moreover from this have "wr_map t m = None"
    by (auto simp: wr_map_def map_of_eq_None_iff)
  moreover have "t' = t @ [\<lparr>mref = m, hwm = h\<rparr>]"
    using None assms(2) by (simp add: wr_set_def split: if_splits)
  ultimately show ?thesis
    using assms(1) by (auto simp: wr_inv_def wr_map_def map_add_def fun_eq_iff split: option.splits)
next
  case (Some i)
  with assms show ?thesis
    by (auto simp: wr_set_def wr_inv_def mref_update wr_map_update)
qed

interpretation wr: hwm_table "[]" wr_map wr_set wr_drop wr_inv
proof unfold_locales
  fix t m h t' mem
  show "wr_map [] m = None" by (simp add: wr_map_def)
  show "wr_inv []" by (simp add: wr_inv_def)
  assume inv: "wr_inv t"
  show "wr_set mem t m h = None \<longleftrightarrow> \<not> mem \<and> wr_map t m = None"
    by (auto simp: wr_set_def wr_map_find split: option.splits)
  show "wr_map (wr_drop t m) = (wr_map t)(m := None)" using inv by (rule wr_map_drop)
  show "wr_inv (wr_drop t m)"
    using inv wr_inv_drop_set [OF inv] by (cases "wr_find t m") (auto simp: wr_drop_def)
  assume "wr_set mem t m h = Some t'"
  with inv show "wr_map t' = (wr_map t)(m \<mapsto> h)" "wr_inv t'" using wr_set_spec by auto
qed

end
