(* ===== verification/Runlist.thy ===== *)
theory Runlist
  imports Prelude
begin

text \<open>
  Runlists and the three loops of \<^verbatim>\<open>ntfs_bridge.c\<close> that walk them: the validation of an
  untrusted runlist (\<open>bad_runlist\<close>), the raw zeroing of a byte range (\<open>zero_raw\<close>) and the
  emission of extents to the host's packer (the last loop of \<^verbatim>\<open>nk_blockmap\<close>).

  The specification of a runlist is \<open>phys_of\<close>: the device byte a logical byte of the file lives
  at, if any. A runlist that \<open>bad_runlist\<close> accepts is contiguous, inside the volume and free of
  64-bit overflow; on such a runlist \<open>zero_raw\<close> clears exactly the device bytes of its range
  and the emitted extents tile the requested window and agree with \<open>phys_of\<close> below the end of
  the initialised data.
\<close>

section \<open>Runlists\<close>

record runlist_element =
  rl_vcn :: s64
  rl_lcn :: s64
  rl_length :: s64

type_synonym runlist = "runlist_element list"

record ntfs_volume =
  cluster_size :: s64
  nr_clusters :: s64
  vol_readonly :: bool

definition LCN_HOLE :: s64 where
  "LCN_HOLE = -1"

text \<open>An array of runs ends at the first element of length zero; a null pointer is the empty list.\<close>

fun live_runs :: "runlist \<Rightarrow> runlist" where
  "live_runs [] = []"
| "live_runs (r # rl) = (if rl_length r = 0 then [] else r # live_runs rl)"

subsection \<open>Validation\<close>

fun bad_runlist_from :: "ntfs_volume \<Rightarrow> s64 \<Rightarrow> runlist \<Rightarrow> bool" where
  "bad_runlist_from vol expect [] = False"
| "bad_runlist_from vol expect (r # rl) =
     (let csize = cluster_size vol in
      if rl_length r = 0 then False
      else if rl_lcn r < LCN_HOLE then True
      else if rl_length r \<le> 0 \<or> rl_vcn r < 0 \<or>
              rl_vcn r > INT64_MAX div csize \<or> rl_length r > INT64_MAX div csize \<or>
              rl_length r > INT64_MAX div csize - rl_vcn r then True
      else if rl_lcn r \<ge> 0 \<and>
              (rl_lcn r \<ge> nr_clusters vol \<or> rl_lcn r > INT64_MAX div csize \<or>
               rl_length r > nr_clusters vol - rl_lcn r) then True
      else if expect \<ge> 0 \<and> rl_vcn r \<noteq> expect then True
      else bad_runlist_from vol (rl_vcn r + rl_length r) rl)"

definition bad_runlist :: "ntfs_volume \<Rightarrow> runlist \<Rightarrow> bool" where
  "bad_runlist vol rl = bad_runlist_from vol (-1) rl"

subsection \<open>Raw zeroing\<close>

text \<open>
  \<open>pw\<close> stands for libntfs's \<^verbatim>\<open>ntfs_pwrite\<close> on the volume's device: it returns the number of
  bytes written (or \<open>-1\<close>) and the new device. \<open>zero_chunks\<close> is the inner loop, in pieces of the
  64 KiB buffer of zeros.
\<close>

function zero_chunks ::
  "('d \<Rightarrow> s64 \<Rightarrow> byte list \<Rightarrow> s64 \<times> 'd) \<Rightarrow> s64 \<Rightarrow> s64 \<Rightarrow> s64 \<Rightarrow> s64 \<Rightarrow> 'd \<Rightarrow> s64 \<times> 'd" where
  "zero_chunks pw phys log p e d =
     (if p < e then
        let chunk = (if e - p < 65536 then e - p else 65536);
            (n, d') = pw d (phys + (p - log)) (replicate (nat chunk) 0)
        in if n \<noteq> chunk then (-1, d') else zero_chunks pw phys log (p + chunk) e d'
      else (0, d))"
  by pat_completeness auto
termination
  by (relation "measure (\<lambda>(pw, phys, log, p, e, d). nat (e - p))") (auto split: if_splits)

declare zero_chunks.simps [simp del]

fun zero_raw ::
  "('d \<Rightarrow> s64 \<Rightarrow> byte list \<Rightarrow> s64 \<times> 'd) \<Rightarrow> s64 \<Rightarrow> runlist \<Rightarrow> s64 \<Rightarrow> s64 \<Rightarrow> 'd \<Rightarrow> s64 \<times> 'd" where
  "zero_raw pw csize [] from to d = (0, d)"
| "zero_raw pw csize (r # rl) from to d =
     (if rl_length r = 0 then (0, d)
      else if rl_lcn r < 0 then zero_raw pw csize rl from to d
      else
        let log = rl_vcn r * csize; end = log + rl_length r * csize;
            s = (if log > from then log else from);
            e = (if end < to then end else to);
            (rc, d') = zero_chunks pw (rl_lcn r * csize) log s e d
        in if rc \<noteq> 0 then (-1, d') else zero_raw pw csize rl from to d')"

subsection \<open>Extents for the kernel\<close>

record extent =
  x_logical :: s64
  x_physical :: s64
  x_length :: s64

text \<open>
  The host's callback sees the extents in order and answers whether its packer is full. Its
  answer may depend on everything it was handed before, so it is a function of the list of
  calls so far, the current one included. The result is the list of calls, the end of the
  covered window and whether the packer was full.
\<close>

type_synonym nk_extent_cb = "extent list \<Rightarrow> bool"

fun emit_runs ::
  "nk_extent_cb \<Rightarrow> s64 \<Rightarrow> s64 \<Rightarrow> s64 \<Rightarrow> s64 \<Rightarrow> runlist \<Rightarrow> extent list \<Rightarrow> s64 \<Rightarrow> extent list \<times> s64 \<times> bool" where
  "emit_runs cb csize offset len_req init_end [] acc covered = (acc, covered, False)"
| "emit_runs cb csize offset len_req init_end (r # rl) acc covered =
     (if rl_length r = 0 then (acc, covered, False)
      else
        let log = rl_vcn r * csize;
            len = rl_length r * csize;
            phys = (if rl_lcn r \<ge> 0 then rl_lcn r * csize else -1);
            start = (if log > offset then log else offset);
            end_req = offset + len_req;
            end = (if log + len < end_req then log + len else end_req)
        in if end \<le> start then emit_runs cb csize offset len_req init_end rl acc covered
           else if phys \<ge> 0 \<and> start < init_end \<and> end > init_end then
             let acc1 = acc @ [\<lparr>x_logical = start, x_physical = phys + (start - log),
                                x_length = init_end - start\<rparr>]
             in if cb acc1 then (acc1, init_end, True)
                else
                  let acc2 = acc1 @ [\<lparr>x_logical = init_end, x_physical = -1,
                                      x_length = end - init_end\<rparr>]
                  in if cb acc2 then (acc2, end, True)
                     else emit_runs cb csize offset len_req init_end rl acc2 end
           else
             let as_zero = (phys < 0 \<or> start \<ge> init_end);
                 acc1 = acc @ [\<lparr>x_logical = start,
                                x_physical = (if as_zero then -1 else phys + (start - log)),
                                x_length = end - start\<rparr>]
             in if cb acc1 then (acc1, end, True)
                else emit_runs cb csize offset len_req init_end rl acc1 end)"

section \<open>What a runlist means\<close>

fun phys_of :: "s64 \<Rightarrow> runlist \<Rightarrow> s64 \<Rightarrow> s64 option" where
  "phys_of csize [] b = None"
| "phys_of csize (r # rl) b =
     (if rl_length r = 0 then None
      else if rl_vcn r * csize \<le> b \<and> b < (rl_vcn r + rl_length r) * csize then
        (if rl_lcn r \<ge> 0 then Some (rl_lcn r * csize + (b - rl_vcn r * csize)) else None)
      else phys_of csize rl b)"

text \<open>Runs that follow each other from a given virtual cluster on.\<close>

fun contig :: "s64 \<Rightarrow> runlist \<Rightarrow> bool" where
  "contig v [] = True"
| "contig v (r # rl) \<longleftrightarrow>
     rl_length r = 0 \<or> (rl_vcn r = v \<and> 0 < rl_length r \<and> contig (v + rl_length r) rl)"

definition run_in_volume :: "ntfs_volume \<Rightarrow> runlist_element \<Rightarrow> bool" where
  "run_in_volume vol r \<longleftrightarrow>
     LCN_HOLE \<le> rl_lcn r \<and> 0 < rl_length r \<and> 0 \<le> rl_vcn r \<and>
     in_s64 (rl_vcn r * cluster_size vol) \<and> in_s64 (rl_length r * cluster_size vol) \<and>
     in_s64 ((rl_vcn r + rl_length r) * cluster_size vol) \<and>
     (0 \<le> rl_lcn r \<longrightarrow>
        rl_lcn r + rl_length r \<le> nr_clusters vol \<and> in_s64 (rl_lcn r * cluster_size vol))"

lemma in_s64_mult:
  assumes "0 < c" and "0 \<le> a" and "a \<le> INT64_MAX div c"
  shows "in_s64 (a * c)"
proof -
  have "0 \<le> a * c" using assms by simp
  with le_div_imp_mult_le [OF assms(1,3)] show ?thesis by (simp add: in_s64_def INT64_MAX_def)
qed

lemma bad_runlist_from_sound:
  assumes "0 < cluster_size vol" and "\<not> bad_runlist_from vol v rl"
  shows "(\<forall>r \<in> set (live_runs rl). run_in_volume vol r) \<and> (0 \<le> v \<longrightarrow> contig v rl)"
  using assms(2)
proof (induction rl arbitrary: v)
  case Nil
  then show ?case by simp
next
  case (Cons r rl)
  show ?case
  proof (cases "rl_length r = 0")
    case True
    then show ?thesis by simp
  next
    case False
    let ?c = "cluster_size vol" and ?m = "INT64_MAX div cluster_size vol"
    from False Cons.prems have
      len: "0 < rl_length r" and vcn: "0 \<le> rl_vcn r" and
      b1: "rl_vcn r \<le> ?m" and b2: "rl_length r \<le> ?m" and b3: "rl_vcn r + rl_length r \<le> ?m" and
      lcn: "LCN_HOLE \<le> rl_lcn r" and
      lvol: "0 \<le> rl_lcn r \<longrightarrow> rl_lcn r \<le> ?m \<and> rl_lcn r + rl_length r \<le> nr_clusters vol" and
      ex: "0 \<le> v \<longrightarrow> rl_vcn r = v" and
      rest: "\<not> bad_runlist_from vol (rl_vcn r + rl_length r) rl"
      by (auto simp: Let_def split: if_splits)
    have "run_in_volume vol r"
      using len vcn b1 b2 b3 lcn lvol assms(1) by (simp add: run_in_volume_def in_s64_mult)
    with Cons.IH [OF rest] False ex len vcn show ?thesis by auto
  qed
qed

lemma contig_from_bad:
  assumes "0 < cluster_size vol" and "\<not> bad_runlist vol rl"
    and "live_runs rl = [] \<or> rl_vcn (hd (live_runs rl)) = v"
  shows "contig v rl"
proof (cases rl)
  case Nil
  then show ?thesis by simp
next
  case (Cons r rl')
  show ?thesis
  proof (cases "rl_length r = 0")
    case True
    with Cons show ?thesis by simp
  next
    case False
    with Cons assms(3) have v: "rl_vcn r = v" by simp
    have "\<not> bad_runlist_from vol (rl_vcn r + rl_length r) rl'"
      and "0 < rl_length r" and "0 \<le> rl_vcn r"
      using assms(2) Cons False by (auto simp: bad_runlist_def Let_def split: if_splits)
    with bad_runlist_from_sound [OF assms(1)] v Cons False show ?thesis by auto
  qed
qed

lemma phys_of_below: "contig v rl \<Longrightarrow> 0 < csize \<Longrightarrow> b < v * csize \<Longrightarrow> phys_of csize rl b = None"
proof (induction rl arbitrary: v)
  case Nil
  then show ?case by simp
next
  case (Cons r rl)
  show ?case
  proof (cases "rl_length r = 0")
    case True
    then show ?thesis by simp
  next
    case False
    with Cons.prems have v: "rl_vcn r = v" "0 < rl_length r" "contig (v + rl_length r) rl" by auto
    then have "v * csize \<le> (v + rl_length r) * csize"
      using Cons.prems(2) by (simp add: mult_right_mono)
    with Cons.IH [OF v(3) Cons.prems(2)] Cons.prems(3) v show ?thesis by auto
  qed
qed

lemma phys_of_Cons_above:
  assumes "contig v (r # rl)" and "0 < csize" and "rl_length r \<noteq> 0"
    and "(v + rl_length r) * csize \<le> b"
  shows "phys_of csize (r # rl) b = phys_of csize rl b"
  using assms by auto

lemma phys_of_Cons_in:
  assumes "contig v (r # rl)" and "rl_length r \<noteq> 0"
    and "v * csize \<le> b" and "b < (v + rl_length r) * csize"
  shows "phys_of csize (r # rl) b =
    (if rl_lcn r \<ge> 0 then Some (rl_lcn r * csize + (b - v * csize)) else None)"
  using assms by auto

section \<open>Raw zeroing clears exactly its range\<close>

text \<open>
  What the code relies on of \<^verbatim>\<open>ntfs_pwrite\<close>: it touches no byte outside the range it is given,
  and when it reports the full count the range holds the buffer.
\<close>

definition dev_writes :: "('d \<Rightarrow> s64 \<Rightarrow> byte) \<Rightarrow> ('d \<Rightarrow> s64 \<Rightarrow> byte list \<Rightarrow> s64 \<times> 'd) \<Rightarrow> bool" where
  "dev_writes content pw \<longleftrightarrow>
     (\<forall>d a bs n d'. pw d a bs = (n, d') \<longrightarrow>
        (\<forall>x. \<not> (a \<le> x \<and> x < a + int (length bs)) \<longrightarrow> content d' x = content d x) \<and>
        (n = int (length bs) \<longrightarrow> (\<forall>i < length bs. content d' (a + int i) = bs ! i)))"

lemma dev_writes_zeros:
  assumes "dev_writes content pw" and "pw d a (replicate (nat n) 0) = (k, d')" and "0 \<le> n"
  shows "\<not> (a \<le> x \<and> x < a + n) \<Longrightarrow> content d' x = content d x"
    and "k = n \<Longrightarrow> a \<le> x \<Longrightarrow> x < a + n \<Longrightarrow> content d' x = 0"
proof -
  have w: "(\<forall>x. \<not> (a \<le> x \<and> x < a + n) \<longrightarrow> content d' x = content d x) \<and>
      (k = n \<longrightarrow> (\<forall>i < nat n. content d' (a + int i) = replicate (nat n) 0 ! i))"
    using assms unfolding dev_writes_def by force
  then show "\<not> (a \<le> x \<and> x < a + n) \<Longrightarrow> content d' x = content d x" by blast
  assume "k = n" "a \<le> x" "x < a + n"
  with w have z: "\<forall>i < nat n. content d' (a + int i) = 0" by simp
  have "nat (x - a) < nat n" and "a + int (nat (x - a)) = x"
    using \<open>a \<le> x\<close> \<open>x < a + n\<close> by auto
  with z show "content d' x = 0" by metis
qed

lemma zero_chunks_spec:
  assumes "dev_writes content pw" and "zero_chunks pw phys log p e d = (rc, d')"
  shows "(\<forall>x. \<not> (phys + (p - log) \<le> x \<and> x < phys + (e - log)) \<longrightarrow> content d' x = content d x) \<and>
    (rc = 0 \<longrightarrow> (\<forall>x. phys + (p - log) \<le> x \<and> x < phys + (e - log) \<longrightarrow> content d' x = 0))"
  using assms
proof (induction pw phys log p e d rule: zero_chunks.induct)
  case (1 pw phys log p e d)
  show ?case
  proof (cases "p < e")
    case False
    with "1.prems" show ?thesis by (auto simp: zero_chunks.simps)
  next
    case True
    define c where "c = (if e - p < 65536 then e - p else 65536)"
    have c: "0 \<le> c" "p + c \<le> e" using True by (auto simp: c_def)
    define a where "a = phys + (p - log)"
    obtain n d1 where pw: "pw d a (replicate (nat c) 0) = (n, d1)" by fastforce
    note fr = dev_writes_zeros(1) [OF "1.prems"(1) pw c(1)]
    note ze = dev_writes_zeros(2) [OF "1.prems"(1) pw c(1)]
    have run: "(if n \<noteq> c then (-1, d1) else zero_chunks pw phys log (p + c) e d1) = (rc, d')"
      using "1.prems"(2) True pw
      by (simp add: zero_chunks.simps [of pw phys log p e d] Let_def a_def flip: c_def)
    show ?thesis
    proof (cases "n = c")
      case False
      with run have "d' = d1" "rc = -1" by auto
      with fr c show ?thesis by (auto simp: a_def)
    next
      case eq: True
      with run have "zero_chunks pw phys log (p + c) e d1 = (rc, d')" by simp
      with "1.IH" [OF True c_def _ _ _ "1.prems"(1)] pw eq
      have ih: "(\<forall>x. \<not> (a + c \<le> x \<and> x < phys + (e - log)) \<longrightarrow> content d' x = content d1 x) \<and>
          (rc = 0 \<longrightarrow> (\<forall>x. a + c \<le> x \<and> x < phys + (e - log) \<longrightarrow> content d' x = 0))"
        by (auto simp: a_def algebra_simps)
      have le: "a + c \<le> phys + (e - log)" using c by (simp add: a_def)
      have "content d' x = content d x" if "\<not> (a \<le> x \<and> x < phys + (e - log))" for x
        using that ih fr [of x] le c by auto
      moreover have "content d' x = 0" if "rc = 0" "a \<le> x" "x < phys + (e - log)" for x
        using that ih ze [of x] eq by (cases "x < a + c") auto
      ultimately show ?thesis unfolding a_def by blast
    qed
  qed
qed

definition mapped :: "s64 \<Rightarrow> runlist \<Rightarrow> s64 \<Rightarrow> s64 \<Rightarrow> s64 set" where
  "mapped csize rl from to = {x. \<exists>b. from \<le> b \<and> b < to \<and> phys_of csize rl b = Some x}"

lemma mapped_Nil [simp]: "mapped csize [] from to = {}"
  by (simp add: mapped_def)

lemma mapped_end [simp]: "rl_length r = 0 \<Longrightarrow> mapped csize (r # rl) from to = {}"
  by (simp add: mapped_def)

lemma mapped_Cons:
  assumes "contig v (r # rl)" and "0 < csize" and "rl_length r \<noteq> 0"
  shows "mapped csize (r # rl) from to =
    (if rl_lcn r < 0 then {}
     else {rl_lcn r * csize + (max (v * csize) from - v * csize) ..<
           rl_lcn r * csize + (min ((v + rl_length r) * csize) to - v * csize)}) \<union>
    mapped csize rl from to"
    (is "?L = ?R \<union> _")
proof -
  have v: "rl_vcn r = v" "0 < rl_length r" "contig (v + rl_length r) rl" using assms by auto
  have lt: "v * csize < (v + rl_length r) * csize" using v assms(2) by simp
  note below = phys_of_below [OF v(3) assms(2)]
  have eq: "phys_of csize (r # rl) b =
      (if v * csize \<le> b \<and> b < (v + rl_length r) * csize
       then if rl_lcn r \<ge> 0 then Some (rl_lcn r * csize + (b - v * csize)) else None
       else phys_of csize rl b)" for b
    using v assms(3) by simp
  have "x \<in> ?L \<longleftrightarrow> x \<in> ?R \<union> mapped csize rl from to" for x
  proof
    assume "x \<in> ?L"
    then show "x \<in> ?R \<union> mapped csize rl from to"
      by (auto simp: mapped_def eq simp del: phys_of.simps split: if_splits)
  next
    assume "x \<in> ?R \<union> mapped csize rl from to"
    then consider "x \<in> ?R" | "x \<in> mapped csize rl from to" by blast
    then show "x \<in> ?L"
    proof cases
      case 1
      then show ?thesis
        by (auto simp: mapped_def eq simp del: phys_of.simps split: if_splits
            intro!: exI [of _ "x - rl_lcn r * csize + v * csize"])
    next
      case 2
      then obtain b where "from \<le> b" "b < to" "phys_of csize rl b = Some x"
        by (auto simp: mapped_def)
      with below [of b] show ?thesis
        by (auto simp: mapped_def eq simp del: phys_of.simps intro!: exI [of _ b])
    qed
  qed
  then show ?thesis by blast
qed

lemma zero_raw_spec:
  assumes "dev_writes content pw" and "0 < csize" and "contig v rl"
    and "zero_raw pw csize rl from to d = (rc, d')"
  shows "(\<forall>x. x \<notin> mapped csize rl from to \<longrightarrow> content d' x = content d x) \<and>
    (rc = 0 \<longrightarrow> (\<forall>x \<in> mapped csize rl from to. content d' x = 0))"
  using assms(3,4)
proof (induction rl arbitrary: v d)
  case Nil
  then show ?case by simp
next
  case (Cons r rl)
  show ?case
  proof (cases "rl_length r = 0")
    case True
    with Cons.prems show ?thesis by auto
  next
    case False
    note m = mapped_Cons [OF Cons.prems(1) assms(2) False]
    from False Cons.prems(1) have v: "rl_vcn r = v" "contig (v + rl_length r) rl" by auto
    show ?thesis
    proof (cases "rl_lcn r < 0")
      case True
      with False Cons.prems(2) have "zero_raw pw csize rl from to d = (rc, d')" by simp
      from Cons.IH [OF v(2) this] True show ?thesis unfolding m by simp
    next
      case lcn: False
      let ?P = "rl_lcn r * csize" and ?s = "max (v * csize) from"
      let ?e = "min ((v + rl_length r) * csize) to"
      obtain k d1 where ch: "zero_chunks pw ?P (v * csize) ?s ?e d = (k, d1)" by fastforce
      have s: "(if v * csize > from then v * csize else from) = ?s" by auto
      have e: "(if v * csize + rl_length r * csize < to then v * csize + rl_length r * csize else to) = ?e"
        by (auto simp: distrib_right)
      have run: "(if k \<noteq> 0 then (-1, d1) else zero_raw pw csize rl from to d1) = (rc, d')"
        using Cons.prems(2) False lcn ch by (simp add: v(1) Let_def s e)
      note zc = zero_chunks_spec [OF assms(1) ch]
      show ?thesis
      proof (cases "k = 0")
        case True
        with run have "zero_raw pw csize rl from to d1 = (rc, d')" by simp
        from Cons.IH [OF v(2) this] zc True lcn show ?thesis unfolding m by force
      next
        case False
        with run zc lcn show ?thesis unfolding m by auto
      qed
    qed
  qed
qed

text \<open>Whatever the device write keeps, zeroing keeps.\<close>

lemma zero_chunks_inv:
  assumes "\<And>d p bs n d'. pw d p bs = (n, d') \<Longrightarrow> I d \<Longrightarrow> I d'"
    and "zero_chunks pw phys log p e d = (rc, d')" and "I d"
  shows "I d'"
  using assms
proof (induction pw phys log p e d rule: zero_chunks.induct)
  case (1 pw phys log p e d)
  show ?case
  proof (cases "p < e")
    case False
    with "1.prems"(2,3) show ?thesis by (auto simp: zero_chunks.simps)
  next
    case True
    define c where "c = (if e - p < 65536 then e - p else 65536)"
    obtain n d1 where pw: "pw d (phys + (p - log)) (replicate (nat c) 0) = (n, d1)" by fastforce
    have "I d1" using "1.prems"(1) [OF pw] "1.prems"(3) .
    moreover have "(if n \<noteq> c then (-1, d1) else zero_chunks pw phys log (p + c) e d1) = (rc, d')"
      using "1.prems"(2) True pw
      by (simp add: zero_chunks.simps [of pw phys log p e d] Let_def flip: c_def)
    ultimately show ?thesis
      using "1.IH" [OF True c_def pw [symmetric] refl _ "1.prems"(1)] by (cases "n = c") auto
  qed
qed

lemma zero_raw_inv:
  assumes "\<And>d p bs n d'. pw d p bs = (n, d') \<Longrightarrow> I d \<Longrightarrow> I d'"
    and "zero_raw pw csize rl from to d = (rc, d')" and "I d"
  shows "I d'"
  using assms(2,3)
proof (induction rl arbitrary: d)
  case Nil
  then show ?case by simp
next
  case (Cons r rl)
  show ?case
  proof (cases "rl_length r = 0 \<or> rl_lcn r < 0")
    case True
    with Cons show ?thesis by (auto split: if_splits)
  next
    case False
    obtain k d1 where ch: "zero_chunks pw (rl_lcn r * csize) (rl_vcn r * csize)
        (if rl_vcn r * csize > from then rl_vcn r * csize else from)
        (if rl_vcn r * csize + rl_length r * csize < to
         then rl_vcn r * csize + rl_length r * csize else to) d = (k, d1)" by fastforce
    have "I d1" by (rule zero_chunks_inv [where I = I, OF assms(1) ch Cons.prems(2)])
    moreover have "(if k \<noteq> 0 then (-1, d1) else zero_raw pw csize rl from to d1) = (rc, d')"
      using Cons.prems(1) False ch by (auto simp: Let_def)
    ultimately show ?thesis using Cons.IH by (cases "k = 0") auto
  qed
qed

section \<open>The emitted extents tile the window\<close>

fun tiles :: "s64 \<Rightarrow> extent list \<Rightarrow> s64 \<Rightarrow> bool" where
  "tiles a [] b \<longleftrightarrow> a = b"
| "tiles a (x # xs) b \<longleftrightarrow> x_logical x = a \<and> 0 < x_length x \<and> tiles (a + x_length x) xs b"

lemma tiles_snoc [simp]:
  "tiles a (xs @ [x]) b \<longleftrightarrow> tiles a xs (x_logical x) \<and> 0 < x_length x \<and> b = x_logical x + x_length x"
  by (induction xs arbitrary: a) auto

text \<open>The device byte an extent gives for a logical byte, and agreement with a reference map.\<close>

definition ext_phys :: "extent \<Rightarrow> s64 \<Rightarrow> s64 option" where
  "ext_phys x b = (if x_physical x = -1 then None else Some (x_physical x + (b - x_logical x)))"

definition ext_agrees :: "(s64 \<Rightarrow> s64 option) \<Rightarrow> extent \<Rightarrow> bool" where
  "ext_agrees f x \<longleftrightarrow>
     (\<forall>b. x_logical x \<le> b \<and> b < x_logical x + x_length x \<longrightarrow> ext_phys x b = f b)"

definition cut :: "s64 \<Rightarrow> (s64 \<Rightarrow> s64 option) \<Rightarrow> s64 \<Rightarrow> s64 option" where
  "cut init_end f b = (if b < init_end then f b else None)"

fun rl_end :: "s64 \<Rightarrow> runlist \<Rightarrow> s64" where
  "rl_end v [] = v"
| "rl_end v (r # rl) = (if rl_length r = 0 then v else rl_end (v + rl_length r) rl)"

lemma rl_end_ge: "contig v rl \<Longrightarrow> v \<le> rl_end v rl"
proof (induction rl arbitrary: v)
  case Nil
  then show ?case by simp
next
  case (Cons r rl)
  show ?case
  proof (cases "rl_length r = 0")
    case False
    with Cons.prems Cons.IH [of "v + rl_length r"] show ?thesis by auto
  qed simp
qed

definition clamp :: "s64 \<Rightarrow> s64 \<Rightarrow> s64 \<Rightarrow> s64" where
  "clamp lo hi x = max lo (min hi x)"

lemma emit_runs_spec:
  assumes "0 < csize" and "0 < len_req"
    and "contig v rl" and "\<And>b. v * csize \<le> b \<Longrightarrow> f b = phys_of csize rl b"
    and "covered = clamp offset (offset + len_req) (v * csize)"
    and "tiles offset acc covered" and "\<forall>x \<in> set acc. ext_agrees (cut init_end f) x"
    and "emit_runs cb csize offset len_req init_end rl acc covered = (xs, cov, full)"
  shows "tiles offset xs cov \<and> (\<forall>x \<in> set xs. ext_agrees (cut init_end f) x) \<and>
    offset \<le> cov \<and> cov \<le> offset + len_req \<and>
    (\<not> full \<longrightarrow> cov = clamp offset (offset + len_req) (rl_end v rl * csize)) \<and>
    (full \<longrightarrow> offset < cov \<and> cb xs) \<and> (offset < cov \<longrightarrow> cov \<le> rl_end v rl * csize)"
  using assms(3-)
proof (induction rl arbitrary: v acc covered)
  case Nil
  then show ?case using assms(2) by (auto simp: clamp_def)
next
  case (Cons r rl)
  show ?case
  proof (cases "rl_length r = 0")
    case True
    with Cons.prems show ?thesis using assms(2) by (auto simp: clamp_def)
  next
    case False
    let ?w = "v + rl_length r" and ?oe = "offset + len_req"
    from False Cons.prems(1) have v: "rl_vcn r = v" "0 < rl_length r" "contig ?w rl" by auto
    have vw: "v * csize < ?w * csize" using v(2) assms(1) by simp
    have f_in: "f b = (if rl_lcn r \<ge> 0 then Some (rl_lcn r * csize + (b - v * csize)) else None)"
      if "v * csize \<le> b" "b < ?w * csize" for b
      using that phys_of_Cons_in [OF Cons.prems(1) False] Cons.prems(2) by simp
    have f_rest: "f b = phys_of csize rl b" if "?w * csize \<le> b" for b
      using that phys_of_Cons_above [OF Cons.prems(1) assms(1) False] Cons.prems(2) vw by simp
    define s where "s = max (v * csize) offset"
    define e where "e = min (?w * csize) ?oe"
    have s': "(if v * csize > offset then v * csize else offset) = s" by (auto simp: s_def)
    have e': "(if v * csize + rl_length r * csize < ?oe then v * csize + rl_length r * csize else ?oe) = e"
      by (auto simp: e_def distrib_right)
    note IH = Cons.IH [OF v(3) f_rest]
    have rend: "rl_end v (r # rl) = rl_end ?w rl" using False by simp
    have wend: "?w * csize \<le> rl_end ?w rl * csize"
      using rl_end_ge [OF v(3)] assms(1) by (simp add: mult_right_mono)
    show ?thesis
    proof (cases "e \<le> s")
      case True
      then have "covered = clamp offset ?oe (?w * csize)"
        using Cons.prems(3) vw assms(2) by (auto simp: clamp_def s_def e_def)
      moreover have "emit_runs cb csize offset len_req init_end rl acc covered = (xs, cov, full)"
        using Cons.prems(6) False True by (simp add: v(1) Let_def s' e')
      ultimately show ?thesis unfolding rend by (intro IH [OF _ _ Cons.prems(4,5)])
    next
      case se: False
      have cov: "covered = s" and cw: "e = clamp offset ?oe (?w * csize)"
        and b_in: "\<And>b. s \<le> b \<Longrightarrow> b < e \<Longrightarrow> v * csize \<le> b \<and> b < ?w * csize"
        and lims: "offset \<le> s" "e \<le> ?oe" "e \<le> ?w * csize"
        using Cons.prems(3) se vw assms(2) by (auto simp: clamp_def s_def e_def)
      let ?P = "rl_lcn r * csize"
      let ?straddle = "0 \<le> rl_lcn r \<and> s < init_end \<and> init_end < e"
      let ?x1 = "\<lparr>x_logical = s, x_physical = ?P + (s - v * csize), x_length = init_end - s\<rparr>"
      let ?x2 = "\<lparr>x_logical = init_end, x_physical = -1, x_length = e - init_end\<rparr>"
      let ?x = "\<lparr>x_logical = s,
        x_physical = (if rl_lcn r < 0 \<or> init_end \<le> s then -1 else ?P + (s - v * csize)),
        x_length = e - s\<rparr>"
      have P0: "0 \<le> ?P + (s - v * csize) \<and> 0 \<le> ?P" if "0 \<le> rl_lcn r"
        using that assms(1) by (simp add: s_def)
      have step: "(if ?straddle then
          if cb (acc @ [?x1]) then (acc @ [?x1], init_end, True)
          else if cb (acc @ [?x1] @ [?x2]) then (acc @ [?x1] @ [?x2], e, True)
          else emit_runs cb csize offset len_req init_end rl (acc @ [?x1] @ [?x2]) e
        else if cb (acc @ [?x]) then (acc @ [?x], e, True)
        else emit_runs cb csize offset len_req init_end rl (acc @ [?x]) e) = (xs, cov, full)"
        using Cons.prems(6) False se P0 by (auto simp: v(1) Let_def s' e')
      have agr: "ext_agrees (cut init_end f) ?x" if "\<not> ?straddle"
        using that se b_in f_in P0
        by (auto simp: ext_agrees_def ext_phys_def cut_def simp del: phys_of.simps)
      have agr1: "ext_agrees (cut init_end f) ?x1" if "?straddle"
        using that b_in f_in P0
        by (auto simp: ext_agrees_def ext_phys_def cut_def simp del: phys_of.simps)
      have agr2: "ext_agrees (cut init_end f) ?x2" if "?straddle"
        by (auto simp: ext_agrees_def ext_phys_def cut_def)
      show ?thesis
      proof (cases ?straddle)
        case True
        have t2: "tiles offset (acc @ [?x1] @ [?x2]) e"
          using Cons.prems(4) cov True tiles_snoc [of offset "acc @ [?x1]" ?x2 e] by simp
        have a2: "\<forall>x \<in> set (acc @ [?x1] @ [?x2]). ext_agrees (cut init_end f) x"
          using Cons.prems(5) agr1 agr2 True by auto
        show ?thesis
        proof (cases "cb (acc @ [?x1]) \<or> cb (acc @ [?x1] @ [?x2])")
          case stop: True
          with step True t2 a2 cov lims wend Cons.prems(4,5) agr1 show ?thesis
            unfolding rend by (auto split: if_splits)
        next
          case go: False
          with step True have
            "emit_runs cb csize offset len_req init_end rl (acc @ [?x1] @ [?x2]) e = (xs, cov, full)"
            by auto
          then show ?thesis unfolding rend by (intro IH [OF _ cw t2 a2])
        qed
      next
        case False
        have t1: "tiles offset (acc @ [?x]) e" using Cons.prems(4) cov se by simp
        have a1: "\<forall>x \<in> set (acc @ [?x]). ext_agrees (cut init_end f) x"
          using Cons.prems(5) agr False by auto
        show ?thesis
        proof (cases "cb (acc @ [?x])")
          case stop: True
          with step False t1 a1 se lims wend show ?thesis unfolding rend by auto
        next
          case go: False
          with step False have
            "emit_runs cb csize offset len_req init_end rl (acc @ [?x]) e = (xs, cov, full)" by auto
          then show ?thesis unfolding rend by (intro IH [OF _ cw t1 a1])
        qed
      qed
    qed
  qed
qed

end
