(* ===== verification/Koio.thy ===== *)
theory Koio
  imports Wr_Table Runlist
begin

text \<open>
  Kernel-offloaded I/O of \<^verbatim>\<open>ntfs_bridge.c\<close>: \<open>nk_blockmap\<close> maps a window of a file to device
  extents for the kernel, \<open>nk_complete_write\<close> and \<open>nk_abort_write\<close> take back its completions,
  \<open>nk_truncate\<close> keeps the high-water mark below the file size.

  libntfs-3g is a parameter: the record \<open>ntfs_lib\<close> holds the calls these functions make, on an
  opaque engine state \<^typ>\<open>'e\<close> that contains the device. An open attribute is the value
  \<open>ntfs_attr\<close>. The state of one call between opening and closing the attribute is the record
  \<open>bm\<close>. A file is named by its full MFT reference, the value of \<open>nk_mref\<close> on its inode.
  \<open>errno\<close> is not modelled here: the functions return \<open>0\<close>, \<open>-1\<close> and \<open>-2\<close> as the code does.
\<close>

section \<open>The engine\<close>

record ntfs_attr =
  non_resident :: bool
  is_compressed :: bool
  is_encrypted :: bool
  data_size :: s64
  initialized_size :: s64
  na_rl :: runlist

text \<open>
  The calls of libntfs-3g. A boolean result is the failure of a call that returns non-zero
  then. \<open>l_attr_lookup\<close> is the search for the attribute's record (context allocation included),
  \<open>l_stamp_record\<close> the store of \<^verbatim>\<open>initialized_size\<close> into that record with the inode marked dirty.
\<close>

record 'e ntfs_lib =
  l_pathname_to_inode :: "'e \<Rightarrow> string \<Rightarrow> u64 option"
  l_attr_open :: "'e \<Rightarrow> u64 \<Rightarrow> ntfs_attr option"
  l_attr_pwrite :: "'e \<Rightarrow> u64 \<Rightarrow> ntfs_attr \<Rightarrow> s64 \<Rightarrow> byte list \<Rightarrow> s64 \<times> 'e \<times> ntfs_attr"
  l_attr_truncate :: "'e \<Rightarrow> u64 \<Rightarrow> ntfs_attr \<Rightarrow> s64 \<Rightarrow> bool \<times> 'e \<times> ntfs_attr"
  l_attr_truncate_solid :: "'e \<Rightarrow> u64 \<Rightarrow> ntfs_attr \<Rightarrow> s64 \<Rightarrow> bool \<times> 'e \<times> ntfs_attr"
  l_attr_force_non_resident :: "'e \<Rightarrow> u64 \<Rightarrow> ntfs_attr \<Rightarrow> bool \<times> 'e \<times> ntfs_attr"
  l_attr_map_whole_runlist :: "'e \<Rightarrow> u64 \<Rightarrow> ntfs_attr \<Rightarrow> bool \<times> 'e \<times> ntfs_attr"
  l_ntfs_pwrite :: "'e \<Rightarrow> s64 \<Rightarrow> byte list \<Rightarrow> s64 \<times> 'e"
  l_attr_lookup :: "'e \<Rightarrow> u64 \<Rightarrow> ntfs_attr \<Rightarrow> bool"
  l_stamp_record :: "'e \<Rightarrow> u64 \<Rightarrow> s64 \<Rightarrow> 'e"
  l_update_times :: "'e \<Rightarrow> u64 \<Rightarrow> 'e"
  l_inode_sync :: "'e \<Rightarrow> u64 \<Rightarrow> bool \<times> 'e"
  l_inode_close :: "'e \<Rightarrow> u64 \<Rightarrow> bool \<times> 'e"

record 'e bm =
  bm_e :: 'e
  bm_na :: ntfs_attr

text \<open>The part of \<^verbatim>\<open>struct nk_volume\<close> that stays fixed while the volume is mounted.\<close>

record nk_vol =
  nv_vol :: ntfs_volume
  nv_bde :: bool

text \<open>The early exits of the C code (\<^verbatim>\<open>goto out\<close>): go on only while the result is zero.\<close>

fun bm_then :: "s64 \<times> 's \<Rightarrow> ('s \<Rightarrow> s64 \<times> 's) \<Rightarrow> s64 \<times> 's" where
  "bm_then (r, s) f = (if r \<noteq> 0 then (r, s) else f s)"

definition stamp_init :: "'e ntfs_lib \<Rightarrow> u64 \<Rightarrow> s64 \<Rightarrow> 'e bm \<Rightarrow> s64 \<times> 'e bm" where
  "stamp_init lib m val s =
     (if \<not> l_attr_lookup lib (bm_e s) m (bm_na s) then (-1, s)
      else (0, s\<lparr>bm_e := l_stamp_record lib (bm_e s) m val,
                 bm_na := (bm_na s)\<lparr>initialized_size := val\<rparr>\<rparr>))"

text \<open>\<open>zero_raw\<close> on the runlist of the open attribute.\<close>

definition bm_zero_raw :: "'e ntfs_lib \<Rightarrow> ntfs_volume \<Rightarrow> s64 \<Rightarrow> s64 \<Rightarrow> 'e bm \<Rightarrow> s64 \<times> 'e bm" where
  "bm_zero_raw lib vol from to s =
     (case zero_raw (l_ntfs_pwrite lib) (cluster_size vol) (na_rl (bm_na s)) from to (bm_e s) of
        (rc, e) \<Rightarrow> (rc, s\<lparr>bm_e := e\<rparr>))"

definition bm_map_runlist :: "'e ntfs_lib \<Rightarrow> u64 \<Rightarrow> 'e bm \<Rightarrow> s64 \<times> 'e bm" where
  "bm_map_runlist lib m s =
     (case l_attr_map_whole_runlist lib (bm_e s) m (bm_na s) of
        (fail, e, na) \<Rightarrow> (if fail then -1 else 0, \<lparr>bm_e = e, bm_na = na\<rparr>))"

text \<open>Map the whole runlist and refuse a bad one.\<close>

definition bm_map_checked :: "'e ntfs_lib \<Rightarrow> ntfs_volume \<Rightarrow> u64 \<Rightarrow> 'e bm \<Rightarrow> s64 \<times> 'e bm" where
  "bm_map_checked lib vol m s =
     bm_then (bm_map_runlist lib m s)
       (\<lambda>s. (if bad_runlist vol (na_rl (bm_na s)) then -1 else 0, s))"

text \<open>
  The loops that write zeros through the attribute, \<open>sz\<close> bytes at a time. A chunk shorter than
  the buffer is the last one, so advancing by the chunk and by the buffer size agree.
\<close>

function pwrite_zeros :: "'e ntfs_lib \<Rightarrow> u64 \<Rightarrow> nat \<Rightarrow> s64 \<Rightarrow> s64 \<Rightarrow> 'e bm \<Rightarrow> s64 \<times> 'e bm" where
  "pwrite_zeros lib m sz p e s =
     (if p < e \<and> 0 < sz then
        let chunk = (if e - p < int sz then e - p else int sz);
            (n, eng, na) = l_attr_pwrite lib (bm_e s) m (bm_na s) p (replicate (nat chunk) 0);
            s' = \<lparr>bm_e = eng, bm_na = na\<rparr>
        in if n \<noteq> chunk then (-1, s') else pwrite_zeros lib m sz (p + chunk) e s'
      else (0, s))"
  by pat_completeness auto
termination
  by (relation "measure (\<lambda>(lib, m, sz, p, e, s). nat (e - p))") (auto split: if_splits)

declare pwrite_zeros.simps [simp del]

section \<open>Block map\<close>

text \<open>Residency, growth and the first mapping of the runlist.\<close>

definition bm_make_nonres :: "'e ntfs_lib \<Rightarrow> ntfs_volume \<Rightarrow> u64 \<Rightarrow> 'e bm \<Rightarrow> s64 \<times> 'e bm" where
  "bm_make_nonres lib vol m s =
     (if non_resident (bm_na s) then (0, s)
      else if vol_readonly vol then (-2, s)
      else case l_attr_force_non_resident lib (bm_e s) m (bm_na s) of
             (fail, e, na) \<Rightarrow> (if fail then -2 else 0, \<lparr>bm_e = e, bm_na = na\<rparr>))"

definition bm_grow :: "'e ntfs_lib \<Rightarrow> u64 \<Rightarrow> s64 \<Rightarrow> s64 \<Rightarrow> bool \<Rightarrow> 'e bm \<Rightarrow> s64 \<times> 'e bm" where
  "bm_grow lib m offset len for_write s =
     (if for_write \<and> offset + len > data_size (bm_na s) then
        case l_attr_truncate_solid lib (bm_e s) m (bm_na s) (offset + len) of
          (fail, e, na) \<Rightarrow> (if fail then -1 else 0, \<lparr>bm_e = e, bm_na = na\<rparr>)
      else (0, s))"

definition bm_prepare ::
  "'e ntfs_lib \<Rightarrow> ntfs_volume \<Rightarrow> u64 \<Rightarrow> s64 \<Rightarrow> s64 \<Rightarrow> bool \<Rightarrow> 'e bm \<Rightarrow> s64 \<times> 'e bm" where
  "bm_prepare lib vol m offset len for_write s =
     (if is_compressed (bm_na s) \<or> is_encrypted (bm_na s) then (-2, s)
      else bm_then (bm_make_nonres lib vol m s)
             (\<lambda>s. bm_then (bm_grow lib m offset len for_write s) (bm_map_checked lib vol m)))"

text \<open>
  Zero the gap below a write window: through the attribute while nothing is in flight, straight
  on the clusters above the high-water mark otherwise.
\<close>

definition bm_zero_gap ::
  "'e ntfs_lib \<Rightarrow> ntfs_volume \<Rightarrow> u64 \<Rightarrow> s64 \<Rightarrow> s64 \<Rightarrow> 'e bm \<Rightarrow> s64 \<times> 'e bm" where
  "bm_zero_gap lib vol m hw offset s =
     (let init = initialized_size (bm_na s) in
      if hw \<le> init then
        bm_then (pwrite_zeros lib m 65536 init offset s) (bm_map_checked lib vol m)
      else if offset > hw then
        (case bm_zero_raw lib vol hw offset s of (rc, s') \<Rightarrow> (if rc \<noteq> 0 then -1 else 0, s'))
      else (0, s))"

text \<open>The first sparse run that overlaps the window, clipped to it.\<close>

fun find_hole :: "s64 \<Rightarrow> s64 \<Rightarrow> s64 \<Rightarrow> runlist \<Rightarrow> (s64 \<times> s64) option" where
  "find_hole csize offset len [] = None"
| "find_hole csize offset len (r # rl) =
     (if rl_length r = 0 then None
      else if rl_lcn r \<noteq> LCN_HOLE then find_hole csize offset len rl
      else
        let log = rl_vcn r * csize; rlen = rl_length r * csize;
            s = (if log > offset then log else offset);
            e = (if log + rlen < offset + len then log + rlen else offset + len)
        in if e > s then Some (s, e) else find_hole csize offset len rl)"

text \<open>
  Give one hole real clusters. Writing past \<^verbatim>\<open>initialized_size\<close> makes the engine zero-fill from
  it, so with writes in flight below the hole the in-memory value is moved to the mark first.
\<close>

definition bm_fill_hole ::
  "'e ntfs_lib \<Rightarrow> ntfs_volume \<Rightarrow> u64 \<Rightarrow> s64 \<Rightarrow> s64 \<Rightarrow> s64 \<Rightarrow> 'e bm \<Rightarrow> s64 \<times> 'e bm" where
  "bm_fill_hole lib vol m hw start end s =
     (let init = initialized_size (bm_na s);
          s1 = (if hw > init \<and> start > init
                then s\<lparr>bm_na := (bm_na s)\<lparr>initialized_size := hw\<rparr>\<rparr> else s)
      in bm_then (pwrite_zeros lib m 65536 start end s1) (bm_map_checked lib vol m))"

text \<open>
  The loop over the holes of the window. It runs until no hole is left; whether that happens is
  up to the engine, so the result is an option.
\<close>

partial_function (option) bm_fill_holes ::
  "'e ntfs_lib \<Rightarrow> ntfs_volume \<Rightarrow> u64 \<Rightarrow> s64 \<Rightarrow> s64 \<Rightarrow> s64 \<Rightarrow> 'e bm \<Rightarrow> (s64 \<times> 'e bm) option" where
  "bm_fill_holes lib vol m hw offset len s =
     (case find_hole (cluster_size vol) offset len (na_rl (bm_na s)) of
        None \<Rightarrow> Some (0, s)
      | Some (start, end) \<Rightarrow>
          (case bm_fill_hole lib vol m hw start end s of
             (r, s2) \<Rightarrow> if r \<noteq> 0 then Some (r, s2) else bm_fill_holes lib vol m hw offset len s2))"

text \<open>Put \<^verbatim>\<open>initialized_size\<close> back to what it was before the holes were filled.\<close>

definition bm_restore_init :: "'e ntfs_lib \<Rightarrow> u64 \<Rightarrow> s64 \<Rightarrow> 'e bm \<Rightarrow> s64 \<times> 'e bm" where
  "bm_restore_init lib m oi s =
     (if initialized_size (bm_na s) > oi then
        (case stamp_init lib m oi s of (rc, s') \<Rightarrow> (if rc \<noteq> 0 then -1 else 0, s'))
      else (0, s))"

text \<open>
  Where data ends and zeros begin for a read map: the end of the initialised data rounded up to
  the block size, with the partial block zeroed first unless a write may be in flight over it.
\<close>

definition bm_read_end ::
  "'e ntfs_lib \<Rightarrow> ntfs_volume \<Rightarrow> u64 \<Rightarrow> s64 \<Rightarrow> s64 \<Rightarrow> 'e bm \<Rightarrow> s64 \<times> s64 \<times> 'e bm" where
  "bm_read_end lib vol m bs hw s =
     (let init_end = initialized_size (bm_na s) in
      if init_end < 0 then (-1, init_end, s)
      else if init_end mod bs = 0 then (0, init_end, s)
      else
        let zend0 = init_end + (bs - init_end mod bs);
            zend = (if zend0 > data_size (bm_na s) then data_size (bm_na s) else zend0)
        in if zend > init_end \<and> vol_readonly vol then (-2, init_end, s)
           else if zend > init_end \<and> hw \<le> init_end then
             (case bm_then (pwrite_zeros lib m 4096 init_end zend s) (bm_map_checked lib vol m) of
                (r, s') \<Rightarrow>
                  (r, (initialized_size (bm_na s') + bs - 1) div bs * bs, s'))
           else (0, (init_end + bs - 1) div bs * bs, s))"

text \<open>
  Hand the extents of the window to the host. A write window must be covered by real runs; a
  read past the last run is zeros. The result: return value, extents, end of the window handed
  out.
\<close>

definition bm_emit ::
  "nk_extent_cb \<Rightarrow> s64 \<Rightarrow> s64 \<Rightarrow> s64 \<Rightarrow> bool \<Rightarrow> s64 \<Rightarrow> runlist \<Rightarrow> s64 \<times> extent list \<times> s64" where
  "bm_emit cb csize offset len for_write init_end rl =
     (case emit_runs cb csize offset len init_end rl [] offset of
        (xs, covered, full) \<Rightarrow>
          if \<not> full \<and> covered < offset + len then
            (if for_write then (-1, xs, offset + len)
             else (0, xs @ [\<lparr>x_logical = covered, x_physical = -1,
                             x_length = offset + len - covered\<rparr>], offset + len))
          else (0, xs, if full then covered else offset + len))"

text \<open>The write half: gap, holes, and \<^verbatim>\<open>initialized_size\<close> restored. The third component is \<^verbatim>\<open>oi\<close>.\<close>

definition bm_write_part ::
  "'e ntfs_lib \<Rightarrow> ntfs_volume \<Rightarrow> u64 \<Rightarrow> s64 \<Rightarrow> s64 \<Rightarrow> s64 \<Rightarrow> 'e bm \<Rightarrow> (s64 \<times> s64 \<times> 'e bm) option" where
  "bm_write_part lib vol m hw offset len s =
     (case bm_zero_gap lib vol m hw offset s of
        (r, s1) \<Rightarrow>
          if r \<noteq> 0 then Some (r, -1, s1)
          else
            let oi = initialized_size (bm_na s1) in
            (case bm_fill_holes lib vol m hw offset len s1 of
               None \<Rightarrow> None
             | Some rs \<Rightarrow> (case bm_then rs (bm_restore_init lib m oi) of (r, s2) \<Rightarrow> Some (r, oi, s2))))"

record 'e bm_result =
  br_rc :: s64
  br_extents :: "extent list"
  br_wr :: wr_array
  br_e :: 'e
  br_na :: ntfs_attr

text \<open>
  The label \<^verbatim>\<open>out\<close>: a failed hole fill must not leave \<^verbatim>\<open>initialized_size\<close> over writes in flight;
  then close, sync and close the inode. \<open>br_na\<close> is the attribute as it was closed.
\<close>

definition bm_out ::
  "'e ntfs_lib \<Rightarrow> u64 \<Rightarrow> s64 \<Rightarrow> s64 \<Rightarrow> extent list \<Rightarrow> wr_array \<Rightarrow> 'e bm \<Rightarrow> 'e bm_result" where
  "bm_out lib m oi r xs wr s =
     (let s1 = (if oi \<ge> 0 \<and> initialized_size (bm_na s) > oi then snd (stamp_init lib m oi s) else s);
          (f1, e1) = l_inode_sync lib (bm_e s1) m;
          r1 = (if f1 \<and> r = 0 then -1 else r);
          (f2, e2) = l_inode_close lib e1 m;
          r2 = (if f2 \<and> r1 = 0 then -1 else r1)
      in \<lparr>br_rc = r2, br_extents = xs, br_wr = wr, br_e = e2, br_na = bm_na s1\<rparr>)"

text \<open>Emission and the record of the window handed out; \<open>mem\<close> is whether \<^verbatim>\<open>realloc\<close> succeeds.\<close>

definition bm_hand_out ::
  "'e ntfs_lib \<Rightarrow> ntfs_volume \<Rightarrow> u64 \<Rightarrow> bool \<Rightarrow> wr_array \<Rightarrow> nk_extent_cb \<Rightarrow> s64 \<Rightarrow> s64 \<Rightarrow> bool \<Rightarrow>
   s64 \<Rightarrow> s64 \<Rightarrow> s64 \<Rightarrow> 'e bm \<Rightarrow> 'e bm_result" where
  "bm_hand_out lib vol m mem wr cb offset len for_write hw oi init_end s =
     (case bm_emit cb (cluster_size vol) offset len for_write init_end (na_rl (bm_na s)) of
        (r, xs, mapped_end) \<Rightarrow>
          if r = 0 \<and> for_write \<and> mapped_end > hw \<and> mapped_end > initialized_size (bm_na s) then
            (case wr_set mem wr m mapped_end of
               None \<Rightarrow> bm_out lib m oi (-1) xs wr s
             | Some wr' \<Rightarrow> bm_out lib m oi 0 xs wr' s)
          else bm_out lib m oi r xs wr s)"

definition bm_body ::
  "'e ntfs_lib \<Rightarrow> ntfs_volume \<Rightarrow> u64 \<Rightarrow> bool \<Rightarrow> wr_array \<Rightarrow> nk_extent_cb \<Rightarrow> s64 \<Rightarrow> s64 \<Rightarrow> bool \<Rightarrow> s64 \<Rightarrow>
   'e bm \<Rightarrow> 'e bm_result option" where
  "bm_body lib vol m mem wr cb offset len for_write bs s =
     (case bm_prepare lib vol m offset len for_write s of
        (r, s1) \<Rightarrow>
          if r \<noteq> 0 then Some (bm_out lib m (-1) r [] wr s1)
          else if for_write then
            (case bm_write_part lib vol m (wr_hwm wr m) offset len s1 of
               None \<Rightarrow> None
             | Some (r, oi, s2) \<Rightarrow>
                 Some (if r \<noteq> 0 then bm_out lib m oi r [] wr s2
                       else bm_hand_out lib vol m mem wr cb offset len True (wr_hwm wr m) oi INT64_MAX s2))
          else
            (case bm_read_end lib vol m bs (wr_hwm wr m) s1 of
               (r, init_end, s2) \<Rightarrow>
                 Some (if r \<noteq> 0 then bm_out lib m (-1) r [] wr s2
                       else bm_hand_out lib vol m mem wr cb offset len False 0 (-1) init_end s2)))"

text \<open>
  The result without an open attribute (\<open>Inl\<close>) is the return value and the engine after the
  inode, if any, was closed.
\<close>

definition nk_blockmap ::
  "'e ntfs_lib \<Rightarrow> nk_vol \<Rightarrow> bool \<Rightarrow> wr_array \<Rightarrow> 'e \<Rightarrow> string \<Rightarrow> s64 \<Rightarrow> s64 \<Rightarrow> bool \<Rightarrow> s64 \<Rightarrow> nk_extent_cb \<Rightarrow>
   ((s64 \<times> 'e) + 'e bm_result) option" where
  "nk_blockmap lib nv mem wr e path offset len for_write blocksize cb =
     (if offset < 0 \<or> len \<le> 0 \<or> offset > INT64_MAX - len then Some (Inl (-1, e))
      else
        let bs = (if blocksize \<ge> 512 then blocksize else 512) in
        if nv_bde nv \<or> cluster_size (nv_vol nv) mod bs \<noteq> 0 then Some (Inl (-2, e))
        else
          (case l_pathname_to_inode lib e path of
             None \<Rightarrow> Some (Inl (-1, e))
           | Some m \<Rightarrow>
               (case l_attr_open lib e m of
                  None \<Rightarrow> Some (Inl (-1, snd (l_inode_close lib e m)))
                | Some na \<Rightarrow>
                    map_option Inr
                      (bm_body lib (nv_vol nv) m mem wr cb offset len for_write bs
                         \<lparr>bm_e = e, bm_na = na\<rparr>))))"

section \<open>Completions\<close>

text \<open>The label \<^verbatim>\<open>done\<close> of \<open>nk_complete_write\<close>.\<close>

definition cw_done :: "'e ntfs_lib \<Rightarrow> u64 \<Rightarrow> s64 \<Rightarrow> wr_array \<Rightarrow> 'e bm \<Rightarrow> 'e bm_result" where
  "cw_done lib m r wr s = bm_out lib m (-1) r [] wr s"

definition nk_complete_write ::
  "'e ntfs_lib \<Rightarrow> nk_vol \<Rightarrow> wr_array \<Rightarrow> 'e \<Rightarrow> string \<Rightarrow> s64 \<Rightarrow> s64 \<Rightarrow> (s64 \<times> 'e) + 'e bm_result" where
  "nk_complete_write lib nv wr e path offset len =
     (if offset < 0 \<or> len \<le> 0 \<or> offset > INT64_MAX - len then Inl (-1, e)
      else
        (case l_pathname_to_inode lib e path of
           None \<Rightarrow> Inl (-1, e)
         | Some m \<Rightarrow>
             (case l_attr_open lib e m of
                None \<Rightarrow> Inl (-1, snd (l_inode_close lib e m))
              | Some na \<Rightarrow>
                  (let s = \<lparr>bm_e = e, bm_na = na\<rparr> in
                   Inr (if offset \<ge> data_size na then cw_done lib m 0 wr s
                   else
                     let target0 = offset + len;
                         target = (if target0 > data_size na then data_size na else target0);
                         h = wr_hwm wr m;
                         floor = (if h > initialized_size na then h else initialized_size na);
                         (r1, s1) =
                           (if non_resident na \<and> offset > floor then
                              bm_then (bm_map_runlist lib m s) (bm_zero_raw lib (nv_vol nv) floor offset)
                            else (0, s))
                     in if r1 \<noteq> 0 then cw_done lib m (-1) wr s1
                        else
                          let (r2, s2) =
                                (if non_resident (bm_na s1) \<and> initialized_size (bm_na s1) < target
                                 then stamp_init lib m target s1 else (0, s1))
                          in if r2 \<noteq> 0 then cw_done lib m (-1) wr s2
                             else cw_done lib m 0
                                    (if initialized_size (bm_na s2) \<ge> wr_hwm wr m
                                     then wr_drop wr m else wr) s2)))))"

definition nk_abort_write ::
  "'e ntfs_lib \<Rightarrow> nk_vol \<Rightarrow> wr_array \<Rightarrow> 'e \<Rightarrow> string \<Rightarrow> s64 \<Rightarrow> s64 \<Rightarrow> s64 \<times> wr_array \<times> 'e" where
  "nk_abort_write lib nv wr e path offset len =
     (if offset < 0 \<or> len \<le> 0 \<or> offset > INT64_MAX - len then (-1, wr, e)
      else
        (case l_pathname_to_inode lib e path of
           None \<Rightarrow> (-1, wr, e)
         | Some m \<Rightarrow>
             (case wr_find wr m of
                Some i \<Rightarrow>
                  if offset < hwm (wr ! i) then
                    let na = l_attr_open lib e m;
                        init = (case na of Some a \<Rightarrow> initialized_size a | None \<Rightarrow> 0)
                    in if offset + len \<ge> hwm (wr ! i) then
                         let wr1 = wr[i := (wr ! i)\<lparr>hwm := offset\<rparr>];
                             wr2 = (if offset \<le> init then wr_drop wr1 m else wr1)
                         in (0, wr2, snd (l_inode_close lib e m))
                       else
                         (case na of
                            Some a \<Rightarrow>
                              if non_resident a then
                                let from = (if offset > init then offset else init);
                                    (r, s) =
                                      (if from < offset + len then
                                         bm_then (bm_map_runlist lib m \<lparr>bm_e = e, bm_na = a\<rparr>)
                                           (bm_zero_raw lib (nv_vol nv) from (offset + len))
                                       else (0, \<lparr>bm_e = e, bm_na = a\<rparr>))
                                in (if r \<noteq> 0 then -1 else 0, wr, snd (l_inode_close lib (bm_e s) m))
                              else (0, wr, snd (l_inode_close lib e m))
                          | None \<Rightarrow> (0, wr, snd (l_inode_close lib e m)))
                  else (0, wr, snd (l_inode_close lib e m))
              | None \<Rightarrow> (0, wr, snd (l_inode_close lib e m)))))"

text \<open>\<open>nk_truncate\<close>: the mark of the file is lowered to the new size whether or not the truncation worked.\<close>

definition nk_truncate ::
  "'e ntfs_lib \<Rightarrow> wr_array \<Rightarrow> 'e \<Rightarrow> string \<Rightarrow> s64 \<Rightarrow> s64 \<times> wr_array \<times> 'e" where
  "nk_truncate lib wr e path sz =
     (case l_pathname_to_inode lib e path of
        None \<Rightarrow> (-1, wr, e)
      | Some m \<Rightarrow>
          let (fail, e1) =
                (case l_attr_open lib e m of
                   None \<Rightarrow> (True, e)
                 | Some na \<Rightarrow> (case l_attr_truncate lib e m na sz of (f, e1, na1) \<Rightarrow> (f, e1)));
              wr1 = (case wr_find wr m of
                       Some i \<Rightarrow> if hwm (wr ! i) > sz then wr[i := (wr ! i)\<lparr>hwm := sz\<rparr>] else wr
                     | None \<Rightarrow> wr);
              e2 = l_update_times lib e1 m;
              (f2, e3) = l_inode_close lib e2 m
          in (if fail \<or> f2 then -1 else 0, wr1, e3))"

end
