(* ===== verification/Koio_Props.thy ===== *)
theory Koio_Props
  imports Koio
begin

text \<open>
  What the block map and the completion calls guarantee, given the documented behaviour of the
  libntfs-3g calls they make: the extents handed to the kernel, the high-water mark, the value
  of \<^verbatim>\<open>initialized_size\<close>, and the device bytes that change.
\<close>

section \<open>Sequencing\<close>

lemma bm_then_0E:
  assumes "bm_then (r, s) f = (0, s')"
  obtains "r = 0" and "f s = (0, s')"
  using assms by (auto split: if_splits)

lemma bm_then_cases:
  obtains "r \<noteq> 0" and "bm_then (r, s) f = (r, s)" | "r = 0" and "bm_then (r, s) f = f s"
  by (cases "r = 0") auto

lemma pwrite_zeros_rc: "fst (pwrite_zeros lib m sz p e s) \<in> {0, -1}"
proof (induction lib m sz p e s rule: pwrite_zeros.induct)
  case (1 lib m sz p e s)
  show ?case
  proof (cases "p < e \<and> 0 < sz")
    case False
    then show ?thesis by (auto simp: pwrite_zeros.simps [of lib m sz p e s])
  next
    case True
    define c where "c = (if e - p < int sz then e - p else int sz)"
    obtain n e1 na1 where w: "l_attr_pwrite lib (bm_e s) m (bm_na s) p (replicate (nat c) 0) = (n, e1, na1)"
      by (metis prod_cases3)
    have "pwrite_zeros lib m sz p e s = (if n \<noteq> c then (-1, \<lparr>bm_e = e1, bm_na = na1\<rparr>)
        else pwrite_zeros lib m sz (p + c) e \<lparr>bm_e = e1, bm_na = na1\<rparr>)"
      using True w by (simp add: pwrite_zeros.simps [of lib m sz p e s] Let_def flip: c_def)
    with "1.IH" [OF True c_def w [symmetric] refl refl refl] show ?thesis by auto
  qed
qed

section \<open>The runlist after a checked mapping\<close>

text \<open>
  Documented behaviour of \<^verbatim>\<open>ntfs_attr_map_whole_runlist\<close>: on success the runlist describes the
  attribute from VCN 0 on, and nothing else of the attribute changed.
\<close>

definition maps_from_zero :: "'e ntfs_lib \<Rightarrow> bool" where
  "maps_from_zero lib \<longleftrightarrow>
     (\<forall>e m na e' na'. l_attr_map_whole_runlist lib e m na = (False, e', na') \<longrightarrow>
        (live_runs (na_rl na') = [] \<or> rl_vcn (hd (live_runs (na_rl na'))) = 0) \<and>
        na' = na\<lparr>na_rl := na_rl na'\<rparr>)"

definition rl_good :: "ntfs_volume \<Rightarrow> ntfs_attr \<Rightarrow> bool" where
  "rl_good vol na \<longleftrightarrow> contig 0 (na_rl na) \<and> (\<forall>r \<in> set (live_runs (na_rl na)). run_in_volume vol r)"

lemma bm_map_runlist_0:
  assumes "maps_from_zero lib" and "bm_map_runlist lib m s = (0, s')"
  shows "live_runs (na_rl (bm_na s')) = [] \<or> rl_vcn (hd (live_runs (na_rl (bm_na s')))) = 0"
    and "bm_na s' = (bm_na s)\<lparr>na_rl := na_rl (bm_na s')\<rparr>"
proof -
  obtain e na where l: "l_attr_map_whole_runlist lib (bm_e s) m (bm_na s) = (False, e, na)"
    and s': "s' = \<lparr>bm_e = e, bm_na = na\<rparr>"
    using assms(2) by (auto simp: bm_map_runlist_def split: prod.splits if_splits)
  from assms(1) l have
    "(live_runs (na_rl na) = [] \<or> rl_vcn (hd (live_runs (na_rl na))) = 0) \<and>
     na = (bm_na s)\<lparr>na_rl := na_rl na\<rparr>"
    unfolding maps_from_zero_def by blast
  then show "live_runs (na_rl (bm_na s')) = [] \<or> rl_vcn (hd (live_runs (na_rl (bm_na s')))) = 0"
    and "bm_na s' = (bm_na s)\<lparr>na_rl := na_rl (bm_na s')\<rparr>"
    by (simp_all add: s')
qed

lemma bm_map_checked_0:
  assumes "maps_from_zero lib" and "0 < cluster_size vol" and "bm_map_checked lib vol m s = (0, s')"
  shows "rl_good vol (bm_na s')" and "bm_na s' = (bm_na s)\<lparr>na_rl := na_rl (bm_na s')\<rparr>"
proof -
  obtain r s1 where mp: "bm_map_runlist lib m s = (r, s1)" by fastforce
  with assms(3) have "r = 0" and "s1 = s'" and good: "\<not> bad_runlist vol (na_rl (bm_na s'))"
    by (auto simp: bm_map_checked_def split: if_splits)
  with mp have mp: "bm_map_runlist lib m s = (0, s')" by simp
  note m0 = bm_map_runlist_0 [OF assms(1) mp]
  show "bm_na s' = (bm_na s)\<lparr>na_rl := na_rl (bm_na s')\<rparr>" by (rule m0(2))
  show "rl_good vol (bm_na s')"
    using contig_from_bad [OF assms(2) good m0(1)] bad_runlist_from_sound [OF assms(2)] good
    by (auto simp: rl_good_def bad_runlist_def)
qed

lemma stamp_init_na:
  "stamp_init lib m val s = (rc, s') \<Longrightarrow>
    na_rl (bm_na s') = na_rl (bm_na s) \<and> data_size (bm_na s') = data_size (bm_na s)"
  by (auto simp: stamp_init_def split: if_splits)

lemma bm_prepare_0:
  assumes "maps_from_zero lib" and "0 < cluster_size vol"
    and "bm_prepare lib vol m offset len for_write s = (0, s')"
  shows "rl_good vol (bm_na s')"
proof -
  obtain r1 s1 where 1: "bm_make_nonres lib vol m s = (r1, s1)" by fastforce
  obtain r2 s2 where 2: "bm_grow lib m offset len for_write s1 = (r2, s2)" by fastforce
  from assms(3) 1 2 have "bm_map_checked lib vol m s2 = (0, s')"
    by (auto simp: bm_prepare_def split: if_splits)
  then show ?thesis using bm_map_checked_0 [OF assms(1,2)] by blast
qed

section \<open>Holes\<close>

lemma phys_of_above:
  assumes "contig v rl" and "0 < csize" and "rl_end v rl * csize \<le> b"
  shows "phys_of csize rl b = None"
  using assms(1,3)
proof (induction rl arbitrary: v)
  case Nil
  then show ?case by simp
next
  case (Cons r rl)
  show ?case
  proof (cases "rl_length r = 0")
    case True
    then show ?thesis by simp
  next
    case False
    with Cons.prems(1) have v: "rl_vcn r = v" "0 < rl_length r" "contig (v + rl_length r) rl" by auto
    have "v + rl_length r \<le> rl_end (v + rl_length r) rl" by (rule rl_end_ge [OF v(3)])
    then have "(v + rl_length r) * csize \<le> rl_end v (r # rl) * csize"
      using False assms(2) by (simp add: mult_right_mono)
    with Cons v False show ?thesis by auto
  qed
qed

lemma no_hole_mapped:
  assumes "contig v rl" and "0 < csize" and "\<forall>r \<in> set (live_runs rl). LCN_HOLE \<le> rl_lcn r"
    and "find_hole csize offset len rl = None"
    and "offset \<le> b" and "b < offset + len" and "v * csize \<le> b" and "b < rl_end v rl * csize"
  shows "\<exists>x \<ge> 0. phys_of csize rl b = Some x"
  using assms(1,3,4,7,8)
proof (induction rl arbitrary: v)
  case Nil
  then show ?case by simp
next
  case (Cons r rl)
  have len: "rl_length r \<noteq> 0" using Cons.prems(4,5) by auto
  with Cons.prems(1) have v: "rl_vcn r = v" "0 < rl_length r" "contig (v + rl_length r) rl" by auto
  have hole: "find_hole csize offset len rl = None"
    using Cons.prems(3) len by (auto simp: Let_def split: if_splits)
  show ?case
  proof (cases "b < (v + rl_length r) * csize")
    case True
    have "rl_lcn r \<noteq> LCN_HOLE"
      using Cons.prems(3,4) len True assms(5,6) v
      by (auto simp: Let_def distrib_right split: if_splits)
    moreover have "LCN_HOLE \<le> rl_lcn r" using Cons.prems(2) len by simp
    ultimately have "0 \<le> rl_lcn r" by (simp add: LCN_HOLE_def)
    with True Cons.prems(4) v len assms(2) show ?thesis by auto
  next
    case False
    with Cons.IH [OF v(3) _ hole] Cons.prems(2,5) len v show ?thesis by auto
  qed
qed

text \<open>The invariant rule of the hole loop: what every filled hole keeps, the loop keeps.\<close>

lemma bm_fill_holes_rule:
  fixes lib :: "'e ntfs_lib"
  assumes ret: "bm_fill_holes lib vol m hw offset len s = Some (r, s')"
    and base: "Inv s"
    and step: "\<And>s start end s2. Inv s \<Longrightarrow>
      find_hole (cluster_size vol) offset len (na_rl (bm_na s)) = Some (start, end) \<Longrightarrow>
      bm_fill_hole lib vol m hw start end s = (0, s2) \<Longrightarrow> Inv s2"
  shows "(r = 0 \<longrightarrow> Inv s' \<and> find_hole (cluster_size vol) offset len (na_rl (bm_na s')) = None) \<and>
    (r \<noteq> 0 \<longrightarrow> (\<exists>s0 start end. Inv s0 \<and>
       find_hole (cluster_size vol) offset len (na_rl (bm_na s0)) = Some (start, end) \<and>
       bm_fill_hole lib vol m hw start end s0 = (r, s')))"
proof -
  let ?Q = "\<lambda>rs. (fst rs = 0 \<longrightarrow> Inv (snd rs) \<and>
        find_hole (cluster_size vol) offset len (na_rl (bm_na (snd rs))) = None) \<and>
      (fst rs \<noteq> 0 \<longrightarrow> (\<exists>s0 start end. Inv s0 \<and>
        find_hole (cluster_size vol) offset len (na_rl (bm_na s0)) = Some (start, end) \<and>
        bm_fill_hole lib vol m hw start end s0 = rs))"
  have "(lib, vol, m, hw, offset, len) = (lib, vol, m, hw, offset, len) \<longrightarrow> Inv s \<longrightarrow> ?Q (r, s')"
  proof (rule bm_fill_holes.raw_induct [where
        P = "\<lambda>(lib' :: 'e ntfs_lib) vol' m' hw' offset' len' s rs.
          (lib', vol', m', hw', offset', len') = (lib, vol, m, hw, offset, len) \<longrightarrow> Inv s \<longrightarrow> ?Q rs",
        OF _ ret], intro impI)
    fix fh :: "'e ntfs_lib \<Rightarrow> ntfs_volume \<Rightarrow> u64 \<Rightarrow> s64 \<Rightarrow> s64 \<Rightarrow> s64 \<Rightarrow> 'e bm \<Rightarrow> (s64 \<times> 'e bm) option"
    fix lib' :: "'e ntfs_lib" and vol' m' hw' offset' len' s rs
    assume IH: "\<And>(lib' :: 'e ntfs_lib) vol' m' hw' offset' len' s rs.
        fh lib' vol' m' hw' offset' len' s = Some rs \<Longrightarrow>
        (lib', vol', m', hw', offset', len') = (lib, vol, m, hw, offset, len) \<longrightarrow> Inv s \<longrightarrow> ?Q rs"
      and body: "(case find_hole (cluster_size vol') offset' len' (na_rl (bm_na s)) of
          None \<Rightarrow> Some (0, s)
        | Some (start, end) \<Rightarrow>
            (case bm_fill_hole lib' vol' m' hw' start end s of
               (r, s2) \<Rightarrow> if r \<noteq> 0 then Some (r, s2) else fh lib' vol' m' hw' offset' len' s2)) = Some rs"
      and eq: "(lib', vol', m', hw', offset', len') = (lib, vol, m, hw, offset, len)" and inv: "Inv s"
    show "?Q rs"
    proof (cases "find_hole (cluster_size vol) offset len (na_rl (bm_na s))")
      case None
      with body eq inv show ?thesis by auto
    next
      case (Some se)
      obtain start "end" where se: "se = (start, end)" by fastforce
      obtain r2 s2 where fill: "bm_fill_hole lib vol m hw start end s = (r2, s2)" by fastforce
      show ?thesis
      proof (cases "r2 = 0")
        case True
        with body eq Some se fill have "fh lib vol m hw offset len s2 = Some rs" by simp
        with IH step [OF inv Some [unfolded se]] fill True show ?thesis by blast
      next
        case False
        with body eq Some se fill have "rs = (r2, s2)" by simp
        with False inv Some se fill show ?thesis by auto
      qed
    qed
  qed
  with base show ?thesis by auto
qed

lemma bm_fill_hole_0:
  assumes "maps_from_zero lib" and "0 < cluster_size vol" and "bm_fill_hole lib vol m hw start end s = (0, s')"
  shows "rl_good vol (bm_na s')"
proof -
  obtain s1 r0 s0 where "bm_then (r0, s0) (bm_map_checked lib vol m) = (0, s')"
    using assms(3) by (metis bm_fill_hole_def surj_pair)
  then have "bm_map_checked lib vol m s0 = (0, s')" by (auto split: if_splits)
  then show ?thesis using bm_map_checked_0 [OF assms(1,2)] by blast
qed

text \<open>When the hole loop ends without an error, the runlist is good and the window has no hole left.\<close>

lemma bm_fill_holes_0:
  assumes "maps_from_zero lib" and "0 < cluster_size vol" and "rl_good vol (bm_na s)"
    and "bm_fill_holes lib vol m hw offset len s = Some (0, s')"
  shows "rl_good vol (bm_na s') \<and> find_hole (cluster_size vol) offset len (na_rl (bm_na s')) = None"
  using bm_fill_holes_rule [OF assms(4), where Inv = "\<lambda>s. rl_good vol (bm_na s)"]
    bm_fill_hole_0 [OF assms(1,2)] assms(3) by blast

lemma bm_zero_gap_0:
  assumes "maps_from_zero lib" and "0 < cluster_size vol" and "rl_good vol (bm_na s)"
    and "bm_zero_gap lib vol m hw offset s = (0, s')"
  shows "rl_good vol (bm_na s')"
proof (cases "hw \<le> initialized_size (bm_na s)")
  case True
  obtain r s1 where pz: "pwrite_zeros lib m 65536 (initialized_size (bm_na s)) offset s = (r, s1)"
    by fastforce
  with True assms(4) have "bm_map_checked lib vol m s1 = (0, s')"
    by (auto simp: bm_zero_gap_def split: if_splits)
  then show ?thesis using bm_map_checked_0 [OF assms(1,2)] by blast
next
  case False
  with assms(3,4) show ?thesis
    by (auto simp: bm_zero_gap_def bm_zero_raw_def split: if_splits prod.splits)
qed

lemma bm_write_part_0:
  assumes "maps_from_zero lib" and "0 < cluster_size vol" and "rl_good vol (bm_na s)"
    and "bm_write_part lib vol m hw offset len s = Some (0, oi, s')"
  shows "rl_good vol (bm_na s')"
    and "find_hole (cluster_size vol) offset len (na_rl (bm_na s')) = None"
    and "initialized_size (bm_na s') \<le> oi"
proof -
  obtain r s1 where zg: "bm_zero_gap lib vol m hw offset s = (r, s1)" by fastforce
  with assms(4) have r: "r = 0" and oi: "oi = initialized_size (bm_na s1)"
    by (auto simp: bm_write_part_def Let_def split: if_splits option.splits prod.splits)
  with assms(4) zg obtain r2 s2 where
    fh: "bm_fill_holes lib vol m hw offset len s1 = Some (r2, s2)" and
    th: "bm_then (r2, s2) (bm_restore_init lib m oi) = (0, s')"
    by (auto simp: bm_write_part_def Let_def simp del: bm_then.simps
        split: if_splits option.splits prod.splits)
  from th have r2: "r2 = 0" and re: "bm_restore_init lib m oi s2 = (0, s')" by (auto split: if_splits)
  from zg r have "rl_good vol (bm_na s1)" using bm_zero_gap_0 [OF assms(1-3)] by blast
  note f = bm_fill_holes_0 [OF assms(1,2) this fh [unfolded r2]]
  from re have "na_rl (bm_na s') = na_rl (bm_na s2)" and init: "initialized_size (bm_na s') \<le> oi"
    by (auto simp: bm_restore_init_def stamp_init_def split: if_splits prod.splits)
  with f show "rl_good vol (bm_na s')"
    and "find_hole (cluster_size vol) offset len (na_rl (bm_na s')) = None"
    and "initialized_size (bm_na s') \<le> oi"
    by (auto simp: rl_good_def)
qed

section \<open>Extents\<close>

lemma bm_emit_0:
  assumes "0 < csize" and "contig 0 rl" and "0 \<le> offset" and "0 < len"
    and "bm_emit cb csize offset len for_write init_end rl = (0, xs, me)"
  shows "tiles offset xs me" and "\<forall>x \<in> set xs. ext_agrees (cut init_end (phys_of csize rl)) x"
    and "offset < me" and "me \<le> offset + len" and "me = offset + len \<or> cb xs"
    and "for_write \<Longrightarrow> me \<le> rl_end 0 rl * csize"
proof -
  obtain ys cov full where em: "emit_runs cb csize offset len init_end rl [] offset = (ys, cov, full)"
    by (metis prod_cases3)
  have sp: "tiles offset ys cov \<and> (\<forall>x \<in> set ys. ext_agrees (cut init_end (phys_of csize rl)) x) \<and>
      offset \<le> cov \<and> cov \<le> offset + len \<and>
      (\<not> full \<longrightarrow> cov = clamp offset (offset + len) (rl_end 0 rl * csize)) \<and> (full \<longrightarrow> offset < cov \<and> cb ys) \<and>
      (offset < cov \<longrightarrow> cov \<le> rl_end 0 rl * csize)"
    by (rule emit_runs_spec [OF assms(1,4,2) _ _ _ _ em]) (use assms(3,4) in \<open>auto simp: clamp_def\<close>)
  show "tiles offset xs me" "offset < me" "me \<le> offset + len" "me = offset + len \<or> cb xs"
    using assms(4,5) em sp by (auto simp: bm_emit_def split: if_splits)
  show "\<forall>x \<in> set xs. ext_agrees (cut init_end (phys_of csize rl)) x"
  proof (cases "\<not> full \<and> cov < offset + len")
    case True
    then have "rl_end 0 rl * csize \<le> cov"
      using sp by (auto simp: clamp_def max_def min_def split: if_splits)
    then have "phys_of csize rl b = None" if "cov \<le> b" for b
      using phys_of_above [OF assms(2,1)] that by simp
    then have "ext_agrees (cut init_end (phys_of csize rl))
        \<lparr>x_logical = cov, x_physical = -1, x_length = offset + len - cov\<rparr>"
      by (simp add: ext_agrees_def ext_phys_def cut_def)
    with True sp assms(5) em show ?thesis by (auto simp: bm_emit_def split: if_splits)
  next
    case False
    with sp assms(5) em show ?thesis by (auto simp: bm_emit_def)
  qed
  show "me \<le> rl_end 0 rl * csize" if for_write
    using that assms(4,5) em sp by (auto simp: bm_emit_def split: if_splits)
qed

lemma bm_out_simps [simp]:
  "br_extents (bm_out lib m oi r xs wr s) = xs" "br_wr (bm_out lib m oi r xs wr s) = wr"
  by (simp_all add: bm_out_def Let_def split: prod.splits)

lemma bm_out_rc: "br_rc (bm_out lib m oi r xs wr s) = 0 \<Longrightarrow> r = 0"
  by (auto simp: bm_out_def Let_def split: prod.splits if_splits)

lemma bm_out_na:
  "oi < 0 \<or> initialized_size (bm_na s) \<le> oi \<Longrightarrow> br_na (bm_out lib m oi r xs wr s) = bm_na s"
  by (auto simp: bm_out_def Let_def split: prod.splits if_splits)

lemma bm_hand_out_0:
  assumes res: "res = bm_hand_out lib vol m mem wr cb offset len for_write hw oi init_end s"
    and "br_rc res = 0"
    and "oi < 0 \<or> initialized_size (bm_na s) \<le> oi"
  obtains me where
    "bm_emit cb (cluster_size vol) offset len for_write init_end (na_rl (bm_na s)) = (0, br_extents res, me)"
    and "br_na res = bm_na s"
    and "if for_write \<and> me > hw \<and> me > initialized_size (bm_na s)
         then wr_set mem wr m me = Some (br_wr res) else br_wr res = wr"
proof -
  obtain r xs me where em:
    "bm_emit cb (cluster_size vol) offset len for_write init_end (na_rl (bm_na s)) = (r, xs, me)"
    by (metis prod_cases3)
  show thesis
  proof (cases "r = 0 \<and> for_write \<and> me > hw \<and> me > initialized_size (bm_na s)")
    case True
    then obtain wr' where "wr_set mem wr m me = Some wr'"
      using assms(1,2) em by (auto simp: bm_hand_out_def dest!: bm_out_rc split: option.splits)
    with True em assms(1,3) show thesis
      by (intro that [of me]) (auto simp: bm_hand_out_def bm_out_na)
  next
    case False
    with em res have rs: "res = bm_out lib m oi r xs wr s" by (auto simp: bm_hand_out_def)
    with assms(2) have "r = 0" by (auto dest: bm_out_rc)
    with False em rs assms(3) show thesis by (intro that [of me]) (auto simp: bm_out_na)
  qed
qed

text \<open>The two successful ways through \<open>nk_blockmap\<close>.\<close>

lemma nk_blockmap_openE:
  assumes "nk_blockmap lib nv mem wr e path offset len for_write blocksize cb = Some (Inr res)"
  obtains m na where "l_pathname_to_inode lib e path = Some m" and "l_attr_open lib e m = Some na"
    and "0 \<le> offset" and "0 < len" and "offset + len \<le> INT64_MAX"
    and "bm_body lib (nv_vol nv) m mem wr cb offset len for_write
           (if blocksize \<ge> 512 then blocksize else 512) \<lparr>bm_e = e, bm_na = na\<rparr> = Some res"
  using assms by (auto simp: nk_blockmap_def Let_def split: if_splits option.splits)

lemma nk_blockmap_read_0:
  assumes "maps_from_zero lib" and "0 < cluster_size (nv_vol nv)"
    and "nk_blockmap lib nv mem wr e path offset len False blocksize cb = Some (Inr res)"
    and "br_rc res = 0"
  obtains m na s1 s2 init_end where "l_pathname_to_inode lib e path = Some m"
    and "l_attr_open lib e m = Some na"
    and "0 \<le> offset" and "0 < len" and "offset + len \<le> INT64_MAX"
    and "bm_prepare lib (nv_vol nv) m offset len False \<lparr>bm_e = e, bm_na = na\<rparr> = (0, s1)"
    and "bm_read_end lib (nv_vol nv) m (if blocksize \<ge> 512 then blocksize else 512) (wr_hwm wr m) s1
           = (0, init_end, s2)"
    and "res = bm_hand_out lib (nv_vol nv) m mem wr cb offset len False 0 (-1) init_end s2"
    and "rl_good (nv_vol nv) (bm_na s1)"
proof -
  let ?bs = "if blocksize \<ge> 512 then blocksize else 512"
  obtain m na where o: "l_pathname_to_inode lib e path = Some m" "l_attr_open lib e m = Some na"
    "0 \<le> offset" "0 < len" "offset + len \<le> INT64_MAX"
    and body: "bm_body lib (nv_vol nv) m mem wr cb offset len False ?bs \<lparr>bm_e = e, bm_na = na\<rparr> = Some res"
    using assms(3) by (rule nk_blockmap_openE)
  obtain r s1 where pr: "bm_prepare lib (nv_vol nv) m offset len False \<lparr>bm_e = e, bm_na = na\<rparr> = (r, s1)"
    by fastforce
  with body assms(4) have r: "r = 0" by (auto simp: bm_body_def dest: bm_out_rc split: if_splits)
  obtain r2 ie s2 where re: "bm_read_end lib (nv_vol nv) m ?bs (wr_hwm wr m) s1 = (r2, ie, s2)"
    by (metis prod_cases3)
  from body pr r re assms(4) have "r2 = 0"
    by (auto simp: bm_body_def dest: bm_out_rc split: if_splits)
  moreover from this body pr r re have
    "res = bm_hand_out lib (nv_vol nv) m mem wr cb offset len False 0 (-1) ie s2"
    by (simp add: bm_body_def)
  ultimately show thesis
    using that [OF o] pr r re bm_prepare_0 [OF assms(1,2)] by blast
qed

lemma nk_blockmap_write_0:
  assumes "maps_from_zero lib" and "0 < cluster_size (nv_vol nv)"
    and "nk_blockmap lib nv mem wr e path offset len True blocksize cb = Some (Inr res)"
    and "br_rc res = 0"
  obtains m na s1 s2 oi where "l_pathname_to_inode lib e path = Some m"
    and "l_attr_open lib e m = Some na"
    and "0 \<le> offset" and "0 < len" and "offset + len \<le> INT64_MAX"
    and "bm_prepare lib (nv_vol nv) m offset len True \<lparr>bm_e = e, bm_na = na\<rparr> = (0, s1)"
    and "bm_write_part lib (nv_vol nv) m (wr_hwm wr m) offset len s1 = Some (0, oi, s2)"
    and "res = bm_hand_out lib (nv_vol nv) m mem wr cb offset len True (wr_hwm wr m) oi INT64_MAX s2"
    and "rl_good (nv_vol nv) (bm_na s1)"
proof -
  let ?bs = "if blocksize \<ge> 512 then blocksize else 512"
  obtain m na where o: "l_pathname_to_inode lib e path = Some m" "l_attr_open lib e m = Some na"
    "0 \<le> offset" "0 < len" "offset + len \<le> INT64_MAX"
    and body: "bm_body lib (nv_vol nv) m mem wr cb offset len True ?bs \<lparr>bm_e = e, bm_na = na\<rparr> = Some res"
    using assms(3) by (rule nk_blockmap_openE)
  obtain r s1 where pr: "bm_prepare lib (nv_vol nv) m offset len True \<lparr>bm_e = e, bm_na = na\<rparr> = (r, s1)"
    by fastforce
  with body assms(4) have r: "r = 0" by (auto simp: bm_body_def dest: bm_out_rc split: if_splits)
  with body pr obtain r2 oi s2 where
    wp: "bm_write_part lib (nv_vol nv) m (wr_hwm wr m) offset len s1 = Some (r2, oi, s2)"
    by (auto simp: bm_body_def split: option.splits)
  with body pr r assms(4) have "r2 = 0" by (auto simp: bm_body_def dest: bm_out_rc split: if_splits)
  moreover from this body pr r wp have
    "res = bm_hand_out lib (nv_vol nv) m mem wr cb offset len True (wr_hwm wr m) oi INT64_MAX s2"
    by (simp add: bm_body_def)
  ultimately show thesis
    using that [OF o] pr r wp bm_prepare_0 [OF assms(1,2)] by blast
qed

end
