(* ===== verification/Koio_Data.thy ===== *)
theory Koio_Data
  imports Koio_Props
begin

text \<open>
  What the block map does to the bytes of a file. \<open>content e x\<close> is the byte at device position
  \<open>x\<close> of the engine state \<open>e\<close>, \<open>fd e m b\<close> the byte stored for position \<open>b\<close> of the unnamed data
  of file \<open>m\<close> (whether or not it lies below \<^verbatim>\<open>initialized_size\<close>; a hole reads as zeros), \<open>pm e m b\<close> the
  device position the volume's metadata gives for it. The
  predicate \<open>engine_ok\<close> states the documented behaviour of the libntfs-3g calls in these terms.
\<close>

section \<open>What the code relies on\<close>

definition zview :: "('e \<Rightarrow> s64 \<Rightarrow> byte) \<Rightarrow> s64 \<Rightarrow> runlist \<Rightarrow> 'e \<Rightarrow> s64 \<Rightarrow> byte" where
  "zview content csize rl e b = (case phys_of csize rl b of None \<Rightarrow> 0 | Some x \<Rightarrow> content e x)"

text \<open>The runlist is the file's mapping, leads to its bytes, and no cluster serves two positions.\<close>

definition coh ::
  "('e \<Rightarrow> s64 \<Rightarrow> byte) \<Rightarrow> ('e \<Rightarrow> u64 \<Rightarrow> s64 \<Rightarrow> byte) \<Rightarrow> ('e \<Rightarrow> u64 \<Rightarrow> s64 \<Rightarrow> s64 option) \<Rightarrow> s64 \<Rightarrow> u64 \<Rightarrow> runlist \<Rightarrow> 'e \<Rightarrow> bool" where
  "coh content fd pm csize m rl e \<longleftrightarrow>
     phys_of csize rl = pm e m \<and> (\<forall>b. fd e m b = zview content csize rl e b) \<and>
     (\<forall>b b' x. phys_of csize rl b = Some x \<longrightarrow> phys_of csize rl b' = Some x \<longrightarrow> b = b')"

text \<open>\<^verbatim>\<open>ntfs_attr_map_whole_runlist\<close> reads the mapping pairs and changes no data.\<close>

definition maps_coherent ::
  "('e \<Rightarrow> s64 \<Rightarrow> byte) \<Rightarrow> ('e \<Rightarrow> u64 \<Rightarrow> s64 \<Rightarrow> byte) \<Rightarrow> ('e \<Rightarrow> u64 \<Rightarrow> s64 \<Rightarrow> s64 option) \<Rightarrow> s64 \<Rightarrow> 'e ntfs_lib \<Rightarrow> bool" where
  "maps_coherent content fd pm csize lib \<longleftrightarrow>
     (\<forall>e m na f e' na'. l_attr_map_whole_runlist lib e m na = (f, e', na') \<longrightarrow>
        fd e' m = fd e m \<and> initialized_size na' = initialized_size na \<and>
        (\<not> f \<longrightarrow> coh content fd pm csize m (na_rl na') e'))"

text \<open>\<^verbatim>\<open>ntfs_pwrite\<close> writes device bytes and leaves the mapping of every file alone.\<close>

definition raw_coherent ::
  "('e \<Rightarrow> s64 \<Rightarrow> byte) \<Rightarrow> ('e \<Rightarrow> u64 \<Rightarrow> s64 \<Rightarrow> byte) \<Rightarrow> ('e \<Rightarrow> u64 \<Rightarrow> s64 \<Rightarrow> s64 option) \<Rightarrow> s64 \<Rightarrow> 'e ntfs_lib \<Rightarrow> bool" where
  "raw_coherent content fd pm csize lib \<longleftrightarrow>
     dev_writes content (l_ntfs_pwrite lib) \<and>
     (\<forall>e m rl p bs n e'. l_ntfs_pwrite lib e p bs = (n, e') \<longrightarrow>
        coh content fd pm csize m rl e \<longrightarrow> coh content fd pm csize m rl e')"

text \<open>
  \<^verbatim>\<open>ntfs_attr_pwrite\<close> of zeros: it touches nothing outside the written range and the part from
  \<^verbatim>\<open>initialized_size\<close> up to it, stores only zeros there, and moves \<^verbatim>\<open>initialized_size\<close> up to the
  end of what it wrote.
\<close>

definition attr_pwrite_zero_ok :: "('e \<Rightarrow> u64 \<Rightarrow> s64 \<Rightarrow> byte) \<Rightarrow> 'e ntfs_lib \<Rightarrow> bool" where
  "attr_pwrite_zero_ok fd lib \<longleftrightarrow>
     (\<forall>e m na p k n e' na'. l_attr_pwrite lib e m na p (replicate k 0) = (n, e', na') \<longrightarrow>
        (\<forall>b. fd e' m b = fd e m b \<or>
             min (initialized_size na) p \<le> b \<and> b < p + int k \<and> fd e' m b = 0) \<and>
        initialized_size na \<le> initialized_size na' \<and>
        initialized_size na' \<le> max (initialized_size na) (p + int k) \<and>
        (n = int k \<longrightarrow> (\<forall>b. p \<le> b \<and> b < p + int k \<longrightarrow> fd e' m b = 0) \<and> p + int k \<le> initialized_size na'))"

text \<open>\<^verbatim>\<open>ntfs_attr_truncate_solid\<close> adds clusters at the end and leaves \<^verbatim>\<open>initialized_size\<close> behind.\<close>

definition attr_solid_ok :: "('e \<Rightarrow> u64 \<Rightarrow> s64 \<Rightarrow> byte) \<Rightarrow> 'e ntfs_lib \<Rightarrow> bool" where
  "attr_solid_ok fd lib \<longleftrightarrow>
     (\<forall>e m na sz f e' na'. l_attr_truncate_solid lib e m na sz = (f, e', na') \<longrightarrow>
        data_size na \<le> sz \<longrightarrow>
        (\<forall>b < data_size na. fd e' m b = fd e m b) \<and> initialized_size na' = initialized_size na)"

text \<open>Updates of the MFT record, sync and close change no data cluster and no mapping.\<close>

definition meta_ok ::
  "('e \<Rightarrow> s64 \<Rightarrow> byte) \<Rightarrow> ('e \<Rightarrow> u64 \<Rightarrow> s64 \<Rightarrow> byte) \<Rightarrow> ('e \<Rightarrow> u64 \<Rightarrow> s64 \<Rightarrow> s64 option) \<Rightarrow> s64 \<Rightarrow> 'e ntfs_lib \<Rightarrow> bool" where
  "meta_ok content fd pm csize lib \<longleftrightarrow>
     (\<forall>e m v. \<forall>e' \<in> {l_stamp_record lib e m v, snd (l_inode_sync lib e m), snd (l_inode_close lib e m)}.
        fd e' m = fd e m \<and> (\<forall>rl. coh content fd pm csize m rl e \<longrightarrow> coh content fd pm csize m rl e'))"

definition engine_ok ::
  "('e \<Rightarrow> s64 \<Rightarrow> byte) \<Rightarrow> ('e \<Rightarrow> u64 \<Rightarrow> s64 \<Rightarrow> byte) \<Rightarrow> ('e \<Rightarrow> u64 \<Rightarrow> s64 \<Rightarrow> s64 option) \<Rightarrow> s64 \<Rightarrow> 'e ntfs_lib \<Rightarrow> bool" where
  "engine_ok content fd pm csize lib \<longleftrightarrow>
     maps_from_zero lib \<and> maps_coherent content fd pm csize lib \<and> raw_coherent content fd pm csize lib \<and>
     attr_pwrite_zero_ok fd lib \<and> attr_solid_ok fd lib \<and> meta_ok content fd pm csize lib"

lemma engine_okD:
  assumes "engine_ok content fd pm csize lib"
  shows "maps_from_zero lib" and "maps_coherent content fd pm csize lib"
    and "raw_coherent content fd pm csize lib" and "attr_pwrite_zero_ok fd lib"
    and "attr_solid_ok fd lib" and "meta_ok content fd pm csize lib"
  using assms by (simp_all add: engine_ok_def)

section \<open>Steps of the block map\<close>

lemma pwrite_zeros_fd:
  assumes "attr_pwrite_zero_ok fd lib" and "pwrite_zeros lib m sz p e s = (rc, s')" and "0 < sz"
  shows "(\<forall>b. fd (bm_e s') m b = fd (bm_e s) m b \<or>
            min (initialized_size (bm_na s)) p \<le> b \<and> b < e \<and> fd (bm_e s') m b = 0) \<and>
    initialized_size (bm_na s) \<le> initialized_size (bm_na s') \<and>
    initialized_size (bm_na s') \<le> max (initialized_size (bm_na s)) e \<and>
    (rc = 0 \<longrightarrow> (\<forall>b. p \<le> b \<and> b < e \<longrightarrow> fd (bm_e s') m b = 0) \<and>
       (p < e \<longrightarrow> e \<le> initialized_size (bm_na s')))"
  using assms
proof (induction lib m sz p e s rule: pwrite_zeros.induct)
  case (1 lib m sz p e s)
  show ?case
  proof (cases "p < e")
    case False
    with "1.prems"(2) show ?thesis by (auto simp: pwrite_zeros.simps)
  next
    case True
    define c where "c = (if e - p < int sz then e - p else int sz)"
    have c: "0 < c" "p + c \<le> e" using True "1.prems"(3) by (auto simp: c_def)
    obtain n e1 na1 where w: "l_attr_pwrite lib (bm_e s) m (bm_na s) p (replicate (nat c) 0) = (n, e1, na1)"
      by (metis prod_cases3)
    let ?s1 = "\<lparr>bm_e = e1, bm_na = na1\<rparr>"
    have k: "(\<forall>b. fd e1 m b = fd (bm_e s) m b \<or>
             min (initialized_size (bm_na s)) p \<le> b \<and> b < p + c \<and> fd e1 m b = 0) \<and>
        initialized_size (bm_na s) \<le> initialized_size na1 \<and>
        initialized_size na1 \<le> max (initialized_size (bm_na s)) (p + c) \<and>
        (n = c \<longrightarrow> (\<forall>b. p \<le> b \<and> b < p + c \<longrightarrow> fd e1 m b = 0) \<and> p + c \<le> initialized_size na1)"
      using "1.prems"(1) w c(1) unfolding attr_pwrite_zero_ok_def by (metis int_nat_eq less_imp_le)
    have run: "(if n \<noteq> c then (-1, ?s1) else pwrite_zeros lib m sz (p + c) e ?s1) = (rc, s')"
      using "1.prems"(2,3) True w
      by (simp add: pwrite_zeros.simps [of lib m sz p e s] Let_def flip: c_def)
    show ?thesis
    proof (cases "n = c")
      case False
      with run have "s' = ?s1" "rc = -1" by auto
      with k c show ?thesis by (auto simp: max_def split: if_splits)
    next
      case eq: True
      with run have "pwrite_zeros lib m sz (p + c) e ?s1 = (rc, s')" by simp
      with "1.IH" [OF _ c_def w [symmetric] refl refl refl _ "1.prems"(1)] True "1.prems"(3) eq
      have ih: "(\<forall>b. fd (bm_e s') m b = fd e1 m b \<or>
             min (initialized_size na1) (p + c) \<le> b \<and> b < e \<and> fd (bm_e s') m b = 0) \<and>
          initialized_size na1 \<le> initialized_size (bm_na s') \<and>
          initialized_size (bm_na s') \<le> max (initialized_size na1) e \<and>
          (rc = 0 \<longrightarrow> (\<forall>b. p + c \<le> b \<and> b < e \<longrightarrow> fd (bm_e s') m b = 0) \<and>
             (p + c < e \<longrightarrow> e \<le> initialized_size (bm_na s')))"
        by simp
      have i: "initialized_size (bm_na s) \<le> initialized_size na1" "p + c \<le> initialized_size na1"
        using k eq by auto
      have "fd (bm_e s') m b = fd (bm_e s) m b \<or>
          min (initialized_size (bm_na s)) p \<le> b \<and> b < e \<and> fd (bm_e s') m b = 0" for b
        using spec [OF conjunct1 [OF k], of b] spec [OF conjunct1 [OF ih], of b] i c by auto
      moreover have "fd (bm_e s') m b = 0" if "rc = 0" "p \<le> b" "b < e" for b
        using that k ih eq spec [OF conjunct1 [OF ih], of b] by (cases "b < p + c") fastforce+
      moreover have "e \<le> initialized_size (bm_na s')" if "rc = 0"
        using that k ih eq c by (cases "p + c < e") auto
      ultimately show ?thesis using k ih c by (auto simp: max_def split: if_splits)
    qed
  qed
qed


lemma bm_map_checked_fd:
  assumes "maps_coherent content fd pm csize lib" and "bm_map_checked lib vol m s = (r, s')"
  shows "fd (bm_e s') m = fd (bm_e s) m \<and> initialized_size (bm_na s') = initialized_size (bm_na s) \<and>
    (r = 0 \<longrightarrow> coh content fd pm csize m (na_rl (bm_na s')) (bm_e s'))"
proof -
  obtain f e na where l: "l_attr_map_whole_runlist lib (bm_e s) m (bm_na s) = (f, e, na)"
    by (metis prod_cases3)
  then have "fd e m = fd (bm_e s) m \<and> initialized_size na = initialized_size (bm_na s) \<and>
      (\<not> f \<longrightarrow> coh content fd pm csize m (na_rl na) e)"
    using assms(1) unfolding maps_coherent_def by blast
  moreover have "s' = \<lparr>bm_e = e, bm_na = na\<rparr>" and "r = 0 \<longrightarrow> \<not> f"
    using assms(2) l by (auto simp: bm_map_checked_def bm_map_runlist_def split: if_splits)
  ultimately show ?thesis by auto
qed

lemma bm_zero_raw_fd:
  assumes "raw_coherent content fd pm (cluster_size vol) lib" and "0 < cluster_size vol"
    and "contig 0 (na_rl (bm_na s))"
    and "coh content fd pm (cluster_size vol) m (na_rl (bm_na s)) (bm_e s)"
    and "bm_zero_raw lib vol from to s = (rc, s')"
  shows "bm_na s' = bm_na s" and "coh content fd pm (cluster_size vol) m (na_rl (bm_na s')) (bm_e s')"
    and "\<And>b. b < from \<or> to \<le> b \<Longrightarrow> fd (bm_e s') m b = fd (bm_e s) m b"
    and "\<And>b. rc = 0 \<Longrightarrow> from \<le> b \<Longrightarrow> b < to \<Longrightarrow> fd (bm_e s') m b = 0"
proof -
  let ?c = "cluster_size vol" and ?rl = "na_rl (bm_na s)"
  obtain e where zr: "zero_raw (l_ntfs_pwrite lib) ?c ?rl from to (bm_e s) = (rc, e)"
    and s': "s' = s\<lparr>bm_e := e\<rparr>"
    using assms(5) by (auto simp: bm_zero_raw_def split: prod.splits)
  show na: "bm_na s' = bm_na s" by (simp add: s')
  have coh': "coh content fd pm ?c m ?rl e"
    by (rule zero_raw_inv [where I = "coh content fd pm ?c m ?rl", OF _ zr assms(4)])
      (use assms(1) in \<open>unfold raw_coherent_def, blast\<close>)
  then show "coh content fd pm ?c m (na_rl (bm_na s')) (bm_e s')" by (simp add: s')
  have zs: "(\<forall>x. x \<notin> mapped ?c ?rl from to \<longrightarrow> content e x = content (bm_e s) x) \<and>
      (rc = 0 \<longrightarrow> (\<forall>x \<in> mapped ?c ?rl from to. content e x = 0))"
    by (rule zero_raw_spec [OF _ assms(2,3) zr]) (use assms(1) in \<open>simp add: raw_coherent_def\<close>)
  show "fd (bm_e s') m b = fd (bm_e s) m b" if b: "b < from \<or> to \<le> b" for b
  proof (cases "phys_of ?c ?rl b")
    case None
    with coh' assms(4) show ?thesis by (simp add: coh_def zview_def s')
  next
    case (Some x)
    then have "x \<notin> mapped ?c ?rl from to"
      using assms(4) b by (fastforce simp: coh_def mapped_def)
    with zs Some coh' assms(4) show ?thesis by (simp add: coh_def zview_def s')
  qed
  show "fd (bm_e s') m b = 0" if "rc = 0" "from \<le> b" "b < to" for b
  proof (cases "phys_of ?c ?rl b")
    case None
    with coh' show ?thesis by (simp add: coh_def zview_def s')
  next
    case (Some x)
    then have "x \<in> mapped ?c ?rl from to" using that by (auto simp: mapped_def)
    with zs Some coh' that show ?thesis by (simp add: coh_def zview_def s')
  qed
qed


lemma bm_prepare_fd:
  assumes "engine_ok content fd pm (cluster_size vol) lib" and "0 < cluster_size vol"
    and "non_resident (bm_na s)" and "bm_prepare lib vol m offset len for_write s = (r, s')"
  shows "\<And>b. b < data_size (bm_na s) \<Longrightarrow> fd (bm_e s') m b = fd (bm_e s) m b"
    and "initialized_size (bm_na s') = initialized_size (bm_na s)"
    and "r = 0 \<Longrightarrow> coh content fd pm (cluster_size vol) m (na_rl (bm_na s')) (bm_e s') \<and> rl_good vol (bm_na s')"
proof -
  note ok = engine_okD [OF assms(1)]
  obtain r2 s2 where 2: "bm_grow lib m offset len for_write s = (r2, s2)" by fastforce
  have grow: "(\<forall>b < data_size (bm_na s). fd (bm_e s2) m b = fd (bm_e s) m b) \<and>
      initialized_size (bm_na s2) = initialized_size (bm_na s)"
  proof (cases "for_write \<and> offset + len > data_size (bm_na s)")
    case True
    obtain f e na where t: "l_attr_truncate_solid lib (bm_e s) m (bm_na s) (offset + len) = (f, e, na)"
      by (metis prod_cases3)
    with True 2 have "s2 = \<lparr>bm_e = e, bm_na = na\<rparr>" by (auto simp: bm_grow_def)
    moreover have "(\<forall>b < data_size (bm_na s). fd e m b = fd (bm_e s) m b) \<and>
        initialized_size na = initialized_size (bm_na s)"
      using ok(5) t True unfolding attr_solid_ok_def by (meson less_imp_le)
    ultimately show ?thesis by simp
  next
    case False
    with 2 show ?thesis by (auto simp: bm_grow_def)
  qed
  consider "s' = s" "r \<noteq> 0" | "s' = s2" "r \<noteq> 0" | "bm_map_checked lib vol m s2 = (r, s')"
    using assms(3,4) 2 by (auto simp: bm_prepare_def bm_make_nonres_def split: if_splits)
  note cs = this
  have "(\<forall>b < data_size (bm_na s). fd (bm_e s') m b = fd (bm_e s) m b) \<and>
      initialized_size (bm_na s') = initialized_size (bm_na s) \<and>
      (r = 0 \<longrightarrow> coh content fd pm (cluster_size vol) m (na_rl (bm_na s')) (bm_e s'))"
    by (cases rule: cs) (use grow bm_map_checked_fd [OF ok(2)] in auto)
  moreover have "rl_good vol (bm_na s')" if "r = 0"
    using bm_prepare_0 [OF ok(1) assms(2)] assms(4) that by blast
  ultimately show "\<And>b. b < data_size (bm_na s) \<Longrightarrow> fd (bm_e s') m b = fd (bm_e s) m b"
    and "initialized_size (bm_na s') = initialized_size (bm_na s)"
    and "r = 0 \<Longrightarrow> coh content fd pm (cluster_size vol) m (na_rl (bm_na s')) (bm_e s') \<and> rl_good vol (bm_na s')"
    by auto
qed

lemma bm_zero_gap_fd:
  assumes "engine_ok content fd pm (cluster_size vol) lib" and "0 < cluster_size vol"
    and "coh content fd pm (cluster_size vol) m (na_rl (bm_na s)) (bm_e s)" and "rl_good vol (bm_na s)"
    and "bm_zero_gap lib vol m hw offset s = (r, s')"
    and "init = initialized_size (bm_na s)"
  shows "\<And>b. b < max init hw \<Longrightarrow> fd (bm_e s') m b = fd (bm_e s) m b"
    and "init \<le> initialized_size (bm_na s')" and "initialized_size (bm_na s') \<le> max init offset"
    and "\<And>b. r = 0 \<Longrightarrow> max init hw \<le> b \<Longrightarrow> b < offset \<Longrightarrow> fd (bm_e s') m b = 0"
    and "r = 0 \<Longrightarrow> coh content fd pm (cluster_size vol) m (na_rl (bm_na s')) (bm_e s')"
    and "r = 0 \<Longrightarrow> rl_good vol (bm_na s')"
proof -
  note ok = engine_okD [OF assms(1)]
  have "(\<forall>b < max init hw. fd (bm_e s') m b = fd (bm_e s) m b) \<and>
      init \<le> initialized_size (bm_na s') \<and> initialized_size (bm_na s') \<le> max init offset \<and>
      (r = 0 \<longrightarrow> (\<forall>b. max init hw \<le> b \<and> b < offset \<longrightarrow> fd (bm_e s') m b = 0) \<and>
         coh content fd pm (cluster_size vol) m (na_rl (bm_na s')) (bm_e s'))"
  proof (cases "hw \<le> init")
    case True
    obtain r1 s1 where pz: "pwrite_zeros lib m 65536 init offset s = (r1, s1)" by fastforce
    note f = pwrite_zeros_fd [OF ok(4) pz, folded assms(6), simplified]
    have eq: "bm_then (r1, s1) (bm_map_checked lib vol m) = (r, s')"
      using assms(5,6) True pz by (simp add: bm_zero_gap_def del: bm_then.simps)
    show ?thesis
    proof (cases "r1 = 0")
      case r1: True
      with eq have "bm_map_checked lib vol m s1 = (r, s')" by simp
      note g = bm_map_checked_fd [OF ok(2) this]
      have "fd (bm_e s1) m b = fd (bm_e s) m b" if "b < init" for b
        using that f by (metis not_le)
      with f g r1 True show ?thesis by auto
    next
      case r1: False
      with eq have s': "s' = s1" "r \<noteq> 0" by auto
      have "fd (bm_e s1) m b = fd (bm_e s) m b" if "b < init" for b
        using that f by (metis not_le)
      with f s' True show ?thesis by auto
    qed
  next
    case hw: False
    show ?thesis
    proof (cases "offset > hw")
      case True
      obtain rc where zr: "bm_zero_raw lib vol hw offset s = (rc, s')" and r: "r = 0 \<longleftrightarrow> rc = 0"
        using assms(5,6) hw True by (auto simp: bm_zero_gap_def Let_def split: prod.splits if_splits)
      have "contig 0 (na_rl (bm_na s))" using assms(4) by (simp add: rl_good_def)
      note z = bm_zero_raw_fd [OF ok(3) assms(2) this assms(3) zr]
      from z(1) assms(6) hw True have "init = initialized_size (bm_na s')" by simp
      with z(2-4) hw r show ?thesis by auto
    next
      case False
      with assms(3,5,6) hw show ?thesis by (auto simp: bm_zero_gap_def Let_def)
    qed
  qed
  moreover have "rl_good vol (bm_na s')" if "r = 0"
    using bm_zero_gap_0 [OF ok(1) assms(2,4)] assms(5) that by blast
  ultimately show "\<And>b. b < max init hw \<Longrightarrow> fd (bm_e s') m b = fd (bm_e s) m b"
    and "init \<le> initialized_size (bm_na s')" and "initialized_size (bm_na s') \<le> max init offset"
    and "\<And>b. r = 0 \<Longrightarrow> max init hw \<le> b \<Longrightarrow> b < offset \<Longrightarrow> fd (bm_e s') m b = 0"
    and "r = 0 \<Longrightarrow> coh content fd pm (cluster_size vol) m (na_rl (bm_na s')) (bm_e s')"
    and "r = 0 \<Longrightarrow> rl_good vol (bm_na s')"
    by blast+
qed

lemma find_hole_Some:
  assumes "contig v rl" and "0 < csize" and "find_hole csize offset len rl = Some (s, e)"
  shows "offset \<le> s" and "s < e" and "e \<le> offset + len" and "v * csize \<le> s"
    and "\<And>b. s \<le> b \<Longrightarrow> b < e \<Longrightarrow> phys_of csize rl b = None"
proof -
  have "offset \<le> s \<and> s < e \<and> e \<le> offset + len \<and> v * csize \<le> s \<and>
    (\<forall>b. s \<le> b \<and> b < e \<longrightarrow> phys_of csize rl b = None)"
    using assms(1,3)
  proof (induction rl arbitrary: v)
    case Nil
    then show ?case by simp
  next
    case (Cons r rl)
    have len: "rl_length r \<noteq> 0" using Cons.prems(2) by auto
    with Cons.prems(1) have v: "rl_vcn r = v" "0 < rl_length r" "contig (v + rl_length r) rl" by auto
    have vw: "v * csize < (v + rl_length r) * csize" using v(2) assms(2) by simp
    show ?case
    proof (cases "find_hole csize offset len rl = Some (s, e)")
      case True
      note ih = Cons.IH [OF v(3) True]
      then have "phys_of csize (r # rl) b = phys_of csize rl b" if "s \<le> b" for b
        using that by (intro phys_of_Cons_above [OF Cons.prems(1) assms(2) len]) simp
      with ih vw show ?thesis by auto
    next
      case False
      with Cons.prems(2) len have h: "rl_lcn r = LCN_HOLE"
        and s: "s = (if v * csize > offset then v * csize else offset)"
        and e: "e = (if v * csize + rl_length r * csize < offset + len
                     then v * csize + rl_length r * csize else offset + len)" and "s < e"
        by (auto simp: v(1) Let_def split: if_splits)
      have "phys_of csize (r # rl) b = None" if "s \<le> b" "b < e" for b
        using that phys_of_Cons_in [OF Cons.prems(1) len] h s e
        by (simp add: LCN_HOLE_def distrib_right split: if_splits del: phys_of.simps)
      with s e \<open>s < e\<close> show ?thesis by (auto split: if_splits)
    qed
  qed
  then show "offset \<le> s" and "s < e" and "e \<le> offset + len" and "v * csize \<le> s"
    and "\<And>b. s \<le> b \<Longrightarrow> b < e \<Longrightarrow> phys_of csize rl b = None" by auto
qed


text \<open>
  What hole filling keeps, relative to the bytes \<open>F\<close> and the value \<open>oi\<close> of \<^verbatim>\<open>initialized_size\<close> at
  the start of the loop: bytes below \<open>oi\<close> or below the mark stay, others stay or become zero.
\<close>

definition fill_keeps :: "('e \<Rightarrow> u64 \<Rightarrow> s64 \<Rightarrow> byte) \<Rightarrow> u64 \<Rightarrow> (s64 \<Rightarrow> byte) \<Rightarrow> s64 \<Rightarrow> s64 \<Rightarrow> 'e bm \<Rightarrow> bool" where
  "fill_keeps fd m F oi hw s \<longleftrightarrow>
     oi \<le> initialized_size (bm_na s) \<and>
     (\<forall>b < max oi hw. fd (bm_e s) m b = F b) \<and> (\<forall>b. fd (bm_e s) m b = F b \<or> fd (bm_e s) m b = 0)"

lemma bm_fill_hole_fd:
  assumes "engine_ok content fd pm (cluster_size vol) lib" and "0 < cluster_size vol"
    and "coh content fd pm (cluster_size vol) m (na_rl (bm_na s)) (bm_e s)" and "rl_good vol (bm_na s)"
    and "fill_keeps fd m F oi hw s"
    and "find_hole (cluster_size vol) offset len (na_rl (bm_na s)) = Some (start, end)"
    and "bm_fill_hole lib vol m hw start end s = (r, s')"
  shows "fill_keeps fd m F oi hw s'"
    and "r = 0 \<Longrightarrow> coh content fd pm (cluster_size vol) m (na_rl (bm_na s')) (bm_e s')"
proof -
  note ok = engine_okD [OF assms(1)]
  let ?init = "initialized_size (bm_na s)"
  define i where "i = (if hw > ?init \<and> start > ?init then hw else ?init)"
  define s1 where "s1 = (if hw > ?init \<and> start > ?init
    then s\<lparr>bm_na := (bm_na s)\<lparr>initialized_size := hw\<rparr>\<rparr> else s)"
  have s1: "bm_e s1 = bm_e s" "initialized_size (bm_na s1) = i" "?init \<le> i"
    by (auto simp: s1_def i_def)
  obtain r2 s2 where pz: "pwrite_zeros lib m 65536 start end s1 = (r2, s2)" by fastforce
  have eq: "bm_then (r2, s2) (bm_map_checked lib vol m) = (r, s')"
    using assms(7) pz by (simp add: bm_fill_hole_def s1_def Let_def del: bm_then.simps)
  note f = pwrite_zeros_fd [OF ok(4) pz, unfolded s1, simplified]
  have "contig 0 (na_rl (bm_na s))" using assms(4) by (simp add: rl_good_def)
  note hole = find_hole_Some [OF this assms(2,6)]
  have hole0: "fd (bm_e s) m b = 0" if "start \<le> b" "b < end" for b
    using that hole(5) assms(3) by (simp add: coh_def zview_def)
  have oi: "oi \<le> ?init" using assms(5) by (simp add: fill_keeps_def)
  have keep: "fd (bm_e s2) m b = fd (bm_e s) m b" if "b < max oi hw" for b
  proof (cases "start \<le> b")
    case True
    with hole0 [of b] spec [OF conjunct1 [OF f], of b] show ?thesis by auto
  next
    case False
    with that oi have "b < min i start" by (auto simp: i_def split: if_splits)
    with spec [OF conjunct1 [OF f], of b] show ?thesis by auto
  qed
  have "fd (bm_e s2) m b = F b \<or> fd (bm_e s2) m b = 0" for b
    using spec [OF conjunct1 [OF f], of b] assms(5) unfolding fill_keeps_def by metis
  moreover have "oi \<le> initialized_size (bm_na s2)" using f oi s1(3) by linarith
  ultimately have k2: "fill_keeps fd m F oi hw s2"
    using keep assms(5) by (simp add: fill_keeps_def)
  show "fill_keeps fd m F oi hw s'"
    using k2 eq bm_map_checked_fd [OF ok(2), of vol m s2 r s']
    by (cases "r2 = 0") (auto simp: fill_keeps_def)
  show "r = 0 \<Longrightarrow> coh content fd pm (cluster_size vol) m (na_rl (bm_na s')) (bm_e s')"
    using eq bm_map_checked_fd [OF ok(2), of vol m s2 r s'] by (cases "r2 = 0") auto
qed

lemma bm_fill_holes_fd:
  assumes "engine_ok content fd pm (cluster_size vol) lib" and "0 < cluster_size vol"
    and "coh content fd pm (cluster_size vol) m (na_rl (bm_na s)) (bm_e s)" and "rl_good vol (bm_na s)"
    and "bm_fill_holes lib vol m hw offset len s = Some (r, s')"
  shows "fill_keeps fd m (fd (bm_e s) m) (initialized_size (bm_na s)) hw s'"
    and "r = 0 \<Longrightarrow> coh content fd pm (cluster_size vol) m (na_rl (bm_na s')) (bm_e s')"
proof -
  let ?F = "fd (bm_e s) m" and ?oi = "initialized_size (bm_na s)"
  let ?I = "\<lambda>s. coh content fd pm (cluster_size vol) m (na_rl (bm_na s)) (bm_e s) \<and> rl_good vol (bm_na s) \<and>
    fill_keeps fd m ?F ?oi hw s"
  have base: "?I s" using assms(3,4) by (simp add: fill_keeps_def)
  have step: "?I s2" if "?I s0"
    and "find_hole (cluster_size vol) offset len (na_rl (bm_na s0)) = Some (start, end)"
    and "bm_fill_hole lib vol m hw start end s0 = (0, s2)" for s0 s2 start "end"
    using that bm_fill_hole_fd [OF assms(1,2) _ _ _ that(2,3)]
      bm_fill_hole_0 [OF engine_okD(1) [OF assms(1)] assms(2) that(3)] by auto
  have rule: "(r = 0 \<longrightarrow> ?I s') \<and> (r \<noteq> 0 \<longrightarrow> (\<exists>s0 start end. ?I s0 \<and>
      find_hole (cluster_size vol) offset len (na_rl (bm_na s0)) = Some (start, end) \<and>
      bm_fill_hole lib vol m hw start end s0 = (r, s')))"
    using bm_fill_holes_rule [where Inv = ?I, OF assms(5) base] step by blast
  show "fill_keeps fd m ?F ?oi hw s'"
  proof (cases "r = 0")
    case True
    with rule show ?thesis by blast
  next
    case False
    with rule obtain s0 start "end" where "?I s0"
      and h: "find_hole (cluster_size vol) offset len (na_rl (bm_na s0)) = Some (start, end)"
        "bm_fill_hole lib vol m hw start end s0 = (r, s')" by blast
    with bm_fill_hole_fd(1) [OF assms(1,2) _ _ _ h] show ?thesis by blast
  qed
  show "r = 0 \<Longrightarrow> coh content fd pm (cluster_size vol) m (na_rl (bm_na s')) (bm_e s')"
    using rule by blast
qed

lemma stamp_init_fd:
  assumes "meta_ok content fd pm csize lib" and "stamp_init lib m v s = (rc, s')"
  shows "fd (bm_e s') m = fd (bm_e s) m" and "na_rl (bm_na s') = na_rl (bm_na s)"
    and "coh content fd pm csize m rl (bm_e s) \<Longrightarrow> coh content fd pm csize m rl (bm_e s')"
  using assms by (auto simp: stamp_init_def meta_ok_def split: if_splits)

lemma bm_out_fd:
  assumes "meta_ok content fd pm csize lib" and "res = bm_out lib m oi r xs wr s"
  shows "fd (br_e res) m = fd (bm_e s) m" and "na_rl (br_na res) = na_rl (bm_na s)"
    and "coh content fd pm csize m rl (bm_e s) \<Longrightarrow> coh content fd pm csize m rl (br_e res)"
proof -
  define s1 where "s1 = (if oi \<ge> 0 \<and> initialized_size (bm_na s) > oi then snd (stamp_init lib m oi s) else s)"
  have res: "br_e res = snd (l_inode_close lib (snd (l_inode_sync lib (bm_e s1) m)) m)" "br_na res = bm_na s1"
    by (simp_all add: assms(2) bm_out_def Let_def s1_def split: prod.splits)
  have s1: "fd (bm_e s1) m = fd (bm_e s) m" "na_rl (bm_na s1) = na_rl (bm_na s)"
    "coh content fd pm csize m rl (bm_e s) \<Longrightarrow> coh content fd pm csize m rl (bm_e s1)"
    using stamp_init_fd [OF assms(1), of m oi s "fst (stamp_init lib m oi s)" "snd (stamp_init lib m oi s)"]
    by (auto simp: s1_def)
  show "fd (br_e res) m = fd (bm_e s) m" "na_rl (br_na res) = na_rl (bm_na s)"
    "coh content fd pm csize m rl (bm_e s) \<Longrightarrow> coh content fd pm csize m rl (br_e res)"
    using assms(1) s1 by (simp_all add: res meta_ok_def)
qed


lemma bm_write_part_fd:
  assumes "engine_ok content fd pm (cluster_size vol) lib" and "0 < cluster_size vol"
    and "coh content fd pm (cluster_size vol) m (na_rl (bm_na s)) (bm_e s)" and "rl_good vol (bm_na s)"
    and "bm_write_part lib vol m hw offset len s = Some (r, oi, s')"
    and "init = initialized_size (bm_na s)"
  shows "\<And>b. b < max init hw \<Longrightarrow> fd (bm_e s') m b = fd (bm_e s) m b"
    and "\<And>b. r = 0 \<Longrightarrow> max init hw \<le> b \<Longrightarrow> b < offset \<Longrightarrow> fd (bm_e s') m b = 0"
    and "r = 0 \<Longrightarrow> coh content fd pm (cluster_size vol) m (na_rl (bm_na s')) (bm_e s')"
    and "init \<le> initialized_size (bm_na s')"
    and "oi = -1 \<and> initialized_size (bm_na s') \<le> max init offset \<or> init \<le> oi \<and> oi \<le> max init offset"
proof -
  note ok = engine_okD [OF assms(1)]
  obtain r1 s1 where zg: "bm_zero_gap lib vol m hw offset s = (r1, s1)" by fastforce
  note g = bm_zero_gap_fd [OF assms(1-4) zg assms(6)]
  have "(\<forall>b < max init hw. fd (bm_e s') m b = fd (bm_e s) m b) \<and> init \<le> initialized_size (bm_na s') \<and>
      (r = 0 \<longrightarrow> (\<forall>b. max init hw \<le> b \<and> b < offset \<longrightarrow> fd (bm_e s') m b = 0) \<and>
         coh content fd pm (cluster_size vol) m (na_rl (bm_na s')) (bm_e s')) \<and>
      (oi = -1 \<and> initialized_size (bm_na s') \<le> max init offset \<or> init \<le> oi \<and> oi \<le> max init offset)"
  proof (cases "r1 = 0")
    case False
    with zg assms(5) have "s' = s1" "r = r1" "oi = -1" by (auto simp: bm_write_part_def)
    with g False show ?thesis by auto
  next
    case True
    define oj where "oj = initialized_size (bm_na s1)"
    have "(case bm_fill_holes lib vol m hw offset len s1 of None \<Rightarrow> None
        | Some rs \<Rightarrow> (case bm_then rs (bm_restore_init lib m oj) of (r, s2) \<Rightarrow> Some (r, oj, s2))) =
        Some (r, oi, s')"
      using assms(5) zg True unfolding oj_def by (simp add: bm_write_part_def Let_def del: bm_then.simps)
    then obtain rs where fh: "bm_fill_holes lib vol m hw offset len s1 = Some rs"
      and th: "bm_then rs (bm_restore_init lib m oj) = (r, s')" and oi: "oi = oj"
      by (cases "bm_fill_holes lib vol m hw offset len s1") (auto split: prod.splits)
    obtain r2 s2 where rs: "rs = (r2, s2)" by fastforce
    note fh = fh [unfolded rs] and th = th [unfolded rs]
    note k = bm_fill_holes_fd [OF assms(1,2) g(5) [OF True] g(6) [OF True] fh, folded oj_def]
    have e: "fd (bm_e s') m = fd (bm_e s2) m \<and> oj \<le> initialized_size (bm_na s') \<and>
        (r = 0 \<longrightarrow> coh content fd pm (cluster_size vol) m (na_rl (bm_na s')) (bm_e s'))"
    proof (cases "r2 = 0")
      case False
      with th k show ?thesis by (auto simp: fill_keeps_def)
    next
      case r2: True
      with th have re: "bm_restore_init lib m oj s2 = (r, s')" by simp
      then consider "s' = s2" | rc where "stamp_init lib m oj s2 = (rc, s')"
        by (auto simp: bm_restore_init_def split: if_splits prod.splits)
      then show ?thesis
      proof cases
        case 1
        with k(2) [OF r2] k(1) show ?thesis by (simp add: fill_keeps_def)
      next
        case 2
        note st = stamp_init_fd [OF ok(6) 2]
        have "oj \<le> initialized_size (bm_na s')"
          using 2 k(1) by (auto simp: stamp_init_def fill_keeps_def split: if_splits)
        with st(1,2) st(3) [OF k(2) [OF r2]] show ?thesis by simp
      qed
    qed
    have "fd (bm_e s') m b = 0" if "max init hw \<le> b" "b < offset" for b
      using g(4) [OF True that] k(1) e unfolding fill_keeps_def by metis
    moreover have "fd (bm_e s') m b = fd (bm_e s) m b" if "b < max init hw" for b
      using that g(1) [OF that] g(2) k(1) e by (auto simp: fill_keeps_def oj_def)
    ultimately show ?thesis using e g(2,3) oi by (auto simp: oj_def)
  qed
  then show "\<And>b. b < max init hw \<Longrightarrow> fd (bm_e s') m b = fd (bm_e s) m b"
    and "\<And>b. r = 0 \<Longrightarrow> max init hw \<le> b \<Longrightarrow> b < offset \<Longrightarrow> fd (bm_e s') m b = 0"
    and "r = 0 \<Longrightarrow> coh content fd pm (cluster_size vol) m (na_rl (bm_na s')) (bm_e s')"
    and "init \<le> initialized_size (bm_na s')"
    and "oi = -1 \<and> initialized_size (bm_na s') \<le> max init offset \<or> init \<le> oi \<and> oi \<le> max init offset"
    by blast+
qed

lemma bm_hand_out_is_out:
  "\<exists>r xs wr'. bm_hand_out lib vol m mem wr cb offset len fw hw oi init_end s = bm_out lib m oi r xs wr' s"
  by (auto simp: bm_hand_out_def split: prod.splits option.splits)

text \<open>The ways through the body of a write map: where it stopped and what it closed with.\<close>

lemma bm_body_write_cases:
  assumes "bm_body lib vol m mem wr cb offset len True bs s = Some res"
  obtains r s1 where "bm_prepare lib vol m offset len True s = (r, s1)" and "r \<noteq> 0"
      and "res = bm_out lib m (-1) r [] wr s1"
  | s1 r oi s2 xs wr' r' where "bm_prepare lib vol m offset len True s = (0, s1)"
      and "bm_write_part lib vol m (wr_hwm wr m) offset len s1 = Some (r, oi, s2)"
      and "res = bm_out lib m oi r' xs wr' s2" and "r' = 0 \<longrightarrow> r = 0"
proof -
  obtain r s1 where pr: "bm_prepare lib vol m offset len True s = (r, s1)" by fastforce
  show thesis
  proof (cases "r = 0")
    case False
    with pr assms show thesis by (intro that(1)) (auto simp: bm_body_def)
  next
    case True
    with assms pr obtain r2 oi s2 where
      wp: "bm_write_part lib vol m (wr_hwm wr m) offset len s1 = Some (r2, oi, s2)"
      by (auto simp: bm_body_def split: option.splits)
    with assms pr True have "res = (if r2 \<noteq> 0 then bm_out lib m oi r2 [] wr s2
        else bm_hand_out lib vol m mem wr cb offset len True (wr_hwm wr m) oi INT64_MAX s2)"
      by (simp add: bm_body_def)
    then obtain r' xs wr' where "res = bm_out lib m oi r' xs wr' s2" and "r' = 0 \<longrightarrow> r2 = 0"
      using bm_hand_out_is_out [of lib vol m mem wr cb offset len True "wr_hwm wr m" oi INT64_MAX s2]
      by (cases "r2 = 0") auto
    with pr True wp show thesis by (intro that(2)) auto
  qed
qed

lemma bm_out_init:
  assumes "res = bm_out lib m oi r xs wr s" and "\<forall>e m na. l_attr_lookup lib e m na"
  shows "initialized_size (br_na res) =
    (if 0 \<le> oi \<and> oi < initialized_size (bm_na s) then oi else initialized_size (bm_na s))"
  using assms by (simp add: bm_out_def Let_def stamp_init_def split: prod.splits)

section \<open>Write maps\<close>

text \<open>
  C2: mapping a write window leaves every byte that is initialised or may be in flight (below
  \<^verbatim>\<open>initialized_size\<close> or below the high-water mark) as it was, whatever the call returns; when it
  succeeds, every byte between them and the window has become zero.
\<close>

theorem blockmap_write_bytes:
  assumes "engine_ok content fd pm (cluster_size (nv_vol nv)) lib" and "0 < cluster_size (nv_vol nv)"
    and "l_pathname_to_inode lib e path = Some m" and "l_attr_open lib e m = Some na" and "non_resident na"
    and "nk_blockmap lib nv mem wr e path offset len True blocksize cb = Some (Inr res)"
  shows "(\<forall>b < data_size na. b < max (initialized_size na) (wr_hwm wr m) \<longrightarrow> fd (br_e res) m b = fd e m b) \<and>
    (br_rc res = 0 \<longrightarrow> (\<forall>b. max (initialized_size na) (wr_hwm wr m) \<le> b \<and> b < offset \<longrightarrow>
       fd (br_e res) m b = 0))"
proof -
  let ?vol = "nv_vol nv" and ?s = "\<lparr>bm_e = e, bm_na = na\<rparr>"
  note ok = engine_okD [OF assms(1)]
  have body: "bm_body lib ?vol m mem wr cb offset len True (if blocksize \<ge> 512 then blocksize else 512) ?s = Some res"
    using nk_blockmap_openE [OF assms(6)] assms(3,4) by (metis option.inject)
  have nr: "non_resident (bm_na ?s)" using assms(5) by simp
  show ?thesis
    using body
  proof (cases rule: bm_body_write_cases)
    case (1 r s1)
    note p = bm_prepare_fd [OF assms(1,2) nr 1(1)] and o = bm_out_fd [OF ok(6) 1(3)]
    have "br_rc res \<noteq> 0" using 1 bm_out_rc by metis
    with p(1) o(1) show ?thesis by simp
  next
    case (2 s1 r oi s2 xs wr' r')
    note p = bm_prepare_fd [OF assms(1,2) nr 2(1)] and o = bm_out_fd [OF ok(6) 2(3)]
    from p(3) have c: "coh content fd pm (cluster_size ?vol) m (na_rl (bm_na s1)) (bm_e s1)" "rl_good ?vol (bm_na s1)"
      by auto
    have i: "initialized_size na = initialized_size (bm_na s1)" using p(2) by simp
    note w = bm_write_part_fd [OF assms(1,2) c 2(2) i]
    have "r = 0" if "br_rc res = 0" using that 2(3,4) bm_out_rc by metis
    with p(1) w(1,2) o(1) show ?thesis by simp
  qed
qed


section \<open>Read maps\<close>

lemma bm_prepare_read_size:
  assumes "maps_from_zero lib" and "non_resident (bm_na s)"
    and "bm_prepare lib vol m offset len False s = (0, s')"
  shows "data_size (bm_na s') = data_size (bm_na s)"
proof -
  have "bm_map_checked lib vol m s = (0, s')"
    using assms(2,3) by (auto simp: bm_prepare_def bm_make_nonres_def bm_grow_def split: if_splits)
  then obtain s1 where "bm_map_runlist lib m s = (0, s1)" "s' = s1"
    by (cases "bm_map_runlist lib m s") (auto simp: bm_map_checked_def split: if_splits)
  then have "bm_na s' = (bm_na s)\<lparr>na_rl := na_rl (bm_na s')\<rparr>" using bm_map_runlist_0(2) [OF assms(1)] by blast
  then show ?thesis by (rule arg_cong [where f = data_size, THEN trans]) simp
qed

lemma bm_read_end_0:
  assumes "maps_from_zero lib" and "0 < cluster_size vol" and "rl_good vol (bm_na s)" and "0 < bs"
    and "bm_read_end lib vol m bs hw s = (0, ie, s')"
  shows "rl_good vol (bm_na s')" and "bs dvd ie"
    and "initialized_size (bm_na s') \<le> ie" and "ie < initialized_size (bm_na s') + bs"
proof -
  have rnd: "bs dvd (x + bs - 1) div bs * bs \<and> x \<le> (x + bs - 1) div bs * bs \<and>
      (x + bs - 1) div bs * bs < x + bs" for x
  proof -
    have "(x + bs - 1) div bs * bs + (x + bs - 1) mod bs = x + bs - 1" by simp
    moreover have "0 \<le> (x + bs - 1) mod bs" "(x + bs - 1) mod bs < bs" using assms(4) by simp_all
    ultimately show ?thesis by (intro conjI) (simp, linarith+)
  qed
  have "rl_good vol (bm_na s') \<and> (s' = s \<and> ie = initialized_size (bm_na s) \<and> bs dvd ie \<or>
      ie = (initialized_size (bm_na s') + bs - 1) div bs * bs)"
  proof -
    let ?i = "initialized_size (bm_na s)"
    let ?z = "if ?i + (bs - ?i mod bs) > data_size (bm_na s) then data_size (bm_na s) else ?i + (bs - ?i mod bs)"
    obtain r1 s1 where pz: "pwrite_zeros lib m 4096 ?i ?z s = (r1, s1)" by fastforce
    consider "s' = s" "ie = ?i" "?i mod bs = 0" | "s' = s" "ie = (?i + bs - 1) div bs * bs"
      | "bm_then (r1, s1) (bm_map_checked lib vol m) = (0, s')"
        "ie = (initialized_size (bm_na s') + bs - 1) div bs * bs"
      using assms(5) pz by (auto simp: bm_read_end_def Let_def simp del: bm_then.simps
          split: if_splits prod.splits)
    then show ?thesis
    proof cases
      case 3
      then have "bm_map_checked lib vol m s1 = (0, s')" by (auto split: if_splits)
      with 3 bm_map_checked_0 [OF assms(1,2)] show ?thesis by blast
    qed (use assms(3) in auto)
  qed
  with rnd assms(4) show "rl_good vol (bm_na s')" and "bs dvd ie"
    and "initialized_size (bm_na s') \<le> ie" and "ie < initialized_size (bm_na s') + bs" by auto
qed


text \<open>
  a read map that succeeds hands out extents that follow each other from the start of the
  window, to its end unless the host's packer was full; below a block-aligned point less than a
  block above \<^verbatim>\<open>initialized_size\<close> each extent names the device bytes of the runlist, above it it
  says zeros. The table of marks is not touched.
\<close>

theorem blockmap_read_extents:
  assumes "maps_from_zero lib" and "0 < cluster_size (nv_vol nv)"
    and "nk_blockmap lib nv mem wr e path offset len False blocksize cb = Some (Inr res)"
    and "br_rc res = 0"
  shows "\<exists>me ie. tiles offset (br_extents res) me \<and> offset < me \<and> me \<le> offset + len \<and>
      (me = offset + len \<or> cb (br_extents res)) \<and>
      max 512 blocksize dvd ie \<and> initialized_size (br_na res) \<le> ie \<and>
      ie < initialized_size (br_na res) + max 512 blocksize \<and>
      (\<forall>x \<in> set (br_extents res).
         ext_agrees (cut ie (phys_of (cluster_size (nv_vol nv)) (na_rl (br_na res)))) x) \<and>
      br_wr res = wr"
proof -
  let ?bs = "if blocksize \<ge> 512 then blocksize else 512"
  obtain m na s1 s2 ie where o: "0 \<le> offset" "0 < len" "offset + len \<le> INT64_MAX"
    and re: "bm_read_end lib (nv_vol nv) m ?bs (wr_hwm wr m) s1 = (0, ie, s2)"
    and res: "res = bm_hand_out lib (nv_vol nv) m mem wr cb offset len False 0 (-1) ie s2"
    and good: "rl_good (nv_vol nv) (bm_na s1)"
    using assms by (rule nk_blockmap_read_0)
  have bs: "?bs = max 512 blocksize" by auto
  note r = bm_read_end_0 [OF assms(1,2) good _ re, unfolded bs, simplified]
  obtain me where em: "bm_emit cb (cluster_size (nv_vol nv)) offset len False ie (na_rl (bm_na s2)) =
      (0, br_extents res, me)" and na: "br_na res = bm_na s2" and wr: "br_wr res = wr"
    by (rule bm_hand_out_0 [OF res assms(4)]) auto
  have "contig 0 (na_rl (bm_na s2))" using r(1) by (simp add: rl_good_def)
  note e = bm_emit_0 [OF assms(2) this o(1,2) em]
  show ?thesis
    unfolding na by (rule exI [of _ me], rule exI [of _ ie]) (use e(1-5) r wr in simp)
qed

text \<open>The byte the kernel gets for position \<open>b\<close> through an extent: zero, or the device byte it names.\<close>

definition ext_read :: "('e \<Rightarrow> s64 \<Rightarrow> byte) \<Rightarrow> 'e \<Rightarrow> extent \<Rightarrow> s64 \<Rightarrow> byte" where
  "ext_read content e x b = (case ext_phys x b of None \<Rightarrow> 0 | Some y \<Rightarrow> content e y)"

lemma bm_read_end_fd:
  assumes "engine_ok content fd pm (cluster_size vol) lib" and "0 < bs"
    and "coh content fd pm (cluster_size vol) m (na_rl (bm_na s)) (bm_e s)"
    and "hw \<le> initialized_size (bm_na s)"
    and "bm_read_end lib vol m bs hw s = (0, ie, s')"
  shows "coh content fd pm (cluster_size vol) m (na_rl (bm_na s')) (bm_e s')"
    and "\<And>b. b < initialized_size (bm_na s) \<Longrightarrow> b < ie \<and> fd (bm_e s') m b = fd (bm_e s) m b"
    and "\<And>b. initialized_size (bm_na s) \<le> b \<Longrightarrow> b < ie \<Longrightarrow> b < data_size (bm_na s) \<Longrightarrow> fd (bm_e s') m b = 0"
proof -
  note ok = engine_okD [OF assms(1)]
  let ?i = "initialized_size (bm_na s)" and ?d = "data_size (bm_na s)"
  define z where "z = (if ?i + (bs - ?i mod bs) > ?d then ?d else ?i + (bs - ?i mod bs))"
  obtain r1 s1 where pz: "pwrite_zeros lib m 4096 ?i z s = (r1, s1)" by fastforce
  have lt: "?i mod bs < bs" using assms(2) by simp
  consider (aligned) "s' = s" "ie = ?i"
    | (none) "s' = s" "ie = (?i + bs - 1) div bs * bs" "z \<le> ?i" "?i mod bs \<noteq> 0"
    | (zeroed) "?i < z" "bm_then (r1, s1) (bm_map_checked lib vol m) = (0, s')"
        "ie = (initialized_size (bm_na s') + bs - 1) div bs * bs"
    using assms(4,5) pz by (auto simp: bm_read_end_def Let_def simp flip: z_def simp del: bm_then.simps
        split: if_splits prod.splits)
  then have "coh content fd pm (cluster_size vol) m (na_rl (bm_na s')) (bm_e s') \<and>
      (\<forall>b < ?i. b < ie \<and> fd (bm_e s') m b = fd (bm_e s) m b) \<and>
      (\<forall>b. ?i \<le> b \<and> b < ie \<and> b < ?d \<longrightarrow> fd (bm_e s') m b = 0)"
  proof cases
    case aligned
    with assms(3) show ?thesis by auto
  next
    case none
    then have "?d \<le> ?i" using lt by (auto simp: z_def split: if_splits)
    moreover have "?i \<le> ie"
      unfolding none(2) using assms(2) by (metis round_up_int_ge)
    ultimately show ?thesis using none assms(3) by auto
  next
    case zeroed
    then have r1: "r1 = 0" and mc: "bm_map_checked lib vol m s1 = (0, s')" by (auto split: if_splits)
    note f = pwrite_zeros_fd [OF ok(4) pz, simplified] and g = bm_map_checked_fd [OF ok(2) mc]
    have i': "initialized_size (bm_na s') = z" using f g r1 zeroed(1) by auto
    have ie: "z \<le> ie" unfolding zeroed(3) i' using assms(2) by (metis round_up_int_ge)
    have "b < z" if "b < ie" "b < ?d" for b
    proof (cases "?i + (bs - ?i mod bs) > ?d")
      case False
      then have "z = (?i div bs + 1) * bs" by (simp add: z_def distrib_right flip: minus_mod_eq_div_mult)
      then have "ie = z" unfolding zeroed(3) i' using round_up_int_mult [OF assms(2)] by simp
      with that show ?thesis by simp
    qed (use that in \<open>simp add: z_def\<close>)
    moreover have "fd (bm_e s1) m b = fd (bm_e s) m b" if "b < ?i" for b
      using that f by (metis not_le)
    ultimately show ?thesis using f g r1 zeroed(1) ie by auto
  qed
  then show "coh content fd pm (cluster_size vol) m (na_rl (bm_na s')) (bm_e s')"
    and "\<And>b. b < ?i \<Longrightarrow> b < ie \<and> fd (bm_e s') m b = fd (bm_e s) m b"
    and "\<And>b. ?i \<le> b \<Longrightarrow> b < ie \<Longrightarrow> b < ?d \<Longrightarrow> fd (bm_e s') m b = 0" by blast+
qed




section \<open>What a write map hands out\<close>

lemma phys_of_in_volume:
  assumes "\<forall>r \<in> set (live_runs rl). run_in_volume vol r" and "0 < cluster_size vol"
    and "phys_of (cluster_size vol) rl b = Some x"
  shows "0 \<le> x \<and> x < nr_clusters vol * cluster_size vol"
  using assms(1,3)
proof (induction rl)
  case Nil
  then show ?case by simp
next
  case (Cons r rl)
  let ?c = "cluster_size vol"
  have len: "rl_length r \<noteq> 0" using Cons.prems(2) by auto
  show ?case
  proof (cases "rl_vcn r * ?c \<le> b \<and> b < (rl_vcn r + rl_length r) * ?c")
    case True
    with Cons.prems(2) len have lcn: "0 \<le> rl_lcn r" and x: "x = rl_lcn r * ?c + (b - rl_vcn r * ?c)"
      by (auto split: if_splits)
    have "run_in_volume vol r" using Cons.prems(1) len by simp
    with lcn have "rl_lcn r + rl_length r \<le> nr_clusters vol" by (simp add: run_in_volume_def)
    then have "(rl_lcn r + rl_length r) * ?c \<le> nr_clusters vol * ?c" using assms(2) by (simp add: mult_right_mono)
    with True lcn assms(2) show ?thesis by (simp add: x distrib_right)
  next
    case False
    with Cons.prems len have "phys_of ?c rl b = Some x" by (auto split: if_splits)
    with Cons.IH Cons.prems(1) len show ?thesis by auto
  qed
qed

lemma tiles_bounds:
  "tiles a xs b \<Longrightarrow> x \<in> set xs \<Longrightarrow> a \<le> x_logical x \<and> 0 < x_length x \<and> x_logical x + x_length x \<le> b"
proof (induction xs arbitrary: a)
  case Nil
  then show ?case by simp
next
  case (Cons y ys)
  have le: "tiles c zs b \<Longrightarrow> c \<le> b" for c zs by (induction zs arbitrary: c) fastforce+
  from Cons show ?case using le [of "a + x_length y" ys] by (cases "x = y") fastforce+
qed

text \<open>
  C4: a write map that succeeds hands out only real clusters: its extents follow each other from
  the start of the window (to the end unless the packer was full), each lies inside the volume,
  and each names the device bytes the attribute's runlist gives for its range.
\<close>

theorem blockmap_write_backed:
  assumes "maps_from_zero lib" and "0 < cluster_size (nv_vol nv)"
    and "nk_blockmap lib nv mem wr e path offset len True blocksize cb = Some (Inr res)"
    and "br_rc res = 0"
  shows "\<exists>me. tiles offset (br_extents res) me \<and> offset < me \<and> me \<le> offset + len \<and>
      (me = offset + len \<or> cb (br_extents res)) \<and>
      (\<forall>x \<in> set (br_extents res). 0 \<le> x_physical x \<and>
         x_physical x + x_length x \<le> nr_clusters (nv_vol nv) * cluster_size (nv_vol nv) \<and>
         ext_agrees (phys_of (cluster_size (nv_vol nv)) (na_rl (br_na res))) x)"
proof -
  let ?c = "cluster_size (nv_vol nv)" and ?vol = "nv_vol nv"
  obtain m na s1 s2 oi where o: "0 \<le> offset" "0 < len" "offset + len \<le> INT64_MAX"
    and wp: "bm_write_part lib ?vol m (wr_hwm wr m) offset len s1 = Some (0, oi, s2)"
    and res: "res = bm_hand_out lib ?vol m mem wr cb offset len True (wr_hwm wr m) oi INT64_MAX s2"
    and good: "rl_good ?vol (bm_na s1)"
    using assms by (rule nk_blockmap_write_0)
  note w = bm_write_part_0 [OF assms(1,2) good wp]
  let ?rl = "na_rl (bm_na s2)"
  obtain me where em: "bm_emit cb ?c offset len True INT64_MAX ?rl = (0, br_extents res, me)"
    and na: "br_na res = bm_na s2"
    by (rule bm_hand_out_0 [OF res assms(4)]) (use w(3) in auto)
  have g: "contig 0 ?rl" "\<forall>r \<in> set (live_runs ?rl). run_in_volume ?vol r" using w(1) by (auto simp: rl_good_def)
  note e = bm_emit_0 [OF assms(2) g(1) o(1,2) em]
  have hole: "\<forall>r \<in> set (live_runs ?rl). LCN_HOLE \<le> rl_lcn r" using g(2) by (auto simp: run_in_volume_def)
  have bk: "0 \<le> x_physical x \<and> x_physical x + x_length x \<le> nr_clusters ?vol * ?c \<and>
      ext_agrees (phys_of ?c ?rl) x" if x: "x \<in> set (br_extents res)" for x
  proof -
    note t = tiles_bounds [OF e(1) x]
    have ph: "\<exists>y. ext_phys x b = Some y \<and> phys_of ?c ?rl b = Some y \<and> 0 \<le> y \<and> y < nr_clusters ?vol * ?c"
      if b: "x_logical x \<le> b" "b < x_logical x + x_length x" for b
    proof -
      have lim: "offset \<le> b" "b < me" "b < offset + len" "b < rl_end 0 ?rl * ?c"
        using b t e(4) e(6) by auto
      obtain y where y: "phys_of ?c ?rl b = Some y"
        using no_hole_mapped [OF g(1) assms(2) hole w(2) lim(1,3) _ lim(4)] lim(1) o(1) by auto
      moreover have "ext_phys x b = cut INT64_MAX (phys_of ?c ?rl) b"
        using bspec [OF e(2) x] b by (simp add: ext_agrees_def)
      moreover have "b < INT64_MAX" using lim(3) o(3) by linarith
      ultimately show ?thesis using phys_of_in_volume [OF g(2) assms(2) y] by (simp add: cut_def)
    qed
    have "0 \<le> x_physical x" using ph [of "x_logical x"] t by (auto simp: ext_phys_def split: if_splits)
    moreover have "x_physical x + x_length x \<le> nr_clusters ?vol * ?c"
      using ph [of "x_logical x + x_length x - 1"] t by (auto simp: ext_phys_def split: if_splits)
    moreover have "ext_agrees (phys_of ?c ?rl) x" unfolding ext_agrees_def using ph by metis
    ultimately show ?thesis by blast
  qed
  show ?thesis unfolding na by (rule exI [of _ me]) (use e(1,3-5) bk in blast)
qed

text \<open>
  C5: the window handed to the kernel is remembered. After a write map that succeeds, the end of
  what was handed out is at most the larger of \<^verbatim>\<open>initialized_size\<close> and the file's mark, the mark
  never went down, and no other file's mark changed.
\<close>

theorem blockmap_write_recorded:
  assumes "maps_from_zero lib" and "0 < cluster_size (nv_vol nv)" and "wr_inv wr"
    and "l_pathname_to_inode lib e path = Some m"
    and "nk_blockmap lib nv mem wr e path offset len True blocksize cb = Some (Inr res)"
    and "br_rc res = 0"
  shows "(\<forall>x \<in> set (br_extents res).
        x_logical x + x_length x \<le> max (initialized_size (br_na res)) (wr_hwm (br_wr res) m)) \<and>
    wr_hwm wr m \<le> wr_hwm (br_wr res) m \<and> wr_inv (br_wr res) \<and>
    (\<forall>m'. m' \<noteq> m \<longrightarrow> wr_map (br_wr res) m' = wr_map wr m')"
proof -
  let ?c = "cluster_size (nv_vol nv)" and ?vol = "nv_vol nv"
  obtain m' na s1 s2 oi where o: "l_pathname_to_inode lib e path = Some m'" "0 \<le> offset" "0 < len"
    and wp: "bm_write_part lib ?vol m' (wr_hwm wr m') offset len s1 = Some (0, oi, s2)"
    and res: "res = bm_hand_out lib ?vol m' mem wr cb offset len True (wr_hwm wr m') oi INT64_MAX s2"
    and good: "rl_good ?vol (bm_na s1)"
    using assms(1,2,5,6) by (rule nk_blockmap_write_0)
  have m: "m' = m" using o(1) assms(4) by simp
  note w = bm_write_part_0 [OF assms(1,2) good wp]
  obtain me where em: "bm_emit cb ?c offset len True INT64_MAX (na_rl (bm_na s2)) = (0, br_extents res, me)"
    and na: "br_na res = bm_na s2"
    and wr: "if True \<and> me > wr_hwm wr m' \<and> me > initialized_size (bm_na s2)
         then wr_set mem wr m' me = Some (br_wr res) else br_wr res = wr"
    by (rule bm_hand_out_0 [OF res assms(6)]) (use w(3) in auto)
  have "contig 0 (na_rl (bm_na s2))" using w(1) by (simp add: rl_good_def)
  note t = tiles_bounds [OF bm_emit_0(1) [OF assms(2) this o(2,3) em]]
  show ?thesis
  proof (cases "me > wr_hwm wr m' \<and> me > initialized_size (bm_na s2)")
    case True
    with wr m have set: "wr_set mem wr m me = Some (br_wr res)" by simp
    note lu = wr.look_upd [OF assms(3) set] and iu = wr.invar_upd [OF assms(3) set]
    have "wr_hwm (br_wr res) m = me" by (simp add: wr_hwm_map lu)
    with True t lu iu m na show ?thesis by fastforce
  next
    case False
    with wr have "br_wr res = wr" by auto
    with False t assms(3) m na show ?thesis by fastforce
  qed
qed

end
