(* ===== verification/Koio_Complete.thy ===== *)
theory Koio_Complete
  imports Koio_Data
begin

text \<open>
  The completion calls: \<open>nk_complete_write\<close>, \<open>nk_abort_write\<close> and \<open>nk_truncate\<close>, and the end of
  the hole loop of \<open>nk_blockmap\<close>. The predicates of \<open>Koio_Data\<close> state what is assumed of the
  engine.
\<close>

section \<open>Completion\<close>

text \<open>
  \<open>nk_complete_write\<close> and \<open>nk_abort_write\<close> do not check the runlist they map, so what they do
  rests on the engine returning runs in order.
\<close>

definition maps_in_order :: "'e ntfs_lib \<Rightarrow> bool" where
  "maps_in_order lib \<longleftrightarrow>
     (\<forall>e m na e' na'. l_attr_map_whole_runlist lib e m na = (False, e', na') \<longrightarrow> contig 0 (na_rl na'))"

lemma bm_map_runlist_fd:
  assumes "maps_coherent content fd pm csize lib" and "bm_map_runlist lib m s = (r, s')"
  shows "fd (bm_e s') m = fd (bm_e s) m" and "initialized_size (bm_na s') = initialized_size (bm_na s)"
    and "r = 0 \<Longrightarrow> coh content fd pm csize m (na_rl (bm_na s')) (bm_e s')"
proof -
  obtain f e na where l: "l_attr_map_whole_runlist lib (bm_e s) m (bm_na s) = (f, e, na)"
    by (metis prod_cases3)
  then have "fd e m = fd (bm_e s) m \<and> initialized_size na = initialized_size (bm_na s) \<and>
      (\<not> f \<longrightarrow> coh content fd pm csize m (na_rl na) e)"
    using assms(1) unfolding maps_coherent_def by blast
  moreover have "s' = \<lparr>bm_e = e, bm_na = na\<rparr>" and "r = 0 \<longleftrightarrow> \<not> f"
    using assms(2) l by (auto simp: bm_map_runlist_def split: if_splits)
  ultimately show "fd (bm_e s') m = fd (bm_e s) m" and "initialized_size (bm_na s') = initialized_size (bm_na s)"
    and "r = 0 \<Longrightarrow> coh content fd pm csize m (na_rl (bm_na s')) (bm_e s')" by auto
qed

text \<open>Map the runlist and zero a range of the clusters, as both completion calls do.\<close>

lemma map_and_zero_fd:
  assumes "engine_ok content fd pm (cluster_size vol) lib" and "maps_in_order lib" and "0 < cluster_size vol"
    and "bm_then (bm_map_runlist lib m s) (bm_zero_raw lib vol from to) = (r, s')"
  shows "initialized_size (bm_na s') = initialized_size (bm_na s)"
    and "\<And>b. b < from \<or> to \<le> b \<Longrightarrow> fd (bm_e s') m b = fd (bm_e s) m b"
    and "\<And>b. r = 0 \<Longrightarrow> from \<le> b \<Longrightarrow> b < to \<Longrightarrow> fd (bm_e s') m b = 0"
    and "r = 0 \<Longrightarrow> data_size (bm_na s') = data_size (bm_na s) \<and> non_resident (bm_na s') = non_resident (bm_na s)"
proof -
  note ok = engine_okD [OF assms(1)]
  obtain r1 s1 where mp: "bm_map_runlist lib m s = (r1, s1)" by fastforce
  note m = bm_map_runlist_fd [OF ok(2) mp]
  have "initialized_size (bm_na s') = initialized_size (bm_na s) \<and>
      (\<forall>b. b < from \<or> to \<le> b \<longrightarrow> fd (bm_e s') m b = fd (bm_e s) m b) \<and>
      (r = 0 \<longrightarrow> (\<forall>b. from \<le> b \<and> b < to \<longrightarrow> fd (bm_e s') m b = 0) \<and>
        data_size (bm_na s') = data_size (bm_na s) \<and> non_resident (bm_na s') = non_resident (bm_na s))"
  proof (cases "r1 = 0")
    case False
    with assms(4) mp have "s' = s1" "r \<noteq> 0" by auto
    with m show ?thesis by simp
  next
    case True
    with assms(4) mp have zr: "bm_zero_raw lib vol from to s1 = (r, s')" by simp
    have "contig 0 (na_rl (bm_na s1))"
      using assms(2) mp True unfolding maps_in_order_def
      by (auto simp: bm_map_runlist_def split: prod.splits if_splits)
    note z = bm_zero_raw_fd [OF ok(3) assms(3) this m(3) [OF True] zr]
    have na1: "bm_na s1 = (bm_na s)\<lparr>na_rl := na_rl (bm_na s1)\<rparr>"
      using bm_map_runlist_0(2) [OF ok(1)] mp True by blast
    have "data_size (bm_na s1) = data_size (bm_na s)" "non_resident (bm_na s1) = non_resident (bm_na s)"
      by (subst na1, simp)+
    with z m show ?thesis by simp
  qed
  then show "initialized_size (bm_na s') = initialized_size (bm_na s)"
    and "\<And>b. b < from \<or> to \<le> b \<Longrightarrow> fd (bm_e s') m b = fd (bm_e s) m b"
    and "\<And>b. r = 0 \<Longrightarrow> from \<le> b \<Longrightarrow> b < to \<Longrightarrow> fd (bm_e s') m b = 0"
    and "r = 0 \<Longrightarrow> data_size (bm_na s') = data_size (bm_na s) \<and> non_resident (bm_na s') = non_resident (bm_na s)"
    by blast+
qed

lemma bm_out_m1:
  "res = bm_out lib m (-1) r xs wr s \<Longrightarrow> br_na res = bm_na s"
  by (simp add: bm_out_na)

text \<open>
  The ways through \<open>nk_complete_write\<close> once the attribute is open and non-resident: the window was
  cut off, an error, or the stamp done and the mark looked at.
\<close>

lemma complete_cases:
  assumes "l_pathname_to_inode lib e path = Some m" and "l_attr_open lib e m = Some na" and "non_resident na"
    and "nk_complete_write lib nv wr e path offset len = Inr res"
  defines "fl \<equiv> max (initialized_size na) (wr_hwm wr m)" and "s \<equiv> \<lparr>bm_e = e, bm_na = na\<rparr>"
    and "target \<equiv> min (offset + len) (data_size na)"
  obtains (cut_off) "data_size na \<le> offset" and "res = bm_out lib m (-1) 0 [] wr s"
  | (failed) r s1 where "offset < data_size na" and "fl < offset"
      and "bm_then (bm_map_runlist lib m s) (bm_zero_raw lib (nv_vol nv) fl offset) = (r, s1)" and "r \<noteq> 0"
      and "res = bm_out lib m (-1) (-1) [] wr s1"
  | (zeroed) s1 r2 s2 where "offset < data_size na"
      and "if fl < offset then bm_then (bm_map_runlist lib m s) (bm_zero_raw lib (nv_vol nv) fl offset) = (0, s1)
           else s1 = s"
      and "(if non_resident (bm_na s1) \<and> initialized_size (bm_na s1) < target then stamp_init lib m target s1
            else (0, s1)) = (r2, s2)"
      and "res = (if r2 \<noteq> 0 then bm_out lib m (-1) (-1) [] wr s2
             else bm_out lib m (-1) 0 []
               (if initialized_size (bm_na s2) \<ge> wr_hwm wr m then wr_drop wr m else wr) s2)"
proof -
  have guard: "\<not> (offset < 0 \<or> len \<le> 0 \<or> offset > INT64_MAX - len)"
    using assms(4) by (auto simp: nk_complete_write_def)
  have fl: "(if wr_hwm wr m > initialized_size na then wr_hwm wr m else initialized_size na) = fl"
    by (auto simp: fl_def)
  have tg: "(if offset + len > data_size na then data_size na else offset + len) = target"
    by (auto simp: target_def)
  obtain r1 s1 where st: "(if fl < offset then
      bm_then (bm_map_runlist lib m s) (bm_zero_raw lib (nv_vol nv) fl offset) else (0, s)) = (r1, s1)"
    by fastforce
  obtain r2 s2 where st2: "(if non_resident (bm_na s1) \<and> initialized_size (bm_na s1) < target
      then stamp_init lib m target s1 else (0, s1)) = (r2, s2)" by fastforce
  have run: "res = (if data_size na \<le> offset then bm_out lib m (-1) 0 [] wr s
      else if r1 \<noteq> 0 then bm_out lib m (-1) (-1) [] wr s1
      else if r2 \<noteq> 0 then bm_out lib m (-1) (-1) [] wr s2
      else bm_out lib m (-1) 0 []
             (if initialized_size (bm_na s2) \<ge> wr_hwm wr m then wr_drop wr m else wr) s2)"
    using assms(1-4) guard st st2
    by (cases "data_size na \<le> offset"; cases "r1 = 0"; cases "r2 = 0")
      (simp_all add: nk_complete_write_def Let_def cw_done_def fl tg del: bm_then.simps flip: s_def
        cong del: if_weak_cong)
  show thesis
  proof (cases "data_size na \<le> offset")
    case True
    with run show thesis by (intro cut_off) auto
  next
    case False
    show thesis
    proof (cases "r1 = 0")
      case True
      with run False st st2 show thesis
        by (intro zeroed [of s1 r2 s2]) (auto simp del: bm_then.simps split: if_splits)
    next
      case r1: False
      with run False st show thesis
        by (intro failed [of r1 s1]) (auto simp del: bm_then.simps split: if_splits)
    qed
  qed
qed


lemma stamp_init_init:
  "stamp_init lib m v s = (rc, s') \<Longrightarrow> rc = 0 \<and> initialized_size (bm_na s') = v \<or>
     rc \<noteq> 0 \<and> s' = s"
  by (auto simp: stamp_init_def split: if_splits)

text \<open>What the last case of \<open>complete_cases\<close> comes to.\<close>

lemma complete_zeroed:
  fixes lib :: "'e ntfs_lib" and e :: 'e
  assumes "engine_ok content fd pm (cluster_size (nv_vol nv)) lib" and "maps_in_order lib"
    and "0 < cluster_size (nv_vol nv)" and "non_resident na"
  defines "s \<equiv> \<lparr>bm_e = e, bm_na = na\<rparr>"
  assumes s1: "if fl < offset then bm_then (bm_map_runlist lib m s) (bm_zero_raw lib (nv_vol nv) fl offset) = (0, s1)
           else s1 = s"
    and s2: "(if non_resident (bm_na s1) \<and> initialized_size (bm_na s1) < target then stamp_init lib m target s1
            else (0, s1)) = (r2, s2)"
  shows "data_size (bm_na s2) = data_size na"
    and "initialized_size (bm_na s2) = (if r2 = 0 then max (initialized_size na) target else initialized_size na)"
    and "fd (bm_e s2) m b = (if fl \<le> b \<and> b < offset then 0 else fd e m b)"
proof -
  note ok = engine_okD [OF assms(1)]
  have 1: "initialized_size (bm_na s1) = initialized_size na \<and> data_size (bm_na s1) = data_size na \<and>
      non_resident (bm_na s1) \<and> fd (bm_e s1) m b = (if fl \<le> b \<and> b < offset then 0 else fd e m b)"
  proof (cases "fl < offset")
    case True
    with s1 have z: "bm_then (bm_map_runlist lib m s) (bm_zero_raw lib (nv_vol nv) fl offset) = (0, s1)" by simp
    from map_and_zero_fd [OF assms(1-3) z] assms(4) show ?thesis by (auto simp: s_def not_le not_less)
  next
    case False
    with s1 assms(4) show ?thesis by (auto simp: s_def)
  qed
  show "data_size (bm_na s2) = data_size na"
    using 1 s2 stamp_init_na [of lib m target s1 r2 s2] by (auto split: if_splits)
  show "initialized_size (bm_na s2) = (if r2 = 0 then max (initialized_size na) target else initialized_size na)"
    using 1 s2 stamp_init_init [of lib m target s1 r2 s2] by (auto split: if_splits)
  show "fd (bm_e s2) m b = (if fl \<le> b \<and> b < offset then 0 else fd e m b)"
    using 1 s2 stamp_init_fd(1) [OF ok(6), of m target s1 r2 s2] by (auto split: if_splits)
qed





section \<open>Abort\<close>

lemma meta_close_fd: "meta_ok content fd pm csize lib \<Longrightarrow> fd (snd (l_inode_close lib e m)) m = fd e m"
  by (simp add: meta_ok_def)


text \<open>
  Aborting the topmost window pulls the file's mark back to the start of the window, or forgets
  it when nothing is left above \<^verbatim>\<open>initialized_size\<close>; any other abort keeps every mark.
\<close>

theorem abort_write_mark:
  assumes "wr_inv wr" and "0 \<le> offset" and "0 < len" and "offset + len \<le> INT64_MAX"
    and "l_pathname_to_inode lib e path = Some m" and "l_attr_open lib e m = Some na"
    and "nk_abort_write lib nv wr e path offset len = (r, wr', e')"
  shows "wr_inv wr' \<and>
    wr_map wr' =
      (case wr_map wr m of
         Some h \<Rightarrow> if offset < h \<and> h \<le> offset + len
                   then if offset \<le> initialized_size na then (wr_map wr)(m := None) else (wr_map wr)(m \<mapsto> offset)
                   else wr_map wr
       | None \<Rightarrow> wr_map wr)"
proof (cases "wr_find wr m")
  case None
  with assms show ?thesis by (auto simp: nk_abort_write_def wr_map_find)
next
  case (Some i)
  let ?h = "hwm (wr ! i)" and ?t = "wr[i := (wr ! i)\<lparr>hwm := offset\<rparr>]"
  have h: "wr_map wr m = Some ?h" by (simp add: wr_map_find Some)
  have u: "wr_map ?t = (wr_map wr)(m \<mapsto> offset)" by (rule wr_map_update [OF Some])
  have it: "wr_inv ?t" using assms(1) by (simp add: wr_inv_def mref_update)
  have "wr' = (if offset < ?h \<and> ?h \<le> offset + len
      then if offset \<le> initialized_size na then wr_drop ?t m else ?t else wr)"
    using assms(2-7) Some
    by (auto simp: nk_abort_write_def Let_def simp del: bm_then.simps split: if_splits prod.splits)
  with h u it assms(1) show ?thesis by (auto simp: wr.look_del wr.invar_del)
qed

section \<open>Truncation\<close>

text \<open>
  truncating a file lowers its mark to the new size and touches no other mark. This holds on
  every return, a failed truncation included.
\<close>

theorem truncate_mark:
  assumes "wr_inv wr" and "l_pathname_to_inode lib e path = Some m"
    and "nk_truncate lib wr e path sz = (r, wr', e')"
  shows "wr_inv wr' \<and> wr_map wr' = (wr_map wr)(m := map_option (min sz) (wr_map wr m))"
proof (cases "wr_find wr m")
  case None
  with assms show ?thesis
    by (auto simp: nk_truncate_def Let_def wr_map_find fun_eq_iff split: prod.splits)
next
  case (Some i)
  let ?h = "hwm (wr ! i)" and ?t = "wr[i := (wr ! i)\<lparr>hwm := sz\<rparr>]"
  have h: "wr_map wr m = Some ?h" by (simp add: wr_map_find Some)
  have u: "wr_map ?t = (wr_map wr)(m \<mapsto> sz)" by (rule wr_map_update [OF Some])
  have it: "wr_inv ?t" using assms(1) by (simp add: wr_inv_def mref_update)
  have "wr' = (if ?h > sz then ?t else wr)"
    using assms(2,3) Some by (auto simp: nk_truncate_def Let_def split: prod.splits)
  with h u it assms(1) show ?thesis by (auto simp: fun_eq_iff min_def)
qed


section \<open>The hole loop ends\<close>

text \<open>
  \<open>al e m\<close> is the set of positions of file \<open>m\<close> that have clusters. Documented behaviour: a mapped
  runlist shows it, \<^verbatim>\<open>ntfs_attr_pwrite\<close> allocates what it writes and frees nothing, and a raw device
  write allocates nothing.
\<close>

definition allocates :: "('e \<Rightarrow> u64 \<Rightarrow> s64 set) \<Rightarrow> s64 \<Rightarrow> 'e ntfs_lib \<Rightarrow> bool" where
  "allocates al csize lib \<longleftrightarrow>
     (\<forall>e m na e' na'. l_attr_map_whole_runlist lib e m na = (False, e', na') \<longrightarrow>
        al e' m = al e m \<and> (\<forall>b. phys_of csize (na_rl na') b \<noteq> None \<longleftrightarrow> b \<in> al e' m)) \<and>
     (\<forall>e m na p bs n e' na'. l_attr_pwrite lib e m na p bs = (n, e', na') \<longrightarrow>
        al e m \<subseteq> al e' m \<and> (n = int (length bs) \<longrightarrow> {p ..< p + n} \<subseteq> al e' m)) \<and>
     (\<forall>e m p bs n e'. l_ntfs_pwrite lib e p bs = (n, e') \<longrightarrow> al e' m = al e m)"

lemma allocatesD:
  assumes "allocates al csize lib"
  shows "l_attr_map_whole_runlist lib e m na = (False, e', na') \<Longrightarrow> al e' m = al e m"
    and "l_attr_map_whole_runlist lib e m na = (False, e', na') \<Longrightarrow>
      phys_of csize (na_rl na') b \<noteq> None \<longleftrightarrow> b \<in> al e' m"
    and "l_attr_pwrite lib e m na p bs = (n, e', na') \<Longrightarrow>
      al e m \<subseteq> al e' m \<and> (n = int (length bs) \<longrightarrow> {p ..< p + n} \<subseteq> al e' m)"
    and "l_ntfs_pwrite lib e p bs = (n, e') \<Longrightarrow> al e' m = al e m"
  using assms unfolding allocates_def by metis+

lemma pwrite_zeros_al:
  assumes "allocates al csize lib" and "pwrite_zeros lib m sz p e s = (rc, s')" and "0 < sz"
  shows "al (bm_e s) m \<subseteq> al (bm_e s') m \<and> (rc = 0 \<longrightarrow> {p ..< e} \<subseteq> al (bm_e s') m)"
  using assms
proof (induction lib m sz p e s rule: pwrite_zeros.induct)
  case (1 lib m sz p e s)
  show ?case
  proof (cases "p < e")
    case False
    with "1.prems"(2) show ?thesis by (auto simp: pwrite_zeros.simps)
  next
    case True
    define c where "c = (if e - p < int sz then e - p else int sz)"
    have c: "0 < c" "p + c \<le> e" using True "1.prems"(3) by (auto simp: c_def)
    obtain n e1 na1 where w: "l_attr_pwrite lib (bm_e s) m (bm_na s) p (replicate (nat c) 0) = (n, e1, na1)"
      by (metis prod_cases3)
    let ?s1 = "\<lparr>bm_e = e1, bm_na = na1\<rparr>"
    have k: "al (bm_e s) m \<subseteq> al e1 m \<and> (n = int (length (replicate (nat c) (0 :: byte))) \<longrightarrow> {p ..< p + n} \<subseteq> al e1 m)"
      by (rule allocatesD(3) [OF "1.prems"(1) w])
    have run: "(if n \<noteq> c then (-1, ?s1) else pwrite_zeros lib m sz (p + c) e ?s1) = (rc, s')"
      using "1.prems"(2,3) True w
      by (simp add: pwrite_zeros.simps [of lib m sz p e s] Let_def flip: c_def)
    show ?thesis
    proof (cases "n = c")
      case False
      with run k show ?thesis by auto
    next
      case eq: True
      with run have "pwrite_zeros lib m sz (p + c) e ?s1 = (rc, s')" by simp
      with "1.IH" [OF _ c_def w [symmetric] refl refl refl _ "1.prems"(1)] True "1.prems"(3) eq
      have ih: "al e1 m \<subseteq> al (bm_e s') m \<and> (rc = 0 \<longrightarrow> {p + c ..< e} \<subseteq> al (bm_e s') m)" by simp
      have "{p ..< e} = {p ..< p + c} \<union> {p + c ..< e}" using c by auto
      with k ih eq c show ?thesis by auto
    qed
  qed
qed

lemma bm_fill_hole_al:
  assumes "allocates al (cluster_size vol) lib" and "maps_from_zero lib" and "0 < cluster_size vol"
    and "bm_fill_hole lib vol m hw start end s = (0, s')"
  shows "al (bm_e s) m \<union> {start ..< end} \<subseteq> al (bm_e s') m"
    and "\<And>b. phys_of (cluster_size vol) (na_rl (bm_na s')) b \<noteq> None \<longleftrightarrow> b \<in> al (bm_e s') m"
proof -
  let ?i = "initialized_size (bm_na s)"
  define s1 where "s1 = (if hw > ?i \<and> start > ?i then s\<lparr>bm_na := (bm_na s)\<lparr>initialized_size := hw\<rparr>\<rparr> else s)"
  have e1: "bm_e s1 = bm_e s" by (simp add: s1_def)
  obtain r2 s2 where pz: "pwrite_zeros lib m 65536 start end s1 = (r2, s2)" by fastforce
  have "bm_then (r2, s2) (bm_map_checked lib vol m) = (0, s')"
    using assms(4) pz by (simp add: bm_fill_hole_def s1_def Let_def del: bm_then.simps)
  then have r2: "r2 = 0" and "bm_map_checked lib vol m s2 = (0, s')" by (auto split: if_splits)
  then obtain e na where l: "l_attr_map_whole_runlist lib (bm_e s2) m (bm_na s2) = (False, e, na)"
    and s': "s' = \<lparr>bm_e = e, bm_na = na\<rparr>"
    by (auto simp: bm_map_checked_def bm_map_runlist_def split: prod.splits if_splits)
  note al = allocatesD(1,2) [OF assms(1) l]
  show "al (bm_e s) m \<union> {start ..< end} \<subseteq> al (bm_e s') m"
    using pwrite_zeros_al [OF assms(1) pz] r2 e1 al s' by auto
  show "\<And>b. phys_of (cluster_size vol) (na_rl (bm_na s')) b \<noteq> None \<longleftrightarrow> b \<in> al (bm_e s') m"
    using al s' by simp
qed

lemma bm_fill_holes_ends:
  assumes "allocates al (cluster_size vol) lib" and "maps_from_zero lib" and "0 < cluster_size vol"
    and "rl_good vol (bm_na s)"
    and "\<And>b. phys_of (cluster_size vol) (na_rl (bm_na s)) b \<noteq> None \<longleftrightarrow> b \<in> al (bm_e s) m"
  shows "\<exists>rs. bm_fill_holes lib vol m hw offset len s = Some rs"
  using assms(4,5)
proof (induction "card ({offset ..< offset + len} - al (bm_e s) m)" arbitrary: s rule: less_induct)
  case less
  show ?case
  proof (cases "find_hole (cluster_size vol) offset len (na_rl (bm_na s))")
    case None
    then show ?thesis by (simp add: bm_fill_holes.simps)
  next
    case (Some se)
    obtain start "end" where se: "se = (start, end)" by fastforce
    obtain r s2 where fill: "bm_fill_hole lib vol m hw start end s = (r, s2)" by fastforce
    show ?thesis
    proof (cases "r = 0")
      case False
      with Some se fill show ?thesis by (simp add: bm_fill_holes.simps)
    next
      case True
      have "contig 0 (na_rl (bm_na s))" using less.prems(1) by (simp add: rl_good_def)
      note h = find_hole_Some [OF this assms(3) Some [unfolded se]]
      note a = bm_fill_hole_al [OF assms(1-3) fill [unfolded True]]
      have "start \<notin> al (bm_e s) m" using h(2) h(5) [of start] less.prems(2) [of start] by auto
      then have "{offset ..< offset + len} - al (bm_e s2) m \<subset> {offset ..< offset + len} - al (bm_e s) m"
        using a(1) h(1-3) by (intro psubsetI, blast) fastforce
      then have "card ({offset ..< offset + len} - al (bm_e s2) m) < card ({offset ..< offset + len} - al (bm_e s) m)"
        by (intro psubset_card_mono) auto
      moreover have "rl_good vol (bm_na s2)" using bm_fill_hole_0 [OF assms(2,3)] fill True by blast
      ultimately obtain rs where "bm_fill_holes lib vol m hw offset len s2 = Some rs"
        using less.hyps [OF _ _ a(2)] by blast
      with Some se fill True show ?thesis
        by (simp add: bm_fill_holes.simps [of lib vol m hw offset len s])
    qed
  qed
qed


lemma bm_map_checked_al:
  assumes "allocates al (cluster_size vol) lib" and "bm_map_checked lib vol m s = (0, s')"
  shows "phys_of (cluster_size vol) (na_rl (bm_na s')) b \<noteq> None \<longleftrightarrow> b \<in> al (bm_e s') m"
proof -
  obtain e na where l: "l_attr_map_whole_runlist lib (bm_e s) m (bm_na s) = (False, e, na)"
    and s': "s' = \<lparr>bm_e = e, bm_na = na\<rparr>"
    using assms(2) by (auto simp: bm_map_checked_def bm_map_runlist_def split: prod.splits if_splits)
  show ?thesis using allocatesD(2) [OF assms(1) l] by (simp add: s')
qed

lemma bm_zero_gap_al:
  assumes "allocates al (cluster_size vol) lib" and "bm_zero_gap lib vol m hw offset s = (0, s')"
    and "\<And>b. phys_of (cluster_size vol) (na_rl (bm_na s)) b \<noteq> None \<longleftrightarrow> b \<in> al (bm_e s) m"
  shows "phys_of (cluster_size vol) (na_rl (bm_na s')) b \<noteq> None \<longleftrightarrow> b \<in> al (bm_e s') m"
proof (cases "hw \<le> initialized_size (bm_na s)")
  case True
  obtain r s1 where pz: "pwrite_zeros lib m 65536 (initialized_size (bm_na s)) offset s = (r, s1)"
    by fastforce
  with True assms(2) have "bm_map_checked lib vol m s1 = (0, s')"
    by (auto simp: bm_zero_gap_def split: if_splits)
  then show ?thesis by (rule bm_map_checked_al [OF assms(1)])
next
  case False
  show ?thesis
  proof (cases "offset > hw")
    case True
    with False assms(2) obtain e rc where
      zr: "zero_raw (l_ntfs_pwrite lib) (cluster_size vol) (na_rl (bm_na s)) hw offset (bm_e s) = (rc, e)"
      and s': "s' = s\<lparr>bm_e := e\<rparr>"
      by (auto simp: bm_zero_gap_def bm_zero_raw_def Let_def split: if_splits prod.splits)
    have "al e m = al (bm_e s) m"
      by (rule zero_raw_inv [where I = "\<lambda>d. al d m = al (bm_e s) m", OF _ zr refl])
        (use allocatesD(4) [OF assms(1)] in metis)
    with assms(3) s' show ?thesis by simp
  next
    case no: False
    with False assms(2,3) show ?thesis by (auto simp: bm_zero_gap_def Let_def)
  qed
qed

text \<open>
  C6: the block map always returns. The loop that fills the holes of a write window ends, because
  every round gives clusters to at least one byte of the window and no byte loses them.
\<close>

theorem blockmap_returns:
  assumes "allocates al (cluster_size (nv_vol nv)) lib" and "maps_from_zero lib"
    and "0 < cluster_size (nv_vol nv)"
  shows "\<exists>out. nk_blockmap lib nv mem wr e path offset len for_write blocksize cb = Some out"
proof -
  let ?vol = "nv_vol nv"
  have body: "\<exists>res. bm_body lib ?vol m mem wr cb offset len for_write bs s = Some res" for m bs s
  proof -
    obtain r s1 where pr: "bm_prepare lib ?vol m offset len for_write s = (r, s1)" by fastforce
    show ?thesis
    proof (cases "r = 0 \<and> for_write")
      case False
      with pr show ?thesis by (auto simp: bm_body_def split: prod.splits)
    next
      case True
      with pr have pr: "bm_prepare lib ?vol m offset len True s = (0, s1)" by simp
      obtain r2 s2 where 2: "bm_zero_gap lib ?vol m (wr_hwm wr m) offset s1 = (r2, s2)" by fastforce
      have mc: "\<exists>s0. bm_map_checked lib ?vol m s0 = (0, s1)"
        using pr by (cases "bm_make_nonres lib ?vol m s"; cases "bm_grow lib m offset len True (snd (bm_make_nonres lib ?vol m s))")
          (auto simp: bm_prepare_def split: if_splits)
      then have p1: "phys_of (cluster_size ?vol) (na_rl (bm_na s1)) b \<noteq> None \<longleftrightarrow> b \<in> al (bm_e s1) m" for b
        using bm_map_checked_al [OF assms(1)] by blast
      have "\<exists>rs. bm_fill_holes lib ?vol m (wr_hwm wr m) offset len s2 = Some rs" if "r2 = 0"
        using bm_fill_holes_ends [OF assms] bm_zero_gap_al [OF assms(1) _ p1]
          bm_zero_gap_0 [OF assms(2,3) bm_prepare_0 [OF assms(2,3) pr]] 2 that by blast
      then have "\<exists>w. bm_write_part lib ?vol m (wr_hwm wr m) offset len s1 = Some w"
        using 2 by (cases "r2 = 0") (auto simp: bm_write_part_def Let_def split: prod.splits)
      with pr True show ?thesis by (auto simp: bm_body_def)
    qed
  qed
  then show ?thesis
    by (auto simp: nk_blockmap_def Let_def split: option.splits)
qed

end
