(* ===== verification/Stat.thy ===== *)
theory Stat
  imports Koio_Props
begin

text \<open>
  File attributes for the host (\<^verbatim>\<open>ntfs_bridge.c\<close>): \<open>is_intx_symlink\<close>, \<open>fill_stat\<close> and
  \<open>nk_stat_path\<close>, the volume totals and the label. The inode's flags and times and the conversion
  \<^verbatim>\<open>ntfs2timespec\<close> are parameters; the data attribute is the one of \<open>Koio\<close> with its allocated size.
\<close>

record inode_info =
  i_mft_no :: u64
  i_is_dir :: bool
  i_reparse :: bool
  i_system :: bool
  i_atime :: u64
  i_mtime :: u64
  i_ctime :: u64
  i_btime :: u64

record nk_stat =
  ns_is_dir :: bool
  ns_size :: s64
  ns_alloc_size :: s64
  ns_inode :: u64
  ns_atime :: s64
  ns_mtime :: s64
  ns_ctime :: s64
  ns_btime :: s64
  ns_is_symlink :: bool
  ns_koio_ok :: bool
  ns_is_resident :: bool

text \<open>The eight bytes \<^verbatim>\<open>IntxLNK\1\<close>.\<close>

definition INTX_SYMBOLIC_LINK :: "byte list" where
  "INTX_SYMBOLIC_LINK = [0x49, 0x6e, 0x74, 0x78, 0x4c, 0x4e, 0x4b, 0x01]"

text \<open>\<open>pread\<close> is \<^verbatim>\<open>ntfs_attr_pread\<close> of the attribute: position, count, result and bytes.\<close>

definition is_intx_symlink :: "(s64 \<Rightarrow> s64 \<Rightarrow> s64 \<times> byte list) \<Rightarrow> ntfs_attr option \<Rightarrow> bool" where
  "is_intx_symlink pread na =
     (case na of
        None \<Rightarrow> False
      | Some a \<Rightarrow>
          if data_size a < 10 \<or> data_size a > 4096 + 8 then False
          else (case pread 0 8 of (n, bs) \<Rightarrow> if n \<noteq> 8 then False else take 8 bs = INTX_SYMBOLIC_LINK))"

definition fill_stat ::
  "(u64 \<Rightarrow> s64) \<Rightarrow> (s64 \<Rightarrow> s64 \<Rightarrow> s64 \<times> byte list) \<Rightarrow> s64 \<Rightarrow> inode_info \<Rightarrow> ntfs_attr option \<Rightarrow> nk_stat" where
  "fill_stat to_sec pread alloc ni na =
     (let link = (i_reparse ni \<or> i_system ni \<and> is_intx_symlink pread na) in
      \<lparr>ns_is_dir = i_is_dir ni,
       ns_size = (case na of Some a \<Rightarrow> data_size a | None \<Rightarrow> 0),
       ns_alloc_size = (case na of Some a \<Rightarrow> alloc | None \<Rightarrow> 0),
       ns_inode = i_mft_no ni,
       ns_atime = to_sec (i_atime ni), ns_mtime = to_sec (i_mtime ni),
       ns_ctime = to_sec (i_ctime ni), ns_btime = to_sec (i_btime ni),
       ns_is_symlink = link,
       ns_koio_ok = (case na of Some a \<Rightarrow> \<not> (is_compressed a \<or> is_encrypted a) \<and> \<not> link | None \<Rightarrow> False),
       ns_is_resident = (case na of Some a \<Rightarrow> \<not> non_resident a | None \<Rightarrow> False)\<rparr>)"

text \<open>
  \<open>info m\<close> are the inode's flags, \<open>open_data e m\<close> opens the unnamed data; a directory has none.
  \<open>None\<close> is the return value \<open>-1\<close>.
\<close>

definition nk_stat_path ::
  "'e ntfs_lib \<Rightarrow> (u64 \<Rightarrow> s64) \<Rightarrow> ('e \<Rightarrow> u64 \<Rightarrow> inode_info) \<Rightarrow> ('e \<Rightarrow> u64 \<Rightarrow> s64 \<Rightarrow> s64 \<Rightarrow> s64 \<times> byte list) \<Rightarrow>
   ('e \<Rightarrow> u64 \<Rightarrow> s64) \<Rightarrow> nk_vol \<Rightarrow> 'e \<Rightarrow> string \<Rightarrow> nk_stat option" where
  "nk_stat_path lib to_sec info pread alloc nv e path =
     (case l_pathname_to_inode lib e path of
        None \<Rightarrow> None
      | Some m \<Rightarrow>
          let na = (if i_is_dir (info e m) then None else l_attr_open lib e m);
              st = fill_stat to_sec (pread e m) (alloc e m) (info e m) na;
              off = (nv_bde nv \<or>
                     (case na of
                        Some a \<Rightarrow> vol_readonly (nv_vol nv) \<and> non_resident a \<and> initialized_size a < data_size a
                      | None \<Rightarrow> False))
          in Some (if off then st\<lparr>ns_koio_ok := False\<rparr> else st))"

text \<open>\<open>free\<close> is the result of \<^verbatim>\<open>ntfs_volume_get_free_space\<close>, \<open>free_clusters\<close> the field it sets.\<close>

definition nk_statvfs :: "s64 \<Rightarrow> s64 \<Rightarrow> ntfs_volume \<Rightarrow> (s64 \<times> s64 \<times> s64) option" where
  "nk_statvfs free free_clusters vol =
     (if free < 0 then None
      else Some (nr_clusters vol * cluster_size vol, free_clusters * cluster_size vol, cluster_size vol))"

definition nk_label :: "string option \<Rightarrow> nat \<Rightarrow> string option" where
  "nk_label vol_name buflen =
     (if buflen = 0 then None
      else Some (take (buflen - 1) (case vol_name of Some n \<Rightarrow> n | None \<Rightarrow> [])))"

section \<open>What the host may rely on\<close>

lemma bm_read_end_mappable:
  assumes "\<not> (vol_readonly vol \<and> initialized_size (bm_na s) < data_size (bm_na s))"
  shows "fst (bm_read_end lib vol m bs hw s) \<noteq> -2"
proof -
  let ?i = "initialized_size (bm_na s)" and ?d = "data_size (bm_na s)"
  define z where "z = (if ?i + (bs - ?i mod bs) > ?d then ?d else ?i + (bs - ?i mod bs))"
  have "\<not> (z > ?i \<and> vol_readonly vol)" using assms by (auto simp: z_def split: if_splits)
  moreover obtain r s' where th: "bm_then (pwrite_zeros lib m 4096 ?i z s) (bm_map_checked lib vol m) = (r, s')"
    by fastforce
  moreover have "r \<noteq> -2"
  proof -
    have "fst (bm_map_checked lib vol m s) \<noteq> -2" for s
      by (auto simp: bm_map_checked_def bm_map_runlist_def split: prod.splits)
    then show ?thesis
      using pwrite_zeros_rc [of lib m 4096 ?i z s] th
      by (cases "pwrite_zeros lib m 4096 ?i z s") (auto split: if_splits, metis fst_conv)
  qed
  ultimately show ?thesis
    by (auto simp: bm_read_end_def Let_def simp flip: z_def simp del: bm_then.simps)
qed


text \<open>a BitLocker volume and a compressed, encrypted or symbolic-link file are never offered for mapping.\<close>

theorem stat_koio_off:
  assumes "nk_stat_path lib to_sec info pread alloc nv e path = Some st"
    and "l_pathname_to_inode lib e path = Some m" and "\<not> i_is_dir (info e m)" and "l_attr_open lib e m = Some na"
    and "nv_bde nv \<or> is_compressed na \<or> is_encrypted na \<or> i_reparse (info e m)"
  shows "\<not> ns_koio_ok st"
  using assms by (auto simp: nk_stat_path_def Let_def fill_stat_def split: if_splits)


end
