(* ===== verification/Mem_Engine.thy ===== *)
theory Mem_Engine
  imports Koio_Complete Stat
begin

text \<open>
  A small engine on which the properties of the block map and the completion calls are exercised:
  a volume of sixteen clusters of 512 bytes with one file, whose eight clusters lie at device
  position 2048. It satisfies every predicate that \<open>Koio_Data\<close> and \<open>Koio_Complete\<close> assume of
  libntfs-3g.
\<close>

record memfs =
  mf_disk :: "s64 \<Rightarrow> byte"
  mf_init :: s64
  mf_size :: s64

definition mem_vol :: nk_vol where
  "mem_vol = \<lparr>nv_vol = \<lparr>cluster_size = 512, nr_clusters = 16, vol_readonly = False\<rparr>, nv_bde = False\<rparr>"

definition mem_rl :: runlist where
  "mem_rl = [\<lparr>rl_vcn = 0, rl_lcn = 4, rl_length = 8\<rparr>, \<lparr>rl_vcn = 8, rl_lcn = -3, rl_length = 0\<rparr>]"

definition poke :: "(s64 \<Rightarrow> byte) \<Rightarrow> s64 \<Rightarrow> byte list \<Rightarrow> s64 \<Rightarrow> byte" where
  "poke d p bs x = (if p \<le> x \<and> x < p + int (length bs) then bs ! nat (x - p) else d x)"

definition mem_attr_pwrite ::
  "memfs \<Rightarrow> u64 \<Rightarrow> ntfs_attr \<Rightarrow> s64 \<Rightarrow> byte list \<Rightarrow> s64 \<times> memfs \<times> ntfs_attr" where
  "mem_attr_pwrite e m na p bs =
     (let k = int (length bs); i = initialized_size na in
      if 0 \<le> p \<and> p + k \<le> 4096 then
        let d = (\<lambda>x. if 2048 + i \<le> x \<and> x < 2048 + p then 0 else mf_disk e x)
        in (k, e\<lparr>mf_disk := poke d (2048 + p) bs, mf_init := max i (p + k)\<rparr>,
            na\<lparr>initialized_size := max i (p + k)\<rparr>)
      else (-1, e, na))"

definition mem_lib :: "memfs ntfs_lib" where
  "mem_lib = \<lparr>
     l_pathname_to_inode = (\<lambda>e p. if p = ''/f'' then Some 64 else None),
     l_attr_open = (\<lambda>e m. Some \<lparr>non_resident = True, is_compressed = False, is_encrypted = False,
        data_size = mf_size e, initialized_size = mf_init e, na_rl = []\<rparr>),
     l_attr_pwrite = mem_attr_pwrite,
     l_attr_truncate = (\<lambda>e m na sz. (True, e, na)),
     l_attr_truncate_solid = (\<lambda>e m na sz. if sz \<le> 4096
        then (False, e\<lparr>mf_size := sz\<rparr>, na\<lparr>data_size := sz\<rparr>) else (True, e, na)),
     l_attr_force_non_resident = (\<lambda>e m na. (True, e, na)),
     l_attr_map_whole_runlist = (\<lambda>e m na. (False, e, na\<lparr>na_rl := mem_rl\<rparr>)),
     l_ntfs_pwrite = (\<lambda>e p bs. (int (length bs), e\<lparr>mf_disk := poke (mf_disk e) p bs\<rparr>)),
     l_attr_lookup = (\<lambda>e m na. True),
     l_stamp_record = (\<lambda>e m v. e\<lparr>mf_init := v\<rparr>),
     l_update_times = (\<lambda>e m. e),
     l_inode_sync = (\<lambda>e m. (False, e)),
     l_inode_close = (\<lambda>e m. (False, e))\<rparr>"

definition mem_fd :: "memfs \<Rightarrow> u64 \<Rightarrow> s64 \<Rightarrow> byte" where
  "mem_fd e m b = zview mf_disk 512 mem_rl e b"

definition mem_pm :: "memfs \<Rightarrow> u64 \<Rightarrow> s64 \<Rightarrow> s64 option" where
  "mem_pm e m = phys_of 512 mem_rl"

lemma phys_mem_rl: "phys_of 512 mem_rl b = (if 0 \<le> b \<and> b < 4096 then Some (2048 + b) else None)"
  by (auto simp: mem_rl_def)

lemma coh_mem: "coh mf_disk mem_fd mem_pm 512 m rl e \<longleftrightarrow> phys_of 512 rl = phys_of 512 mem_rl"
  by (auto simp: coh_def mem_fd_def mem_pm_def zview_def phys_mem_rl split: if_splits)

lemma maps_from_zero_mem: "maps_from_zero mem_lib"
  by (simp add: maps_from_zero_def mem_lib_def mem_rl_def)

lemma maps_in_order_mem: "maps_in_order mem_lib"
  by (simp add: maps_in_order_def mem_lib_def mem_rl_def)

lemma maps_coherent_mem: "maps_coherent mf_disk mem_fd mem_pm 512 mem_lib"
  by (simp add: maps_coherent_def mem_lib_def coh_mem)

lemma raw_coherent_mem: "raw_coherent mf_disk mem_fd mem_pm 512 mem_lib"
  by (auto simp: raw_coherent_def mem_lib_def coh_mem dev_writes_def poke_def)

lemma attr_pwrite_zero_ok_mem: "attr_pwrite_zero_ok mem_fd mem_lib"
  by (auto simp: attr_pwrite_zero_ok_def mem_lib_def mem_attr_pwrite_def Let_def mem_fd_def zview_def
      phys_mem_rl poke_def split: if_splits)

lemma attr_solid_ok_mem: "attr_solid_ok mem_fd mem_lib"
  by (auto simp: attr_solid_ok_def mem_lib_def mem_fd_def zview_def split: option.splits if_splits)

lemma meta_ok_mem: "meta_ok mf_disk mem_fd mem_pm 512 mem_lib"
  by (auto simp: meta_ok_def mem_lib_def coh_mem mem_fd_def zview_def fun_eq_iff split: option.splits)

lemma engine_ok_mem: "engine_ok mf_disk mem_fd mem_pm 512 mem_lib"
  by (simp add: engine_ok_def maps_from_zero_mem maps_coherent_mem raw_coherent_mem
      attr_pwrite_zero_ok_mem attr_solid_ok_mem meta_ok_mem)

lemma allocates_mem: "allocates (\<lambda>e m. {0 ..< 4096}) 512 mem_lib"
  by (auto simp: allocates_def mem_lib_def phys_mem_rl mem_attr_pwrite_def Let_def split: if_splits)

definition mem0 :: memfs where
  "mem0 = \<lparr>mf_disk = (\<lambda>x. 7), mf_init = 1020, mf_size = 2048\<rparr>"


section \<open>Runs of the calls\<close>

lemmas mem_defs = mem_lib_def mem_vol_def mem0_def mem_rl_def mem_attr_pwrite_def
lemmas map_defs = nk_blockmap_def bm_body_def bm_prepare_def bm_make_nonres_def bm_grow_def bm_map_checked_def
  bm_map_runlist_def bm_write_part_def bm_zero_gap_def bm_zero_raw_def bm_fill_holes.simps bm_restore_init_def
  bm_read_end_def bm_hand_out_def bm_emit_def bm_out_def stamp_init_def pwrite_zeros.simps
  bad_runlist_def INT64_MAX_def wr_hwm_def wr_set_def LCN_HOLE_def Let_def

lemma mem_write_run:
  "\<exists>res. nk_blockmap mem_lib mem_vol True [] mem0 ''/f'' 1024 512 True 512 (\<lambda>xs. False) = Some (Inr res) \<and>
     br_rc res = 0"
  by (simp add: map_defs mem_defs)

lemma mem_read_run:
  "\<exists>res. nk_blockmap mem_lib mem_vol True [] mem0 ''/f'' 512 1024 False 512 (\<lambda>xs. False) = Some (Inr res) \<and>
     br_rc res = 0 \<and> br_extents res = [\<lparr>x_logical = 512, x_physical = 2560, x_length = 512\<rparr>,
       \<lparr>x_logical = 1024, x_physical = -1, x_length = 512\<rparr>]"
  by (simp add: map_defs mem_defs)


lemma mem_complete_run:
  "\<exists>res. nk_complete_write mem_lib mem_vol [\<lparr>mref = 64, hwm = 1536\<rparr>] mem0 ''/f'' 1024 512 = Inr res \<and>
     br_rc res = 0"
  by (simp add: nk_complete_write_def cw_done_def bm_out_def stamp_init_def wr_hwm_def INT64_MAX_def Let_def mem_defs)

lemma mem_facts:
  "cluster_size (nv_vol mem_vol) = 512" "\<forall>e m na. l_attr_lookup mem_lib e m na"
  "l_pathname_to_inode mem_lib mem0 ''/f'' = Some 64"
  "l_attr_open mem_lib mem0 64 = Some \<lparr>non_resident = True, is_compressed = False, is_encrypted = False,
     data_size = 2048, initialized_size = 1020, na_rl = []\<rparr>"
  by (simp_all add: mem_defs)

theorem blockmap_write_bytes_witness:
  "\<exists>res. nk_blockmap mem_lib mem_vol True [] mem0 ''/f'' 1024 512 True 512 (\<lambda>xs. False) = Some (Inr res) \<and>
     mem_fd (br_e res) 64 1000 = mem_fd mem0 64 1000 \<and> mem_fd (br_e res) 64 1022 = 0"
proof -
  obtain res where r: "nk_blockmap mem_lib mem_vol True [] mem0 ''/f'' 1024 512 True 512 (\<lambda>xs. False) = Some (Inr res)"
    "br_rc res = 0" using mem_write_run by blast
  from blockmap_write_bytes [OF _ _ mem_facts(3,4) _ r(1), unfolded mem_facts(1), OF engine_ok_mem]
  show ?thesis using r by (auto simp: wr_hwm_def)
qed


theorem blockmap_read_extents_witness:
  "\<exists>res. nk_blockmap mem_lib mem_vol True [] mem0 ''/f'' 512 1024 False 512 (\<lambda>xs. False) = Some (Inr res) \<and>
     (\<exists>me. tiles 512 (br_extents res) me \<and> me = 1536) \<and> br_wr res = []"
proof -
  obtain res where r: "nk_blockmap mem_lib mem_vol True [] mem0 ''/f'' 512 1024 False 512 (\<lambda>xs. False) = Some (Inr res)"
    "br_rc res = 0" using mem_read_run by blast
  from blockmap_read_extents [OF maps_from_zero_mem _ r, unfolded mem_facts(1)]
  show ?thesis using r(1) by auto
qed


theorem blockmap_write_backed_witness:
  "\<exists>res me. nk_blockmap mem_lib mem_vol True [] mem0 ''/f'' 1024 512 True 512 (\<lambda>xs. False) = Some (Inr res) \<and>
     tiles 1024 (br_extents res) me \<and> me = 1536 \<and> list_all (\<lambda>x. 0 \<le> x_physical x) (br_extents res)"
proof -
  obtain res where r: "nk_blockmap mem_lib mem_vol True [] mem0 ''/f'' 1024 512 True 512 (\<lambda>xs. False) = Some (Inr res)"
    "br_rc res = 0" using mem_write_run by blast
  from blockmap_write_backed [OF maps_from_zero_mem _ r, unfolded mem_facts(1)]
  show ?thesis using r(1) by (auto simp: list_all_iff)
qed

theorem blockmap_write_recorded_witness:
  "\<exists>res. nk_blockmap mem_lib mem_vol True [] mem0 ''/f'' 1024 512 True 512 (\<lambda>xs. False) = Some (Inr res) \<and>
     list_all (\<lambda>x. x_logical x + x_length x \<le> max (initialized_size (br_na res)) (wr_hwm (br_wr res) 64))
       (br_extents res) \<and>
     wr_map (br_wr res) 65 = None"
proof -
  obtain res where r: "nk_blockmap mem_lib mem_vol True [] mem0 ''/f'' 1024 512 True 512 (\<lambda>xs. False) = Some (Inr res)"
    "br_rc res = 0" using mem_write_run by blast
  from blockmap_write_recorded [OF maps_from_zero_mem _ _ mem_facts(3) r, unfolded mem_facts(1)]
  show ?thesis using r(1) by (auto simp: wr_inv_def wr_map_def list_all_iff)
qed





theorem abort_write_mark_witness:
  "wr_map (fst (snd (nk_abort_write mem_lib mem_vol [\<lparr>mref = 64, hwm = 2048\<rparr>] mem0 ''/f'' 1536 512))) 64 = Some 1536"
  using abort_write_mark [OF _ _ _ _ mem_facts(3,4), of "[\<lparr>mref = 64, hwm = 2048\<rparr>]" 1536 512 mem_vol]
  by (cases "nk_abort_write mem_lib mem_vol [\<lparr>mref = 64, hwm = 2048\<rparr>] mem0 ''/f'' 1536 512")
    (simp add: wr_inv_def wr_map_def INT64_MAX_def)

theorem truncate_mark_witness:
  "wr_map (fst (snd (nk_truncate mem_lib [\<lparr>mref = 64, hwm = 2048\<rparr>] mem0 ''/f'' 512))) 64 = Some 512"
  using truncate_mark [OF _ mem_facts(3), of "[\<lparr>mref = 64, hwm = 2048\<rparr>]" 512]
  by (cases "nk_truncate mem_lib [\<lparr>mref = 64, hwm = 2048\<rparr>] mem0 ''/f'' 512")
    (simp add: wr_inv_def wr_map_def)

theorem blockmap_returns_witness:
  "\<exists>out. nk_blockmap mem_lib mem_vol True [] mem0 ''/f'' 1024 512 True 512 (\<lambda>xs. False) = Some out"
  by (rule blockmap_returns [of "\<lambda>e m. {0 ..< 4096}"])
    (simp_all add: mem_facts(1) allocates_mem maps_from_zero_mem)


definition mem_info :: inode_info where
  "mem_info = \<lparr>i_mft_no = 64, i_is_dir = False, i_reparse = False, i_system = False,
     i_atime = 0, i_mtime = 0, i_ctime = 0, i_btime = 0\<rparr>"


theorem stat_koio_off_witness:
  "\<exists>st. nk_stat_path mem_lib int (\<lambda>e m. mem_info\<lparr>i_reparse := True\<rparr>) (\<lambda>e m p n. (0, [])) (\<lambda>e m. 4096) mem_vol mem0
     ''/f'' = Some st \<and> \<not> ns_koio_ok st"
proof -
  obtain st where st: "nk_stat_path mem_lib int (\<lambda>e m. mem_info\<lparr>i_reparse := True\<rparr>) (\<lambda>e m p n. (0, [])) (\<lambda>e m. 4096)
      mem_vol mem0 ''/f'' = Some st"
    by (simp add: nk_stat_path_def mem_defs Let_def)
  from stat_koio_off [OF st mem_facts(3) _ mem_facts(4)] st show ?thesis by (auto simp: mem_info_def)
qed

end
