(* ===== verification/Device.thy ===== *)
theory Device
  imports Prelude
begin

text \<open>
  The device layer: the callback-backed \<^verbatim>\<open>ntfs_device\<close> of \<^verbatim>\<open>ntfs_bridge.c\<close> (\<open>nkdev_*\<close>), the libbfio
  handle over the same callbacks and the decrypted BitLocker device of \<^verbatim>\<open>nk_bde.c\<close> (\<open>bfio_*\<close>,
  \<open>bdedev_*\<close>), with the signature tests on the boot sector and the construction and release of the
  decryption chain.

  The host's callbacks are the record \<open>nk_io\<close>, on a host state \<^typ>\<open>'w\<close>; libbde's read of decrypted
  bytes is a parameter. A read returns the count and the bytes stored into the caller's buffer.
  The flags of \<^verbatim>\<open>ntfs_device\<close> and the private position are one record per device.
\<close>

section \<open>The host's callbacks\<close>

record 'w nk_io =
  io_pread :: "'w \<Rightarrow> s64 \<Rightarrow> s64 \<Rightarrow> s64 \<times> byte list"
  io_pwrite :: "'w \<Rightarrow> byte list \<Rightarrow> s64 \<Rightarrow> s64 \<times> 'w"
  io_size :: s64
  io_readonly :: bool

datatype whence = SEEK_SET | SEEK_CUR | SEEK_END

record devstate =
  d_open :: bool
  d_readonly :: bool
  d_dirty :: bool
  d_pos :: s64
  d_errno :: "errno option"

definition fail_with :: "errno \<Rightarrow> devstate \<Rightarrow> devstate" where
  "fail_with x d = d\<lparr>d_errno := Some x\<rparr>"

definition seek_base :: "whence \<Rightarrow> s64 \<Rightarrow> s64 \<Rightarrow> s64" where
  "seek_base wh pos sz = (case wh of SEEK_SET \<Rightarrow> 0 | SEEK_CUR \<Rightarrow> pos | SEEK_END \<Rightarrow> sz)"

section \<open>The callback-backed device\<close>

text \<open>\<open>rdonly\<close> is \<^verbatim>\<open>(flags & O_ACCMODE) == O_RDONLY\<close>.\<close>

definition nkdev_open :: "bool \<Rightarrow> devstate \<Rightarrow> s64 \<times> devstate" where
  "nkdev_open rdonly d = (0, d\<lparr>d_readonly := d_readonly d \<or> rdonly, d_open := True\<rparr>)"

definition nkdev_close :: "devstate \<Rightarrow> s64 \<times> devstate" where
  "nkdev_close d = (0, d\<lparr>d_open := False\<rparr>)"

definition nkdev_seek :: "'w nk_io \<Rightarrow> devstate \<Rightarrow> s64 \<Rightarrow> whence \<Rightarrow> s64 \<times> devstate" where
  "nkdev_seek io d offset wh =
     (let base = seek_base wh (d_pos d) (io_size io) in
      if base + offset < 0 then (-1, fail_with EINVAL d)
      else (base + offset, d\<lparr>d_pos := base + offset\<rparr>))"

definition nkdev_pread ::
  "'w nk_io \<Rightarrow> 'w \<Rightarrow> devstate \<Rightarrow> s64 \<Rightarrow> s64 \<Rightarrow> s64 \<times> byte list \<times> devstate" where
  "nkdev_pread io w d count offset =
     (case io_pread io w count offset of
        (n, bs) \<Rightarrow> if n < 0 then (-1, bs, fail_with EIO d) else (n, bs, d))"

definition nkdev_pwrite ::
  "'w nk_io \<Rightarrow> 'w \<Rightarrow> devstate \<Rightarrow> byte list \<Rightarrow> s64 \<Rightarrow> s64 \<times> 'w \<times> devstate" where
  "nkdev_pwrite io w d buf offset =
     (if d_readonly d then (-1, w, fail_with EROFS d)
      else
        (case io_pwrite io w buf offset of
           (n, w') \<Rightarrow> if n < 0 then (-1, w', fail_with EIO d) else (n, w', d\<lparr>d_dirty := True\<rparr>)))"

definition nkdev_read ::
  "'w nk_io \<Rightarrow> 'w \<Rightarrow> devstate \<Rightarrow> s64 \<Rightarrow> s64 \<times> byte list \<times> devstate" where
  "nkdev_read io w d count =
     (case nkdev_pread io w d count (d_pos d) of
        (n, bs, d') \<Rightarrow> (n, bs, if n > 0 then d'\<lparr>d_pos := d_pos d' + n\<rparr> else d'))"

definition nkdev_write ::
  "'w nk_io \<Rightarrow> 'w \<Rightarrow> devstate \<Rightarrow> byte list \<Rightarrow> s64 \<times> 'w \<times> devstate" where
  "nkdev_write io w d buf =
     (case nkdev_pwrite io w d buf (d_pos d) of
        (n, w', d') \<Rightarrow> (n, w', if n > 0 then d'\<lparr>d_pos := d_pos d' + n\<rparr> else d'))"

definition nkdev_sync :: "devstate \<Rightarrow> s64 \<times> devstate" where
  "nkdev_sync d = (0, d\<lparr>d_dirty := False\<rparr>)"

text \<open>The fields of \<^verbatim>\<open>struct stat\<close> that are set; the rest is zero.\<close>

record stat_buf =
  st_mode :: nat
  st_size :: s64

definition S_IFREG :: nat where
  "S_IFREG = 32768"

definition nkdev_stat :: "'w nk_io \<Rightarrow> s64 \<times> stat_buf" where
  "nkdev_stat io = (0, \<lparr>st_mode = S_IFREG + 384, st_size = io_size io\<rparr>)"

definition nkdev_ioctl :: "devstate \<Rightarrow> s64 \<times> devstate" where
  "nkdev_ioctl d = (-1, fail_with ENOTSUP d)"

section \<open>Boot sector signatures\<close>

definition fve_magic :: "byte list" where
  "fve_magic = [0x2d, 0x46, 0x56, 0x45, 0x2d, 0x46, 0x53, 0x2d]"

definition nk_is_bitlocker :: "byte list \<Rightarrow> bool" where
  "nk_is_bitlocker boot = (get_bytes boot 3 8 = fve_magic)"

definition nk_is_refs :: "byte list \<Rightarrow> bool" where
  "nk_is_refs boot =
     (get_bytes boot 3 4 = [0x52, 0x65, 0x46, 0x53] \<and> get_bytes boot 80 4 = [0x46, 0x53, 0x52, 0x53])"

section \<open>The libbfio handle\<close>

record bfio_ctx =
  bf_pos :: s64
  bf_open :: bool

definition bfio_open :: "bfio_ctx \<Rightarrow> s64 \<times> bfio_ctx" where
  "bfio_open h = (1, h\<lparr>bf_open := True\<rparr>)"

definition bfio_close :: "bfio_ctx \<Rightarrow> s64 \<times> bfio_ctx" where
  "bfio_close h = (0, h\<lparr>bf_open := False\<rparr>)"

definition bfio_clone :: "bool \<Rightarrow> bfio_ctx \<Rightarrow> s64 \<times> bfio_ctx option" where
  "bfio_clone mem src = (if mem then (1, Some src) else (-1, None))"

definition bfio_read :: "'w nk_io \<Rightarrow> 'w \<Rightarrow> bfio_ctx \<Rightarrow> s64 \<Rightarrow> s64 \<times> byte list \<times> bfio_ctx" where
  "bfio_read io w h sz =
     (case io_pread io w sz (bf_pos h) of
        (n, bs) \<Rightarrow> if n < 0 then (-1, bs, h) else (n, bs, h\<lparr>bf_pos := bf_pos h + n\<rparr>))"

definition bfio_write :: "'w \<Rightarrow> bfio_ctx \<Rightarrow> byte list \<Rightarrow> s64 \<times> 'w \<times> bfio_ctx \<times> errno" where
  "bfio_write w h buf = (-1, w, h, EROFS)"

definition bfio_seek :: "'w nk_io \<Rightarrow> bfio_ctx \<Rightarrow> s64 \<Rightarrow> whence \<Rightarrow> s64 \<times> bfio_ctx" where
  "bfio_seek io h off wh =
     (let base = seek_base wh (bf_pos h) (io_size io) in
      if base + off < 0 then (-1, h) else (base + off, h\<lparr>bf_pos := base + off\<rparr>))"

definition bfio_exists :: s64 where
  "bfio_exists = 1"

definition bfio_is_open :: "bfio_ctx \<Rightarrow> bool" where
  "bfio_is_open h = bf_open h"

definition bfio_get_size :: "'w nk_io \<Rightarrow> s64 \<times> s64" where
  "bfio_get_size io = (1, io_size io)"

section \<open>The decrypted device\<close>

text \<open>\<open>rd\<close> is \<^verbatim>\<open>libbde_volume_read_buffer_at_offset\<close> on the unlocked volume, \<open>sz\<close> its size.\<close>

definition bdedev_open :: "devstate \<Rightarrow> s64 \<times> devstate" where
  "bdedev_open d = (0, d\<lparr>d_open := True, d_readonly := True\<rparr>)"

definition bdedev_close :: "devstate \<Rightarrow> s64 \<times> devstate" where
  "bdedev_close d = (0, d\<lparr>d_open := False\<rparr>)"

definition bdedev_seek :: "s64 \<Rightarrow> devstate \<Rightarrow> s64 \<Rightarrow> whence \<Rightarrow> s64 \<times> devstate" where
  "bdedev_seek sz d offset wh =
     (let base = seek_base wh (d_pos d) sz in
      if base + offset < 0 then (-1, fail_with EINVAL d)
      else (base + offset, d\<lparr>d_pos := base + offset\<rparr>))"

definition bdedev_pread ::
  "(s64 \<Rightarrow> s64 \<Rightarrow> s64 \<times> byte list) \<Rightarrow> devstate \<Rightarrow> s64 \<Rightarrow> s64 \<Rightarrow> s64 \<times> byte list \<times> devstate" where
  "bdedev_pread rd d count offset =
     (case rd count offset of (n, bs) \<Rightarrow> if n < 0 then (-1, bs, fail_with EIO d) else (n, bs, d))"

definition bdedev_read ::
  "(s64 \<Rightarrow> s64 \<Rightarrow> s64 \<times> byte list) \<Rightarrow> devstate \<Rightarrow> s64 \<Rightarrow> s64 \<times> byte list \<times> devstate" where
  "bdedev_read rd d count =
     (case bdedev_pread rd d count (d_pos d) of
        (n, bs, d') \<Rightarrow> (n, bs, if n > 0 then d'\<lparr>d_pos := d_pos d' + n\<rparr> else d'))"

definition bdedev_pwrite :: "devstate \<Rightarrow> byte list \<Rightarrow> s64 \<Rightarrow> s64 \<times> devstate" where
  "bdedev_pwrite d b off = (-1, fail_with EROFS d)"

definition bdedev_write :: "devstate \<Rightarrow> byte list \<Rightarrow> s64 \<times> devstate" where
  "bdedev_write d b = (-1, fail_with EROFS d)"

definition bdedev_sync :: "devstate \<Rightarrow> s64 \<times> devstate" where
  "bdedev_sync d = (0, d)"

definition bdedev_stat :: "s64 \<Rightarrow> s64 \<times> stat_buf" where
  "bdedev_stat sz = (0, \<lparr>st_mode = S_IFREG + 256, st_size = sz\<rparr>)"

definition bdedev_ioctl :: "devstate \<Rightarrow> s64 \<times> devstate" where
  "bdedev_ioctl d = (-1, fail_with ENOTSUP d)"


section \<open>The operation tables\<close>

text \<open>
  A call through \<^verbatim>\<open>nk_dev_ops\<close> or \<^verbatim>\<open>bde_dev_ops\<close>: the return value, the bytes read, the host state
  and the device after it.
\<close>

datatype dev_op =
    Op_open bool | Op_close | Op_seek s64 whence | Op_read s64 | Op_write "byte list"
  | Op_pread s64 s64 | Op_pwrite "byte list" s64 | Op_sync | Op_stat | Op_ioctl

fun nk_dev_ops :: "'w nk_io \<Rightarrow> dev_op \<Rightarrow> 'w \<times> devstate \<Rightarrow> s64 \<times> byte list \<times> 'w \<times> devstate" where
  "nk_dev_ops io (Op_open ro) (w, d) = (case nkdev_open ro d of (r, d') \<Rightarrow> (r, [], w, d'))"
| "nk_dev_ops io Op_close (w, d) = (case nkdev_close d of (r, d') \<Rightarrow> (r, [], w, d'))"
| "nk_dev_ops io (Op_seek off wh) (w, d) = (case nkdev_seek io d off wh of (r, d') \<Rightarrow> (r, [], w, d'))"
| "nk_dev_ops io (Op_read n) (w, d) = (case nkdev_read io w d n of (r, bs, d') \<Rightarrow> (r, bs, w, d'))"
| "nk_dev_ops io (Op_write b) (w, d) = (case nkdev_write io w d b of (r, w', d') \<Rightarrow> (r, [], w', d'))"
| "nk_dev_ops io (Op_pread n off) (w, d) = (case nkdev_pread io w d n off of (r, bs, d') \<Rightarrow> (r, bs, w, d'))"
| "nk_dev_ops io (Op_pwrite b off) (w, d) = (case nkdev_pwrite io w d b off of (r, w', d') \<Rightarrow> (r, [], w', d'))"
| "nk_dev_ops io Op_sync (w, d) = (case nkdev_sync d of (r, d') \<Rightarrow> (r, [], w, d'))"
| "nk_dev_ops io Op_stat (w, d) = (fst (nkdev_stat io), [], w, d)"
| "nk_dev_ops io Op_ioctl (w, d) = (case nkdev_ioctl d of (r, d') \<Rightarrow> (r, [], w, d'))"

text \<open>libbde reads through the host state \<^typ>\<open>'w\<close>: \<open>rd w\<close> are the decrypted bytes.\<close>

fun bde_dev_ops ::
  "('w \<Rightarrow> s64 \<Rightarrow> s64 \<Rightarrow> s64 \<times> byte list) \<Rightarrow> s64 \<Rightarrow> dev_op \<Rightarrow> 'w \<times> devstate \<Rightarrow>
   s64 \<times> byte list \<times> 'w \<times> devstate" where
  "bde_dev_ops rd sz (Op_open ro) (w, d) = (case bdedev_open d of (r, d') \<Rightarrow> (r, [], w, d'))"
| "bde_dev_ops rd sz Op_close (w, d) = (case bdedev_close d of (r, d') \<Rightarrow> (r, [], w, d'))"
| "bde_dev_ops rd sz (Op_seek off wh) (w, d) = (case bdedev_seek sz d off wh of (r, d') \<Rightarrow> (r, [], w, d'))"
| "bde_dev_ops rd sz (Op_read n) (w, d) = (case bdedev_read (rd w) d n of (r, bs, d') \<Rightarrow> (r, bs, w, d'))"
| "bde_dev_ops rd sz (Op_write b) (w, d) = (case bdedev_write d b of (r, d') \<Rightarrow> (r, [], w, d'))"
| "bde_dev_ops rd sz (Op_pread n off) (w, d) = (case bdedev_pread (rd w) d n off of (r, bs, d') \<Rightarrow> (r, bs, w, d'))"
| "bde_dev_ops rd sz (Op_pwrite b off) (w, d) = (case bdedev_pwrite d b off of (r, d') \<Rightarrow> (r, [], w, d'))"
| "bde_dev_ops rd sz Op_sync (w, d) = (case bdedev_sync d of (r, d') \<Rightarrow> (r, [], w, d'))"
| "bde_dev_ops rd sz Op_stat (w, d) = (fst (bdedev_stat sz), [], w, d)"
| "bde_dev_ops rd sz Op_ioctl (w, d) = (case bdedev_ioctl d of (r, d') \<Rightarrow> (r, [], w, d'))"

text \<open>A sequence of calls through a table.\<close>

fun dev_run ::
  "(dev_op \<Rightarrow> 'w \<times> devstate \<Rightarrow> s64 \<times> byte list \<times> 'w \<times> devstate) \<Rightarrow> dev_op list \<Rightarrow> 'w \<times> devstate \<Rightarrow>
   (s64 \<times> byte list) list \<times> 'w \<times> devstate" where
  "dev_run f [] s = ([], s)"
| "dev_run f (x # xs) s =
     (case f x s of (r, bs, s') \<Rightarrow> (case dev_run f xs s' of (rs, s'') \<Rightarrow> ((r, bs) # rs, s'')))"

section \<open>The interface of a device with a position\<close>

locale seq_device =
  fixes seek :: "'s \<Rightarrow> s64 \<Rightarrow> whence \<Rightarrow> s64 \<times> 's"
    and rd :: "'s \<Rightarrow> s64 \<Rightarrow> s64 \<times> byte list \<times> 's"
    and prd :: "s64 \<Rightarrow> s64 \<Rightarrow> s64 \<times> byte list"
    and pos :: "'s \<Rightarrow> s64"
    and sz :: s64
  assumes seek_law: "seek s off wh = (r, s') \<Longrightarrow>
      (if seek_base wh (pos s) sz + off < 0 then r = -1 \<and> pos s' = pos s
       else r = seek_base wh (pos s) sz + off \<and> pos s' = r)"
    and rd_law: "rd s n = (r, bs, s') \<Longrightarrow>
      bs = snd (prd n (pos s)) \<and> r = max (-1) (fst (prd n (pos s))) \<and> pos s' = pos s + max 0 r"
begin

lemma pos_nonneg_seek: "0 \<le> pos s \<Longrightarrow> seek s off wh = (r, s') \<Longrightarrow> 0 \<le> pos s'"
  using seek_law [of s off wh r s'] by (auto split: if_splits)

lemma pos_nonneg_rd: "0 \<le> pos s \<Longrightarrow> rd s n = (r, bs, s') \<Longrightarrow> 0 \<le> pos s'"
  using rd_law [of s n r bs s'] by auto

lemma seek_then_read:
  assumes "0 \<le> off" and "seek s off SEEK_SET = (r1, s1)" and "rd s1 n = (r2, bs, s2)"
  shows "r1 = off \<and> bs = snd (prd n off) \<and> r2 = max (-1) (fst (prd n off)) \<and> pos s2 = off + max 0 r2"
  using seek_law [OF assms(2)] rd_law [OF assms(3)] assms(1) by (auto simp: seek_base_def)

text \<open>Reading in two steps reads the two consecutive ranges.\<close>

lemma read_read:
  assumes "rd s a = (r1, b1, s1)" and "rd s1 c = (r2, b2, s2)" and "0 \<le> r1"
  shows "b1 = snd (prd a (pos s)) \<and> b2 = snd (prd c (pos s + r1))"
  using rd_law [OF assms(1)] rd_law [OF assms(2)] assms(3) by auto

end

interpretation nk: seq_device "nkdev_seek io" "nkdev_read io w" "io_pread io w" d_pos "io_size io"
  for io :: "'w nk_io" and w
  by unfold_locales
    (auto simp: nkdev_seek_def nkdev_read_def nkdev_pread_def fail_with_def Let_def split: prod.splits if_splits)

interpretation bde: seq_device "bdedev_seek sz" "bdedev_read rd" rd d_pos sz for rd sz
  by unfold_locales
    (auto simp: bdedev_seek_def bdedev_read_def bdedev_pread_def fail_with_def Let_def split: prod.splits if_splits)

interpretation bfio: seq_device "bfio_seek io" "bfio_read io w" "io_pread io w" bf_pos "io_size io"
  for io :: "'w nk_io" and w
  by unfold_locales
    (auto simp: bfio_seek_def bfio_read_def Let_def split: prod.splits if_splits)

section \<open>Read-only devices\<close>

lemma nk_dev_ops_readonly:
  "d_readonly d \<Longrightarrow> nk_dev_ops io x (w, d) = (r, bs, w', d') \<Longrightarrow>
     w' = w \<and> d_readonly d' \<and> d_dirty d' = (d_dirty d \<and> x \<noteq> Op_sync)"
  by (cases x)
    (auto simp: nkdev_open_def nkdev_close_def nkdev_seek_def nkdev_read_def nkdev_pread_def nkdev_write_def
      nkdev_pwrite_def nkdev_sync_def nkdev_ioctl_def fail_with_def Let_def split: prod.splits if_splits)

lemma bde_dev_ops_readonly:
  "bde_dev_ops rd sz x (w, d) = (r, bs, w', d') \<Longrightarrow> w' = w \<and> d_dirty d' = d_dirty d"
  by (cases x)
    (auto simp: bdedev_open_def bdedev_close_def bdedev_seek_def bdedev_read_def bdedev_pread_def bdedev_write_def
      bdedev_pwrite_def bdedev_sync_def bdedev_ioctl_def fail_with_def Let_def split: prod.splits if_splits)

text \<open>
  C36: a device opened read-only never writes. Whatever calls follow through the operation table,
  in whatever order, the host's write callback changes nothing and the device never becomes dirty.
\<close>

theorem readonly_never_writes:
  assumes "dev_run (nk_dev_ops io) (Op_open True # xs) (w, d) = (rs, w', d')" and "\<not> d_dirty d"
  shows "w' = w \<and> d_readonly d' \<and> \<not> d_dirty d'"
proof -
  have *: "dev_run (nk_dev_ops io) xs (w, d) = (rs, w', d') \<Longrightarrow> d_readonly d \<Longrightarrow> \<not> d_dirty d \<Longrightarrow>
      w' = w \<and> d_readonly d' \<and> \<not> d_dirty d'" for xs w d rs
  proof (induction xs arbitrary: w d rs)
    case (Cons x xs)
    obtain r bs w1 d1 where st: "nk_dev_ops io x (w, d) = (r, bs, w1, d1)" by (metis prod_cases4)
    note ro = nk_dev_ops_readonly [OF Cons.prems(2) st]
    obtain rs1 where "dev_run (nk_dev_ops io) xs (w1, d1) = (rs1, w', d')"
      using Cons.prems(1) st by (auto split: prod.splits)
    with Cons.IH ro Cons.prems(3) show ?case by auto
  qed auto
  obtain rs1 where "dev_run (nk_dev_ops io) xs (w, d\<lparr>d_readonly := True, d_open := True\<rparr>) = (rs1, w', d')"
    using assms(1) by (auto simp: nkdev_open_def split: prod.splits)
  from * [OF this] assms(2) show ?thesis by simp
qed

text \<open>A one-byte host: every read returns its byte, every write replaces it.\<close>

definition ex_io :: "byte nk_io" where
  "ex_io = \<lparr>io_pread = (\<lambda>w n off. (n, replicate (nat n) w)), io_pwrite = (\<lambda>w b off. (int (length b), hd b)),
     io_size = 16, io_readonly = True\<rparr>"

definition ex_dev :: devstate where
  "ex_dev = \<lparr>d_open = False, d_readonly = False, d_dirty = False, d_pos = 0, d_errno = None\<rparr>"

theorem readonly_never_writes_witness:
  "\<exists>rs w' d'. dev_run (nk_dev_ops ex_io) [Op_open True, Op_seek 4 SEEK_SET, Op_write [9], Op_read 2] (7, ex_dev) =
     (rs, w', d') \<and> w' = 7 \<and> \<not> d_dirty d'"
proof -
  obtain rs w' d' where r: "dev_run (nk_dev_ops ex_io) [Op_open True, Op_seek 4 SEEK_SET, Op_write [9], Op_read 2]
      (7, ex_dev) = (rs, w', d')" by (metis prod_cases3)
  from readonly_never_writes [OF r] have "w' = 7 \<and> \<not> d_dirty d'" by (simp add: ex_dev_def)
  with r show ?thesis by blast
qed

text \<open>
  a decrypted BitLocker device never writes, however it is opened and whatever is called on it.
\<close>

theorem bitlocker_never_writes:
  "dev_run (bde_dev_ops rd sz) xs (w, d) = (rs, w', d') \<Longrightarrow> w' = w \<and> d_dirty d' = d_dirty d"
proof (induction xs arbitrary: w d rs)
  case (Cons x xs)
  obtain r bs w1 d1 where st: "bde_dev_ops rd sz x (w, d) = (r, bs, w1, d1)" by (metis prod_cases4)
  obtain rs1 where "dev_run (bde_dev_ops rd sz) xs (w1, d1) = (rs1, w', d')"
    using Cons.prems st by (auto split: prod.splits)
  with Cons.IH bde_dev_ops_readonly [OF st] show ?case by auto
qed auto

theorem bitlocker_never_writes_witness:
  "\<exists>rs w' d'. dev_run (bde_dev_ops (\<lambda>w n off. (n, [w])) 16) [Op_open False, Op_pwrite [1] 0] ((7 :: byte), ex_dev) =
     (rs, w', d') \<and> w' = 7"
proof -
  obtain rs w' d' where r: "dev_run (bde_dev_ops (\<lambda>w n off. (n, [w])) 16) [Op_open False, Op_pwrite [1] 0]
      ((7 :: byte), ex_dev) = (rs, w', d')" by (metis prod_cases3)
  from bitlocker_never_writes [OF r] r show ?thesis by auto
qed

text \<open>
  reading after a seek. On the callback device, a seek to a non-negative position followed by
  a read returns exactly what the host returns at that position, reports a host error as \<open>-1\<close>, and
  leaves the position after the bytes read.
\<close>

theorem nkdev_seek_read:
  assumes "0 \<le> off" and "nkdev_seek io d off SEEK_SET = (r1, d1)" and "nkdev_read io w d1 n = (r2, bs, d2)"
  shows "r1 = off \<and> bs = snd (io_pread io w n off) \<and> r2 = max (-1) (fst (io_pread io w n off)) \<and>
    d_pos d2 = off + max 0 r2"
  by (rule nk.seek_then_read [OF assms])

theorem nkdev_seek_read_witness:
  "\<exists>r1 d1 r2 bs d2. nkdev_seek ex_io ex_dev 4 SEEK_SET = (r1, d1) \<and> nkdev_read ex_io 7 d1 2 = (r2, bs, d2) \<and>
     r1 = 4 \<and> bs = [7, 7] \<and> d_pos d2 = 6"
proof -
  obtain r1 d1 where s: "nkdev_seek ex_io ex_dev 4 SEEK_SET = (r1, d1)" by fastforce
  obtain r2 bs d2 where r: "nkdev_read ex_io 7 d1 2 = (r2, bs, d2)" by (metis prod_cases3)
  from nkdev_seek_read [OF _ s r] s r show ?thesis by (simp add: ex_io_def numeral_2_eq_2)
qed

text \<open>a boot sector is never taken for both a BitLocker and a ReFS volume.\<close>

theorem signatures_exclusive: "\<not> (nk_is_bitlocker boot \<and> nk_is_refs boot)"
proof
  assume a: "nk_is_bitlocker boot \<and> nk_is_refs boot"
  have "take 4 (get_bytes boot 3 8) = get_bytes boot 3 4" by (simp add: get_bytes_def)
  with a show False by (simp add: nk_is_bitlocker_def nk_is_refs_def fve_magic_def)
qed

end
