(* ===== verification/Mount.thy ===== *)
theory Mount
  imports Device Wr_Table "HOL-Library.Monad_Syntax"
begin

text \<open>
  Mounting, unmounting, checking and formatting (\<^verbatim>\<open>ntfs_bridge.c\<close>) and the construction and release
  of the BitLocker chain (\<^verbatim>\<open>nk_bde.c\<close>), as far as they own resources. The C heap is the set of live
  resources; releasing one that is not live (a double free) makes the whole call \<open>None\<close>. Each call
  that can fail is a parameter: a boolean for an allocation or library call, \<open>errno + 'v\<close> for
  \<^verbatim>\<open>ntfs_device_mount\<close>. \<^verbatim>\<open>ntfs_umount\<close> releases the volume and its device, as its documentation says.
\<close>

section \<open>Resources\<close>

datatype res =
    R_devctx | R_device | R_vol | R_nkvol | R_bde | R_bctx | R_bfio | R_bdevol | R_bdedev

type_synonym heap = "res set"

definition acquire :: "res \<Rightarrow> heap \<Rightarrow> heap" where
  "acquire r h = insert r h"

definition release :: "res \<Rightarrow> heap \<Rightarrow> heap option" where
  "release r h = (if r \<in> h then Some (h - {r}) else None)"

text \<open>The checked release of the C code: \<^verbatim>\<open>if (p) free(p)\<close>, and \<^verbatim>\<open>free(NULL)\<close>.\<close>

definition release_if :: "bool \<Rightarrow> res \<Rightarrow> heap \<Rightarrow> heap option" where
  "release_if b r h = (if b then release r h else Some h)"

definition ntfs_umount :: "heap \<Rightarrow> heap option" where
  "ntfs_umount h = do { h \<leftarrow> release R_device h; release R_vol h }"

datatype mount_flags = NTFS_MNT_RDONLY | NTFS_MNT_RECOVER

record 'v nk_volume =
  v_vol :: 'v
  v_devctx :: bool
  v_bde :: bool
  v_wr :: wr_array

text \<open>\<^verbatim>\<open>snprintf\<close> into the caller's error buffer of \<open>errlen\<close> bytes; nothing happens without a buffer.\<close>

definition say :: "nat \<Rightarrow> string \<Rightarrow> string \<Rightarrow> string" where
  "say errlen text buf = (if errlen > 0 then take (errlen - 1) text else buf)"

section \<open>The BitLocker chain\<close>

text \<open>
  The outcome of each call of \<open>nk_bde_open\<close>: the two allocations, the libbfio handle, the libbde
  volume, its open, the unlock (successful and no longer locked), the device context and the
  \<^verbatim>\<open>ntfs_device\<close>.
\<close>

record bde_calls =
  c_b :: bool
  c_bctx :: bool
  c_bfio :: bool
  c_vol :: bool
  c_open :: bool
  c_unlock :: bool
  c_d :: bool
  c_dev :: bool

definition bde_fail :: "bool \<Rightarrow> heap \<Rightarrow> heap option" where
  "bde_fail has_vol h = do {
     h \<leftarrow> release_if has_vol R_bdevol h;
     h \<leftarrow> release R_bfio h;
     h \<leftarrow> release R_bctx h;
     release R_bde h }"

definition nk_bde_open :: "bde_calls \<Rightarrow> nat \<Rightarrow> string \<Rightarrow> heap \<Rightarrow> (bool \<times> string \<times> heap) option" where
  "nk_bde_open c errlen buf h =
     (let h1 = (if c_b c then acquire R_bde h else h);
          h2 = (if c_bctx c then acquire R_bctx h1 else h1)
      in
      if \<not> c_b c \<or> \<not> c_bctx c then do {
        h \<leftarrow> release_if (c_b c) R_bde h2;
        h \<leftarrow> release_if (c_bctx c) R_bctx h;
        Some (False, buf, h) }
      else if \<not> c_bfio c then do {
        h \<leftarrow> release R_bctx h2;
        h \<leftarrow> release R_bde h;
        Some (False, buf, h) }
      else
        let h3 = acquire R_bfio h2 in
        if \<not> c_vol c then do { h \<leftarrow> bde_fail False h3; Some (False, buf, h) }
        else
          let h4 = acquire R_bdevol h3 in
          if \<not> c_open c then do { h \<leftarrow> bde_fail True h4; Some (False, say errlen ''not a BitLocker volume'' buf, h) }
          else if \<not> c_unlock c then do { h \<leftarrow> bde_fail True h4; Some (False, say errlen ''wrong BitLocker key'' buf, h) }
          else if \<not> c_d c then do { h \<leftarrow> bde_fail True h4; Some (False, buf, h) }
          else
            let h5 = acquire R_bdedev h4 in
            if \<not> c_dev c then do {
              h \<leftarrow> release R_bdedev h5;
              h \<leftarrow> bde_fail True h;
              Some (False, buf, h) }
            else Some (True, buf, acquire R_device h5))"

definition nk_bde_free :: "heap \<Rightarrow> heap option" where
  "nk_bde_free h = do {
     h \<leftarrow> release R_bdevol h;
     h \<leftarrow> release R_bfio h;
     h \<leftarrow> release R_bctx h;
     h \<leftarrow> release R_bdedev h;
     release R_bde h }"

section \<open>Mount and unmount\<close>

text \<open>\<open>mount\<close> is \<^verbatim>\<open>ntfs_device_mount\<close> (\<^verbatim>\<open>ntfs_mount\<close> for a path) with the flags the code passes.\<close>

definition nk_mount_io ::
  "bool \<Rightarrow> bool \<Rightarrow> (mount_flags \<Rightarrow> errno + 'v) \<Rightarrow> bool \<Rightarrow> (errno \<Rightarrow> string) \<Rightarrow> bool \<Rightarrow> nat \<Rightarrow> string \<Rightarrow> heap \<Rightarrow>
   ('v nk_volume option \<times> string \<times> heap) option" where
  "nk_mount_io mem_c dev_ok mount mem_v strerror readonly errlen buf h =
     (if \<not> mem_c then Some (None, buf, h)
      else
        let h1 = acquire R_devctx h in
        if \<not> dev_ok then do { h \<leftarrow> release R_devctx h1; Some (None, buf, h) }
        else
          let h2 = acquire R_device h1 in
          (case mount (if readonly then NTFS_MNT_RDONLY else NTFS_MNT_RECOVER) of
             Inl x \<Rightarrow> do {
               h \<leftarrow> release R_device h2;
               h \<leftarrow> release R_devctx h;
               Some (None, say errlen (''ntfs_device_mount: '' @ strerror x) buf, h) }
           | Inr vol \<Rightarrow>
               let h3 = acquire R_vol h2 in
               if \<not> mem_v then do {
                 h \<leftarrow> ntfs_umount h3;
                 h \<leftarrow> release R_devctx h;
                 Some (None, buf, h) }
               else Some (Some \<lparr>v_vol = vol, v_devctx = True, v_bde = False, v_wr = []\<rparr>, buf,
                          acquire R_nkvol h3)))"

definition nk_mount ::
  "(mount_flags \<Rightarrow> errno + 'v) \<Rightarrow> bool \<Rightarrow> (errno \<Rightarrow> string) \<Rightarrow> string \<Rightarrow> bool \<Rightarrow> nat \<Rightarrow> string \<Rightarrow> heap \<Rightarrow>
   ('v nk_volume option \<times> string \<times> heap) option" where
  "nk_mount mount mem_v strerror path readonly errlen buf h =
     (case mount (if readonly then NTFS_MNT_RDONLY else NTFS_MNT_RECOVER) of
        Inl x \<Rightarrow> Some (None, say errlen (''ntfs_mount('' @ path @ ''): '' @ strerror x) buf, h)
      | Inr vol \<Rightarrow>
          let h1 = acquire R_vol (acquire R_device h) in
          if \<not> mem_v then do { h \<leftarrow> ntfs_umount h1; Some (None, buf, h) }
          else Some (Some \<lparr>v_vol = vol, v_devctx = False, v_bde = False, v_wr = []\<rparr>, buf, acquire R_nkvol h1))"

definition nk_umount :: "'v nk_volume \<Rightarrow> heap \<Rightarrow> heap option" where
  "nk_umount v h = do {
     h \<leftarrow> ntfs_umount h;
     h \<leftarrow> release_if (v_devctx v) R_devctx h;
     h \<leftarrow> (if v_bde v then nk_bde_free h else Some h);
     release R_nkvol h }"

definition nk_mount_bitlocker ::
  "bde_calls \<Rightarrow> (mount_flags \<Rightarrow> errno + 'v) \<Rightarrow> bool \<Rightarrow> (errno \<Rightarrow> string) \<Rightarrow> nat \<Rightarrow> string \<Rightarrow> heap \<Rightarrow>
   ('v nk_volume option \<times> string \<times> heap) option" where
  "nk_mount_bitlocker c mount mem_v strerror errlen buf h = do {
     (ok, buf, h) \<leftarrow> nk_bde_open c errlen buf h;
     if \<not> ok then Some (None, buf, h)
     else
       (case mount NTFS_MNT_RDONLY of
          Inl x \<Rightarrow> do {
            h \<leftarrow> release R_device h;
            h \<leftarrow> nk_bde_free h;
            Some (None, say errlen (''decrypted, but not NTFS: '' @ strerror x) buf, h) }
        | Inr vol \<Rightarrow>
            let h = acquire R_vol h in
            if \<not> mem_v then do {
              h \<leftarrow> ntfs_umount h;
              h \<leftarrow> nk_bde_free h;
              Some (None, buf, h) }
            else Some (Some \<lparr>v_vol = vol, v_devctx = False, v_bde = True, v_wr = []\<rparr>, buf, acquire R_nkvol h)) }"

section \<open>Check\<close>

text \<open>
  \<open>nk_fsck\<close>: \<open>dirty\<close> is the volume's dirty flag after mounting, \<open>clear_fails\<close> the result of
  \<^verbatim>\<open>ntfs_volume_write_flags\<close>, \<open>umount_fails\<close> that of \<^verbatim>\<open>ntfs_umount\<close> (whose resources are gone either way).
  The last component tells whether the dirty flag was written.
\<close>

definition nk_fsck ::
  "bool \<Rightarrow> bool \<Rightarrow> (mount_flags \<Rightarrow> errno + 'v) \<Rightarrow> ('v \<Rightarrow> bool) \<Rightarrow> bool \<Rightarrow> bool \<Rightarrow> (errno \<Rightarrow> string) \<Rightarrow> errno \<Rightarrow> bool \<Rightarrow>
   nat \<Rightarrow> string \<Rightarrow> heap \<Rightarrow> (s64 \<times> string \<times> heap \<times> bool) option" where
  "nk_fsck mem_c dev_ok mount dirty clear_fails umount_fails strerror x repair errlen buf h =
     (if \<not> mem_c then Some (-1, buf, h, False)
      else
        let h1 = acquire R_devctx h in
        if \<not> dev_ok then do { h \<leftarrow> release R_devctx h1; Some (-1, buf, h, False) }
        else
          let h2 = acquire R_device h1 in
          (case mount (if repair then NTFS_MNT_RECOVER else NTFS_MNT_RDONLY) of
             Inl x \<Rightarrow> do {
               h \<leftarrow> release R_device h2;
               h \<leftarrow> release R_devctx h;
               Some (if x = EPERM then -2 else -1,
                     say errlen (''mount for fsck failed: '' @ strerror x) buf, h, False) }
           | Inr vol \<Rightarrow>
               let h3 = acquire R_vol h2;
                   d = dirty vol;
                   writes = (repair \<and> d);
                   r1 = (if writes \<and> clear_fails then -1 else if d then 1 else 0 :: s64);
                   buf1 = (if writes \<and> clear_fails
                           then say errlen (''could not clear dirty flag: '' @ strerror x) buf else buf)
               in do {
                 h \<leftarrow> ntfs_umount h3;
                 h \<leftarrow> release R_devctx h;
                 Some (if umount_fails \<and> r1 \<ge> 0 then -1 else r1,
                       if umount_fails \<and> r1 \<ge> 0
                       then say errlen (''fsck unmount failed: '' @ strerror x) buf1 else buf1, h, writes) }))"

section \<open>Format\<close>

text \<open>
  \<open>nk_format\<close>: \<open>mkntfs\<close> is the formatter's main function on the argument vector; it returns its exit
  code and whether it consumed (released) the external device.
\<close>

definition format_argv :: "string option \<Rightarrow> string list" where
  "format_argv label =
     [''mkntfs'', ''--force'', ''-F'', ''-Q'', ''-L'',
      case label of Some l \<Rightarrow> if l \<noteq> [] then l else ''NTFS'' | None \<Rightarrow> ''NTFS'',
      ''fskit-format'']"

definition nk_format ::
  "bool \<Rightarrow> bool \<Rightarrow> (string list \<Rightarrow> s64 \<times> bool) \<Rightarrow> (s64 \<Rightarrow> string) \<Rightarrow> string option \<Rightarrow> nat \<Rightarrow> string \<Rightarrow> heap \<Rightarrow>
   (s64 \<times> string \<times> heap) option" where
  "nk_format mem_c dev_ok mkntfs show label errlen buf h =
     (if \<not> mem_c then Some (-1, buf, h)
      else
        let h1 = acquire R_devctx h in
        if \<not> dev_ok then do { h \<leftarrow> release R_devctx h1; Some (-1, buf, h) }
        else
          let h2 = acquire R_device h1;
              (rc, consumed) = mkntfs (format_argv label);
              h3 = (if consumed then h2 - {R_device} else h2)
          in do {
            h \<leftarrow> release_if (\<not> consumed) R_device h3;
            h \<leftarrow> release R_devctx h;
            Some (if rc = 0 then 0 else -1,
                  if rc \<noteq> 0 then say errlen (''mkntfs failed (rc='' @ show rc @ '')'') buf else buf, h) })"

section \<open>Nothing leaks and nothing is released twice\<close>

lemmas heap_defs = acquire_def release_def release_if_def ntfs_umount_def bde_fail_def nk_bde_free_def Let_def

lemma nk_bde_open_cases:
  "\<exists>buf'. nk_bde_open c errlen buf {} = Some (False, buf', {}) \<or>
     nk_bde_open c errlen buf {} =
       Some (True, buf', {R_bde, R_bctx, R_bfio, R_bdevol, R_bdedev, R_device})"
  by (auto simp: nk_bde_open_def heap_defs)

text \<open>
  a mount through the host's callbacks that fails releases everything it acquired; one that
  succeeds is undone completely by an unmount. No resource is ever released twice.
\<close>

theorem mount_io_balanced:
  "\<exists>v buf' h'. nk_mount_io mem_c dev_ok mount mem_v strerror readonly errlen buf {} = Some (v, buf', h') \<and>
     (case v of None \<Rightarrow> h' = {} | Some vol \<Rightarrow> nk_umount vol h' = Some {})"
  by (cases "mount (if readonly then NTFS_MNT_RDONLY else NTFS_MNT_RECOVER)")
    (auto simp: nk_mount_io_def nk_umount_def heap_defs)

text \<open>C37: mounting through BitLocker and unmounting later releases the whole decryption chain exactly once, whichever step fails: nothing leaks and nothing is released twice.\<close>

theorem mount_bitlocker_balanced:
  "\<exists>v buf' h'. nk_mount_bitlocker c mount mem_v strerror errlen buf {} = Some (v, buf', h') \<and>
     (case v of None \<Rightarrow> h' = {} | Some vol \<Rightarrow> nk_umount vol h' = Some {})"
proof -
  obtain buf' where "nk_bde_open c errlen buf {} = Some (False, buf', {}) \<or>
     nk_bde_open c errlen buf {} = Some (True, buf', {R_bde, R_bctx, R_bfio, R_bdevol, R_bdedev, R_device})"
    using nk_bde_open_cases by blast
  then show ?thesis
    by (cases "mount NTFS_MNT_RDONLY"; cases mem_v)
      (auto simp: nk_mount_bitlocker_def nk_umount_def heap_defs insert_Diff_if)
qed



text \<open>formatting releases the device exactly once, whether or not the formatter took it over.\<close>

theorem format_balanced:
  "\<exists>r buf'. nk_format mem_c dev_ok mkntfs show label errlen buf {} = Some (r, buf', {}) \<and>
     (r = 0 \<longleftrightarrow> mem_c \<and> dev_ok \<and> fst (mkntfs (format_argv label)) = 0)"
  by (cases "mkntfs (format_argv label)") (auto simp: nk_format_def heap_defs insert_Diff_if)

end
