(* ===== verification/Namespace.thy ===== *)
theory Namespace
  imports Wr_Table
begin

text \<open>
  The path-based operations of \<^verbatim>\<open>ntfs_bridge.c\<close>: listing, reading and writing by copy, creating,
  deleting and renaming, times, symbolic links, the volume label, and extended attributes as named
  data streams. The libntfs-3g calls they make are the record \<open>names_lib\<close> on an engine state; an inode
  is named by its MFT reference, a converted name by the list of its UCS-2 units.
  \<^verbatim>\<open>ntfs_mbstoucs\<close> and \<^verbatim>\<open>ntfs_ucstombs\<close> return \<open>None\<close> where they fail or allocate nothing.
\<close>

type_synonym ucs = "16 word list"

datatype file_type = S_IFREG | S_IFDIR

record dirent =
  de_name :: string
  de_is_dir :: bool
  de_size :: s64
  de_inode :: u64

record raw_dirent =
  rd_name :: ucs
  rd_dos :: bool
  rd_mref :: u64
  rd_dir :: bool

record 'e names_lib =
  n_path :: "'e \<Rightarrow> string \<Rightarrow> u64 option"
  n_MREF :: "u64 \<Rightarrow> u64"
  n_mbstoucs :: "string \<Rightarrow> ucs option"
  n_ucstombs :: "ucs \<Rightarrow> string option"
  n_readdir :: "'e \<Rightarrow> u64 \<Rightarrow> raw_dirent list \<times> bool"
  n_data_size :: "'e \<Rightarrow> u64 \<Rightarrow> s64 option"
  n_pread :: "'e \<Rightarrow> u64 \<Rightarrow> ucs \<Rightarrow> s64 \<Rightarrow> s64 \<Rightarrow> s64 \<times> byte list"
  n_pwrite :: "'e \<Rightarrow> u64 \<Rightarrow> ucs \<Rightarrow> s64 \<Rightarrow> byte list \<Rightarrow> s64 \<times> 'e"
  n_truncate :: "'e \<Rightarrow> u64 \<Rightarrow> ucs \<Rightarrow> s64 \<Rightarrow> bool \<times> 'e"
  n_stream :: "'e \<Rightarrow> u64 \<Rightarrow> ucs \<Rightarrow> s64 option"
  n_streams :: "'e \<Rightarrow> u64 \<Rightarrow> ucs list"
  n_attr_add :: "'e \<Rightarrow> u64 \<Rightarrow> ucs \<Rightarrow> byte list \<Rightarrow> bool \<times> 'e"
  n_attr_rm :: "'e \<Rightarrow> u64 \<Rightarrow> ucs \<Rightarrow> bool \<times> 'e"
  n_create :: "'e \<Rightarrow> u64 \<Rightarrow> ucs \<Rightarrow> file_type \<Rightarrow> u64 option \<times> 'e"
  n_create_symlink :: "'e \<Rightarrow> u64 \<Rightarrow> ucs \<Rightarrow> ucs \<Rightarrow> u64 option \<times> 'e"
  n_delete :: "'e \<Rightarrow> u64 \<Rightarrow> u64 \<Rightarrow> ucs \<Rightarrow> bool \<times> 'e"
  n_link :: "'e \<Rightarrow> u64 \<Rightarrow> u64 \<Rightarrow> ucs \<Rightarrow> bool \<times> 'e"
  n_lookup :: "'e \<Rightarrow> u64 \<Rightarrow> ucs \<Rightarrow> u64 option"
  n_link_count :: "'e \<Rightarrow> u64 \<Rightarrow> nat"
  n_open :: "'e \<Rightarrow> u64 \<Rightarrow> bool"
  n_close :: "'e \<Rightarrow> u64 \<Rightarrow> bool \<times> 'e"
  n_update_times :: "'e \<Rightarrow> u64 \<Rightarrow> 'e"
  n_set_time :: "'e \<Rightarrow> u64 \<Rightarrow> nat \<Rightarrow> s64 \<Rightarrow> 'e"
  n_mark_dirty :: "'e \<Rightarrow> u64 \<Rightarrow> 'e"
  n_is_reparse :: "'e \<Rightarrow> u64 \<Rightarrow> bool"
  n_make_symlink :: "'e \<Rightarrow> u64 \<Rightarrow> string option"
  n_volume_rename :: "'e \<Rightarrow> ucs \<Rightarrow> bool \<times> 'e"

abbreviation close_ignoring :: "'e names_lib \<Rightarrow> 'e \<Rightarrow> u64 \<Rightarrow> 'e" where
  "close_ignoring lib e m \<equiv> snd (n_close lib e m)"

section \<open>Listing\<close>

text \<open>\<open>cb\<close> is the host's answer (stop or not) after the entries it has received so far.\<close>

definition FILE_first_user :: u64 where
  "FILE_first_user = 24"

definition is_dot :: "string \<Rightarrow> bool" where
  "is_dot s \<longleftrightarrow> s = ''.'' \<or> s = ''..''"

definition nk_filldir ::
  "'e names_lib \<Rightarrow> 'e \<Rightarrow> (dirent list \<Rightarrow> bool) \<Rightarrow> raw_dirent \<Rightarrow> dirent list \<times> bool \<Rightarrow> dirent list \<times> bool" where
  "nk_filldir lib e cb r lc =
     (case lc of (out, stop) \<Rightarrow>
        if stop then lc
        else if rd_dos r then lc
        else if n_MREF lib (rd_mref r) < FILE_first_user then lc
        else
          (case n_ucstombs lib (rd_name r) of
             None \<Rightarrow> lc
           | Some utf8 \<Rightarrow>
               if is_dot utf8 then lc
               else
                 let size = (if rd_dir r then 0
                             else case n_data_size lib e (rd_mref r) of Some s \<Rightarrow> s | None \<Rightarrow> 0);
                     out' = out @ [\<lparr>de_name = utf8, de_is_dir = rd_dir r, de_size = size,
                                    de_inode = n_MREF lib (rd_mref r)\<rparr>]
                 in (out', cb out')))"

definition nk_list :: "'e names_lib \<Rightarrow> 'e \<Rightarrow> string \<Rightarrow> (dirent list \<Rightarrow> bool) \<Rightarrow> s64 \<times> dirent list" where
  "nk_list lib e path cb =
     (case n_path lib e path of
        None \<Rightarrow> (-1, [])
      | Some m \<Rightarrow>
          (case n_readdir lib e m of
             (rs, fail) \<Rightarrow>
               (if fail then -1 else 0, fst (fold (nk_filldir lib e cb) rs ([], False)))))"

section \<open>Reading and writing by copy\<close>

definition nk_read :: "'e names_lib \<Rightarrow> 'e \<Rightarrow> string \<Rightarrow> s64 \<Rightarrow> s64 \<Rightarrow> s64 \<times> byte list \<times> 'e" where
  "nk_read lib e path offset count =
     (case n_path lib e path of
        None \<Rightarrow> (-1, [], e)
      | Some m \<Rightarrow>
          (case n_data_size lib e m of
             None \<Rightarrow> (-1, [], close_ignoring lib e m)
           | Some _ \<Rightarrow> (case n_pread lib e m [] offset count of (n, bs) \<Rightarrow> (n, bs, close_ignoring lib e m))))"

definition nk_write :: "'e names_lib \<Rightarrow> 'e \<Rightarrow> string \<Rightarrow> s64 \<Rightarrow> byte list \<Rightarrow> s64 \<times> 'e" where
  "nk_write lib e path offset buf =
     (case n_path lib e path of
        None \<Rightarrow> (-1, e)
      | Some m \<Rightarrow>
          let (n, e1) = (case n_data_size lib e m of None \<Rightarrow> (-1, e) | Some _ \<Rightarrow> n_pwrite lib e m [] offset buf);
              (fail, e2) = n_close lib (n_update_times lib e1 m) m
          in (if fail \<and> n \<ge> 0 then -1 else n, e2))"

section \<open>Names\<close>

text \<open>A converted name of 1 to 255 units; the cast of its length to 8 bits is then exact.\<close>

definition good_name :: "'e names_lib \<Rightarrow> string \<Rightarrow> ucs option" where
  "good_name lib name =
     (case n_mbstoucs lib name of
        None \<Rightarrow> None
      | Some u \<Rightarrow> if length u = 0 \<or> length u > 255 then None else Some u)"

definition create_node :: "'e names_lib \<Rightarrow> 'e \<Rightarrow> string \<Rightarrow> string \<Rightarrow> file_type \<Rightarrow> s64 \<times> 'e" where
  "create_node lib e dir_path name type =
     (case n_path lib e dir_path of
        None \<Rightarrow> (-1, e)
      | Some dir \<Rightarrow>
          (case good_name lib name of
             None \<Rightarrow> (-1, close_ignoring lib e dir)
           | Some u \<Rightarrow>
               let (ni, e1) = n_create lib e dir u type;
                   (f1, e2) = (case ni of None \<Rightarrow> (True, e1) | Some m \<Rightarrow> n_close lib e1 m);
                   (f2, e3) = n_close lib e2 dir
               in (if f1 \<or> f2 then -1 else 0, e3)))"

definition nk_create :: "'e names_lib \<Rightarrow> 'e \<Rightarrow> string \<Rightarrow> string \<Rightarrow> s64 \<times> 'e" where
  "nk_create lib e dir_path name = create_node lib e dir_path name S_IFREG"

definition nk_mkdir :: "'e names_lib \<Rightarrow> 'e \<Rightarrow> string \<Rightarrow> string \<Rightarrow> s64 \<times> 'e" where
  "nk_mkdir lib e dir_path name = create_node lib e dir_path name S_IFDIR"

text \<open>\<^verbatim>\<open>strrchr\<close> finds the last slash; the result is the leaf and the parent stored into the buffer.\<close>

definition split_path :: "string \<Rightarrow> nat \<Rightarrow> (string \<times> string) option" where
  "split_path path plen_max =
     (if CHR ''/'' \<notin> set path then None
      else
        let leaf = rev (takeWhile (\<lambda>c. c \<noteq> CHR ''/'') (rev path));
            plen = length path - length leaf - 1
        in if plen = 0 then Some (leaf, ''/'')
           else if plen \<ge> plen_max then None
           else Some (leaf, take plen path))"

text \<open>
  \<open>mem\<close> is whether the buffer for the parent could be allocated. \<^verbatim>\<open>ntfs_delete\<close> closes both inodes.
  The table entry of a file is dropped with its last name.
\<close>

definition nk_delete :: "'e names_lib \<Rightarrow> bool \<Rightarrow> wr_array \<Rightarrow> 'e \<Rightarrow> string \<Rightarrow> s64 \<times> wr_array \<times> 'e" where
  "nk_delete lib mem wr e path =
     (case (if mem then split_path path (length path + 2) else None) of
        None \<Rightarrow> (-1, wr, e)
      | Some (leaf, parent) \<Rightarrow>
          (case n_path lib e path of
             None \<Rightarrow> (-1, wr, e)
           | Some ni \<Rightarrow>
               (case n_path lib e parent of
                  None \<Rightarrow> (-1, wr, close_ignoring lib e ni)
                | Some dir \<Rightarrow>
                    (case good_name lib leaf of
                       None \<Rightarrow> (-1, wr, close_ignoring lib (close_ignoring lib e dir) ni)
                     | Some u \<Rightarrow>
                         let mr = (if n_link_count lib e ni \<le> 1 then ni else 0);
                             (fail, e1) = n_delete lib e ni dir u
                         in (if fail then -1 else 0,
                             if \<not> fail \<and> mr \<noteq> 0 then wr_drop wr mr else wr, e1)))))"

definition nk_rename ::
  "'e names_lib \<Rightarrow> bool \<Rightarrow> wr_array \<Rightarrow> 'e \<Rightarrow> string \<Rightarrow> string \<Rightarrow> string \<Rightarrow> s64 \<times> wr_array \<times> 'e" where
  "nk_rename lib mem wr e old_path new_dir new_name =
     (case n_path lib e old_path of
        None \<Rightarrow> (-1, wr, e)
      | Some ni \<Rightarrow>
          (case n_path lib e new_dir of
             None \<Rightarrow> (-1, wr, close_ignoring lib e ni)
           | Some dir \<Rightarrow>
               (case good_name lib new_name of
                  None \<Rightarrow> (-1, wr, close_ignoring lib (close_ignoring lib e dir) ni)
                | Some u \<Rightarrow>
                    if (case n_lookup lib e dir u of Some ex \<Rightarrow> n_MREF lib ex = n_MREF lib ni | None \<Rightarrow> False)
                    then (0, wr, close_ignoring lib (close_ignoring lib e dir) ni)
                    else
                      let (fail, e1) = n_link lib e ni dir u;
                          e2 = close_ignoring lib (close_ignoring lib e1 dir) ni
                      in if fail then (-1, wr, e2)
                         else
                           (case nk_delete lib mem wr e2 old_path of
                              (r, wr', e3) \<Rightarrow>
                                if r = 0 then (0, wr', e3)
                                else if n_open lib e3 ni \<and> n_open lib e3 dir
                                then (-1, wr', snd (n_delete lib e3 ni dir u))
                                else
                                  let e4 = (if n_open lib e3 ni then close_ignoring lib e3 ni else e3);
                                      e5 = (if n_open lib e3 dir then close_ignoring lib e4 dir else e4)
                                  in (-1, wr', e5)))))"

section \<open>Times, links, label\<close>

definition nk_set_times :: "'e names_lib \<Rightarrow> 'e \<Rightarrow> string \<Rightarrow> s64 \<Rightarrow> s64 \<Rightarrow> s64 \<Rightarrow> s64 \<times> 'e" where
  "nk_set_times lib e path atime mtime btime =
     (case n_path lib e path of
        None \<Rightarrow> (-1, e)
      | Some m \<Rightarrow>
          let e1 = (if atime \<ge> 0 then n_set_time lib e m 0 atime else e);
              e2 = (if mtime \<ge> 0 then n_set_time lib e1 m 1 mtime else e1);
              e3 = (if btime \<ge> 0 then n_set_time lib e2 m 2 btime else e2);
              (fail, e4) = n_close lib (n_mark_dirty lib e3 m) m
          in (if fail then -1 else 0, e4))"

text \<open>\<open>intx\<close> is \<open>is_intx_symlink\<close> on the data attribute; \<open>units\<close> reads a byte string as UCS-2 units.\<close>

definition copy_target :: "string option \<Rightarrow> nat \<Rightarrow> (errno option + string)" where
  "copy_target t buflen =
     (case t of
        None \<Rightarrow> Inl None
      | Some s \<Rightarrow> if length s < buflen then Inr s else Inl (Some ENAMETOOLONG))"

definition nk_readlink ::
  "'e names_lib \<Rightarrow> ('e \<Rightarrow> u64 \<Rightarrow> bool) \<Rightarrow> (byte list \<Rightarrow> ucs) \<Rightarrow> bool \<Rightarrow> 'e \<Rightarrow> string \<Rightarrow> nat \<Rightarrow> errno option + string" where
  "nk_readlink lib intx units mem e path buflen =
     (if buflen = 0 then Inl None
      else
        (case n_path lib e path of
           None \<Rightarrow> Inl None
         | Some m \<Rightarrow>
             if n_is_reparse lib e m then copy_target (n_make_symlink lib e m) buflen
             else
               (case n_data_size lib e m of
                  None \<Rightarrow> Inl None
                | Some ds \<Rightarrow>
                    if \<not> intx e m then Inl None
                    else if \<not> mem then Inl None
                    else
                      (case n_pread lib e m [] 8 (ds - 8) of
                         (n, bs) \<Rightarrow>
                           if n \<noteq> ds - 8 then Inl None
                           else copy_target (n_ucstombs lib (take (nat ((ds - 8) div 2)) (units bs))) buflen))))"

definition nk_create_symlink :: "'e names_lib \<Rightarrow> 'e \<Rightarrow> string \<Rightarrow> string \<Rightarrow> string \<Rightarrow> s64 \<times> 'e" where
  "nk_create_symlink lib e dir_path name target =
     (case n_path lib e dir_path of
        None \<Rightarrow> (-1, e)
      | Some dir \<Rightarrow>
          let (r, e1) =
            (case (n_mbstoucs lib name, n_mbstoucs lib target) of
               (Some u, Some t) \<Rightarrow>
                 if length u > 0 \<and> length u \<le> 255 \<and> length t > 0 then
                   (case n_create_symlink lib e dir u t of
                      (None, e1) \<Rightarrow> (-1, e1)
                    | (Some m, e1) \<Rightarrow> (0, close_ignoring lib e1 m))
                 else (-1, e)
             | _ \<Rightarrow> (-1, e))
          in (r, close_ignoring lib e1 dir))"

definition nk_is_dirty :: "bool \<Rightarrow> s64" where
  "nk_is_dirty dirty_flag = (if dirty_flag then 1 else 0)"

definition nk_sync :: "bool \<Rightarrow> s64" where
  "nk_sync dev_sync_fails = (if dev_sync_fails then -1 else 0)"

definition nk_set_label :: "'e names_lib \<Rightarrow> 'e \<Rightarrow> string \<Rightarrow> s64 \<times> 'e" where
  "nk_set_label lib e label =
     (case n_mbstoucs lib label of
        None \<Rightarrow> (-1, e)
      | Some u \<Rightarrow>
          if length u > 128 then (-1, e)
          else (case n_volume_rename lib e u of (fail, e') \<Rightarrow> (if fail then -1 else 0, e')))"

section \<open>Extended attributes\<close>

definition xattr_ucs :: "'e names_lib \<Rightarrow> string \<Rightarrow> ucs option" where
  "xattr_ucs lib name = good_name lib name"

text \<open>The data streams of the file in the order of the attribute search; the unnamed one has an empty name.\<close>

fun xattr_names :: "'e names_lib \<Rightarrow> (string list \<Rightarrow> bool) \<Rightarrow> ucs list \<Rightarrow> string list \<Rightarrow> string list" where
  "xattr_names lib cb [] out = out"
| "xattr_names lib cb (u # us) out =
     (if u = [] then xattr_names lib cb us out
      else
        (case n_ucstombs lib u of
           None \<Rightarrow> xattr_names lib cb us out
         | Some s \<Rightarrow> if cb (out @ [s]) then out @ [s] else xattr_names lib cb us (out @ [s])))"

definition nk_xattr_list :: "'e names_lib \<Rightarrow> bool \<Rightarrow> 'e \<Rightarrow> string \<Rightarrow> (string list \<Rightarrow> bool) \<Rightarrow> s64 \<times> string list" where
  "nk_xattr_list lib mem e path cb =
     (case n_path lib e path of
        None \<Rightarrow> (-1, [])
      | Some m \<Rightarrow> if \<not> mem then (-1, []) else (0, xattr_names lib cb (n_streams lib e m) []))"

text \<open>\<open>bufsize\<close> is \<open>None\<close> for a null buffer. The result is an error code (or none) or the count and bytes.\<close>

definition nk_xattr_get ::
  "'e names_lib \<Rightarrow> 'e \<Rightarrow> string \<Rightarrow> string \<Rightarrow> s64 option \<Rightarrow> errno option + (s64 \<times> byte list)" where
  "nk_xattr_get lib e path name bufsize =
     (case xattr_ucs lib name of
        None \<Rightarrow> Inl None
      | Some u \<Rightarrow>
          (case n_path lib e path of
             None \<Rightarrow> Inl None
           | Some m \<Rightarrow>
               (case n_stream lib e m u of
                  None \<Rightarrow> Inl None
                | Some ds \<Rightarrow>
                    (case bufsize of
                       None \<Rightarrow> Inr (ds, [])
                     | Some bsz \<Rightarrow>
                         if bsz = 0 then Inr (ds, [])
                         else if bsz < ds then Inl (Some ERANGE)
                         else Inr (n_pread lib e m u 0 ds)))))"

definition nk_xattr_set :: "'e names_lib \<Rightarrow> 'e \<Rightarrow> string \<Rightarrow> string \<Rightarrow> byte list \<Rightarrow> s64 \<times> 'e" where
  "nk_xattr_set lib e path name buf =
     (case xattr_ucs lib name of
        None \<Rightarrow> (-1, e)
      | Some u \<Rightarrow>
          (case n_path lib e path of
             None \<Rightarrow> (-1, e)
           | Some m \<Rightarrow>
               let (r, e1) =
                 (case n_stream lib e m u of
                    Some _ \<Rightarrow>
                      let (n, e1) = (if length buf = 0 then (0, e) else n_pwrite lib e m u 0 buf) in
                      if n \<noteq> int (length buf) then (-1, e1)
                      else (case n_truncate lib e1 m u (int (length buf)) of
                              (fail, e2) \<Rightarrow> (if fail then -1 else 0, e2))
                  | None \<Rightarrow> (case n_attr_add lib e m u buf of (fail, e1) \<Rightarrow> (if fail then -1 else 0, e1)));
                   (f2, e3) = n_close lib (n_mark_dirty lib e1 m) m
               in (if f2 then -1 else r, e3)))"

definition nk_xattr_remove :: "'e names_lib \<Rightarrow> 'e \<Rightarrow> string \<Rightarrow> string \<Rightarrow> s64 \<times> 'e" where
  "nk_xattr_remove lib e path name =
     (case xattr_ucs lib name of
        None \<Rightarrow> (-1, e)
      | Some u \<Rightarrow>
          (case n_path lib e path of
             None \<Rightarrow> (-1, e)
           | Some m \<Rightarrow>
               let (r, e1) =
                 (case n_stream lib e m u of
                    Some _ \<Rightarrow> (case n_attr_rm lib e m u of (fail, e1) \<Rightarrow> (if fail then -1 else 0, e1))
                  | None \<Rightarrow> (-1, e));
                   (f2, e3) = n_close lib (n_mark_dirty lib e1 m) m
               in (if f2 then -1 else r, e3)))"


section \<open>What a listing returns\<close>

text \<open>The entry the host should see for a raw one, if any.\<close>

definition visible :: "'e names_lib \<Rightarrow> 'e \<Rightarrow> raw_dirent \<Rightarrow> dirent option" where
  "visible lib e r =
     (if rd_dos r \<or> n_MREF lib (rd_mref r) < FILE_first_user then None
      else
        (case n_ucstombs lib (rd_name r) of
           None \<Rightarrow> None
         | Some utf8 \<Rightarrow>
             if is_dot utf8 then None
             else Some \<lparr>de_name = utf8, de_is_dir = rd_dir r,
               de_size = (if rd_dir r then 0 else case n_data_size lib e (rd_mref r) of Some s \<Rightarrow> s | None \<Rightarrow> 0),
               de_inode = n_MREF lib (rd_mref r)\<rparr>))"

text \<open>A prefix that ends where the host first said stop, or the whole list if it never did.\<close>

definition stopped_prefix :: "('a list \<Rightarrow> bool) \<Rightarrow> 'a list \<Rightarrow> 'a list \<Rightarrow> bool" where
  "stopped_prefix cb xs out \<longleftrightarrow>
     (\<exists>k \<le> length xs. out = take k xs \<and> (k = length xs \<or> 0 < k \<and> cb out) \<and> (\<forall>j. 0 < j \<and> j < k \<longrightarrow> \<not> cb (take j xs)))"

lemma stopped_prefix_snoc_go:
  assumes "\<forall>j. 0 < j \<and> j \<le> length xs \<longrightarrow> \<not> cb (take j xs)"
  shows "stopped_prefix cb (xs @ [x] @ ys) (xs @ [x]) \<or> \<not> cb (xs @ [x])"
proof (cases "cb (xs @ [x])")
  case True
  have "\<not> cb (take j (xs @ [x] @ ys))" if "0 < j" "j < length xs + 1" for j
    using assms that by simp
  with True show ?thesis
    unfolding stopped_prefix_def by (intro disjI1 exI [of _ "length xs + 1"]) auto
qed simp

lemma not_stopped_snoc:
  assumes "\<forall>j. 0 < j \<and> j \<le> length out \<longrightarrow> \<not> cb (take j out)" and "\<not> cb (out @ [d])"
  shows "\<forall>j. 0 < j \<and> j \<le> length (out @ [d]) \<longrightarrow> \<not> cb (take j (out @ [d]))"
proof (intro allI impI)
  fix j
  assume "0 < j \<and> j \<le> length (out @ [d])"
  with assms show "\<not> cb (take j (out @ [d]))" by (cases "j \<le> length out") auto
qed

lemma filldir_stopped: "fold (nk_filldir lib e cb) rs (out, True) = (out, True)"
  by (induction rs) (auto simp: nk_filldir_def)

lemma filldir_visible:
  "nk_filldir lib e cb r (out, False) =
     (case visible lib e r of None \<Rightarrow> (out, False) | Some d \<Rightarrow> (out @ [d], cb (out @ [d])))"
  by (auto simp: nk_filldir_def visible_def Let_def split: option.splits)

lemma fold_filldir:
  assumes "\<forall>j. 0 < j \<and> j \<le> length out \<longrightarrow> \<not> cb (take j out)"
  shows "stopped_prefix cb (out @ List.map_filter (visible lib e) rs) (fst (fold (nk_filldir lib e cb) rs (out, False)))"
  using assms
proof (induction rs arbitrary: out)
  case Nil
  then show ?case by (auto simp: stopped_prefix_def map_filter_simps)
next
  case (Cons r rs)
  show ?case
  proof (cases "visible lib e r")
    case None
    with Cons show ?thesis by (simp add: filldir_visible map_filter_simps)
  next
    case (Some d)
    show ?thesis
    proof (cases "cb (out @ [d])")
      case True
      with Some stopped_prefix_snoc_go [OF Cons.prems, of d "List.map_filter (visible lib e) rs"] show ?thesis
        by (simp add: filldir_visible filldir_stopped map_filter_simps)
    next
      case False
      from Cons.IH [OF not_stopped_snoc [OF Cons.prems False]] Some False show ?thesis by (simp add: filldir_visible map_filter_simps)
    qed
  qed
qed

text \<open>
  listing a directory gives the host, in the engine's order and up to the entry where the host
  stops, exactly the entries that are not DOS aliases, not system files, not dot entries, and have a
  UTF-8 name.
\<close>

theorem list_entries:
  assumes "n_path lib e path = Some m" and "n_readdir lib e m = (rs, fail)"
  shows "fst (nk_list lib e path cb) = (if fail then -1 else 0) \<and>
    stopped_prefix cb (List.map_filter (visible lib e) rs) (snd (nk_list lib e path cb))"
  using assms fold_filldir [of "[]" cb lib e rs] by (simp add: nk_list_def)

section \<open>Paths\<close>

text \<open>
  a path is split at its last slash into parent and leaf: the leaf has no slash, the two make up
  the path again, and the parent with its terminator fits the buffer \<open>nk_delete\<close> allocates, so the
  split never fails for a path with a slash.
\<close>

theorem split_path_parts:
  assumes "CHR ''/'' \<in> set path"
  shows "\<exists>leaf parent. split_path path (length path + 2) = Some (leaf, parent) \<and>
    CHR ''/'' \<notin> set leaf \<and> length parent + 1 \<le> length path + 2 \<and>
    (path = parent @ ''/'' @ leaf \<or> parent = ''/'' \<and> path = ''/'' @ leaf)"
proof -
  define leaf where "leaf = rev (takeWhile (\<lambda>c. c \<noteq> CHR ''/'') (rev path))"
  define pre where "pre = rev (tl (dropWhile (\<lambda>c. c \<noteq> CHR ''/'') (rev path)))"
  have ne: "dropWhile (\<lambda>c. c \<noteq> CHR ''/'') (rev path) \<noteq> []" using assms by (simp add: dropWhile_eq_Nil_conv)
  then have "hd (dropWhile (\<lambda>c. c \<noteq> CHR ''/'') (rev path)) = CHR ''/''"
    using hd_dropWhile by blast
  with ne have "dropWhile (\<lambda>c. c \<noteq> CHR ''/'') (rev path) = CHR ''/'' # rev pre"
    by (cases "dropWhile (\<lambda>c. c \<noteq> CHR ''/'') (rev path)") (auto simp: pre_def)
  then have "rev path = rev leaf @ CHR ''/'' # rev pre"
    using takeWhile_dropWhile_id [of "\<lambda>c. c \<noteq> CHR ''/''" "rev path"] by (simp add: leaf_def)
  from arg_cong [OF this, of rev] have path: "path = pre @ CHR ''/'' # leaf" by simp
  have noslash: "CHR ''/'' \<notin> set leaf" by (auto simp: leaf_def dest: set_takeWhileD)
  have plen: "length path - length leaf - 1 = length pre"
    and tk: "take (length pre) path = pre" "length pre < length path + 2" by (simp_all add: path)
  have "split_path path (length path + 2) = Some (leaf, if pre = [] then ''/'' else pre)"
    unfolding split_path_def Let_def leaf_def [symmetric] plen using assms tk by simp
  with noslash path show ?thesis by (cases "pre = []") auto
qed

theorem split_path_parts_witness:
  "split_path ''/a/b'' 6 = Some (''b'', ''/a'') \<and>
   (\<exists>leaf parent. split_path ''/a/b'' 6 = Some (leaf, parent) \<and> length parent + 1 \<le> 6)"
  using split_path_parts [of "''/a/b''"] by (auto simp: split_path_def)

section \<open>Deletion and the table of marks\<close>

text \<open>
  deleting a name drops the file's high-water mark exactly when the deletion succeeded and the
  name was the last one; other files' marks stay.
\<close>

theorem delete_mark:
  assumes "wr_inv wr" and "nk_delete lib mem wr e path = (r, wr', e')"
    and "n_path lib e path = Some m" and "m \<noteq> 0"
  shows "wr_inv wr' \<and>
    wr_map wr' = (if r = 0 \<and> n_link_count lib e m \<le> 1 then (wr_map wr)(m := None) else wr_map wr)"
  using assms
  by (auto simp: nk_delete_def Let_def wr.look_del wr.invar_del split: option.splits prod.splits if_splits)

section \<open>Symbolic links and extended attributes are never cut short\<close>

text \<open>reading a link returns a whole target that fits the buffer with its terminator, or an error.\<close>

theorem readlink_whole:
  assumes "nk_readlink lib intx units mem e path buflen = Inr t" and "n_path lib e path = Some m"
  shows "length t < buflen \<and>
    (if n_is_reparse lib e m then n_make_symlink lib e m = Some t
     else \<exists>ds bs. n_data_size lib e m = Some ds \<and> n_pread lib e m [] 8 (ds - 8) = (ds - 8, bs) \<and>
       n_ucstombs lib (take (nat ((ds - 8) div 2)) (units bs)) = Some t)"
  using assms by (auto simp: nk_readlink_def copy_target_def split: option.splits if_splits prod.splits)

text \<open>
  reading an extended attribute into a buffer returns the result of reading the whole value, never
  a part of it; a buffer that is too small gives \<^verbatim>\<open>ERANGE\<close>.
\<close>

theorem xattr_get_whole:
  assumes "xattr_ucs lib name = Some u" and "n_path lib e path = Some m" and "n_stream lib e m u = Some ds"
    and "bsz \<noteq> 0"
  shows "nk_xattr_get lib e path name (Some bsz) =
    (if bsz < ds then Inl (Some ERANGE) else Inr (n_pread lib e m u 0 ds))"
  using assms by (simp add: nk_xattr_get_def)

text \<open>
  extended-attribute names are listed like directory entries: the named streams with a UTF-8 name,
  up to the name where the host stops.
\<close>

theorem xattr_list_names:
  assumes "n_path lib e path = Some m"
  shows "nk_xattr_list lib True e path cb = (0, xattr_names lib cb (n_streams lib e m) []) \<and>
    stopped_prefix cb (List.map_filter (\<lambda>u. if u = [] then None else n_ucstombs lib u) (n_streams lib e m))
      (snd (nk_xattr_list lib True e path cb))"
proof -
  let ?f = "\<lambda>u. if u = [] then None else n_ucstombs lib u"
  have "stopped_prefix cb (out @ List.map_filter ?f us) (xattr_names lib cb us out)"
    if "\<forall>j. 0 < j \<and> j \<le> length out \<longrightarrow> \<not> cb (take j out)" for us out
    using that
  proof (induction us arbitrary: out)
    case Nil
    then show ?case by (auto simp: stopped_prefix_def map_filter_simps)
  next
    case (Cons u us)
    show ?case
    proof (cases "?f u")
      case None
      with Cons show ?thesis by (auto simp: map_filter_simps split: if_splits)
    next
      case (Some d)
      show ?thesis
      proof (cases "cb (out @ [d])")
        case True
        with Some stopped_prefix_snoc_go [OF Cons.prems, of d "List.map_filter ?f us"] show ?thesis
          by (simp add: map_filter_simps split: if_splits)
      next
        case False
        from Cons.IH [OF not_stopped_snoc [OF Cons.prems False]] Some False show ?thesis by (simp add: map_filter_simps split: if_splits)
      qed
    qed
  qed
  from this [of "[]" "n_streams lib e m"] assms show ?thesis by (simp add: nk_xattr_list_def)
qed


section \<open>Renaming\<close>

text \<open>
  \<open>ns e (d, u)\<close> is the file that directory \<open>d\<close> holds under the name \<open>u\<close>. Documented behaviour:
  \<^verbatim>\<open>ntfs_link\<close> adds a name that was not there, \<^verbatim>\<open>ntfs_delete\<close> removes one, closing changes no names.
\<close>

definition ns_ok :: "('e \<Rightarrow> u64 \<times> ucs \<Rightarrow> u64 option) \<Rightarrow> 'e names_lib \<Rightarrow> bool" where
  "ns_ok ns lib \<longleftrightarrow>
     (\<forall>e ni d u f e'. n_link lib e ni d u = (f, e') \<longrightarrow>
        (if f then ns e' = ns e else ns e (d, u) = None \<and> ns e' = (ns e)((d, u) \<mapsto> ni))) \<and>
     (\<forall>e ni d u f e'. n_delete lib e ni d u = (f, e') \<longrightarrow>
        ns e' = (if f then ns e else (ns e)((d, u) := None))) \<and>
     (\<forall>e m. ns (snd (n_close lib e m)) = ns e)"

lemma ns_okD:
  assumes "ns_ok ns lib"
  shows "n_link lib e ni d u = (f, e') \<Longrightarrow>
      (if f then ns e' = ns e else ns e (d, u) = None \<and> ns e' = (ns e)((d, u) \<mapsto> ni))"
    and "n_delete lib e ni d u = (f, e') \<Longrightarrow> ns e' = (if f then ns e else (ns e)((d, u) := None))"
    and "ns (snd (n_close lib e m)) = ns e"
  using assms unfolding ns_ok_def by metis+

lemma nk_delete_ns:
  assumes "ns_ok ns lib" and "nk_delete lib mem wr e path = (r, wr', e')"
  shows "r = -1 \<and> ns e' = ns e \<or>
    r = 0 \<and> (\<exists>leaf parent d u. split_path path (length path + 2) = Some (leaf, parent) \<and>
      n_path lib e parent = Some d \<and> good_name lib leaf = Some u \<and> ns e' = (ns e)((d, u) := None))"
  using assms(2) ns_okD(2,3) [OF assms(1)]
  by (auto simp: nk_delete_def Let_def split: option.splits prod.splits if_splits)



section \<open>A directory of two names\<close>

text \<open>
  A root directory (reference 5) whose names are the engine state; \<^verbatim>\<open>/a\<close> is file 64, a symbolic link with
  one named stream. The properties above are applied to it.
\<close>

definition to_ucs :: "string \<Rightarrow> ucs" where
  "to_ucs s = map of_char s"

definition ex_lib :: "(u64 \<times> ucs \<Rightarrow> u64 option) names_lib" where
  "ex_lib = \<lparr>
     n_path = (\<lambda>e p. if p = ''/'' then Some 5 else if p = ''/a'' then e (5, to_ucs ''a'') else None),
     n_MREF = (\<lambda>m. m), n_mbstoucs = (\<lambda>s. Some (to_ucs s)), n_ucstombs = (\<lambda>u. Some ''x''),
     n_readdir = (\<lambda>e m. ([\<lparr>rd_name = to_ucs ''a'', rd_dos = False, rd_mref = 64, rd_dir = False\<rparr>,
        \<lparr>rd_name = to_ucs ''b'', rd_dos = True, rd_mref = 64, rd_dir = False\<rparr>], False)),
     n_data_size = (\<lambda>e m. Some 3), n_pread = (\<lambda>e m u p n. (n, replicate (nat n) 7)),
     n_pwrite = (\<lambda>e m u p bs. (int (length bs), e)), n_truncate = (\<lambda>e m u n. (False, e)),
     n_stream = (\<lambda>e m u. Some 3), n_streams = (\<lambda>e m. [[], to_ucs ''s'']),
     n_attr_add = (\<lambda>e m u bs. (False, e)), n_attr_rm = (\<lambda>e m u. (False, e)),
     n_create = (\<lambda>e d u t. (None, e)), n_create_symlink = (\<lambda>e d u t. (None, e)),
     n_delete = (\<lambda>e ni d u. (False, e((d, u) := None))),
     n_link = (\<lambda>e ni d u. if e (d, u) = None then (False, e((d, u) \<mapsto> ni)) else (True, e)),
     n_lookup = (\<lambda>e d u. e (d, u)), n_link_count = (\<lambda>e m. 1), n_open = (\<lambda>e m. True),
     n_close = (\<lambda>e m. (False, e)), n_update_times = (\<lambda>e m. e), n_set_time = (\<lambda>e m i v. e),
     n_mark_dirty = (\<lambda>e m. e), n_is_reparse = (\<lambda>e m. True), n_make_symlink = (\<lambda>e m. Some ''t''),
     n_volume_rename = (\<lambda>e u. (False, e))\<rparr>"

definition ex_dir :: "u64 \<times> ucs \<Rightarrow> u64 option" where
  "ex_dir = [(5, to_ucs ''a'') \<mapsto> 64]"

lemma ex_facts:
  "n_path ex_lib ex_dir ''/a'' = Some 64" "n_path ex_lib ex_dir ''/'' = Some 5"
  "good_name ex_lib ''c'' = Some (to_ucs ''c'')" "xattr_ucs ex_lib ''s'' = Some (to_ucs ''s'')"
  "ns_ok (\<lambda>e. e) ex_lib"
  by (auto simp: ex_lib_def ex_dir_def good_name_def xattr_ucs_def to_ucs_def ns_ok_def split: if_splits)

theorem list_entries_witness:
  "snd (nk_list ex_lib ex_dir ''/'' (\<lambda>xs. False)) =
     [\<lparr>de_name = ''x'', de_is_dir = False, de_size = 3, de_inode = 64\<rparr>] \<and>
   stopped_prefix (\<lambda>xs. False) [\<lparr>de_name = ''x'', de_is_dir = False, de_size = 3, de_inode = 64\<rparr>]
     (snd (nk_list ex_lib ex_dir ''/'' (\<lambda>xs. False)))"
proof -
  obtain rs f where rd: "n_readdir ex_lib ex_dir 5 = (rs, f)" by fastforce
  have v: "List.map_filter (visible ex_lib ex_dir) rs =
      [\<lparr>de_name = ''x'', de_is_dir = False, de_size = 3, de_inode = 64\<rparr>]"
    using rd by (auto simp: ex_lib_def visible_def FILE_first_user_def is_dot_def map_filter_simps)
  from list_entries [OF ex_facts(2) rd, of "\<lambda>xs. False"] v show ?thesis by (auto simp: stopped_prefix_def)
qed

theorem delete_mark_witness:
  "wr_map (fst (snd (nk_delete ex_lib True [\<lparr>mref = 64, hwm = 9\<rparr>, \<lparr>mref = 65, hwm = 8\<rparr>] ex_dir ''/a''))) 65 = Some 8"
  using delete_mark [OF _ _ ex_facts(1), of "[\<lparr>mref = 64, hwm = 9\<rparr>, \<lparr>mref = 65, hwm = 8\<rparr>]" True]
  by (cases "nk_delete ex_lib True [\<lparr>mref = 64, hwm = 9\<rparr>, \<lparr>mref = 65, hwm = 8\<rparr>] ex_dir ''/a''")
    (simp add: wr_inv_def wr_map_def)

theorem readlink_whole_witness:
  "nk_readlink ex_lib (\<lambda>e m. False) (\<lambda>bs. []) True ex_dir ''/a'' 2 = Inr ''t'' \<and> length ''t'' < (2 :: nat)"
proof -
  have r: "nk_readlink ex_lib (\<lambda>e m. False) (\<lambda>bs. []) True ex_dir ''/a'' 2 = Inr ''t''"
    by (simp add: nk_readlink_def ex_facts) (simp add: ex_lib_def copy_target_def)
  from readlink_whole [OF this ex_facts(1)] r show ?thesis by simp
qed

theorem xattr_get_whole_witness:
  "nk_xattr_get ex_lib ex_dir ''/a'' ''s'' (Some 2) = Inl (Some ERANGE) \<and>
   nk_xattr_get ex_lib ex_dir ''/a'' ''s'' (Some 3) = Inr (3, [7, 7, 7])"
proof -
  have "n_stream ex_lib ex_dir 64 (to_ucs ''s'') = Some 3" by (simp add: ex_lib_def)
  note g = xattr_get_whole [OF ex_facts(4,1) this]
  show ?thesis using g [of 2] g [of 3] by (simp add: ex_lib_def numeral_3_eq_3)
qed

theorem xattr_list_names_witness:
  "snd (nk_xattr_list ex_lib True ex_dir ''/a'' (\<lambda>xs. False)) = [''x'']"
  using xattr_list_names [OF ex_facts(1), of "\<lambda>xs. False"]
  by (auto simp: stopped_prefix_def ex_lib_def map_filter_simps to_ucs_def)


end
