(* ===== verification/Mkntfs_Options.thy ===== *)
theory Mkntfs_Options
  imports Prelude
begin

text \<open>
  The option parser of the formatter (\<^verbatim>\<open>mkntfs.c\<close>): \<open>mkntfs_parse_long\<close>, \<open>mkntfs_parse_llong\<close>,
  \<open>mkntfs_init_options\<close> and \<open>mkntfs_parse_options\<close>.

  \<^verbatim>\<open>strtol\<close> with base 0 is modelled as C defines it: leading white space, a sign, the prefix \<^verbatim>\<open>0x\<close> for
  hexadecimal and \<^verbatim>\<open>0\<close> for octal, saturation to the range of the type; it returns the value and the
  rest of the string. \<^verbatim>\<open>getopt_long\<close> delivers the options in order: \<open>opt_event\<close> is one round of the loop.
  Log output is not modelled.
\<close>

section \<open>Numbers\<close>

definition digit_val :: "char \<Rightarrow> nat" where
  "digit_val c =
     (let n = of_char c :: nat in
      if 48 \<le> n \<and> n \<le> 57 then n - 48
      else if 97 \<le> n \<and> n \<le> 122 then n - 87
      else if 65 \<le> n \<and> n \<le> 90 then n - 55
      else 99)"

definition is_space :: "char \<Rightarrow> bool" where
  "is_space c = (let n = of_char c :: nat in n = 32 \<or> 9 \<le> n \<and> n \<le> 13)"

fun digits :: "nat \<Rightarrow> nat \<Rightarrow> string \<Rightarrow> nat \<times> string" where
  "digits base acc [] = (acc, [])"
| "digits base acc (c # cs) =
     (if digit_val c < base then digits base (acc * base + digit_val c) cs else (acc, c # cs))"

definition saturate :: "int \<Rightarrow> int" where
  "saturate v = (if v > INT64_MAX then INT64_MAX else if v < - INT64_MAX - 1 then - INT64_MAX - 1 else v)"

text \<open>The digits after the sign; \<open>whole\<close> is the argument, returned as the rest when there is no digit.\<close>

definition strto_unsigned :: "string \<Rightarrow> string \<Rightarrow> nat \<times> string" where
  "strto_unsigned whole cs =
     (if cs \<noteq> [] \<and> hd cs = CHR ''0'' then
        if length cs \<ge> 3 \<and> (cs ! 1 = CHR ''x'' \<or> cs ! 1 = CHR ''X'') \<and> digit_val (cs ! 2) < 16
        then digits 16 0 (drop 2 cs) else digits 8 0 cs
      else if cs \<noteq> [] \<and> digit_val (hd cs) < 10 then digits 10 0 cs
      else (0, whole))"

text \<open>The value before saturation; outside the 64-bit range the C function also sets \<^verbatim>\<open>ERANGE\<close>.\<close>

definition strtol_raw :: "string \<Rightarrow> int \<times> string" where
  "strtol_raw s =
     (let t = dropWhile is_space s in
      if t \<noteq> [] \<and> hd t = CHR ''-'' then (case strto_unsigned s (tl t) of (v, r) \<Rightarrow> (- int v, r))
      else if t \<noteq> [] \<and> hd t = CHR ''+'' then (case strto_unsigned s (tl t) of (v, r) \<Rightarrow> (int v, r))
      else (case strto_unsigned s t of (v, r) \<Rightarrow> (int v, r)))"

definition strtol :: "string \<Rightarrow> int \<times> string" where
  "strtol s = (case strtol_raw s of (v, r) \<Rightarrow> (saturate v, r))"

text \<open>The value of a numeric option, \<open>-1\<close> while it is unset. \<open>None\<close> is the return value \<^verbatim>\<open>FALSE\<close>.\<close>

definition mkntfs_parse_long :: "string \<Rightarrow> int \<Rightarrow> int option" where
  "mkntfs_parse_long s num =
     (if num \<ge> 0 then None
      else case strtol s of (tmp, e) \<Rightarrow> if e \<noteq> [] then None else Some tmp)"

definition mkntfs_parse_llong :: "string \<Rightarrow> int \<Rightarrow> int option" where
  "mkntfs_parse_llong s num =
     (if num \<ge> 0 then None
      else case strtol s of (tmp, e) \<Rightarrow> if e \<noteq> [] then None else Some tmp)"

section \<open>Options\<close>

record mkntfs_options =
  dev_name :: "string option"
  enable_compression :: bool
  quick_format :: bool
  force :: bool
  heads :: int
  disable_indexing :: bool
  no_action :: bool
  part_start_sect :: int
  sector_size :: int
  sectors_per_track :: int
  use_epoch_time :: bool
  mft_zone_multiplier :: int
  num_sectors :: int
  opt_cluster_size :: int
  with_uuid :: bool
  opt_label :: "string option"

definition mkntfs_init_options :: mkntfs_options where
  "mkntfs_init_options = \<lparr>dev_name = None, enable_compression = False, quick_format = False, force = False,
     heads = -1, disable_indexing = False, no_action = False, part_start_sect = -1, sector_size = -1,
     sectors_per_track = -1, use_epoch_time = False, mft_zone_multiplier = -1, num_sectors = -1,
     opt_cluster_size = -1, with_uuid = False, opt_label = None\<rparr>"

text \<open>
  One result of \<^verbatim>\<open>getopt_long\<close>: a positional argument (code 1), an option with its letter and argument
  (long options come as their letter), or anything else, for which \<open>log\<close> says whether
  \<^verbatim>\<open>ntfs_log_parse_option\<close> takes it.
\<close>

datatype opt_event = Ev_arg string | Ev_opt char string | Ev_other bool

text \<open>The long options and their letters; \<open>True\<close> for those that take an argument.\<close>

definition lopt :: "(string \<times> bool \<times> char) list" where
  "lopt = [
     (''cluster-size'', True, CHR ''c''), (''debug'', False, CHR ''Z''),
     (''enable-compression'', False, CHR ''C''), (''fast'', False, CHR ''f''), (''force'', False, CHR ''F''),
     (''heads'', True, CHR ''H''), (''help'', False, CHR ''h''), (''label'', True, CHR ''L''),
     (''license'', False, CHR ''l''), (''mft-zone-multiplier'', True, CHR ''z''),
     (''no-action'', False, CHR ''n''), (''no-indexing'', False, CHR ''I''),
     (''partition-start'', True, CHR ''p''), (''quick'', False, CHR ''Q''), (''quiet'', False, CHR ''q''),
     (''sector-size'', True, CHR ''s''), (''sectors-per-track'', True, CHR ''S''),
     (''with-uuid'', False, CHR ''U''), (''verbose'', False, CHR ''v''), (''version'', False, CHR ''V''),
     (''zero-time'', False, CHR ''T'')]"

definition sopt :: string where
  "sopt = ''-c:CfFhH:IlL:np:qQs:S:TUvVz:''"

record parse_state =
  ps_opts :: mkntfs_options
  ps_err :: nat
  ps_help :: nat
  ps_lic :: nat
  ps_ver :: nat

text \<open>Store a parsed number with \<open>upd\<close>, or count an error.\<close>

definition num_opt ::
  "(string \<Rightarrow> int \<Rightarrow> int option) \<Rightarrow> string \<Rightarrow> (mkntfs_options \<Rightarrow> int) \<Rightarrow> (int \<Rightarrow> mkntfs_options \<Rightarrow> mkntfs_options) \<Rightarrow>
   parse_state \<Rightarrow> parse_state" where
  "num_opt parse arg get upd s =
     (case parse arg (get (ps_opts s)) of
        None \<Rightarrow> s\<lparr>ps_err := ps_err s + 1\<rparr>
      | Some v \<Rightarrow> s\<lparr>ps_opts := upd v (ps_opts s)\<rparr>)"

definition opt_switch :: "char \<Rightarrow> string \<Rightarrow> parse_state \<Rightarrow> parse_state" where
  "opt_switch c arg s =
     (let o1 = ps_opts s in
      if c = CHR ''C'' then s\<lparr>ps_opts := o1\<lparr>enable_compression := True\<rparr>\<rparr>
      else if c = CHR ''c'' then num_opt mkntfs_parse_long arg opt_cluster_size (\<lambda>v p. p\<lparr>opt_cluster_size := v\<rparr>) s
      else if c = CHR ''F'' then s\<lparr>ps_opts := o1\<lparr>force := True\<rparr>\<rparr>
      else if c = CHR ''f'' \<or> c = CHR ''Q'' then s\<lparr>ps_opts := o1\<lparr>quick_format := True\<rparr>\<rparr>
      else if c = CHR ''H'' then num_opt mkntfs_parse_long arg heads (\<lambda>v p. p\<lparr>heads := v\<rparr>) s
      else if c = CHR ''h'' then s\<lparr>ps_help := ps_help s + 1\<rparr>
      else if c = CHR ''I'' then s\<lparr>ps_opts := o1\<lparr>disable_indexing := True\<rparr>\<rparr>
      else if c = CHR ''L'' then
        (if opt_label o1 = None then s\<lparr>ps_opts := o1\<lparr>opt_label := Some arg\<rparr>\<rparr> else s\<lparr>ps_err := ps_err s + 1\<rparr>)
      else if c = CHR ''l'' then s\<lparr>ps_lic := ps_lic s + 1\<rparr>
      else if c = CHR ''n'' then s\<lparr>ps_opts := o1\<lparr>no_action := True\<rparr>\<rparr>
      else if c = CHR ''p'' then num_opt mkntfs_parse_llong arg part_start_sect (\<lambda>v p. p\<lparr>part_start_sect := v\<rparr>) s
      else if c = CHR ''q'' \<or> c = CHR ''v'' \<or> c = CHR ''Z'' then s
      else if c = CHR ''s'' then num_opt mkntfs_parse_long arg sector_size (\<lambda>v p. p\<lparr>sector_size := v\<rparr>) s
      else if c = CHR ''S'' then num_opt mkntfs_parse_long arg sectors_per_track (\<lambda>v p. p\<lparr>sectors_per_track := v\<rparr>) s
      else if c = CHR ''T'' then s\<lparr>ps_opts := o1\<lparr>use_epoch_time := True\<rparr>\<rparr>
      else if c = CHR ''U'' then s\<lparr>ps_opts := o1\<lparr>with_uuid := True\<rparr>\<rparr>
      else if c = CHR ''V'' then s\<lparr>ps_ver := ps_ver s + 1\<rparr>
      else if c = CHR ''z'' then
        num_opt mkntfs_parse_long arg mft_zone_multiplier (\<lambda>v p. p\<lparr>mft_zone_multiplier := v\<rparr>) s
      else s\<lparr>ps_err := ps_err s + 1\<rparr>)"

fun opt_step :: "opt_event \<Rightarrow> parse_state \<Rightarrow> parse_state" where
  "opt_step (Ev_arg a) s =
     (if dev_name (ps_opts s) = None then s\<lparr>ps_opts := (ps_opts s)\<lparr>dev_name := Some a\<rparr>\<rparr>
      else num_opt mkntfs_parse_llong a num_sectors (\<lambda>v p. p\<lparr>num_sectors := v\<rparr>) s)"
| "opt_step (Ev_opt c arg) s = opt_switch c arg s"
| "opt_step (Ev_other log) s = (if log then s else s\<lparr>ps_err := ps_err s + 1\<rparr>)"

text \<open>The result: \<open>1\<close> error, \<open>0\<close> nothing more to do, \<open>-1\<close> proceed, with the options.\<close>

definition mkntfs_parse_options :: "opt_event list \<Rightarrow> mkntfs_options \<Rightarrow> int \<times> mkntfs_options" where
  "mkntfs_parse_options evs o0 =
     (let s = fold opt_step evs \<lparr>ps_opts = o0, ps_err = 0, ps_help = 0, ps_lic = 0, ps_ver = 0\<rparr>;
          err = (if ps_err s = 0 \<and> ps_help s = 0 \<and> ps_ver s = 0 \<and> ps_lic s = 0 \<and> dev_name (ps_opts s) = None
                 then ps_err s + 1 else ps_err s)
      in (if err > 0 then 1 else if ps_help s > 0 \<or> ps_ver s > 0 \<or> ps_lic s > 0 then 0 else -1, ps_opts s))"

section \<open>What the parser guarantees\<close>

lemma saturate_range: "in_s64 (saturate v)"
  by (auto simp: saturate_def in_s64_def INT64_MAX_def)

lemma strtol_range: "in_s64 (fst (strtol s))"
  by (simp add: strtol_def saturate_range split: prod.splits)

text \<open>Decimal notation.\<close>

definition digit_char :: "nat \<Rightarrow> char" where
  "digit_char d = char_of (48 + d)"

fun dec :: "nat \<Rightarrow> string" where
  "dec n = (if n < 10 then [digit_char n] else dec (n div 10) @ [digit_char (n mod 10)])"

declare dec.simps [simp del]

lemma digit_val_char: "d < 10 \<Longrightarrow> digit_val (digit_char d) = d"
  by (simp add: digit_val_def digit_char_def Let_def)

lemma digits_append:
  "\<forall>c \<in> set cs. digit_val c < base \<Longrightarrow>
     digits base acc (cs @ ds) = digits base (fold (\<lambda>c a. a * base + digit_val c) cs acc) ds"
  by (induction cs arbitrary: acc) auto

lemma dec_digits: "\<forall>c \<in> set (dec n). digit_val c < 10"
  by (induction n rule: dec.induct) (subst dec.simps, auto simp: digit_val_char)

lemma dec_val: "fold (\<lambda>c a. a * 10 + digit_val c) (dec n) 0 = n"
proof (induction n rule: dec.induct)
  case (1 n)
  show ?case
  proof (cases "n < 10")
    case True
    then show ?thesis by (simp add: dec.simps [of n] digit_val_char)
  next
    case False
    with 1 show ?thesis by (simp add: dec.simps [of n] digit_val_char)
  qed
qed

lemma dec_first: "0 < n \<Longrightarrow> dec n \<noteq> [] \<and> hd (dec n) \<noteq> CHR ''0''"
proof (induction n rule: dec.induct)
  case (1 n)
  show ?case
  proof (cases "n < 10")
    case True
    have "digit_val (CHR ''0'') = 0" by (simp add: digit_val_def)
    with True "1.prems" digit_val_char [OF True] show ?thesis by (auto simp: dec.simps [of n])
  next
    case False
    with 1 show ?thesis by (simp add: dec.simps [of n])
  qed
qed

lemma digit_not_special: "digit_val c < 10 \<Longrightarrow> \<not> is_space c \<and> c \<noteq> CHR ''-'' \<and> c \<noteq> CHR ''+''"
  by (auto simp: digit_val_def is_space_def Let_def split: if_splits)

lemma digits_rest: "rest = [] \<or> base \<le> digit_val (hd rest) \<Longrightarrow> digits base acc rest = (acc, rest)"
  by (cases rest) auto

lemma strtol_raw_dec:
  assumes "0 < n" and "rest = [] \<or> 10 \<le> digit_val (hd rest)"
  shows "strtol_raw (dec n @ rest) = (int n, rest)"
proof -
  have ne: "dec n \<noteq> []" and h0: "hd (dec n) \<noteq> CHR ''0''" using dec_first [OF assms(1)] by auto
  have hd: "digit_val (hd (dec n)) < 10" using dec_digits [of n] ne by simp
  note sp = digit_not_special [OF hd]
  have "dropWhile is_space (dec n @ rest) = dec n @ rest" using sp ne by (cases "dec n") auto
  moreover have "digits 10 0 (dec n @ rest) = (n, rest)"
    using digits_append [OF dec_digits [of n], of 0 rest] digits_rest [OF assms(2)] by (simp add: dec_val)
  ultimately show ?thesis using sp ne h0 hd by (simp add: strtol_raw_def strto_unsigned_def Let_def)
qed

text \<open>
  a number in decimal notation is read back exactly, up to the largest 64-bit value; beyond it the
  value saturates.
\<close>

theorem parse_decimal:
  assumes "0 < n"
  shows "mkntfs_parse_long (dec n) (-1) = Some (min (int n) INT64_MAX)"
  using strtol_raw_dec [OF assms, of "[]"]
  by (simp add: strtol_def mkntfs_parse_long_def saturate_def INT64_MAX_def)

theorem parse_decimal_witness: "mkntfs_parse_long ''4096'' (-1) = Some 4096"
proof -
  have "dec 4096 = ''4096''" by code_simp
  with parse_decimal [of 4096] show ?thesis by (simp add: INT64_MAX_def)
qed

lemma opt_switch_err: "ps_err s \<le> ps_err (opt_switch c arg s)"
  by (simp add: opt_switch_def num_opt_def Let_def split: option.splits)

lemma opt_step_err: "ps_err s \<le> ps_err (opt_step ev s)"
  by (cases ev) (auto simp: num_opt_def opt_switch_err split: option.splits)

lemma fold_opt_err: "ps_err s \<le> ps_err (fold opt_step evs s)"
proof (induction evs arbitrary: s)
  case (Cons ev evs)
  from opt_step_err [of s ev] Cons.IH [of "opt_step ev s"] show ?case by simp
qed simp



text \<open>
  the arguments the bridge passes for a format (two spellings of force, quick, a label and the
  device) are accepted and give exactly these options, every number still unset.
\<close>

theorem format_arguments_accepted:
  "mkntfs_parse_options
     [Ev_opt CHR ''F'' [], Ev_opt CHR ''F'' [], Ev_opt CHR ''Q'' [], Ev_opt CHR ''L'' label, Ev_arg ''fskit-format'']
     mkntfs_init_options =
   (-1, mkntfs_init_options\<lparr>force := True, quick_format := True, opt_label := Some label,
          dev_name := Some ''fskit-format''\<rparr>)"
  by (simp add: mkntfs_parse_options_def opt_switch_def mkntfs_init_options_def Let_def)

end
