(* ===== verification/Utils.thy ===== *)
theory Utils
  imports Mkntfs_Options
begin

text \<open>
  The helpers of \<^verbatim>\<open>utils.c\<close>: device checks and mounting, sizes and ranges, path names of inodes, the
  cached bitmap look-ups, and the enumeration of MFT records.

  libntfs-3g and the system calls are arguments. The static buffers of the bitmap look-ups are an
  explicit cache that is passed and returned. The numbers of the system files are those of the NTFS
  on-disk format.
\<close>

section \<open>Checking and mounting a device\<close>

text \<open>\<open>mounted\<close>: \<open>None\<close> when it cannot be determined whether the device is mounted.\<close>

definition utils_valid_device :: "bool \<Rightarrow> bool option \<Rightarrow> bool \<Rightarrow> bool" where
  "utils_valid_device stat_ok mounted force_opt =
     (if \<not> stat_ok then False
      else case mounted of
        None \<Rightarrow> force_opt
      | Some m \<Rightarrow> if m then force_opt else True)"

text \<open>
  \<open>mount\<close> is \<^verbatim>\<open>ntfs_mount\<close>; \<open>dirty\<close> the dirty flag of the mounted volume. The result: the volume, if any, and
  whether a volume was mounted and given back.
\<close>

definition utils_mount_volume ::
  "bool \<Rightarrow> bool option \<Rightarrow> (bool \<Rightarrow> 'v option) \<Rightarrow> ('v \<Rightarrow> bool) \<Rightarrow> bool \<Rightarrow> 'v option \<times> bool" where
  "utils_mount_volume stat_ok mounted mount dirty recover =
     (if \<not> utils_valid_device stat_ok mounted recover then (None, False)
      else case mount recover of
        None \<Rightarrow> (None, False)
      | Some vol \<Rightarrow> if dirty vol \<and> \<not> recover then (None, True) else (Some vol, False))"

section \<open>Sizes and ranges\<close>

text \<open>The cases of the switch fall through from the largest unit to the smallest.\<close>

definition scale_steps :: "char \<Rightarrow> nat option" where
  "scale_steps c =
     (if c = CHR ''t'' \<or> c = CHR ''T'' then Some 4
      else if c = CHR ''g'' \<or> c = CHR ''G'' then Some 3
      else if c = CHR ''m'' \<or> c = CHR ''M'' then Some 2
      else if c = CHR ''k'' \<or> c = CHR ''K'' then Some 1
      else if c = CHR ''-'' then Some 0
      else None)"

definition scale_by :: "nat \<Rightarrow> int \<Rightarrow> int" where
  "scale_by k v = ((\<lambda>x. wrap64 (x * 1000)) ^^ k) v"

text \<open>\<open>erange\<close> is whether \<^verbatim>\<open>errno\<close> holds \<^verbatim>\<open>ERANGE\<close> from before: the code does not clear it.\<close>

definition utils_parse_size :: "bool \<Rightarrow> string \<Rightarrow> bool \<Rightarrow> int option" where
  "utils_parse_size erange val scale =
     (case strtol_raw val of
        (raw, suffix) \<Rightarrow>
          let r = saturate raw in
          if r < 0 \<or> \<not> in_s64 raw \<or> erange then None
          else if scale then
            (if suffix = [] then Some r
             else case scale_steps (hd suffix) of None \<Rightarrow> None | Some k \<Rightarrow> Some (scale_by k r))
          else if suffix \<noteq> [] \<and> hd suffix \<noteq> CHR ''-'' then None
          else Some r)"

definition utils_parse_range :: "bool \<Rightarrow> string \<Rightarrow> bool \<Rightarrow> (int \<times> int) option" where
  "utils_parse_range erange s scale =
     (let middle = dropWhile (\<lambda>c. c \<noteq> CHR ''-'') s in
      case (if s \<noteq> [] \<and> middle = s then Some 0 else utils_parse_size erange s scale) of
        None \<Rightarrow> None
      | Some a \<Rightarrow>
          if middle = [] then Some (a, a)
          else if tl middle = [] then Some (a, INT64_MAX)
          else case utils_parse_size erange (tl middle) scale of None \<Rightarrow> None | Some b \<Rightarrow> Some (a, b))"

section \<open>Path names\<close>

text \<open>A file-name attribute: its name space, parent directory and name; \<open>None\<close> if it has no translation.\<close>

record fname =
  fn_type :: nat
  fn_parent :: nat
  fn_name :: "string option"

record 'i names_of =
  no_file_names :: "'i \<Rightarrow> fname list"
  no_mft_no :: "'i \<Rightarrow> nat"
  no_open :: "nat \<Rightarrow> 'i option"
  no_mref :: "nat \<Rightarrow> nat"

definition FILE_root :: nat where
  "FILE_root = 5"

text \<open>The loop over the file-name attributes of an inode: the last one of the best name space wins.\<close>

fun pick_name :: "nat \<Rightarrow> fname list \<Rightarrow> nat \<times> nat \<times> string option \<Rightarrow> nat \<times> nat \<times> string option" where
  "pick_name mft [] acc = acc"
| "pick_name mft (f # fs) (space, parent, nm) =
     (if fn_type f > space then pick_name mft fs (space, parent, nm)
      else pick_name mft fs (fn_type f, fn_parent f,
             Some (case fn_name f of Some s \<Rightarrow> s | None \<Rightarrow> ''<MFT'' @ dec mft @ ''>'')))"

text \<open>Climb to the root; the first argument is the number of levels left.\<close>

fun climb :: "'i names_of \<Rightarrow> nat \<Rightarrow> 'i \<Rightarrow> nat \<Rightarrow> string option list \<Rightarrow> string option list option" where
  "climb lib 0 ino parent acc = None"
| "climb lib (Suc k) ino parent acc =
     (case pick_name (no_mft_no lib ino) (no_file_names lib ino) (4, parent, None) of
        (_, parent', nm) \<Rightarrow>
          let acc' = acc @ [nm] in
          if no_mref lib parent' = FILE_root then Some acc'
          else (case no_open lib parent' of
                  None \<Rightarrow> Some acc'
                | Some ino' \<Rightarrow> climb lib k ino' parent' acc'))"

text \<open>\<^verbatim>\<open>snprintf\<close> of each name behind the previous ones; a name that does not fit is cut and ends the loop.\<close>

fun assemble :: "nat \<Rightarrow> string option list \<Rightarrow> string \<Rightarrow> string" where
  "assemble bufsize [] out = out"
| "assemble bufsize (None # ns) out = assemble bufsize ns out"
| "assemble bufsize (Some n # ns) out =
     (let piece = CHR ''/'' # n in
      if length piece \<ge> bufsize - length out then out @ take (bufsize - length out - 1) piece
      else assemble bufsize ns (out @ piece))"

definition utils_inode_get_name :: "'i names_of \<Rightarrow> 'i \<Rightarrow> nat \<Rightarrow> string option" where
  "utils_inode_get_name lib ino bufsize =
     (case climb lib 20 ino FILE_root [] of
        None \<Rightarrow> None
      | Some names \<Rightarrow> Some (assemble bufsize (rev names) []))"

section \<open>Cached bitmap look-ups\<close>

text \<open>
  512 bytes of a bitmap and the number of their first bit. \<open>pread\<close> reads up to 512 bytes at an offset;
  \<open>None\<close> is a failed read. A short read leaves the filled bytes behind what was read.
\<close>

record bmp_cache =
  bc_buffer :: "byte list"
  bc_first :: int

definition overlay :: "byte list \<Rightarrow> byte list \<Rightarrow> byte list" where
  "overlay new old = take (length old) new @ drop (length new) old"

definition bit_of :: "byte list \<Rightarrow> int \<Rightarrow> int" where
  "bit_of buf n = uint ((buf ! nat (n div 8 mod 512)) AND push_bit (nat (n mod 8)) 1)"

text \<open>\<open>k\<close> is the number the range check uses, \<open>n\<close> the one the bit is taken of.\<close>

definition bitmap_lookup ::
  "byte \<Rightarrow> (int \<Rightarrow> byte list option) \<Rightarrow> bmp_cache \<Rightarrow> int \<Rightarrow> int \<Rightarrow> int \<times> bmp_cache" where
  "bitmap_lookup fill pread c k n =
     (if k < bc_first c \<or> k \<ge> bc_first c + 4096 then
        let first = n div 4096 * 4096;
            blank = replicate 512 fill
        in (case pread (first div 8) of
              None \<Rightarrow> (-1, \<lparr>bc_buffer = blank, bc_first = first\<rparr>)
            | Some bs \<Rightarrow> (bit_of (overlay bs blank) n, \<lparr>bc_buffer = overlay bs blank, bc_first = first\<rparr>))
      else (bit_of (bc_buffer c) n, c))"

definition cluster_cache0 :: bmp_cache where
  "cluster_cache0 = \<lparr>bc_buffer = replicate 512 0, bc_first = -4096\<rparr>"

definition mftrec_cache0 :: bmp_cache where
  "mftrec_cache0 = \<lparr>bc_buffer = replicate 512 0, bc_first = -4097\<rparr>"

text \<open>\<open>open_ok\<close>: whether the attribute of \<^verbatim>\<open>$Bitmap\<close> can be opened when it is needed.\<close>

definition utils_cluster_in_use :: "bool \<Rightarrow> (int \<Rightarrow> byte list option) \<Rightarrow> bmp_cache \<Rightarrow> int \<Rightarrow> int \<times> bmp_cache" where
  "utils_cluster_in_use open_ok pread c lcn =
     (if (lcn < bc_first c \<or> lcn \<ge> bc_first c + 4096) \<and> \<not> open_ok then (-1, c)
      else bitmap_lookup 255 pread c lcn lcn)"

text \<open>
  The range check takes the record number out of the reference, its low 48 bits; the section that is
  read and the bit are those of the whole reference.
\<close>

definition MREF :: "int \<Rightarrow> int" where
  "MREF m = m mod 2 ^ 48"

definition utils_mftrec_in_use :: "(int \<Rightarrow> byte list option) \<Rightarrow> bmp_cache \<Rightarrow> int \<Rightarrow> int \<times> bmp_cache" where
  "utils_mftrec_in_use pread c mref = bitmap_lookup 0 pread c (MREF mref) mref"

section \<open>Metadata files\<close>

definition FILE_UpCase :: nat where
  "FILE_UpCase = 10"

definition FILE_Extend :: nat where
  "FILE_Extend = 11"

definition metadata :: "nat \<Rightarrow> nat \<Rightarrow> bool" where
  "metadata major num \<longleftrightarrow> num \<le> FILE_UpCase \<or> major = 3 \<and> num = FILE_Extend"

text \<open>
  \<open>base\<close> is the base record of an extent record, \<open>parent\<close> the parent directory of the
  first file-name attribute, if there is one.
\<close>

definition utils_is_metadata :: "nat \<Rightarrow> nat \<Rightarrow> nat option \<Rightarrow> nat option \<Rightarrow> int" where
  "utils_is_metadata major num base parent =
     (if metadata major num then 1
      else if (case base of None \<Rightarrow> False | Some b \<Rightarrow> metadata major b) then 1
      else case parent of
        None \<Rightarrow> -1
      | Some p \<Rightarrow> if p \<noteq> FILE_root \<and> metadata major p then 1 else 0)"

section \<open>What the parsers accept\<close>

lemma scale_by_exact:
  assumes "0 \<le> v" and "v * 1000 ^ k \<le> INT64_MAX"
  shows "scale_by k v = v * 1000 ^ k"
  using assms
proof (induction k)
  case 0
  then show ?case by (simp add: scale_by_def)
next
  case (Suc k)
  have "v * 1000 ^ k \<le> v * 1000 ^ Suc k" using Suc.prems(1) by simp
  with Suc have "scale_by k v = v * 1000 ^ k" by simp
  then have "scale_by (Suc k) v = wrap64 (v * 1000 ^ Suc k)" by (simp add: scale_by_def algebra_simps)
  moreover have "- (2 ^ 63) \<le> v * 1000 ^ Suc k" using Suc.prems(1) by (rule order_trans [rotated, OF mult_nonneg_nonneg]) simp_all
  ultimately show ?case using Suc.prems by (simp add: wrap64_id INT64_MAX_def)
qed

lemma parse_size_dec:
  assumes "0 < n" and "int n \<le> INT64_MAX" and "rest = [] \<or> 10 \<le> digit_val (hd rest)"
  shows "utils_parse_size False (dec n @ rest) scale =
    (if rest = [] then Some (int n)
     else if scale then map_option (\<lambda>k. scale_by k (int n)) (scale_steps (hd rest))
     else if hd rest = CHR ''-'' then Some (int n) else None)"
  using strtol_raw_dec [OF assms(1,3)] assms(2)
  by (auto simp: utils_parse_size_def saturate_def in_s64_def Let_def split: option.splits)

lemma unit_not_digit: "scale_steps c = Some k \<Longrightarrow> 10 \<le> digit_val c"
proof -
  assume "scale_steps c = Some k"
  then have "c \<in> set ''tTgGmMkK-''" unfolding scale_steps_def by (auto split: if_splits)
  then show ?thesis by (simp, elim disjE) (simp_all add: digit_val_def)
qed

text \<open>
  a size is read as its suffix says: the decimal notation of a number with a unit letter gives the
  number times the power of thousand, as long as the result fits 64 bits.
\<close>

theorem parse_size_scaled:
  assumes "0 < n" and "scale_steps c = Some k" and "int n * 1000 ^ k \<le> INT64_MAX"
  shows "utils_parse_size False (dec n @ [c]) True = Some (int n * 1000 ^ k)"
proof -
  have c: "[c] = [] \<or> 10 \<le> digit_val (hd [c])" using unit_not_digit [OF assms(2)] by simp
  have "int n * 1 \<le> int n * 1000 ^ k" by (rule mult_left_mono) simp_all
  then have n: "int n \<le> INT64_MAX" using assms(3) by linarith
  have "scale_by k (int n) = int n * 1000 ^ k" by (rule scale_by_exact [OF _ assms(3)]) simp
  then show ?thesis using parse_size_dec [OF assms(1) n c, of True] assms(2) by (simp del: power_Suc)
qed

theorem parse_size_scaled_witness: "utils_parse_size False ''25G'' True = Some 25000000000"
proof -
  have d: "dec 25 = ''25''" by code_simp
  have "scale_steps CHR ''G'' = Some 3" by (simp add: scale_steps_def)
  from parse_size_scaled [OF _ this, of 25] show ?thesis by (simp add: d INT64_MAX_def)
qed

lemma dec_no_dash: "CHR ''-'' \<notin> set (dec n)"
  using dec_digits [of n] by (auto simp: digit_val_def Let_def)

lemma drop_to_dash: "dropWhile (\<lambda>c. c \<noteq> CHR ''-'') (dec n @ CHR ''-'' # s) = CHR ''-'' # s"
  using dec_no_dash [of n] by (subst dropWhile_append2) auto

text \<open>
  a range is read back: two numbers in decimal notation with a dash between them give the two
  numbers, one without a dash gives itself twice, and a missing end is the largest number.
\<close>

theorem parse_range_roundtrip:
  assumes "0 < a" and "int a \<le> INT64_MAX" and "0 < b" and "int b \<le> INT64_MAX"
  shows "utils_parse_range False (dec a @ ''-'' @ dec b) scale = Some (int a, int b) \<and>
    utils_parse_range False (dec a) scale = Some (int a, int a) \<and>
    utils_parse_range False (dec a @ ''-'') scale = Some (int a, INT64_MAX)"
proof -
  have na: "dec a \<noteq> []" and nb: "dec b \<noteq> []" using dec_first assms(1,3) by blast+
  have "hd (dec a) \<noteq> CHR ''-''" using hd_in_set [OF na] dec_no_dash [of a] by metis
  note na = na this
  have dash: "10 \<le> digit_val CHR ''-''" "scale_steps CHR ''-'' = Some 0" by (simp_all add: digit_val_def scale_steps_def)
  have A: "utils_parse_size False (dec a @ CHR ''-'' # s) scale = Some (int a)" for s
    using parse_size_dec [OF assms(1,2), of "CHR ''-'' # s" scale] dash by (simp add: scale_by_def)
  have D: "dropWhile (\<lambda>c. c \<noteq> CHR ''-'') (dec a) = []" using dec_no_dash [of a] by auto
  have N: "CHR ''-'' # s \<noteq> dec a @ CHR ''-'' # t" for s t using na by (cases "dec a") auto
  show ?thesis
    using A parse_size_dec [OF assms(1,2), of "[]" scale] parse_size_dec [OF assms(3,4), of "[]" scale] na nb N
    by (simp add: utils_parse_range_def Let_def drop_to_dash D)
qed

theorem parse_range_roundtrip_witness: "utils_parse_range False ''3-12'' True = Some (3, 12)"
proof -
  have d: "dec 3 = ''3''" "dec 12 = ''12''" by code_simp+
  from parse_range_roundtrip [of 3 12 True] show ?thesis by (simp add: d INT64_MAX_def)
qed

text \<open>A scaled value that overflows is accepted and comes out negative.\<close>

lemma parse_size_overflow: "utils_parse_size False (dec 10000000 @ ''T'') True = Some (-8446744073709551616)"
proof -
  have "scale_by 4 10000000 = -8446744073709551616"
    by (simp add: scale_by_def numeral_eq_Suc wrap64_def signed_take_bit_eq_take_bit_shift take_bit_eq_mod)
  then show ?thesis
    using parse_size_dec [of 10000000 "''T''" True] by (simp add: INT64_MAX_def digit_val_def scale_steps_def)
qed


section \<open>Path names fit their buffer\<close>

fun joined :: "string option list \<Rightarrow> string" where
  "joined [] = []"
| "joined (None # ns) = joined ns"
| "joined (Some n # ns) = CHR ''/'' # n @ joined ns"

lemma assemble_prefix:
  assumes "length out < bufsize"
  shows "assemble bufsize ns out = take (bufsize - 1) (out @ joined ns)"
  using assms
proof (induction bufsize ns out rule: assemble.induct)
  case (3 bufsize n ns out)
  show ?case
  proof (cases "length (CHR ''/'' # n) \<ge> bufsize - length out")
    case True
    have "take (bufsize - 1) (out @ joined (Some n # ns)) = out @ take (bufsize - 1 - length out) ((CHR ''/'' # n) @ joined ns)"
      using "3.prems" by simp
    moreover have "take (bufsize - 1 - length out) ((CHR ''/'' # n) @ joined ns) = take (bufsize - length out - 1) (CHR ''/'' # n)"
      using True by (subst take_append) simp
    ultimately show ?thesis using True by (simp add: Let_def)
  next
    case False
    with 3 show ?thesis by (simp add: Let_def)
  qed
qed simp_all

text \<open>
  the path name of an inode is the names on the way from the root, each behind a slash, cut to what
  fits the buffer with its terminator; more than twenty levels, and with them every cycle of parents,
  are an error.
\<close>

theorem inode_path_name:
  assumes "0 < bufsize"
  shows "(case climb lib 20 ino FILE_root [] of
       None \<Rightarrow> utils_inode_get_name lib ino bufsize = None
     | Some names \<Rightarrow> length names \<le> 20 \<and>
         utils_inode_get_name lib ino bufsize = Some (take (bufsize - 1) (joined (rev names))))"
proof -
  have "length names \<le> length acc + k" if "climb lib k i p acc = Some names" for k i p acc names
    using that
  proof (induction k arbitrary: i p acc)
    case (Suc k)
    obtain sp parent nm where pn: "pick_name (no_mft_no lib i) (no_file_names lib i) (4, p, None) = (sp, parent, nm)"
      by (metis prod_cases3)
    from Suc.prems Suc.IH [of _ parent "acc @ [nm]"] show ?case
      by (force simp: pn Let_def split: if_splits option.splits)
  qed simp
  from this [of 20 ino FILE_root "[]"] show ?thesis
    using assms by (auto simp: utils_inode_get_name_def assemble_prefix split: option.splits)
qed

theorem inode_path_name_witness:
  "utils_inode_get_name \<lparr>no_file_names = (\<lambda>i. if i = 40 then [\<lparr>fn_type = 1, fn_parent = 39, fn_name = Some ''b''\<rparr>]
       else [\<lparr>fn_type = 1, fn_parent = 5, fn_name = Some ''a''\<rparr>]), no_mft_no = (\<lambda>i. i), no_open = Some, no_mref = (\<lambda>m. m)\<rparr>
     (40 :: nat) 4 = Some ''/a/''"
  using inode_path_name [of 4 "\<lparr>no_file_names = (\<lambda>i. if i = 40 then [\<lparr>fn_type = 1, fn_parent = 39, fn_name = Some ''b''\<rparr>]
       else [\<lparr>fn_type = 1, fn_parent = 5, fn_name = Some ''a''\<rparr>]), no_mft_no = (\<lambda>i. i), no_open = Some, no_mref = (\<lambda>m. m)\<rparr>"
     "40 :: nat"]
  by (simp add: numeral_eq_Suc FILE_root_def Let_def)

section \<open>The cache is transparent\<close>

text \<open>The bitmap file as bytes, and the answer read from it without a cache.\<close>

definition reads_file :: "byte list \<Rightarrow> (int \<Rightarrow> byte list option) \<Rightarrow> bool" where
  "reads_file file pread \<longleftrightarrow> (\<forall>off \<ge> 0. pread off = Some (take 512 (drop (nat off) file)))"

definition direct :: "byte \<Rightarrow> byte list \<Rightarrow> int \<Rightarrow> int" where
  "direct fill file n =
     uint ((if nat (n div 8) < length file then file ! nat (n div 8) else fill) AND push_bit (nat (n mod 8)) 1)"

definition cache_ok :: "byte \<Rightarrow> byte list \<Rightarrow> bmp_cache \<Rightarrow> bool" where
  "cache_ok fill file c \<longleftrightarrow> bc_first c < -4095 \<or>
     0 \<le> bc_first c \<and> bc_first c mod 4096 = 0 \<and> length (bc_buffer c) = 512 \<and>
     (\<forall>i < 512. bc_buffer c ! i =
        (if nat (bc_first c div 8) + i < length file then file ! (nat (bc_first c div 8) + i) else fill))"

lemma nth_overlay:
  assumes "length new \<le> length old" and "i < length old"
  shows "overlay new old ! i = (if i < length new then new ! i else old ! i)"
  using assms by (simp add: overlay_def nth_append)

lemma bit_of_cached:
  assumes "cache_ok fill file c" and "0 \<le> bc_first c" and "bc_first c \<le> n" and "n < bc_first c + 4096"
  shows "bit_of (bc_buffer c) n = direct fill file n"
proof -
  have c: "bc_first c mod 4096 = 0" "\<And>i. i < 512 \<Longrightarrow> bc_buffer c ! i =
      (if nat (bc_first c div 8) + i < length file then file ! (nat (bc_first c div 8) + i) else fill)"
    using assms(1,2) by (auto simp: cache_ok_def)
  obtain q where q: "bc_first c = 4096 * q" using c(1) by auto
  define r where "r = n - 4096 * q"
  have r: "0 \<le> r" "r < 4096" "n = 8 * (512 * q) + r" using assms(3,4) q by (auto simp: r_def)
  have d: "n div 8 = 512 * q + r div 8" using r(3) by simp
  have r8: "0 \<le> r div 8" "r div 8 < 512" using r(1,2) by auto
  have m: "n div 8 mod 512 = r div 8" unfolding d using r8 by simp
  have "0 \<le> q" using assms(2) q by simp
  then have e: "nat (bc_first c div 8) + nat (r div 8) = nat (n div 8)" unfolding d q using r8 by simp
  have "nat (r div 8) < 512" using r8 by simp
  from c(2) [OF this] show ?thesis by (simp add: bit_of_def direct_def m e)
qed

lemma lookup_step:
  assumes "reads_file file pread" and "cache_ok fill file c" and "0 \<le> n" and "bitmap_lookup fill pread c n n = (r, c')"
  shows "r = direct fill file n" "cache_ok fill file c'"
proof -
  have "r = direct fill file n \<and> cache_ok fill file c'"
  proof (cases "n < bc_first c \<or> n \<ge> bc_first c + 4096")
    case True
    define first where "first = n div 4096 * 4096"
    define buf where "buf = overlay (take 512 (drop (nat (first div 8)) file)) (replicate 512 fill)"
    have f: "0 \<le> first" "first mod 4096 = 0" "first \<le> n" "n < first + 4096"
      using assms(3) unfolding first_def by (simp_all add: pos_imp_zdiv_nonneg_iff)
    have "0 \<le> first div 8" using f(1) by simp
    then have rd: "pread (first div 8) = Some (take 512 (drop (nat (first div 8)) file))"
      using assms(1) by (simp add: reads_file_def)
    define cc where "cc = \<lparr>bc_buffer = buf, bc_first = first\<rparr>"
    have res: "r = bit_of buf n" "c' = cc"
      using assms(4) True rd by (simp_all add: bitmap_lookup_def Let_def first_def buf_def cc_def)
    have "length buf = 512" by (simp add: buf_def overlay_def)
    moreover have "buf ! i = (if nat (first div 8) + i < length file then file ! (nat (first div 8) + i) else fill)"
      if "i < 512" for i
      using that by (auto simp: buf_def nth_overlay)
    ultimately have ok: "cache_ok fill file cc" using f by (simp add: cache_ok_def cc_def)
    from bit_of_cached [OF ok, of n] f res ok show ?thesis by (simp add: cc_def)
  next
    case False
    then have "r = bit_of (bc_buffer c) n" "c' = c" using assms(4) by (auto simp: bitmap_lookup_def)
    moreover have "0 \<le> bc_first c" using False assms(2,3) by (auto simp: cache_ok_def)
    ultimately show ?thesis using bit_of_cached [OF assms(2)] False assms(2) by auto
  qed
  then show "r = direct fill file n" "cache_ok fill file c'" by auto
qed

text \<open>A sequence of look-ups on one cache.\<close>

fun lookups :: "(bmp_cache \<Rightarrow> int \<Rightarrow> int \<times> bmp_cache) \<Rightarrow> bmp_cache \<Rightarrow> int list \<Rightarrow> int list" where
  "lookups look c [] = []"
| "lookups look c (n # ns) = (case look c n of (r, c') \<Rightarrow> r # lookups look c' ns)"

lemma lookups_direct:
  assumes "reads_file file pread" and "cache_ok fill file c" and "\<forall>n \<in> set ns. 0 \<le> n"
  shows "lookups (\<lambda>c n. bitmap_lookup fill pread c n n) c ns = map (direct fill file) ns"
  using assms(2,3)
proof (induction ns arbitrary: c)
  case (Cons n ns)
  obtain r c' where l: "bitmap_lookup fill pread c n n = (r, c')" by fastforce
  from lookup_step [OF assms(1) Cons.prems(1) _ l] Cons show ?case by (simp add: l)
qed simp

lemma lookups_cong:
  assumes "\<And>c n. n \<in> set ns \<Longrightarrow> look c n = look' c n"
  shows "lookups look c ns = lookups look' c ns"
  using assms by (induction ns arbitrary: c) (auto split: prod.splits)

lemma mftrec_lookup:
  assumes "0 \<le> n" and "n < 2 ^ 48"
  shows "utils_mftrec_in_use pread c n = bitmap_lookup 0 pread c n n"
  using assms by (simp add: utils_mftrec_in_use_def MREF_def)



text \<open>
  After a failed read the cache counts as filled: a second question in the same section is answered
  without an error, unused for a record.
\<close>

lemma failed_read_poisons:
  assumes "0 \<le> n" and "n < 2 ^ 48" and "\<forall>off. pread off = None"
  shows "\<exists>c. utils_mftrec_in_use pread mftrec_cache0 n = (-1, c) \<and> utils_mftrec_in_use pread c n = (0, c)"
proof -
  define first where "first = n div 4096 * 4096"
  have f: "first \<le> n" "n < first + 4096" unfolding first_def by presburger+
  have "nat (n div 8 mod 512) < 512" by simp
  then have "bit_of (replicate 512 0) n = 0" by (simp add: bit_of_def)
  then show ?thesis
    using assms f by (simp add: mftrec_lookup bitmap_lookup_def mftrec_cache0_def first_def [symmetric])
qed

end
