(* ===== verification/Mft_Search.thy ===== *)
theory Mft_Search
  imports Utils
begin

text \<open>
  The enumeration of MFT records of \<^verbatim>\<open>utils.c\<close>: \<^verbatim>\<open>mft_get_search_ctx\<close>, \<^verbatim>\<open>mft_next_record\<close> and
  \<^verbatim>\<open>mft_put_search_ctx\<close> on the search context of \<^verbatim>\<open>utils.h\<close>. The context carries, besides the fields of the
  code, the static cache of \<^verbatim>\<open>utils_mftrec_in_use\<close> and the list of the inodes that were given back.
\<close>

section \<open>The search context\<close>

datatype femr =
    FEMR_IN_USE | FEMR_NOT_IN_USE | FEMR_FILE | FEMR_DIR | FEMR_METADATA | FEMR_NOT_METADATA
  | FEMR_BASE_RECORD | FEMR_NOT_BASE_RECORD

text \<open>
  How the inode of an unused record is made by hand: no memory for it; no memory for its record, when
  the inode is freed again; the record could not be read; or the inode.
\<close>

datatype 'i blank_inode = No_Inode | No_Record 'i | Unread 'i | Blank 'i

text \<open>
  What the engine says of records: \<open>so_open\<close> fails for extent records and unreadable ones, \<open>so_is_dir\<close> when
  there is no memory for a search context, \<open>so_close\<close> returns zero or an error code.
\<close>

record 'i mft_search_lib =
  so_pread :: "int \<Rightarrow> byte list option"
  so_open :: "int \<Rightarrow> 'i option"
  so_has_std_info :: "'i \<Rightarrow> bool"
  so_has_attr_list :: "'i \<Rightarrow> bool"
  so_has_data :: "'i \<Rightarrow> bool"
  so_is_dir :: "'i \<Rightarrow> bool option"
  so_metadata :: "'i \<Rightarrow> int"
  so_blank :: "int \<Rightarrow> 'i blank_inode"
  so_close :: "'i \<Rightarrow> int"

record 'i mft_search_ctx =
  flags_search :: "femr set"
  flags_match :: "femr set"
  ctx_inode :: "'i option"
  mft_num :: int
  ctx_cache :: bmp_cache
  ctx_closed :: "'i list"

definition mft_get_search_ctx :: "bmp_cache \<Rightarrow> 'i mft_search_ctx" where
  "mft_get_search_ctx cache =
     \<lparr>flags_search = {}, flags_match = {}, ctx_inode = None, mft_num = -1, ctx_cache = cache, ctx_closed = []\<rparr>"

definition give_back :: "'i option \<Rightarrow> 'i mft_search_ctx \<Rightarrow> 'i mft_search_ctx" where
  "give_back i ctx = (case i of None \<Rightarrow> ctx | Some x \<Rightarrow> ctx\<lparr>ctx_closed := ctx_closed ctx @ [x]\<rparr>)"

text \<open>Releasing the context closes the inode it holds: the inodes given back in its life.\<close>

definition mft_put_search_ctx :: "'i mft_search_ctx \<Rightarrow> 'i list" where
  "mft_put_search_ctx ctx = ctx_closed (give_back (ctx_inode ctx) ctx)"

section \<open>The next record\<close>

text \<open>The kinds seen from the attributes of the record, and then those of the index and the metadata check;
  \<open>None\<close> when the search context for the directory index cannot be created.\<close>

definition attr_flags :: "'i mft_search_lib \<Rightarrow> 'i \<Rightarrow> femr set" where
  "attr_flags lib ino =
     {FEMR_IN_USE} \<union>
     (if so_has_std_info lib ino then {FEMR_BASE_RECORD} else {FEMR_NOT_BASE_RECORD}) \<union>
     (if so_has_attr_list lib ino then {FEMR_BASE_RECORD} else {}) \<union>
     (if so_has_data lib ino then {FEMR_FILE} else {})"

definition in_use_flags :: "'i mft_search_lib \<Rightarrow> femr set \<Rightarrow> 'i \<Rightarrow> femr set option" where
  "in_use_flags lib search ino =
     (let meta = (if so_metadata lib ino = 1 then {FEMR_METADATA} else {FEMR_NOT_METADATA})
      in if FEMR_DIR \<in> search then
           (case so_is_dir lib ino of
              None \<Rightarrow> None
            | Some d \<Rightarrow> Some (attr_flags lib ino \<union> (if d then {FEMR_DIR} else {}) \<union> meta))
         else Some (attr_flags lib ino \<union> meta))"

text \<open>One round of the loop: stop with a result, or go on to the next record.\<close>

datatype 'i search_round = Stop int "'i mft_search_ctx" | Continue "'i mft_search_ctx"

definition match_or_close :: "'i mft_search_lib \<Rightarrow> 'i \<Rightarrow> femr set \<Rightarrow> 'i mft_search_ctx \<Rightarrow> 'i search_round" where
  "match_or_close lib ino fl ctx =
     (let c = ctx\<lparr>flags_match := fl, ctx_inode := Some ino\<rparr> in
      if fl \<inter> flags_search ctx \<noteq> {} then Stop 0 c
      else if so_close lib ino \<noteq> 0 then Stop (- so_close lib ino) (give_back (Some ino) c)
      else Continue ((give_back (Some ino) c)\<lparr>ctx_inode := None\<rparr>))"

definition search_round :: "'i mft_search_lib \<Rightarrow> 'i mft_search_ctx \<Rightarrow> 'i search_round" where
  "search_round lib ctx =
     (case utils_mftrec_in_use (so_pread lib) (ctx_cache ctx) (mft_num ctx) of
        (used, cache) \<Rightarrow>
          let c = ctx\<lparr>ctx_cache := cache, flags_match := {}\<rparr>;
              unused = c\<lparr>flags_match := {FEMR_NOT_IN_USE}\<rparr> in
          if used = -1 then Stop (-1) c
          else if used \<noteq> 0 then
            (case so_open lib (mft_num c) of
               None \<Rightarrow> Continue (c\<lparr>flags_match := {FEMR_IN_USE}, ctx_inode := None\<rparr>)
             | Some ino \<Rightarrow>
                 (case in_use_flags lib (flags_search c) ino of
                    None \<Rightarrow> Stop (-1) (c\<lparr>flags_match := attr_flags lib ino, ctx_inode := Some ino\<rparr>)
                  | Some fl \<Rightarrow> match_or_close lib ino fl c))
          else
            (case so_blank lib (mft_num c) of
               No_Inode \<Rightarrow> Stop (-1) (unused\<lparr>ctx_inode := None\<rparr>)
             | No_Record ino \<Rightarrow> Stop (-1) (give_back (Some ino) (unused\<lparr>ctx_inode := Some ino\<rparr>))
             | Unread ino \<Rightarrow> Stop (-1) (unused\<lparr>ctx_inode := Some ino\<rparr>)
             | Blank ino \<Rightarrow> match_or_close lib ino {FEMR_NOT_IN_USE} c))"

text \<open>
  The loop; \<open>nr\<close> is the number of initialised records. When it runs out the result is \<open>1\<close> if there is no inode.
\<close>

function next_record_from :: "'i mft_search_lib \<Rightarrow> int \<Rightarrow> 'i mft_search_ctx \<Rightarrow> int \<times> 'i mft_search_ctx" where
  "next_record_from lib nr ctx =
     (if mft_num ctx < nr then
        (case search_round lib ctx of
           Stop r c \<Rightarrow> (r, c)
         | Continue c \<Rightarrow> next_record_from lib nr (c\<lparr>mft_num := mft_num ctx + 1\<rparr>))
      else (if ctx_inode ctx = None then 1 else 0, ctx))"
  by pat_completeness auto
termination by (relation "measure (\<lambda>(lib, nr, ctx). nat (nr - mft_num ctx))") auto

declare next_record_from.simps [simp del]

definition mft_next_record :: "'i mft_search_lib \<Rightarrow> int \<Rightarrow> 'i mft_search_ctx \<Rightarrow> int \<times> 'i mft_search_ctx" where
  "mft_next_record lib nr ctx =
     next_record_from lib nr ((give_back (ctx_inode ctx) ctx)\<lparr>ctx_inode := None, mft_num := mft_num ctx + 1\<rparr>)"

section \<open>It finds the next record that matches\<close>

lemma give_back_sel [simp]:
  "flags_search (give_back i c) = flags_search c" "flags_match (give_back i c) = flags_match c"
  "ctx_inode (give_back i c) = ctx_inode c" "mft_num (give_back i c) = mft_num c" "ctx_cache (give_back i c) = ctx_cache c"
  "ctx_closed (give_back i c) = ctx_closed c @ (case i of None \<Rightarrow> [] | Some x \<Rightarrow> [x])"
  by (simp_all add: give_back_def split: option.splits)

text \<open>The kinds a record falls under, read from the bitmap file; \<open>None\<close> for a record that is skipped.\<close>

definition record_flags :: "'i mft_search_lib \<Rightarrow> byte list \<Rightarrow> femr set \<Rightarrow> int \<Rightarrow> femr set option" where
  "record_flags lib file search n =
     (if direct 0 file n = 0 then Some {FEMR_NOT_IN_USE}
      else case so_open lib n of None \<Rightarrow> None | Some ino \<Rightarrow> in_use_flags lib search ino)"

definition record_matches :: "'i mft_search_lib \<Rightarrow> byte list \<Rightarrow> femr set \<Rightarrow> int \<Rightarrow> bool" where
  "record_matches lib file search n =
     (case record_flags lib file search n of None \<Rightarrow> False | Some fl \<Rightarrow> fl \<inter> search \<noteq> {})"

text \<open>No step of the search fails.\<close>

definition search_quiet :: "'i mft_search_lib \<Rightarrow> byte list \<Rightarrow> bool" where
  "search_quiet lib file \<longleftrightarrow> reads_file file (so_pread lib) \<and> (\<forall>i. so_close lib i = 0) \<and>
     (\<forall>i. so_is_dir lib i \<noteq> None) \<and> (\<forall>n. \<exists>i. so_blank lib n = Blank i)"

lemma round_cases:
  assumes "search_quiet lib file" and "cache_ok 0 file (ctx_cache ctx)" and "0 \<le> mft_num ctx" and "mft_num ctx < 2 ^ 48"
    and "ctx_inode ctx = None"
  shows "if record_matches lib file (flags_search ctx) (mft_num ctx)
    then \<exists>c i. search_round lib ctx = Stop 0 c \<and> ctx_inode c = Some i \<and> mft_num c = mft_num ctx \<and>
      flags_search c = flags_search ctx \<and> record_flags lib file (flags_search ctx) (mft_num ctx) = Some (flags_match c) \<and>
      cache_ok 0 file (ctx_cache c)
    else \<exists>c. search_round lib ctx = Continue c \<and> ctx_inode c = None \<and> flags_search c = flags_search ctx \<and>
      cache_ok 0 file (ctx_cache c)"
proof -
  obtain used cache where l: "bitmap_lookup 0 (so_pread lib) (ctx_cache ctx) (mft_num ctx) (mft_num ctx) = (used, cache)"
    by fastforce
  have rf: "reads_file file (so_pread lib)" using assms(1) by (simp add: search_quiet_def)
  note st = lookup_step [OF rf assms(2,3) l]
  have u: "used \<noteq> -1" using st(1) by (simp add: direct_def) (metis (no_types) uint_nonnegative neg_0_le_iff_le not_one_le_zero)
  have mo: "if fl \<inter> flags_search ctx \<noteq> {}
      then \<exists>c i. match_or_close lib ino fl (ctx\<lparr>ctx_cache := cache, flags_match := {}\<rparr>) = Stop 0 c \<and> ctx_inode c = Some i \<and>
        mft_num c = mft_num ctx \<and> flags_search c = flags_search ctx \<and> fl = flags_match c \<and> ctx_cache c = cache
      else \<exists>c. match_or_close lib ino fl (ctx\<lparr>ctx_cache := cache, flags_match := {}\<rparr>) = Continue c \<and> ctx_inode c = None \<and>
        flags_search c = flags_search ctx \<and> ctx_cache c = cache" for ino fl
    using assms(1) by (auto simp: match_or_close_def search_quiet_def Let_def)
  show ?thesis
  proof (cases "used = 0")
    case True
    obtain i where i: "so_blank lib (mft_num ctx) = Blank i" using assms(1) unfolding search_quiet_def by blast
    show ?thesis using mo [of "{FEMR_NOT_IN_USE}" i] st True i l assms(3,4)
      by (auto simp: search_round_def mftrec_lookup record_matches_def record_flags_def Let_def split: if_splits)
  next
    case False
    show ?thesis
    proof (cases "so_open lib (mft_num ctx)")
      case None
      then show ?thesis using st u False l assms(3,4)
        by (auto simp: search_round_def mftrec_lookup record_matches_def record_flags_def Let_def)
    next
      case (Some ino)
      have "so_is_dir lib ino \<noteq> None" using assms(1) unfolding search_quiet_def by blast
      then have "in_use_flags lib (flags_search ctx) ino \<noteq> None"
        by (auto simp: in_use_flags_def Let_def)
      then obtain fl where fl: "in_use_flags lib (flags_search ctx) ino = Some fl" by blast
      show ?thesis using mo [of fl ino] st u False l assms(3,4) Some fl
        by (auto simp: search_round_def mftrec_lookup record_matches_def record_flags_def Let_def split: if_splits)
    qed
  qed
qed


lemma next_from:
  assumes "search_quiet lib file" and "nr \<le> 2 ^ 48" and "0 \<le> mft_num ctx" and "ctx_inode ctx = None"
    and "cache_ok 0 file (ctx_cache ctx)" and "next_record_from lib nr ctx = (r, c)"
  shows "flags_search c = flags_search ctx \<and> cache_ok 0 file (ctx_cache c) \<and>
    (\<forall>n \<ge> mft_num ctx. n < min nr (mft_num c) \<longrightarrow> \<not> record_matches lib file (flags_search ctx) n) \<and>
    (if r = 0 then mft_num ctx \<le> mft_num c \<and> mft_num c < nr \<and> record_matches lib file (flags_search ctx) (mft_num c) \<and>
       ctx_inode c \<noteq> None \<and> record_flags lib file (flags_search ctx) (mft_num c) = Some (flags_match c)
     else r = 1 \<and> nr \<le> mft_num c \<and> ctx_inode c = None)"
  using assms(3-6)
proof (induction "nat (nr - mft_num ctx)" arbitrary: ctx)
  case 0
  then show ?case by (auto simp: next_record_from.simps [of lib nr ctx] split: if_splits)
next
  case (Suc k)
  have lt: "mft_num ctx < nr" using Suc.hyps(2) by linarith
  then have lt48: "mft_num ctx < 2 ^ 48" using assms(2) by linarith
  note rc = round_cases [OF assms(1) Suc.prems(3,1) lt48 Suc.prems(2)]
  show ?case
  proof (cases "record_matches lib file (flags_search ctx) (mft_num ctx)")
    case True
    then obtain c1 i where c1: "search_round lib ctx = Stop 0 c1" "ctx_inode c1 = Some i" "mft_num c1 = mft_num ctx"
        "flags_search c1 = flags_search ctx" "record_flags lib file (flags_search ctx) (mft_num ctx) = Some (flags_match c1)"
        "cache_ok 0 file (ctx_cache c1)"
      using rc by auto
    then have "r = 0" "c = c1" using Suc.prems(4) lt by (simp_all add: next_record_from.simps [of lib nr ctx])
    with c1 True lt show ?thesis by simp
  next
    case False
    then obtain c1 where c1: "search_round lib ctx = Continue c1" "ctx_inode c1 = None"
        "flags_search c1 = flags_search ctx" "cache_ok 0 file (ctx_cache c1)"
      using rc by auto
    define c2 where "c2 = c1\<lparr>mft_num := mft_num ctx + 1\<rparr>"
    have c2: "next_record_from lib nr c2 = (r, c)"
      using Suc.prems(4) lt c1(1) by (simp add: next_record_from.simps [of lib nr ctx] c2_def)
    have "k = nat (nr - mft_num c2)" using Suc.hyps(2) by (simp add: c2_def)
    have p: "0 \<le> mft_num c2" "ctx_inode c2 = None" "cache_ok 0 file (ctx_cache c2)" "flags_search c2 = flags_search ctx"
        "mft_num c2 = mft_num ctx + 1"
      using Suc.prems(1) c1 by (simp_all add: c2_def)
    note ih = Suc.hyps(1) [OF \<open>k = _\<close> p(1,2,3) c2, unfolded p(4,5)]
    have "\<not> record_matches lib file (flags_search ctx) n" if "mft_num ctx \<le> n" "n < min nr (mft_num c)" for n
    proof (cases "n = mft_num ctx")
      case True
      with False show ?thesis by simp
    next
      case False
      then have "mft_num ctx + 1 \<le> n" using that(1) by simp
      with ih that(2) show ?thesis by blast
    qed
    then have no: "\<forall>n \<ge> mft_num ctx. n < min nr (mft_num c) \<longrightarrow> \<not> record_matches lib file (flags_search ctx) n" by blast
    show ?thesis
    proof (cases "r = 0")
      case True
      with ih have "mft_num ctx \<le> mft_num c" by simp
      with ih no True show ?thesis by simp
    next
      case False
      with ih no show ?thesis by simp
    qed
  qed
qed

text \<open>The numbers of the records that up to \<open>k\<close> calls in a row stop at.\<close>

fun visited :: "'i mft_search_lib \<Rightarrow> int \<Rightarrow> nat \<Rightarrow> 'i mft_search_ctx \<Rightarrow> int list" where
  "visited lib nr 0 ctx = []"
| "visited lib nr (Suc k) ctx =
     (case mft_next_record lib nr ctx of (r, c) \<Rightarrow> if r = 0 then mft_num c # visited lib nr k c else [])"

lemma filter_upto_first:
  assumes "a \<le> m" and "m < b" and "P m" and "\<forall>n \<ge> a. n < m \<longrightarrow> \<not> P n"
  shows "filter P [a..b - 1] = m # filter P [m + 1..b - 1]"
proof -
  have "[a..b - 1] = [a..m - 1] @ [m..b - 1]" using assms(1,2) upto_split1 [of a m "b - 1"] by simp
  moreover have "[m..b - 1] = m # [m + 1..b - 1]" using assms(2) by (simp add: upto.simps)
  moreover have "filter P [a..m - 1] = []" using assms(4) by (auto simp: filter_empty_conv)
  ultimately show ?thesis using assms(3) by simp
qed

lemma visited_filter:
  assumes "search_quiet lib file" and "nr \<le> 2 ^ 48" and "-1 \<le> mft_num ctx" and "cache_ok 0 file (ctx_cache ctx)"
    and "nat (nr - mft_num ctx) \<le> k"
  shows "visited lib nr k ctx = filter (record_matches lib file (flags_search ctx)) [mft_num ctx + 1..nr - 1]"
  using assms(3-5)
proof (induction k arbitrary: ctx)
  case (Suc k)
  obtain r c where rc: "mft_next_record lib nr ctx = (r, c)" by fastforce
  note nf = next_from [OF assms(1,2) _ _ _ rc [unfolded mft_next_record_def]]
  show ?case
  proof (cases "r = 0")
    case True
    have ih: "visited lib nr k c = filter (record_matches lib file (flags_search c)) [mft_num c + 1..nr - 1]"
      using Suc.prems nf True by (intro Suc.IH) auto
    have "filter (record_matches lib file (flags_search ctx)) [mft_num ctx + 1..nr - 1] =
      mft_num c # filter (record_matches lib file (flags_search ctx)) [mft_num c + 1..nr - 1]"
      using nf Suc.prems True by (intro filter_upto_first) auto
    with ih show ?thesis using nf Suc.prems True by (simp add: rc)
  next
    case False
    with nf Suc.prems show ?thesis by (auto simp: rc filter_empty_conv)
  qed
qed simp

text \<open>
  C27: the enumeration of MFT records is complete and exact. Calling \<^verbatim>\<open>mft_next_record\<close> on a fresh context stops
  at exactly the records that fall under one of the kinds searched for, in ascending order and each
  once, and then reports the end.
\<close>

theorem mft_search_complete:
  assumes "search_quiet lib file" and "nr \<le> 2 ^ 48" and "nat nr < k"
  shows "visited lib nr k ((mft_get_search_ctx mftrec_cache0)\<lparr>flags_search := fl\<rparr>) =
    filter (record_matches lib file fl) [0..nr - 1]"
  using visited_filter [OF assms(1,2), of "(mft_get_search_ctx mftrec_cache0)\<lparr>flags_search := fl\<rparr>" k] assms(3)
  by (simp add: mft_get_search_ctx_def cache_ok_def mftrec_cache0_def)

definition ex_lib :: "int mft_search_lib" where
  "ex_lib = \<lparr>so_pread = (\<lambda>off. Some (take 512 (drop (nat off) [5]))), so_open = (\<lambda>n. if n = 0 then None else Some n),
     so_has_std_info = (\<lambda>_. True), so_has_attr_list = (\<lambda>_. False), so_has_data = (\<lambda>_. True),
     so_is_dir = (\<lambda>_. Some False), so_metadata = (\<lambda>_. 0), so_blank = Blank, so_close = (\<lambda>_. 0)\<rparr>"

theorem mft_search_complete_witness:
  "visited ex_lib 4 6 ((mft_get_search_ctx mftrec_cache0)\<lparr>flags_search := {FEMR_FILE}\<rparr>) = [2]"
proof -
  have "search_quiet ex_lib [5]" by (simp add: search_quiet_def ex_lib_def reads_file_def)
  moreover have "[0..3] = [0, 1, 2, 3 :: int]" by code_simp
  ultimately show ?thesis using mft_search_complete [of ex_lib "[5]" 4 6 "{FEMR_FILE}"]
    by (simp add: record_matches_def record_flags_def direct_def ex_lib_def in_use_flags_def attr_flags_def)
qed

section \<open>A freed inode that is closed again\<close>

text \<open>
  Without memory for the record of an unused inode, the inode is freed and the context still holds it:
  releasing the context closes it a second time.
\<close>

lemma no_record_dangles:
  assumes "utils_mftrec_in_use (so_pread lib) (ctx_cache ctx) (mft_num ctx) = (0, cache)" and "so_blank lib (mft_num ctx) = No_Record i"
  shows "\<exists>c. search_round lib ctx = Stop (-1) c \<and> mft_put_search_ctx c = ctx_closed ctx @ [i, i]"
  using assms by (simp add: search_round_def Let_def mft_put_search_ctx_def)

end
