(* ===== verification/Utils_Text.thy ===== *)
theory Utils_Text
  imports Utils
begin

text \<open>
  Helpers of \<^verbatim>\<open>utils.c\<close> that make or translate text: names of attributes, conversion into a caller's buffer, formats and paths. The two
  last functions are compiled on Windows only.
\<close>

section \<open>Names of attributes\<close>

text \<open>
  \<^verbatim>\<open>ntfs_mbstoucs\<close> allocates its result, which the emulation copies into a buffer of the caller if there is one. \<open>outs\<close>: a null pointer, a
  pointer to a null pointer, or to a buffer of which the caller says that it has \<open>outs_len\<close> units. \<open>rmem\<close> is whether \<^verbatim>\<open>realloc\<close> succeeds.
\<close>

type_synonym units = "16 word list"

definition ntfs_mbstoucs_libntfscompat ::
  "(string \<Rightarrow> units option) \<Rightarrow> bool \<Rightarrow> string \<Rightarrow> units option option \<Rightarrow> nat \<Rightarrow> int \<times> units option option" where
  "ntfs_mbstoucs_libntfscompat mbstoucs rmem ins outs outs_len =
     (case outs of
        None \<Rightarrow> (-1, None)
      | Some p \<Rightarrow>
          (case mbstoucs ins of
             None \<Rightarrow> (-1, outs)
           | Some u \<Rightarrow>
               (case p of
                  None \<Rightarrow> (int (length u), Some (Some (u @ [0])))
                | Some old \<Rightarrow>
                    if length u + 1 > outs_len then
                      if rmem then (int (length u), Some (Some (u @ [0]))) else (-1, outs)
                    else (int (length u), Some (Some (u @ 0 # drop (length u + 1) old))))))"

text \<open>The converted name is complete and terminated, and a buffer that is as long as the caller says is never exceeded without having grown.\<close>

lemma mbstoucs_complete:
  assumes "ntfs_mbstoucs_libntfscompat mbstoucs rmem ins (Some p) n = (len, Some (Some out))" and "len \<noteq> -1"
  shows "\<exists>u. mbstoucs ins = Some u \<and> len = int (length u) \<and> take (length u + 1) out = u @ [0] \<and>
    (\<forall>old. p = Some old \<and> length old = n \<longrightarrow> length out = max n (length u + 1))"
  using assms by (auto simp: ntfs_mbstoucs_libntfscompat_def split: option.splits if_splits)

text \<open>\<open>lookup\<close> is the library's search in a context; a null context is an error.\<close>

definition find_attribute :: "(nat \<Rightarrow> 'c \<Rightarrow> 'a option) \<Rightarrow> nat \<Rightarrow> 'c option \<Rightarrow> errno option \<times> 'a option" where
  "find_attribute lookup type ctx = (case ctx of None \<Rightarrow> (Some EINVAL, None) | Some c \<Rightarrow> (None, lookup type c))"

definition find_first_attribute ::
  "(nat \<Rightarrow> 'c \<Rightarrow> 'a option) \<Rightarrow> ('m \<Rightarrow> 'c option) \<Rightarrow> nat \<Rightarrow> 'm option \<Rightarrow> errno option \<times> 'a option" where
  "find_first_attribute lookup get_ctx type mft =
     (case mft of
        None \<Rightarrow> (Some EINVAL, None)
      | Some m \<Rightarrow> (case get_ctx m of None \<Rightarrow> (None, None) | Some c \<Rightarrow> find_attribute lookup type (Some c)))"

text \<open>\<^verbatim>\<open>snprintf\<close> of a string: what it returns and what is in a buffer of that many bytes, of which the last holds the terminator.\<close>

definition snprintf_s :: "nat \<Rightarrow> string \<Rightarrow> nat \<times> string" where
  "snprintf_s n s = (length s, take (n - 1) s)"

text \<open>
  \<open>in_attrdef\<close> is the name of a type in the volume's table, \<open>ucstombs\<close> the conversion to the locale. The attribute is its type and name; the result
  is \<^verbatim>\<open>errno\<close>, if it is set, and the text, if any.
\<close>

definition utils_attr_get_name ::
  "(nat \<Rightarrow> units option) \<Rightarrow> (units \<Rightarrow> string option) \<Rightarrow> (nat \<times> units) option \<Rightarrow> nat \<Rightarrow> errno option \<times> string option" where
  "utils_attr_get_name in_attrdef ucstombs attr bufsize =
     (case attr of
        None \<Rightarrow> (Some EINVAL, None)
      | Some (type, name) \<Rightarrow>
          (case (case in_attrdef type of None \<Rightarrow> Some ''<UNKNOWN>'' | Some n \<Rightarrow> ucstombs n) of
             None \<Rightarrow> (None, None)
           | Some t \<Rightarrow>
               (case snprintf_s bufsize t of
                  (len, out) \<Rightarrow>
                    if len \<ge> bufsize \<or> name = [] then (None, Some out)
                    else
                      let rest = (case ucstombs name of None \<Rightarrow> ''<UNKNOWN>'' | Some s \<Rightarrow> ''('' @ s @ '')'')
                      in (None, Some (out @ snd (snprintf_s (bufsize - len) rest))))))"

text \<open>The text fits the buffer with its terminator; when there is room for all of it, it is the type and the name in parentheses.\<close>

lemma attr_name_text:
  assumes "utils_attr_get_name in_attrdef ucstombs (Some (type, name)) bufsize = (e, Some out)" and "0 < bufsize"
    and "in_attrdef type = Some n" and "ucstombs n = Some t" and "ucstombs name = Some s"
  shows "length out < bufsize \<and>
    (length t + length s + 2 < bufsize \<longrightarrow> out = (if name = [] then t else t @ ''('' @ s @ '')''))"
  using assms by (auto simp: utils_attr_get_name_def snprintf_s_def Let_def split: if_splits)

section \<open>Formats and paths from Windows\<close>

text \<open>The translation of the lengths \<^verbatim>\<open>ll\<close> in a format; \<open>i\<close> counts the characters put into the buffer of \<open>sz\<close> bytes.\<close>

datatype fmt_state = F_INIT | F_PERCENT | F_FIRST

fun reformat_from :: "nat \<Rightarrow> nat \<Rightarrow> fmt_state \<Rightarrow> string \<Rightarrow> string" where
  "reformat_from sz i st [] = []"
| "reformat_from sz i st (c # f) =
     (if i + 3 < sz then
        (case st of
           F_INIT \<Rightarrow> c # reformat_from sz (i + 1) (if c = CHR ''%'' then F_PERCENT else F_INIT) f
         | F_PERCENT \<Rightarrow>
             if c = CHR ''l'' then reformat_from sz i F_FIRST f
             else c # reformat_from sz (i + 1)
                    (if (of_char c < (48 :: nat) \<or> of_char c > (57 :: nat)) \<and> c \<noteq> CHR ''*'' \<and> c \<noteq> CHR ''-'' then F_INIT else F_PERCENT) f
         | F_FIRST \<Rightarrow>
             if c = CHR ''l'' then ''I64'' @ reformat_from sz (i + 3) F_INIT f
             else CHR ''l'' # c # reformat_from sz (i + 2) F_INIT f)
      else [])"

definition ntfs_utils_reformat :: "nat \<Rightarrow> string \<Rightarrow> string" where
  "ntfs_utils_reformat sz f = reformat_from sz 0 F_INIT f"

lemma reformat_from_fits: "i < sz \<Longrightarrow> i + length (reformat_from sz i st f) < sz"
proof (induction sz i st f rule: reformat_from.induct)
  case (2 sz i st c f)
  then show ?case by (cases st) (auto simp: add.assoc [symmetric])
qed simp

text \<open>The translated format and its terminator fit the buffer; formats without lengths are kept.\<close>

lemma reformat_fits: "0 < sz \<Longrightarrow> length (ntfs_utils_reformat sz f) < sz"
  using reformat_from_fits [of 0 sz F_INIT f] by (simp add: ntfs_utils_reformat_def)

lemma reformat_from_id: "CHR ''l'' \<notin> set f \<Longrightarrow> st \<noteq> F_FIRST \<Longrightarrow> i + length f + 3 \<le> sz \<Longrightarrow> reformat_from sz i st f = f"
  by (induction f arbitrary: i st) (auto split: fmt_state.splits)

lemma reformat_plain: "CHR ''l'' \<notin> set f \<Longrightarrow> length f + 3 \<le> sz \<Longrightarrow> ntfs_utils_reformat sz f = f"
  by (simp add: ntfs_utils_reformat_def reformat_from_id)

definition ntfs_utils_unix_path :: "bool \<Rightarrow> string \<Rightarrow> errno + string" where
  "ntfs_utils_unix_path mem s =
     (if mem then Inr (map (\<lambda>c. if c = CHR 0x5C then CHR ''/'' else c) s) else Inl ENOMEM)"

end
