(* ===== verification/Vol_Params.thy ===== *)
theory Vol_Params
  imports Mkntfs_Options
begin

text \<open>
  The formatter's choice of volume parameters (\<^verbatim>\<open>mkntfs.c\<close>): \<open>mkntfs_open_partition\<close> and
  \<open>mkntfs_override_vol_params\<close>, from the options and what the device says of itself.

  The device queries of libntfs-3g are the record \<open>dev_info\<close>; \<open>max_cs\<close> is its constant
  \<^verbatim>\<open>NTFS_MAX_CLUSTER_SIZE\<close>. The product of the number of sectors and the sector size wraps at 64
  bits as it does on the target. A step that returns \<^verbatim>\<open>FALSE\<close> gives \<open>None\<close>.
\<close>

section \<open>Opening the partition\<close>

text \<open>What \<^verbatim>\<open>stat\<close> of the device reports.\<close>

record dev_stat =
  ds_is_blk :: bool
  ds_size :: int
  ds_blocks :: int

text \<open>
  The outcome of the calls: whether the device was handed in from outside, whether it could be
  allocated otherwise, opened and queried, and whether it is known to be mounted (\<open>None\<close> when
  that cannot be determined). The branch for whole Linux disks is not compiled on the target.
\<close>

record open_calls =
  oc_external :: bool
  oc_alloc :: bool
  oc_open :: "bool \<Rightarrow> bool"
  oc_stat :: "dev_stat option"
  oc_mounted :: "bool option"

definition sectors_of_stat :: "dev_stat \<Rightarrow> mkntfs_options \<Rightarrow> mkntfs_options" where
  "sectors_of_stat st opts =
     (if sector_size opts \<noteq> 0 then
        (if ds_size st \<noteq> 0 then opts\<lparr>num_sectors := ds_size st div sector_size opts\<rparr>
         else opts\<lparr>num_sectors := ds_blocks st * 512 div sector_size opts\<rparr>)
      else
        (if ds_size st \<noteq> 0 then opts\<lparr>num_sectors := ds_size st div 512, sector_size := 512\<rparr>
         else opts\<lparr>num_sectors := ds_blocks st, sector_size := 512\<rparr>))"

text \<open>The result: the options on success, and whether the external device was taken over.\<close>

definition mkntfs_open_partition :: "open_calls \<Rightarrow> mkntfs_options \<Rightarrow> mkntfs_options option \<times> bool" where
  "mkntfs_open_partition c opts =
     (let consumed = oc_external c in
      if \<not> oc_external c \<and> \<not> oc_alloc c then (None, consumed)
      else if \<not> oc_open c (no_action opts) then (None, consumed)
      else case oc_stat c of
        None \<Rightarrow> (None, consumed)
      | Some st \<Rightarrow>
          let blk =
            (if ds_is_blk st then Some opts
             else if \<not> force opts then None
             else if num_sectors opts = 0 then
               (if ds_size st = 0 \<and> ds_blocks st = 0 then None else Some (sectors_of_stat st opts))
             else Some opts)
          in (case blk of
                None \<Rightarrow> (None, consumed)
              | Some opts' \<Rightarrow>
                  if oc_mounted c = Some True \<and> \<not> force opts' then (None, consumed)
                  else (Some opts', consumed)))"

section \<open>Sector size and geometry\<close>

record dev_info =
  di_sector_size :: int
  di_size :: "int \<Rightarrow> int"
  di_part_start :: int
  di_sectors_per_track :: int
  di_heads :: int

definition vp_sector_size :: "dev_info \<Rightarrow> mkntfs_options \<Rightarrow> mkntfs_options option" where
  "vp_sector_size d opts =
     (let s = (if sector_size opts < 0
               then if di_sector_size d < 0 then 512 else di_sector_size d
               else sector_size opts)
      in if (s - 1) AND s \<noteq> 0 then None
         else if s < 256 \<or> s > 4096 then None
         else Some (opts\<lparr>sector_size := s\<rparr>))"

text \<open>The last sector, or 512 bytes, is kept for the backup boot sector.\<close>

definition reserved_sectors :: "int \<Rightarrow> int" where
  "reserved_sectors s = (if s < 512 then 512 div s else 1)"

definition vp_num_sectors :: "dev_info \<Rightarrow> mkntfs_options \<Rightarrow> mkntfs_options option" where
  "vp_num_sectors d opts =
     (if num_sectors opts < 0 then
        let n = di_size d (sector_size opts) in
        if n \<le> 0 then None
        else Some (opts\<lparr>num_sectors := n - reserved_sectors (sector_size opts)\<rparr>)
      else Some (opts\<lparr>num_sectors := num_sectors opts - reserved_sectors (sector_size opts)\<rparr>))"

text \<open>
  The partition start, the sectors per track and the heads: a given value that is too large is an
  error, a determined one that is unknown or too large becomes zero and the volume not bootable.
\<close>

definition vp_geometry :: "(int \<Rightarrow> bool) \<Rightarrow> int \<Rightarrow> int \<Rightarrow> (int \<times> bool) option" where
  "vp_geometry too_large given det =
     (if given < 0 then
        (if det < 0 \<or> too_large det then Some (0, False) else Some (det, True))
      else if too_large given then None else Some (given, True))"

definition vp_geometries :: "dev_info \<Rightarrow> mkntfs_options \<Rightarrow> (mkntfs_options \<times> bool) option" where
  "vp_geometries d opts =
     (case vp_geometry (\<lambda>x. drop_bit 32 x \<noteq> 0) (part_start_sect opts) (di_part_start d) of
        None \<Rightarrow> None
      | Some (p, b1) \<Rightarrow>
          (case vp_geometry (\<lambda>x. x > 65535) (sectors_per_track opts) (di_sectors_per_track d) of
             None \<Rightarrow> None
           | Some (t, b2) \<Rightarrow>
               (case vp_geometry (\<lambda>x. x > 65535) (heads opts) (di_heads d) of
                  None \<Rightarrow> None
                | Some (h, b3) \<Rightarrow>
                    Some (opts\<lparr>part_start_sect := p, sectors_per_track := t, heads := h\<rparr>, b1 \<and> b2 \<and> b3))))"

section \<open>Cluster and record sizes\<close>

text \<open>\<^verbatim>\<open>ffs\<close>: the position of the lowest set bit, from one; zero for zero.\<close>

fun ffs :: "nat \<Rightarrow> nat" where
  "ffs n = (if n = 0 then 0 else if odd n then 1 else Suc (ffs (n div 2)))"

declare ffs.simps [simp del]

text \<open>Double the cluster size until the number of clusters fits 32 bits.\<close>

function grow_cluster_size :: "nat \<Rightarrow> int \<Rightarrow> nat \<Rightarrow> nat option" where
  "grow_cluster_size max_cs volume_size cs =
     (if cs = 0 then None
      else if drop_bit (ffs cs - 1 + 32) volume_size = 0 then Some cs
      else if cs * 2 \<ge> max_cs then None
      else grow_cluster_size max_cs volume_size (cs * 2))"
  by pat_completeness auto
termination by (relation "measure (\<lambda>(m, v, cs). m - cs)") auto

declare grow_cluster_size.simps [simp del]

text \<open>The cluster size \<open>mkntfs_redirect\<close> puts into the volume: zero when not given.\<close>

definition given_cluster_size :: "mkntfs_options \<Rightarrow> nat" where
  "given_cluster_size opts = (if opt_cluster_size opts \<ge> 0 then nat (opt_cluster_size opts mod 2 ^ 32) else 0)"

definition vp_cluster_size :: "nat \<Rightarrow> int \<Rightarrow> nat \<Rightarrow> int \<Rightarrow> nat option" where
  "vp_cluster_size max_cs sect cs0 volume_size =
     (let auto_cs = (if 4096 < sect then nat sect else 4096) in
      case (if cs0 = 0 then grow_cluster_size max_cs volume_size auto_cs else Some cs0) of
        None \<Rightarrow> None
      | Some cs \<Rightarrow>
          if cs AND (cs - 1) \<noteq> 0 then None
          else if int cs < sect then None
          else if int cs > 4096 * sect then None
          else if cs > max_cs then None
          else Some cs)"

record vol_params =
  vp_csize :: nat
  vp_csize_bits :: nat
  vp_nr_clusters :: int
  vp_mft_record_size :: nat
  vp_mft_record_bits :: nat
  vp_indx_record_size :: nat
  vp_indx_record_bits :: nat

text \<open>Compression needs clusters of at most 4096 bytes; force turns it off for larger ones.\<close>

definition vp_compression :: "nat \<Rightarrow> mkntfs_options \<Rightarrow> mkntfs_options option" where
  "vp_compression cs opts =
     (if cs > 4096 \<and> enable_compression opts then
        (if \<not> force opts then None else Some (opts\<lparr>enable_compression := False\<rparr>))
      else Some opts)"

definition vp_record_size :: "nat \<Rightarrow> int \<Rightarrow> nat" where
  "vp_record_size dflt sect = (if int dflt < sect then nat sect else dflt)"

definition vp_sizes :: "nat \<Rightarrow> nat \<Rightarrow> mkntfs_options \<Rightarrow> (mkntfs_options \<times> vol_params) option" where
  "vp_sizes max_cs cs0 opts =
     (let volume_size = wrap64 (num_sectors opts * sector_size opts) in
      if volume_size < 2 ^ 20 then None
      else case vp_cluster_size max_cs (sector_size opts) cs0 volume_size of
        None \<Rightarrow> None
      | Some cs \<Rightarrow>
          (case vp_compression cs opts of
             None \<Rightarrow> None
           | Some opts' \<Rightarrow>
               let nr = volume_size div int cs in
               if nr \<noteq> wrap64 (num_sectors opts' * sector_size opts') div int cs \<or>
                  volume_size div sector_size opts' \<noteq> num_sectors opts' \<or>
                  volume_size div int cs \<noteq> nr then None
               else if drop_bit 32 nr \<noteq> 0 then None
               else
                 let mrs = vp_record_size 1024 (sector_size opts');
                     irs = vp_record_size 4096 (sector_size opts')
                 in Some (opts', \<lparr>vp_csize = cs, vp_csize_bits = ffs cs - 1, vp_nr_clusters = nr,
                          vp_mft_record_size = mrs, vp_mft_record_bits = ffs mrs - 1,
                          vp_indx_record_size = irs, vp_indx_record_bits = ffs irs - 1\<rparr>)))"

text \<open>The result: the options as changed, the volume, and whether Windows can boot from it.\<close>

definition mkntfs_override_vol_params ::
  "nat \<Rightarrow> dev_info \<Rightarrow> nat \<Rightarrow> mkntfs_options \<Rightarrow> (mkntfs_options \<times> vol_params \<times> bool) option" where
  "mkntfs_override_vol_params max_cs d cs0 opts =
     (case vp_sector_size d opts of
        None \<Rightarrow> None
      | Some o1 \<Rightarrow>
          (case vp_num_sectors d o1 of
             None \<Rightarrow> None
           | Some o2 \<Rightarrow>
               (case vp_geometries d o2 of
                  None \<Rightarrow> None
                | Some (o3, winboot) \<Rightarrow>
                    (case vp_sizes max_cs cs0 o3 of
                       None \<Rightarrow> None
                     | Some (o4, v) \<Rightarrow> Some (o4, v, winboot)))))"

section \<open>Powers of two\<close>

lemma ffs_pow2: "ffs (2 ^ k) = Suc k"
  by (induction k) (auto simp: ffs.simps)

lemma and_double:
  fixes i j :: nat
  shows "2 * j AND (2 * i + 1) = 2 * (j AND i)" "(2 * j + 1) AND (2 * i) = 2 * (j AND i)"
  by (simp_all add: and_rec [of "2 * j"] and_rec [of "Suc (2 * j)"])

lemma and_pred_pow2:
  fixes n :: nat
  assumes "0 < n" and "n AND (n - 1) = 0"
  shows "\<exists>k. n = 2 ^ k"
  using assms
proof (induction n rule: less_induct)
  case (less n)
  show ?case
  proof (cases "even n")
    case True
    then obtain j where j: "n = 2 * j" by (auto elim: evenE)
    with less.prems have "0 < j" by simp
    have "n - 1 = 2 * (j - 1) + 1" using j \<open>0 < j\<close> by simp
    then have "n AND (n - 1) = 2 * (j AND (j - 1))"
      using j and_double(1) [of j "j - 1"] by simp
    with less.prems have "j AND (j - 1) = 0" by simp
    with less.IH [of j] \<open>0 < j\<close> j obtain k where "j = 2 ^ k" by auto
    with j have "n = 2 ^ Suc k" by simp
    then show ?thesis by blast
  next
    case False
    then obtain j where j: "n = 2 * j + 1" by (auto elim: oddE)
    then have "n AND (n - 1) = 2 * j" using and_double(2) [of j j] by simp
    with less.prems j have "n = 2 ^ 0" by simp
    then show ?thesis by blast
  qed
qed


lemma int_and_pred_pow2:
  fixes s :: int
  assumes "0 < s" and "(s - 1) AND s = 0"
  shows "\<exists>k. s = 2 ^ k"
proof -
  obtain n where n: "s = int n" "0 < n" using assms(1) by (metis zero_less_imp_eq_int)
  then have "s - 1 = int (n - 1)" by (simp add: of_nat_diff)
  with n assms(2) have "int ((n - 1) AND n) = 0" by (simp only: of_nat_and_eq)
  then have "n AND (n - 1) = 0" by (simp add: and.commute)
  with and_pred_pow2 n obtain k where "n = 2 ^ k" by blast
  with n show ?thesis by auto
qed

lemma ffs_pred_pow2 [simp]: "ffs (2 ^ k) - Suc 0 = k"
  by (simp add: ffs_pow2)

section \<open>The wrapped product\<close>

text \<open>
  The consistency check after the division is reached: it is what rejects a product that wrapped.
\<close>

lemma wrap64_exact:
  assumes "0 < s" and "s \<le> 4096" and "wrap64 (n * s) div s = n"
  shows "wrap64 (n * s) = n * s"
proof -
  obtain k where k: "wrap64 (n * s) = n * s + k * 2 ^ 64" using wrap64_cong by blast
  have "wrap64 (n * s) = n * s + wrap64 (n * s) mod s"
    using assms(3) by (metis div_mult_mod_eq)
  with k have "k * 2 ^ 64 = wrap64 (n * s) mod s" by simp
  moreover have "0 \<le> wrap64 (n * s) mod s" "wrap64 (n * s) mod s < s" using assms(1) by simp_all
  ultimately have "0 \<le> k * 2 ^ 64" "k * 2 ^ 64 < 4096" using assms(2) by simp_all
  then have "k = 0" by simp
  with k show ?thesis by simp
qed

section \<open>What the accepted parameters satisfy\<close>

lemma sector_size_ok:
  assumes "vp_sector_size d opts = Some o1"
  shows "\<exists>k. sector_size o1 = 2 ^ k \<and> 8 \<le> k \<and> k \<le> 12"
proof -
  have r: "256 \<le> sector_size o1" "sector_size o1 \<le> 4096" "(sector_size o1 - 1) AND sector_size o1 = 0"
    using assms by (auto simp: vp_sector_size_def Let_def split: if_splits)
  then obtain k where k: "sector_size o1 = 2 ^ k" using int_and_pred_pow2 [of "sector_size o1"] by auto
  have "(2 :: int) ^ 8 \<le> 2 ^ k" "(2 :: int) ^ k \<le> 2 ^ 12" using r k by simp_all
  then have "8 \<le> k" "k \<le> 12" by (simp_all only: power_increasing_iff one_less_numeral_iff semiring_norm)
  with k show ?thesis by blast
qed

lemma num_sectors_sector_size: "vp_num_sectors d o1 = Some o2 \<Longrightarrow> sector_size o2 = sector_size o1"
  by (auto simp: vp_num_sectors_def Let_def split: if_splits)

lemma geometry_ok:
  assumes "vp_geometry bad given det = Some (x, b)"
  shows "0 \<le> x \<and> (x = 0 \<or> \<not> bad x) \<and> (given \<ge> 0 \<longrightarrow> x = given)"
  using assms by (auto simp: vp_geometry_def split: if_splits)

lemma drop_bit_zero_less:
  fixes x :: int
  assumes "drop_bit n x = 0" and "0 \<le> x"
  shows "x < 2 ^ n"
proof (rule ccontr)
  assume "\<not> x < 2 ^ n"
  then have "1 \<le> x div 2 ^ n" using zdiv_mono1 [of "2 ^ n" x "2 ^ n"] by simp
  with assms(1) show False by (simp add: drop_bit_eq_div)
qed

lemma geometries_ok:
  assumes "vp_geometries d o2 = Some (o3, w)"
  shows "sector_size o3 = sector_size o2" "num_sectors o3 = num_sectors o2"
    "0 \<le> part_start_sect o3" "part_start_sect o3 < 2 ^ 32"
    "0 \<le> sectors_per_track o3" "sectors_per_track o3 \<le> 65535" "0 \<le> heads o3" "heads o3 \<le> 65535"
proof -
  obtain p b1 t b2 h b3 where
    g: "vp_geometry (\<lambda>x. drop_bit 32 x \<noteq> 0) (part_start_sect o2) (di_part_start d) = Some (p, b1)"
      "vp_geometry (\<lambda>x. x > 65535) (sectors_per_track o2) (di_sectors_per_track d) = Some (t, b2)"
      "vp_geometry (\<lambda>x. x > 65535) (heads o2) (di_heads d) = Some (h, b3)"
    and o3: "o3 = o2\<lparr>part_start_sect := p, sectors_per_track := t, heads := h\<rparr>"
    using assms unfolding vp_geometries_def by (auto split: option.splits) blast+
  show "sector_size o3 = sector_size o2" "num_sectors o3 = num_sectors o2" by (simp_all add: o3)
  show "0 \<le> part_start_sect o3" "0 \<le> sectors_per_track o3" "0 \<le> heads o3"
    "sectors_per_track o3 \<le> 65535" "heads o3 \<le> 65535"
    using g [THEN geometry_ok] by (auto simp: o3)
  have "0 \<le> p" "p = 0 \<or> drop_bit 32 p = 0" using g(1) [THEN geometry_ok] by auto
  then show "part_start_sect o3 < 2 ^ 32" using drop_bit_zero_less [of 32 p] by (auto simp: o3)
qed

lemma grow_cluster_size_ok:
  assumes "grow_cluster_size max_cs vs (2 ^ k) = Some cs" and "0 \<le> vs"
  shows "\<exists>j. cs = 2 ^ j \<and> k \<le> j \<and> vs < 2 ^ 32 * int cs \<and> (j = k \<or> 2 ^ 32 * int (cs div 2) \<le> vs) \<and>
    (j = k \<or> cs < max_cs)"
  using assms(1)
proof (induction "max_cs - 2 ^ k" arbitrary: k rule: less_induct)
  case less
  define P where "P = drop_bit (k + 32) vs"
  have P: "P = vs div (2 ^ 32 * 2 ^ k)" by (simp add: P_def drop_bit_eq_div power_add mult.commute)
  show ?case
  proof (cases "P = 0")
    case True
    then have "cs = 2 ^ k" using less.prems by (subst (asm) grow_cluster_size.simps) (simp add: P_def)
    moreover have "vs < 2 ^ 32 * 2 ^ k"
      using drop_bit_zero_less [OF True [unfolded P_def] assms(2)] by (simp add: power_add)
    ultimately show ?thesis by auto
  next
    case False
    with less.prems have lt: "2 ^ k * 2 < max_cs" and g: "grow_cluster_size max_cs vs (2 ^ Suc k) = Some cs"
      by (subst (asm) grow_cluster_size.simps, simp add: P_def mult.commute split: if_splits)+
    have "(0 :: nat) < 2 ^ k" by simp
    with lt have "max_cs - 2 ^ Suc k < max_cs - 2 ^ k" unfolding power_Suc by linarith
    from less.hyps [OF this g] obtain j where j: "cs = 2 ^ j" "Suc k \<le> j" "vs < 2 ^ 32 * int cs"
      "j = Suc k \<or> 2 ^ 32 * int (cs div 2) \<le> vs" "j = Suc k \<or> cs < max_cs" by blast
    have "2 ^ 32 * 2 ^ k \<le> vs"
    proof (rule ccontr)
      assume "\<not> 2 ^ 32 * 2 ^ k \<le> vs"
      then have "vs div (2 ^ 32 * 2 ^ k) = 0" using assms(2) by (intro div_pos_pos_trivial) simp_all
      with False P show False by simp
    qed
    with j lt show ?thesis by (intro exI [of _ j]) auto
  qed
qed


lemma cluster_size_ok:
  assumes "vp_cluster_size max_cs sect cs0 vs = Some cs" and "0 < sect" and "0 \<le> vs" and "sect \<le> 4096"
  shows "\<exists>k. cs = 2 ^ k" "sect \<le> int cs" "int cs \<le> 4096 * sect" "cs \<le> max_cs"
    "cs0 = 0 \<Longrightarrow> vs < 2 ^ 32 * int cs \<and> 4096 \<le> cs \<and> (cs = 4096 \<or> 2 ^ 32 * int (cs div 2) \<le> vs)"
    "cs0 \<noteq> 0 \<Longrightarrow> cs = cs0"
proof -
  have c: "cs AND (cs - 1) = 0" "sect \<le> int cs" "int cs \<le> 4096 * sect" "cs \<le> max_cs"
    and g: "cs0 = 0 \<Longrightarrow> grow_cluster_size max_cs vs 4096 = Some cs" "cs0 \<noteq> 0 \<Longrightarrow> cs = cs0"
    using assms(1,4) by (simp_all add: vp_cluster_size_def Let_def split: option.splits if_splits)
  from c(2) assms(2) have "0 < cs" by (cases cs) auto
  with and_pred_pow2 c(1) show "\<exists>k. cs = 2 ^ k" by blast
  show "sect \<le> int cs" "int cs \<le> 4096 * sect" "cs \<le> max_cs" by (rule c)+
  show "cs0 \<noteq> 0 \<Longrightarrow> cs = cs0" by (rule g(2))
  show "vs < 2 ^ 32 * int cs \<and> 4096 \<le> cs \<and> (cs = 4096 \<or> 2 ^ 32 * int (cs div 2) \<le> vs)" if "cs0 = 0"
  proof -
    have "grow_cluster_size max_cs vs (2 ^ 12) = Some cs" using g(1) [OF that] by simp
    from grow_cluster_size_ok [OF this assms(3)] obtain j where j: "cs = 2 ^ j" "12 \<le> j"
      "vs < 2 ^ 32 * int cs" "j = 12 \<or> 2 ^ 32 * int (cs div 2) \<le> vs" by blast
    then have "(2 :: nat) ^ 12 \<le> cs" by (simp only: power_increasing_iff one_less_numeral_iff semiring_norm)
    with j show ?thesis by (elim disjE) simp_all
  qed
qed

text \<open>What holds of accepted parameters, in one predicate for the layout.\<close>

definition vol_ok :: "nat \<Rightarrow> mkntfs_options \<Rightarrow> vol_params \<Rightarrow> bool" where
  "vol_ok max_cs opts v \<longleftrightarrow>
     (\<exists>k. sector_size opts = 2 ^ k \<and> 8 \<le> k \<and> k \<le> 12) \<and>
     (\<exists>k. vp_csize v = 2 ^ k \<and> vp_csize_bits v = k) \<and>
     sector_size opts \<le> int (vp_csize v) \<and> int (vp_csize v) \<le> 4096 * sector_size opts \<and> vp_csize v \<le> max_cs \<and>
     2 ^ 20 \<le> num_sectors opts * sector_size opts \<and> num_sectors opts * sector_size opts \<le> INT64_MAX \<and>
     vp_nr_clusters v = num_sectors opts * sector_size opts div int (vp_csize v) \<and>
     0 \<le> vp_nr_clusters v \<and> vp_nr_clusters v < 2 ^ 32 \<and>
     int (vp_mft_record_size v) = max 1024 (sector_size opts) \<and> vp_mft_record_size v = 2 ^ vp_mft_record_bits v \<and>
     vp_indx_record_size v = 4096 \<and> vp_indx_record_bits v = 12"

lemma record_size_pow2:
  assumes "8 \<le> k" and "k \<le> 12"
  shows "vp_record_size 1024 (2 ^ k) = 2 ^ (max 10 k)" "vp_record_size 4096 (2 ^ k) = 2 ^ 12"
proof -
  have "k \<in> {8, 9, 10, 11, 12}" using assms by auto
  then show "vp_record_size 1024 (2 ^ k) = 2 ^ (max 10 k)" "vp_record_size 4096 (2 ^ k) = 2 ^ 12"
    by (auto simp: vp_record_size_def)
qed

lemma sizes_ok:
  assumes "vp_sizes max_cs cs0 o3 = Some (o4, v)" and "sector_size o3 = 2 ^ k" and "8 \<le> k" and "k \<le> 12"
  shows "vol_ok max_cs o4 v"
    "sector_size o4 = sector_size o3" "num_sectors o4 = num_sectors o3"
    "part_start_sect o4 = part_start_sect o3" "sectors_per_track o4 = sectors_per_track o3" "heads o4 = heads o3"
    "vp_cluster_size max_cs (sector_size o3) cs0 (num_sectors o3 * sector_size o3) = Some (vp_csize v)"
    "enable_compression o4 \<Longrightarrow> vp_csize v \<le> 4096"
proof -
  define vs where "vs = wrap64 (num_sectors o3 * sector_size o3)"
  from assms(1) obtain cs where cs: "vp_cluster_size max_cs (sector_size o3) cs0 vs = Some cs"
    and big: "2 ^ 20 \<le> vs" and comp: "vp_compression cs o3 = Some o4"
    and chk: "vs div sector_size o4 = num_sectors o4" "drop_bit 32 (vs div int cs) = 0"
    and v: "v = \<lparr>vp_csize = cs, vp_csize_bits = ffs cs - 1, vp_nr_clusters = vs div int cs,
       vp_mft_record_size = vp_record_size 1024 (sector_size o4),
       vp_mft_record_bits = ffs (vp_record_size 1024 (sector_size o4)) - 1,
       vp_indx_record_size = vp_record_size 4096 (sector_size o4),
       vp_indx_record_bits = ffs (vp_record_size 4096 (sector_size o4)) - 1\<rparr>"
    by (auto simp: vp_sizes_def Let_def vs_def split: option.splits if_splits)
  from comp show sc: "sector_size o4 = sector_size o3" "num_sectors o4 = num_sectors o3"
    "part_start_sect o4 = part_start_sect o3" "sectors_per_track o4 = sectors_per_track o3" "heads o4 = heads o3"
    by (auto simp: vp_compression_def split: if_splits)
  have k: "(2 :: int) ^ 8 \<le> sector_size o3" "sector_size o3 \<le> 2 ^ 12"
    using assms(2-4) by (simp_all only: power_increasing_iff one_less_numeral_iff semiring_norm)
  have exact: "vs = num_sectors o3 * sector_size o3"
    unfolding vs_def using chk(1) k sc by (intro wrap64_exact) (simp_all add: vs_def)
  with cs show "vp_cluster_size max_cs (sector_size o3) cs0 (num_sectors o3 * sector_size o3) = Some (vp_csize v)"
    by (simp add: v)
  have c: "\<exists>k. cs = 2 ^ k" "sector_size o3 \<le> int cs" "int cs \<le> 4096 * sector_size o3" "cs \<le> max_cs"
    using cluster_size_ok [OF cs] k big by simp_all
  then obtain j where j: "cs = 2 ^ j" by blast
  have nr: "0 \<le> vs div int cs" using big j by (simp add: pos_imp_zdiv_nonneg_iff)
  have "vs \<le> INT64_MAX" using wrap64_range(2) [of "num_sectors o3 * sector_size o3"] by (simp add: vs_def INT64_MAX_def)
  moreover have "vp_record_size 1024 (sector_size o3) = 2 ^ (max 10 k)" "vp_record_size 4096 (sector_size o3) = 2 ^ 12"
    using record_size_pow2 [OF assms(3,4)] assms(2) by simp_all
  moreover have "int (2 ^ (max 10 k)) = max 1024 (sector_size o3)"
  proof -
    have "k \<in> {8, 9, 10, 11, 12}" using assms(3,4) by auto
    then show ?thesis using assms(2) by auto
  qed
  ultimately show "vol_ok max_cs o4 v"
    using c j nr big drop_bit_zero_less [OF chk(2) nr] assms(2-4) exact sc ffs_pow2 [of 12]
    by (auto simp: vol_ok_def v)
  show "enable_compression o4 \<Longrightarrow> vp_csize v \<le> 4096"
    using comp by (auto simp: vp_compression_def v split: if_splits)
qed

lemma override_inv:
  assumes "mkntfs_override_vol_params max_cs d cs0 opts = Some (o4, v, winboot)"
  shows "\<exists>o2 o3 k. vp_geometries d o2 = Some (o3, winboot) \<and> vp_sizes max_cs cs0 o3 = Some (o4, v) \<and>
    sector_size o3 = 2 ^ k \<and> 8 \<le> k \<and> k \<le> 12"
proof -
  from assms obtain o1 o2 o3 where s: "vp_sector_size d opts = Some o1" "vp_num_sectors d o1 = Some o2"
    "vp_geometries d o2 = Some (o3, winboot)" "vp_sizes max_cs cs0 o3 = Some (o4, v)"
    by (auto simp: mkntfs_override_vol_params_def split: option.splits)
  from sector_size_ok [OF s(1)] num_sectors_sector_size [OF s(2)] geometries_ok(1) [OF s(3)]
  obtain k where k: "sector_size o3 = 2 ^ k" "8 \<le> k" "k \<le> 12" by auto
  with s(3,4) show ?thesis by blast
qed

lemma override_vol_ok: "mkntfs_override_vol_params max_cs d cs0 opts = Some (o4, v, winboot) \<Longrightarrow> vol_ok max_cs o4 v"
  using override_inv sizes_ok by blast

text \<open>
  C34: the parameters the formatter accepts make a consistent volume. Sector, cluster and record sizes
  are powers of two with their logarithms, a cluster is between one sector and 4096 sectors and at
  most the engine's maximum, the byte size did not overflow 64 bits (the consistency check that the
  source doubts to be reachable rejects a wrapped product), the clusters are counted from it and fit
  32 bits, geometry values fit their boot-sector fields, and compression is only on for clusters of at
  most 4096 bytes.
\<close>

theorem override_vol_params_ok:
  assumes "mkntfs_override_vol_params max_cs d cs0 opts = Some (o4, v, winboot)"
  shows "vol_ok max_cs o4 v \<and>
    0 \<le> part_start_sect o4 \<and> part_start_sect o4 < 2 ^ 32 \<and>
    0 \<le> sectors_per_track o4 \<and> sectors_per_track o4 \<le> 65535 \<and> 0 \<le> heads o4 \<and> heads o4 \<le> 65535 \<and>
    (enable_compression o4 \<longrightarrow> vp_csize v \<le> 4096)"
proof -
  from override_inv [OF assms] obtain o2 o3 k where s: "vp_geometries d o2 = Some (o3, winboot)" "vp_sizes max_cs cs0 o3 = Some (o4, v)"
    and k: "sector_size o3 = 2 ^ k" "8 \<le> k" "k \<le> 12" by blast
  note z = sizes_ok [OF s(2) k] and g = geometries_ok [OF s(1)]
  show ?thesis using z g by simp
qed

text \<open>
  without a given cluster size the formatter takes 4096 bytes, or the smallest power of two above it
  for which the clusters of the volume can be counted in 32 bits; a given size is used as it is.
\<close>

theorem default_cluster_size:
  assumes "mkntfs_override_vol_params max_cs d cs0 opts = Some (o4, v, winboot)"
  shows "(if cs0 \<noteq> 0 then vp_csize v = cs0
     else 4096 \<le> vp_csize v \<and> num_sectors o4 * sector_size o4 < 2 ^ 32 * int (vp_csize v) \<and>
       (vp_csize v = 4096 \<or> 2 ^ 32 * int (vp_csize v div 2) \<le> num_sectors o4 * sector_size o4))"
proof -
  from override_inv [OF assms] obtain o2 o3 k where s: "vp_geometries d o2 = Some (o3, winboot)" "vp_sizes max_cs cs0 o3 = Some (o4, v)"
    and k: "sector_size o3 = 2 ^ k" "8 \<le> k" "k \<le> 12" by blast
  note z = sizes_ok [OF s(2) k]
  have "0 < sector_size o3" "sector_size o3 \<le> 2 ^ 12"
    using k by (simp_all only: power_increasing_iff one_less_numeral_iff semiring_norm zero_less_power zero_less_numeral)
  moreover have "0 \<le> num_sectors o3 * sector_size o3" using z(1-3) by (simp add: vol_ok_def)
  ultimately show ?thesis using cluster_size_ok(5,6) [OF z(7)] z(2,3) by auto
qed


section \<open>A one-gigabyte device\<close>

text \<open>The options the bridge formats with, on a device of \<open>2 ^ 21\<close> sectors of 512 bytes.\<close>

definition ex_dev_info :: dev_info where
  "ex_dev_info = \<lparr>di_sector_size = 512, di_size = (\<lambda>s. 2 ^ 30 div s), di_part_start = 2048,
     di_sectors_per_track = -1, di_heads = -1\<rparr>"

definition ex_opts :: mkntfs_options where
  "ex_opts = mkntfs_init_options\<lparr>force := True, quick_format := True, dev_name := Some ''fskit-format''\<rparr>"

definition ex_vol_params :: vol_params where
  "ex_vol_params = \<lparr>vp_csize = 4096, vp_csize_bits = 12, vp_nr_clusters = 262143, vp_mft_record_size = 1024,
     vp_mft_record_bits = 10, vp_indx_record_size = 4096, vp_indx_record_bits = 12\<rparr>"

definition ex_opts' :: mkntfs_options where
  "ex_opts' = ex_opts\<lparr>sector_size := 512, num_sectors := 2097151, part_start_sect := 2048,
     sectors_per_track := 0, heads := 0\<rparr>"

lemma ex_override:
  "mkntfs_override_vol_params (2 ^ 21) ex_dev_info (given_cluster_size ex_opts) ex_opts =
     Some (ex_opts', ex_vol_params, False)"
proof -
  have w: "wrap64 1073741312 = 1073741312" by (simp add: wrap64_id)
  have f: "ffs 4096 = 13" "ffs 1024 = 11" using ffs_pow2 [of 12] ffs_pow2 [of 10] by simp_all
  have a: "(4096 :: nat) AND 4095 = 0" by simp
  have g: "grow_cluster_size 2097152 1073741312 4096 = Some 4096"
    by (subst grow_cluster_size.simps) (simp add: f drop_bit_eq_div)
  show ?thesis
    by (simp add: mkntfs_override_vol_params_def vp_sector_size_def vp_num_sectors_def reserved_sectors_def
        vp_geometries_def vp_geometry_def vp_sizes_def vp_cluster_size_def vp_compression_def vp_record_size_def
        given_cluster_size_def ex_dev_info_def ex_opts_def ex_opts'_def ex_vol_params_def mkntfs_init_options_def
        w f a g drop_bit_eq_div)
qed

lemma ex_vol_ok: "vol_ok (2 ^ 21) ex_opts' ex_vol_params"
  by (simp add: vol_ok_def ex_vol_params_def ex_opts'_def INT64_MAX_def exI [of _ 9] exI [of _ 12])

theorem override_vol_params_ok_witness:
  "vol_ok (2 ^ 21) ex_opts' ex_vol_params \<and> part_start_sect ex_opts' < 2 ^ 32"
  using override_vol_params_ok [OF ex_override] by (elim conjE) (intro conjI)

theorem default_cluster_size_witness:
  "vp_csize ex_vol_params = 4096 \<and> num_sectors ex_opts' * sector_size ex_opts' < 2 ^ 32 * int (vp_csize ex_vol_params)"
  using default_cluster_size [OF ex_override]
  by (simp add: given_cluster_size_def ex_opts_def mkntfs_init_options_def ex_vol_params_def)

end
