(* ===== verification/Bitmap_Alloc.thy ===== *)
theory Bitmap_Alloc
  imports Runlist
begin

text \<open>
  The cluster allocator of the formatter (\<^verbatim>\<open>mkntfs.c\<close>): the linked list of allocated runs
  \<^verbatim>\<open>g_allocation\<close> with \<open>bitmap_allocate\<close>, \<open>bitmap_deallocate\<close>, \<open>bitmap_get_and_set\<close> and
  \<open>bitmap_build\<close>, and the scattered allocation of runlists on top of it.

  The linked list is a list of records. \<open>mem\<close> is whether memory for a new node can be obtained.
\<close>

section \<open>The list of allocated runs\<close>

record bitmap_allocation =
  ba_lcn :: s64
  ba_length :: s64

type_synonym allocation = "bitmap_allocation list"

abbreviation ba_end :: "bitmap_allocation \<Rightarrow> s64" where
  "ba_end p \<equiv> ba_lcn p + ba_length p"

text \<open>
  The walk locates the first run that starts beyond the requested cluster; \<open>before\<close> are the nodes up
  to \<^verbatim>\<open>q\<close>, \<open>after\<close> the nodes from \<^verbatim>\<open>p\<close> on. As in the code, an overlapping request is reported but
  still entered.
\<close>

definition before :: "allocation \<Rightarrow> s64 \<Rightarrow> allocation" where
  "before t lcn = takeWhile (\<lambda>p. ba_lcn p \<le> lcn) t"

definition after :: "allocation \<Rightarrow> s64 \<Rightarrow> allocation" where
  "after t lcn = dropWhile (\<lambda>p. ba_lcn p \<le> lcn) t"

definition bitmap_allocate :: "bool \<Rightarrow> allocation \<Rightarrow> s64 \<Rightarrow> s64 \<Rightarrow> bool \<times> allocation" where
  "bitmap_allocate mem t lcn len =
     (if len = 0 then (True, t)
      else
        let qs = before t lcn; ps = after t lcn;
            done = \<not> ((qs \<noteq> [] \<and> ba_end (last qs) > lcn) \<or> (ps \<noteq> [] \<and> lcn + len > ba_lcn (hd ps)))
        in if qs \<noteq> [] \<and> ba_end (last qs) = lcn
           then (done, butlast qs @ [(last qs)\<lparr>ba_length := ba_length (last qs) + len\<rparr>] @ ps)
           else if mem then (done, qs @ [\<lparr>ba_lcn = lcn, ba_length = len\<rparr>] @ ps)
           else (False, t))"

text \<open>The part of the run \<open>p\<close> inside the range.\<close>

definition overlap :: "s64 \<Rightarrow> s64 \<Rightarrow> bitmap_allocation \<Rightarrow> nat" where
  "overlap lcn len p = nat (min (ba_end p) (lcn + len) - max (ba_lcn p) lcn)"

definition overlaps :: "s64 \<Rightarrow> s64 \<Rightarrow> allocation \<Rightarrow> nat" where
  "overlaps lcn len t = sum_list (map (overlap lcn len) t)"

lemma before_after: "before t lcn @ after t lcn = t"
  by (simp add: before_def after_def)

lemma overlaps_append [simp]: "overlaps lcn len (xs @ ys) = overlaps lcn len xs + overlaps lcn len ys"
  by (simp add: overlaps_def)

lemma overlaps_Cons [simp]: "overlaps lcn len (x # xs) = overlap lcn len x + overlaps lcn len xs"
  by (simp add: overlaps_def)

lemma overlaps_Nil [simp]: "overlaps lcn len [] = 0"
  by (simp add: overlaps_def)

lemma overlaps_allocate:
  assumes "0 \<le> n" and "l + n \<le> lcn \<or> lcn + len \<le> l"
  shows "overlaps lcn len (snd (bitmap_allocate mem t l n)) \<le> overlaps lcn len t"
proof -
  let ?q = "last (before t l)"
  have t: "overlaps lcn len t = overlaps lcn len (before t l) + overlaps lcn len (after t l)"
    by (metis before_after overlaps_append)
  have q: "overlaps lcn len (before t l) = overlaps lcn len (butlast (before t l)) + overlap lcn len ?q"
    if "before t l \<noteq> []"
    by (metis add.right_neutral append_butlast_last_id overlaps_Cons overlaps_Nil overlaps_append that)
  have "overlap lcn len (?q\<lparr>ba_length := ba_length ?q + n\<rparr>) \<le> overlap lcn len ?q" if "ba_end ?q = l"
    using assms that by (auto simp: overlap_def)
  moreover have "overlap lcn len \<lparr>ba_lcn = l, ba_length = n\<rparr> = 0" using assms by (auto simp: overlap_def)
  ultimately show ?thesis using t q by (auto simp: bitmap_allocate_def Let_def)
qed

text \<open>
  Deallocation: find the first run with a common part, take it out, enter what is left of its
  beginning and its end again, and start over. Each round lowers the number of allocated clusters in
  the range.
\<close>

definition first_common :: "s64 \<Rightarrow> s64 \<Rightarrow> allocation \<Rightarrow> allocation \<times> allocation" where
  "first_common lcn len t =
     (takeWhile (\<lambda>p. \<not> max (ba_lcn p) lcn < min (ba_end p) (lcn + len)) t,
      dropWhile (\<lambda>p. \<not> max (ba_lcn p) lcn < min (ba_end p) (lcn + len)) t)"

lemma first_common_Cons:
  assumes "first_common lcn len t = (qs, p # ps)"
  shows "t = qs @ p # ps" and "max (ba_lcn p) lcn < min (ba_end p) (lcn + len)"
    and "\<forall>q \<in> set qs. \<not> max (ba_lcn q) lcn < min (ba_end q) (lcn + len)"
proof -
  let ?P = "\<lambda>p. \<not> max (ba_lcn p) lcn < min (ba_end p) (lcn + len)"
  have q: "takeWhile ?P t = qs" and d: "dropWhile ?P t = p # ps" using assms by (simp_all add: first_common_def)
  show "t = qs @ p # ps" using takeWhile_dropWhile_id [of ?P t] unfolding q d by simp
  show "max (ba_lcn p) lcn < min (ba_end p) (lcn + len)" using hd_dropWhile [of ?P t] unfolding d by simp
  show "\<forall>q \<in> set qs. ?P q" unfolding q [symmetric] using set_takeWhileD by fast
qed

lemma first_common_Nil:
  assumes "first_common lcn len t = (qs, [])"
  shows "\<forall>q \<in> set t. \<not> max (ba_lcn q) lcn < min (ba_end q) (lcn + len)"
  using assms by (simp add: first_common_def dropWhile_eq_Nil_conv)

text \<open>One round: the run that was found, and the list after its remains were entered.\<close>

definition dealloc_step :: "bool \<Rightarrow> s64 \<Rightarrow> s64 \<Rightarrow> bitmap_allocation \<Rightarrow> allocation \<Rightarrow> bool \<times> allocation" where
  "dealloc_step mem lcn len p rest =
     (let first = max (ba_lcn p) lcn; last = min (ba_end p) (lcn + len);
          begin_length = first - ba_lcn p; end_length = ba_end p - last;
          (d1, t1) = (if begin_length \<noteq> 0 then bitmap_allocate mem rest (first - begin_length) begin_length
                      else (True, rest));
          (d2, t2) = (if end_length \<noteq> 0 then bitmap_allocate mem t1 last end_length else (True, t1))
      in (d1 \<and> d2, t2))"

lemma overlaps_step:
  assumes "max (ba_lcn p) lcn < min (ba_end p) (lcn + len)"
  shows "overlaps lcn len (snd (dealloc_step mem lcn len p rest)) \<le> overlaps lcn len rest"
proof -
  define first where "first = max (ba_lcn p) lcn"
  define last where "last = min (ba_end p) (lcn + len)"
  define bl where "bl = first - ba_lcn p"
  define el where "el = ba_end p - last"
  obtain d1 t1 where 1: "(if bl \<noteq> 0 then bitmap_allocate mem rest (first - bl) bl else (True, rest)) = (d1, t1)"
    by fastforce
  obtain d2 t2 where 2: "(if el \<noteq> 0 then bitmap_allocate mem t1 last el else (True, t1)) = (d2, t2)" by fastforce
  have "overlaps lcn len t1 \<le> overlaps lcn len rest"
  proof (cases "bl = 0")
    case False
    then have "0 \<le> bl" "first - bl + bl \<le> lcn" by (auto simp: bl_def first_def)
    from overlaps_allocate [of bl "first - bl" lcn len mem rest] this 1 False show ?thesis by simp
  qed (use 1 in simp)
  moreover have "overlaps lcn len t2 \<le> overlaps lcn len t1"
  proof (cases "el = 0")
    case False
    then have "0 \<le> el" "lcn + len \<le> last" by (auto simp: el_def last_def)
    from overlaps_allocate [of el last lcn len mem t1] this 2 False show ?thesis by simp
  qed (use 2 in simp)
  moreover have "dealloc_step mem lcn len p rest = (d1 \<and> d2, t2)"
    unfolding dealloc_step_def Let_def first_def [symmetric] last_def [symmetric] bl_def [symmetric] el_def [symmetric]
    using 1 2 by simp
  ultimately show ?thesis by simp
qed

function dealloc_loop :: "bool \<Rightarrow> s64 \<Rightarrow> s64 \<Rightarrow> bool \<Rightarrow> allocation \<Rightarrow> bool \<times> allocation" where
  "dealloc_loop mem lcn len ok t =
     (case first_common lcn len t of
        (qs, []) \<Rightarrow> (ok, t)
      | (qs, p # ps) \<Rightarrow>
          let (d, t') = dealloc_step mem lcn len p (qs @ ps) in dealloc_loop mem lcn len (ok \<and> d) t')"
  by pat_completeness auto
termination
proof (relation "measure (\<lambda>(mem, lcn, len, ok, t). overlaps lcn len t)", goal_cases)
  case (2 mem lcn len ok t qs pps p ps x d t')
  note f = first_common_Cons [of lcn len t qs p ps]
  have fc: "first_common lcn len t = (qs, p # ps)" using 2(1,2) by simp
  have t': "t' = snd (dealloc_step mem lcn len p (qs @ ps))" using 2(3,4) by (metis snd_conv)
  have "0 < overlap lcn len p" using f(2) [OF fc] by (auto simp: overlap_def)
  moreover have "overlaps lcn len t = overlap lcn len p + overlaps lcn len (qs @ ps)"
    unfolding f(1) [OF fc] by simp
  ultimately show ?case using overlaps_step [OF f(2) [OF fc], of mem "qs @ ps"] by (simp add: t')
qed auto

declare dealloc_loop.simps [simp del]

definition bitmap_deallocate :: "bool \<Rightarrow> allocation \<Rightarrow> s64 \<Rightarrow> s64 \<Rightarrow> bool \<times> allocation" where
  "bitmap_deallocate mem t lcn len = (if len \<noteq> 0 then dealloc_loop mem lcn len True t else (True, t))"

definition bitmap_get_and_set :: "bool \<Rightarrow> allocation \<Rightarrow> s64 \<Rightarrow> nat \<Rightarrow> bool \<times> allocation" where
  "bitmap_get_and_set mem t lcn len =
     (if len = 1 then
        let qs = before t lcn in
        if qs \<noteq> [] \<and> ba_lcn (last qs) \<le> lcn \<and> ba_end (last qs) > lcn then (True, t)
        else (False, snd (bitmap_allocate mem t lcn 1))
      else (False, t))"


section \<open>The interface: a set of allocated clusters\<close>

locale cluster_set =
  fixes invar :: "'t \<Rightarrow> bool"
    and cl :: "'t \<Rightarrow> s64 set"
    and alloc :: "'t \<Rightarrow> s64 \<Rightarrow> s64 \<Rightarrow> bool \<times> 't"
    and dealloc :: "'t \<Rightarrow> s64 \<Rightarrow> s64 \<Rightarrow> bool \<times> 't"
  assumes alloc_ok: "invar t \<Longrightarrow> 0 \<le> n \<Longrightarrow> cl t \<inter> {l ..< l + n} = {} \<Longrightarrow>
      \<exists>t'. alloc t l n = (True, t') \<and> invar t' \<and> cl t' = cl t \<union> {l ..< l + n}"
    and alloc_fail: "invar t \<Longrightarrow> 0 \<le> n \<Longrightarrow> cl t \<inter> {l ..< l + n} \<noteq> {} \<Longrightarrow> \<not> fst (alloc t l n)"
    and dealloc_ok: "invar t \<Longrightarrow> 0 \<le> n \<Longrightarrow>
      \<exists>t'. dealloc t l n = (True, t') \<and> invar t' \<and> cl t' = cl t - {l ..< l + n}"
begin

lemma alloc_iff: "invar t \<Longrightarrow> 0 \<le> n \<Longrightarrow> fst (alloc t l n) \<longleftrightarrow> cl t \<inter> {l ..< l + n} = {}"
  using alloc_ok [of t n l] alloc_fail [of t n l] by force

lemma alloc_dealloc:
  assumes "invar t" and "0 \<le> n" and "alloc t l n = (True, t')"
  shows "cl (snd (dealloc t' l n)) = cl t"
proof -
  have d: "cl t \<inter> {l ..< l + n} = {}" using alloc_iff [OF assms(1,2)] assms(3) by (metis fst_conv)
  from alloc_ok [OF assms(1,2) d] assms(3) have "invar t'" "cl t' = cl t \<union> {l ..< l + n}" by auto
  with dealloc_ok [of t' n l] assms(2) d show ?thesis by auto
qed

lemma dealloc_twice:
  assumes "invar t" and "0 \<le> n"
  shows "cl (snd (dealloc (snd (dealloc t l n)) l n)) = cl (snd (dealloc t l n))"
proof -
  from dealloc_ok [OF assms, of l] obtain t' where "dealloc t l n = (True, t')" "invar t'" "cl t' = cl t - {l ..< l + n}"
    by blast
  with dealloc_ok [of t' n l] assms(2) show ?thesis by auto
qed

end

section \<open>The list implements it\<close>

definition alloc_inv :: "allocation \<Rightarrow> bool" where
  "alloc_inv t \<longleftrightarrow> sorted_wrt (\<lambda>p q. ba_end p \<le> ba_lcn q) t \<and> (\<forall>p \<in> set t. 0 < ba_length p)"

definition clusters :: "allocation \<Rightarrow> s64 set" where
  "clusters t = (\<Union>p \<in> set t. {ba_lcn p ..< ba_end p})"

lemma clusters_simps [simp]:
  "clusters [] = {}" "clusters (p # t) = {ba_lcn p ..< ba_end p} \<union> clusters t"
  "clusters (s @ t) = clusters s \<union> clusters t"
  by (auto simp: clusters_def)

lemma alloc_inv_append:
  "alloc_inv (s @ t) \<longleftrightarrow> alloc_inv s \<and> alloc_inv t \<and> (\<forall>p \<in> set s. \<forall>q \<in> set t. ba_end p \<le> ba_lcn q)"
  by (auto simp: alloc_inv_def sorted_wrt_append)

lemma alloc_inv_Cons:
  "alloc_inv (p # t) \<longleftrightarrow> 0 < ba_length p \<and> alloc_inv t \<and> (\<forall>q \<in> set t. ba_end p \<le> ba_lcn q)"
  by (auto simp: alloc_inv_def)

lemma alloc_inv_Nil [simp]: "alloc_inv []"
  by (simp add: alloc_inv_def)

lemma alloc_inv_disjoint:
  assumes "alloc_inv (s @ p # t)"
  shows "{ba_lcn p ..< ba_end p} \<inter> clusters (s @ t) = {}"
  using assms by (fastforce simp: alloc_inv_append alloc_inv_Cons clusters_def)

text \<open>The two halves of the walk, on a list that satisfies the invariant.\<close>

lemma walk:
  assumes "alloc_inv t"
  shows "\<forall>q \<in> set (before t lcn). ba_lcn q \<le> lcn \<and> ba_end q \<le> ba_end (last (before t lcn))"
    and "\<forall>p \<in> set (after t lcn). lcn < ba_lcn p \<and> ba_lcn (hd (after t lcn)) \<le> ba_lcn p"
    and "\<forall>q \<in> set (butlast (before t lcn)). ba_end q \<le> ba_lcn (last (before t lcn))"
    and "alloc_inv (before t lcn)" and "alloc_inv (after t lcn)"
proof -
  from assms have "alloc_inv (before t lcn @ after t lcn)" by (simp add: before_after)
  then show i: "alloc_inv (before t lcn)" "alloc_inv (after t lcn)" by (simp_all add: alloc_inv_append)
  show bl: "\<forall>q \<in> set (butlast (before t lcn)). ba_end q \<le> ba_lcn (last (before t lcn))"
  proof (cases "before t lcn = []")
    case False
    then have "alloc_inv (butlast (before t lcn) @ [last (before t lcn)])" using i(1) by simp
    then show ?thesis by (simp add: alloc_inv_append)
  qed simp
  show "\<forall>q \<in> set (before t lcn). ba_lcn q \<le> lcn \<and> ba_end q \<le> ba_end (last (before t lcn))"
  proof
    fix q
    assume q: "q \<in> set (before t lcn)"
    then have "ba_lcn q \<le> lcn" by (auto simp: before_def dest: set_takeWhileD)
    moreover have "q \<in> set (butlast (before t lcn)) \<or> q = last (before t lcn)"
      using q by (metis append_butlast_last_id in_set_conv_decomp length_pos_if_in_set less_numeral_extra(3)
          list.size(3) rotate1.simps(2) set_ConsD set_rotate1)
    moreover have "last (before t lcn) \<in> set (before t lcn)" using q by (cases "before t lcn") auto
    then have "0 < ba_length (last (before t lcn))" using i(1) by (simp add: alloc_inv_def)
    ultimately show "ba_lcn q \<le> lcn \<and> ba_end q \<le> ba_end (last (before t lcn))" using bl by force
  qed
  show "\<forall>p \<in> set (after t lcn). lcn < ba_lcn p \<and> ba_lcn (hd (after t lcn)) \<le> ba_lcn p"
  proof (cases "after t lcn")
    case (Cons a as)
    then have "lcn < ba_lcn a" using hd_dropWhile [of "\<lambda>p. ba_lcn p \<le> lcn" t] by (simp add: after_def)
    moreover have "ba_lcn a \<le> ba_lcn p" if "p \<in> set as" for p
      using that i(2) Cons by (fastforce simp: alloc_inv_Cons)
    ultimately show ?thesis using Cons by fastforce
  qed simp
qed

lemma allocate_done_iff:
  assumes "alloc_inv t" and "0 < len"
  shows "fst (bitmap_allocate True t lcn len) \<longleftrightarrow> clusters t \<inter> {lcn ..< lcn + len} = {}"
proof -
  let ?qs = "before t lcn" and ?ps = "after t lcn"
  note w = walk [OF assms(1), of lcn]
  have cl: "clusters t = clusters ?qs \<union> clusters ?ps" by (metis before_after clusters_simps(3))
  have eq: "fst (bitmap_allocate True t lcn len) \<longleftrightarrow>
      \<not> ((?qs \<noteq> [] \<and> ba_end (last ?qs) > lcn) \<or> (?ps \<noteq> [] \<and> lcn + len > ba_lcn (hd ?ps)))"
    using assms(2) by (simp add: bitmap_allocate_def Let_def)
  show ?thesis
  proof (cases "(?qs \<noteq> [] \<and> ba_end (last ?qs) > lcn) \<or> (?ps \<noteq> [] \<and> lcn + len > ba_lcn (hd ?ps))")
    case True
    then have "\<exists>x. x \<in> clusters t \<and> x \<in> {lcn ..< lcn + len}"
    proof
      assume a: "?qs \<noteq> [] \<and> ba_end (last ?qs) > lcn"
      then have "last ?qs \<in> set ?qs" by simp
      then have "lcn \<in> clusters ?qs" using a w(1) unfolding clusters_def by fastforce
      with assms(2) cl show ?thesis by auto
    next
      assume a: "?ps \<noteq> [] \<and> lcn + len > ba_lcn (hd ?ps)"
      then have m: "hd ?ps \<in> set ?ps" by simp
      have "0 < ba_length (hd ?ps)" using w(5) m by (auto simp: alloc_inv_def)
      then have "ba_lcn (hd ?ps) \<in> clusters ?ps" using m unfolding clusters_def by fastforce
      moreover have "lcn < ba_lcn (hd ?ps)" using w(2) m by blast
      ultimately show ?thesis using a cl by auto
    qed
    with eq True show ?thesis by blast
  next
    case False
    have "clusters ?qs \<inter> {lcn ..< lcn + len} = {}"
      using False w(1) by (cases "?qs = []") (force simp: clusters_def)+
    moreover have "clusters ?ps \<inter> {lcn ..< lcn + len} = {}"
      using False w(2) by (cases "?ps = []") (force simp: clusters_def)+
    ultimately show ?thesis using eq False cl by blast
  qed
qed

lemma allocate_done:
  assumes "alloc_inv t" and "0 < len" and "bitmap_allocate True t lcn len = (True, t')"
  shows "alloc_inv t' \<and> clusters t' = clusters t \<union> {lcn ..< lcn + len}"
proof -
  let ?qs = "before t lcn" and ?ps = "after t lcn"
  note w = walk [OF assms(1), of lcn]
  have cl: "clusters t = clusters ?qs \<union> clusters ?ps" by (metis before_after clusters_simps(3))
  have fit: "?qs \<noteq> [] \<Longrightarrow> ba_end (last ?qs) \<le> lcn" "?ps \<noteq> [] \<Longrightarrow> lcn + len \<le> ba_lcn (hd ?ps)"
    using assms(2,3) by (auto simp: bitmap_allocate_def Let_def split: if_splits)
  have right: "lcn + len \<le> ba_lcn p" if "p \<in> set ?ps" for p
    using fit(2) w(2) that by fastforce
  show ?thesis
  proof (cases "?qs \<noteq> [] \<and> ba_end (last ?qs) = lcn")
    case True
    let ?q = "last ?qs" and ?q' = "(last ?qs)\<lparr>ba_length := ba_length (last ?qs) + len\<rparr>"
    have t': "t' = butlast ?qs @ [?q'] @ ?ps" using assms(2,3) True by (simp add: bitmap_allocate_def Let_def)
    have qs: "butlast ?qs @ [?q] = ?qs" using True by simp
    have "alloc_inv (butlast ?qs @ [?q])" using w(4) qs by simp
    then have b: "alloc_inv (butlast ?qs)" "0 < ba_length ?q" by (auto simp: alloc_inv_append alloc_inv_Cons)
    have ends: "ba_end p \<le> lcn" if "p \<in> set (butlast ?qs)" for p
      using w(3) that b(2) True by fastforce
    have "alloc_inv t'"
      using b w(3,5) right ends True assms(2) unfolding t'
      by (fastforce simp: alloc_inv_append alloc_inv_Cons)
    moreover have "clusters ?qs = clusters (butlast ?qs) \<union> {ba_lcn ?q ..< ba_end ?q}"
      using arg_cong [OF qs, of clusters] by simp
    then have "clusters t' = clusters t \<union> {lcn ..< lcn + len}"
      using True assms(2) b(2) unfolding t' cl by auto
    ultimately show ?thesis by blast
  next
    case False
    then have t': "t' = ?qs @ [\<lparr>ba_lcn = lcn, ba_length = len\<rparr>] @ ?ps"
      using assms(2,3) by (auto simp: bitmap_allocate_def Let_def split: if_splits)
    have left: "ba_end q \<le> lcn" if "q \<in> set ?qs" for q
      using w(1) fit(1) that by fastforce
    have "alloc_inv t'"
      using w(4,5) left right assms(2) unfolding t' by (fastforce simp: alloc_inv_append alloc_inv_Cons)
    moreover have "clusters t' = clusters t \<union> {lcn ..< lcn + len}" unfolding t' cl by auto
    ultimately show ?thesis by blast
  qed
qed


lemma allocate_True_cases:
  assumes "alloc_inv t" and "0 \<le> len" and "clusters t \<inter> {lcn ..< lcn + len} = {}"
  shows "\<exists>t'. bitmap_allocate True t lcn len = (True, t') \<and> alloc_inv t' \<and> clusters t' = clusters t \<union> {lcn ..< lcn + len}"
proof (cases "len = 0")
  case True
  with assms show ?thesis by (simp add: bitmap_allocate_def)
next
  case False
  with assms(2) have pos: "0 < len" by simp
  with allocate_done_iff [OF assms(1) pos, of lcn] assms(3) obtain t' where "bitmap_allocate True t lcn len = (True, t')"
    by (cases "bitmap_allocate True t lcn len") auto
  with allocate_done [OF assms(1) pos] show ?thesis by blast
qed

lemma dealloc_step_spec:
  assumes "alloc_inv (qs @ p # ps)" and "max (ba_lcn p) lcn < min (ba_end p) (lcn + len)"
  shows "\<exists>t'. dealloc_step True lcn len p (qs @ ps) = (True, t') \<and> alloc_inv t' \<and>
    clusters t' = clusters (qs @ p # ps) - ({ba_lcn p ..< ba_end p} \<inter> {lcn ..< lcn + len})"
proof -
  define first where "first = max (ba_lcn p) lcn"
  define last where "last = min (ba_end p) (lcn + len)"
  define bl where "bl = first - ba_lcn p"
  define el where "el = ba_end p - last"
  have lim: "0 \<le> bl" "0 \<le> el" "first < last" "first - bl = ba_lcn p" "last + el = ba_end p" "ba_lcn p \<le> first" "last \<le> ba_end p"
    using assms(2) by (auto simp: bl_def el_def first_def last_def)
  have inv: "alloc_inv (qs @ ps)" using assms(1) by (auto simp: alloc_inv_append alloc_inv_Cons)
  have dis: "{ba_lcn p ..< ba_end p} \<inter> clusters (qs @ ps) = {}" by (rule alloc_inv_disjoint [OF assms(1)])
  have "{first - bl ..< first - bl + bl} \<subseteq> {ba_lcn p ..< ba_end p}" using lim by auto
  with dis have "clusters (qs @ ps) \<inter> {first - bl ..< first - bl + bl} = {}" by blast
  from allocate_True_cases [OF inv lim(1) this] obtain t1 where
    t1: "bitmap_allocate True (qs @ ps) (first - bl) bl = (True, t1)" "alloc_inv t1"
      "clusters t1 = clusters (qs @ ps) \<union> {ba_lcn p ..< first}"
    using lim(4) by (auto simp: bl_def)
  have "{last ..< last + el} \<subseteq> {ba_lcn p ..< ba_end p}" "{ba_lcn p ..< first} \<inter> {last ..< last + el} = {}"
    using lim by auto
  with dis t1(3) have "clusters t1 \<inter> {last ..< last + el} = {}" by blast
  from allocate_True_cases [OF t1(2) lim(2) this] obtain t2 where
    t2: "bitmap_allocate True t1 last el = (True, t2)" "alloc_inv t2" "clusters t2 = clusters t1 \<union> {last ..< ba_end p}"
    using lim(5) by auto
  have b0: "bl = 0 \<Longrightarrow> t1 = qs @ ps" and e0: "el = 0 \<Longrightarrow> t2 = t1"
    using t1(1) t2(1) by (auto simp: bitmap_allocate_def)
  have "dealloc_step True lcn len p (qs @ ps) = (True, t2)"
    unfolding dealloc_step_def Let_def first_def [symmetric] last_def [symmetric] bl_def [symmetric] el_def [symmetric]
    using t1(1) t2(1) b0 e0 by auto
  note run = this
  have "{ba_lcn p ..< ba_end p} \<inter> {lcn ..< lcn + len} = {first ..< last}"
    by (auto simp: first_def last_def)
  moreover have "{ba_lcn p ..< ba_end p} = {ba_lcn p ..< first} \<union> {first ..< last} \<union> {last ..< ba_end p}"
    "{first ..< last} \<inter> ({ba_lcn p ..< first} \<union> {last ..< ba_end p}) = {}"
    "{first ..< last} \<subseteq> {ba_lcn p ..< ba_end p}"
    using lim by auto
  moreover have "clusters (qs @ p # ps) = clusters (qs @ ps) \<union> {ba_lcn p ..< ba_end p}" by auto
  ultimately have "clusters t2 = clusters (qs @ p # ps) - ({ba_lcn p ..< ba_end p} \<inter> {lcn ..< lcn + len})"
    unfolding t2(3) t1(3) using dis by blast
  with run show ?thesis using t2(2) by blast
qed

lemma overlaps_round:
  assumes "first_common lcn len t = (qs, p # ps)"
  shows "overlaps lcn len (snd (dealloc_step mem lcn len p (qs @ ps))) < overlaps lcn len t"
proof -
  note f = first_common_Cons [OF assms]
  have "0 < overlap lcn len p" using f(2) by (auto simp: overlap_def)
  moreover have "overlaps lcn len t = overlap lcn len p + overlaps lcn len (qs @ ps)" unfolding f(1) by simp
  ultimately show ?thesis using overlaps_step [OF f(2), of mem "qs @ ps"] by linarith
qed

lemma dealloc_loop_spec:
  assumes "alloc_inv t"
  shows "\<exists>t'. dealloc_loop True lcn len ok t = (ok, t') \<and> alloc_inv t' \<and> clusters t' = clusters t - {lcn ..< lcn + len}"
  using assms
proof (induction "overlaps lcn len t" arbitrary: t rule: less_induct)
  case less
  obtain qs rest where fc: "first_common lcn len t = (qs, rest)" by fastforce
  show ?case
  proof (cases rest)
    case Nil
    have "x \<notin> {lcn ..< lcn + len}" if "q \<in> set t" "x \<in> {ba_lcn q ..< ba_end q}" for q x
      using bspec [OF first_common_Nil [OF fc [unfolded Nil]] that(1)] that(2) by auto
    then have "clusters t - {lcn ..< lcn + len} = clusters t" unfolding clusters_def by blast
    with fc Nil less.prems show ?thesis by (simp add: dealloc_loop.simps [of True lcn len ok t])
  next
    case (Cons p ps)
    note fc = fc [unfolded Cons]
    note f = first_common_Cons [OF fc]
    have "alloc_inv (qs @ p # ps)" using less.prems f(1) by simp
    from dealloc_step_spec [OF this f(2)] obtain t1 where
      st: "dealloc_step True lcn len p (qs @ ps) = (True, t1)" "alloc_inv t1"
        "clusters t1 = clusters (qs @ p # ps) - ({ba_lcn p ..< ba_end p} \<inter> {lcn ..< lcn + len})" by blast
    have "overlaps lcn len t1 < overlaps lcn len t" using overlaps_round [OF fc, of True] st(1) by simp
    from less.hyps [OF this st(2)] obtain t' where
      t': "dealloc_loop True lcn len ok t1 = (ok, t')" "alloc_inv t'" "clusters t' = clusters t1 - {lcn ..< lcn + len}"
      by blast
    have "dealloc_loop True lcn len ok t = dealloc_loop True lcn len ok t1"
      using fc st(1) by (simp add: dealloc_loop.simps [of True lcn len ok t])
    moreover have "clusters t1 - {lcn ..< lcn + len} = clusters t - {lcn ..< lcn + len}"
      unfolding st(3) f(1) by blast
    ultimately show ?thesis using t' by simp
  qed
qed

interpretation ba: cluster_set alloc_inv clusters "bitmap_allocate True" "bitmap_deallocate True"
proof unfold_locales
  fix t l and n :: s64
  assume "alloc_inv t" and "0 \<le> n" and "clusters t \<inter> {l ..< l + n} = {}"
  then show "\<exists>t'. bitmap_allocate True t l n = (True, t') \<and> alloc_inv t' \<and> clusters t' = clusters t \<union> {l ..< l + n}"
    by (rule allocate_True_cases)
next
  fix t l and n :: s64
  assume "alloc_inv t" and n: "0 \<le> n" and ne: "clusters t \<inter> {l ..< l + n} \<noteq> {}"
  then have "0 < n" by (cases "n = 0") auto
  with allocate_done_iff [OF \<open>alloc_inv t\<close> this] ne show "\<not> fst (bitmap_allocate True t l n)" by blast
next
  fix t l and n :: s64
  assume "alloc_inv t" and "0 \<le> n"
  then show "\<exists>t'. bitmap_deallocate True t l n = (True, t') \<and> alloc_inv t' \<and> clusters t' = clusters t - {l ..< l + n}"
    using dealloc_loop_spec [of t l n True] by (auto simp: bitmap_deallocate_def)
qed

text \<open>
  C12: allocating a run of clusters succeeds exactly when all of them are free; then exactly these
  become allocated and the list stays sorted, disjoint and without empty runs.
\<close>

theorem bitmap_allocate_exact:
  assumes "alloc_inv t" and "0 \<le> len"
  shows "(fst (bitmap_allocate True t lcn len) \<longleftrightarrow> clusters t \<inter> {lcn ..< lcn + len} = {}) \<and>
    (fst (bitmap_allocate True t lcn len) \<longrightarrow> alloc_inv (snd (bitmap_allocate True t lcn len)) \<and>
       clusters (snd (bitmap_allocate True t lcn len)) = clusters t \<union> {lcn ..< lcn + len})"
proof (cases "clusters t \<inter> {lcn ..< lcn + len} = {}")
  case True
  from ba.alloc_ok [OF assms True] show ?thesis using True by auto
next
  case False
  from ba.alloc_fail [OF assms False] False show ?thesis by blast
qed

theorem bitmap_allocate_exact_witness:
  "clusters (snd (bitmap_allocate True [\<lparr>ba_lcn = 0, ba_length = 4\<rparr>, \<lparr>ba_lcn = 8, ba_length = 2\<rparr>] 4 3)) =
     {0 ..< 7} \<union> {8 ..< 10} \<and>
   \<not> fst (bitmap_allocate True [\<lparr>ba_lcn = 0, ba_length = 4\<rparr>, \<lparr>ba_lcn = 8, ba_length = 2\<rparr>] 4 5)"
proof -
  let ?t = "[\<lparr>ba_lcn = 0, ba_length = 4\<rparr>, \<lparr>ba_lcn = 8, ba_length = 2\<rparr>]"
  have i: "alloc_inv ?t" by (simp add: alloc_inv_def)
  have "(4 :: s64) + 4 \<in> clusters ?t \<inter> {4 ..< 4 + 5}" by simp
  then have "clusters ?t \<inter> {4 ..< 4 + 5} \<noteq> {}" by blast
  moreover have "clusters ?t \<inter> {4 ..< 4 + 3} = {}" by auto
  ultimately show ?thesis
    using bitmap_allocate_exact [OF i, of 3 4] bitmap_allocate_exact [OF i, of 5 4] by auto
qed

text \<open>
  C13: deallocating a range always ends and frees exactly the clusters of the range, allocated or not,
  splitting runs where necessary.
\<close>

theorem bitmap_deallocate_exact:
  assumes "alloc_inv t" and "0 \<le> len"
  shows "\<exists>t'. bitmap_deallocate True t lcn len = (True, t') \<and> alloc_inv t' \<and>
    clusters t' = clusters t - {lcn ..< lcn + len}"
  by (rule ba.dealloc_ok [OF assms])

theorem bitmap_deallocate_exact_witness:
  "\<exists>t'. bitmap_deallocate True [\<lparr>ba_lcn = 0, ba_length = 10\<rparr>] 4 3 = (True, t') \<and> clusters t' = {0 ..< 4} \<union> {7 ..< 10}"
proof -
  have "alloc_inv [\<lparr>ba_lcn = 0, ba_length = 10\<rparr>]" by (simp add: alloc_inv_def)
  from bitmap_deallocate_exact [OF this, of 3 4] show ?thesis by auto
qed


section \<open>Building the bitmap\<close>

text \<open>\<open>buf[bn >> 3] |= 1 << (bn & 7)\<close>\<close>

definition set_bit_at :: "byte list \<Rightarrow> nat \<Rightarrow> byte list" where
  "set_bit_at buf bn = buf[bn div 8 := (buf ! (bn div 8)) OR push_bit (bn mod 8) 1]"

text \<open>The three loops over one run: up to a byte boundary, whole bytes, and the rest.\<close>

function bb_head :: "nat \<Rightarrow> nat \<Rightarrow> byte list \<Rightarrow> nat \<times> byte list" where
  "bb_head lim bn buf =
     (if bn < lim \<and> bn mod 8 \<noteq> 0 then bb_head lim (Suc bn) (set_bit_at buf bn) else (bn, buf))"
  by pat_completeness auto
termination by (relation "measure (\<lambda>(lim, bn, buf). lim - bn)") auto

function bb_full :: "nat \<Rightarrow> nat \<Rightarrow> byte list \<Rightarrow> nat \<times> byte list" where
  "bb_full lim bn buf = (if bn + 7 < lim then bb_full lim (bn + 8) (buf[bn div 8 := 255]) else (bn, buf))"
  by pat_completeness auto
termination by (relation "measure (\<lambda>(lim, bn, buf). lim - bn)") auto

function bb_tail :: "nat \<Rightarrow> nat \<Rightarrow> byte list \<Rightarrow> byte list" where
  "bb_tail lim bn buf = (if bn < lim then bb_tail lim (Suc bn) (set_bit_at buf bn) else buf)"
  by pat_completeness auto
termination by (relation "measure (\<lambda>(lim, bn, buf). lim - bn)") auto

declare bb_head.simps [simp del] bb_full.simps [simp del] bb_tail.simps [simp del]

definition bb_run :: "s64 \<Rightarrow> s64 \<Rightarrow> bitmap_allocation \<Rightarrow> byte list \<Rightarrow> byte list" where
  "bb_run lcn len p buf =
     (let first = max (ba_lcn p) lcn; last = min (ba_end p) (lcn + len) in
      if first < last then
        let lim = nat (last - lcn);
            (bn1, buf1) = bb_head lim (nat (first - lcn)) buf;
            (bn2, buf2) = bb_full lim bn1 buf1
        in bb_tail lim bn2 buf2
      else buf)"

definition bitmap_build :: "allocation \<Rightarrow> byte list \<Rightarrow> s64 \<Rightarrow> s64 \<Rightarrow> byte list" where
  "bitmap_build t buf lcn len =
     (let k = (nat len + 7) div 8 in fold (bb_run lcn len) t (replicate k 0 @ drop k buf))"

definition test_bit :: "byte list \<Rightarrow> nat \<Rightarrow> bool" where
  "test_bit buf i = bit (buf ! (i div 8)) (i mod 8)"

lemma length_set_bit_at [simp]: "length (set_bit_at buf bn) = length buf"
  by (simp add: set_bit_at_def)

lemma div_mod_8_eq: "i div 8 = j div 8 \<Longrightarrow> i mod 8 = j mod 8 \<Longrightarrow> i = (j :: nat)"
  by (metis div_mult_mod_eq)

lemma test_set_bit_at:
  assumes "bn < 8 * length buf"
  shows "test_bit (set_bit_at buf bn) i \<longleftrightarrow> test_bit buf i \<or> i = bn"
proof (cases "i div 8 = bn div 8")
  case True
  then have eq: "i mod 8 = bn mod 8 \<longleftrightarrow> i = bn" using div_mod_8_eq by blast
  have "bn div 8 < length buf" using assms by (simp add: less_mult_imp_div_less mult.commute)
  then show ?thesis
    using True eq by (auto simp: test_bit_def set_bit_at_def bit_or_iff bit_exp_iff)
next
  case False
  then show ?thesis by (auto simp: test_bit_def set_bit_at_def)
qed

lemma test_full_byte:
  assumes "bn mod 8 = 0" and "bn + 7 < 8 * length buf"
  shows "test_bit (buf[bn div 8 := 255]) i \<longleftrightarrow> test_bit buf i \<or> bn \<le> i \<and> i < bn + 8"
proof -
  have l: "bn div 8 < length buf" using assms(2) by linarith
  obtain q where q: "bn = 8 * q" using assms(1) by (auto elim: dvdE simp: mod_eq_0_iff_dvd)
  have r: "bn \<le> i \<and> i < bn + 8 \<longleftrightarrow> i div 8 = bn div 8" unfolding q by (rule iffI; simp; linarith)
  have "bit (mask 8 :: byte) (i mod 8)" by (simp add: bit_mask_iff)
  moreover have "(mask 8 :: byte) = 255" by (simp add: mask_eq_exp_minus_1)
  ultimately have "bit (255 :: byte) (i mod 8)" by metis
  with l show ?thesis unfolding r by (auto simp: test_bit_def nth_list_update)
qed

lemma bb_head_spec:
  assumes "lim \<le> 8 * length buf" and "bb_head lim bn buf = (bn', buf')" and "bn \<le> lim"
  shows "length buf' = length buf" and "bn \<le> bn'" and "bn' \<le> lim" and "bn' = lim \<or> bn' mod 8 = 0"
    and "\<And>i. test_bit buf' i \<longleftrightarrow> test_bit buf i \<or> bn \<le> i \<and> i < bn'"
proof -
  have "length buf' = length buf \<and> bn \<le> bn' \<and> bn' \<le> lim \<and> (bn' = lim \<or> bn' mod 8 = 0) \<and>
      (\<forall>i. test_bit buf' i \<longleftrightarrow> test_bit buf i \<or> bn \<le> i \<and> i < bn')"
    using assms
  proof (induction lim bn buf rule: bb_head.induct)
    case (1 lim bn buf)
    show ?case
    proof (cases "bn < lim \<and> bn mod 8 \<noteq> 0")
      case True
      with "1.prems" have run: "bb_head lim (Suc bn) (set_bit_at buf bn) = (bn', buf')"
        by (simp add: bb_head.simps [of lim bn buf])
      from "1.IH" [OF True _ run] "1.prems"(1) True test_set_bit_at [of bn buf] show ?thesis
        by (auto simp: le_less_Suc_eq)
    next
      case False
      with "1.prems" show ?thesis by (auto simp: bb_head.simps [of lim bn buf])
    qed
  qed
  then show "length buf' = length buf" and "bn \<le> bn'" and "bn' \<le> lim" and "bn' = lim \<or> bn' mod 8 = 0"
    and "\<And>i. test_bit buf' i \<longleftrightarrow> test_bit buf i \<or> bn \<le> i \<and> i < bn'"
    by (elim conjE; simp)+
qed

lemma bb_full_spec:
  assumes "lim \<le> 8 * length buf" and "bb_full lim bn buf = (bn', buf')" and "bn \<le> lim"
    and "bn = lim \<or> bn mod 8 = 0"
  shows "length buf' = length buf \<and> bn \<le> bn' \<and> bn' \<le> lim \<and>
    (\<forall>i. test_bit buf' i \<longleftrightarrow> test_bit buf i \<or> bn \<le> i \<and> i < bn')"
  using assms
proof (induction lim bn buf rule: bb_full.induct)
  case (1 lim bn buf)
  show ?case
  proof (cases "bn + 7 < lim")
    case True
    with "1.prems" have run: "bb_full lim (bn + 8) (buf[bn div 8 := 255]) = (bn', buf')"
      by (simp add: bb_full.simps [of lim bn buf])
    have m: "bn mod 8 = 0" using "1.prems"(4) True by auto
    then have "(bn + 8) mod 8 = 0" by simp
    with "1.IH" [OF True _ run] "1.prems"(1) True
    have ih: "length buf' = length buf" "bn + 8 \<le> bn'" "bn' \<le> lim"
      "\<And>i. test_bit buf' i \<longleftrightarrow> test_bit (buf[bn div 8 := 255]) i \<or> bn + 8 \<le> i \<and> i < bn'" by auto
    have "test_bit buf' i \<longleftrightarrow> test_bit buf i \<or> bn \<le> i \<and> i < bn'" for i
      unfolding ih(4) using test_full_byte [OF m, of buf i] True "1.prems"(1) ih(2) by auto
    with ih show ?thesis by auto
  next
    case False
    with "1.prems" show ?thesis by (auto simp: bb_full.simps [of lim bn buf])
  qed
qed

lemma bb_tail_spec:
  assumes "lim \<le> 8 * length buf"
  shows "length (bb_tail lim bn buf) = length buf \<and>
    (\<forall>i. test_bit (bb_tail lim bn buf) i \<longleftrightarrow> test_bit buf i \<or> bn \<le> i \<and> i < lim)"
  using assms
proof (induction lim bn buf rule: bb_tail.induct)
  case (1 lim bn buf)
  show ?case
  proof (cases "bn < lim")
    case True
    with "1.IH" [OF True] "1.prems" test_set_bit_at [of bn buf] show ?thesis
      by (auto simp: bb_tail.simps [of lim bn buf])
  next
    case False
    then show ?thesis by (auto simp: bb_tail.simps [of lim bn buf])
  qed
qed

lemma bb_run_spec:
  assumes "0 \<le> len" and "nat len \<le> 8 * length buf"
  shows "length (bb_run lcn len p buf) = length buf"
    and "test_bit (bb_run lcn len p buf) i \<longleftrightarrow>
      test_bit buf i \<or> int i < len \<and> lcn + int i \<in> {ba_lcn p ..< ba_end p}"
proof -
  define first where "first = max (ba_lcn p) lcn"
  define last where "last = min (ba_end p) (lcn + len)"
  have rng: "int i < len \<and> lcn + int i \<in> {ba_lcn p ..< ba_end p} \<longleftrightarrow> first \<le> lcn + int i \<and> lcn + int i < last"
    by (auto simp: first_def last_def)
  have "length (bb_run lcn len p buf) = length buf \<and>
    (test_bit (bb_run lcn len p buf) i \<longleftrightarrow> test_bit buf i \<or> first \<le> lcn + int i \<and> lcn + int i < last)"
  proof (cases "first < last")
    case False
    then show ?thesis by (auto simp: bb_run_def Let_def first_def last_def)
  next
    case True
    define lim where "lim = nat (last - lcn)"
    define bn0 where "bn0 = nat (first - lcn)"
    have "last \<le> lcn + len" "lcn \<le> first" by (simp_all add: first_def last_def)
    then have lim: "lim \<le> 8 * length buf" "bn0 \<le> lim" using True assms by (auto simp: lim_def bn0_def)
    obtain bn1 buf1 where h: "bb_head lim bn0 buf = (bn1, buf1)" by fastforce
    obtain bn2 buf2 where f: "bb_full lim bn1 buf1 = (bn2, buf2)" by fastforce
    note hs = bb_head_spec [OF lim(1) h lim(2)]
    have l1: "lim \<le> 8 * length buf1" using lim(1) hs(1) by simp
    note fs = bb_full_spec [OF l1 f hs(3,4)]
    have l2: "lim \<le> 8 * length buf2" using l1 fs by simp
    have "bb_run lcn len p buf = bb_tail lim bn2 buf2"
      using True h f by (simp add: bb_run_def Let_def lim_def bn0_def first_def last_def)
    moreover have "bn0 \<le> i \<and> i < lim \<longleftrightarrow> first \<le> lcn + int i \<and> lcn + int i < last"
      using \<open>lcn \<le> first\<close> True by (auto simp: bn0_def lim_def)
    moreover have "test_bit (bb_tail lim bn2 buf2) i \<longleftrightarrow> test_bit buf i \<or> bn0 \<le> i \<and> i < lim"
    proof -
      have "test_bit (bb_tail lim bn2 buf2) i \<longleftrightarrow> test_bit buf2 i \<or> bn2 \<le> i \<and> i < lim"
        using bb_tail_spec [OF l2, of bn2] by blast
      moreover have "test_bit buf2 i \<longleftrightarrow> test_bit buf1 i \<or> bn1 \<le> i \<and> i < bn2" and "bn1 \<le> bn2" "bn2 \<le> lim"
        using fs by blast+
      ultimately show ?thesis using hs(2) hs(5) [of i] by linarith
    qed
    moreover have "length (bb_tail lim bn2 buf2) = length buf"
      using bb_tail_spec [OF l2, of bn2] fs hs(1) by simp
    ultimately show ?thesis by simp
  qed
  then show "length (bb_run lcn len p buf) = length buf"
    and "test_bit (bb_run lcn len p buf) i \<longleftrightarrow>
      test_bit buf i \<or> int i < len \<and> lcn + int i \<in> {ba_lcn p ..< ba_end p}"
    unfolding rng by blast+
qed

lemma bitmap_build_spec:
  assumes "0 \<le> len" and "nat len \<le> 8 * length buf" and "i < 8 * ((nat len + 7) div 8)"
  shows "test_bit (bitmap_build t buf lcn len) i \<longleftrightarrow> int i < len \<and> lcn + int i \<in> clusters t"
    "length (bitmap_build t buf lcn len) = length buf"
proof -
  let ?k = "(nat len + 7) div 8"
  have k: "?k \<le> length buf" using assms(2) by linarith
  have run: "length (fold (bb_run lcn len) t b) = length b \<and>
      (test_bit (fold (bb_run lcn len) t b) i \<longleftrightarrow> test_bit b i \<or> int i < len \<and> lcn + int i \<in> clusters t)"
    if "nat len \<le> 8 * length b" for b
    using that
  proof (induction t arbitrary: b)
    case (Cons p t)
    note r = bb_run_spec [OF assms(1) Cons.prems, of lcn p]
    from Cons.IH [of "bb_run lcn len p b"] r Cons.prems show ?case by auto
  qed simp
  have "i div 8 < ?k" using assms(3) by linarith
  then have "\<not> test_bit (replicate ?k 0 @ drop ?k buf) i" by (simp add: test_bit_def nth_append)
  moreover have "nat len \<le> 8 * length (replicate ?k (0 :: byte) @ drop ?k buf)" using assms(2) k by simp
  ultimately show "test_bit (bitmap_build t buf lcn len) i \<longleftrightarrow> int i < len \<and> lcn + int i \<in> clusters t"
    "length (bitmap_build t buf lcn len) = length buf" using run k by (simp_all add: bitmap_build_def Let_def)
qed

text \<open>
  the bitmap written to disk says exactly which clusters are allocated: in a section built for
  \<open>len\<close> clusters from \<open>lcn\<close>, bit \<open>i\<close> is set if and only if cluster \<open>lcn + i\<close> is allocated, and the
  padding bits of the last byte are clear.
\<close>

theorem bitmap_build_bits:
  assumes "0 \<le> len" and "nat len \<le> 8 * length buf" and "i < 8 * ((nat len + 7) div 8)"
  shows "test_bit (bitmap_build t buf lcn len) i \<longleftrightarrow> int i < len \<and> lcn + int i \<in> clusters t"
  using assms by (rule bitmap_build_spec)

theorem bitmap_build_bits_witness:
  "test_bit (bitmap_build [\<lparr>ba_lcn = 2, ba_length = 9\<rparr>] [0, 0] 0 16) 10 \<and>
   \<not> test_bit (bitmap_build [\<lparr>ba_lcn = 2, ba_length = 9\<rparr>] [0, 0] 0 16) 11"
  using bitmap_build_bits [of 16 "[0, 0]" 10 "[\<lparr>ba_lcn = 2, ba_length = 9\<rparr>]" 0]
    bitmap_build_bits [of 16 "[0, 0]" 11 "[\<lparr>ba_lcn = 2, ba_length = 9\<rparr>]" 0] by simp

end
