(* ===== verification/Scattered.thy ===== *)
theory Scattered
  imports Bitmap_Alloc
begin

text \<open>
  \<open>allocate_scattered_clusters\<close> and \<open>deallocate_scattered_clusters\<close> of \<^verbatim>\<open>mkntfs.c\<close>: a runlist for a
  number of clusters, taken one by one from the volume behind the MFT zone, the zone being halved
  when the volume is full. \<open>rmem\<close> tells for each requested size whether \<^verbatim>\<open>realloc\<close> succeeds; the
  nodes of the allocation list are assumed to be available.
\<close>

definition deallocate_scattered_clusters :: "allocation \<Rightarrow> runlist \<Rightarrow> allocation" where
  "deallocate_scattered_clusters t rl =
     fold (\<lambda>r t. if rl_lcn r = -1 then t else snd (bitmap_deallocate True t (rl_lcn r) (rl_length r)))
       (live_runs rl) t"

record scat =
  sc_t :: allocation
  sc_rl :: runlist
  sc_vcn :: s64
  sc_prev_lcn :: s64
  sc_prev_len :: s64
  sc_left :: s64
  sc_rlsize :: nat

datatype scan_result = Scan_done scat | Scan_next scat | Scan_err scat

text \<open>One free cluster: coalesce with the previous run or start a new one.\<close>

definition take_cluster :: "s64 \<Rightarrow> scat \<Rightarrow> scat" where
  "take_cluster lcn s =
     (if sc_prev_lcn s = lcn - sc_prev_len s then
        s\<lparr>sc_rl := (sc_rl s)[length (sc_rl s) - 1 :=
             (sc_rl s ! (length (sc_rl s) - 1))\<lparr>rl_length := sc_prev_len s + 1\<rparr>],
          sc_prev_len := sc_prev_len s + 1, sc_vcn := sc_vcn s + 1\<rparr>
      else
        s\<lparr>sc_rl := sc_rl s @ [\<lparr>rl_vcn = sc_vcn s, rl_lcn = lcn, rl_length = 1\<rparr>],
          sc_vcn := sc_vcn s + 1, sc_prev_lcn := lcn, sc_prev_len := 1\<rparr>)"

definition RL_SIZE :: nat where
  "RL_SIZE = 24"

text \<open>The loop over the clusters of the current zone, from \<open>lcn\<close> to \<open>e\<close>.\<close>

function scan_zone :: "(nat \<Rightarrow> bool) \<Rightarrow> s64 \<Rightarrow> s64 \<Rightarrow> scat \<Rightarrow> scan_result" where
  "scan_zone rmem lcn e s =
     (if lcn < e then
        (case bitmap_get_and_set True (sc_t s) lcn 1 of
           (used, t') \<Rightarrow>
             if used then scan_zone rmem (lcn + 1) e (s\<lparr>sc_t := t'\<rparr>)
             else
               let grow = (length (sc_rl s) + 2) * RL_SIZE \<ge> sc_rlsize s;
                   rlsize = (if grow then sc_rlsize s + 4096 else sc_rlsize s)
               in if grow \<and> \<not> rmem rlsize then Scan_err (s\<lparr>sc_t := t'\<rparr>)
                  else
                    let s1 = (take_cluster lcn (s\<lparr>sc_t := t', sc_rlsize := rlsize\<rparr>));
                        s2 = s1\<lparr>sc_left := sc_left s1 - 1\<rparr>
                    in if sc_left s2 = 0 then Scan_done s2 else scan_zone rmem (lcn + 1) e s2)
      else Scan_next s)"
  by pat_completeness auto
termination by (relation "measure (\<lambda>(rmem, lcn, e, s). nat (e - lcn))") auto

declare scan_zone.simps [simp del]

text \<open>
  The outer loop: \<open>zone\<close> is \<^verbatim>\<open>g_mft_zone_end\<close>. The result: the runlist with its terminator, if any,
  the allocation list and the zone end.
\<close>

definition scat_fail :: "scat \<Rightarrow> s64 \<Rightarrow> runlist option \<times> allocation \<times> s64" where
  "scat_fail s zone = (None, deallocate_scattered_clusters (sc_t s) (sc_rl s), zone)"

function scat_loop :: "(nat \<Rightarrow> bool) \<Rightarrow> s64 \<Rightarrow> s64 \<Rightarrow> scat \<Rightarrow> runlist option \<times> allocation \<times> s64" where
  "scat_loop rmem e zone s =
     (case scan_zone rmem zone e s of
        Scan_done s' \<Rightarrow>
          (Some (sc_rl s' @ [\<lparr>rl_vcn = sc_vcn s', rl_lcn = 0, rl_length = 0\<rparr>]), sc_t s', zone)
      | Scan_err s' \<Rightarrow> scat_fail s' zone
      | Scan_next s' \<Rightarrow>
          if zone div 2 \<le> 0 then scat_fail s' (zone div 2) else scat_loop rmem zone (zone div 2) s')"
  by pat_completeness auto
termination by (relation "measure (\<lambda>(rmem, e, zone, s). nat zone)") auto

declare scat_loop.simps [simp del]

definition allocate_scattered_clusters ::
  "(nat \<Rightarrow> bool) \<Rightarrow> s64 \<Rightarrow> allocation \<Rightarrow> s64 \<Rightarrow> s64 \<Rightarrow> runlist option \<times> allocation \<times> s64" where
  "allocate_scattered_clusters rmem nr t zone n =
     (if n = 0 then (None, t, zone)
      else scat_loop rmem nr zone
             \<lparr>sc_t = t, sc_rl = [], sc_vcn = 0, sc_prev_lcn = 0, sc_prev_len = 0, sc_left = n, sc_rlsize = 0\<rparr>)"

section \<open>The clusters of a runlist\<close>

definition rl_clusters :: "runlist \<Rightarrow> s64 set" where
  "rl_clusters rl = (\<Union>r \<in> set rl. {rl_lcn r ..< rl_lcn r + rl_length r})"

lemma rl_clusters_simps [simp]:
  "rl_clusters [] = {}" "rl_clusters (r # rl) = {rl_lcn r ..< rl_lcn r + rl_length r} \<union> rl_clusters rl"
  "rl_clusters (xs @ ys) = rl_clusters xs \<union> rl_clusters ys"
  by (auto simp: rl_clusters_def)

lemma live_runs_id: "\<forall>r \<in> set rl. 0 < rl_length r \<Longrightarrow> live_runs rl = rl"
  by (induction rl) auto

lemma deallocate_scattered:
  assumes "alloc_inv t" and "\<forall>r \<in> set rl. 0 < rl_length r \<and> 0 \<le> rl_lcn r"
  shows "alloc_inv (deallocate_scattered_clusters t rl) \<and>
    clusters (deallocate_scattered_clusters t rl) = clusters t - rl_clusters rl"
proof -
  have "live_runs rl = rl" using assms(2) by (simp add: live_runs_id)
  then show ?thesis
    using assms unfolding deallocate_scattered_clusters_def
  proof (simp, induction rl arbitrary: t)
    case (Cons r rl)
    then have r: "0 \<le> rl_length r" "rl_lcn r \<noteq> -1" by auto
    from ba.dealloc_ok [OF Cons.prems(2) r(1), of "rl_lcn r"] obtain t' where
      t': "bitmap_deallocate True t (rl_lcn r) (rl_length r) = (True, t')" "alloc_inv t'"
        "clusters t' = clusters t - {rl_lcn r ..< rl_lcn r + rl_length r}" by blast
    from Cons.IH [of t'] Cons.prems t' have
      "alloc_inv (fold (\<lambda>r t. if rl_lcn r = -1 then t else snd (bitmap_deallocate True t (rl_lcn r) (rl_length r))) rl t') \<and>
       clusters (fold (\<lambda>r t. if rl_lcn r = -1 then t else snd (bitmap_deallocate True t (rl_lcn r) (rl_length r))) rl t') =
         clusters t' - rl_clusters rl" by (simp add: live_runs_id)
    with t' r(2) show ?case by auto
  qed simp
qed


lemma contig_append:
  "\<forall>r \<in> set xs. 0 < rl_length r \<Longrightarrow> contig v (xs @ ys) \<longleftrightarrow> contig v xs \<and> contig (rl_end v xs) ys"
  by (induction xs arbitrary: v) auto

lemma rl_end_append:
  "\<forall>r \<in> set xs. 0 < rl_length r \<Longrightarrow> rl_end v (xs @ ys) = rl_end (rl_end v xs) ys"
  by (induction xs arbitrary: v) auto

lemma get_and_set_spec:
  assumes "alloc_inv t" and "bitmap_get_and_set True t lcn 1 = (used, t')"
  shows "used \<longleftrightarrow> lcn \<in> clusters t" and "alloc_inv t'" and "clusters t' = insert lcn (clusters t)"
proof -
  let ?qs = "before t lcn" and ?ps = "after t lcn"
  note w = walk [OF assms(1), of lcn]
  have cl: "clusters t = clusters ?qs \<union> clusters ?ps"
    using arg_cong [OF before_after [of t lcn], of clusters] by simp
  have one: "{lcn ..< lcn + 1} = {lcn}" by auto
  have hit: "lcn \<in> clusters t" if "?qs \<noteq> []" "ba_lcn (last ?qs) \<le> lcn" "ba_end (last ?qs) > lcn"
  proof -
    have m: "last ?qs \<in> set ?qs" and i: "lcn \<in> {ba_lcn (last ?qs) ..< ba_end (last ?qs)}" using that by simp_all
    have "lcn \<in> clusters ?qs" unfolding clusters_def by (rule UN_I [OF m]) (rule i)
    then show ?thesis unfolding cl by (rule UnI1)
  qed
  have miss: "lcn \<notin> clusters t" if nohit: "\<not> (?qs \<noteq> [] \<and> ba_lcn (last ?qs) \<le> lcn \<and> ba_end (last ?qs) > lcn)"
  proof
    assume "lcn \<in> clusters t"
    then consider q where "q \<in> set ?qs" "lcn \<in> {ba_lcn q ..< ba_end q}" | p where "p \<in> set ?ps" "lcn \<in> {ba_lcn p ..< ba_end p}"
      unfolding cl by (auto simp: clusters_def)
    then show False
    proof cases
      case 1
      then have "?qs \<noteq> []" by auto
      moreover from this have "ba_lcn (last ?qs) \<le> lcn" using w(1) last_in_set by blast
      moreover have "lcn < ba_end (last ?qs)" using w(1) 1 by fastforce
      ultimately show False using nohit by blast
    next
      case 2
      with w(2) show False by fastforce
    qed
  qed
  have used: "used \<longleftrightarrow> ?qs \<noteq> [] \<and> ba_lcn (last ?qs) \<le> lcn \<and> ba_end (last ?qs) > lcn"
    using assms(2) by (simp add: bitmap_get_and_set_def Let_def split: if_splits)
  show u: "used \<longleftrightarrow> lcn \<in> clusters t"
    using used hit miss by blast
  show "alloc_inv t'" and "clusters t' = insert lcn (clusters t)"
  proof -
    have "alloc_inv t' \<and> clusters t' = insert lcn (clusters t)"
    proof (cases used)
      case True
      with assms(2) have "t' = t" by (simp add: bitmap_get_and_set_def Let_def split: if_splits)
      with assms(1) u True show ?thesis by (simp add: insert_absorb)
    next
      case False
      with assms(2) have t': "t' = snd (bitmap_allocate True t lcn 1)"
        by (simp add: bitmap_get_and_set_def Let_def split: if_splits)
      have "clusters t \<inter> {lcn ..< lcn + 1} = {}" unfolding one using False u by simp
      from ba.alloc_ok [OF assms(1) _ this] obtain t2 where
        "bitmap_allocate True t lcn 1 = (True, t2)" "alloc_inv t2" "clusters t2 = clusters t \<union> {lcn ..< lcn + 1}" by auto
      with t' show ?thesis unfolding one by simp
    qed
    then show "alloc_inv t'" and "clusters t' = insert lcn (clusters t)" by blast+
  qed
qed

text \<open>
  What the loops keep, relative to the allocation \<open>t0\<close> at the start: the runs taken so far are
  contiguous in VCNs, inside the volume, disjoint from each other and from what was allocated before.
\<close>

definition scat_ok :: "s64 \<Rightarrow> allocation \<Rightarrow> s64 \<Rightarrow> scat \<Rightarrow> bool" where
  "scat_ok nr t0 n s \<longleftrightarrow>
     alloc_inv (sc_t s) \<and> rl_clusters (sc_rl s) \<inter> clusters t0 = {} \<and>
     clusters (sc_t s) = clusters t0 \<union> rl_clusters (sc_rl s) \<and>
     (\<forall>r \<in> set (sc_rl s). 0 < rl_length r \<and> 0 < rl_lcn r \<and> rl_lcn r + rl_length r \<le> nr) \<and>
     contig 0 (sc_rl s) \<and> rl_end 0 (sc_rl s) = sc_vcn s \<and> card (rl_clusters (sc_rl s)) = nat (sc_vcn s) \<and>
     0 \<le> sc_vcn s \<and> sc_vcn s + sc_left s = n \<and>
     (if sc_rl s = [] then sc_prev_lcn s = 0 \<and> sc_prev_len s = 0
      else sc_prev_lcn s = rl_lcn (last (sc_rl s)) \<and> sc_prev_len s = rl_length (last (sc_rl s)))"

lemma finite_rl_clusters [simp]: "finite (rl_clusters rl)"
  by (simp add: rl_clusters_def)

lemma take_cluster_rl:
  assumes "scat_ok nr t0 n s" and "0 < lcn" and "lcn < nr"
  defines "s' \<equiv> take_cluster lcn s"
  shows "rl_clusters (sc_rl s') = insert lcn (rl_clusters (sc_rl s)) \<and>
    (\<forall>r \<in> set (sc_rl s'). 0 < rl_length r \<and> 0 < rl_lcn r \<and> rl_lcn r + rl_length r \<le> nr) \<and>
    contig 0 (sc_rl s') \<and> rl_end 0 (sc_rl s') = sc_vcn s + 1 \<and> sc_vcn s' = sc_vcn s + 1 \<and>
    sc_rl s' \<noteq> [] \<and> sc_prev_lcn s' = rl_lcn (last (sc_rl s')) \<and> sc_prev_len s' = rl_length (last (sc_rl s')) \<and>
    sc_t s' = sc_t s \<and> sc_left s' = sc_left s \<and> sc_rlsize s' = sc_rlsize s"
proof -
  note ok = assms(1) [unfolded scat_ok_def]
  show ?thesis
  proof (cases "sc_prev_lcn s = lcn - sc_prev_len s")
    case True
    then have "sc_rl s \<noteq> []" using ok assms(2) by auto
    then obtain ys y where rl: "sc_rl s = ys @ [y]" by (metis rev_exhaust)
    let ?y = "y\<lparr>rl_length := rl_length y + 1\<rparr>"
    have prev: "sc_prev_lcn s = rl_lcn y" "sc_prev_len s = rl_length y" using ok rl by auto
    have s': "s' = s\<lparr>sc_rl := ys @ [?y], sc_prev_len := rl_length y + 1, sc_vcn := sc_vcn s + 1\<rparr>"
      unfolding s'_def take_cluster_def using True prev rl by (simp add: nth_append list_update_append)
    have lcn: "lcn = rl_lcn y + rl_length y" using True prev by simp
    have all: "\<forall>r \<in> set ys. 0 < rl_length r" "0 < rl_length y" using ok rl by auto
    have "contig 0 (ys @ [y])" "rl_end 0 (ys @ [y]) = sc_vcn s" using ok rl by auto
    then have "contig 0 ys" "rl_vcn y = rl_end 0 ys" "rl_end 0 ys + rl_length y = sc_vcn s"
      using all by (auto simp: contig_append rl_end_append)
    then have "contig 0 (ys @ [?y])" "rl_end 0 (ys @ [?y]) = sc_vcn s + 1"
      using all by (auto simp: contig_append rl_end_append)
    moreover have "rl_clusters (ys @ [?y]) = insert lcn (rl_clusters (ys @ [y]))" using lcn all(2) by auto
    ultimately show ?thesis using ok rl lcn assms(3) prev by (auto simp: s')
  next
    case False
    let ?y = "\<lparr>rl_vcn = sc_vcn s, rl_lcn = lcn, rl_length = 1\<rparr>"
    have s': "s' = s\<lparr>sc_rl := sc_rl s @ [?y], sc_vcn := sc_vcn s + 1, sc_prev_lcn := lcn, sc_prev_len := 1\<rparr>"
      unfolding s'_def take_cluster_def using False by simp
    have all: "\<forall>r \<in> set (sc_rl s). 0 < rl_length r" using ok by auto
    have "contig 0 (sc_rl s @ [?y])" "rl_end 0 (sc_rl s @ [?y]) = sc_vcn s + 1"
      using ok all by (auto simp: contig_append rl_end_append)
    then show ?thesis using ok assms(2,3) by (auto simp: s')
  qed
qed


lemma scat_ok_used:
  "scat_ok nr t0 n s \<Longrightarrow> alloc_inv t' \<Longrightarrow> clusters t' = clusters (sc_t s) \<Longrightarrow> scat_ok nr t0 n (s\<lparr>sc_t := t'\<rparr>)"
  by (simp add: scat_ok_def)

text \<open>Taking a free cluster keeps the invariant.\<close>

lemma scat_ok_take:
  assumes ok: "scat_ok nr t0 n s" and "0 < lcn" and "lcn < nr" and "lcn \<notin> clusters (sc_t s)"
    and "alloc_inv t'" and "clusters t' = insert lcn (clusters (sc_t s))"
  shows "scat_ok nr t0 n ((take_cluster lcn (s\<lparr>sc_t := t', sc_rlsize := k\<rparr>))\<lparr>sc_left := sc_left s - 1\<rparr>)"
proof -
  let ?s0 = "s\<lparr>sc_rlsize := k\<rparr>"
  let ?s1 = "take_cluster lcn (s\<lparr>sc_t := t', sc_rlsize := k\<rparr>)"
  have ok0: "scat_ok nr t0 n ?s0" using ok by (simp add: scat_ok_def)
  have eq: "?s1 = (take_cluster lcn ?s0)\<lparr>sc_t := t'\<rparr>" by (simp add: take_cluster_def)
  note t = take_cluster_rl [OF ok0 assms(2,3)]
  let ?R = "rl_clusters (sc_rl s)" and ?rl = "sc_rl (take_cluster lcn ?s0)"
  have R: "clusters (sc_t s) = clusters t0 \<union> ?R" "?R \<inter> clusters t0 = {}" "card ?R = nat (sc_vcn s)" "0 \<le> sc_vcn s"
    "sc_vcn s + sc_left s = n" using ok by (simp_all add: scat_ok_def)
  have new: "lcn \<notin> ?R" "lcn \<notin> clusters t0" using assms(4) R(1) by auto
  have rl: "rl_clusters ?rl = insert lcn ?R" using t by simp
  have "card (rl_clusters ?rl) = nat (sc_vcn s + 1)" unfolding rl using new(1) R(3,4) by (simp add: nat_add_distrib)
  moreover have "rl_clusters ?rl \<inter> clusters t0 = {}" unfolding rl using new(2) R(2) by simp
  moreover have "clusters t' = clusters t0 \<union> rl_clusters ?rl" unfolding rl assms(6) R(1) by simp
  ultimately show ?thesis unfolding scat_ok_def eq using t assms(5) R(4,5) by simp
qed

lemma scan_zone_ok:
  assumes "scat_ok nr t0 n s" and "0 < sc_left s" and "0 < lcn" and "e \<le> nr"
  shows "case scan_zone rmem lcn e s of
      Scan_done s' \<Rightarrow> scat_ok nr t0 n s' \<and> sc_left s' = 0
    | Scan_next s' \<Rightarrow> scat_ok nr t0 n s' \<and> 0 < sc_left s'
    | Scan_err s' \<Rightarrow> True"
  using assms
proof (induction rmem lcn e s rule: scan_zone.induct)
  case (1 rmem lcn e s)
  show ?case
  proof (cases "lcn < e")
    case False
    with "1.prems" show ?thesis by (simp add: scan_zone.simps [of rmem lcn e s])
  next
    case True
    obtain used t' where g: "bitmap_get_and_set True (sc_t s) lcn 1 = (used, t')" by fastforce
    have inv: "alloc_inv (sc_t s)" using "1.prems"(1) by (simp add: scat_ok_def)
    note gs = get_and_set_spec [OF inv g]
    show ?thesis
    proof (cases used)
      case used: True
      have "scat_ok nr t0 n (s\<lparr>sc_t := t'\<rparr>)"
        using scat_ok_used [OF "1.prems"(1) gs(2)] gs(1,3) used by (simp add: insert_absorb)
      from "1.IH"(1) [OF True g [symmetric] used this] "1.prems"(2-4)
      have "case scan_zone rmem (lcn + 1) e (s\<lparr>sc_t := t'\<rparr>) of
          Scan_done s' \<Rightarrow> scat_ok nr t0 n s' \<and> sc_left s' = 0
        | Scan_next s' \<Rightarrow> scat_ok nr t0 n s' \<and> 0 < sc_left s' | Scan_err s' \<Rightarrow> True" by simp
      then show ?thesis using True g used by (simp add: scan_zone.simps [of rmem lcn e s])
    next
      case free: False
      define grow where "grow = ((length (sc_rl s) + 2) * RL_SIZE \<ge> sc_rlsize s)"
      define k where "k = (if grow then sc_rlsize s + 4096 else sc_rlsize s)"
      define s1 where "s1 = take_cluster lcn (s\<lparr>sc_t := t', sc_rlsize := k\<rparr>)"
      define s2 where "s2 = s1\<lparr>sc_left := sc_left s1 - 1\<rparr>"
      have l: "sc_left s1 = sc_left s" by (simp add: s1_def take_cluster_def)
      have "lcn < nr" using True "1.prems"(4) by simp
      from scat_ok_take [OF "1.prems"(1,3) this _ gs(2,3)] gs(1) free
      have ok2: "scat_ok nr t0 n s2" unfolding s2_def l by (simp add: s1_def)
      have run: "scan_zone rmem lcn e s =
          (if grow \<and> \<not> rmem k then Scan_err (s\<lparr>sc_t := t'\<rparr>)
           else if sc_left s2 = 0 then Scan_done s2 else scan_zone rmem (lcn + 1) e s2)"
        unfolding s2_def s1_def k_def grow_def using True g free
        by (subst scan_zone.simps) (simp only: Let_def if_True if_False prod.case simp_thms)
      show ?thesis
      proof (cases "grow \<and> \<not> rmem k \<or> sc_left s2 = 0")
        case True
        then show ?thesis unfolding run using ok2 by auto
      next
        case go: False
        then have pos: "0 < sc_left s2" using "1.prems"(2) by (simp add: s2_def l)
        from "1.IH"(2) [OF True g [symmetric] free grow_def k_def _ s1_def s2_def _ ok2 pos _ "1.prems"(4)] go "1.prems"(3)
        show ?thesis unfolding run by simp
      qed
    qed
  qed
qed


lemma scan_zone_no_err: "scan_zone (\<lambda>_. True) lcn e s \<noteq> Scan_err s'"
proof (induction "nat (e - lcn)" arbitrary: lcn s rule: less_induct)
  case less
  obtain used t' where g: "bitmap_get_and_set True (sc_t s) lcn 1 = (used, t')" by fastforce
  have ih: "scan_zone (\<lambda>_. True) (lcn + 1) e x \<noteq> Scan_err s'" if "lcn < e" for x
    using less.hyps [of "lcn + 1" x] that by simp
  show ?case
    using ih g by (subst scan_zone.simps) (simp add: Let_def)
qed

text \<open>What the caller gets: a runlist, or nothing and the clusters as before.\<close>

definition scat_result :: "s64 \<Rightarrow> allocation \<Rightarrow> s64 \<Rightarrow> runlist option \<times> allocation \<times> s64 \<Rightarrow> bool" where
  "scat_result nr t0 n res \<longleftrightarrow>
     (case res of (rl, t', zone) \<Rightarrow>
        alloc_inv t' \<and>
        (case rl of
           None \<Rightarrow> clusters t' = clusters t0
         | Some xs \<Rightarrow>
             contig 0 xs \<and> rl_end 0 xs = n \<and> card (rl_clusters (live_runs xs)) = nat n \<and>
             rl_clusters (live_runs xs) \<inter> clusters t0 = {} \<and> rl_clusters (live_runs xs) \<subseteq> {1 ..< nr} \<and>
             clusters t' = clusters t0 \<union> rl_clusters (live_runs xs) \<and>
             xs \<noteq> [] \<and> live_runs xs = butlast xs \<and> rl_vcn (last xs) = n \<and> 0 < zone \<and> zone \<le> nr))"

lemma live_runs_snoc: "\<forall>r \<in> set rl. 0 < rl_length r \<Longrightarrow> live_runs (rl @ [\<lparr>rl_vcn = v, rl_lcn = l, rl_length = 0\<rparr>]) = rl"
  by (induction rl) auto

lemma scat_done_result:
  assumes ok: "scat_ok nr t0 n s" and "sc_left s = 0" and "0 < zone" and "zone \<le> nr"
  shows "scat_result nr t0 n (Some (sc_rl s @ [\<lparr>rl_vcn = sc_vcn s, rl_lcn = 0, rl_length = 0\<rparr>]), sc_t s, zone)"
proof -
  have runs: "\<forall>r \<in> set (sc_rl s). 0 < rl_length r" using ok by (simp add: scat_ok_def)
  have "rl_clusters (sc_rl s) \<subseteq> {1 ..< nr}" using ok by (fastforce simp: scat_ok_def rl_clusters_def)
  with ok assms(2-4) runs show ?thesis
    by (simp add: scat_result_def scat_ok_def live_runs_snoc contig_append rl_end_append)
qed

lemma scat_fail_result:
  assumes ok: "scat_ok nr t0 n s"
  shows "scat_result nr t0 n (scat_fail s zone)"
proof -
  have runs: "\<forall>r \<in> set (sc_rl s). 0 < rl_length r \<and> 0 \<le> rl_lcn r" and inv: "alloc_inv (sc_t s)"
    using ok by (auto simp: scat_ok_def)
  from deallocate_scattered [OF inv runs] ok show ?thesis
    by (auto simp: scat_result_def scat_fail_def scat_ok_def)
qed

lemma scat_loop_result:
  assumes "scat_ok nr t0 n s" and "0 < sc_left s" and "0 < zone" and "e \<le> nr" and "zone \<le> nr"
  shows "scat_result nr t0 n (scat_loop (\<lambda>_. True) e zone s)"
  using assms
proof (induction "nat zone" arbitrary: e zone s rule: less_induct)
  case less
  note z = scan_zone_ok [OF less.prems(1-4), of "\<lambda>_. True"]
  show ?case
  proof (cases "scan_zone (\<lambda>_. True) zone e s")
    case (Scan_done s')
    with z scat_done_result less.prems(3,5) show ?thesis by (simp add: scat_loop.simps [of "\<lambda>_. True" e zone s])
  next
    case (Scan_err s')
    with scan_zone_no_err show ?thesis by blast
  next
    case (Scan_next s')
    with z have ok: "scat_ok nr t0 n s'" "0 < sc_left s'" by simp_all
    show ?thesis
    proof (cases "zone div 2 \<le> 0")
      case True
      with Scan_next scat_fail_result [OF ok(1)] show ?thesis
        by (simp add: scat_loop.simps [of "\<lambda>_. True" e zone s])
    next
      case False
      have "nat (zone div 2) < nat zone" using less.prems(3) by simp
      from less.hyps [OF this ok _ less.prems(5)] False less.prems(3,5)
      have "scat_result nr t0 n (scat_loop (\<lambda>_. True) zone (zone div 2) s')" by simp
      with False Scan_next show ?thesis by (simp add: scat_loop.simps [of "\<lambda>_. True" e zone s])
    qed
  qed
qed

lemma allocate_scattered_result:
  assumes "alloc_inv t" and "0 < n" and "0 < zone" and "zone \<le> nr"
  shows "scat_result nr t n (allocate_scattered_clusters (\<lambda>_. True) nr t zone n)"
proof -
  let ?s = "\<lparr>sc_t = t, sc_rl = [], sc_vcn = 0, sc_prev_lcn = 0, sc_prev_len = 0, sc_left = n, sc_rlsize = 0\<rparr>"
  have "scat_ok nr t n ?s" using assms(1) by (simp add: scat_ok_def)
  from scat_loop_result [OF this] assms show ?thesis by (simp add: allocate_scattered_clusters_def)
qed



section \<open>Success\<close>

text \<open>A zone the scan has gone through without finding enough has no free cluster left.\<close>

lemma scan_zone_full:
  assumes "scan_zone rmem lcn e s = Scan_next s'" and "scat_ok nr t0 n s" and "0 < sc_left s" and "0 < lcn" and "e \<le> nr"
  shows "clusters (sc_t s) \<union> {lcn ..< e} \<subseteq> clusters (sc_t s')"
  using assms
proof (induction "nat (e - lcn)" arbitrary: lcn s rule: less_induct)
  case less
  show ?case
  proof (cases "lcn < e")
    case False
    with less.prems(1) show ?thesis by (simp add: scan_zone.simps [of rmem lcn e s])
  next
    case True
    obtain used t' where g: "bitmap_get_and_set True (sc_t s) lcn 1 = (used, t')" by fastforce
    have "alloc_inv (sc_t s)" using less.prems(2) by (simp add: scat_ok_def)
    note gs = get_and_set_spec [OF this g]
    have "\<exists>x. scan_zone rmem (lcn + 1) e x = Scan_next s' \<and> scat_ok nr t0 n x \<and> 0 < sc_left x \<and> sc_t x = t'"
    proof (cases used)
      case used: True
      have "scat_ok nr t0 n (s\<lparr>sc_t := t'\<rparr>)" using scat_ok_used [OF less.prems(2) gs(2)] gs(1,3) used by (simp add: insert_absorb)
      then show ?thesis
        using less.prems(1,3) True g used by (intro exI [of _ "s\<lparr>sc_t := t'\<rparr>"]) (simp add: scan_zone.simps [of rmem lcn e s])
    next
      case free: False
      define k where "k = (if (length (sc_rl s) + 2) * RL_SIZE \<ge> sc_rlsize s then sc_rlsize s + 4096 else sc_rlsize s)"
      define x where "x = (take_cluster lcn (s\<lparr>sc_t := t', sc_rlsize := k\<rparr>))\<lparr>sc_left := sc_left s - 1\<rparr>"
      have l: "sc_left (take_cluster lcn y) = sc_left y" "sc_t (take_cluster lcn y) = sc_t y" for y by (simp_all add: take_cluster_def)
      have ok: "scat_ok nr t0 n x"
        unfolding x_def using True less.prems(2,4,5) gs free by (intro scat_ok_take) simp_all
      have "sc_left x \<noteq> 0 \<and> scan_zone rmem (lcn + 1) e x = Scan_next s'"
        using less.prems(1) True g free
        by (simp add: scan_zone.simps [of rmem lcn e s] Let_def l x_def k_def split: if_splits)
      then show ?thesis using ok less.prems(3) by (intro exI [of _ x]) (simp add: x_def l)
    qed
    then obtain x where x: "scan_zone rmem (lcn + 1) e x = Scan_next s'" "scat_ok nr t0 n x" "0 < sc_left x" "sc_t x = t'" by blast
    have "nat (e - (lcn + 1)) < nat (e - lcn)" using True by simp
    from less.hyps [OF this x(1-3) _ less.prems(5)] less.prems(4)
    have "insert lcn (clusters (sc_t s)) \<union> {lcn + 1 ..< e} \<subseteq> clusters (sc_t s')" by (simp add: x(4) gs(3))
    moreover have "{lcn ..< e} = insert lcn {lcn + 1 ..< e}" using True by auto
    ultimately show ?thesis by auto
  qed
qed

lemma scat_loop_succeeds:
  assumes "scat_ok nr t0 n s" and "0 < sc_left s" and "0 < zone" and "e \<le> nr" and "zone \<le> nr"
    and "{e ..< nr} \<subseteq> clusters (sc_t s)" and "nat n \<le> card ({1 ..< nr} - clusters t0)"
  shows "fst (scat_loop (\<lambda>_. True) e zone s) \<noteq> None"
  using assms(1-6)
proof (induction "nat zone" arbitrary: e zone s rule: less_induct)
  case less
  note z = scan_zone_ok [OF less.prems(1-4), of "\<lambda>_. True"]
  show ?case
  proof (cases "scan_zone (\<lambda>_. True) zone e s")
    case (Scan_next s')
    with z have ok: "scat_ok nr t0 n s'" "0 < sc_left s'" by simp_all
    have full: "{zone ..< nr} \<subseteq> clusters (sc_t s')"
      using scan_zone_full [OF Scan_next less.prems(1-4)] less.prems(6) by fastforce
    have zone: "\<not> zone div 2 \<le> 0"
    proof
      assume "zone div 2 \<le> 0"
      with less.prems(3) have "zone = 1" by linarith
      with full ok(1) have "{1 ..< nr} - clusters t0 \<subseteq> rl_clusters (sc_rl s')" by (auto simp: scat_ok_def)
      then have "card ({1 ..< nr} - clusters t0) \<le> card (rl_clusters (sc_rl s'))" by (intro card_mono) simp_all
      with assms(7) have "nat n \<le> card (rl_clusters (sc_rl s'))" by simp
      moreover have "card (rl_clusters (sc_rl s')) = nat (sc_vcn s')" "sc_vcn s' + sc_left s' = n" "0 \<le> sc_vcn s'"
        using ok(1) unfolding scat_ok_def by blast+
      ultimately show False using ok(2) by simp
    qed
    have "nat (zone div 2) < nat zone" using less.prems(3) by simp
    from less.hyps [OF this ok _ less.prems(5) _ full] zone less.prems(3,5)
    show ?thesis using Scan_next by (simp add: scat_loop.simps [of "\<lambda>_. True" e zone s])
  qed (use scan_zone_no_err in \<open>simp_all add: scat_loop.simps [of "\<lambda>_. True" e zone s]\<close>)
qed

lemma allocate_scattered_enough:
  assumes "alloc_inv t" and "0 < n" and "0 < zone" and "zone \<le> nr" and "nat n \<le> card ({1 ..< nr} - clusters t)"
  shows "fst (allocate_scattered_clusters (\<lambda>_. True) nr t zone n) \<noteq> None"
proof -
  let ?s = "\<lparr>sc_t = t, sc_rl = [], sc_vcn = 0, sc_prev_lcn = 0, sc_prev_len = 0, sc_left = n, sc_rlsize = 0\<rparr>"
  have "scat_ok nr t n ?s" using assms(1) by (simp add: scat_ok_def)
  from scat_loop_succeeds [OF this _ assms(3) _ assms(4)] assms show ?thesis by (simp add: allocate_scattered_clusters_def)
qed

text \<open>
  C15: with memory at hand, allocating scattered clusters succeeds exactly when the volume has that many free clusters behind its first one: the
  halving of the MFT zone reaches every one of them, however they are scattered and however much of the volume the zone covers.
\<close>

theorem allocate_scattered_succeeds:
  assumes "alloc_inv t" and "0 < n" and "0 < zone" and "zone \<le> nr"
  shows "(\<exists>rl t' zone'. allocate_scattered_clusters (\<lambda>_. True) nr t zone n = (Some rl, t', zone')) \<longleftrightarrow>
    nat n \<le> card ({1 ..< nr} - clusters t)"
proof
  assume "\<exists>rl t' zone'. allocate_scattered_clusters (\<lambda>_. True) nr t zone n = (Some rl, t', zone')"
  then obtain rl t' zone' where "allocate_scattered_clusters (\<lambda>_. True) nr t zone n = (Some rl, t', zone')" by blast
  with allocate_scattered_result [OF assms] have rl: "card (rl_clusters (live_runs rl)) = nat n"
      "rl_clusters (live_runs rl) \<subseteq> {1 ..< nr} - clusters t"
    by (auto simp: scat_result_def)
  from card_mono [OF _ rl(2)] rl(1) show "nat n \<le> card ({1 ..< nr} - clusters t)" by simp
next
  assume "nat n \<le> card ({1 ..< nr} - clusters t)"
  from allocate_scattered_enough [OF assms this]
  show "\<exists>rl t' zone'. allocate_scattered_clusters (\<lambda>_. True) nr t zone n = (Some rl, t', zone')"
    by (cases "allocate_scattered_clusters (\<lambda>_. True) nr t zone n") auto
qed

text \<open>A volume of eight clusters whose zone covers all of them but one; the four free ones are found, a fifth is not.\<close>

theorem allocate_scattered_succeeds_witness:
  "(\<exists>rl t' zone'. allocate_scattered_clusters (\<lambda>_. True) 8 [\<lparr>ba_lcn = 0, ba_length = 2\<rparr>, \<lparr>ba_lcn = 5, ba_length = 2\<rparr>] 7 4 =
      (Some rl, t', zone')) \<and>
   \<not> (\<exists>rl t' zone'. allocate_scattered_clusters (\<lambda>_. True) 8 [\<lparr>ba_lcn = 0, ba_length = 2\<rparr>, \<lparr>ba_lcn = 5, ba_length = 2\<rparr>] 7 5 =
      (Some rl, t', zone'))"
proof -
  let ?t = "[\<lparr>ba_lcn = 0, ba_length = 2\<rparr>, \<lparr>ba_lcn = 5, ba_length = 2\<rparr>]"
  have i: "alloc_inv ?t" by (simp add: alloc_inv_def)
  have "{1 ..< 8} - clusters ?t = {2, 3, 4, 7 :: int}" by auto
  then have "card ({1 ..< 8} - clusters ?t) = 4" by simp
  with allocate_scattered_succeeds [OF i, of 4 7 8] allocate_scattered_succeeds [OF i, of 5 7 8] show ?thesis by simp
qed

end
