(* ===== verification/Layout.thy ===== *)
theory Layout
  imports Vol_Params Scattered
begin

text \<open>
  Where the formatter puts the system files (\<^verbatim>\<open>mkntfs.c\<close>): \<open>mkntfs_initialize_bitmaps\<close>,
  \<open>mkntfs_initialize_rl_mft\<close>, \<open>mkntfs_initialize_rl_logfile\<close>, \<open>mkntfs_initialize_rl_boot\<close> and
  \<open>mkntfs_initialize_rl_bad\<close>, in the order in which \<open>mkntfs_redirect\<close> calls them, on the cluster
  allocation of \<^verbatim>\<open>g_allocation\<close>.

  The record \<open>fmt\<close> holds the formatter's global variables. \<open>mem\<close> says for each request of a function,
  counted from \<open>0\<close>, whether the memory can be obtained. Masking with the complement of a power of
  two minus one is written as division and multiplication.
\<close>

section \<open>The formatter's globals\<close>

record fmt =
  g_allocation :: allocation
  g_lcn_bitmap_byte_size :: int
  g_dynamic_buf_size :: int
  g_mft_size :: int
  g_mft_bitmap_byte_size :: int
  g_mft_lcn :: int
  g_mftmirr_lcn :: int
  g_logfile_lcn :: int
  g_logfile_size :: int
  g_mft_zone_end :: int
  g_num_bad_blocks :: int
  g_bad_blocks :: "int list"
  g_rl_mft_bmp :: runlist
  g_rl_mft :: runlist
  g_rl_mftmirr :: runlist
  g_rl_logfile :: runlist
  g_rl_boot :: runlist
  g_rl_bad :: runlist

text \<open>The state a process starts with.\<close>

definition fmt0 :: fmt where
  "fmt0 = \<lparr>g_allocation = [], g_lcn_bitmap_byte_size = 0, g_dynamic_buf_size = 0, g_mft_size = 0,
     g_mft_bitmap_byte_size = 0, g_mft_lcn = 0, g_mftmirr_lcn = 0, g_logfile_lcn = 0, g_logfile_size = 0,
     g_mft_zone_end = 0, g_num_bad_blocks = 0, g_bad_blocks = [], g_rl_mft_bmp = [], g_rl_mft = [],
     g_rl_mftmirr = [], g_rl_logfile = [], g_rl_boot = [], g_rl_bad = []\<rparr>"

text \<open>\<open>mkntfs_cleanup\<close>: what it resets between two runs of one process.\<close>

definition mkntfs_cleanup :: "fmt \<Rightarrow> fmt" where
  "mkntfs_cleanup s = s\<lparr>g_allocation := [], g_num_bad_blocks := 0, g_bad_blocks := [], g_rl_mft_bmp := [],
     g_rl_mft := [], g_rl_mftmirr := [], g_rl_logfile := [], g_rl_boot := [], g_rl_bad := []\<rparr>"

definition append_to_bad_blocks :: "bool \<Rightarrow> int \<Rightarrow> fmt \<Rightarrow> bool \<times> fmt" where
  "append_to_bad_blocks mem block s =
     (if g_num_bad_blocks s mod 16 = 0 \<and> \<not> mem then (False, s)
      else (True, s\<lparr>g_bad_blocks := g_bad_blocks s @ [block], g_num_bad_blocks := g_num_bad_blocks s + 1\<rparr>))"

text \<open>A runlist of one run with its terminator.\<close>

definition one_run :: "s64 \<Rightarrow> s64 \<Rightarrow> runlist" where
  "one_run lcn len = [\<lparr>rl_vcn = 0, rl_lcn = lcn, rl_length = len\<rparr>, \<lparr>rl_vcn = len, rl_lcn = -1, rl_length = 0\<rparr>]"

definition fmt_allocate :: "bool \<Rightarrow> s64 \<Rightarrow> s64 \<Rightarrow> fmt \<Rightarrow> bool \<times> fmt" where
  "fmt_allocate mem lcn len s =
     (case bitmap_allocate mem (g_allocation s) lcn len of (ok, t) \<Rightarrow> (ok, s\<lparr>g_allocation := t\<rparr>))"

section \<open>The steps\<close>

definition csz :: "vol_params \<Rightarrow> int" where
  "csz v = int (vp_csize v)"

definition lcn_bitmap_bytes :: "int \<Rightarrow> int" where
  "lcn_bitmap_bytes nr = ((nr + 7) div 8 + 7) div 8 * 8"

definition mft_bytes :: "vol_params \<Rightarrow> int" where
  "mft_bytes v = (if 27 * int (vp_mft_record_size v) < csz v then csz v else 27 * int (vp_mft_record_size v))"

definition mkntfs_initialize_bitmaps :: "(nat \<Rightarrow> bool) \<Rightarrow> int \<Rightarrow> vol_params \<Rightarrow> fmt \<Rightarrow> bool \<times> fmt" where
  "mkntfs_initialize_bitmaps mem page v s =
     (let nr = vp_nr_clusters v;
          s1 = s\<lparr>g_lcn_bitmap_byte_size := lcn_bitmap_bytes nr, g_dynamic_buf_size := page\<rparr>
      in if \<not> mem 0 then (False, s1)
         else case fmt_allocate (mem 1) nr (lcn_bitmap_bytes nr * 8 - nr) s1 of
           (ok, s2) \<Rightarrow>
             if \<not> ok then (False, s2)
             else
               let s3 = s2\<lparr>g_mft_size := mft_bytes v,
                      g_mft_bitmap_byte_size :=
                        ((mft_bytes v div int (vp_mft_record_size v) + 7) div 8 + 7) div 8 * 8\<rparr>
               in if \<not> mem 2 \<or> \<not> mem 3 then (False, s3)
                  else
                    let i = (8192 + csz v - 1) div csz v
                    in fmt_allocate (mem 4) i 1 (s3\<lparr>g_rl_mft_bmp := one_run i 1\<rparr>))"

text \<open>The zone kept free for the growth of the MFT, as a share of the volume.\<close>

definition mft_zone :: "int \<Rightarrow> int \<Rightarrow> int" where
  "mft_zone mult nr =
     (if mult = 4 then nr div 2 else if mult = 3 then nr * 3 div 8 else if mult = 2 then nr div 4 else nr div 8)"

definition default_mft_lcn :: "vol_params \<Rightarrow> runlist_element \<Rightarrow> int" where
  "default_mft_lcn v bmp =
     (let l = rl_lcn bmp + rl_length bmp
      in if l * csz v < 16 * 1024 then (16 * 1024 + csz v - 1) div csz v else l)"

text \<open>The result of allocating the clusters of the MFT is ignored, as in the code.\<close>

definition mkntfs_initialize_rl_mft :: "(nat \<Rightarrow> bool) \<Rightarrow> mkntfs_options \<Rightarrow> vol_params \<Rightarrow> fmt \<Rightarrow> bool \<times> fmt" where
  "mkntfs_initialize_rl_mft mem opts v s =
     (let lcn = (if g_mft_lcn s = 0 then default_mft_lcn v (hd (g_rl_mft_bmp s)) else g_mft_lcn s);
          s1 = s\<lparr>g_mft_lcn := lcn, g_mft_zone_end := mft_zone (mft_zone_multiplier opts) (vp_nr_clusters v) + lcn\<rparr>
      in if \<not> mem 0 then (False, s1)
         else
           let j = (g_mft_size s1 + csz v - 1) div csz v;
               s2 = snd (fmt_allocate (mem 1) lcn j (s1\<lparr>g_rl_mft := one_run lcn j\<rparr>));
               mirr = num_sectors opts * sector_size opts div 2 div csz v;
               s3 = s2\<lparr>g_mftmirr_lcn := mirr\<rparr>
           in if \<not> mem 2 then (False, s3)
              else
                let k = (4 * int (vp_mft_record_size v) + csz v - 1) div csz v
                in (case fmt_allocate (mem 3) mirr k (s3\<lparr>g_rl_mftmirr := one_run mirr k\<rparr>) of
                      (done, s4) \<Rightarrow> (done, s4\<lparr>g_logfile_lcn := mirr + k\<rparr>)))"

definition standard_logfile_size :: "vol_params \<Rightarrow> int" where
  "standard_logfile_size v =
     (let volume_size = push_bit (vp_csize_bits v) (vp_nr_clusters v) in
      if volume_size < 2048 * 1024 then 256 * 1024
      else if volume_size < 4000000 then 512 * 1024
      else if volume_size \<le> 200 * 1024 * 1024 then 2048 * 1024
      else if volume_size \<ge> 12 * 2 ^ 30 then 64 * 2 ^ 20
      else volume_size div 200 div csz v * csz v)"

text \<open>
  Halve the log file until it ends before the volume does. Nothing bounds the loop when the log file
  would start at or behind the end of the volume.
\<close>

partial_function (option) shrink_logfile :: "int \<Rightarrow> int \<Rightarrow> int \<Rightarrow> int \<Rightarrow> int option" where
  "shrink_logfile cs lcn nr sz =
     (if lcn + sz div cs \<ge> nr then shrink_logfile cs lcn nr (sz div 2) else Some sz)"

definition mkntfs_initialize_rl_logfile :: "(nat \<Rightarrow> bool) \<Rightarrow> vol_params \<Rightarrow> fmt \<Rightarrow> (bool \<times> fmt) option" where
  "mkntfs_initialize_rl_logfile mem v s =
     (if \<not> mem 0 then Some (False, s)
      else case shrink_logfile (csz v) (g_logfile_lcn s) (vp_nr_clusters v) (standard_logfile_size v) of
        None \<Rightarrow> None
      | Some sz \<Rightarrow>
          let j = sz div csz v;
              sz' = (sz + csz v - 1) div csz v * csz v;
              s1 = s\<lparr>g_logfile_size := sz'\<rparr>
          in Some (if sz' < 256 * 1024 then (False, s1)
                   else fmt_allocate (mem 1) (g_logfile_lcn s) j (s1\<lparr>g_rl_logfile := one_run (g_logfile_lcn s) j\<rparr>)))"

definition mkntfs_initialize_rl_boot :: "(nat \<Rightarrow> bool) \<Rightarrow> vol_params \<Rightarrow> fmt \<Rightarrow> bool \<times> fmt" where
  "mkntfs_initialize_rl_boot mem v s =
     (if \<not> mem 0 then (False, s)
      else let j = (8192 + csz v - 1) div csz v in fmt_allocate (mem 1) 0 j (s\<lparr>g_rl_boot := one_run 0 j\<rparr>))"

definition mkntfs_initialize_rl_bad :: "bool \<Rightarrow> vol_params \<Rightarrow> fmt \<Rightarrow> bool \<times> fmt" where
  "mkntfs_initialize_rl_bad mem v s =
     (if \<not> mem then (False, s) else (True, s\<lparr>g_rl_bad := one_run (-1) (vp_nr_clusters v)\<rparr>))"

text \<open>The steps in the order of \<open>mkntfs_redirect\<close>; \<open>mem\<close> is given per step.\<close>

definition mkntfs_layout ::
  "(nat \<Rightarrow> nat \<Rightarrow> bool) \<Rightarrow> int \<Rightarrow> mkntfs_options \<Rightarrow> vol_params \<Rightarrow> fmt \<Rightarrow> (bool \<times> fmt) option" where
  "mkntfs_layout mem page opts v s =
     (case mkntfs_initialize_bitmaps (mem 0) page v s of
        (ok1, s1) \<Rightarrow> if \<not> ok1 then Some (False, s1)
          else case mkntfs_initialize_rl_mft (mem 1) opts v s1 of
            (ok2, s2) \<Rightarrow> if \<not> ok2 then Some (False, s2)
              else case mkntfs_initialize_rl_logfile (mem 2) v s2 of
                None \<Rightarrow> None
              | Some (ok3, s3) \<Rightarrow> if \<not> ok3 then Some (False, s3)
                  else case mkntfs_initialize_rl_boot (mem 3) v s3 of
                    (ok4, s4) \<Rightarrow> if \<not> ok4 then Some (False, s4)
                      else if \<not> mem 4 0 then Some (False, s4)
                      else Some (mkntfs_initialize_rl_bad (mem 4 1) v s4))"


section \<open>The numbers\<close>

lemma pow2_24:
  assumes "cs = 2 ^ k" and "(256 :: int) \<le> cs" and "cs \<le> 2 ^ 24"
  shows "cs \<in> {2 ^ 8, 2 ^ 9, 2 ^ 10, 2 ^ 11, 2 ^ 12, 2 ^ 13, 2 ^ 14, 2 ^ 15, 2 ^ 16, 2 ^ 17, 2 ^ 18, 2 ^ 19,
    2 ^ 20, 2 ^ 21, 2 ^ 22, 2 ^ 23, 2 ^ 24}"
proof -
  have "(2 :: int) ^ 8 \<le> 2 ^ k" using assms by simp
  then have "8 \<le> k" by (simp only: power_increasing_iff one_less_numeral_iff semiring_norm)
  moreover have "k \<le> 24" using assms(1,3) by (simp only: power_increasing_iff one_less_numeral_iff semiring_norm)
  ultimately have "k \<in> {8, 9, 10, 11, 12, 13, 14, 15, 16, 17, 18, 19, 20, 21, 22, 23, 24}"
    unfolding insert_iff empty_iff by presburger
  with assms(1) show ?thesis by blast
qed

text \<open>Sizes in clusters: the boot area, the start of the MFT, the MFT and its mirror.\<close>

definition boot_cl :: "int \<Rightarrow> int" where
  "boot_cl cs = (8192 + cs - 1) div cs"

definition mft_start :: "int \<Rightarrow> int" where
  "mft_start cs = (if (boot_cl cs + 1) * cs < 16384 then (16384 + cs - 1) div cs else boot_cl cs + 1)"

definition mft_cl :: "int \<Rightarrow> int \<Rightarrow> int" where
  "mft_cl mrs cs = ((if 27 * mrs < cs then cs else 27 * mrs) + cs - 1) div cs"

definition mirr_cl :: "int \<Rightarrow> int \<Rightarrow> int" where
  "mirr_cl mrs cs = (4 * mrs + cs - 1) div cs"

lemmas cl_defs = boot_cl_def mft_start_def mft_cl_def mirr_cl_def

lemma boot_numbers:
  assumes "cs = 2 ^ k" and "(256 :: int) \<le> cs" and "cs \<le> 2 ^ 24"
  shows "1 \<le> boot_cl cs \<and> boot_cl cs < mft_start cs \<and>
    (2 ^ 20 div cs \<le> 2 \<or> 2 * mft_start cs \<le> 2 ^ 20 div cs) \<and>
    (2 ^ 20 div cs \<le> 2 \<longrightarrow> boot_cl cs = 1 \<and> mft_start cs = 2)"
  using pow2_24 [OF assms] by (elim insertE emptyE) (simp_all add: cl_defs)

lemma mft_numbers:
  assumes "cs = 2 ^ k" and "(256 :: int) \<le> cs" and "cs \<le> 2 ^ 24" and "mrs \<in> {1024, 2048, 4096}"
  shows "1 \<le> mirr_cl mrs cs \<and> mirr_cl mrs cs \<le> mft_cl mrs cs \<and>
    mft_start cs + mft_cl mrs cs \<le> max 3 (2 ^ 20 div cs) \<and>
    (2 ^ 20 div cs \<le> 2 \<longrightarrow> mft_cl mrs cs = 1 \<and> mirr_cl mrs cs = 1)"
  using assms(4) pow2_24 [OF assms(1-3)] by (elim insertE emptyE) (simp_all add: cl_defs)

lemma mirr_numbers:
  assumes "(256 :: int) \<le> cs" and "mrs \<in> {1024, 2048, 4096}" and "mrs \<le> max 1024 cs"
  shows "mirr_cl mrs cs \<le> 16"
proof -
  have "4 * mrs \<le> 16 * cs" using assms by auto
  then have "(4 * mrs + cs - 1) div cs \<le> ((cs - 1) + 16 * cs) div cs" using assms(1) by (intro zdiv_mono1) simp_all
  also have "\<dots> = 16" using assms(1) by (subst div_mult_self1) simp_all
  finally show ?thesis by (simp add: mirr_cl_def)
qed

lemma vol_ok_numbers:
  assumes "vol_ok max_cs opts v"
  shows "\<exists>k. csz v = 2 ^ k \<and> vp_csize_bits v = k" "256 \<le> csz v" "csz v \<le> 2 ^ 24"
    "int (vp_mft_record_size v) \<in> {1024, 2048, 4096}" "int (vp_mft_record_size v) \<le> max 1024 (csz v)"
    "2 ^ 20 div csz v \<le> vp_nr_clusters v"
    "num_sectors opts * sector_size opts div 2 div csz v = vp_nr_clusters v div 2"
proof -
  obtain j where j: "sector_size opts = 2 ^ j" "8 \<le> j" "j \<le> 12" using assms by (auto simp: vol_ok_def)
  then have "j \<in> {8, 9, 10, 11, 12}" by auto
  with j(1) have sec: "sector_size opts \<in> {256, 512, 1024, 2048, 4096}" by auto
  have c: "sector_size opts \<le> csz v" "csz v \<le> 4096 * sector_size opts"
    using assms unfolding vol_ok_def csz_def by blast+
  show "\<exists>k. csz v = 2 ^ k \<and> vp_csize_bits v = k" using assms by (auto simp: vol_ok_def csz_def)
  show "256 \<le> csz v" "csz v \<le> 2 ^ 24" using sec c by auto
  have m: "int (vp_mft_record_size v) = max 1024 (sector_size opts)"
    using assms unfolding vol_ok_def by blast
  then show "int (vp_mft_record_size v) \<in> {1024, 2048, 4096}" "int (vp_mft_record_size v) \<le> max 1024 (csz v)"
    using sec c by auto
  have nr: "vp_nr_clusters v = num_sectors opts * sector_size opts div csz v"
    "2 ^ 20 \<le> num_sectors opts * sector_size opts" using assms unfolding vol_ok_def csz_def by blast+
  have pos: "0 < csz v" using \<open>256 \<le> csz v\<close> by simp
  with nr show "2 ^ 20 div csz v \<le> vp_nr_clusters v" by (simp add: zdiv_mono1)
  show "num_sectors opts * sector_size opts div 2 div csz v = vp_nr_clusters v div 2"
    using pos by (simp add: nr(1) zdiv_zmult2_eq [symmetric] mult.commute)
qed

section \<open>Shrinking the log file\<close>

lemma shrink_logfile_ends:
  assumes "lcn < nr" and "0 \<le> sz" and "0 < cs"
  shows "\<exists>r. shrink_logfile cs lcn nr sz = Some r \<and> 0 \<le> r \<and> lcn + r div cs < nr"
  using assms(2)
proof (induction "nat sz" arbitrary: sz rule: less_induct)
  case less
  show ?case
  proof (cases "lcn + sz div cs \<ge> nr")
    case True
    with assms have "sz \<noteq> 0" by auto
    with less.prems have "nat (sz div 2) < nat sz" "0 \<le> sz div 2" by auto
    from less.hyps [OF this] True show ?thesis by (subst shrink_logfile.simps) simp
  next
    case False
    with less.prems show ?thesis by (subst shrink_logfile.simps) simp
  qed
qed

lemma shrink_logfile_result:
  assumes "shrink_logfile cs lcn nr sz = Some r"
  shows "lcn + r div cs < nr \<and> (0 \<le> sz \<longrightarrow> 0 \<le> r)"
  using assms
proof (induction rule: shrink_logfile.raw_induct [rotated, consumes 1])
  case (1 f cs lcn nr sz r)
  show ?case
  proof (cases "lcn + sz div cs \<ge> nr")
    case True
    with 1(2) have "f cs lcn nr (sz div 2) = Some r" by simp
    from 1(1) [OF this] show ?thesis by auto
  next
    case False
    with 1(2) show ?thesis by auto
  qed
qed


section \<open>The steps place disjoint areas\<close>

abbreviation all_mem :: "nat \<Rightarrow> nat \<Rightarrow> bool" where
  "all_mem \<equiv> \<lambda>_ _. True"

text \<open>The bits of \<^verbatim>\<open>$Bitmap\<close> behind the last cluster.\<close>

definition tail :: "int \<Rightarrow> int set" where
  "tail nr = {nr ..< lcn_bitmap_bytes nr * 8}"

lemma lcn_bitmap_bytes_bounds:
  "nr \<le> lcn_bitmap_bytes nr * 8" "nr mod 64 \<noteq> 0 \<Longrightarrow> nr < lcn_bitmap_bytes nr * 8"
proof -
  define a where "a = (nr + 7) div 8"
  have "nr \<le> a * 8" using round_up_int_ge [of 8 nr] by (simp add: a_def)
  moreover have "a \<le> (a + 7) div 8 * 8" using round_up_int_ge [of 8 a] by simp
  ultimately have le: "nr \<le> (a + 7) div 8 * 64" by simp
  have B: "lcn_bitmap_bytes nr * 8 = (a + 7) div 8 * 64" by (simp add: lcn_bitmap_bytes_def a_def)
  from le B show "nr \<le> lcn_bitmap_bytes nr * 8" by simp
  show "nr < lcn_bitmap_bytes nr * 8" if "nr mod 64 \<noteq> 0"
  proof (rule ccontr)
    assume "\<not> nr < lcn_bitmap_bytes nr * 8"
    with le B have "nr = (a + 7) div 8 * 64" by simp
    with that show False by (metis mod_mult_self2_is_0)
  qed
qed

lemma fmt_allocate_ok:
  assumes "alloc_inv (g_allocation s)" and "0 \<le> len" and "fmt_allocate True lcn len s = (True, s')"
  shows "\<exists>t. s' = s\<lparr>g_allocation := t\<rparr> \<and> alloc_inv t \<and> clusters (g_allocation s) \<inter> {lcn ..< lcn + len} = {} \<and>
    clusters t = clusters (g_allocation s) \<union> {lcn ..< lcn + len}"
proof -
  obtain t where t: "bitmap_allocate True (g_allocation s) lcn len = (True, t)" "s' = s\<lparr>g_allocation := t\<rparr>"
    using assms(3) by (auto simp: fmt_allocate_def split: prod.splits)
  then have d: "clusters (g_allocation s) \<inter> {lcn ..< lcn + len} = {}"
    using ba.alloc_iff [OF assms(1,2), of lcn] by simp
  from ba.alloc_ok [OF assms(1,2) d] t show ?thesis using d by auto
qed

lemma fmt_allocate_free:
  assumes "alloc_inv (g_allocation s)" and "0 \<le> len" and "clusters (g_allocation s) \<inter> {lcn ..< lcn + len} = {}"
  shows "\<exists>s'. fmt_allocate True lcn len s = (True, s')"
  using ba.alloc_ok [OF assms] by (auto simp: fmt_allocate_def)

lemma initialize_bitmaps_ok:
  assumes "mkntfs_initialize_bitmaps (\<lambda>_. True) page v s = (True, s1)" and "g_allocation s = []"
  shows "alloc_inv (g_allocation s1)" "boot_cl (csz v) \<notin> tail (vp_nr_clusters v)"
    "clusters (g_allocation s1) = tail (vp_nr_clusters v) \<union> {boot_cl (csz v)}"
    "g_rl_mft_bmp s1 = one_run (boot_cl (csz v)) 1" "g_mft_size s1 = mft_bytes v" "g_mft_lcn s1 = g_mft_lcn s"
    "g_lcn_bitmap_byte_size s1 = lcn_bitmap_bytes (vp_nr_clusters v)"
proof -
  define nr where "nr = vp_nr_clusters v"
  define sa where "sa = s\<lparr>g_lcn_bitmap_byte_size := lcn_bitmap_bytes nr, g_dynamic_buf_size := page\<rparr>"
  obtain ok sb where sb: "fmt_allocate True nr (lcn_bitmap_bytes nr * 8 - nr) sa = (ok, sb)" by fastforce
  define sc where "sc = sb\<lparr>g_mft_size := mft_bytes v,
    g_mft_bitmap_byte_size := ((mft_bytes v div int (vp_mft_record_size v) + 7) div 8 + 7) div 8 * 8,
    g_rl_mft_bmp := one_run (boot_cl (csz v)) 1\<rparr>"
  have ok: ok and s1: "fmt_allocate True (boot_cl (csz v)) 1 sc = (True, s1)"
    using assms(1) sb by (auto simp: mkntfs_initialize_bitmaps_def Let_def nr_def sa_def sc_def boot_cl_def split: if_splits)
  have "alloc_inv (g_allocation sa)" by (simp add: sa_def assms(2))
  from fmt_allocate_ok [OF this _ sb [unfolded ok [THEN eqTrueI]]] lcn_bitmap_bytes_bounds(1) [of nr]
  obtain t where t: "sb = sa\<lparr>g_allocation := t\<rparr>" "alloc_inv t" "clusters t = tail nr"
    by (auto simp: sa_def assms(2) tail_def)
  have "alloc_inv (g_allocation sc)" by (simp add: sc_def t)
  from fmt_allocate_ok [OF this _ s1] obtain t' where t': "s1 = sc\<lparr>g_allocation := t'\<rparr>" "alloc_inv t'"
    "clusters (g_allocation sc) \<inter> {boot_cl (csz v) ..< boot_cl (csz v) + 1} = {}"
    "clusters t' = clusters (g_allocation sc) \<union> {boot_cl (csz v) ..< boot_cl (csz v) + 1}" by auto
  have one: "{x ..< x + 1} = {x}" for x :: int by auto
  have ct: "clusters (g_allocation sc) = tail nr" by (simp add: sc_def t)
  show "alloc_inv (g_allocation s1)" using t' by simp
  show "boot_cl (csz v) \<notin> tail (vp_nr_clusters v)" using t'(3) unfolding one ct nr_def by blast
  show "clusters (g_allocation s1) = tail (vp_nr_clusters v) \<union> {boot_cl (csz v)}"
    using t'(4) unfolding one ct by (simp add: t'(1) nr_def)
  show "g_rl_mft_bmp s1 = one_run (boot_cl (csz v)) 1" "g_mft_size s1 = mft_bytes v" "g_mft_lcn s1 = g_mft_lcn s"
    "g_lcn_bitmap_byte_size s1 = lcn_bitmap_bytes (vp_nr_clusters v)"
    by (simp_all add: t' sc_def t sa_def nr_def)
qed


lemma mft_zone_bounds: "0 \<le> nr \<Longrightarrow> 0 \<le> mft_zone mult nr \<and> mft_zone mult nr \<le> nr div 2"
proof -
  assume nr: "0 \<le> nr"
  have "nr * 3 div 8 \<le> nr * 4 div 8" using nr by (intro zdiv_mono1) simp_all
  also have "nr * 4 div 8 = nr div 2" using div_mult_mult2 [of 4 nr 2] by simp
  finally have "nr * 3 div 8 \<le> nr div 2" .
  moreover have "nr div 4 \<le> nr div 2" "nr div 8 \<le> nr div 2" using nr by (simp_all add: zdiv_mono2)
  moreover have "0 \<le> nr * 3 div 8" "0 \<le> nr div 4" "0 \<le> nr div 8" using nr by simp_all
  ultimately show ?thesis using nr by (simp add: mft_zone_def)
qed

lemma default_mft_lcn_start:
  "g_rl_mft_bmp s = one_run (boot_cl (csz v)) 1 \<Longrightarrow> default_mft_lcn v (hd (g_rl_mft_bmp s)) = mft_start (csz v)"
  by (simp add: default_mft_lcn_def one_run_def mft_start_def Let_def)

lemma initialize_rl_mft_shape:
  assumes "mkntfs_initialize_rl_mft (\<lambda>_. True) opts v s = (True, s')"
    and "g_mft_lcn s = 0" and "g_rl_mft_bmp s = one_run (boot_cl (csz v)) 1" and "g_mft_size s = mft_bytes v"
    and "mirr = num_sectors opts * sector_size opts div 2 div csz v"
    and "l = mft_start (csz v)" and "j = mft_cl (int (vp_mft_record_size v)) (csz v)"
    and "k = mirr_cl (int (vp_mft_record_size v)) (csz v)"
  shows "\<exists>ok sa sb. fmt_allocate True l j (s\<lparr>g_mft_lcn := l,
      g_mft_zone_end := mft_zone (mft_zone_multiplier opts) (vp_nr_clusters v) + l, g_rl_mft := one_run l j\<rparr>) = (ok, sa) \<and>
    fmt_allocate True mirr k (sa\<lparr>g_mftmirr_lcn := mirr, g_rl_mftmirr := one_run mirr k\<rparr>) = (True, sb) \<and>
    s' = sb\<lparr>g_logfile_lcn := mirr + k\<rparr>"
proof -
  have e: "default_mft_lcn v (hd (g_rl_mft_bmp s)) = l" "(mft_bytes v + csz v - 1) div csz v = j"
    "(4 * int (vp_mft_record_size v) + csz v - 1) div csz v = k"
    "num_sectors opts * sector_size opts div 2 div csz v = mirr"
    using default_mft_lcn_start [OF assms(3)] by (simp_all add: assms(5-8) mft_bytes_def mft_cl_def mirr_cl_def)
  obtain ok sa where sa: "fmt_allocate True l j (s\<lparr>g_mft_lcn := l,
      g_mft_zone_end := mft_zone (mft_zone_multiplier opts) (vp_nr_clusters v) + l, g_rl_mft := one_run l j\<rparr>) = (ok, sa)"
    by fastforce
  obtain ok2 sb where sb:
    "fmt_allocate True mirr k (sa\<lparr>g_mftmirr_lcn := mirr, g_rl_mftmirr := one_run mirr k\<rparr>) = (ok2, sb)" by fastforce
  have "mkntfs_initialize_rl_mft (\<lambda>_. True) opts v s = (ok2, sb\<lparr>g_logfile_lcn := mirr + k\<rparr>)"
    unfolding mkntfs_initialize_rl_mft_def Let_def by (simp add: e assms(2,4) sa sb)
  with assms(1) sa sb show ?thesis by auto
qed

lemma initialize_rl_mft_ok:
  assumes v: "vol_ok max_cs opts v" and nr3: "3 \<le> vp_nr_clusters v"
    and r: "mkntfs_initialize_rl_mft (\<lambda>_. True) opts v s = (True, s')"
    and s: "g_mft_lcn s = 0" "g_rl_mft_bmp s = one_run (boot_cl (csz v)) 1" "g_mft_size s = mft_bytes v"
      "alloc_inv (g_allocation s)" "clusters (g_allocation s) = tail (vp_nr_clusters v) \<union> {boot_cl (csz v)}"
    and l: "l = mft_start (csz v)" and j: "j = mft_cl (int (vp_mft_record_size v)) (csz v)"
    and k: "k = mirr_cl (int (vp_mft_record_size v)) (csz v)" and m: "m = vp_nr_clusters v div 2"
  shows "boot_cl (csz v) < l" "0 < j" "0 < k" "l + j \<le> m" "m + k < vp_nr_clusters v"
    "alloc_inv (g_allocation s')"
    "clusters (g_allocation s') = tail (vp_nr_clusters v) \<union> {boot_cl (csz v)} \<union> {l ..< l + j} \<union> {m ..< m + k}"
    "g_rl_mft_bmp s' = one_run (boot_cl (csz v)) 1" "g_rl_mft s' = one_run l j" "g_rl_mftmirr s' = one_run m k"
    "g_logfile_lcn s' = m + k" "0 < g_mft_zone_end s'" "g_mft_zone_end s' \<le> vp_nr_clusters v"
proof -
  define nr where "nr = vp_nr_clusters v"
  define b where "b = boot_cl (csz v)"
  note vn = vol_ok_numbers [OF v]
  obtain e where e: "csz v = 2 ^ e" using vn(1) by blast
  note bn = boot_numbers [OF e vn(2,3)] and mn = mft_numbers [OF e vn(2,3,4)]
  have num: "1 \<le> b" "b < l" "1 \<le> k" "k \<le> j" using bn mn by (simp_all add: b_def l j k)
  have lj: "l + j \<le> nr" using mn vn(6) nr3 by (auto simp: l j nr_def)
  have small: "2 * l \<le> nr \<or> l = 2 \<and> b = 1" using bn vn(6) by (auto simp: l b_def nr_def)
  obtain ok sa sb where
    a: "fmt_allocate True l j (s\<lparr>g_mft_lcn := l, g_mft_zone_end := mft_zone (mft_zone_multiplier opts) nr + l,
         g_rl_mft := one_run l j\<rparr>) = (ok, sa)"
    and c: "fmt_allocate True m k (sa\<lparr>g_mftmirr_lcn := m, g_rl_mftmirr := one_run m k\<rparr>) = (True, sb)"
    and s': "s' = sb\<lparr>g_logfile_lcn := m + k\<rparr>"
    using initialize_rl_mft_shape [OF r s(1-3) vn(7) [symmetric, folded m] l j k] by (auto simp: nr_def m)
  have "clusters (g_allocation s) \<inter> {l ..< l + j} = {}"
    using lj num by (auto simp: s(5) tail_def nr_def b_def)
  then have ok using fmt_allocate_free [of "s\<lparr>g_mft_lcn := l, g_mft_zone_end := mft_zone (mft_zone_multiplier opts) nr + l,
         g_rl_mft := one_run l j\<rparr>" j l] a s(4) num by auto
  with fmt_allocate_ok [OF _ _ a [unfolded eqTrueI [OF this]]] s(4) num obtain t where
    t: "sa = s\<lparr>g_mft_lcn := l, g_mft_zone_end := mft_zone (mft_zone_multiplier opts) nr + l,
          g_rl_mft := one_run l j, g_allocation := t\<rparr>" "alloc_inv t"
      "clusters t = tail nr \<union> {b} \<union> {l ..< l + j}" by (auto simp: s(5) nr_def b_def)
  from fmt_allocate_ok [OF _ _ c] t num obtain t' where
    t': "sb = sa\<lparr>g_mftmirr_lcn := m, g_rl_mftmirr := one_run m k, g_allocation := t'\<rparr>" "alloc_inv t'"
      "clusters t \<inter> {m ..< m + k} = {}" "clusters t' = clusters t \<union> {m ..< m + k}" by auto
  have mb: "b \<notin> {m ..< m + k}" and ml: "{l ..< l + j} \<inter> {m ..< m + k} = {}" using t'(3) unfolding t(3) by blast+
  have "l + j \<le> m \<or> m + k \<le> l"
  proof (rule ccontr)
    assume "\<not> (l + j \<le> m \<or> m + k \<le> l)"
    then have "max l m \<in> {l ..< l + j} \<inter> {m ..< m + k}" using num by auto
    with ml show False by blast
  qed
  moreover have "\<not> m + k \<le> l"
  proof
    assume mk: "m + k \<le> l"
    have "\<not> 2 * l \<le> nr" using mk num m by (simp add: nr_def)
    with small have "l = 2" "b = 1" by auto
    with mk num nr3 m have "m = 1" by auto
    with mb \<open>b = 1\<close> num show False by auto
  qed
  ultimately have ljm: "l + j \<le> m" by blast
  have z: "0 \<le> mft_zone (mft_zone_multiplier opts) nr" "mft_zone (mft_zone_multiplier opts) nr \<le> nr div 2"
    using mft_zone_bounds [of nr] nr3 by (auto simp: nr_def)
  show "boot_cl (csz v) < l" "0 < j" "0 < k" "l + j \<le> m" using num ljm by (simp_all add: b_def)
  have "m + m \<le> nr" by (simp add: m nr_def)
  with ljm num show "m + k < vp_nr_clusters v" by (simp add: nr_def)
  show "alloc_inv (g_allocation s')" using t' by (simp add: s')
  show "clusters (g_allocation s') = tail (vp_nr_clusters v) \<union> {boot_cl (csz v)} \<union> {l ..< l + j} \<union> {m ..< m + k}"
    using t'(4) t(3) by (simp add: s' t'(1) nr_def b_def)
  show "g_rl_mft_bmp s' = one_run (boot_cl (csz v)) 1" "g_rl_mft s' = one_run l j" "g_rl_mftmirr s' = one_run m k"
    "g_logfile_lcn s' = m + k" by (simp_all add: s' t'(1) t(1) s)
  show "0 < g_mft_zone_end s'" using z num by (simp add: s' t'(1) t(1))
  have "mft_zone (mft_zone_multiplier opts) nr + l \<le> m + m" using z ljm num by (simp add: m nr_def)
  with \<open>m + m \<le> nr\<close> show "g_mft_zone_end s' \<le> vp_nr_clusters v" by (simp add: s' t'(1) t(1) nr_def)
qed


lemma standard_logfile_size_nonneg:
  assumes "0 \<le> vp_nr_clusters v" and "0 < csz v"
  shows "0 \<le> standard_logfile_size v"
proof -
  have "0 \<le> push_bit (vp_csize_bits v) (vp_nr_clusters v)" using assms(1) by simp
  then have "0 \<le> push_bit (vp_csize_bits v) (vp_nr_clusters v) div 200 div csz v * csz v"
    using assms(2) by (simp add: pos_imp_zdiv_nonneg_iff)
  then show ?thesis by (simp add: standard_logfile_size_def Let_def)
qed

text \<open>With two clusters the mirror would be put on the bitmap of the MFT, which is noticed.\<close>

lemma two_clusters_refused:
  assumes "vp_nr_clusters v = 2" and "g_mft_lcn s = 0" and "g_allocation s = []"
    and "boot_cl (csz v) = 1" and "mft_start (csz v) = 2"
    and "mft_cl (int (vp_mft_record_size v)) (csz v) = 1" and "mirr_cl (int (vp_mft_record_size v)) (csz v) = 1"
    and "num_sectors opts * sector_size opts div 2 div csz v = 1"
    and "mkntfs_initialize_bitmaps (\<lambda>_. True) page v s = (True, s1)"
  shows "\<not> fst (mkntfs_initialize_rl_mft (\<lambda>_. True) opts v s1)"
proof
  assume "fst (mkntfs_initialize_rl_mft (\<lambda>_. True) opts v s1)"
  then obtain s2 where s2: "mkntfs_initialize_rl_mft (\<lambda>_. True) opts v s1 = (True, s2)" by (metis prod.collapse)
  note i = initialize_bitmaps_ok [OF assms(9,3)]
  have t1: "g_allocation s1 = [\<lparr>ba_lcn = 1, ba_length = 1\<rparr>, \<lparr>ba_lcn = 2, ba_length = 62\<rparr>]"
  proof -
    have b: "(8191 + csz v) div csz v = 1" using assms(4) by (simp add: boot_cl_def)
    show ?thesis
      using assms(9) by (auto simp: mkntfs_initialize_bitmaps_def assms(1,3) fmt_allocate_def bitmap_allocate_def
          Let_def before_def after_def lcn_bitmap_bytes_def b split: if_splits)
  qed
  have "g_mft_lcn s1 = 0" using i(6) assms(2) by simp
  from initialize_rl_mft_shape [OF s2 this i(4,5) assms(8) [symmetric] assms(5-7) [symmetric]] show False
    by (auto simp: fmt_allocate_def bitmap_allocate_def t1 before_def after_def Let_def)
qed

lemma initialize_rl_logfile_ok:
  assumes "mkntfs_initialize_rl_logfile (\<lambda>_. True) v s = Some (True, s')"
    and "alloc_inv (g_allocation s)" and "0 \<le> vp_nr_clusters v" and "0 < csz v"
  shows "\<exists>j t. 0 \<le> j \<and> g_logfile_lcn s + j < vp_nr_clusters v \<and> alloc_inv t \<and>
    clusters (g_allocation s) \<inter> {g_logfile_lcn s ..< g_logfile_lcn s + j} = {} \<and>
    clusters t = clusters (g_allocation s) \<union> {g_logfile_lcn s ..< g_logfile_lcn s + j} \<and>
    (\<exists>sz \<ge> 256 * 1024. s' = s\<lparr>g_logfile_size := sz, g_rl_logfile := one_run (g_logfile_lcn s) j, g_allocation := t\<rparr>)"
proof -
  from assms(1) obtain sz where
    sz: "shrink_logfile (csz v) (g_logfile_lcn s) (vp_nr_clusters v) (standard_logfile_size v) = Some sz"
    by (auto simp: mkntfs_initialize_rl_logfile_def split: option.splits)
  define j where "j = sz div csz v"
  define sz' where "sz' = (sz + csz v - 1) div csz v * csz v"
  have big: "256 * 1024 \<le> sz'" and
    a: "fmt_allocate True (g_logfile_lcn s) j (s\<lparr>g_logfile_size := sz', g_rl_logfile := one_run (g_logfile_lcn s) j\<rparr>) = (True, s')"
    using assms(1) sz by (auto simp: mkntfs_initialize_rl_logfile_def Let_def j_def sz'_def split: if_splits)
  have r: "g_logfile_lcn s + j < vp_nr_clusters v" "0 \<le> sz"
    using shrink_logfile_result [OF sz] standard_logfile_size_nonneg [OF assms(3,4)] by (simp_all add: j_def)
  then have "0 \<le> j" using assms(4) by (simp add: j_def pos_imp_zdiv_nonneg_iff)
  from fmt_allocate_ok [OF _ this a] assms(2) obtain t where
    "s' = s\<lparr>g_logfile_size := sz', g_rl_logfile := one_run (g_logfile_lcn s) j, g_allocation := t\<rparr>" "alloc_inv t"
    "clusters (g_allocation s) \<inter> {g_logfile_lcn s ..< g_logfile_lcn s + j} = {}"
    "clusters t = clusters (g_allocation s) \<union> {g_logfile_lcn s ..< g_logfile_lcn s + j}" by auto
  with r \<open>0 \<le> j\<close> big show ?thesis by blast
qed


lemma three_clusters:
  assumes "vol_ok max_cs opts v" and "1 \<le> vp_nr_clusters v" and "g_mft_lcn s = 0" and "g_allocation s = []"
    and "mkntfs_initialize_bitmaps (\<lambda>_. True) page v s = (True, s1)"
    and "mkntfs_initialize_rl_mft (\<lambda>_. True) opts v s1 = (True, s2)"
  shows "3 \<le> vp_nr_clusters v"
proof (rule ccontr)
  assume "\<not> 3 \<le> vp_nr_clusters v"
  then have two: "vp_nr_clusters v \<le> 2" by simp
  note vn = vol_ok_numbers [OF assms(1)]
  obtain e where e: "csz v = 2 ^ e" using vn(1) by blast
  have "2 ^ 20 div csz v \<le> 2" using vn(6) two by simp
  with boot_numbers [OF e vn(2,3)] mft_numbers [OF e vn(2-4)]
  have n: "boot_cl (csz v) = 1" "mft_start (csz v) = 2" "mft_cl (int (vp_mft_record_size v)) (csz v) = 1"
    "mirr_cl (int (vp_mft_record_size v)) (csz v) = 1" by auto
  show False
  proof (cases "vp_nr_clusters v = 2")
    case True
    then have "num_sectors opts * sector_size opts div 2 div csz v = 1" using vn(7) by simp
    from two_clusters_refused [OF True assms(3,4) n this assms(5)] assms(6) show False by simp
  next
    case False
    with two assms(2) have "vp_nr_clusters v = 1" by simp
    with initialize_bitmaps_ok(2) [OF assms(5,4)] n(1) show False by (simp add: tail_def lcn_bitmap_bytes_def)
  qed
qed

text \<open>The first runs of the five placed files, and what makes them a good placement.\<close>

definition system_areas :: "fmt \<Rightarrow> runlist" where
  "system_areas s = map hd [g_rl_boot s, g_rl_mft_bmp s, g_rl_mft s, g_rl_mftmirr s, g_rl_logfile s]"

definition placed :: "vol_params \<Rightarrow> fmt \<Rightarrow> bool" where
  "placed v s \<longleftrightarrow>
     sorted_wrt (\<lambda>p q. rl_lcn p + rl_length p \<le> rl_lcn q) (system_areas s) \<and>
     rl_lcn (hd (system_areas s)) = 0 \<and>
     rl_lcn (last (system_areas s)) + rl_length (last (system_areas s)) < vp_nr_clusters v \<and>
     alloc_inv (g_allocation s) \<and>
     clusters (g_allocation s) = tail (vp_nr_clusters v) \<union> rl_clusters (system_areas s) \<and>
     0 < g_mft_zone_end s \<and> g_mft_zone_end s \<le> vp_nr_clusters v"

text \<open>The state after the log file was placed, and then the boot area at cluster \<open>0\<close>.\<close>

lemma boot_placed:
  assumes "mkntfs_initialize_rl_boot (\<lambda>_. True) v s3 = (True, s4)" and "0 < csz v"
    and "g_allocation s3 = t" and "alloc_inv t"
    and "clusters t = tail (vp_nr_clusters v) \<union> {b} \<union> {l ..< l + j} \<union> {m ..< m + k} \<union> {m + k ..< m + k + q}"
    and "b = boot_cl (csz v)" and "b < l" and "0 < j" and "0 < k" and "l + j \<le> m" and "0 \<le> q"
    and "m + k + q < vp_nr_clusters v"
    and "g_rl_mft_bmp s3 = one_run b 1" "g_rl_mft s3 = one_run l j" "g_rl_mftmirr s3 = one_run m k"
      "g_rl_logfile s3 = one_run (m + k) q"
    and "0 < g_mft_zone_end s3" "g_mft_zone_end s3 \<le> vp_nr_clusters v"
  shows "placed v (s4\<lparr>g_rl_bad := r\<rparr>)"
proof -
  have b0: "0 \<le> b" using assms(2) by (simp add: assms(6) boot_cl_def pos_imp_zdiv_nonneg_iff)
  have a: "fmt_allocate True 0 b (s3\<lparr>g_rl_boot := one_run 0 b\<rparr>) = (True, s4)"
    using assms(1) by (simp add: mkntfs_initialize_rl_boot_def Let_def assms(6) boot_cl_def)
  from fmt_allocate_ok [OF _ b0 a] assms(3,4) obtain t' where
    t': "s4 = s3\<lparr>g_rl_boot := one_run 0 b, g_allocation := t'\<rparr>" "alloc_inv t'" "clusters t' = clusters t \<union> {0 ..< b}"
    by auto
  have ar: "system_areas (s4\<lparr>g_rl_bad := r\<rparr>) = [\<lparr>rl_vcn = 0, rl_lcn = 0, rl_length = b\<rparr>,
      \<lparr>rl_vcn = 0, rl_lcn = b, rl_length = 1\<rparr>, \<lparr>rl_vcn = 0, rl_lcn = l, rl_length = j\<rparr>,
      \<lparr>rl_vcn = 0, rl_lcn = m, rl_length = k\<rparr>, \<lparr>rl_vcn = 0, rl_lcn = m + k, rl_length = q\<rparr>]"
    using assms(13-16) by (simp add: system_areas_def t'(1) one_run_def)
  have one: "{b ..< b + 1} = {b}" by auto
  have cl: "clusters t' = tail (vp_nr_clusters v) \<union> rl_clusters (system_areas (s4\<lparr>g_rl_bad := r\<rparr>))"
    unfolding ar t'(3) assms(5) by (simp add: one Un_ac)
  have "sorted_wrt (\<lambda>p q. rl_lcn p + rl_length p \<le> rl_lcn q) (system_areas (s4\<lparr>g_rl_bad := r\<rparr>))"
    unfolding ar using assms(7-11) b0 by simp
  moreover have "rl_lcn (hd (system_areas (s4\<lparr>g_rl_bad := r\<rparr>))) = 0"
    "rl_lcn (last (system_areas (s4\<lparr>g_rl_bad := r\<rparr>))) + rl_length (last (system_areas (s4\<lparr>g_rl_bad := r\<rparr>))) =
      m + k + q" unfolding ar by simp_all
  ultimately show ?thesis using cl t'(2) assms(12,17,18) unfolding placed_def by (simp add: t'(1))
qed

lemma layout_spec:
  assumes "vol_ok max_cs opts v" and "1 \<le> vp_nr_clusters v" and "g_mft_lcn s = 0" and "g_allocation s = []"
  shows "\<exists>ok s'. mkntfs_layout all_mem page opts v s = Some (ok, s') \<and> (ok \<longrightarrow> placed v s')"
proof -
  obtain ok1 s1 where s1: "mkntfs_initialize_bitmaps (\<lambda>_. True) page v s = (ok1, s1)" by fastforce
  obtain ok2 s2 where s2: "mkntfs_initialize_rl_mft (\<lambda>_. True) opts v s1 = (ok2, s2)" by fastforce
  show ?thesis
  proof (cases "ok1 \<and> ok2")
    case False
    then show ?thesis by (auto simp: mkntfs_layout_def s1 s2)
  next
    case True
    then have o1: "ok1 = True" and o2: "ok2 = True" by simp_all
    note s1 = s1 [unfolded o1] and s2 = s2 [unfolded o2]
    note nr3 = three_clusters [OF assms s1 s2]
    note i = initialize_bitmaps_ok [OF s1 assms(4)]
    have lcn: "g_mft_lcn s1 = 0" using i(6) assms(3) by simp
    note f = initialize_rl_mft_ok [OF assms(1) nr3 s2 lcn i(4,5,1,3) refl refl refl refl]
    have cs: "0 < csz v" using vol_ok_numbers(2) [OF assms(1)] by simp
    obtain sz where "shrink_logfile (csz v) (g_logfile_lcn s2) (vp_nr_clusters v) (standard_logfile_size v) = Some sz"
      using shrink_logfile_ends [OF f(5) standard_logfile_size_nonneg [of v] cs] nr3 cs f(11) by auto
    then have "\<exists>r. mkntfs_initialize_rl_logfile (\<lambda>_. True) v s2 = Some r"
      by (simp add: mkntfs_initialize_rl_logfile_def Let_def)
    then obtain ok3 s3 where s3: "mkntfs_initialize_rl_logfile (\<lambda>_. True) v s2 = Some (ok3, s3)" by fastforce
    obtain ok4 s4 where s4: "mkntfs_initialize_rl_boot (\<lambda>_. True) v s3 = (ok4, s4)" by fastforce
    have lay: "mkntfs_layout all_mem page opts v s = Some (if \<not> ok3 then (False, s3) else if \<not> ok4 then (False, s4)
        else (True, s4\<lparr>g_rl_bad := one_run (-1) (vp_nr_clusters v)\<rparr>))"
      by (simp add: mkntfs_layout_def s1 s2 s3 s4 mkntfs_initialize_rl_bad_def)
    show ?thesis
    proof (cases "ok3 \<and> ok4")
      case False
      then show ?thesis by (auto simp: lay)
    next
      case True
      then have o3: "ok3 = True" and o4: "ok4 = True" by simp_all
      from initialize_rl_logfile_ok [OF s3 [unfolded o3] f(6) _ cs] nr3 f(11) obtain q t sz where
        q: "0 \<le> q" "g_logfile_lcn s2 + q < vp_nr_clusters v" "alloc_inv t"
          "clusters t = clusters (g_allocation s2) \<union> {g_logfile_lcn s2 ..< g_logfile_lcn s2 + q}"
          "s3 = s2\<lparr>g_logfile_size := sz, g_rl_logfile := one_run (g_logfile_lcn s2) q, g_allocation := t\<rparr>" by auto
      have "placed v (s4\<lparr>g_rl_bad := one_run (-1) (vp_nr_clusters v)\<rparr>)"
        by (rule boot_placed [OF s4 [unfolded o4] cs _ q(3) _ refl f(1-4) q(1)])
          (use f q in \<open>simp_all\<close>)
      with lay o3 o4 show ?thesis by auto
    qed
  qed
qed



section \<open>Two volumes the placement does not handle\<close>

lemma shrink_logfile_hangs:
  assumes "nr \<le> lcn" and "0 \<le> sz" and "0 < cs"
  shows "shrink_logfile cs lcn nr sz = None"
proof (rule ccontr)
  assume "shrink_logfile cs lcn nr sz \<noteq> None"
  then obtain r where r: "shrink_logfile cs lcn nr sz = Some r" by blast
  from shrink_logfile_result [OF r] assms have "lcn + r div cs < nr" "0 \<le> r" by auto
  moreover from \<open>0 \<le> r\<close> assms(3) have "0 \<le> r div cs" by (simp add: pos_imp_zdiv_nonneg_iff)
  ultimately show False using assms(1) by simp
qed

text \<open>
  the placement never ends on an accepted volume without a single cluster. The parameters are not
  checked for a cluster larger than the volume; the log file is then to be shrunk until it ends before
  cluster \<open>0\<close>.
\<close>

theorem layout_zero_clusters_hangs:
  assumes "vol_ok max_cs opts v" and "vp_nr_clusters v = 0" and "g_mft_lcn s = 0" and "g_allocation s = []"
  shows "mkntfs_layout all_mem page opts v s = None"
proof -
  note vn = vol_ok_numbers [OF assms(1)]
  obtain e where e: "csz v = 2 ^ e" using vn(1) by blast
  have "2 ^ 20 div csz v \<le> 2" using vn(6) assms(2) by simp
  with boot_numbers [OF e vn(2,3)] mft_numbers [OF e vn(2-4)]
  have n: "boot_cl (csz v) = 1" "mft_start (csz v) = 2" "mft_cl (int (vp_mft_record_size v)) (csz v) = 1"
    "mirr_cl (int (vp_mft_record_size v)) (csz v) = 1" by auto
  have cs: "0 < csz v" using vn(2) by simp
  have b: "(8191 + csz v) div csz v = 1" using n(1) by (simp add: boot_cl_def)
  obtain s1 where s1: "mkntfs_initialize_bitmaps (\<lambda>_. True) page v s = (True, s1)"
    "g_allocation s1 = [\<lparr>ba_lcn = 1, ba_length = 1\<rparr>]"
    by (simp add: mkntfs_initialize_bitmaps_def assms(2,4) fmt_allocate_def bitmap_allocate_def Let_def before_def
        after_def lcn_bitmap_bytes_def b)
  note i = initialize_bitmaps_ok [OF s1(1) assms(4)]
  have d: "default_mft_lcn v (hd (g_rl_mft_bmp s1)) = 2" using default_mft_lcn_start [OF i(4)] n(2) by simp
  have j: "(mft_bytes v + csz v - 1) div csz v = 1" "(4 * int (vp_mft_record_size v) + csz v - 1) div csz v = 1"
    using n(3,4) by (simp_all add: mft_cl_def mirr_cl_def mft_bytes_def)
  have m: "num_sectors opts * sector_size opts div 2 div csz v = 0" using vn(7) assms(2) by simp
  obtain s2 where s2: "mkntfs_initialize_rl_mft (\<lambda>_. True) opts v s1 = (True, s2)" "g_logfile_lcn s2 = 1"
    by (simp add: mkntfs_initialize_rl_mft_def i(5,6) assms(3) d j m s1(2) fmt_allocate_def bitmap_allocate_def Let_def
        before_def after_def)
  have "shrink_logfile (csz v) 1 0 (standard_logfile_size v) = None"
    using standard_logfile_size_nonneg [of v] assms(2) cs by (intro shrink_logfile_hangs) simp_all
  then show ?thesis by (simp add: mkntfs_layout_def s1(1) s2 mkntfs_initialize_rl_logfile_def assms(2))
qed

definition tiny_opts :: mkntfs_options where
  "tiny_opts = ex_opts'\<lparr>num_sectors := 2048\<rparr>"

definition tiny_vol_params :: vol_params where
  "tiny_vol_params = ex_vol_params\<lparr>vp_csize := 2097152, vp_csize_bits := 21, vp_nr_clusters := 0\<rparr>"

theorem layout_zero_clusters_hangs_witness:
  "vol_ok (2 ^ 21) tiny_opts tiny_vol_params \<and> mkntfs_layout all_mem 4096 tiny_opts tiny_vol_params fmt0 = None"
proof -
  have "vol_ok (2 ^ 21) tiny_opts tiny_vol_params"
    by (simp add: vol_ok_def ex_opts'_def ex_vol_params_def tiny_opts_def tiny_vol_params_def INT64_MAX_def)
      (rule exI [of _ 9], simp)
  with layout_zero_clusters_hangs [OF this, of fmt0 4096] show ?thesis by (simp add: tiny_vol_params_def fmt0_def)
qed


text \<open>
  the place of the MFT survives \<^verbatim>\<open>mkntfs_cleanup\<close>. When a first run in the same process has put it at
  cluster \<open>2\<close> (clusters of 8192 bytes), a second run on a volume with clusters of 4096 bytes reports
  success with the MFT on top of its own bitmap.
\<close>

theorem stale_mft_lcn_overlaps:
  assumes "g_mft_lcn s = 2"
  shows "\<exists>s'. mkntfs_layout all_mem 4096 ex_opts' ex_vol_params (mkntfs_cleanup s) = Some (True, s') \<and>
    hd (g_rl_mft_bmp s') = \<lparr>rl_vcn = 0, rl_lcn = 2, rl_length = 1\<rparr> \<and>
    hd (g_rl_mft s') = \<lparr>rl_vcn = 0, rl_lcn = 2, rl_length = 7\<rparr> \<and> \<not> placed ex_vol_params s'"
proof -
  have sh: "shrink_logfile 4096 131072 262143 5365760 = Some 5365760" by (subst shrink_logfile.simps) simp
  have push: "push_bit 12 (262143 :: int) = 1073737728" by (simp add: push_bit_eq_mult)
  show ?thesis
    by (simp add: mkntfs_layout_def mkntfs_initialize_bitmaps_def mkntfs_initialize_rl_mft_def
        mkntfs_initialize_rl_logfile_def mkntfs_initialize_rl_boot_def mkntfs_initialize_rl_bad_def
        mkntfs_cleanup_def assms csz_def ex_vol_params_def ex_opts'_def ex_opts_def mkntfs_init_options_def
        fmt_allocate_def bitmap_allocate_def before_def after_def Let_def lcn_bitmap_bytes_def mft_bytes_def one_run_def
        mft_zone_def standard_logfile_size_def push sh placed_def system_areas_def)
qed

theorem stale_mft_lcn_overlaps_witness:
  "\<exists>s'. mkntfs_layout all_mem 4096 ex_opts' ex_vol_params (mkntfs_cleanup (fmt0\<lparr>g_mft_lcn := 2\<rparr>)) = Some (True, s') \<and>
    \<not> placed ex_vol_params s'"
  using stale_mft_lcn_overlaps [of "fmt0\<lparr>g_mft_lcn := 2\<rparr>"] by auto

end
