(* ===== verification/Format_IO.thy ===== *)
theory Format_IO
  imports Layout Device
begin

text \<open>
  How the formatter writes to the device (\<^verbatim>\<open>mkntfs.c\<close>): \<open>mkntfs_write\<close>, \<open>mkntfs_bitmap_write\<close>,
  \<open>mkntfs_logfile_write\<close>, \<open>ntfs_rlwrite\<close>, the zeroing of the whole device and the backup boot
  sector.

  \<open>wr\<close> and \<open>sk\<close> are the device's write and seek to an absolute position on a device state \<^typ>\<open>'d\<close>; for the
  bridge they are \<open>nkdev_write\<close> and \<open>nkdev_seek\<close>. The loops retry while the device takes nothing, and
  nothing in them bounds the device, so they are options: \<open>None\<close> is a loop that does not end.
\<close>

section \<open>Plain writes\<close>

text \<open>Every round passes the start of the buffer again, as in the code.\<close>

partial_function (option) mkwrite_loop ::
  "('d \<Rightarrow> byte list \<Rightarrow> int \<times> 'd) \<Rightarrow> byte list \<Rightarrow> int \<Rightarrow> int \<Rightarrow> nat \<Rightarrow> 'd \<Rightarrow> (int \<times> 'd) option" where
  "mkwrite_loop wr b count tot retry d =
     (case wr d (take (nat count) b) of
        (n, d') \<Rightarrow>
          if n = -1 then Some (-1, d')
          else if n = 0 then
            (if count \<noteq> 0 \<and> retry + 1 < 3 then mkwrite_loop wr b count tot (retry + 1) d' else Some (tot, d'))
          else
            (if count - n \<noteq> 0 \<and> retry < 3 then mkwrite_loop wr b (count - n) (tot + n) retry d'
             else Some (tot + n, d')))"

definition mkntfs_write ::
  "('d \<Rightarrow> byte list \<Rightarrow> int \<times> 'd) \<Rightarrow> bool \<Rightarrow> 'd \<Rightarrow> byte list \<Rightarrow> int \<Rightarrow> (int \<times> 'd) option" where
  "mkntfs_write wr no_act d b count = (if no_act then Some (count, d) else mkwrite_loop wr b count 0 0 d)"

section \<open>Bitmap and log file sections\<close>

definition partial_len :: "byte list \<Rightarrow> int \<Rightarrow> int" where
  "partial_len dynbuf len = (if len > int (length dynbuf) then int (length dynbuf) else len)"

definition mkntfs_bitmap_write ::
  "('d \<Rightarrow> byte list \<Rightarrow> int \<times> 'd) \<Rightarrow> allocation \<Rightarrow> byte list \<Rightarrow> int \<Rightarrow> int \<Rightarrow> 'd \<Rightarrow> int \<times> 'd" where
  "mkntfs_bitmap_write wr t dynbuf offset len d =
     (let pl = partial_len dynbuf len
      in wr d (take (nat pl) (bitmap_build t dynbuf (offset * 8) (pl * 8))))"

definition mkntfs_logfile_write ::
  "('d \<Rightarrow> byte list \<Rightarrow> int \<times> 'd) \<Rightarrow> byte list \<Rightarrow> int \<Rightarrow> int \<Rightarrow> 'd \<Rightarrow> int \<times> 'd" where
  "mkntfs_logfile_write wr dynbuf offset len d =
     (let pl = partial_len dynbuf len in wr d (replicate (nat pl) 255))"

section \<open>Writing along a runlist\<close>

datatype write_type = WRITE_STANDARD | WRITE_BITMAP | WRITE_LOGFILE

definition typed_write ::
  "('d \<Rightarrow> byte list \<Rightarrow> int \<times> 'd) \<Rightarrow> write_type \<Rightarrow> byte list \<Rightarrow> allocation \<Rightarrow> byte list \<Rightarrow> int \<Rightarrow> int \<Rightarrow> 'd \<Rightarrow> int \<times> 'd" where
  "typed_write wr wt val t dynbuf tot len d =
     (case wt of
        WRITE_BITMAP \<Rightarrow> mkntfs_bitmap_write wr t dynbuf tot len d
      | WRITE_LOGFILE \<Rightarrow> mkntfs_logfile_write wr dynbuf tot len d
      | WRITE_STANDARD \<Rightarrow> wr d (take (nat len) (drop (nat tot) val)))"

text \<open>
  The inner loop over one run: the new total (\<open>-1\<close> after a device error), what is left of the run,
  the bytes initialised and the device.
\<close>

partial_function (option) rl_write_run ::
  "(int \<Rightarrow> int \<Rightarrow> 'd \<Rightarrow> int \<times> 'd) \<Rightarrow> int \<Rightarrow> int \<Rightarrow> int \<Rightarrow> nat \<Rightarrow> 'd \<Rightarrow> (int \<times> int \<times> int \<times> 'd) option" where
  "rl_write_run w tot len inited retry d =
     (case w tot len d of
        (n, d') \<Rightarrow>
          if n = -1 then Some (-1, len, inited, d')
          else if n \<noteq> 0 then
            (if len - n \<noteq> 0 \<and> retry < 3 then rl_write_run w (tot + n) (len - n) (inited + n) retry d'
             else Some (tot + n, len - n, inited + n, d'))
          else
            (if len \<noteq> 0 \<and> retry + 1 < 3 then rl_write_run w tot len inited (retry + 1) d'
             else Some (tot, len, inited, d')))"

text \<open>
  The loop over the runs. \<open>Inl\<close> is a return from inside it (value, bytes initialised, device), \<open>Inr\<close> its
  end with the total, the padding still due, the bytes initialised and the device.
\<close>

fun rl_write_runs ::
  "(int \<Rightarrow> int \<Rightarrow> 'd \<Rightarrow> int \<times> 'd) \<Rightarrow> ('d \<Rightarrow> int \<Rightarrow> bool \<times> 'd) \<Rightarrow> int \<Rightarrow> int \<Rightarrow> runlist \<Rightarrow> int \<Rightarrow> int \<Rightarrow> int \<Rightarrow> 'd \<Rightarrow>
   ((int \<times> int \<times> 'd) + (int \<times> int \<times> int \<times> 'd)) option" where
  "rl_write_runs w sk cs val_len [] tot delta inited d = Some (Inr (tot, delta, inited, d))"
| "rl_write_runs w sk cs val_len (r # rl) tot delta inited d =
     (if rl_length r = 0 then Some (Inr (tot, delta, inited, d))
      else
        let len = rl_length r * cs in
        if rl_lcn r = -1 then rl_write_runs w sk cs val_len rl (tot + len) delta inited d
        else
          let short = tot + len > val_len;
              len1 = (if short then val_len - tot else len);
              delta1 = (if short then len - (val_len - tot) else delta)
          in (case sk d (rl_lcn r * cs) of
                (ok, d1) \<Rightarrow>
                  if \<not> ok then Some (Inl (-1, inited, d1))
                  else
                    (case rl_write_run w tot len1 inited 0 d1 of
                       None \<Rightarrow> None
                     | Some (tot', len', inited', d2) \<Rightarrow>
                         if tot' = -1 then Some (Inl (-1, inited', d2))
                         else if len' \<noteq> 0 then Some (Inl (tot', inited', d2))
                         else rl_write_runs w sk cs val_len rl tot' delta1 inited' d2)))"

text \<open>The result: the return value, the bytes initialised, the device; \<open>mem\<close> is for the padding.\<close>

definition ntfs_rlwrite ::
  "('d \<Rightarrow> byte list \<Rightarrow> int \<times> 'd) \<Rightarrow> ('d \<Rightarrow> int \<Rightarrow> bool \<times> 'd) \<Rightarrow> bool \<Rightarrow> bool \<Rightarrow> int \<Rightarrow> write_type \<Rightarrow> allocation \<Rightarrow>
   byte list \<Rightarrow> runlist \<Rightarrow> byte list \<Rightarrow> int \<Rightarrow> 'd \<Rightarrow> (int \<times> int \<times> 'd) option" where
  "ntfs_rlwrite wr sk no_act mem cs wt t dynbuf rl val val_len d =
     (if no_act then Some (val_len, 0, d)
      else case rl_write_runs (typed_write wr wt val t dynbuf) sk cs val_len rl 0 0 0 d of
        None \<Rightarrow> None
      | Some (Inl r) \<Rightarrow> Some r
      | Some (Inr (tot, delta, inited, d1)) \<Rightarrow>
          if delta = 0 then Some (tot, inited, d1)
          else if \<not> mem then Some (-1, inited, d1)
          else (case mkntfs_write wr False d1 (replicate (nat delta) 0) delta of
                  None \<Rightarrow> None
                | Some (n, d2) \<Rightarrow> Some (if n = -1 then -1 else tot, inited, d2)))"

section \<open>The whole device and the backup boot sector\<close>

text \<open>
  \<open>eio\<close> is whether the last failed write left \<^verbatim>\<open>EIO\<close>. Cluster zero must be good; a bad cluster is
  recorded and stepped over. \<open>memb\<close> is the memory for the list of bad blocks.
\<close>

fun zero_clusters ::
  "('d \<Rightarrow> byte list \<Rightarrow> int \<times> 'd) \<Rightarrow> ('d \<Rightarrow> int \<Rightarrow> bool \<times> 'd) \<Rightarrow> ('d \<Rightarrow> bool) \<Rightarrow> bool \<Rightarrow> bool \<Rightarrow> byte list \<Rightarrow> int \<Rightarrow>
   int \<Rightarrow> nat \<Rightarrow> fmt \<Rightarrow> 'd \<Rightarrow> (bool \<times> fmt \<times> 'd) option" where
  "zero_clusters wr sk eio no_act memb buf cs position 0 s d = Some (True, s, d)"
| "zero_clusters wr sk eio no_act memb buf cs position (Suc left) s d =
     (case mkntfs_write wr no_act d buf cs of
        None \<Rightarrow> None
      | Some (bw, d1) \<Rightarrow>
          if bw = cs then zero_clusters wr sk eio no_act memb buf cs (position + 1) left s d1
          else if bw \<noteq> -1 \<or> \<not> eio d1 then Some (False, s, d1)
          else if position = 0 then Some (False, s, d1)
          else (case append_to_bad_blocks memb position s of
                  (ok, s') \<Rightarrow>
                    if \<not> ok then Some (False, s', d1)
                    else zero_clusters wr sk eio no_act memb buf cs (position + 1) left s'
                           (snd (sk d1 ((position + 1) * cs)))))"

text \<open>
  The sectors behind the last cluster. Their number is computed from the size in whole clusters. A bad
  sector among them is stepped over, except the last one. \<open>skc\<close> is the seek relative to the position.
\<close>

definition tail_sectors :: "mkntfs_options \<Rightarrow> vol_params \<Rightarrow> int" where
  "tail_sectors opts v = push_bit (vp_csize_bits v) (vp_nr_clusters v) mod csz v div sector_size opts"

fun zero_sectors ::
  "('d \<Rightarrow> byte list \<Rightarrow> int \<times> 'd) \<Rightarrow> ('d \<Rightarrow> int \<Rightarrow> 'd) \<Rightarrow> ('d \<Rightarrow> bool) \<Rightarrow> bool \<Rightarrow> byte list \<Rightarrow> int \<Rightarrow> nat \<Rightarrow> 'd \<Rightarrow>
   (bool \<times> 'd) option" where
  "zero_sectors wr skc eio no_act buf ss 0 d = Some (True, d)"
| "zero_sectors wr skc eio no_act buf ss (Suc left) d =
     (case mkntfs_write wr no_act d buf ss of
        None \<Rightarrow> None
      | Some (bw, d1) \<Rightarrow>
          if bw = ss then zero_sectors wr skc eio no_act buf ss left d1
          else if bw \<noteq> -1 \<or> \<not> eio d1 then Some (False, d1)
          else if left = 0 then Some (False, d1)
          else zero_sectors wr skc eio no_act buf ss left (skc d1 ss))"

definition mkntfs_fill_device_with_zeroes ::
  "('d \<Rightarrow> byte list \<Rightarrow> int \<times> 'd) \<Rightarrow> ('d \<Rightarrow> int \<Rightarrow> bool \<times> 'd) \<Rightarrow> ('d \<Rightarrow> int \<Rightarrow> 'd) \<Rightarrow> ('d \<Rightarrow> bool) \<Rightarrow> bool \<Rightarrow> byte list \<Rightarrow>
   mkntfs_options \<Rightarrow> vol_params \<Rightarrow> fmt \<Rightarrow> 'd \<Rightarrow> (bool \<times> fmt \<times> 'd) option" where
  "mkntfs_fill_device_with_zeroes wr sk skc eio memb buf opts v s d =
     (case zero_clusters wr sk eio (no_action opts) memb buf (csz v) 0 (nat (vp_nr_clusters v)) s d of
        None \<Rightarrow> None
      | Some (ok, s1, d1) \<Rightarrow>
          if \<not> ok then Some (False, s1, d1)
          else (case zero_sectors wr skc eio (no_action opts) buf (sector_size opts) (nat (tail_sectors opts v)) d1 of
                  None \<Rightarrow> None
                | Some (ok2, d2) \<Rightarrow> Some (ok2, s1, d2)))"

text \<open>Where the backup boot sector goes, and its size.\<close>

definition backup_size :: "mkntfs_options \<Rightarrow> int" where
  "backup_size opts = (if 512 < sector_size opts then sector_size opts else 512)"

definition backup_pos :: "mkntfs_options \<Rightarrow> int" where
  "backup_pos opts = (num_sectors opts + 1) * sector_size opts - backup_size opts"

text \<open>A failure to write it is not fatal for the caller; the function only reports it.\<close>

definition create_backup_boot_sector ::
  "('d \<Rightarrow> byte list \<Rightarrow> int \<times> 'd) \<Rightarrow> ('d \<Rightarrow> int \<Rightarrow> bool \<times> 'd) \<Rightarrow> mkntfs_options \<Rightarrow> byte list \<Rightarrow> 'd \<Rightarrow> (int \<times> 'd) option" where
  "create_backup_boot_sector wr sk opts buff d =
     (case sk d (backup_pos opts) of
        (ok, d1) \<Rightarrow>
          if \<not> ok then Some (-1, d1)
          else
            let sz = (if backup_size opts > 8192 then 8192 else backup_size opts)
            in (case mkntfs_write wr (no_action opts) d1 buff sz of
                  None \<Rightarrow> None
                | Some (bw, d2) \<Rightarrow> Some (if bw = sz then 0 else -1, d2)))"

end
