(* ===== verification/Index_Entries.thy ===== *)
theory Index_Entries
  imports Prelude "HOL-Library.List_Lexorder"
begin

text \<open>
  Index entries of directories and views (\<^verbatim>\<open>mkntfs.c\<close>): the comparison of keys, the search for the place of a
  new entry, and its insertion into the entries of an index.

  A key is the file-name attribute of a directory entry or the bytes of a view key. The name functions
  of libntfs-3g are arguments; so is \<^verbatim>\<open>memcmp\<close>, whose value is only fixed up to its sign. Entry lengths are kept
  as the code stores them; the size of the file-name structure and of the entry header are those of the
  on-disk format, 66 and 16 bytes.
\<close>

section \<open>Keys and entries\<close>

type_synonym ntfschar = "16 word"

datatype name_space = FILE_NAME_POSIX | FILE_NAME_WIN32 | FILE_NAME_DOS | FILE_NAME_WIN32_AND_DOS

datatype file_flag =
    FILE_ATTR_HIDDEN | FILE_ATTR_SYSTEM | FILE_ATTR_ARCHIVE | FILE_ATTR_NOT_CONTENT_INDEXED | FILE_ATTR_COMPRESSED
  | FILE_ATTR_VIEW_INDEX_PRESENT | FILE_ATTR_I30_INDEX_PRESENT

text \<open>The times: creation, last data change, last MFT change, last access.\<close>

record file_name_attr =
  fn_parent_directory :: nat
  fn_times :: "int \<times> int \<times> int \<times> int"
  fn_allocated_size :: int
  fn_data_size :: int
  fn_file_attributes :: "file_flag set"
  fn_packed_ea_size :: nat
  fn_reparse_point_tag :: nat
  fn_file_name_type :: name_space
  fn_file_name :: "ntfschar list"

definition file_name_size :: "file_name_attr \<Rightarrow> nat" where
  "file_name_size f = 66 + 2 * length (fn_file_name f)"

datatype index_key = File_key file_name_attr | View_key "byte list" | No_key

text \<open>\<open>ie_indexed_file\<close> is used in directories, \<open>ie_data\<close> in views; \<open>ie_end\<close> marks the last entry.\<close>

record index_entry =
  ie_indexed_file :: nat
  ie_data :: "byte list"
  ie_length :: nat
  ie_key :: index_key
  ie_node :: bool
  ie_end :: bool

datatype collation =
    COLLATION_FILE_NAME | COLLATION_NTOFS_ULONG | COLLATION_NTOFS_ULONGS | COLLATION_NTOFS_SECURITY_HASH
  | COLLATION_NTOFS_SID

section \<open>Comparing keys\<close>

definition cmp_nat :: "nat \<Rightarrow> nat \<Rightarrow> int" where
  "cmp_nat a b = (if a < b then -1 else if a > b then 1 else 0)"

function ulongs_from :: "byte list \<Rightarrow> byte list \<Rightarrow> nat \<Rightarrow> int" where
  "ulongs_from k1 k2 i =
     (if i < min (length k1) (length k2) then
        (let u1 = get_le k1 i 4; u2 = get_le k2 i 4 in
         if u1 < u2 then -1 else if u1 > u2 then 1 else ulongs_from k1 k2 (i + 4))
      else cmp_nat (length k1) (length k2))"
  by pat_completeness auto
termination by (relation "measure (\<lambda>(k1, k2, i). length k1 - i)") auto

declare ulongs_from.simps [simp del]

definition ntfs_index_keys_compare :: "(byte list \<Rightarrow> byte list \<Rightarrow> int) \<Rightarrow> byte list \<Rightarrow> byte list \<Rightarrow> collation \<Rightarrow> int" where
  "ntfs_index_keys_compare mc k1 k2 rule =
     (case rule of
        COLLATION_NTOFS_ULONG \<Rightarrow> cmp_nat (get_le k1 0 4) (get_le k2 0 4)
      | COLLATION_NTOFS_ULONGS \<Rightarrow> ulongs_from k1 k2 0
      | COLLATION_NTOFS_SECURITY_HASH \<Rightarrow>
          if get_le k1 0 4 \<noteq> get_le k2 0 4 then cmp_nat (get_le k1 0 4) (get_le k2 0 4)
          else cmp_nat (get_le k1 4 4) (get_le k2 4 4)
      | COLLATION_NTOFS_SID \<Rightarrow>
          (let n = min (length k1) (length k2); i = mc (take n k1) (take n k2) in
           if i = 0 then cmp_nat (length k1) (length k2) else i)
      | COLLATION_FILE_NAME \<Rightarrow> 0)"

section \<open>The place of a new entry\<close>

text \<open>What one round of a search does: stop before the entry, report that the key exists, or go on.\<close>

datatype round = Break | Exists | Next

text \<open>\<open>collate\<close> is \<^verbatim>\<open>ntfs_names_full_collate\<close>; its first argument is whether case is ignored.\<close>

definition file_round :: "(bool \<Rightarrow> ntfschar list \<Rightarrow> ntfschar list \<Rightarrow> int) \<Rightarrow> file_name_attr \<Rightarrow> file_name_attr \<Rightarrow> round" where
  "file_round collate f g =
     (let i = collate True (fn_file_name f) (fn_file_name g) in
      if i = -1 then Break
      else if i \<noteq> 0 then Next
      else if fn_file_name_type f \<noteq> FILE_NAME_POSIX \<or> fn_file_name_type g \<noteq> FILE_NAME_POSIX then Exists
      else
        let j = collate False (fn_file_name f) (fn_file_name g) in
        if j = -1 then Break else if j = 0 then Exists else Next)"

definition view_round :: "(byte list \<Rightarrow> byte list \<Rightarrow> int) \<Rightarrow> collation \<Rightarrow> byte list \<Rightarrow> byte list \<Rightarrow> round" where
  "view_round mc rule k1 k2 =
     (let i = ntfs_index_keys_compare mc k1 k2 rule in
      if i = 0 then Exists else if i = -1 then Break else Next)"

text \<open>
  The loop over the entries: \<open>off\<close> is the offset of the current entry and \<open>lim\<close> the end the code checks. \<open>None\<close> is
  \<^verbatim>\<open>EEXIST\<close>, otherwise the number of the entry before which the new one goes.
\<close>

fun index_place :: "(index_key \<Rightarrow> round) \<Rightarrow> nat \<Rightarrow> nat \<Rightarrow> nat \<Rightarrow> index_entry list \<Rightarrow> nat option" where
  "index_place test lim off k [] = Some k"
| "index_place test lim off k (e # es) =
     (if off < lim \<and> \<not> ie_end e then
        (case test (ie_key e) of
           Break \<Rightarrow> Some k
         | Exists \<Rightarrow> None
         | Next \<Rightarrow> index_place test lim (off + ie_length e) (k + 1) es)
      else Some k)"

definition insert_entry :: "nat \<Rightarrow> index_entry \<Rightarrow> index_entry list \<Rightarrow> index_entry list" where
  "insert_entry k e es = take k es @ e # drop k es"

section \<open>Index headers and blocks\<close>

text \<open>The header of the entries in an index root or an index block, and the entries.\<close>

record index_header =
  ih_entries_offset :: nat
  ih_index_length :: nat
  ih_allocated_size :: nat
  ih_entries :: "index_entry list"

definition make_room_for_index_entry_in_index_block :: "index_header \<Rightarrow> nat \<Rightarrow> index_header option" where
  "make_room_for_index_entry_in_index_block h sz =
     (if sz = 0 then Some h
      else if (ih_index_length h + sz) mod 2 ^ 32 > ih_allocated_size h then None
      else Some (h\<lparr>ih_index_length := (ih_index_length h + sz) mod 2 ^ 32\<rparr>))"

definition ie_size :: "nat \<Rightarrow> nat" where
  "ie_size n = (16 + n + 7) div 8 * 8"

definition file_test :: "(bool \<Rightarrow> ntfschar list \<Rightarrow> ntfschar list \<Rightarrow> int) \<Rightarrow> file_name_attr \<Rightarrow> index_key \<Rightarrow> round" where
  "file_test collate f key = (case key of File_key g \<Rightarrow> file_round collate f g | _ \<Rightarrow> Next)"

text \<open>A directory entry goes into the index block; errors leave it as it is.\<close>

definition insert_file_link_in_dir_index ::
  "(bool \<Rightarrow> ntfschar list \<Rightarrow> ntfschar list \<Rightarrow> int) \<Rightarrow> nat \<Rightarrow> file_name_attr \<Rightarrow> index_header \<Rightarrow> errno option \<times> index_header" where
  "insert_file_link_in_dir_index collate ref f h =
     (case index_place (file_test collate f) (ih_index_length h) (ih_entries_offset h) 0 (ih_entries h) of
        None \<Rightarrow> (Some EEXIST, h)
      | Some k \<Rightarrow>
          let sz = ie_size (file_name_size f);
              e = \<lparr>ie_indexed_file = ref, ie_data = [], ie_length = sz, ie_key = File_key f, ie_node = False, ie_end = False\<rparr>
          in (case make_room_for_index_entry_in_index_block h sz of
                None \<Rightarrow> (Some ENOSPC, h)
              | Some h1 \<Rightarrow> (None, h1\<lparr>ih_entries := insert_entry k e (ih_entries h)\<rparr>)))"

section \<open>The comparison is the lexicographic order of words\<close>

fun words :: "byte list \<Rightarrow> nat list" where
  "words [] = []"
| "words (b # bs) = le_val (take 4 (b # bs)) # words (drop 3 bs)"

text \<open>The words a rule compares.\<close>

definition key_words :: "collation \<Rightarrow> byte list \<Rightarrow> nat list" where
  "key_words rule k =
     (case rule of
        COLLATION_NTOFS_ULONG \<Rightarrow> [get_le k 0 4]
      | COLLATION_NTOFS_SECURITY_HASH \<Rightarrow> [get_le k 0 4, get_le k 4 4]
      | _ \<Rightarrow> words k)"

definition cmp_lex :: "nat list \<Rightarrow> nat list \<Rightarrow> int" where
  "cmp_lex a b = (if a < b then -1 else if a > b then 1 else 0)"

lemma cmp_lex_Cons [simp]: "cmp_lex (a # as) (b # bs) = (if a < b then -1 else if a > b then 1 else cmp_lex as bs)"
  by (auto simp: cmp_lex_def)

lemma cmp_lex_Nil [simp]: "cmp_lex [] [] = 0" "cmp_lex (a # as) [] = 1" "cmp_lex [] (b # bs) = -1"
  by (simp_all add: cmp_lex_def)

lemma words_step: "bs \<noteq> [] \<Longrightarrow> words bs = le_val (take 4 bs) # words (drop 4 bs)"
  by (cases bs) (simp_all add: numeral_eq_Suc)

lemma ulongs_words:
  assumes "4 dvd length k1" and "4 dvd length k2" and "4 dvd i" and "i \<le> length k1" and "i \<le> length k2"
  shows "ulongs_from k1 k2 i = cmp_lex (words (drop i k1)) (words (drop i k2))"
  using assms(3-5)
proof (induction "length k1 - i" arbitrary: i rule: less_induct)
  case less
  have w: "words (drop i k) = get_le k i 4 # words (drop (i + 4) k)" if "i < length k" for k
    using that words_step [of "drop i k"] by (simp add: get_le_def get_bytes_def add.commute)
  show ?case
  proof (cases "i < length k1 \<and> i < length k2")
    case True
    have four: "i + 4 \<le> length k" if "i < length k" "4 dvd length k" for k :: "byte list"
    proof -
      have "4 dvd length k - i" using that(2) less.prems(1) by (rule dvd_diff_nat)
      then have "4 \<le> length k - i" using that(1) by (intro dvd_imp_le) simp_all
      then show ?thesis using that(1) by simp
    qed
    have ih: "ulongs_from k1 k2 (i + 4) = cmp_lex (words (drop (i + 4) k1)) (words (drop (i + 4) k2))"
      using less.prems(1) four [of k1] four [of k2] True assms(1,2) by (intro less.hyps) auto
    show ?thesis
      using True ih by (simp add: ulongs_from.simps [of k1 k2 i] w Let_def)
  next
    case False
    then consider "i = length k1" "i = length k2" | "i = length k1" "i < length k2" | "i < length k1" "i = length k2"
      using less.prems(2,3) by linarith
    then show ?thesis
    proof cases
      case 1
      then show ?thesis using ulongs_from.simps [of k1 k2 i] by (simp add: cmp_nat_def)
    next
      case 2
      with w [of k2] show ?thesis using ulongs_from.simps [of k1 k2 i] by (simp add: cmp_nat_def)
    next
      case 3
      with w [of k1] show ?thesis using ulongs_from.simps [of k1 k2 i] by (simp add: cmp_nat_def)
    qed
  qed
qed


section \<open>Entries stay sorted\<close>

text \<open>Entries in the order of a rank of their keys, with the end entry behind them.\<close>

definition entries_ok :: "(index_key \<Rightarrow> bool) \<Rightarrow> (index_key \<Rightarrow> 'r::linorder) \<Rightarrow> index_entry list \<Rightarrow> index_entry list \<Rightarrow> bool" where
  "entries_ok ok rank body es \<longleftrightarrow> (\<exists>t. ie_end t \<and> es = body @ [t]) \<and> (\<forall>e \<in> set body. \<not> ie_end e \<and> ok (ie_key e)) \<and>
     sorted_wrt (<) (map (rank \<circ> ie_key) body)"

definition before_key :: "(index_key \<Rightarrow> 'r::linorder) \<Rightarrow> index_key \<Rightarrow> index_entry \<Rightarrow> bool" where
  "before_key rank key e \<longleftrightarrow> rank (ie_key e) < rank key"

text \<open>
  The interface between the comparisons and the loop that uses them: on the keys of an index the round of the
  search follows a rank in a linear order. What the loop needs is proved from it once.
\<close>

locale keyed_index =
  fixes ok :: "index_key \<Rightarrow> bool" and rank :: "index_key \<Rightarrow> 'r::linorder" and test :: "index_key \<Rightarrow> index_key \<Rightarrow> round"
  assumes round: "ok k1 \<Longrightarrow> ok k2 \<Longrightarrow> test k1 k2 =
    (if rank k1 < rank k2 then Break else if rank k1 = rank k2 then Exists else Next)"
begin

lemma place_of:
  assumes "ok key" and "entries_ok ok rank body es" and "off + sum_list (map ie_length body) < lim"
  shows "index_place (test key) lim off k es =
    (if \<exists>e \<in> set body. rank (ie_key e) = rank key then None else Some (k + length (takeWhile (before_key rank key) body)))"
proof -
  obtain t where t: "ie_end t" "es = body @ [t]" using assms(2) by (auto simp: entries_ok_def)
  have b: "\<forall>e \<in> set body. \<not> ie_end e \<and> ok (ie_key e)" "sorted_wrt (<) (map (rank \<circ> ie_key) body)"
    using assms(2) by (auto simp: entries_ok_def)
  show ?thesis
    unfolding t(2) using b assms(3)
  proof (induction body arbitrary: off k)
    case Nil
    then show ?case using t(1) by simp
  next
    case (Cons e body)
    have r: "test key (ie_key e) = (if rank key < rank (ie_key e) then Break else if rank key = rank (ie_key e) then Exists else Next)"
      using Cons.prems(1) assms(1) by (intro round) auto
    have gt: "\<forall>x \<in> set body. rank (ie_key e) < rank (ie_key x)" using Cons.prems(2) by auto
    consider "rank key < rank (ie_key e)" | "rank key = rank (ie_key e)" | "rank (ie_key e) < rank key" by fastforce
    then show ?case
    proof cases
      case 1
      then have "\<forall>x \<in> set (e # body). rank (ie_key x) \<noteq> rank key" using gt by auto
      then show ?thesis using 1 r Cons.prems by (auto simp: before_key_def)
    next
      case 2
      then show ?thesis using r Cons.prems by auto
    next
      case 3
      then have "\<not> rank key < rank (ie_key e)" "rank key \<noteq> rank (ie_key e)" by auto
      moreover have "index_place (test key) lim (off + ie_length e) (k + 1) (body @ [t]) =
          (if \<exists>e \<in> set body. rank (ie_key e) = rank key then None
           else Some (k + 1 + length (takeWhile (before_key rank key) body)))"
        using Cons.prems by (intro Cons.IH) auto
      moreover have "before_key rank key e" using 3 by (simp add: before_key_def)
      ultimately show ?thesis using 3 r Cons.prems by auto
    qed
  qed
qed

lemma insert_sorted:
  assumes "ok key" and "entries_ok ok rank body es" and "\<forall>e \<in> set body. rank (ie_key e) \<noteq> rank key" and "ie_key e = key" and "\<not> ie_end e"
    and "k = length (takeWhile (before_key rank key) body)"
  shows "entries_ok ok rank (insert_entry k e body) (insert_entry k e es)"
proof -
  obtain t where t: "ie_end t" "es = body @ [t]" using assms(2) by (auto simp: entries_ok_def)
  have srt: "sorted_wrt (<) (map (rank \<circ> ie_key) body)" using assms(2) by (simp add: entries_ok_def)
  define p q where "p = takeWhile (before_key rank key) body" and "q = dropWhile (before_key rank key) body"
  have pq: "body = p @ q" "take k body = p" "drop k body = q"
    by (simp_all add: p_def q_def assms(6) takeWhile_eq_take [symmetric] dropWhile_eq_drop [symmetric])
  have p: "\<forall>x \<in> set p. rank (ie_key x) < rank key" by (auto simp: p_def before_key_def dest: set_takeWhileD)
  have q: "\<forall>x \<in> set q. rank key < rank (ie_key x)"
  proof (cases q)
    case (Cons y ys)
    have "\<not> before_key rank key y" using Cons hd_dropWhile [of "before_key rank key" body] by (auto simp: q_def)
    then have "rank key < rank (ie_key y)" using assms(3) Cons pq(1) by (auto simp: before_key_def)
    moreover have "\<forall>x \<in> set ys. rank (ie_key y) < rank (ie_key x)" using srt pq(1) Cons by (auto simp: sorted_wrt_append)
    ultimately show ?thesis using Cons by (fastforce intro: less_trans)
  qed simp
  have "insert_entry k e body = p @ e # q" using pq(2,3) by (simp add: insert_entry_def)
  moreover have "k \<le> length body" using assms(6) length_takeWhile_le [of "before_key rank key" body] by simp
  then have "insert_entry k e es = p @ e # q @ [t]" using pq(2,3) by (simp add: insert_entry_def t(2))
  moreover have "sorted_wrt (<) (map (rank \<circ> ie_key) (p @ e # q))"
    using srt pq(1) p q assms(4) by (auto simp: sorted_wrt_append)
  moreover have "\<forall>x \<in> set (p @ e # q). \<not> ie_end x \<and> ok (ie_key x)"
    using assms(1,2,4,5) pq(1) by (auto simp: entries_ok_def)
  ultimately show ?thesis using t(1) by (auto simp: entries_ok_def)
qed

end

definition view_test :: "(byte list \<Rightarrow> byte list \<Rightarrow> int) \<Rightarrow> collation \<Rightarrow> index_key \<Rightarrow> index_key \<Rightarrow> round" where
  "view_test mc rule k1 k2 = (case (k1, k2) of (View_key b1, View_key b2) \<Rightarrow> view_round mc rule b1 b2 | _ \<Rightarrow> Next)"

definition view_ok :: "collation \<Rightarrow> index_key \<Rightarrow> bool" where
  "view_ok rule k \<longleftrightarrow> (\<exists>b. k = View_key b \<and> 4 dvd length b)"

definition view_rank :: "collation \<Rightarrow> index_key \<Rightarrow> nat list" where
  "view_rank rule k = (case k of View_key b \<Rightarrow> key_words rule b | _ \<Rightarrow> [])"

lemma cmp_lex_cases: "cmp_lex a b = 0 \<longleftrightarrow> a = b" "cmp_lex a b = -1 \<longleftrightarrow> a < b"
  by (auto simp: cmp_lex_def)

lemma keys_compare_words:
  assumes "rule \<in> {COLLATION_NTOFS_ULONG, COLLATION_NTOFS_ULONGS, COLLATION_NTOFS_SECURITY_HASH}"
    and "4 dvd length k1" and "4 dvd length k2"
  shows "ntfs_index_keys_compare mc k1 k2 rule = cmp_lex (key_words rule k1) (key_words rule k2)"
  using assms ulongs_words [of k1 k2 0]
  by (auto simp: ntfs_index_keys_compare_def key_words_def cmp_nat_def)

lemma view_index:
  assumes "rule \<in> {COLLATION_NTOFS_ULONG, COLLATION_NTOFS_ULONGS, COLLATION_NTOFS_SECURITY_HASH}"
  shows "keyed_index (view_ok rule) (view_rank rule) (view_test mc rule)"
  using keys_compare_words [OF assms]
  by unfold_locales (auto simp: view_ok_def view_rank_def view_test_def view_round_def cmp_lex_cases)

text \<open>The three rules that mkntfs uses for its views.\<close>

interpretation ulong: keyed_index "view_ok COLLATION_NTOFS_ULONG" "view_rank COLLATION_NTOFS_ULONG"
  "view_test mc COLLATION_NTOFS_ULONG" for mc
  by (rule view_index) simp

interpretation ulongs: keyed_index "view_ok COLLATION_NTOFS_ULONGS" "view_rank COLLATION_NTOFS_ULONGS"
  "view_test mc COLLATION_NTOFS_ULONGS" for mc
  by (rule view_index) simp

interpretation sec_hash: keyed_index "view_ok COLLATION_NTOFS_SECURITY_HASH" "view_rank COLLATION_NTOFS_SECURITY_HASH"
  "view_test mc COLLATION_NTOFS_SECURITY_HASH" for mc
  by (rule view_index) simp

section \<open>Directory indexes\<close>

text \<open>
  The documented behaviour of the collation that ignores case: it compares the names letter by letter
  after the upcase table \<open>up\<close>.
\<close>

definition collates :: "(ntfschar \<Rightarrow> ntfschar) \<Rightarrow> (bool \<Rightarrow> ntfschar list \<Rightarrow> ntfschar list \<Rightarrow> int) \<Rightarrow> bool" where
  "collates up collate \<longleftrightarrow> (\<forall>a b. collate True a b =
     (if map up a < map up b then -1 else if map up a = map up b then 0 else 1))"

definition name_ok :: "index_key \<Rightarrow> bool" where
  "name_ok k \<longleftrightarrow> (\<exists>f. k = File_key f \<and> fn_file_name_type f \<noteq> FILE_NAME_POSIX)"

definition name_rank :: "(ntfschar \<Rightarrow> ntfschar) \<Rightarrow> index_key \<Rightarrow> ntfschar list" where
  "name_rank up k = (case k of File_key f \<Rightarrow> map up (fn_file_name f) | _ \<Rightarrow> [])"

definition dir_test :: "(bool \<Rightarrow> ntfschar list \<Rightarrow> ntfschar list \<Rightarrow> int) \<Rightarrow> index_key \<Rightarrow> index_key \<Rightarrow> round" where
  "dir_test collate k = (case k of File_key f \<Rightarrow> file_test collate f | _ \<Rightarrow> (\<lambda>_. Next))"

lemma dir_index:
  assumes "collates up collate"
  shows "keyed_index name_ok (name_rank up) (dir_test collate)"
  using assms
  by unfold_locales (auto simp: name_ok_def name_rank_def dir_test_def file_test_def file_round_def collates_def Let_def)

text \<open>An index whose header agrees with its entries and fits its space.\<close>

definition header_ok :: "(index_key \<Rightarrow> bool) \<Rightarrow> (index_key \<Rightarrow> 'r::linorder) \<Rightarrow> index_header \<Rightarrow> bool" where
  "header_ok ok rank h \<longleftrightarrow> entries_ok ok rank (butlast (ih_entries h)) (ih_entries h) \<and>
     (\<forall>e \<in> set (ih_entries h). 0 < ie_length e) \<and>
     ih_index_length h = ih_entries_offset h + sum_list (map ie_length (ih_entries h)) \<and>
     ih_index_length h \<le> ih_allocated_size h \<and> ih_allocated_size h < 2 ^ 31"

text \<open>The live entries of an index.\<close>

definition live :: "index_header \<Rightarrow> index_entry set" where
  "live h = set (butlast (ih_entries h))"

lemma entries_ok_butlast: "entries_ok ok rank body es \<Longrightarrow> butlast es = body"
  by (auto simp: entries_ok_def)

lemma set_insert_entry: "set (insert_entry k e es) = insert e (set es)"
proof -
  have "set es = set (take k es) \<union> set (drop k es)" by (metis append_take_drop_id set_append)
  then show ?thesis by (auto simp: insert_entry_def)
qed

lemma sum_insert_entry: "sum_list (map f (insert_entry k e es)) = f e + (sum_list (map f es) :: nat)"
proof -
  have "sum_list (map f es) = sum_list (map f (take k es @ drop k es))" by simp
  then show ?thesis unfolding insert_entry_def by (simp del: append_take_drop_id)
qed

lemma dir_insert_spec:
  assumes c: "collates up collate" and h: "header_ok name_ok (name_rank up) h"
    and f: "fn_file_name_type f \<noteq> FILE_NAME_POSIX" "length (fn_file_name f) < 256"
  shows "case insert_file_link_in_dir_index collate ref f h of
      (None, h') \<Rightarrow> header_ok name_ok (name_rank up) h' \<and>
        (\<exists>e. ie_key e = File_key f \<and> ie_indexed_file e = ref \<and> live h' = insert e (live h)) \<and>
        (\<forall>e \<in> live h. name_rank up (ie_key e) \<noteq> map up (fn_file_name f))
    | (Some e, h') \<Rightarrow> h' = h \<and>
        (e = EEXIST \<and> (\<exists>e \<in> live h. name_rank up (ie_key e) = map up (fn_file_name f)) \<or>
         e = ENOSPC \<and> ih_index_length h + ie_size (file_name_size f) > ih_allocated_size h)"
proof -
  have ki: "keyed_index name_ok (name_rank up) (dir_test collate)" by (rule dir_index [OF c])
  define body where "body = butlast (ih_entries h)"
  have eo: "entries_ok name_ok (name_rank up) body (ih_entries h)" using h by (simp add: header_ok_def body_def)
  obtain t where t: "ih_entries h = body @ [t]" using eo by (auto simp: entries_ok_def)
  have len: "ih_entries_offset h + sum_list (map ie_length body) < ih_index_length h" using h t by (simp add: header_ok_def)
  have fk: "name_ok (File_key f)" using f(1) by (simp add: name_ok_def)
  have dt: "dir_test collate (File_key f) = file_test collate f" by (simp add: dir_test_def)
  have rk: "name_rank up (File_key f) = map up (fn_file_name f)" by (simp add: name_rank_def)
  define k where "k = length (takeWhile (before_key (name_rank up) (File_key f)) body)"
  note pl = keyed_index.place_of [OF ki fk eo len, of 0, unfolded dt rk, folded k_def]
  define sz where "sz = ie_size (file_name_size f)"
  have sz: "0 < sz" "sz < 1000" using f(2) by (simp_all add: sz_def ie_size_def file_name_size_def)
  have nw: "(ih_index_length h + sz) mod 2 ^ 32 = ih_index_length h + sz" using h sz by (simp add: header_ok_def)
  define e where "e = \<lparr>ie_indexed_file = ref, ie_data = [], ie_length = sz, ie_key = File_key f, ie_node = False, ie_end = False\<rparr>"
  show ?thesis
  proof (cases "\<exists>e \<in> set body. name_rank up (ie_key e) = map up (fn_file_name f)")
    case True
    then show ?thesis using pl by (simp add: insert_file_link_in_dir_index_def live_def body_def)
  next
    case new: False
    show ?thesis
    proof (cases "ih_index_length h + sz > ih_allocated_size h")
      case True
      then show ?thesis using pl new sz nw
        by (simp add: insert_file_link_in_dir_index_def make_room_for_index_entry_in_index_block_def sz_def [symmetric] Let_def)
    next
      case False
      define h' where "h' = h\<lparr>ih_index_length := ih_index_length h + sz, ih_entries := insert_entry k e (ih_entries h)\<rparr>"
      have r: "insert_file_link_in_dir_index collate ref f h = (None, h')"
        using pl new sz nw False
        by (simp add: insert_file_link_in_dir_index_def make_room_for_index_entry_in_index_block_def sz_def [symmetric] Let_def
            h'_def e_def)
      have eo': "entries_ok name_ok (name_rank up) (insert_entry k e body) (ih_entries h')"
        using keyed_index.insert_sorted [OF ki fk eo, of e k] new by (simp add: rk k_def e_def h'_def)
      have "header_ok name_ok (name_rank up) h'"
        using h eo' entries_ok_butlast [OF eo'] False sz
        by (auto simp: header_ok_def h'_def set_insert_entry sum_insert_entry e_def)
      moreover have "live h' = insert e (live h)"
        using entries_ok_butlast [OF eo'] by (simp add: live_def set_insert_entry body_def)
      moreover have "ie_key e = File_key f" "ie_indexed_file e = ref" by (simp_all add: e_def)
      moreover have "\<forall>e \<in> live h. name_rank up (ie_key e) \<noteq> map up (fn_file_name f)"
        using new by (simp add: live_def body_def)
      ultimately show ?thesis unfolding r by auto
    qed
  qed
qed

text \<open>
  C24: a name is entered into a directory index block at its place. On success the block is well
  formed again: names sorted and none twice, lengths that add up, everything inside the block; the
  new entry is the only change. A name that differs only in case is refused, a full block is, and
  then nothing changes.
\<close>

theorem dir_index_insert:
  assumes c: "collates up collate" and h: "header_ok name_ok (name_rank up) h"
    and f: "fn_file_name_type f \<noteq> FILE_NAME_POSIX" "length (fn_file_name f) < 256"
  shows "case insert_file_link_in_dir_index collate ref f h of
      (None, h') \<Rightarrow> header_ok name_ok (name_rank up) h' \<and>
        (\<exists>e. ie_key e = File_key f \<and> ie_indexed_file e = ref \<and> live h' = insert e (live h)) \<and>
        (\<forall>e \<in> live h. name_rank up (ie_key e) \<noteq> map up (fn_file_name f))
    | (Some e, h') \<Rightarrow> h' = h \<and>
        (e = EEXIST \<and> (\<exists>e \<in> live h. name_rank up (ie_key e) = map up (fn_file_name f)) \<or>
         e = ENOSPC \<and> ih_index_length h + ie_size (file_name_size f) > ih_allocated_size h)"
  using assms by (rule dir_insert_spec)

definition ex_collate :: "bool \<Rightarrow> ntfschar list \<Rightarrow> ntfschar list \<Rightarrow> int" where
  "ex_collate ic a b = (if a < b then -1 else if a = b then 0 else 1)"

definition ex_block :: index_header where
  "ex_block = \<lparr>ih_entries_offset = 40, ih_index_length = 56, ih_allocated_size = 4072, ih_entries =
     [\<lparr>ie_indexed_file = 0, ie_data = [], ie_length = 16, ie_key = No_key, ie_node = False, ie_end = True\<rparr>]\<rparr>"

definition ex_name :: "ntfschar list \<Rightarrow> file_name_attr" where
  "ex_name n = \<lparr>fn_parent_directory = 5, fn_times = (0, 0, 0, 0), fn_allocated_size = 0, fn_data_size = 0,
     fn_file_attributes = {}, fn_packed_ea_size = 0, fn_reparse_point_tag = 0, fn_file_name_type = FILE_NAME_WIN32_AND_DOS,
     fn_file_name = n\<rparr>"

theorem dir_index_insert_witness:
  "header_ok name_ok (name_rank id) (snd (insert_file_link_in_dir_index ex_collate 5 (ex_name [46]) ex_block))"
proof -
  have c: "collates id ex_collate" by (simp add: collates_def ex_collate_def)
  have h: "header_ok name_ok (name_rank id) ex_block" by (simp add: header_ok_def ex_block_def entries_ok_def)
  have r: "fst (insert_file_link_in_dir_index ex_collate 5 (ex_name [46]) ex_block) = None"
    by (simp add: insert_file_link_in_dir_index_def ex_block_def make_room_for_index_entry_in_index_block_def ex_name_def
        ie_size_def file_name_size_def Let_def)
  have f: "fn_file_name_type (ex_name [46]) \<noteq> FILE_NAME_POSIX" "length (fn_file_name (ex_name [46])) < 256"
    by (simp_all add: ex_name_def)
  from dir_index_insert [OF c h f, of 5] r show ?thesis by (auto split: prod.splits)
qed

text \<open>
  The comparison of view keys is the lexicographic comparison of the 32-bit words of the keys, for
  the rules that compare words; so it is a total order on the keys.
\<close>

theorem index_keys_lexicographic:
  assumes "rule \<in> {COLLATION_NTOFS_ULONG, COLLATION_NTOFS_ULONGS, COLLATION_NTOFS_SECURITY_HASH}"
    and "4 dvd length k1" and "4 dvd length k2"
  shows "ntfs_index_keys_compare mc k1 k2 rule = cmp_lex (key_words rule k1) (key_words rule k2)"
  using keys_compare_words [OF assms] .

theorem index_keys_lexicographic_witness:
  "ntfs_index_keys_compare (\<lambda>_ _. 0) [1, 0, 0, 0, 7, 0, 0, 0] [1, 0, 0, 0, 0, 1, 0, 0] COLLATION_NTOFS_ULONGS = -1"
  using index_keys_lexicographic [of COLLATION_NTOFS_ULONGS "[1, 0, 0, 0, 7, 0, 0, 0]" "[1, 0, 0, 0, 0, 1, 0, 0]" "\<lambda>_ _. 0"]
  by (simp add: key_words_def dvd_def) presburger

end
