(* ===== verification/Mft_Record.thy ===== *)
theory Mft_Record
  imports Format_IO Index_Entries
begin

text \<open>
  Attributes in an MFT record (\<^verbatim>\<open>mkntfs.c\<close>): the search for an attribute or its place, making room, and
  the insertion of a resident attribute.

  A record is its header fields and the list of its attributes; the attribute behind the last one is
  the end marker. A pointer to an attribute is its number in the list, and \<open>attr_off\<close> the byte offset it
  stands for. The name functions of libntfs-3g and \<^verbatim>\<open>memcmp\<close>, whose value is only fixed up to its sign, are
  arguments.
\<close>

section \<open>Records and attributes\<close>

text \<open>
  Attribute values the code reads or changes later are kept as what they are; the others are bytes. The
  standard information has 72 bytes with a security id and 48 without, an index root 16 bytes before its header.
\<close>

record std_info =
  si_times :: "int \<times> int \<times> int \<times> int"
  si_file_attributes :: "file_flag set"
  si_security_id :: nat

record index_root =
  ir_type :: nat
  ir_collation_rule :: collation
  ir_index_block_size :: nat
  ir_clusters_per_index_block :: nat
  ir_large :: bool
  ir_header :: index_header

datatype attr_value = Raw "byte list" | Std_info std_info | File_name file_name_attr | Index_root index_root

definition value_len :: "attr_value \<Rightarrow> nat" where
  "value_len v =
     (case v of
        Raw b \<Rightarrow> length b
      | Std_info si \<Rightarrow> if si_security_id si \<noteq> 0 then 72 else 48
      | File_name f \<Rightarrow> file_name_size f
      | Index_root r \<Rightarrow> 16 + ih_index_length (ir_header r))"

datatype attr_flag = ATTR_COMPRESSED | ATTR_IS_ENCRYPTED | ATTR_IS_SPARSE

record nonres =
  nr_lowest_vcn :: int
  nr_highest_vcn :: int
  nr_mapping_pairs_offset :: nat
  nr_allocated_size :: int
  nr_data_size :: int
  nr_initialized_size :: int
  nr_compression_unit :: nat
  nr_mapping_pairs :: "byte list"

datatype attr_form =
    Resident (res_value_offset: nat) (res_value_length: nat) (res_value: attr_value) (res_indexed: bool)
  | Non_resident nonres

record attr_record =
  a_type :: nat
  a_length :: nat
  a_name :: "ntfschar list"
  a_name_offset :: nat
  a_flags :: "attr_flag set"
  a_instance :: nat
  a_form :: attr_form

datatype record_flag = MFT_RECORD_IN_USE | MFT_RECORD_IS_DIRECTORY | MFT_RECORD_IS_4 | MFT_RECORD_IS_VIEW_INDEX

record mft_record =
  m_number :: nat
  m_attrs_offset :: nat
  m_bytes_in_use :: nat
  m_bytes_allocated :: nat
  m_next_attr_instance :: nat
  m_link_count :: nat
  m_sequence_number :: nat
  m_flags :: "record_flag set"
  m_attrs :: "attr_record list"

definition attr_off :: "mft_record \<Rightarrow> nat \<Rightarrow> nat" where
  "attr_off m k = m_attrs_offset m + sum_list (map a_length (take k (m_attrs m)))"

text \<open>Attribute types, as in the table of \<^verbatim>\<open>attrdef.c\<close>; \<open>AT_UNUSED\<close> and \<open>AT_END\<close> frame them.\<close>

definition AT_UNUSED :: nat where "AT_UNUSED = 0"
definition AT_STANDARD_INFORMATION :: nat where "AT_STANDARD_INFORMATION = 0x10"
definition AT_ATTRIBUTE_LIST :: nat where "AT_ATTRIBUTE_LIST = 0x20"
definition AT_FILE_NAME :: nat where "AT_FILE_NAME = 0x30"
definition AT_OBJECT_ID :: nat where "AT_OBJECT_ID = 0x40"
definition AT_SECURITY_DESCRIPTOR :: nat where "AT_SECURITY_DESCRIPTOR = 0x50"
definition AT_VOLUME_NAME :: nat where "AT_VOLUME_NAME = 0x60"
definition AT_VOLUME_INFORMATION :: nat where "AT_VOLUME_INFORMATION = 0x70"
definition AT_DATA :: nat where "AT_DATA = 0x80"
definition AT_INDEX_ROOT :: nat where "AT_INDEX_ROOT = 0x90"
definition AT_INDEX_ALLOCATION :: nat where "AT_INDEX_ALLOCATION = 0xA0"
definition AT_BITMAP :: nat where "AT_BITMAP = 0xB0"
definition AT_END :: nat where "AT_END = 0xFFFFFFFF"

lemmas attr_types = AT_UNUSED_def AT_STANDARD_INFORMATION_def AT_ATTRIBUTE_LIST_def AT_FILE_NAME_def AT_OBJECT_ID_def
  AT_SECURITY_DESCRIPTOR_def AT_VOLUME_NAME_def AT_VOLUME_INFORMATION_def AT_DATA_def AT_INDEX_ROOT_def
  AT_INDEX_ALLOCATION_def AT_BITMAP_def AT_END_def

section \<open>Searching\<close>

text \<open>
  \<open>nm_equal\<close> is \<^verbatim>\<open>ntfs_names_are_equal\<close> and \<open>nm_collate\<close> \<^verbatim>\<open>ntfs_names_full_collate\<close>; their first argument is whether case is
  ignored. \<open>nm_memcmp\<close> compares two buffers of the same length, \<open>nm_bytes\<close> are the bytes of a value.
\<close>

record names_ops =
  nm_equal :: "bool \<Rightarrow> ntfschar list \<Rightarrow> ntfschar list \<Rightarrow> bool"
  nm_collate :: "bool \<Rightarrow> ntfschar list \<Rightarrow> ntfschar list \<Rightarrow> int"
  nm_memcmp :: "byte list \<Rightarrow> byte list \<Rightarrow> int"
  nm_bytes :: "attr_value \<Rightarrow> byte list"

text \<open>The name argument: a null pointer, \<^verbatim>\<open>AT_UNNAMED\<close>, or a name.\<close>

datatype name_arg = Any_name | Unnamed | Named "ntfschar list"

datatype verdict = Match | Skip | Before

definition name_test :: "names_ops \<Rightarrow> bool \<Rightarrow> name_arg \<Rightarrow> ntfschar list \<Rightarrow> verdict" where
  "name_test ops ic name an =
     (case name of
        Any_name \<Rightarrow> Match
      | Unnamed \<Rightarrow> if an \<noteq> [] then Before else Match
      | Named n \<Rightarrow>
          if nm_equal ops ic n an then Match
          else if nm_collate ops True n an = -1 then Before
          else if nm_collate ops True n an \<noteq> 0 then Skip
          else if nm_collate ops False n an = -1 then Before
          else if nm_collate ops False n an \<noteq> 0 then Skip
          else Match)"

definition value_test :: "names_ops \<Rightarrow> attr_value \<Rightarrow> nat \<Rightarrow> attr_value \<Rightarrow> verdict" where
  "value_test ops val avl av =
     (let n = min (value_len val) avl; rc = nm_memcmp ops (take n (nm_bytes ops val)) (take n (nm_bytes ops av)) in
      if rc = 0 then
        (if value_len val = avl then Match else if value_len val < avl then Before else Skip)
      else if rc < 0 then Before
      else Skip)"

text \<open>
  The result of a search: the attribute, the one before which it would go (\<^verbatim>\<open>ENOENT\<close>), an error, or a
  comparison with the value of a non-resident attribute, which the code reads from the wrong fields.
\<close>

datatype attr_search = Found nat | Not_found nat | Search_err errno | Undefined

fun find_from ::
  "names_ops \<Rightarrow> nat \<Rightarrow> name_arg \<Rightarrow> bool \<Rightarrow> attr_value option \<Rightarrow> nat \<Rightarrow> nat \<Rightarrow> nat \<Rightarrow> attr_record list \<Rightarrow> attr_search" where
  "find_from ops type name ic val alloc off k [] = (if off > alloc then Search_err EIO else Not_found k)"
| "find_from ops type name ic val alloc off k (a # as) =
     (let continue = find_from ops type name ic val alloc (off + a_length a) (k + 1) as in
      if off > alloc then Search_err EIO
      else if type \<noteq> AT_UNUSED \<and> a_type a > type \<or> a_type a = AT_END then Not_found k
      else if a_length a = 0 then Search_err EIO
      else if type = AT_UNUSED then Found k
      else if a_type a \<noteq> type then continue
      else
        (case name_test ops ic name (a_name a) of
           Before \<Rightarrow> Not_found k
         | Skip \<Rightarrow> continue
         | Match \<Rightarrow>
             (case val of
                None \<Rightarrow> Found k
              | Some v \<Rightarrow>
                  (case a_form a of
                     Non_resident _ \<Rightarrow> Undefined
                   | Resident _ avl av _ \<Rightarrow>
                       (case value_test ops v avl av of
                          Match \<Rightarrow> Found k
                        | Before \<Rightarrow> Not_found k
                        | Skip \<Rightarrow> continue)))))"

record attr_ctx =
  cx_attr :: nat
  cx_is_first :: bool

text \<open>\<^verbatim>\<open>ntfs_attr_get_search_ctx(NULL, m)\<close>: the first attribute, still to be looked at.\<close>

definition fresh_ctx :: attr_ctx where
  "fresh_ctx = \<lparr>cx_attr = 0, cx_is_first = True\<rparr>"

definition mkntfs_attr_find ::
  "names_ops \<Rightarrow> mft_record \<Rightarrow> nat \<Rightarrow> name_arg \<Rightarrow> bool \<Rightarrow> attr_value option \<Rightarrow> attr_ctx \<Rightarrow> attr_search" where
  "mkntfs_attr_find ops m type name ic val ctx =
     (let k = (if cx_is_first ctx then cx_attr ctx else cx_attr ctx + 1)
      in find_from ops type name ic val (m_bytes_allocated m) (attr_off m k) k (drop k (m_attrs m)))"

text \<open>\<open>has_list\<close>: the context has a base inode, and it has an attribute list.\<close>

definition mkntfs_attr_lookup ::
  "names_ops \<Rightarrow> bool \<Rightarrow> mft_record \<Rightarrow> nat \<Rightarrow> name_arg \<Rightarrow> bool \<Rightarrow> attr_value option \<Rightarrow> attr_ctx \<Rightarrow> attr_search" where
  "mkntfs_attr_lookup ops has_list m type name ic val ctx =
     (if \<not> has_list \<or> type = AT_ATTRIBUTE_LIST then mkntfs_attr_find ops m type name ic val ctx
      else Search_err EOPNOTSUPP)"

section \<open>Inserting\<close>

text \<open>Sizes are unsigned 32-bit; \<^verbatim>\<open>(x + 7) & ~7\<close> rounds up to a multiple of eight and wraps around.\<close>

definition up8 :: "nat \<Rightarrow> nat" where
  "up8 x = (x + 7) mod 2 ^ 32 div 8 * 8"

text \<open>The new number of bytes in use, or \<open>None\<close> when there is not enough space (\<^verbatim>\<open>ENOSPC\<close>).\<close>

definition make_room_for_attribute :: "mft_record \<Rightarrow> nat \<Rightarrow> mft_record option" where
  "make_room_for_attribute m sz =
     (if sz = 0 then Some m
      else if (m_bytes_in_use m + sz) mod 2 ^ 32 > m_bytes_allocated m then None
      else Some (m\<lparr>m_bytes_in_use := (m_bytes_in_use m + sz) mod 2 ^ 32\<rparr>))"

text \<open>Move everything from attribute \<open>k\<close> on behind the new one; it gets the next instance number.\<close>

definition place_attr :: "nat \<Rightarrow> attr_record \<Rightarrow> mft_record \<Rightarrow> mft_record" where
  "place_attr k a m =
     m\<lparr>m_attrs := take k (m_attrs m) @ a\<lparr>a_instance := m_next_attr_instance m\<rparr> # drop k (m_attrs m),
       m_next_attr_instance := (m_next_attr_instance m + 1) mod 2 ^ 16\<rparr>"

text \<open>The outcome of an operation: a value, a loop without end, or undefined behaviour.\<close>

datatype 'r run = Ret 'r | Hang | Undef

text \<open>
  \<open>uname\<close> is the converted name (\<open>None\<close>: no memory), \<open>ctx_mem\<close> whether there is memory for the search context.
  \<open>None\<close> as the error is success.
\<close>

definition resident_attr :: "nat \<Rightarrow> ntfschar list \<Rightarrow> attr_flag set \<Rightarrow> bool \<Rightarrow> attr_value \<Rightarrow> attr_record" where
  "resident_attr type nm flags rflags val =
     (let asize = up8 (24 + up8 (2 * length nm) + value_len val) in
      \<lparr>a_type = type, a_length = asize, a_name = nm,
       a_name_offset = (if type = AT_OBJECT_ID then 0 else 24), a_flags = flags, a_instance = 0,
       a_form = Resident ((24 + up8 (2 * length nm)) mod 2 ^ 16) (value_len val) val rflags\<rparr>)"

definition name_of :: "name_arg \<Rightarrow> ntfschar list" where
  "name_of nm = (case nm of Named n \<Rightarrow> n | _ \<Rightarrow> [])"

definition insert_resident_attr_in_mft_record ::
  "names_ops \<Rightarrow> bool \<Rightarrow> name_arg option \<Rightarrow> nat \<Rightarrow> nat \<Rightarrow> bool \<Rightarrow> attr_flag set \<Rightarrow> bool \<Rightarrow> attr_value option \<Rightarrow> mft_record \<Rightarrow>
   (errno option \<times> mft_record) run" where
  "insert_resident_attr_in_mft_record ops ctx_mem uname name_len type ic flags rflags val m =
     (case uname of
        None \<Rightarrow> Ret (Some ENOMEM, m)
      | Some nm \<Rightarrow>
          if \<not> ctx_mem then Ret (Some ENOMEM, m)
          else if ic then Ret (Some EOPNOTSUPP, m)
          else
            (case mkntfs_attr_lookup ops False m type nm ic val fresh_ctx of
               Found _ \<Rightarrow> Ret (Some EEXIST, m)
             | Search_err e \<Rightarrow> Ret (Some e, m)
             | Undefined \<Rightarrow> Undef
             | Not_found k \<Rightarrow>
                 let a = resident_attr type (take name_len (name_of nm)) flags rflags (case val of None \<Rightarrow> Raw [] | Some v \<Rightarrow> v)
                 in (case make_room_for_attribute m (a_length a) of
                       None \<Rightarrow> Ret (Some EOPNOTSUPP, m)
                     | Some m1 \<Rightarrow> Ret (None, place_attr k a m1))))"

section \<open>Well-formed records\<close>

text \<open>
  The parts of an attribute lie inside it in order: header, name, value or mapping pairs. The
  attributes of a record are sorted by type, have their own instance numbers, fill the bytes in use
  together with the end marker, and fit the record.
\<close>

definition attr_ok :: "attr_record \<Rightarrow> bool" where
  "attr_ok a \<longleftrightarrow> 0 < a_length a \<and> 8 dvd a_length a \<and> AT_UNUSED < a_type a \<and> a_type a < AT_END \<and>
     (case a_form a of
        Resident vo vl v _ \<Rightarrow> 24 \<le> vo \<and> a_name_offset a + 2 * length (a_name a) \<le> vo \<and> vo + vl \<le> a_length a \<and>
          vl = value_len v
      | Non_resident r \<Rightarrow> 64 \<le> nr_mapping_pairs_offset r \<and>
          a_name_offset a + 2 * length (a_name a) \<le> nr_mapping_pairs_offset r \<and>
          nr_mapping_pairs_offset r + length (nr_mapping_pairs r) \<le> a_length a)"

definition record_ok :: "mft_record \<Rightarrow> bool" where
  "record_ok m \<longleftrightarrow> (\<forall>a \<in> set (m_attrs m). attr_ok a \<and> a_instance a < m_next_attr_instance m) \<and>
     sorted (map a_type (m_attrs m)) \<and> distinct (map a_instance (m_attrs m)) \<and>
     m_bytes_in_use m = attr_off m (length (m_attrs m)) + 8 \<and>
     m_bytes_in_use m \<le> m_bytes_allocated m \<and> m_bytes_allocated m < 2 ^ 31"

lemma up8_small: "x + 7 < 2 ^ 32 \<Longrightarrow> up8 x = (x + 7) div 8 * 8"
  by (simp add: up8_def)

lemma up8_props:
  assumes "x + 7 < 2 ^ 32"
  shows "x \<le> up8 x" "up8 x < x + 8" "8 dvd up8 x"
  using assms by (simp_all add: up8_small)

lemma not_found_place:
  assumes "find_from ops type name ic val alloc off k as = Not_found j" and "sorted (map a_type as)"
    and "\<forall>a \<in> set as. a_type a < AT_END" and "type \<noteq> AT_UNUSED"
  shows "k \<le> j \<and> j - k \<le> length as \<and> (\<forall>a \<in> set (take (j - k) as). a_type a \<le> type) \<and>
    (\<forall>a \<in> set (drop (j - k) as). type \<le> a_type a)"
  using assms
proof (induction as arbitrary: off k)
  case Nil
  then show ?case by (auto split: if_splits)
next
  case (Cons a as)
  have stop: "type \<le> a_type a \<Longrightarrow> \<forall>b \<in> set (a # as). type \<le> a_type b" using Cons.prems(2) by auto
  show ?case
  proof (cases "j = k")
    case True
    have "type \<le> a_type a"
    proof (rule ccontr)
      assume "\<not> type \<le> a_type a"
      then have "find_from ops type name ic val alloc (off + a_length a) (k + 1) as = Not_found j"
        using Cons.prems True by (auto simp: Let_def split: if_splits)
      from Cons.IH [OF this] Cons.prems True show False by auto
    qed
    with stop True show ?thesis by auto
  next
    case False
    then have *: "find_from ops type name ic val alloc (off + a_length a) (k + 1) as = Not_found j" and le: "a_type a \<le> type"
      using Cons.prems(1,4)
      by (auto simp: Let_def split: if_splits verdict.splits option.splits attr_form.splits)
    from Cons.IH [OF *] Cons.prems have ih: "k + 1 \<le> j \<and> j - (k + 1) \<le> length as \<and> (\<forall>a \<in> set (take (j - (k + 1)) as). a_type a \<le> type) \<and>
        (\<forall>a \<in> set (drop (j - (k + 1)) as). type \<le> a_type a)" by simp
    then obtain d where d: "j - k = Suc d" "j - (k + 1) = d" by (cases "j - k") auto
    with ih le show ?thesis by auto
  qed
qed

lemma found_after_insert:
  assumes "find_from ops type name ic val alloc off k as = Not_found j" and "k \<le> j" and "a_type b = type" and "a_length b \<noteq> 0"
    and "type \<noteq> AT_UNUSED" and "type \<noteq> AT_END" and "name_test ops ic name (a_name b) = Match"
    and "\<forall>v. val = Some v \<longrightarrow> (\<exists>vo avl av rf. a_form b = Resident vo avl av rf \<and> value_test ops v avl av = Match)"
  shows "find_from ops type name ic val alloc off k (take (j - k) as @ b # drop (j - k) as) = Found j"
proof -
  have hit: "find_from ops type name ic val alloc off' k' (b # bs) = Found k'" if "off' \<le> alloc" for off' k' bs
    using assms(3-8) that by (auto simp: Let_def split: option.splits attr_form.splits)
  show ?thesis
    using assms(1,2)
  proof (induction as arbitrary: off k)
    case Nil
    then show ?case using hit [of off k "[]"] by (auto split: if_splits)
  next
    case (Cons a as)
    show ?case
    proof (cases "j = k")
      case True
      have "off \<le> alloc" using Cons.prems(1) by (auto simp: Let_def split: if_splits)
      from hit [OF this] True show ?thesis by (simp del: find_from.simps)
    next
      case False
      then have *: "find_from ops type name ic val alloc (off + a_length a) (k + 1) as = Not_found j"
        using Cons.prems(1)
        by (auto simp: Let_def split: if_splits verdict.splits option.splits attr_form.splits)
      have j: "j - k = Suc (j - (k + 1))" "k + 1 \<le> j" using False Cons.prems(2) by auto
      from Cons.IH [OF * j(2)] Cons.prems(1) False show ?thesis
        by (auto simp: Let_def j(1) split: if_splits verdict.splits option.splits attr_form.splits)
    qed
  qed
qed

lemma found_in: "find_from ops type name ic val alloc off k as = Found j \<Longrightarrow> k \<le> j \<and> j < k + length as"
proof (induction as arbitrary: off k)
  case (Cons a as)
  then show ?case
    by (fastforce simp: Let_def split: if_splits verdict.splits option.splits attr_form.splits)
qed (auto split: if_splits)

lemma sum_insert: "sum_list (map f (take k xs @ b # drop k xs)) = f b + (sum_list (map f xs) :: nat)"
proof -
  have "sum_list (map f xs) = sum_list (map f (take k xs @ drop k xs))" by simp
  then show ?thesis by (simp del: append_take_drop_id)
qed

lemma lookup_fresh:
  "mkntfs_attr_lookup ops False m type nm ic val fresh_ctx =
     find_from ops type nm ic val (m_bytes_allocated m) (m_attrs_offset m) 0 (m_attrs m)"
  by (simp add: mkntfs_attr_lookup_def mkntfs_attr_find_def fresh_ctx_def attr_off_def)

lemma place_attr_ok:
  assumes m: "record_ok m" and nf: "mkntfs_attr_lookup ops False m (a_type a) nm ic val fresh_ctx = Not_found k"
    and a: "attr_ok a" and room: "make_room_for_attribute m (a_length a) = Some m1"
    and small: "a_length a < 2 ^ 31" and inst: "m_next_attr_instance m + 1 < 2 ^ 16"
  shows "record_ok (place_attr k a m1)" "k \<le> length (m_attrs m)" "m_attrs m1 = m_attrs m"
    "m_next_attr_instance m1 = m_next_attr_instance m"
proof -
  define b where "b = a\<lparr>a_instance := m_next_attr_instance m\<rparr>"
  have al: "m_bytes_in_use m \<le> m_bytes_allocated m" "m_bytes_allocated m < 2 ^ 31" "0 < a_length a"
    using m a by (simp_all add: record_ok_def attr_ok_def)
  then have nowrap: "(m_bytes_in_use m + a_length a) mod 2 ^ 32 = m_bytes_in_use m + a_length a" using small by simp
  have m1: "m1 = m\<lparr>m_bytes_in_use := m_bytes_in_use m + a_length a\<rparr>" "m_bytes_in_use m + a_length a \<le> m_bytes_allocated m"
    using room al nowrap by (simp_all add: make_room_for_attribute_def split: if_splits)
  then show "m_attrs m1 = m_attrs m" "m_next_attr_instance m1 = m_next_attr_instance m" by simp_all
  have ends: "\<forall>x \<in> set (m_attrs m). a_type x < AT_END" and ty: "a_type a \<noteq> AT_UNUSED" and srt: "sorted (map a_type (m_attrs m))"
    using m a by (auto simp: record_ok_def attr_ok_def)
  from not_found_place [OF nf [unfolded lookup_fresh] srt ends ty]
  have k: "k \<le> length (m_attrs m)" "\<forall>x \<in> set (take k (m_attrs m)). a_type x \<le> a_type a"
    "\<forall>x \<in> set (drop k (m_attrs m)). a_type a \<le> a_type x" by simp_all
  then show "k \<le> length (m_attrs m)" by simp
  define as where "as = take k (m_attrs m) @ b # drop k (m_attrs m)"
  have p: "m_attrs (place_attr k a m1) = as" "m_next_attr_instance (place_attr k a m1) = m_next_attr_instance m + 1"
    "m_bytes_in_use (place_attr k a m1) = m_bytes_in_use m + a_length a" "m_attrs_offset (place_attr k a m1) = m_attrs_offset m"
    "m_bytes_allocated (place_attr k a m1) = m_bytes_allocated m"
    using inst by (simp_all add: place_attr_def m1(1) as_def b_def)
  have "set (m_attrs m) = set (take k (m_attrs m)) \<union> set (drop k (m_attrs m))" by (metis append_take_drop_id set_append)
  then have sas: "set as = insert b (set (m_attrs m))" by (auto simp: as_def)
  have "sorted (map a_type (take k (m_attrs m)) @ map a_type (drop k (m_attrs m)))"
    using srt by (metis append_take_drop_id map_append)
  then have "sorted (map a_type as)" using k(2,3) by (auto simp: as_def b_def sorted_append)
  moreover have "distinct (map a_instance (take k (m_attrs m)) @ map a_instance (drop k (m_attrs m)))"
    using m by (metis append_take_drop_id map_append record_ok_def)
  then have "distinct (map a_instance as)"
    using m by (auto simp: as_def b_def record_ok_def dest!: in_set_takeD in_set_dropD)
  moreover have "attr_ok b" using a by (cases "a_form a") (simp_all add: attr_ok_def b_def)
  then have "\<forall>x \<in> set as. attr_ok x \<and> a_instance x < m_next_attr_instance m + 1"
    using m by (auto simp: sas record_ok_def b_def)
  moreover have "m_bytes_in_use m + a_length a = m_attrs_offset m + sum_list (map a_length as) + 8"
    using m sum_insert [of a_length k "m_attrs m" b] by (simp add: record_ok_def attr_off_def as_def b_def)
  ultimately show "record_ok (place_attr k a m1)"
    using m1(2) al by (simp add: record_ok_def p attr_off_def)
qed

text \<open>What the code relies on of the name functions: a name equals itself, and so does a buffer.\<close>

definition names_refl :: "names_ops \<Rightarrow> bool" where
  "names_refl ops \<longleftrightarrow> (\<forall>ic n. nm_equal ops ic n n) \<and> (\<forall>b. nm_memcmp ops b b = 0)"

lemma value_test_self: "names_refl ops \<Longrightarrow> value_test ops v (value_len v) v = Match"
  by (simp add: value_test_def names_refl_def)

lemma resident_attr_ok:
  assumes "AT_UNUSED < type" and "type < AT_END" and "length nm < 256" and "value_len v < 2 ^ 30"
    and "type = AT_OBJECT_ID \<longrightarrow> nm = []"
  shows "attr_ok (resident_attr type nm fl rf v)" "a_length (resident_attr type nm fl rf v) < 2 ^ 31"
proof -
  define n where "n = up8 (2 * length nm)"
  have n: "2 * length nm \<le> n" "n < 2 * length nm + 8" using up8_props [of "2 * length nm"] assms(3) by (simp_all add: n_def)
  then have "24 + n + value_len v + 7 < 2 ^ 32" using assms(3,4) by simp
  note u = up8_props [OF this]
  have sm: "(24 + n) mod 65536 = 24 + n" using n assms(3) by simp
  show "attr_ok (resident_attr type nm fl rf v)"
    using assms(1,2,5) u n(1) by (simp add: attr_ok_def resident_attr_def Let_def n_def [symmetric] sm)
  show "a_length (resident_attr type nm fl rf v) < 2 ^ 31"
    using u(2) n(2) assms(3,4) by (simp add: resident_attr_def Let_def n_def [symmetric])
qed

lemma find_undefined: "find_from ops type name ic val alloc off k as = Undefined \<Longrightarrow>
    \<exists>a \<in> set as. \<exists>r. a_type a = type \<and> a_form a = Non_resident r"
proof (induction as arbitrary: off k)
  case (Cons a as)
  show ?case
  proof (cases "find_from ops type name ic val alloc (off + a_length a) (k + 1) as = Undefined")
    case True
    from Cons.IH [OF this] show ?thesis by auto
  next
    case False
    with Cons.prems show ?thesis
      by (fastforce simp: Let_def split: if_splits verdict.splits option.splits attr_form.splits)
  qed
qed (simp split: if_splits)

lemma insert_resident_spec:
  assumes "record_ok m" and "AT_UNUSED < type" and "type < AT_END" and "names_refl ops" and "m_next_attr_instance m + 1 < 2 ^ 16"
    and "length (name_of nm) < 256" and "type = AT_OBJECT_ID \<longrightarrow> name_of nm = []" and "value_len v < 2 ^ 30"
  shows "case insert_resident_attr_in_mft_record ops ctx_mem (Some nm) (length (name_of nm)) type ic fl rf (Some v) m of
      Ret (None, m') \<Rightarrow> record_ok m' \<and> (\<exists>k a. m_attrs m' = take k (m_attrs m) @ a # drop k (m_attrs m) \<and>
        a_type a = type \<and> a_name a = name_of nm \<and> res_value (a_form a) = v \<and> a_instance a = m_next_attr_instance m \<and>
        mkntfs_attr_lookup ops False m' type nm ic (Some v) fresh_ctx = Found k)
    | Ret (Some e, m') \<Rightarrow> m' = m
    | Undef \<Rightarrow> (\<exists>a \<in> set (m_attrs m). \<exists>r. a_type a = type \<and> a_form a = Non_resident r)
    | Hang \<Rightarrow> False"
proof (cases "ctx_mem \<and> \<not> ic")
  case False
  then show ?thesis by (auto simp: insert_resident_attr_in_mft_record_def)
next
  case True
  then have T: "ctx_mem" "\<not> ic" by simp_all
  define a where "a = resident_attr type (name_of nm) fl rf v"
  have a: "attr_ok a" "a_length a < 2 ^ 31" "a_type a = type" "a_name a = name_of nm" "\<exists>vo. a_form a = Resident vo (value_len v) v rf"
    using resident_attr_ok [OF assms(2,3,6,8,7), of fl rf] by (simp_all add: a_def) (simp_all add: resident_attr_def Let_def)
  show ?thesis
  proof (cases "mkntfs_attr_lookup ops False m type nm ic (Some v) fresh_ctx")
    case (Not_found k)
    show ?thesis
    proof (cases "make_room_for_attribute m (a_length a)")
      case None
      then show ?thesis using Not_found T by (simp add: insert_resident_attr_in_mft_record_def a_def [symmetric] Let_def)
    next
      case (Some m1)
      define m' where "m' = place_attr k a m1"
      define b where "b = a\<lparr>a_instance := m_next_attr_instance m\<rparr>"
      note p = place_attr_ok [OF assms(1) Not_found [folded a(3)] a(1) Some a(2) assms(5)]
      have at: "m_attrs m' = take k (m_attrs m) @ b # drop k (m_attrs m)" using p(3,4) by (simp add: m'_def place_attr_def b_def)
      have same: "m_attrs_offset m' = m_attrs_offset m" "m_bytes_allocated m' = m_bytes_allocated m"
        using Some by (auto simp: m'_def place_attr_def make_room_for_attribute_def split: if_splits)
      have nt: "name_test ops ic nm (a_name b) = Match"
        using assms(4) a(4) by (cases nm) (simp_all add: name_test_def name_of_def b_def names_refl_def)
      have "mkntfs_attr_lookup ops False m' type nm ic (Some v) fresh_ctx = Found k"
        using found_after_insert [OF Not_found [unfolded lookup_fresh], of b] nt a(1,3,5) assms(2,3) value_test_self [OF assms(4)]
        unfolding lookup_fresh at same by (auto simp: b_def attr_ok_def simp del: find_from.simps)
      moreover have "insert_resident_attr_in_mft_record ops ctx_mem (Some nm) (length (name_of nm)) type ic fl rf (Some v) m = Ret (None, m')"
        using Not_found T Some by (simp add: insert_resident_attr_in_mft_record_def a_def [symmetric] Let_def m'_def)
      ultimately show ?thesis
        using p(1) at a(3,4,5) by (auto simp: m'_def [symmetric] b_def)
    qed
  next
    case Undefined
    then show ?thesis using T find_undefined [OF Undefined [unfolded lookup_fresh]] by (simp add: insert_resident_attr_in_mft_record_def)
  qed (use T in \<open>simp_all add: insert_resident_attr_in_mft_record_def\<close>)
qed

text \<open>
  C23: inserting a resident attribute into a well-formed record either fails and leaves the record
  as it is, or gives a well-formed record with the attribute added at one place, all others kept in
  their order, and the search for the attribute finds it there. The behaviour is undefined only when
  the record has a non-resident attribute of that type.
\<close>

theorem insert_resident_correct:
  assumes "record_ok m" and "AT_UNUSED < type" and "type < AT_END" and "names_refl ops" and "m_next_attr_instance m + 1 < 2 ^ 16"
    and "length (name_of nm) < 256" and "type = AT_OBJECT_ID \<longrightarrow> name_of nm = []" and "value_len v < 2 ^ 30"
  shows "case insert_resident_attr_in_mft_record ops ctx_mem (Some nm) (length (name_of nm)) type ic fl rf (Some v) m of
      Ret (None, m') \<Rightarrow> record_ok m' \<and> (\<exists>k a. m_attrs m' = take k (m_attrs m) @ a # drop k (m_attrs m) \<and>
        a_type a = type \<and> a_name a = name_of nm \<and> res_value (a_form a) = v \<and> a_instance a = m_next_attr_instance m \<and>
        mkntfs_attr_lookup ops False m' type nm ic (Some v) fresh_ctx = Found k)
    | Ret (Some e, m') \<Rightarrow> m' = m
    | Undef \<Rightarrow> (\<exists>a \<in> set (m_attrs m). \<exists>r. a_type a = type \<and> a_form a = Non_resident r)
    | Hang \<Rightarrow> False"
  using assms by (rule insert_resident_spec)

end
