(* ===== verification/Mft_Attrs.thy ===== *)
theory Mft_Attrs
  imports Mft_Record
begin

text \<open>
  Non-resident attributes and the functions that add the attributes of the system files (\<^verbatim>\<open>mkntfs.c\<close>):
  \<^verbatim>\<open>insert_positioned_attr_in_mft_record\<close>, \<^verbatim>\<open>insert_non_resident_attr_in_mft_record\<close> and \<^verbatim>\<open>add_attr_*\<close>.

  They allocate clusters and write to the device, so they pass on the formatter's variables and the
  device. The mapping pairs code of libntfs-3g is an argument, and so is what \<^verbatim>\<open>errno\<close> holds where the code
  returns it after a call that does not set it: it is never zero there, since the search before has
  set it.
\<close>

section \<open>The surroundings\<close>

record 'd mkenv =
  me_ops :: names_ops
  me_wr :: "'d \<Rightarrow> byte list \<Rightarrow> int \<times> 'd"
  me_sk :: "'d \<Rightarrow> int \<Rightarrow> bool \<times> 'd"
  me_no_act :: bool
  me_mem :: bool
  me_rmem :: "nat \<Rightarrow> bool"
  me_cs :: int
  me_nr :: int
  me_sector_size :: nat
  me_dynbuf :: "byte list"
  me_str2ucs :: "string option \<Rightarrow> name_arg option"
  me_mp_size :: "runlist \<Rightarrow> nat option"
  me_mp_build :: "runlist \<Rightarrow> nat \<Rightarrow> byte list option"
  me_stale :: "int \<times> byte list"
  me_errno :: errno

record 'd mkst =
  ms_fmt :: fmt
  ms_dev :: 'd

type_synonym 'd attr_result = "(errno option \<times> mft_record \<times> 'd mkst) run"

text \<open>The checks all insertions of non-resident attributes begin with: an error, or the place and the name.\<close>

definition place_for ::
  "'d mkenv \<Rightarrow> nat \<Rightarrow> string option \<Rightarrow> bool \<Rightarrow> attr_flag set \<Rightarrow> mft_record \<Rightarrow> (errno + nat \<times> name_arg) run" where
  "place_for env type name ic flags m =
     (case me_str2ucs env name of
        None \<Rightarrow> Ret (Inl (me_errno env))
      | Some uname \<Rightarrow>
          if \<not> me_mem env then Ret (Inl ENOMEM)
          else if ic then Ret (Inl EOPNOTSUPP)
          else
            (case mkntfs_attr_lookup (me_ops env) False m type uname ic None fresh_ctx of
               Found _ \<Rightarrow> Ret (Inl EEXIST)
             | Search_err e \<Rightarrow> Ret (Inl e)
             | Undefined \<Rightarrow> Undef
             | Not_found k \<Rightarrow> if flags \<noteq> {} then Ret (Inl EOPNOTSUPP) else Ret (Inr (k, uname))))"

text \<open>
  The attribute record. The name gets the space of one byte per character, rounded up, although a
  character has two.
\<close>

definition nonres_size :: "nat \<Rightarrow> nat \<Rightarrow> nat" where
  "nonres_size name_len mpa = up8 (64 + up8 name_len + mpa)"

definition nonres_attr ::
  "nat \<Rightarrow> ntfschar list \<Rightarrow> nat \<Rightarrow> nat \<Rightarrow> int \<Rightarrow> int \<Rightarrow> int \<Rightarrow> int \<Rightarrow> byte list \<Rightarrow> attr_record" where
  "nonres_attr type nm name_len mpa highest alloc val_len inited pairs =
     \<lparr>a_type = type, a_length = nonres_size name_len mpa, a_name = take name_len nm, a_name_offset = 64,
      a_flags = {}, a_instance = 0,
      a_form = Non_resident
        \<lparr>nr_lowest_vcn = 0, nr_highest_vcn = highest, nr_mapping_pairs_offset = (64 + up8 name_len) mod 2 ^ 16,
         nr_allocated_size = alloc, nr_data_size = val_len, nr_initialized_size = inited, nr_compression_unit = 0,
         nr_mapping_pairs = pairs\<rparr>\<rparr>"

definition rl_total :: "runlist \<Rightarrow> int" where
  "rl_total rl = sum_list (map rl_length (live_runs rl))"

text \<open>
  Write the value along the runlist and build the mapping pairs. After a short write the fields that
  are set later still hold what was there (\<open>me_stale\<close>); the mapping pairs code fails with \<open>-1\<close>, which is read as
  \<^verbatim>\<open>-EPERM\<close>.
\<close>

definition write_and_map ::
  "'d mkenv \<Rightarrow> write_type \<Rightarrow> runlist \<Rightarrow> byte list \<Rightarrow> int \<Rightarrow> nat \<Rightarrow> nat \<Rightarrow> (int \<Rightarrow> byte list \<Rightarrow> attr_record) \<Rightarrow>
   (int \<Rightarrow> int) \<Rightarrow> mft_record \<Rightarrow> 'd mkst \<Rightarrow> 'd attr_result" where
  "write_and_map env wt rl val val_len mpa k attr init m st =
     (case ntfs_rlwrite (me_wr env) (me_sk env) (me_no_act env) (me_mem env) (me_cs env) wt (g_allocation (ms_fmt st))
             (me_dynbuf env) rl val val_len (ms_dev st) of
        None \<Rightarrow> Hang
      | Some (bw, inited, d) \<Rightarrow>
          let st1 = st\<lparr>ms_dev := d\<rparr> in
          if bw \<noteq> val_len then
            Ret (Some (me_errno env), place_attr k (attr (fst (me_stale env)) (snd (me_stale env))) m, st1)
          else
            (case me_mp_build env rl mpa of
               None \<Rightarrow> Ret (Some EPERM, place_attr k (attr (init inited) (snd (me_stale env))) m, st1)
             | Some pairs \<Rightarrow> Ret (None, place_attr k (attr (init inited) pairs) m, st1)))"

definition FILE_LogFile :: nat where
  "FILE_LogFile = 2"

definition insert_positioned_attr_in_mft_record ::
  "'d mkenv \<Rightarrow> nat \<Rightarrow> string option \<Rightarrow> nat \<Rightarrow> bool \<Rightarrow> attr_flag set \<Rightarrow> runlist \<Rightarrow> byte list \<Rightarrow> int \<Rightarrow> mft_record \<Rightarrow>
   'd mkst \<Rightarrow> 'd attr_result" where
  "insert_positioned_attr_in_mft_record env type name name_len ic flags rl val val_len m st =
     (case place_for env type name ic flags m of
        Hang \<Rightarrow> Hang
      | Undef \<Rightarrow> Undef
      | Ret (Inl e) \<Rightarrow> Ret (Some e, m, st)
      | Ret (Inr (k, uname)) \<Rightarrow>
          (case (if val_len \<noteq> 0 then me_mp_size env rl else Some 0) of
             None \<Rightarrow> Ret (Some (me_errno env), m, st)
           | Some mpa \<Rightarrow>
               if rl_total rl * me_cs env < val_len then Ret (Some EINVAL, m, st)
               else
                 (case make_room_for_attribute m (nonres_size name_len mpa) of
                    None \<Rightarrow> Ret (Some EOPNOTSUPP, m, st)
                  | Some m1 \<Rightarrow>
                      write_and_map env
                        (if type = AT_DATA \<and> m_number m = FILE_LogFile then WRITE_LOGFILE else WRITE_STANDARD)
                        rl val val_len mpa k
                        (nonres_attr type (name_of uname) name_len mpa (rl_total rl - 1) (rl_total rl * me_cs env) val_len)
                        (\<lambda>inited. inited) m1 st)))"

text \<open>
  Without a value there is no runlist, and the loop to its end reads through the null pointer. The
  clusters are not given back when a later step fails.
\<close>

definition last_vcn :: "runlist \<Rightarrow> int" where
  "last_vcn rl = rl_vcn (rl ! length (live_runs rl))"

definition insert_non_resident_attr_in_mft_record ::
  "'d mkenv \<Rightarrow> nat \<Rightarrow> string option \<Rightarrow> nat \<Rightarrow> bool \<Rightarrow> attr_flag set \<Rightarrow> byte list \<Rightarrow> int \<Rightarrow> write_type \<Rightarrow> mft_record \<Rightarrow>
   'd mkst \<Rightarrow> 'd attr_result" where
  "insert_non_resident_attr_in_mft_record env type name name_len ic flags val val_len wt m st =
     (case place_for env type name ic flags m of
        Hang \<Rightarrow> Hang
      | Undef \<Rightarrow> Undef
      | Ret (Inl e) \<Rightarrow> Ret (Some e, m, st)
      | Ret (Inr (k, uname)) \<Rightarrow>
          if val_len = 0 then
            (case make_room_for_attribute m (nonres_size name_len 0) of
               None \<Rightarrow> Ret (Some EOPNOTSUPP, m, st)
             | Some _ \<Rightarrow> Undef)
          else
            (case allocate_scattered_clusters (me_rmem env) (me_nr env) (g_allocation (ms_fmt st)) (g_mft_zone_end (ms_fmt st))
                    ((val_len + me_cs env - 1) div me_cs env) of
               (orl, t, zone) \<Rightarrow>
                 let st1 = st\<lparr>ms_fmt := (ms_fmt st)\<lparr>g_allocation := t, g_mft_zone_end := zone\<rparr>\<rparr> in
                 (case orl of
                    None \<Rightarrow> Ret (Some (me_errno env), m, st1)
                  | Some rl \<Rightarrow>
                      (case me_mp_size env rl of
                         None \<Rightarrow> Ret (Some (me_errno env), m, st1)
                       | Some mpa \<Rightarrow>
                           (case make_room_for_attribute m (nonres_size name_len mpa) of
                              None \<Rightarrow> Ret (Some EOPNOTSUPP, m, st1)
                            | Some m1 \<Rightarrow>
                                write_and_map env wt rl val val_len mpa k
                                  (nonres_attr type (name_of uname) name_len mpa (last_vcn rl - 1)
                                     ((val_len + me_cs env - 1) div me_cs env * me_cs env) val_len)
                                  (\<lambda>_. val_len) m1 st1)))))"

section \<open>The attributes of the system files\<close>

text \<open>A resident attribute, with the rest of the state passed on.\<close>

definition add_resident ::
  "'d mkenv \<Rightarrow> nat \<Rightarrow> string option \<Rightarrow> nat \<Rightarrow> bool \<Rightarrow> attr_flag set \<Rightarrow> bool \<Rightarrow> attr_value option \<Rightarrow> mft_record \<Rightarrow> 'd mkst \<Rightarrow>
   'd attr_result" where
  "add_resident env type name name_len ic flags rflags val m st =
     (case insert_resident_attr_in_mft_record (me_ops env) (me_mem env) (me_str2ucs env name) name_len type ic flags rflags val m of
        Hang \<Rightarrow> Hang | Undef \<Rightarrow> Undef | Ret (e, m') \<Rightarrow> Ret (e, m', st))"

definition add_attr_std_info :: "'d mkenv \<Rightarrow> int \<Rightarrow> file_flag set \<Rightarrow> nat \<Rightarrow> mft_record \<Rightarrow> 'd mkst \<Rightarrow> 'd attr_result" where
  "add_attr_std_info env now flags security_id m st =
     add_resident env AT_STANDARD_INFORMATION None 0 False {} False
       (Some (Std_info \<lparr>si_times = (now, now, now, now), si_file_attributes = flags, si_security_id = security_id\<rparr>)) m st"

definition find_value :: "'d mkenv \<Rightarrow> mft_record \<Rightarrow> nat \<Rightarrow> name_arg \<Rightarrow> (errno + attr_form) run" where
  "find_value env m type name =
     (case mkntfs_attr_find (me_ops env) m type name False None fresh_ctx of
        Found k \<Rightarrow> Ret (Inr (a_form (m_attrs m ! k)))
      | Not_found _ \<Rightarrow> Ret (Inl ENOENT)
      | Search_err e \<Rightarrow> Ret (Inl e)
      | Undefined \<Rightarrow> Undef)"

definition non_resident_unnamed_data :: "'d mkenv \<Rightarrow> mft_record \<Rightarrow> bool" where
  "non_resident_unnamed_data env m =
     (if me_mem env then
        (case find_value env m AT_DATA Any_name of
           Ret (Inr (Resident _ _ _ _)) \<Rightarrow> False
         | _ \<Rightarrow> True)
      else True)"

text \<open>The creation time of the file, or the present time if there is no standard information.\<close>

definition stdinfo_time :: "'d mkenv \<Rightarrow> int \<Rightarrow> mft_record \<Rightarrow> int" where
  "stdinfo_time env now m =
     (if me_mem env then
        (case find_value env m AT_STANDARD_INFORMATION Any_name of
           Ret (Inr (Resident _ _ (Std_info si) _)) \<Rightarrow> fst (si_times si)
         | _ \<Rightarrow> now)
      else now)"

text \<open>\<open>mb\<close> is \<^verbatim>\<open>ntfs_mbstoucs_libntfscompat\<close>: the converted name, or \<open>None\<close>.\<close>

definition check_name :: "(string \<Rightarrow> ntfschar list option) \<Rightarrow> string \<Rightarrow> errno + ntfschar list" where
  "check_name mb s =
     (case mb s of
        None \<Rightarrow> Inl EINVAL
      | Some u \<Rightarrow> if u = [] then Inl EINVAL else if length u > 255 then Inl ENAMETOOLONG else Inr u)"

definition add_attr_file_name ::
  "'d mkenv \<Rightarrow> (string \<Rightarrow> ntfschar list option) \<Rightarrow> nat \<Rightarrow> int \<Rightarrow> int \<Rightarrow> file_flag set \<Rightarrow> nat \<Rightarrow> nat \<Rightarrow> string \<Rightarrow> name_space \<Rightarrow>
   mft_record \<Rightarrow> 'd mkst \<Rightarrow> 'd attr_result" where
  "add_attr_file_name env mb parent_dir allocated data flags packed_ea reparse file_name ns m st =
     (if \<not> me_mem env then Ret (Some ENOMEM, m, st)
      else
        (case find_value env m AT_STANDARD_INFORMATION Unnamed of
           Hang \<Rightarrow> Hang
         | Undef \<Rightarrow> Undef
         | Ret (Inl e) \<Rightarrow> Ret (Some e, m, st)
         | Ret (Inr (Resident _ _ (Std_info si) _)) \<Rightarrow>
             if packed_ea \<noteq> 0 \<and> reparse \<noteq> 0 then Ret (Some EINVAL, m, st)
             else
               (case check_name mb file_name of
                  Inl e \<Rightarrow> Ret (Some e, m, st)
                | Inr u \<Rightarrow>
                    add_resident env AT_FILE_NAME None 0 False {} True
                      (Some (File_name \<lparr>fn_parent_directory = parent_dir, fn_times = si_times si,
                         fn_allocated_size = allocated, fn_data_size = data, fn_file_attributes = flags,
                         fn_packed_ea_size = packed_ea, fn_reparse_point_tag = (if packed_ea \<noteq> 0 then 0 else reparse),
                         fn_file_name_type = ns, fn_file_name = u\<rparr>)) m st)
         | Ret (Inr _) \<Rightarrow> Undef))"

definition add_attr_object_id :: "'d mkenv \<Rightarrow> byte list \<Rightarrow> mft_record \<Rightarrow> 'd mkst \<Rightarrow> 'd attr_result" where
  "add_attr_object_id env guid m st = add_resident env AT_OBJECT_ID None 0 False {} False (Some (Raw guid)) m st"

definition add_attr_sd :: "'d mkenv \<Rightarrow> byte list \<Rightarrow> mft_record \<Rightarrow> 'd mkst \<Rightarrow> 'd attr_result" where
  "add_attr_sd env sd m st =
     (if m_bytes_in_use m + 24 + length sd > m_bytes_allocated m
      then insert_non_resident_attr_in_mft_record env AT_SECURITY_DESCRIPTOR None 0 False {} sd (int (length sd)) WRITE_STANDARD m st
      else add_resident env AT_SECURITY_DESCRIPTOR None 0 False {} False (Some (Raw sd)) m st)"

text \<open>
  \<open>val\<close> is \<open>None\<close> for a null pointer, which comes with length zero. The limit is the smaller of the record size
  and the record size less 512, an unsigned difference.
\<close>

definition add_attr_data ::
  "'d mkenv \<Rightarrow> string option \<Rightarrow> nat \<Rightarrow> bool \<Rightarrow> attr_flag set \<Rightarrow> byte list option \<Rightarrow> mft_record \<Rightarrow> 'd mkst \<Rightarrow> 'd attr_result" where
  "add_attr_data env name name_len ic flags val m st =
     (let v = (case val of None \<Rightarrow> [] | Some b \<Rightarrow> b);
          limit = min (m_bytes_allocated m) ((m_bytes_allocated m + 2 ^ 32 - 512) mod 2 ^ 32)
      in if m_bytes_in_use m + 24 + length v > limit
         then insert_non_resident_attr_in_mft_record env AT_DATA name name_len ic flags v (int (length v)) WRITE_STANDARD m st
         else add_resident env AT_DATA name name_len ic flags False (map_option Raw val) m st)"

definition add_attr_data_positioned ::
  "'d mkenv \<Rightarrow> string option \<Rightarrow> nat \<Rightarrow> bool \<Rightarrow> attr_flag set \<Rightarrow> runlist \<Rightarrow> byte list \<Rightarrow> int \<Rightarrow> mft_record \<Rightarrow> 'd mkst \<Rightarrow>
   'd attr_result" where
  "add_attr_data_positioned env name name_len ic flags rl val val_len m st =
     insert_positioned_attr_in_mft_record env AT_DATA name name_len ic flags rl val val_len m st"

definition ucs_bytes :: "ntfschar list \<Rightarrow> byte list" where
  "ucs_bytes u = concat (map (\<lambda>c. le_bytes 2 (unat c)) u)"

definition add_attr_vol_name ::
  "'d mkenv \<Rightarrow> (string \<Rightarrow> ntfschar list option) \<Rightarrow> string option \<Rightarrow> mft_record \<Rightarrow> 'd mkst \<Rightarrow> 'd attr_result" where
  "add_attr_vol_name env mb vol_name m st =
     (case vol_name of
        None \<Rightarrow> add_resident env AT_VOLUME_NAME None 0 False {} False None m st
      | Some s \<Rightarrow>
          (case mb s of
             None \<Rightarrow> Ret (Some (me_errno env), m, st)
           | Some u \<Rightarrow>
               if length u > 128 then Ret (Some ENAMETOOLONG, m, st)
               else add_resident env AT_VOLUME_NAME None 0 False {} False (Some (Raw (ucs_bytes u))) m st))"

text \<open>\<open>vi\<close> are the bytes of the volume information for the masked flags and the version.\<close>

definition add_attr_vol_info ::
  "'d mkenv \<Rightarrow> (bool \<Rightarrow> nat \<Rightarrow> nat \<Rightarrow> byte list) \<Rightarrow> bool \<Rightarrow> nat \<Rightarrow> nat \<Rightarrow> mft_record \<Rightarrow> 'd mkst \<Rightarrow> 'd attr_result" where
  "add_attr_vol_info env vi dirty major minor m st =
     add_resident env AT_VOLUME_INFORMATION None 0 False {} False (Some (Raw (vi dirty major minor))) m st"

definition end_entry :: index_entry where
  "end_entry = \<lparr>ie_indexed_file = 0, ie_data = [], ie_length = 16, ie_key = No_key, ie_node = False, ie_end = True\<rparr>"

definition pow2 :: "nat \<Rightarrow> bool" where
  "pow2 n \<longleftrightarrow> (n AND (n - 1)) = 0"

definition add_attr_index_root ::
  "'d mkenv \<Rightarrow> string option \<Rightarrow> nat \<Rightarrow> bool \<Rightarrow> nat \<Rightarrow> collation \<Rightarrow> nat \<Rightarrow> mft_record \<Rightarrow> 'd mkst \<Rightarrow> 'd attr_result" where
  "add_attr_index_root env name name_len ic indexed_type rule block_size m st =
     (let cs = nat (me_cs env);
          big = block_size \<ge> cs;
          r = \<lparr>ir_type = (if indexed_type = AT_FILE_NAME then AT_FILE_NAME else 0), ir_collation_rule = rule,
               ir_index_block_size = block_size,
               ir_clusters_per_index_block = (if big then block_size div cs else drop_bit 9 block_size) mod 256,
               ir_large = False,
               ir_header = \<lparr>ih_entries_offset = 16, ih_index_length = 32, ih_allocated_size = 32, ih_entries = [end_entry]\<rparr>\<rparr>
      in if \<not> me_mem env then Ret (Some ENOMEM, m, st)
         else if indexed_type = AT_FILE_NAME \<and> rule \<noteq> COLLATION_FILE_NAME then Ret (Some EINVAL, m, st)
         else if big \<and> block_size mod cs \<noteq> 0 then Ret (Some EINVAL, m, st)
         else if \<not> big \<and> (\<not> pow2 block_size \<or> block_size < me_sector_size env) then Ret (Some EINVAL, m, st)
         else add_resident env AT_INDEX_ROOT name name_len ic {} False (Some (Index_root r)) m st)"

definition add_attr_index_alloc ::
  "'d mkenv \<Rightarrow> string option \<Rightarrow> nat \<Rightarrow> bool \<Rightarrow> byte list \<Rightarrow> mft_record \<Rightarrow> 'd mkst \<Rightarrow> 'd attr_result" where
  "add_attr_index_alloc env name name_len ic val m st =
     insert_non_resident_attr_in_mft_record env AT_INDEX_ALLOCATION name name_len ic {} val (int (length val)) WRITE_STANDARD m st"

definition add_attr_bitmap ::
  "'d mkenv \<Rightarrow> string option \<Rightarrow> nat \<Rightarrow> bool \<Rightarrow> byte list \<Rightarrow> mft_record \<Rightarrow> 'd mkst \<Rightarrow> 'd attr_result" where
  "add_attr_bitmap env name name_len ic bitmap m st =
     (if m_bytes_in_use m + 24 + length bitmap > m_bytes_allocated m
      then insert_non_resident_attr_in_mft_record env AT_BITMAP name name_len ic {} bitmap (int (length bitmap)) WRITE_STANDARD m st
      else add_resident env AT_BITMAP name name_len ic {} False (Some (Raw bitmap)) m st)"

definition add_attr_bitmap_positioned ::
  "'d mkenv \<Rightarrow> string option \<Rightarrow> nat \<Rightarrow> bool \<Rightarrow> runlist \<Rightarrow> byte list \<Rightarrow> mft_record \<Rightarrow> 'd mkst \<Rightarrow> 'd attr_result" where
  "add_attr_bitmap_positioned env name name_len ic rl bitmap m st =
     insert_positioned_attr_in_mft_record env AT_BITMAP name name_len ic {} rl bitmap (int (length bitmap)) m st"

end
