(* ===== verification/Security_Desc.thy ===== *)
theory Security_Desc
  imports Prelude
begin

text \<open>
  The security descriptors of the system files (\<^verbatim>\<open>sd.c\<close>): \<^verbatim>\<open>init_system_file_sd\<close>, \<^verbatim>\<open>init_root_sd\<close> and
  \<^verbatim>\<open>init_secure_sds\<close> write a self-relative descriptor field by field into a buffer. The structures they write
  through pointers are the on-disk ones of the library's header: a descriptor header of 20 bytes, the
  header of an access control list of 8, entries of 8 bytes and a SID, and SIDs of 8 bytes and four for
  every sub authority. The values of the header's named constants are arguments.

  The buffers of the first two are static, so what earlier calls left in them is an argument too.
\<close>

unbundle bit_operations_syntax

section \<open>Identifiers, entries and headers\<close>

text \<open>The named constants: control bits, revisions, the entry type, inheritance flags, rights, and relative ids.\<close>

record sd_consts =
  SE_SELF_RELATIVE :: "16 word"
  SE_DACL_PRESENT :: "16 word"
  SECURITY_DESCRIPTOR_REVISION :: byte
  ACL_REVISION :: byte
  SID_REVISION :: byte
  ACCESS_ALLOWED_ACE_TYPE :: byte
  OBJECT_INHERIT_ACE :: byte
  CONTAINER_INHERIT_ACE :: byte
  INHERIT_ONLY_ACE :: byte
  SYNCHRONIZE :: "32 word"
  STANDARD_RIGHTS_READ :: "32 word"
  STANDARD_RIGHTS_WRITE :: "32 word"
  STANDARD_RIGHTS_ALL :: "32 word"
  READ_CONTROL :: "32 word"
  DELETE :: "32 word"
  FILE_READ_DATA :: "32 word"
  FILE_LIST_DIRECTORY :: "32 word"
  FILE_WRITE_DATA :: "32 word"
  FILE_ADD_FILE :: "32 word"
  FILE_APPEND_DATA :: "32 word"
  FILE_ADD_SUBDIRECTORY :: "32 word"
  FILE_READ_EA :: "32 word"
  FILE_WRITE_EA :: "32 word"
  FILE_TRAVERSE :: "32 word"
  FILE_DELETE_CHILD :: "32 word"
  FILE_READ_ATTRIBUTES :: "32 word"
  FILE_WRITE_ATTRIBUTES :: "32 word"
  GENERIC_ALL :: "32 word"
  GENERIC_EXECUTE :: "32 word"
  GENERIC_WRITE :: "32 word"
  GENERIC_READ :: "32 word"
  SECURITY_LOCAL_SYSTEM_RID :: "32 word"
  SECURITY_AUTHENTICATED_USER_RID :: "32 word"
  SECURITY_BUILTIN_DOMAIN_RID :: "32 word"
  DOMAIN_ALIAS_RID_ADMINS :: "32 word"
  DOMAIN_ALIAS_RID_USERS :: "32 word"

definition le32 :: "32 word \<Rightarrow> byte list" where
  "le32 w = le_bytes 4 (unat w)"

record sid =
  sid_revision :: byte
  sid_authority :: "byte list"
  sid_subs :: "32 word list"

definition sid_bytes :: "sid \<Rightarrow> byte list" where
  "sid_bytes s = sid_revision s # word_of_nat (length (sid_subs s)) # sid_authority s @ concat (map le32 (sid_subs s))"

definition sid_len :: "sid \<Rightarrow> nat" where
  "sid_len s = 8 + 4 * length (sid_subs s)"

text \<open>An identifier of the authority S-1-5.\<close>

definition nt_sid :: "byte \<Rightarrow> 32 word list \<Rightarrow> sid" where
  "nt_sid rv subs = \<lparr>sid_revision = rv, sid_authority = [0, 0, 0, 0, 0, 5], sid_subs = subs\<rparr>"

text \<open>The size field of an entry is a literal of the code, and the next entry starts where it says.\<close>

record ace =
  ace_type :: byte
  ace_flags :: byte
  ace_size :: nat
  ace_mask :: "32 word"
  ace_sid :: sid

definition ace_bytes :: "ace \<Rightarrow> byte list" where
  "ace_bytes a = [ace_type a, ace_flags a] @ le_bytes 2 (ace_size a) @ le32 (ace_mask a) @ sid_bytes (ace_sid a)"

record sd_rel =
  sr_revision :: byte
  sr_control :: "16 word"
  sr_owner :: nat
  sr_group :: nat
  sr_sacl :: nat
  sr_dacl :: nat

definition sd_rel_bytes :: "sd_rel \<Rightarrow> byte list" where
  "sd_rel_bytes h = [sr_revision h, 0] @ le_bytes 2 (unat (sr_control h)) @ le_bytes 4 (sr_owner h) @ le_bytes 4 (sr_group h) @
     le_bytes 4 (sr_sacl h) @ le_bytes 4 (sr_dacl h)"

definition acl_bytes :: "byte \<Rightarrow> nat \<Rightarrow> nat \<Rightarrow> byte list" where
  "acl_bytes rv sz count = [rv, 0] @ le_bytes 2 sz @ le_bytes 2 count @ [0, 0]"

text \<open>The entries, each where the size of the one before leads.\<close>

fun put_aces :: "byte list \<Rightarrow> nat \<Rightarrow> ace list \<Rightarrow> byte list" where
  "put_aces buf off [] = buf"
| "put_aces buf off (a # as) = put_aces (put_bytes buf off (ace_bytes a)) (off + ace_size a) as"

text \<open>
  A whole descriptor at \<open>base\<close>: its header, the list at \<^verbatim>\<open>dacl\<close> and its entries, then the owner and the group at
  their offsets.
\<close>

definition put_sd :: "byte list \<Rightarrow> nat \<Rightarrow> sd_rel \<Rightarrow> byte \<Rightarrow> nat \<Rightarrow> ace list \<Rightarrow> sid \<Rightarrow> sid \<Rightarrow> byte list" where
  "put_sd buf base h acl_rv acl_size aces own grp =
     (let b1 = put_bytes buf base (sd_rel_bytes h);
          b2 = put_bytes b1 (base + sr_dacl h) (acl_bytes acl_rv acl_size (length aces));
          b3 = put_aces b2 (base + sr_dacl h + 8) aces;
          b4 = put_bytes b3 (base + sr_owner h) (sid_bytes own)
      in put_bytes b4 (base + sr_group h) (sid_bytes grp))"

section \<open>The three descriptors\<close>

definition FILE_AttrDef :: int where "FILE_AttrDef = 4"
definition FILE_Boot :: int where "FILE_Boot = 7"

definition read_mask :: "sd_consts \<Rightarrow> 32 word" where
  "read_mask c = SYNCHRONIZE c OR STANDARD_RIGHTS_READ c OR FILE_READ_ATTRIBUTES c OR FILE_READ_EA c OR FILE_READ_DATA c"

definition system_mask :: "sd_consts \<Rightarrow> int \<Rightarrow> 32 word" where
  "system_mask c n =
     (if n = FILE_AttrDef \<or> n = FILE_Boot then read_mask c
      else SYNCHRONIZE c OR STANDARD_RIGHTS_WRITE c OR FILE_WRITE_ATTRIBUTES c OR FILE_READ_ATTRIBUTES c OR FILE_WRITE_EA c OR
        FILE_READ_EA c OR FILE_APPEND_DATA c OR FILE_WRITE_DATA c OR FILE_READ_DATA c)"

definition admins_mask :: "sd_consts \<Rightarrow> int \<Rightarrow> 32 word" where
  "admins_mask c n =
     (if n = FILE_AttrDef \<or> n = FILE_Boot then read_mask c
      else SYNCHRONIZE c OR STANDARD_RIGHTS_READ c OR FILE_WRITE_ATTRIBUTES c OR FILE_READ_ATTRIBUTES c OR FILE_WRITE_EA c OR
        FILE_READ_EA c OR FILE_APPEND_DATA c OR FILE_WRITE_DATA c OR FILE_READ_DATA c)"

definition system_sid :: "sd_consts \<Rightarrow> byte \<Rightarrow> sid" where
  "system_sid c rv = nt_sid rv [SECURITY_LOCAL_SYSTEM_RID c]"

definition admins_sid :: "sd_consts \<Rightarrow> byte \<Rightarrow> sid" where
  "admins_sid c rv = nt_sid rv [SECURITY_BUILTIN_DOMAIN_RID c, DOMAIN_ALIAS_RID_ADMINS c]"

definition rel_control :: "sd_consts \<Rightarrow> 16 word" where
  "rel_control c = SE_SELF_RELATIVE c OR SE_DACL_PRESENT c"

definition allowed :: "sd_consts \<Rightarrow> byte \<Rightarrow> nat \<Rightarrow> 32 word \<Rightarrow> sid \<Rightarrow> ace" where
  "allowed c fl sz msk s = \<lparr>ace_type = ACCESS_ALLOWED_ACE_TYPE c, ace_flags = fl, ace_size = sz, ace_mask = msk, ace_sid = s\<rparr>"

definition system_file_aces :: "sd_consts \<Rightarrow> int \<Rightarrow> ace list" where
  "system_file_aces c n =
     [allowed c 0 0x14 (system_mask c n) (system_sid c 1), allowed c 0 0x18 (admins_mask c n) (admins_sid c 1)]"

text \<open>The result: the descriptor (\<open>None\<close> for the null pointer) and the static buffer.\<close>

definition init_system_file_sd :: "sd_consts \<Rightarrow> int \<Rightarrow> byte list \<Rightarrow> byte list option \<times> byte list" where
  "init_system_file_sd c n sd_array =
     (if n < 0 then (None, sd_array)
      else
        let b = put_sd sd_array 0
                  \<lparr>sr_revision = 1, sr_control = rel_control c, sr_owner = 0x48, sr_group = 0x54, sr_sacl = 0, sr_dacl = 0x14\<rparr>
                  2 0x34 (system_file_aces c n) (system_sid c 1) (admins_sid c 1)
        in (Some (take 0x64 b), b))"

definition root_mask :: "sd_consts \<Rightarrow> 32 word" where
  "root_mask c = STANDARD_RIGHTS_ALL c OR FILE_WRITE_ATTRIBUTES c OR FILE_LIST_DIRECTORY c OR FILE_WRITE_DATA c OR
     FILE_ADD_SUBDIRECTORY c OR FILE_READ_EA c OR FILE_WRITE_EA c OR FILE_TRAVERSE c OR FILE_DELETE_CHILD c OR FILE_READ_ATTRIBUTES c"

definition inherit :: "sd_consts \<Rightarrow> byte" where
  "inherit c = OBJECT_INHERIT_ACE c OR CONTAINER_INHERIT_ACE c OR INHERIT_ONLY_ACE c"

definition root_aces :: "sd_consts \<Rightarrow> ace list" where
  "root_aces c =
     (let r = SID_REVISION c; users = nt_sid r [SECURITY_BUILTIN_DOMAIN_RID c, DOMAIN_ALIAS_RID_USERS c];
          auth = nt_sid r [SECURITY_AUTHENTICATED_USER_RID c] in
      [allowed c 0 0x18 (root_mask c) (admins_sid c r),
       allowed c (inherit c) 0x18 (GENERIC_ALL c) (admins_sid c r),
       allowed c 0 0x14 (root_mask c) (system_sid c r),
       allowed c (inherit c) 0x14 (GENERIC_ALL c) (system_sid c r),
       allowed c 0 0x14
         (SYNCHRONIZE c OR READ_CONTROL c OR DELETE c OR FILE_WRITE_ATTRIBUTES c OR FILE_READ_ATTRIBUTES c OR FILE_TRAVERSE c OR
          FILE_WRITE_EA c OR FILE_READ_EA c OR FILE_ADD_SUBDIRECTORY c OR FILE_ADD_FILE c OR FILE_LIST_DIRECTORY c) auth,
       allowed c (inherit c) 0x14 (GENERIC_READ c OR GENERIC_WRITE c OR GENERIC_EXECUTE c OR DELETE c) auth,
       allowed c 0 0x18
         (SYNCHRONIZE c OR READ_CONTROL c OR FILE_READ_ATTRIBUTES c OR FILE_TRAVERSE c OR FILE_READ_EA c OR FILE_LIST_DIRECTORY c) users,
       allowed c (inherit c) 0x18 (GENERIC_READ c OR GENERIC_EXECUTE c) users])"

definition init_root_sd :: "sd_consts \<Rightarrow> byte list \<Rightarrow> byte list" where
  "init_root_sd c sd_array =
     put_sd sd_array 0
       \<lparr>sr_revision = SECURITY_DESCRIPTOR_REVISION c, sr_control = rel_control c, sr_owner = 0x1014, sr_group = 0x1020,
        sr_sacl = 0, sr_dacl = 20\<rparr>
       (ACL_REVISION c) 0x1000 (root_aces c) (system_sid c 1) (system_sid c 1)"

text \<open>The \<^verbatim>\<open>$SDS\<close> stream: a header of 20 bytes and the descriptor, twice.\<close>

record sds_header =
  sds_hash :: nat
  sds_security_id :: nat
  sds_offset :: nat
  sds_length :: nat

definition sds_header_bytes :: "sds_header \<Rightarrow> byte list" where
  "sds_header_bytes s =
     le_bytes 4 (sds_hash s) @ le_bytes 4 (sds_security_id s) @ le_bytes 8 (sds_offset s) @ le_bytes 4 (sds_length s)"

definition sds_header_at :: "byte list \<Rightarrow> nat \<Rightarrow> sds_header" where
  "sds_header_at buf pos =
     \<lparr>sds_hash = get_le buf pos 4, sds_security_id = get_le buf (pos + 4) 4, sds_offset = get_le buf (pos + 8) 8,
      sds_length = get_le buf (pos + 16) 4\<rparr>"

definition sds_aces :: "sd_consts \<Rightarrow> 32 word \<Rightarrow> ace list" where
  "sds_aces c msk =
     [\<lparr>ace_type = 0, ace_flags = 0, ace_size = 0x14, ace_mask = msk, ace_sid = system_sid c 1\<rparr>,
      \<lparr>ace_type = 0, ace_flags = 0, ace_size = 0x18, ace_mask = msk, ace_sid = admins_sid c 1\<rparr>]"

definition put_sds :: "sd_consts \<Rightarrow> byte list \<Rightarrow> nat \<Rightarrow> sds_header \<Rightarrow> 32 word \<Rightarrow> byte list" where
  "put_sds c buf pos s msk =
     put_sd (put_bytes buf pos (sds_header_bytes s)) (pos + 20)
       \<lparr>sr_revision = 1, sr_control = rel_control c, sr_owner = 0x48, sr_group = 0x58, sr_sacl = 0, sr_dacl = 0x14\<rparr>
       2 0x34 (sds_aces c msk) (admins_sid c 1) (admins_sid c 1)"

definition init_secure_sds :: "sd_consts \<Rightarrow> byte list \<Rightarrow> byte list" where
  "init_secure_sds c sd_val =
     put_sds c
       (put_sds c sd_val 0 \<lparr>sds_hash = 0xF80312F0, sds_security_id = 0x0100, sds_offset = 0, sds_length = 0x7C\<rparr> 0x120089)
       0x80 \<lparr>sds_hash = 0xB32451, sds_security_id = 0x0101, sds_offset = 0x80, sds_length = 0x7C\<rparr> 0x12019F"

section \<open>Reading a descriptor back\<close>

text \<open>
  A reader of self-relative descriptors. It accepts a descriptor whose parts follow each other: the list
  behind the header, its entries inside it, the owner behind the list and the group behind the owner, up
  to the end.
\<close>

fun parse_sid :: "byte list \<Rightarrow> sid option" where
  "parse_sid (r # n # bs) =
     (if 6 + 4 * unat n \<le> length bs
      then Some \<lparr>sid_revision = r, sid_authority = take 6 bs,
                 sid_subs = map (\<lambda>i. word_of_nat (get_le bs (6 + 4 * i) 4)) [0..<unat n]\<rparr>
      else None)"
| "parse_sid _ = None"

fun parse_aces :: "nat \<Rightarrow> byte list \<Rightarrow> ace list option" where
  "parse_aces 0 bs = Some []"
| "parse_aces (Suc k) bs =
     (case parse_sid (drop 8 bs) of
        None \<Rightarrow> None
      | Some s \<Rightarrow>
          let sz = get_le bs 2 2 in
          if sz = 8 + sid_len s
          then map_option (Cons \<lparr>ace_type = bs ! 0, ace_flags = bs ! 1, ace_size = sz, ace_mask = word_of_nat (get_le bs 4 4), ace_sid = s\<rparr>)
                 (parse_aces k (drop sz bs))
          else None)"

record sec_desc =
  sd_revision :: byte
  sd_control :: "16 word"
  sd_aces :: "ace list"
  sd_owner :: sid
  sd_group :: sid

definition parse_sd :: "byte list \<Rightarrow> sec_desc option" where
  "parse_sd bs =
     (let own = get_le bs 4 4; grp = get_le bs 8 4; sz = get_le bs 22 2 in
      if 28 \<le> length bs \<and> get_le bs 12 4 = 0 \<and> get_le bs 16 4 = 20 \<and> own = 20 + sz then
        (case (parse_aces (get_le bs 24 2) (take (sz - 8) (drop 28 bs)), parse_sid (drop own bs), parse_sid (drop grp bs)) of
           (Some as, Some s, Some g) \<Rightarrow>
             if grp = own + sid_len s \<and> length bs = grp + sid_len g
             then Some \<lparr>sd_revision = bs ! 0, sd_control = word_of_nat (get_le bs 2 2), sd_aces = as, sd_owner = s, sd_group = g\<rparr>
             else None
         | _ \<Rightarrow> None)
      else None)"

definition sid_ok :: "sid \<Rightarrow> bool" where
  "sid_ok s \<longleftrightarrow> length (sid_authority s) = 6 \<and> length (sid_subs s) < 256"

definition ace_ok :: "ace \<Rightarrow> bool" where
  "ace_ok a \<longleftrightarrow> sid_ok (ace_sid a) \<and> ace_size a = 8 + sid_len (ace_sid a)"

lemma length_le32 [simp]: "length (le32 w) = 4"
  by (simp add: le32_def)

lemma length_words [simp]: "length (concat (map le32 ws)) = 4 * length ws"
  by (induction ws) simp_all

lemma length_sid_bytes [simp]: "sid_ok s \<Longrightarrow> length (sid_bytes s) = sid_len s"
  by (simp add: sid_bytes_def sid_len_def sid_ok_def)

lemma length_ace_bytes [simp]: "ace_ok a \<Longrightarrow> length (ace_bytes a) = ace_size a"
  by (simp add: ace_bytes_def ace_ok_def)

lemma length_sd_parts [simp]: "length (sd_rel_bytes h) = 20" "length (acl_bytes rv sz n) = 8"
  by (simp_all add: sd_rel_bytes_def acl_bytes_def)

lemma read_le32: "word_of_nat (le_val (le32 w)) = w"
proof -
  have "unat w < 256 ^ 4" using unsigned_less [of w, where ?'a = nat] by simp
  then show ?thesis by (simp add: le32_def)
qed

lemma read_words: "i < length ws \<Longrightarrow> take 4 (drop (4 * i) (concat (map le32 ws))) = le32 (ws ! i)"
  by (induction ws arbitrary: i) (auto simp: nth_Cons less_Suc_eq_0_disj split: nat.splits)

lemma parse_sid_bytes:
  assumes "sid_ok s"
  shows "parse_sid (sid_bytes s @ x) = Some s"
proof -
  let ?n = "length (sid_subs s)" let ?t = "sid_authority s @ concat (map le32 (sid_subs s)) @ x"
  have n: "unat (word_of_nat ?n :: byte) = ?n" using assms by (simp add: sid_ok_def)
  have "map (\<lambda>i. word_of_nat (get_le ?t (6 + 4 * i) 4)) [0..<?n] = sid_subs s"
    using assms by (intro nth_equalityI) (simp_all add: get_le_def get_bytes_def sid_ok_def read_words read_le32)
  with assms n show ?thesis by (simp add: sid_bytes_def sid_ok_def)
qed

lemma parse_ace_bytes:
  assumes "\<forall>a \<in> set as. ace_ok a"
  shows "parse_aces (length as) (concat (map ace_bytes as) @ x) = Some as"
  using assms
proof (induction as)
  case Nil
  then show ?case by simp
next
  case (Cons a as)
  then have ok: "ace_ok a" by simp
  let ?bs = "ace_bytes a @ concat (map ace_bytes as) @ x"
  have "ace_size a < 256 ^ 2" using ok by (simp add: ace_ok_def sid_len_def sid_ok_def)
  then have sz: "get_le ?bs 2 2 = ace_size a" by (simp add: ace_bytes_def get_le_def get_bytes_def)
  have msk: "word_of_nat (get_le ?bs 4 4) = ace_mask a"
    by (simp add: ace_bytes_def get_le_def get_bytes_def read_le32)
  have sid: "parse_sid (drop 8 ?bs) = Some (ace_sid a)"
    using ok parse_sid_bytes [of "ace_sid a" "concat (map ace_bytes as) @ x"] by (simp add: ace_bytes_def ace_ok_def)
  have hd: "?bs ! 0 = ace_type a" "?bs ! 1 = ace_flags a" by (simp_all add: ace_bytes_def)
  show ?case
    using Cons ok sz msk sid hd by (simp add: Let_def ace_ok_def)
qed

section \<open>The descriptors are what a reader sees\<close>

lemma put_at: "off = length a \<Longrightarrow> put_bytes (a @ b) off bs = a @ bs @ drop (length bs) b"
  by (simp add: put_bytes_def)

lemma put_aces_at:
  assumes "off = length a" and "\<forall>x \<in> set as. ace_ok x"
  shows "put_aces (a @ b) off as = a @ concat (map ace_bytes as) @ drop (length (concat (map ace_bytes as))) b"
  using assms
proof (induction as arbitrary: a b off)
  case Nil
  then show ?case by simp
next
  case (Cons x xs)
  then have "put_aces (a @ b) off (x # xs) = put_aces ((a @ ace_bytes x) @ drop (length (ace_bytes x)) b) (off + ace_size x) xs"
    by (simp add: put_at)
  also have "\<dots> = (a @ ace_bytes x) @ concat (map ace_bytes xs) @ drop (length (concat (map ace_bytes xs))) (drop (length (ace_bytes x)) b)"
    using Cons.prems by (intro Cons.IH) simp_all
  finally show ?case by (simp add: add.commute)
qed

text \<open>The bytes of a descriptor whose list of size \<open>sz\<close> ends where the owner begins.\<close>

definition sd_image :: "sd_rel \<Rightarrow> byte \<Rightarrow> nat \<Rightarrow> ace list \<Rightarrow> byte list \<Rightarrow> sid \<Rightarrow> sid \<Rightarrow> byte list" where
  "sd_image h rv sz as gap own grp =
     sd_rel_bytes h @ acl_bytes rv sz (length as) @ concat (map ace_bytes as) @ gap @ sid_bytes own @ sid_bytes grp"

definition sd_shape :: "sd_rel \<Rightarrow> nat \<Rightarrow> ace list \<Rightarrow> sid \<Rightarrow> sid \<Rightarrow> bool" where
  "sd_shape h sz as own grp \<longleftrightarrow> sr_dacl h = 20 \<and> sr_sacl h = 0 \<and> sr_owner h = 20 + sz \<and> sr_group h = sr_owner h + sid_len own \<and>
     (\<forall>a \<in> set as. ace_ok a) \<and> sid_ok own \<and> sid_ok grp \<and> 8 + sum_list (map ace_size as) \<le> sz \<and> sz < 2 ^ 16 \<and> length as < 2 ^ 16"

lemma length_aces: "\<forall>a \<in> set as. ace_ok a \<Longrightarrow> length (concat (map ace_bytes as)) = sum_list (map ace_size as)"
  by (induction as) simp_all

lemma put_sd_image:
  assumes shape: "sd_shape h sz as own grp" and len: "sr_group h + sid_len grp \<le> length rest" and base: "base = length pre"
  shows "\<exists>gap. put_sd (pre @ rest) base h rv sz as own grp =
      pre @ sd_image h rv sz as gap own grp @ drop (sr_group h + sid_len grp) rest \<and>
    28 + sum_list (map ace_size as) + length gap = sr_owner h"
proof -
  let ?n = "sum_list (map ace_size as)" let ?aces = "concat (map ace_bytes as)"
  let ?front = "pre @ sd_rel_bytes h @ acl_bytes rv sz (length as) @ ?aces"
  let ?tail = "drop (28 + ?n) rest"
  note sh = shape [unfolded sd_shape_def]
  have n: "length ?aces = ?n" using sh by (simp add: length_aces)
  define b2 where "b2 = put_bytes (put_bytes (pre @ rest) base (sd_rel_bytes h)) (base + sr_dacl h) (acl_bytes rv sz (length as))"
  have b2: "b2 = (pre @ sd_rel_bytes h @ acl_bytes rv sz (length as)) @ drop 28 rest"
    using put_at [of "base + 20" "pre @ sd_rel_bytes h" "drop 20 rest"] sh base by (simp add: b2_def put_at)
  have b3: "put_aces b2 (base + sr_dacl h + 8) as = ?front @ ?tail"
    using put_aces_at [of "base + 28" "pre @ sd_rel_bytes h @ acl_bytes rv sz (length as)" as "drop 28 rest"] sh base n
    by (simp add: b2 add.commute)
  define gap where "gap = take (sr_owner h - (28 + ?n)) ?tail"
  have lg: "length gap = sr_owner h - (28 + ?n)" using sh len by (simp add: gap_def)
  have split: "?tail = gap @ drop (sr_owner h) rest"
    using sh append_take_drop_id [of "sr_owner h - (28 + ?n)" ?tail] by (simp add: gap_def del: append_take_drop_id)
  have "put_sd (pre @ rest) base h rv sz as own grp =
      put_bytes (put_bytes (?front @ gap @ drop (sr_owner h) rest) (base + sr_owner h) (sid_bytes own)) (base + sr_group h) (sid_bytes grp)"
    by (simp add: put_sd_def Let_def b2_def [symmetric] b3 split)
  also have "put_bytes (?front @ gap @ drop (sr_owner h) rest) (base + sr_owner h) (sid_bytes own) =
      (?front @ gap @ sid_bytes own) @ drop (sr_group h) rest"
    using put_at [of "base + sr_owner h" "?front @ gap" "drop (sr_owner h) rest" "sid_bytes own"] sh base n lg
    by (simp add: add.commute)
  also have "put_bytes \<dots> (base + sr_group h) (sid_bytes grp) =
      (?front @ gap @ sid_bytes own) @ sid_bytes grp @ drop (sr_group h + sid_len grp) rest"
    using put_at [of "base + sr_group h" "?front @ gap @ sid_bytes own" "drop (sr_group h) rest" "sid_bytes grp"] sh base n lg
    by (simp add: add.commute)
  finally show ?thesis using lg sh by (intro exI [of _ gap]) (simp add: sd_image_def)
qed

lemma parse_sd_image:
  assumes shape: "sd_shape h sz as own grp" and gap: "28 + sum_list (map ace_size as) + length gap = sr_owner h"
  shows "parse_sd (sd_image h rv sz as gap own grp) =
    Some \<lparr>sd_revision = sr_revision h, sd_control = sr_control h, sd_aces = as, sd_owner = own, sd_group = grp\<rparr>"
proof -
  note sh = shape [unfolded sd_shape_def]
  let ?bs = "sd_image h rv sz as gap own grp"
  let ?t = "concat (map ace_bytes as) @ gap @ sid_bytes own @ sid_bytes grp"
  have n: "length (concat (map ace_bytes as)) = sum_list (map ace_size as)" using sh by (simp add: length_aces)
  have own: "sr_owner h < 256 ^ 4" and grp: "sr_group h < 256 ^ 4" using sh by (auto simp: sid_len_def sid_ok_def)
  have fields: "get_le ?bs 4 4 = sr_owner h" "get_le ?bs 8 4 = sr_group h" "get_le ?bs 12 4 = 0" "get_le ?bs 16 4 = 20"
    "get_le ?bs 22 2 = sz" "get_le ?bs 24 2 = length as" "?bs ! 0 = sr_revision h"
    using sh own grp by (simp_all add: sd_image_def sd_rel_bytes_def acl_bytes_def get_le_def get_bytes_def)
  have "unat (sr_control h) < 256 ^ 2" using unsigned_less [of "sr_control h", where ?'a = nat] by simp
  then have ctl: "word_of_nat (get_le ?bs 2 2) = sr_control h"
    by (simp add: sd_image_def sd_rel_bytes_def get_le_def get_bytes_def)
  have d28: "drop 28 ?bs = ?t" by (simp add: sd_image_def sd_rel_bytes_def acl_bytes_def)
  have "take (sz - 8) ?t = concat (map ace_bytes as) @ gap" using n gap sh by simp
  then have aces: "parse_aces (length as) (take (sz - 8) (drop 28 ?bs)) = Some as"
    using sh by (simp add: d28 parse_ace_bytes)
  have drop_own: "drop (sr_owner h) ?bs = sid_bytes own @ sid_bytes grp"
    using n gap by (simp add: sd_image_def)
  then have o: "parse_sid (drop (sr_owner h) ?bs) = Some own" using sh by (simp add: parse_sid_bytes)
  have "sr_group h = sid_len own + sr_owner h" using sh by simp
  then have "drop (sr_group h) ?bs = drop (sid_len own) (sid_bytes own @ sid_bytes grp)"
    by (simp only: drop_drop [symmetric] drop_own)
  then have "drop (sr_group h) ?bs = sid_bytes grp" using sh by simp
  then have g: "parse_sid (drop (sr_group h) ?bs) = Some grp" using sh parse_sid_bytes [of grp "[]"] by simp
  have len: "length ?bs = sr_group h + sid_len grp" using n gap sh by (simp add: sd_image_def)
  show ?thesis
    unfolding parse_sd_def Let_def fields ctl using sh aces o g len by simp
qed

lemma nt_sid_sel [simp]:
  "sid_ok (nt_sid rv subs) = (length subs < 256)" "sid_len (nt_sid rv subs) = 8 + 4 * length subs"
  by (simp_all add: nt_sid_def sid_ok_def sid_len_def)

lemma well_known_sids [simp]:
  "sid_ok (system_sid c rv)" "sid_len (system_sid c rv) = 12" "sid_ok (admins_sid c rv)" "sid_len (admins_sid c rv) = 16"
  by (simp_all add: system_sid_def admins_sid_def)

lemma allowed_ok [simp]: "ace_ok (allowed c fl sz msk s) \<longleftrightarrow> sid_ok s \<and> sz = 8 + sid_len s" "ace_size (allowed c fl sz msk s) = sz"
  by (simp_all add: allowed_def ace_ok_def)

lemma put_sd_whole:
  assumes "sd_shape h sz as own grp" and "length buf = sr_group h + sid_len grp + k"
  shows "parse_sd (take (sr_group h + sid_len grp) (put_sd buf 0 h rv sz as own grp)) =
      Some \<lparr>sd_revision = sr_revision h, sd_control = sr_control h, sd_aces = as, sd_owner = own, sd_group = grp\<rparr>"
    and "length (put_sd buf 0 h rv sz as own grp) = length buf"
proof -
  obtain gap where gap: "put_sd ([] @ buf) 0 h rv sz as own grp =
      [] @ sd_image h rv sz as gap own grp @ drop (sr_group h + sid_len grp) buf"
    "28 + sum_list (map ace_size as) + length gap = sr_owner h"
    using put_sd_image [OF assms(1), of buf 0 "[]" rv] assms(2) by auto
  note sh = assms(1) [unfolded sd_shape_def]
  have len: "length (sd_image h rv sz as gap own grp) = sr_group h + sid_len grp"
    using sh gap(2) by (simp add: sd_image_def length_aces)
  show "parse_sd (take (sr_group h + sid_len grp) (put_sd buf 0 h rv sz as own grp)) =
      Some \<lparr>sd_revision = sr_revision h, sd_control = sr_control h, sd_aces = as, sd_owner = own, sd_group = grp\<rparr>"
    using gap len parse_sd_image [OF assms(1) gap(2), of rv] by simp
  show "length (put_sd buf 0 h rv sz as own grp) = length buf"
    using gap(1) len assms(2) by simp
qed


section \<open>The stream of descriptors\<close>

text \<open>The hash NTFS files descriptors under: the sum of the 32-bit words, rotating left by three bits before each.\<close>

fun hash_words :: "nat \<Rightarrow> byte list \<Rightarrow> nat" where
  "hash_words h (a # b # c # d # bs) =
     hash_words ((le_val [a, b, c, d] + (h * 8 mod 2 ^ 32 + h div 2 ^ 29)) mod 2 ^ 32) bs"
| "hash_words h _ = h"

definition security_hash :: "byte list \<Rightarrow> nat" where
  "security_hash bs = hash_words 0 bs"

definition sds_desc :: "sd_consts \<Rightarrow> 32 word \<Rightarrow> sec_desc" where
  "sds_desc c msk = \<lparr>sd_revision = 1, sd_control = rel_control c, sd_aces = sds_aces c msk,
     sd_owner = admins_sid c 1, sd_group = admins_sid c 1\<rparr>"

definition sds_image :: "sd_consts \<Rightarrow> 32 word \<Rightarrow> byte list" where
  "sds_image c msk =
     sd_image \<lparr>sr_revision = 1, sr_control = rel_control c, sr_owner = 0x48, sr_group = 0x58, sr_sacl = 0, sr_dacl = 0x14\<rparr>
       2 0x34 (sds_aces c msk) [] (admins_sid c 1) (admins_sid c 1)"

lemma length_sds_header [simp]: "length (sds_header_bytes s) = 20"
  by (simp add: sds_header_bytes_def)

lemma sds_shape: "sd_shape \<lparr>sr_revision = rv, sr_control = ctl, sr_owner = 0x48, sr_group = 0x58, sr_sacl = 0, sr_dacl = 0x14\<rparr>
    0x34 (sds_aces c msk) (admins_sid c 1) (admins_sid c 1)"
  by (simp add: sd_shape_def sds_aces_def ace_ok_def)

lemma sds_aces_size [simp]: "sum_list (map ace_size (sds_aces c msk)) = 44"
  by (simp add: sds_aces_def)

lemma sds_image_props [simp]: "length (sds_image c msk) = 0x68" "parse_sd (sds_image c msk) = Some (sds_desc c msk)"
proof -
  have "\<forall>a \<in> set (sds_aces c msk). ace_ok a" by (simp add: sds_aces_def ace_ok_def)
  then show "length (sds_image c msk) = 0x68" by (simp add: sds_image_def sd_image_def length_aces)
  show "parse_sd (sds_image c msk) = Some (sds_desc c msk)"
    using parse_sd_image [OF sds_shape [of 1 "rel_control c" c msk], of "[]" 2] by (simp add: sds_image_def sds_desc_def)
qed

lemma put_sds_at:
  assumes "pos = length pre" and "0x7c \<le> length rest"
  shows "put_sds c (pre @ rest) pos s msk = pre @ sds_header_bytes s @ sds_image c msk @ drop 0x7c rest"
proof -
  have hd: "put_bytes (pre @ rest) pos (sds_header_bytes s) = (pre @ sds_header_bytes s) @ drop 20 rest"
    using assms(1) by (simp add: put_at)
  let ?h = "\<lparr>sr_revision = 1, sr_control = rel_control c, sr_owner = 0x48, sr_group = 0x58, sr_sacl = 0, sr_dacl = 0x14\<rparr>"
  obtain gap where gap: "put_sd ((pre @ sds_header_bytes s) @ drop 20 rest) (pos + 20) ?h 2 0x34 (sds_aces c msk) (admins_sid c 1) (admins_sid c 1) =
      (pre @ sds_header_bytes s) @ sd_image ?h 2 0x34 (sds_aces c msk) gap (admins_sid c 1) (admins_sid c 1) @ drop (0x58 + 16) (drop 20 rest)"
    "28 + 44 + length gap = 0x48"
    using put_sd_image [OF sds_shape [of 1 "rel_control c" c msk], of "drop 20 rest" "pos + 20" "pre @ sds_header_bytes s" 2] assms by auto
  from gap(2) have "gap = []" by simp
  then show ?thesis
    unfolding put_sds_def hd using gap(1) by (simp add: sds_image_def)
qed

lemma init_secure_sds_bytes:
  assumes "0xfc \<le> length buf"
  shows "init_secure_sds c buf =
    sds_header_bytes \<lparr>sds_hash = 0xF80312F0, sds_security_id = 0x0100, sds_offset = 0, sds_length = 0x7C\<rparr> @ sds_image c 0x120089 @
    take 4 (drop 0x7c buf) @
    sds_header_bytes \<lparr>sds_hash = 0xB32451, sds_security_id = 0x0101, sds_offset = 0x80, sds_length = 0x7C\<rparr> @ sds_image c 0x12019F @
    drop 0xfc buf"
proof -
  let ?h1 = "\<lparr>sds_hash = 0xF80312F0, sds_security_id = 0x0100, sds_offset = 0, sds_length = 0x7C\<rparr>"
  let ?h2 = "\<lparr>sds_hash = 0xB32451, sds_security_id = 0x0101, sds_offset = 0x80, sds_length = 0x7C\<rparr>"
  let ?pre = "sds_header_bytes ?h1 @ sds_image c 0x120089 @ take 4 (drop 0x7c buf)"
  have "put_sds c buf 0 ?h1 0x120089 = sds_header_bytes ?h1 @ sds_image c 0x120089 @ drop 0x7c buf"
    using put_sds_at [of 0 "[]" buf c ?h1 "0x120089"] assms by simp
  also have "drop 0x7c buf = take 4 (drop 0x7c buf) @ drop 0x80 buf"
    using append_take_drop_id [of 4 "drop 0x7c buf"] by (simp del: append_take_drop_id)
  finally have "put_sds c buf 0 ?h1 0x120089 = ?pre @ drop 0x80 buf" by simp
  then show ?thesis
    unfolding init_secure_sds_def using put_sds_at [of "0x80" ?pre "drop 0x80 buf" c ?h2 "0x12019F"] assms by simp
qed

lemma sds_header_at_bytes:
  assumes "sds_hash s < 2 ^ 32" and "sds_security_id s < 2 ^ 32" and "sds_offset s < 2 ^ 64" and "sds_length s < 2 ^ 32"
  shows "sds_header_at (pre @ sds_header_bytes s @ rest) (length pre) = s"
  using assms by (simp add: sds_header_at_def sds_header_bytes_def get_le_def get_bytes_def)

lemma sds_image_bytes:
  assumes "rel_control c = 0x8004" and "SECURITY_LOCAL_SYSTEM_RID c = 18" and "SECURITY_BUILTIN_DOMAIN_RID c = 32"
    and "DOMAIN_ALIAS_RID_ADMINS c = 544"
  shows "sds_image c msk =
    [1, 0, 4, 0x80, 0x48, 0, 0, 0, 0x58, 0, 0, 0, 0, 0, 0, 0, 0x14, 0, 0, 0, 2, 0, 0x34, 0, 2, 0, 0, 0, 0, 0, 0x14, 0] @ le32 msk @
    [1, 1, 0, 0, 0, 0, 0, 5, 18, 0, 0, 0, 0, 0, 0x18, 0] @ le32 msk @
    [1, 2, 0, 0, 0, 0, 0, 5, 32, 0, 0, 0, 32, 2, 0, 0, 1, 2, 0, 0, 0, 0, 0, 5, 32, 0, 0, 0, 32, 2, 0, 0, 1, 2, 0, 0, 0, 0, 0, 5,
     32, 0, 0, 0, 32, 2, 0, 0]"
  using assms
  by (simp add: sds_image_def sd_image_def sd_rel_bytes_def acl_bytes_def sds_aces_def ace_bytes_def
      sid_bytes_def system_sid_def admins_sid_def nt_sid_def le32_def [of 18] le32_def [of 32] le32_def [of 544] le_bytes_numeral)

lemma security_hashes:
  assumes "rel_control c = 0x8004" and "SECURITY_LOCAL_SYSTEM_RID c = 18" and "SECURITY_BUILTIN_DOMAIN_RID c = 32"
    and "DOMAIN_ALIAS_RID_ADMINS c = 544"
  shows "security_hash (sds_image c 0x120089) = 0xF80312F0" and "security_hash (sds_image c 0x12019F) = 0xB32451"
  unfolding sds_image_bytes [OF assms] security_hash_def by (simp_all add: le32_def le_bytes_numeral)

text \<open>The entry of the stream at \<open>pos\<close>: its header, and the descriptor behind it that the header's length bounds.\<close>

definition sds_entry :: "byte list \<Rightarrow> nat \<Rightarrow> sds_header \<times> byte list" where
  "sds_entry buf pos = (let s = sds_header_at buf pos in (s, get_bytes buf (pos + 20) (sds_length s - 20)))"

lemma sds_entries:
  assumes "0xfc \<le> length buf"
  shows "sds_entry (init_secure_sds c buf) 0 =
      (\<lparr>sds_hash = 0xF80312F0, sds_security_id = 0x0100, sds_offset = 0, sds_length = 0x7C\<rparr>, sds_image c 0x120089)"
    and "sds_entry (init_secure_sds c buf) 0x80 =
      (\<lparr>sds_hash = 0xB32451, sds_security_id = 0x0101, sds_offset = 0x80, sds_length = 0x7C\<rparr>, sds_image c 0x12019F)"
proof -
  let ?h1 = "\<lparr>sds_hash = 0xF80312F0, sds_security_id = 0x0100, sds_offset = 0, sds_length = 0x7C\<rparr>"
  let ?h2 = "\<lparr>sds_hash = 0xB32451, sds_security_id = 0x0101, sds_offset = 0x80, sds_length = 0x7C\<rparr>"
  let ?pre = "sds_header_bytes ?h1 @ sds_image c 0x120089 @ take 4 (drop 0x7c buf)"
  note out = init_secure_sds_bytes [OF assms, of c]
  have pre: "length ?pre = 0x80" using assms by simp
  have h1: "sds_header_at (init_secure_sds c buf) 0 = ?h1"
    unfolding out by (subst sds_header_at_bytes [where pre = "[]", simplified]) simp_all
  have "sds_header_at (?pre @ sds_header_bytes ?h2 @ sds_image c 0x12019F @ drop 0xfc buf) (length ?pre) = ?h2"
    by (rule sds_header_at_bytes) simp_all
  then have h2: "sds_header_at (init_secure_sds c buf) 0x80 = ?h2" unfolding out pre by simp
  show "sds_entry (init_secure_sds c buf) 0 = (?h1, sds_image c 0x120089)"
    by (simp add: sds_entry_def h1 get_bytes_def) (simp add: out)
  show "sds_entry (init_secure_sds c buf) 0x80 = (?h2, sds_image c 0x12019F)"
    using assms by (simp add: sds_entry_def h2 get_bytes_def) (simp add: out)
qed

text \<open>
  C30: the stream of security descriptors is consistent. At each of its two offsets there is a header that gives
  this offset, the security id used by the system files, and the length of the descriptor behind it; the
  descriptor is well formed, grants the rights of its id to the system and the administrators, and the hash
  written into the header is the hash of its bytes.
\<close>

theorem secure_stream:
  assumes "0xfc \<le> length buf" and "rel_control c = 0x8004" and "SECURITY_LOCAL_SYSTEM_RID c = 18"
    and "SECURITY_BUILTIN_DOMAIN_RID c = 32" and "DOMAIN_ALIAS_RID_ADMINS c = 544"
    and "(pos, sid, msk) \<in> {(0, 0x100, 0x120089), (0x80, 0x101, 0x12019F)}"
  shows "case sds_entry (init_secure_sds c buf) pos of (s, sd) \<Rightarrow>
    sds_security_id s = sid \<and> sds_offset s = pos \<and> sds_length s = 20 + length sd \<and> parse_sd sd = Some (sds_desc c msk) \<and>
    sds_hash s = security_hash sd"
  using assms(6) sds_entries [OF assms(1), of c] security_hashes [OF assms(2-5)] by auto

text \<open>Constants as the documented format has them, for the examples.\<close>

definition ms_consts :: sd_consts where
  "ms_consts = \<lparr>SE_SELF_RELATIVE = 0x8000, SE_DACL_PRESENT = 4, SECURITY_DESCRIPTOR_REVISION = 1, ACL_REVISION = 2, SID_REVISION = 1,
     ACCESS_ALLOWED_ACE_TYPE = 0, OBJECT_INHERIT_ACE = 1, CONTAINER_INHERIT_ACE = 2, INHERIT_ONLY_ACE = 8, SYNCHRONIZE = 0x100000,
     STANDARD_RIGHTS_READ = 0x20000, STANDARD_RIGHTS_WRITE = 0x20000, STANDARD_RIGHTS_ALL = 0x1f0000, READ_CONTROL = 0x20000,
     DELETE = 0x10000, FILE_READ_DATA = 1, FILE_LIST_DIRECTORY = 1, FILE_WRITE_DATA = 2, FILE_ADD_FILE = 2, FILE_APPEND_DATA = 4,
     FILE_ADD_SUBDIRECTORY = 4, FILE_READ_EA = 8, FILE_WRITE_EA = 0x10, FILE_TRAVERSE = 0x20, FILE_DELETE_CHILD = 0x40,
     FILE_READ_ATTRIBUTES = 0x80, FILE_WRITE_ATTRIBUTES = 0x100, GENERIC_ALL = 0x10000000, GENERIC_EXECUTE = 0x20000000,
     GENERIC_WRITE = 0x40000000, GENERIC_READ = 0x80000000, SECURITY_LOCAL_SYSTEM_RID = 18, SECURITY_AUTHENTICATED_USER_RID = 11,
     SECURITY_BUILTIN_DOMAIN_RID = 32, DOMAIN_ALIAS_RID_ADMINS = 544, DOMAIN_ALIAS_RID_USERS = 545\<rparr>"


theorem secure_stream_witness:
  "case sds_entry (init_secure_sds ms_consts (replicate 0xfc 0)) 0x80 of (s, sd) \<Rightarrow>
     sds_security_id s = 0x101 \<and> sds_offset s = 0x80 \<and> sds_length s = 20 + length sd \<and>
     parse_sd sd = Some (sds_desc ms_consts 0x12019F) \<and> sds_hash s = security_hash sd"
  by (rule secure_stream) (simp_all add: rel_control_def ms_consts_def)

end
