(* ===== verification/Dir_Links.thy ===== *)
theory Dir_Links
  imports Mft_Attrs Security_Desc
begin

text \<open>
  Indexes inside MFT records and the links of files (\<^verbatim>\<open>mkntfs.c\<close>): the insertion into a resident index, the
  entries of the security, quota and object id indexes, the move of a directory to an index block, and the
  creation of hard links.
\<close>

section \<open>Insertion into an index root\<close>

definition set_attr :: "nat \<Rightarrow> attr_record \<Rightarrow> mft_record \<Rightarrow> mft_record" where
  "set_attr k a m = m\<lparr>m_attrs := (m_attrs m)[k := a]\<rparr>"

text \<open>The attribute and the index with one more entry, all their length fields included.\<close>

definition grow_index :: "nat \<Rightarrow> index_entry \<Rightarrow> nat \<Rightarrow> index_header \<Rightarrow> index_header" where
  "grow_index j e sz h =
     h\<lparr>ih_entries := insert_entry j e (ih_entries h), ih_index_length := ih_index_length h + sz,
       ih_allocated_size := ih_allocated_size h + sz\<rparr>"

definition grow_root :: "nat \<Rightarrow> index_entry \<Rightarrow> nat \<Rightarrow> attr_record \<Rightarrow> nat \<Rightarrow> nat \<Rightarrow> index_root \<Rightarrow> bool \<Rightarrow> attr_record" where
  "grow_root j e sz a vo vl r rf =
     a\<lparr>a_length := a_length a + sz,
       a_form := Resident vo (vl + sz) (Index_root (r\<lparr>ir_header := grow_index j e sz (ir_header r)\<rparr>)) rf\<rparr>"

text \<open>
  \<open>record_size\<close> is the MFT record size of the volume. The test whether the entry fits compares it with the
  wrong side: since it is the allocated size of every record, the test never fails.
\<close>

definition insert_index_entry_in_res_dir_index ::
  "'d mkenv \<Rightarrow> nat \<Rightarrow> index_entry \<Rightarrow> nat \<Rightarrow> ntfschar list \<Rightarrow> nat \<Rightarrow> mft_record \<Rightarrow> (errno option \<times> mft_record) run" where
  "insert_index_entry_in_res_dir_index env record_size e sz name type m =
     (if record_size > sz + m_bytes_allocated m then Ret (Some ENOSPC, m)
      else if \<not> me_mem env then Ret (Some ENOMEM, m)
      else
        (case mkntfs_attr_lookup (me_ops env) False m AT_INDEX_ROOT (Named name) False None fresh_ctx of
           Found k \<Rightarrow>
             (let a = m_attrs m ! k in
              case a_form a of
                Resident vo vl (Index_root r) rf \<Rightarrow>
                  (let h = ir_header r;
                       place = (\<lambda>test. index_place test (ih_index_length h) 0 0 (ih_entries h));
                       spot = (if type = AT_FILE_NAME
                               then (case ie_key e of
                                       File_key f \<Rightarrow> map_option place (Some (file_test (nm_collate (me_ops env)) f))
                                     | _ \<Rightarrow> None)
                               else if type = AT_UNUSED
                               then Some (place (view_test (nm_memcmp (me_ops env)) (ir_collation_rule r) (ie_key e)))
                               else Some None)
                   in case spot of
                        None \<Rightarrow> Undef
                      | Some None \<Rightarrow> Ret (Some (if type = AT_FILE_NAME \<or> type = AT_UNUSED then EEXIST else EINVAL), m)
                      | Some (Some j) \<Rightarrow>
                          Ret (None, (set_attr k (grow_root j e sz a vo vl r rf) m)\<lparr>m_bytes_in_use := m_bytes_in_use m + sz\<rparr>))
              | _ \<Rightarrow> Undef)
         | Undefined \<Rightarrow> Undef
         | _ \<Rightarrow> Ret (Some EEXIST, m)))"

section \<open>The security indexes\<close>

definition view_entry :: "nat \<Rightarrow> byte list \<Rightarrow> byte list \<Rightarrow> index_entry" where
  "view_entry len key data =
     \<lparr>ie_indexed_file = 0, ie_data = data, ie_length = len, ie_key = View_key key, ie_node = False, ie_end = False\<rparr>"

definition sdh_entry :: "sds_header \<Rightarrow> index_entry" where
  "sdh_entry s =
     view_entry 0x30 (le_bytes 4 (sds_hash s) @ le_bytes 4 (sds_security_id s)) (sds_header_bytes s @ le_bytes 4 0x00490049)"

definition sii_entry :: "sds_header \<Rightarrow> index_entry" where
  "sii_entry s = view_entry 0x28 (le_bytes 4 (sds_security_id s)) (sds_header_bytes s)"

text \<open>Run one insertion after another, until one fails.\<close>

definition then_insert :: "(errno option \<times> mft_record) run \<Rightarrow> (mft_record \<Rightarrow> (errno option \<times> mft_record) run) \<Rightarrow> (errno option \<times> mft_record) run" where
  "then_insert r f = (case r of Ret (None, m) \<Rightarrow> f m | _ \<Rightarrow> r)"

definition ascii :: "string \<Rightarrow> ntfschar list" where
  "ascii s = map (\<lambda>c. of_char c) s"

text \<open>\<open>at\<close> gives the header at an offset of the stream; \<open>mem\<close> is for the two entries.\<close>

function secure_from ::
  "'d mkenv \<Rightarrow> nat \<Rightarrow> (nat \<Rightarrow> sds_header) \<Rightarrow> nat \<Rightarrow> nat \<Rightarrow> mft_record \<Rightarrow> (errno option \<times> mft_record) run" where
  "secure_from env record_size at sds_size pos m =
     (if pos < sds_size \<and> sds_length (at pos) \<noteq> 0 then
        then_insert
          (then_insert
             (insert_index_entry_in_res_dir_index env record_size (sdh_entry (at pos)) 0x30 (ascii ''$SDH'') AT_UNUSED m)
             (insert_index_entry_in_res_dir_index env record_size (sii_entry (at pos)) 0x28 (ascii ''$SII'') AT_UNUSED))
          (secure_from env record_size at sds_size (pos + (sds_length (at pos) + 15) div 16 * 16))
      else Ret (None, m))"
  by pat_completeness auto
termination
proof (relation "measure (\<lambda>(env, rs, at, sds_size, pos, m). sds_size - pos)", goal_cases)
  case (2 env rs at sds_size pos m x)
  then have "16 div 16 * 16 \<le> (sds_length (at pos) + 15) div 16 * 16" by (intro mult_le_mono1 div_le_mono) simp
  with 2 show ?case by simp linarith
qed simp

declare secure_from.simps [simp del]

definition initialize_secure ::
  "'d mkenv \<Rightarrow> bool \<Rightarrow> nat \<Rightarrow> (nat \<Rightarrow> sds_header) \<Rightarrow> nat \<Rightarrow> mft_record \<Rightarrow> (errno option \<times> mft_record) run" where
  "initialize_secure env mem record_size at sds_size m =
     (if \<not> mem then Ret (Some (me_errno env), m) else secure_from env record_size at sds_size 0 m)"

section \<open>The quota index\<close>

text \<open>
  The constants of the library's headers that the entries contain besides those of the SID of the administrators:
  the default-limits flag and the first user id.
\<close>

record quota_consts =
  QUOTA_FLAG_DEFAULT_LIMITS :: nat
  QUOTA_FIRST_USER_ID :: nat

text \<open>Version, flags, bytes used, change time, threshold, limit and exceeded time of a quota entry.\<close>

definition quota_control :: "quota_consts \<Rightarrow> int \<Rightarrow> byte list" where
  "quota_control q now =
     le_bytes 4 2 @ le_bytes 4 (QUOTA_FLAG_DEFAULT_LIMITS q) @ le_bytes 8 0 @ le_bytes 8 (nat (now mod 2 ^ 64)) @
     le_bytes 8 (2 ^ 64 - 1) @ le_bytes 8 (2 ^ 64 - 1) @ le_bytes 8 0"

definition initialize_quota :: "'d mkenv \<Rightarrow> quota_consts \<Rightarrow> sd_consts \<Rightarrow> nat \<Rightarrow> int \<Rightarrow> mft_record \<Rightarrow> (errno option \<times> mft_record) run" where
  "initialize_quota env q c record_size now m =
     then_insert
       (then_insert
          (insert_index_entry_in_res_dir_index env record_size
             (view_entry 0x48 (le_bytes 4 1) (quota_control q now)) 0x48 (ascii ''$Q'') AT_UNUSED m)
          (insert_index_entry_in_res_dir_index env record_size
             (view_entry 0x58 (le_bytes 4 (QUOTA_FIRST_USER_ID q)) (quota_control q now @ sid_bytes (admins_sid c 1))) 0x58 (ascii ''$Q'') AT_UNUSED))
       (insert_index_entry_in_res_dir_index env record_size
          (view_entry 0x28 (sid_bytes (admins_sid c 1)) (le_bytes 4 (QUOTA_FIRST_USER_ID q) @ le_bytes 4 32)) 0x28 (ascii ''$O'') AT_UNUSED)"

section \<open>Object ids\<close>

text \<open>\<open>oi\<close> are the bytes of the index data for a file reference; its size is that of the structure.\<close>

definition index_obj_id_insert ::
  "'d mkenv \<Rightarrow> nat \<Rightarrow> (nat \<Rightarrow> byte list) \<Rightarrow> byte list \<Rightarrow> nat \<Rightarrow> mft_record \<Rightarrow> (errno option \<times> mft_record) run" where
  "index_obj_id_insert env record_size oi guid ref m =
     (let data_ofs = (16 + 16 + 7) div 8 * 8; sz = (data_ofs + length (oi ref) + 7) div 8 * 8 in
      if \<not> me_mem env then Ret (Some (me_errno env), m)
      else insert_index_entry_in_res_dir_index env record_size (view_entry sz guid (oi ref)) sz (ascii ''$O'') AT_UNUSED m)"

section \<open>From the index root to an index block\<close>

text \<open>
  The block: the update sequence array behind the header, the entries of the root behind it. \<open>resize\<close> is the
  library's resizing of a resident value (its new record and index), \<open>blk\<close> the bytes of the block for the device
  with its fixups applied (\<open>None\<close>: they cannot be).
\<close>

definition usa_count :: "nat \<Rightarrow> nat" where
  "usa_count bs = (if bs \<ge> 512 then bs div 512 + 1 else 1)"

definition new_block :: "nat \<Rightarrow> index_entry list \<Rightarrow> index_header" where
  "new_block bs es =
     (let eo = (16 + usa_count bs * 2 + 7) div 8 * 8 in
      \<lparr>ih_entries_offset = eo, ih_index_length = sum_list (map ie_length es) + eo, ih_allocated_size = bs - 24, ih_entries = es\<rparr>)"

definition up_to_end :: "index_entry list \<Rightarrow> index_entry list" where
  "up_to_end es = takeWhile (\<lambda>e. \<not> ie_end e) es @ take 1 (dropWhile (\<lambda>e. \<not> ie_end e) es)"

definition node_entry :: "index_entry \<Rightarrow> index_entry" where
  "node_entry e = e\<lparr>ie_node := True, ie_length := (if ie_length e < 16 + 8 then ie_length e + 8 else ie_length e)\<rparr>"

definition large_root :: "index_root \<Rightarrow> index_root" where
  "large_root r =
     (let h = ir_header r; e = node_entry (last (up_to_end (ih_entries h))); n = ih_entries_offset h + ie_length e in
      r\<lparr>ir_large := True, ir_header := h\<lparr>ih_entries := [e], ih_index_length := n, ih_allocated_size := n\<rparr>\<rparr>)"

definition upgrade_to_large_index ::
  "'d mkenv \<Rightarrow> (mft_record \<Rightarrow> nat \<Rightarrow> attr_value \<Rightarrow> nat \<Rightarrow> mft_record option) \<Rightarrow> (index_header \<Rightarrow> byte list option) \<Rightarrow>
   string \<Rightarrow> nat \<Rightarrow> bool \<Rightarrow> mft_record \<Rightarrow> 'd mkst \<Rightarrow> (errno option \<times> index_header option \<times> mft_record \<times> 'd mkst) run" where
  "upgrade_to_large_index env resize blk name name_len ic m st =
     (case me_str2ucs env (Some name) of
        None \<Rightarrow> Ret (Some (me_errno env), None, m, st)
      | Some uname \<Rightarrow>
          if \<not> me_mem env then Ret (Some ENOMEM, None, m, st)
          else if ic then Ret (Some EOPNOTSUPP, None, m, st)
          else
            (case mkntfs_attr_lookup (me_ops env) False m AT_INDEX_ROOT uname ic None fresh_ctx of
               Found k \<Rightarrow>
                 (case a_form (m_attrs m ! k) of
                    Non_resident _ \<Rightarrow> Ret (Some EINVAL, None, m, st)
                  | Resident vo vl v rf \<Rightarrow>
                      if a_flags (m_attrs m ! k) \<noteq> {} then Ret (Some EINVAL, None, m, st)
                      else
                        (case v of
                           Index_root r \<Rightarrow>
                             (case add_attr_bitmap env (Some name) name_len ic [1, 0, 0, 0, 0, 0, 0, 0] m st of
                                Hang \<Rightarrow> Hang
                              | Undef \<Rightarrow> Undef
                              | Ret (Some e, m1, st1) \<Rightarrow> Ret (Some e, None, m1, st1)
                              | Ret (None, m1, st1) \<Rightarrow>
                                  let es = up_to_end (ih_entries (ir_header r));
                                      b = new_block (ir_index_block_size r) es;
                                      r' = large_root r
                                  in (case resize m1 k (Index_root r') (16 + ih_allocated_size (ir_header r')) of
                                        None \<Rightarrow> Ret (Some (me_errno env), None, m1, st1)
                                      | Some m2 \<Rightarrow>
                                          (case blk b of
                                             None \<Rightarrow> Ret (Some (me_errno env), None, m2, st1)
                                           | Some bytes \<Rightarrow>
                                               (case add_attr_index_alloc env (Some name) name_len ic bytes m2 st1 of
                                                  Hang \<Rightarrow> Hang
                                                | Undef \<Rightarrow> Undef
                                                | Ret (Some e, m3, st2) \<Rightarrow> Ret (Some e, None, m3, st2)
                                                | Ret (None, m3, st2) \<Rightarrow> Ret (None, Some b, m3, st2)))))
                         | _ \<Rightarrow> Undef))
             | Undefined \<Rightarrow> Undef
             | _ \<Rightarrow> Ret (Some ENOTDIR, None, m, st)))"

section \<open>Hard links\<close>

definition link_name ::
  "nat \<Rightarrow> int \<Rightarrow> int \<Rightarrow> int \<Rightarrow> file_flag set \<Rightarrow> nat \<Rightarrow> nat \<Rightarrow> name_space \<Rightarrow> ntfschar list \<Rightarrow> file_name_attr" where
  "link_name parent t allocated data flags packed_ea reparse ns u =
     \<lparr>fn_parent_directory = parent, fn_times = (t, t, t, t), fn_allocated_size = allocated, fn_data_size = data,
      fn_file_attributes = flags, fn_packed_ea_size = packed_ea,
      fn_reparse_point_tag = (if packed_ea \<noteq> 0 then 0 else reparse), fn_file_name_type = ns, fn_file_name = u\<rparr>"

text \<open>
  The part both functions share: count the link, add the file name to the record, enter it into the index,
  and count back if one of the two fails. \<open>enter\<close> is the insertion into the index.
\<close>

definition link_file ::
  "'d mkenv \<Rightarrow> (file_name_attr \<Rightarrow> 'i \<Rightarrow> (errno option \<times> 'i) run) \<Rightarrow> file_name_attr \<Rightarrow> mft_record \<Rightarrow> 'i \<Rightarrow>
   (errno option \<times> mft_record \<times> 'i) run" where
  "link_file env enter f m idx =
     (if m_link_count m = 0xffff then Ret (Some EINVAL, m, idx)
      else
        let m1 = m\<lparr>m_link_count := m_link_count m + 1\<rparr> in
        (case insert_resident_attr_in_mft_record (me_ops env) (me_mem env) (me_str2ucs env None) 0 AT_FILE_NAME False {} True
                (Some (File_name f)) m1 of
           Hang \<Rightarrow> Hang
         | Undef \<Rightarrow> Undef
         | Ret (Some e, m2) \<Rightarrow> Ret (Some e, m2\<lparr>m_link_count := m_link_count m2 - 1\<rparr>, idx)
         | Ret (None, m2) \<Rightarrow>
             (case enter f idx of
                Hang \<Rightarrow> Hang
              | Undef \<Rightarrow> Undef
              | Ret (Some e, idx1) \<Rightarrow> Ret (Some e, m2\<lparr>m_link_count := m_link_count m2 - 1\<rparr>, idx1)
              | Ret (None, idx1) \<Rightarrow> Ret (None, m2, idx1))))"

definition up8_int :: "int \<Rightarrow> int" where
  "up8_int x = (x + 7) div 8 * 8"

definition create_hardlink ::
  "'d mkenv \<Rightarrow> (string \<Rightarrow> ntfschar list option) \<Rightarrow> int \<Rightarrow> nat \<Rightarrow> nat \<Rightarrow> int \<Rightarrow> int \<Rightarrow> file_flag set \<Rightarrow> nat \<Rightarrow> nat \<Rightarrow> string \<Rightarrow>
   name_space \<Rightarrow> mft_record \<Rightarrow> index_header \<Rightarrow> (errno option \<times> mft_record \<times> index_header) run" where
  "create_hardlink env mb now ref_parent ref_file allocated data flags packed_ea reparse file_name ns m idx =
     (if \<not> me_mem env then Ret (Some (me_errno env), m, idx)
      else if packed_ea \<noteq> 0 \<and> reparse \<noteq> 0 then Ret (Some EINVAL, m, idx)
      else
        (case check_name mb file_name of
           Inl e \<Rightarrow> Ret (Some e, m, idx)
         | Inr u \<Rightarrow>
             link_file env (\<lambda>f h. Ret (insert_file_link_in_dir_index (nm_collate (me_ops env)) ref_file f h))
               (link_name ref_parent (stdinfo_time env now m)
                  (if allocated \<noteq> 0 \<and> non_resident_unnamed_data env m then allocated else up8_int data) data
                  flags packed_ea reparse ns u) m idx))"

text \<open>The index of the parent is in its index root; an entry for it has the size of its key rounded up, and 16.\<close>

definition dir_entry :: "nat \<Rightarrow> file_name_attr \<Rightarrow> index_entry" where
  "dir_entry ref f =
     \<lparr>ie_indexed_file = ref, ie_data = [], ie_length = (file_name_size f + 7) div 8 * 8 + 0x10, ie_key = File_key f,
      ie_node = False, ie_end = False\<rparr>"

definition create_hardlink_res ::
  "'d mkenv \<Rightarrow> nat \<Rightarrow> (string \<Rightarrow> ntfschar list option) \<Rightarrow> int \<Rightarrow> nat \<Rightarrow> nat \<Rightarrow> int \<Rightarrow> int \<Rightarrow> file_flag set \<Rightarrow> nat \<Rightarrow> nat \<Rightarrow> string \<Rightarrow>
   name_space \<Rightarrow> mft_record \<Rightarrow> mft_record \<Rightarrow> (errno option \<times> mft_record \<times> mft_record) run" where
  "create_hardlink_res env record_size mb now ref_parent ref_file allocated data flags packed_ea reparse file_name ns m parent =
     (if \<not> me_mem env then Ret (Some (me_errno env), m, parent)
      else if packed_ea \<noteq> 0 then Ret (Some EINVAL, m, parent)
      else
        (case check_name mb file_name of
           Inl e \<Rightarrow> Ret (Some e, m, parent)
         | Inr u \<Rightarrow>
             link_file env
               (\<lambda>f p. insert_index_entry_in_res_dir_index env record_size (dir_entry ref_file f)
                  ((file_name_size f + 7) div 8 * 8 + 0x10) (ascii ''$I30'') AT_FILE_NAME p)
               (link_name ref_parent (stdinfo_time env now m) allocated data flags packed_ea reparse ns u) m parent))"

end
