(* ===== verification/Format_Writes.thy ===== *)
theory Format_Writes
  imports Format_IO
begin

text \<open>
  What the formatter's writes leave on the device. The interface \<open>seq_writer\<close> states what a device with
  a position does on a write and a seek; the callback device implements it for every host whose write
  callback stores what it says it stored. Inside the interface the loops are shown to end and to put
  the bytes of a value where its runlist says.
\<close>

section \<open>Runs on the device\<close>

fun rl_disjoint :: "runlist \<Rightarrow> bool" where
  "rl_disjoint [] = True"
| "rl_disjoint (r # rl) \<longleftrightarrow> rl_length r = 0 \<or>
     {rl_lcn r ..< rl_lcn r + rl_length r} \<inter> rl_clusters (live_runs rl) = {} \<and> rl_disjoint rl"

lemma byte_in_run:
  fixes cs :: int
  assumes "0 < cs"
  shows "p div cs \<in> {l ..< l + n} \<longleftrightarrow> l * cs \<le> p \<and> p < (l + n) * cs"
  using le_zdiv_iff [OF assms, of l p] le_zdiv_iff [OF assms, of "l + n" p] by auto

lemma phys_of_cluster:
  assumes "phys_of cs rl b = Some p" and "0 < cs"
  shows "p div cs \<in> rl_clusters (live_runs rl)"
  using assms(1)
proof (induction rl)
  case (Cons r rl)
  show ?case
  proof (cases "rl_vcn r * cs \<le> b \<and> b < (rl_vcn r + rl_length r) * cs \<and> rl_length r \<noteq> 0")
    case True
    then have "rl_lcn r * cs \<le> p \<and> p < (rl_lcn r + rl_length r) * cs"
      using Cons.prems by (auto simp: algebra_simps split: if_splits)
    with byte_in_run [OF assms(2)] True show ?thesis by auto
  next
    case False
    with Cons show ?thesis by (auto split: if_splits)
  qed
qed simp

section \<open>The interface of a sequential writer\<close>

locale seq_writer =
  fixes wr :: "'d \<Rightarrow> byte list \<Rightarrow> int \<times> 'd"
    and sk :: "'d \<Rightarrow> int \<Rightarrow> bool \<times> 'd"
    and pos :: "'d \<Rightarrow> int"
    and at :: "'d \<Rightarrow> int \<Rightarrow> byte"
  assumes wr_law: "wr d bs = (n, d') \<Longrightarrow> n \<noteq> -1 \<Longrightarrow>
      0 \<le> n \<and> n \<le> int (length bs) \<and> pos d' = pos d + n \<and>
      (\<forall>b. at d' b = (if pos d \<le> b \<and> b < pos d + n then bs ! nat (b - pos d) else at d b))"
    and sk_law: "0 \<le> off \<Longrightarrow> \<exists>d'. sk d off = (True, d') \<and> pos d' = off \<and> at d' = at d"
begin

text \<open>\<open>feeds w c lim\<close>: \<open>w\<close> writes pieces of the content \<open>c\<close>, for offsets up to \<open>lim\<close>.\<close>

definition feeds :: "(int \<Rightarrow> int \<Rightarrow> 'd \<Rightarrow> int \<times> 'd) \<Rightarrow> (int \<Rightarrow> byte) \<Rightarrow> int \<Rightarrow> bool" where
  "feeds w c lim \<longleftrightarrow> (\<forall>tot len d n d'. 0 \<le> tot \<longrightarrow> 0 \<le> len \<longrightarrow> tot + len \<le> lim \<longrightarrow> w tot len d = (n, d') \<longrightarrow> n \<noteq> -1 \<longrightarrow>
     0 \<le> n \<and> n \<le> len \<and> pos d' = pos d + n \<and>
     (\<forall>b. at d' b = (if pos d \<le> b \<and> b < pos d + n then c (tot + (b - pos d)) else at d b)))"

lemma feedsD:
  assumes "feeds w c lim" and "0 \<le> tot" and "0 \<le> len" and "tot + len \<le> lim" and "w tot len d = (n, d')" and "n \<noteq> -1"
  shows "0 \<le> n" "n \<le> len" "pos d' = pos d + n"
    "at d' b = (if pos d \<le> b \<and> b < pos d + n then c (tot + (b - pos d)) else at d b)"
  using assms unfolding feeds_def by blast+

lemma chunk_feeds:
  assumes "\<And>tot len d. 0 \<le> tot \<Longrightarrow> 0 \<le> len \<Longrightarrow> tot + len \<le> lim \<Longrightarrow> w tot len d = wr d (chunk tot len) \<and>
      int (length (chunk tot len)) \<le> len \<and> (\<forall>i < length (chunk tot len). chunk tot len ! i = c (tot + int i))"
  shows "feeds w c lim"
  unfolding feeds_def
proof (intro allI impI)
  fix tot len d n d'
  assume a: "0 \<le> tot" "0 \<le> len" "tot + len \<le> lim" "w tot len d = (n, d')" "n \<noteq> -1"
  note ch = assms [OF a(1-3), of d]
  have w: "wr d (chunk tot len) = (n, d')" using ch a(4) by simp
  note l = wr_law [OF w a(5)]
  have "chunk tot len ! nat (b - pos d) = c (tot + (b - pos d))" if "pos d \<le> b" "b < pos d + n" for b
  proof -
    have "nat (b - pos d) < length (chunk tot len)" using that l by linarith
    with ch that show ?thesis by simp
  qed
  with l ch show "0 \<le> n \<and> n \<le> len \<and> pos d' = pos d + n \<and>
      (\<forall>b. at d' b = (if pos d \<le> b \<and> b < pos d + n then c (tot + (b - pos d)) else at d b))" by auto
qed

lemma rl_write_run_spec:
  assumes "feeds w c lim" and "0 \<le> tot" and "0 \<le> len" and "tot + len \<le> lim"
  shows "\<exists>t l i d'. rl_write_run w tot len inited retry d = Some (t, l, i, d') \<and>
    (t = -1 \<or> 0 \<le> l \<and> l \<le> len \<and> t = tot + (len - l) \<and> i = inited + (len - l) \<and> pos d' = pos d + (len - l) \<and>
      (\<forall>b. at d' b = (if pos d \<le> b \<and> b < pos d + (len - l) then c (tot + (b - pos d)) else at d b)))"
  using assms(2-4)
proof (induction "4 * nat len + (3 - retry)" arbitrary: tot len inited retry d rule: less_induct)
  case less
  obtain n d1 where w: "w tot len d = (n, d1)" by fastforce
  show ?case
  proof (cases "n = -1")
    case True
    then show ?thesis by (subst rl_write_run.simps) (simp add: w)
  next
    case False
    note f = feedsD [OF assms(1) less.prems w False]
    show ?thesis
    proof (cases "(n \<noteq> 0 \<longrightarrow> len - n \<noteq> 0 \<and> retry < 3) \<and> (n = 0 \<longrightarrow> len \<noteq> 0 \<and> retry + 1 < 3)")
      case False
      then have "rl_write_run w tot len inited retry d = Some (tot + n, len - n, inited + n, d1)"
        using \<open>n \<noteq> -1\<close> by (subst rl_write_run.simps) (auto simp: w)
      then show ?thesis using f by (intro exI [of _ "tot + n"] exI [of _ "len - n"] exI [of _ "inited + n"] exI [of _ d1]) simp
    next
      case True
      define rt where "rt = (if n = 0 then retry + 1 else retry)"
      have "4 * nat (len - n) + (3 - rt) < 4 * nat len + (3 - retry)"
        using True f(1,2) less.prems by (cases "n = 0") (auto simp: rt_def)
      note hyp = less.hyps [OF this]
      have p: "0 \<le> tot + n" "0 \<le> len - n" "tot + n + (len - n) \<le> lim" using f(1,2) less.prems by simp_all
      from hyp [OF p, of "inited + n" d1] obtain t l i d' where
        r: "rl_write_run w (tot + n) (len - n) (inited + n) rt d1 = Some (t, l, i, d')"
          "t = -1 \<or> 0 \<le> l \<and> l \<le> len - n \<and> t = tot + n + (len - n - l) \<and> i = inited + n + (len - n - l) \<and>
           pos d' = pos d1 + (len - n - l) \<and>
           (\<forall>b. at d' b = (if pos d1 \<le> b \<and> b < pos d1 + (len - n - l) then c (tot + n + (b - pos d1)) else at d1 b))"
        by blast
      have "rl_write_run w tot len inited retry d = Some (t, l, i, d')"
        using True r(1) \<open>n \<noteq> -1\<close> by (subst rl_write_run.simps) (auto simp: w rt_def)
      moreover have "t = -1 \<or> 0 \<le> l \<and> l \<le> len \<and> t = tot + (len - l) \<and> i = inited + (len - l) \<and> pos d' = pos d + (len - l) \<and>
          (\<forall>b. at d' b = (if pos d \<le> b \<and> b < pos d + (len - l) then c (tot + (b - pos d)) else at d b))"
        using r(2) f by (auto simp: algebra_simps)
      ultimately show ?thesis by blast
    qed
  qed
qed

text \<open>Writing the same bytes from the same start: the padding loop ends and touches only its range.\<close>

lemma mkwrite_loop_spec:
  assumes "0 \<le> count" and "count \<le> int (length b)"
  shows "\<exists>t d'. mkwrite_loop wr b count tot retry d = Some (t, d') \<and>
    (t = -1 \<or> tot \<le> t \<and> t \<le> tot + count \<and>
      (\<forall>x. x < pos d \<or> pos d + count \<le> x \<longrightarrow> at d' x = at d x))"
  using assms
proof (induction "4 * nat count + (3 - retry)" arbitrary: count tot retry d rule: less_induct)
  case less
  obtain n d1 where w: "wr d (take (nat count) b) = (n, d1)" by fastforce
  show ?case
  proof (cases "n = -1")
    case True
    then show ?thesis by (subst mkwrite_loop.simps) (simp add: w)
  next
    case False
    have f: "0 \<le> n" "n \<le> count" "pos d1 = pos d + n" "\<And>x. x < pos d \<or> pos d + n \<le> x \<Longrightarrow> at d1 x = at d x"
      using wr_law [OF w False] less.prems by auto
    show ?thesis
    proof (cases "(n \<noteq> 0 \<longrightarrow> count - n \<noteq> 0 \<and> retry < 3) \<and> (n = 0 \<longrightarrow> count \<noteq> 0 \<and> retry + 1 < 3)")
      case False
      then have "mkwrite_loop wr b count tot retry d = Some (tot + n, d1)"
        using \<open>n \<noteq> -1\<close> by (subst mkwrite_loop.simps) (auto simp: w)
      then show ?thesis using f by (intro exI [of _ "tot + n"] exI [of _ d1]) auto
    next
      case True
      define rt where "rt = (if n = 0 then retry + 1 else retry)"
      have "4 * nat (count - n) + (3 - rt) < 4 * nat count + (3 - retry)"
        using True f(1,2) less.prems by (cases "n = 0") (auto simp: rt_def)
      note hyp = less.hyps [OF this]
      have p: "0 \<le> count - n" "count - n \<le> int (length b)" using f(1,2) less.prems by simp_all
      from hyp [OF p, of "tot + n" d1] obtain t d' where
        r: "mkwrite_loop wr b (count - n) (tot + n) rt d1 = Some (t, d')"
          "t = -1 \<or> tot + n \<le> t \<and> t \<le> tot + n + (count - n) \<and>
           (\<forall>x. x < pos d1 \<or> pos d1 + (count - n) \<le> x \<longrightarrow> at d' x = at d1 x)"
        by blast
      have "mkwrite_loop wr b count tot retry d = Some (t, d')"
        using True r(1) \<open>n \<noteq> -1\<close> by (subst mkwrite_loop.simps) (auto simp: w rt_def)
      with r(2) f show ?thesis by auto
    qed
  qed
qed

lemma mkntfs_write_ends:
  assumes "0 \<le> count" and "count \<le> int (length b)"
  shows "\<exists>t d'. mkntfs_write wr no_act d b count = Some (t, d') \<and>
    (t = -1 \<or> (\<forall>x. x < pos d \<or> pos d + count \<le> x \<longrightarrow> at d' x = at d x))"
  using mkwrite_loop_spec [OF assms, of 0 0 d] by (auto simp: mkntfs_write_def)

text \<open>Writing one run: where the bytes land, and what the padding may touch.\<close>

lemma run_step:
  assumes "feeds w c val_len" and "0 < cs" and "0 \<le> val_len" and "0 \<le> v" and "0 < L" and "0 \<le> lcn"
    and "tot = min (v * cs) val_len" and "len1 = (if tot + L * cs > val_len then val_len - tot else L * cs)"
  shows "\<exists>d1 t l i d2. sk d (lcn * cs) = (True, d1) \<and> rl_write_run w tot len1 inited 0 d1 = Some (t, l, i, d2) \<and>
    (t = -1 \<or> l \<noteq> 0 \<and> t < val_len \<or>
     l = 0 \<and> t = min ((v + L) * cs) val_len \<and> pos d2 = lcn * cs + len1 \<and>
     (\<forall>b. v * cs \<le> b \<and> b < (v + L) * cs \<and> b < val_len \<longrightarrow> at d2 (lcn * cs + (b - v * cs)) = c b) \<and>
     (\<forall>p. p div cs \<notin> {lcn ..< lcn + L} \<longrightarrow> at d2 p = at d p))"
proof -
  have Lcs: "0 < L * cs" using assms by simp
  have vcs: "0 \<le> v * cs" using assms by simp
  have add: "(v + L) * cs = v * cs + L * cs" "(lcn + L) * cs = lcn * cs + L * cs" by (simp_all add: algebra_simps)
  have len1: "0 \<le> len1" "tot + len1 \<le> val_len" "len1 \<le> L * cs" "0 \<le> tot"
    using assms(3,7,8) Lcs vcs by (auto split: if_splits)
  have "0 \<le> lcn * cs" using assms by simp
  from sk_law [OF this, of d] obtain d1 where d1: "sk d (lcn * cs) = (True, d1)" "pos d1 = lcn * cs" "at d1 = at d" by blast
  from rl_write_run_spec [OF assms(1) len1(4,1,2), of inited 0 d1] obtain t l i d2 where
    r: "rl_write_run w tot len1 inited 0 d1 = Some (t, l, i, d2)"
    "t = -1 \<or> 0 \<le> l \<and> l \<le> len1 \<and> t = tot + (len1 - l) \<and> i = inited + (len1 - l) \<and> pos d2 = pos d1 + (len1 - l) \<and>
      (\<forall>b. at d2 b = (if pos d1 \<le> b \<and> b < pos d1 + (len1 - l) then c (tot + (b - pos d1)) else at d1 b))" by blast
  have "t = -1 \<or> l \<noteq> 0 \<and> t < val_len \<or>
     l = 0 \<and> t = min ((v + L) * cs) val_len \<and> pos d2 = lcn * cs + len1 \<and>
     (\<forall>b. v * cs \<le> b \<and> b < (v + L) * cs \<and> b < val_len \<longrightarrow> at d2 (lcn * cs + (b - v * cs)) = c b) \<and>
     (\<forall>p. p div cs \<notin> {lcn ..< lcn + L} \<longrightarrow> at d2 p = at d p)"
  proof (cases "t \<noteq> -1 \<and> l = 0")
    case False
    with r(2) len1 show ?thesis by auto
  next
    case True
    with r(2) d1 have a: "t = tot + len1" "pos d2 = lcn * cs + len1"
      "\<And>b. at d2 b = (if lcn * cs \<le> b \<and> b < lcn * cs + len1 then c (tot + (b - lcn * cs)) else at d b)" by auto
    have t: "t = min ((v + L) * cs) val_len" using a(1) assms(7,8) Lcs unfolding add by (auto split: if_splits)
    have data: "at d2 (lcn * cs + (b - v * cs)) = c b" if "v * cs \<le> b" "b < (v + L) * cs" "b < val_len" for b
    proof -
      have "tot = v * cs" "b - v * cs < len1" using that assms(7,8) unfolding add by (auto split: if_splits)
      with that show ?thesis by (simp add: a(3))
    qed
    have other: "at d2 p = at d p" if "p div cs \<notin> {lcn ..< lcn + L}" for p
      using that len1(3) unfolding byte_in_run [OF assms(2)] add by (auto simp: a(3))
    from True t a(2) data other show ?thesis by blast
  qed
  with d1(1) r(1) show ?thesis by blast
qed

text \<open>The outcome of the loop over the runs; the last two conjuncts are what the padding may touch.\<close>

definition runs_done ::
  "(int \<Rightarrow> byte) \<Rightarrow> int \<Rightarrow> int \<Rightarrow> int \<Rightarrow> runlist \<Rightarrow> int \<Rightarrow> 'd \<Rightarrow> int \<Rightarrow> int \<Rightarrow> 'd \<Rightarrow> bool" where
  "runs_done c cs val_len v rl delta d t dl d' \<longleftrightarrow>
     t = min (rl_end v rl * cs) val_len \<and>
     (\<forall>b p. phys_of cs rl b = Some p \<longrightarrow> b < val_len \<longrightarrow> at d' p = c b) \<and>
     (\<forall>p. p div cs \<notin> rl_clusters (live_runs rl) \<longrightarrow> at d' p = at d p) \<and>
     (if live_runs rl = [] then dl = delta \<and> d' = d
      else 0 \<le> dl \<and> (\<forall>p. pos d' \<le> p \<and> p < pos d' + dl \<longrightarrow>
        p div cs \<in> rl_clusters (live_runs rl) \<and> (\<forall>b < val_len. phys_of cs rl b \<noteq> Some p)))"

lemma runs_done_last:
  assumes "live_runs rl = []" and "rl_length r \<noteq> 0" and "contig v (r # rl)" and "0 \<le> rl_lcn r" and "0 < cs" and "0 \<le> v"
    and "tot = min (v * cs) val_len" and "len1 = (if tot + rl_length r * cs > val_len then val_len - tot else rl_length r * cs)"
    and "dl = (if tot + rl_length r * cs > val_len then rl_length r * cs - (val_len - tot) else delta)"
    and "delta = 0 \<or> val_len < v * cs"
    and "t = min ((v + rl_length r) * cs) val_len" and "pos d' = rl_lcn r * cs + len1"
    and "\<forall>b. v * cs \<le> b \<and> b < (v + rl_length r) * cs \<and> b < val_len \<longrightarrow> at d' (rl_lcn r * cs + (b - v * cs)) = c b"
    and "\<forall>p. p div cs \<notin> {rl_lcn r ..< rl_lcn r + rl_length r} \<longrightarrow> at d' p = at d p"
  shows "runs_done c cs val_len v (r # rl) delta0 d t dl d'"
proof -
  have r: "rl_vcn r = v" "0 < rl_length r" using assms(2,3) by auto
  have Lcs: "0 < rl_length r * cs" using r assms(5) by simp
  have add: "(v + rl_length r) * cs = v * cs + rl_length r * cs"
    "(rl_lcn r + rl_length r) * cs = rl_lcn r * cs + rl_length r * cs" by (simp_all add: algebra_simps)
  have none: "phys_of cs rl b = None" for b using assms(1) by (cases rl) (auto split: if_splits)
  have ph: "phys_of cs (r # rl) b = (if v * cs \<le> b \<and> b < (v + rl_length r) * cs
      then Some (rl_lcn r * cs + (b - v * cs)) else None)" for b
    using r assms(4) none by simp
  have rl: "rl_end v (r # rl) = v + rl_length r" using assms(1,2) by (cases rl) (auto split: if_splits)
  have cl: "rl_clusters (live_runs (r # rl)) = {rl_lcn r ..< rl_lcn r + rl_length r}" using assms(1,2) by simp
  have dl: "0 \<le> dl" "dl \<noteq> 0 \<Longrightarrow> len1 + dl = rl_length r * cs \<and> tot + len1 = val_len"
    using assms(7-10) Lcs by (auto split: if_splits)
  have "p div cs \<in> {rl_lcn r ..< rl_lcn r + rl_length r} \<and> (\<forall>b < val_len. phys_of cs (r # rl) b \<noteq> Some p)"
    if "pos d' \<le> p \<and> p < pos d' + dl" for p
  proof -
    have n: "dl \<noteq> 0" using that by auto
    note d = dl(2) [OF n]
    have "0 \<le> len1" using assms(7,8) Lcs by (auto split: if_splits)
    then have "p div cs \<in> {rl_lcn r ..< rl_lcn r + rl_length r}"
      using that d assms(12) unfolding byte_in_run [OF assms(5)] add by auto
    moreover have "phys_of cs (r # rl) b \<noteq> Some p" if "b < val_len" for b
      using that \<open>pos d' \<le> p \<and> p < pos d' + dl\<close> d assms(7,12) by (auto simp: ph simp del: phys_of.simps split: if_splits)
    ultimately show ?thesis by blast
  qed
  then show ?thesis using assms(2,11,13,14) dl(1)
    unfolding runs_done_def cl rl by (auto simp: ph simp del: phys_of.simps split: if_splits)
qed

lemma runs_done_step:
  assumes "rl_length r \<noteq> 0" and "contig v (r # rl)" and "rl_disjoint (r # rl)" and "0 \<le> rl_lcn r" and "0 < cs"
    and ne: "live_runs rl \<noteq> []"
    and "\<forall>b. v * cs \<le> b \<and> b < (v + rl_length r) * cs \<and> b < val_len \<longrightarrow> at d1 (rl_lcn r * cs + (b - v * cs)) = c b"
    and "\<forall>p. p div cs \<notin> {rl_lcn r ..< rl_lcn r + rl_length r} \<longrightarrow> at d1 p = at d p"
    and rest: "runs_done c cs val_len (v + rl_length r) rl delta1 d1 t dl d'"
  shows "runs_done c cs val_len v (r # rl) delta d t dl d'"
proof -
  let ?R = "{rl_lcn r ..< rl_lcn r + rl_length r}"
  have r: "rl_vcn r = v" "0 < rl_length r" "contig (v + rl_length r) rl" using assms(1,2) by auto
  have dj: "?R \<inter> rl_clusters (live_runs rl) = {}" using assms(1,3) by auto
  have cl: "rl_clusters (live_runs (r # rl)) = ?R \<union> rl_clusters (live_runs rl)" using assms(1) by simp
  have ph: "phys_of cs (r # rl) b = (if v * cs \<le> b \<and> b < (v + rl_length r) * cs
      then Some (rl_lcn r * cs + (b - v * cs)) else phys_of cs rl b)" for b
    using r(1) assms(1,4) by simp
  have inR: "(rl_lcn r * cs + (b - v * cs)) div cs \<in> ?R" if "v * cs \<le> b" "b < (v + rl_length r) * cs" for b
    unfolding byte_in_run [OF assms(5)] using that by (auto simp: algebra_simps)
  note rd = rest [unfolded runs_done_def]
  have old: "at d' p = at d1 p" if "p div cs \<in> ?R" for p using that rd dj by blast
  have data: "at d' p = c b" if "phys_of cs (r # rl) b = Some p" "b < val_len" for b p
  proof (cases "v * cs \<le> b \<and> b < (v + rl_length r) * cs")
    case True
    then have "p = rl_lcn r * cs + (b - v * cs)" using that(1) unfolding ph by simp
    with old inR True assms(7) that(2) show ?thesis by simp
  next
    case False
    with that rd show ?thesis unfolding ph by auto
  qed
  have other: "at d' p = at d p" if "p div cs \<notin> ?R \<union> rl_clusters (live_runs rl)" for p
    using that rd assms(8) by auto
  have pad: "p div cs \<in> ?R \<union> rl_clusters (live_runs rl) \<and> (\<forall>b < val_len. phys_of cs (r # rl) b \<noteq> Some p)"
    if "pos d' \<le> p \<and> p < pos d' + dl" for p
  proof -
    have p: "p div cs \<in> rl_clusters (live_runs rl)" "\<forall>b < val_len. phys_of cs rl b \<noteq> Some p" using that rd ne by auto
    then have "p \<noteq> rl_lcn r * cs + (b - v * cs)" if "v * cs \<le> b" "b < (v + rl_length r) * cs" for b
      using inR [OF that] dj by blast
    with p show ?thesis unfolding ph by auto
  qed
  have "t = min (rl_end v (r # rl) * cs) val_len" "0 \<le> dl" using rd ne assms(1) by auto
  with data other pad assms(1) show ?thesis unfolding runs_done_def cl by auto
qed

lemma rl_write_runs_spec:
  assumes "feeds w c val_len" and "0 < cs" and "0 \<le> val_len"
    and "contig v rl" and "0 \<le> v" and "\<forall>r \<in> set (live_runs rl). 0 \<le> rl_lcn r" and "rl_disjoint rl"
    and "tot = min (v * cs) val_len" and "delta = 0 \<or> val_len < v * cs"
  shows "\<exists>res. rl_write_runs w sk cs val_len rl tot delta inited d = Some res \<and>
    (case res of Inl (ret, i, d') \<Rightarrow> ret < val_len
     | Inr (t, dl, i, d') \<Rightarrow> runs_done c cs val_len v rl delta d t dl d')"
  using assms(4-)
proof (induction rl arbitrary: v tot delta inited d)
  case Nil
  then show ?case by (simp add: runs_done_def)
next
  case (Cons r rl)
  show ?case
  proof (cases "rl_length r = 0")
    case True
    with Cons.prems show ?thesis by (simp add: runs_done_def)
  next
    case False
    with Cons.prems have r: "0 < rl_length r" "contig (v + rl_length r) rl" "0 \<le> rl_lcn r" "rl_disjoint rl"
      "\<forall>r \<in> set (live_runs rl). 0 \<le> rl_lcn r" by auto
    define short where "short \<longleftrightarrow> tot + rl_length r * cs > val_len"
    define len1 where "len1 = (if tot + rl_length r * cs > val_len then val_len - tot else rl_length r * cs)"
    define dl1 where "dl1 = (if tot + rl_length r * cs > val_len then rl_length r * cs - (val_len - tot) else delta)"
    from run_step [OF assms(1-3) Cons.prems(2) r(1,3) Cons.prems(5) len1_def, of d inited] obtain d1 t l i d2 where
      st: "sk d (rl_lcn r * cs) = (True, d1)" "rl_write_run w tot len1 inited 0 d1 = Some (t, l, i, d2)"
      and out: "t = -1 \<or> l \<noteq> 0 \<and> t < val_len \<or>
        l = 0 \<and> t = min ((v + rl_length r) * cs) val_len \<and> pos d2 = rl_lcn r * cs + len1 \<and>
        (\<forall>b. v * cs \<le> b \<and> b < (v + rl_length r) * cs \<and> b < val_len \<longrightarrow> at d2 (rl_lcn r * cs + (b - v * cs)) = c b) \<and>
        (\<forall>p. p div cs \<notin> {rl_lcn r ..< rl_lcn r + rl_length r} \<longrightarrow> at d2 p = at d p)" by blast
    have run: "rl_write_runs w sk cs val_len (r # rl) tot delta inited d =
        (if t = -1 then Some (Inl (-1, i, d2)) else if l \<noteq> 0 then Some (Inl (t, i, d2))
         else rl_write_runs w sk cs val_len rl t dl1 i d2)"
      using False r(3) st by (simp add: Let_def len1_def dl1_def)
    show ?thesis
    proof (cases "t = -1 \<or> l \<noteq> 0")
      case True
      with run out assms(3) show ?thesis by auto
    next
      case fin: False
      with out have o: "t = min ((v + rl_length r) * cs) val_len" "pos d2 = rl_lcn r * cs + len1"
        "\<forall>b. v * cs \<le> b \<and> b < (v + rl_length r) * cs \<and> b < val_len \<longrightarrow> at d2 (rl_lcn r * cs + (b - v * cs)) = c b"
        "\<forall>p. p div cs \<notin> {rl_lcn r ..< rl_lcn r + rl_length r} \<longrightarrow> at d2 p = at d p" by auto
      have "0 < rl_length r * cs" using r(1) assms(2) by simp
      then have dl1: "dl1 = 0 \<or> val_len < (v + rl_length r) * cs"
        using Cons.prems(5,6) by (auto simp: dl1_def algebra_simps split: if_splits)
      have v: "0 \<le> v + rl_length r" using r(1) Cons.prems(2) by simp
      show ?thesis
      proof (cases "live_runs rl = []")
        case True
        then have "rl_write_runs w sk cs val_len rl t dl1 i d2 = Some (Inr (t, dl1, i, d2))"
          by (cases rl) (auto split: if_splits)
        moreover have "runs_done c cs val_len v (r # rl) delta d t dl1 d2"
          by (rule runs_done_last [OF True False Cons.prems(1) r(3) assms(2) Cons.prems(2,5) len1_def dl1_def Cons.prems(6) o])
        ultimately show ?thesis using run fin by simp
      next
        case ne: False
        from Cons.IH [OF r(2) v r(5,4) o(1) dl1, of i d2] obtain res where
          res: "rl_write_runs w sk cs val_len rl t dl1 i d2 = Some res"
          "case res of Inl (ret, i, d') \<Rightarrow> ret < val_len
           | Inr (t', dl, i, d') \<Rightarrow> runs_done c cs val_len (v + rl_length r) rl dl1 d2 t' dl d'" by blast
        note step = runs_done_step [OF False Cons.prems(1,4) r(3) assms(2) ne o(3,4)]
        show ?thesis using run fin res step by (auto split: sum.splits)
      qed
    qed
  qed
qed

lemma rlwrite_spec:
  assumes "feeds (typed_write wr wt val t dynbuf) c val_len" and "0 < cs" and "0 \<le> val_len"
    and "contig 0 rl" and "\<forall>r \<in> set (live_runs rl). 0 \<le> rl_lcn r" and "rl_disjoint rl"
  shows "\<exists>ret i d'. ntfs_rlwrite wr sk False True cs wt t dynbuf rl val val_len d = Some (ret, i, d') \<and>
    (ret = val_len \<longrightarrow> (\<forall>b p. phys_of cs rl b = Some p \<longrightarrow> b < val_len \<longrightarrow> at d' p = c b) \<and>
      (\<forall>p. p div cs \<notin> rl_clusters (live_runs rl) \<longrightarrow> at d' p = at d p))"
proof -
  have "0 = min (0 * cs) val_len" using assms(3) by simp
  from rl_write_runs_spec [OF assms(1-4) order_refl assms(5,6) this, of 0 0 d] obtain res where
    res: "rl_write_runs (typed_write wr wt val t dynbuf) sk cs val_len rl 0 0 0 d = Some res"
    "case res of Inl (ret, i, d') \<Rightarrow> ret < val_len | Inr (t, dl, i, d') \<Rightarrow> runs_done c cs val_len 0 rl 0 d t dl d'" by auto
  show ?thesis
  proof (cases res)
    case (Inl x)
    with res show ?thesis by (cases x) (auto simp: ntfs_rlwrite_def)
  next
    case (Inr x)
    obtain tt dl i d1 where x: "x = (tt, dl, i, d1)" by (cases x)
    note rd = res(2) [unfolded Inr x, simplified, unfolded runs_done_def]
    show ?thesis
    proof (cases "dl = 0")
      case True
      with res(1) Inr x rd show ?thesis by (auto simp: ntfs_rlwrite_def)
    next
      case False
      with rd have ne: "live_runs rl \<noteq> []" "0 \<le> dl" by (auto split: if_splits)
      from mkntfs_write_ends [of dl "replicate (nat dl) 0" False d1] ne(2) obtain n d2 where
        n: "mkntfs_write wr False d1 (replicate (nat dl) 0) dl = Some (n, d2)"
        "n = -1 \<or> (\<forall>x. x < pos d1 \<or> pos d1 + dl \<le> x \<longrightarrow> at d2 x = at d1 x)" by auto
      have ret: "ntfs_rlwrite wr sk False True cs wt t dynbuf rl val val_len d = Some (if n = -1 then -1 else tt, i, d2)"
        using res(1) Inr x n(1) False by (simp add: ntfs_rlwrite_def)
      show ?thesis
      proof (cases "n = -1")
        case True
        with ret assms(3) show ?thesis by simp
      next
        case ok: False
        with n(2) have same: "at d2 x = at d1 x" if "\<not> (pos d1 \<le> x \<and> x < pos d1 + dl)" for x using that by auto
        have pad: "p div cs \<in> rl_clusters (live_runs rl) \<and> (\<forall>b < val_len. phys_of cs rl b \<noteq> Some p)"
          if "pos d1 \<le> p \<and> p < pos d1 + dl" for p using that rd ne(1) by auto
        have "at d2 p = c b" if "phys_of cs rl b = Some p" "b < val_len" for b p
          using same [of p] pad [of p] that rd by auto
        moreover have "at d2 p = at d p" if "p div cs \<notin> rl_clusters (live_runs rl)" for p
          using same [of p] pad [of p] that rd by auto
        ultimately show ?thesis using ret ok by auto
      qed
    qed
  qed
qed

lemma feeds_standard:
  assumes "val_len \<le> int (length val)"
  shows "feeds (typed_write wr WRITE_STANDARD val t dynbuf) (\<lambda>x. val ! nat x) val_len"
proof (rule chunk_feeds [where chunk = "\<lambda>tot len. take (nat len) (drop (nat tot) val)"])
  fix tot len d
  assume "0 \<le> tot" "0 \<le> len" "tot + len \<le> val_len"
  then show "typed_write wr WRITE_STANDARD val t dynbuf tot len d = wr d (take (nat len) (drop (nat tot) val)) \<and>
      int (length (take (nat len) (drop (nat tot) val))) \<le> len \<and>
      (\<forall>i < length (take (nat len) (drop (nat tot) val)).
         take (nat len) (drop (nat tot) val) ! i = val ! nat (tot + int i))"
    using assms by (auto simp: typed_write_def nat_add_distrib)
qed

lemma feeds_logfile: "feeds (typed_write wr WRITE_LOGFILE val t dynbuf) (\<lambda>x. 255) val_len"
  by (rule chunk_feeds [where chunk = "\<lambda>tot len. replicate (nat (partial_len dynbuf len)) 255"])
    (simp add: typed_write_def mkntfs_logfile_write_def Let_def partial_len_def)

end

section \<open>The bytes of the cluster bitmap\<close>

text \<open>The byte of \<^verbatim>\<open>$Bitmap\<close> at an offset: a section of one byte.\<close>

definition bitmap_byte :: "allocation \<Rightarrow> int \<Rightarrow> byte" where
  "bitmap_byte t off = bitmap_build t [0] (off * 8) 8 ! 0"

lemma bitmap_byte_bit: "i < 8 \<Longrightarrow> bit (bitmap_byte t off) i \<longleftrightarrow> off * 8 + int i \<in> clusters t"
  using bitmap_build_spec(1) [of 8 "[0]" i t "off * 8"] by (simp add: bitmap_byte_def test_bit_def)

lemma bitmap_build_byte:
  assumes "0 \<le> pl" and "pl \<le> int (length buf)" and "i < nat pl"
  shows "bitmap_build t buf (off * 8) (pl * 8) ! i = bitmap_byte t (off + int i)"
proof (rule bit_word_eqI)
  fix n
  assume "n < LENGTH(8)"
  then have n: "n < 8" by simp
  have "8 * i + n < 8 * ((nat (pl * 8) + 7) div 8)" "int (8 * i + n) < pl * 8" "nat (pl * 8) \<le> 8 * length buf"
    using n assms by auto
  with bitmap_build_spec(1) [of "pl * 8" buf "8 * i + n" t "off * 8"] assms(1)
  have "test_bit (bitmap_build t buf (off * 8) (pl * 8)) (8 * i + n) \<longleftrightarrow> off * 8 + int (8 * i + n) \<in> clusters t" by simp
  moreover have "(8 * i + n) div 8 = i" "(8 * i + n) mod 8 = n" using n by auto
  ultimately show "bit (bitmap_build t buf (off * 8) (pl * 8) ! i) n = bit (bitmap_byte t (off + int i)) n"
    using bitmap_byte_bit [OF n, of t "off + int i"] by (simp add: test_bit_def algebra_simps)
qed

context seq_writer
begin

lemma feeds_bitmap: "feeds (typed_write wr WRITE_BITMAP val t dynbuf) (bitmap_byte t) val_len"
proof (rule chunk_feeds [where chunk = "\<lambda>tot len. take (nat (partial_len dynbuf len))
    (bitmap_build t dynbuf (tot * 8) (partial_len dynbuf len * 8))"])
  fix tot len :: int and d
  assume a: "0 \<le> tot" "0 \<le> len" "tot + len \<le> val_len"
  define pl where "pl = partial_len dynbuf len"
  have pl: "0 \<le> pl" "pl \<le> len" "pl \<le> int (length dynbuf)" using a(2) by (auto simp: pl_def partial_len_def)
  have "bitmap_build t dynbuf (tot * 8) (pl * 8) ! i = bitmap_byte t (tot + int i)" if "i < nat pl" for i
    using bitmap_build_byte [OF pl(1,3) that] .
  then show "typed_write wr WRITE_BITMAP val t dynbuf tot len d =
        wr d (take (nat (partial_len dynbuf len)) (bitmap_build t dynbuf (tot * 8) (partial_len dynbuf len * 8))) \<and>
      int (length (take (nat (partial_len dynbuf len)) (bitmap_build t dynbuf (tot * 8) (partial_len dynbuf len * 8)))) \<le> len \<and>
      (\<forall>i < length (take (nat (partial_len dynbuf len)) (bitmap_build t dynbuf (tot * 8) (partial_len dynbuf len * 8))).
         take (nat (partial_len dynbuf len)) (bitmap_build t dynbuf (tot * 8) (partial_len dynbuf len * 8)) ! i =
           bitmap_byte t (tot + int i))"
    using pl by (simp add: typed_write_def mkntfs_bitmap_write_def Let_def pl_def [symmetric])
qed

end

section \<open>The callback device is such a writer\<close>

text \<open>The device operations of the bridge on the host's state and the device state together.\<close>

definition dev_wr :: "'w nk_io \<Rightarrow> 'w \<times> devstate \<Rightarrow> byte list \<Rightarrow> int \<times> 'w \<times> devstate" where
  "dev_wr io s bs = nkdev_write io (fst s) (snd s) bs"

definition dev_sk :: "'w nk_io \<Rightarrow> 'w \<times> devstate \<Rightarrow> int \<Rightarrow> bool \<times> 'w \<times> devstate" where
  "dev_sk io s off = (case nkdev_seek io (snd s) off SEEK_SET of (r, d) \<Rightarrow> (r \<noteq> -1, fst s, d))"

text \<open>What the formatter relies on of the host: a write that reports \<open>n\<close> bytes stored exactly these.\<close>

definition host_writes :: "'w nk_io \<Rightarrow> ('w \<Rightarrow> int \<Rightarrow> byte) \<Rightarrow> bool" where
  "host_writes io content \<longleftrightarrow> (\<forall>w bs off n w'. io_pwrite io w bs off = (n, w') \<longrightarrow> 0 \<le> n \<longrightarrow>
     n \<le> int (length bs) \<and>
     (\<forall>b. content w' b = (if off \<le> b \<and> b < off + n then bs ! nat (b - off) else content w b)))"

lemma host_seq_writer:
  assumes "host_writes io content"
  shows "seq_writer (dev_wr io) (dev_sk io) (\<lambda>s. d_pos (snd s)) (\<lambda>s. content (fst s))"
proof
  fix s :: "'a \<times> devstate" and bs n s'
  assume a: "dev_wr io s bs = (n, s')" "n \<noteq> -1"
  obtain n0 w' where p: "io_pwrite io (fst s) bs (d_pos (snd s)) = (n0, w')" by fastforce
  have n: "n0 = n" "0 \<le> n" "fst s' = w'" "d_pos (snd s') = d_pos (snd s) + n"
    using a p by (auto simp: dev_wr_def nkdev_write_def nkdev_pwrite_def fail_with_def split: if_splits)
  note host = assms [unfolded host_writes_def, rule_format, OF p [unfolded n(1)] n(2)]
  from n host show "0 \<le> n \<and> n \<le> int (length bs) \<and> d_pos (snd s') = d_pos (snd s) + n \<and>
      (\<forall>b. content (fst s') b = (if d_pos (snd s) \<le> b \<and> b < d_pos (snd s) + n
         then bs ! nat (b - d_pos (snd s)) else content (fst s) b))" by simp
next
  fix off s
  assume "0 \<le> (off :: int)"
  then show "\<exists>s'. dev_sk io s off = (True, s') \<and> d_pos (snd s') = off \<and> content (fst s') = content (fst s)"
    by (simp add: dev_sk_def nkdev_seek_def seek_base_def Let_def)
qed

text \<open>A host in memory.\<close>

definition ram_io :: "(int \<Rightarrow> byte) nk_io" where
  "ram_io = \<lparr>io_pread = (\<lambda>w n off. (n, map (\<lambda>i. w (off + int i)) [0..<nat n])),
     io_pwrite = (\<lambda>w bs off. (int (length bs), \<lambda>b. if off \<le> b \<and> b < off + int (length bs) then bs ! nat (b - off) else w b)),
     io_size = 2 ^ 30, io_readonly = False\<rparr>"

lemma ram_host: "host_writes ram_io (\<lambda>w. w)"
  by (auto simp: host_writes_def ram_io_def)

interpretation ram: seq_writer "dev_wr ram_io" "dev_sk ram_io" "\<lambda>s. d_pos (snd s)" "\<lambda>s. fst s"
  by (rule host_seq_writer [OF ram_host])

text \<open>
  C17: a value written along a runlist lands where the runlist says. The write always ends, however
  little the host takes at a time; when it returns the length of the value, every byte of the value is
  on the device at the place its runlist gives for it, and no byte outside the runs has changed.
\<close>

theorem rlwrite_places_value:
  assumes "host_writes io content" and "0 < cs" and "contig 0 rl" and "\<forall>r \<in> set (live_runs rl). 0 \<le> rl_lcn r"
    and "rl_disjoint rl" and "0 \<le> val_len" and "val_len \<le> int (length val)"
  shows "\<exists>ret i w' d'. ntfs_rlwrite (dev_wr io) (dev_sk io) False True cs WRITE_STANDARD t dynbuf rl val val_len (w, d) =
      Some (ret, i, w', d') \<and>
    (ret = val_len \<longrightarrow>
      (\<forall>b p. phys_of cs rl b = Some p \<longrightarrow> b < val_len \<longrightarrow> content w' p = val ! nat b) \<and>
      (\<forall>p. p div cs \<notin> rl_clusters (live_runs rl) \<longrightarrow> content w' p = content w p))"
  using seq_writer.rlwrite_spec [OF host_seq_writer [OF assms(1)] seq_writer.feeds_standard
      [OF host_seq_writer [OF assms(1)] assms(7)] assms(2,6,3-5), of t dynbuf "(w, d)"] by auto

text \<open>
  C18: the cluster bitmap on the device says exactly which clusters are allocated. After the bitmap was
  written along its runlist without error, bit \<open>n mod 8\<close> of the device byte that holds byte \<open>n div 8\<close> of
  \<^verbatim>\<open>$Bitmap\<close> is set if and only if cluster \<open>n\<close> is allocated.
\<close>

theorem rlwrite_bitmap_on_device:
  assumes "host_writes io content" and "0 < cs" and "contig 0 rl" and "\<forall>r \<in> set (live_runs rl). 0 \<le> rl_lcn r"
    and "rl_disjoint rl" and "0 \<le> len"
  shows "\<exists>ret i w' d'. ntfs_rlwrite (dev_wr io) (dev_sk io) False True cs WRITE_BITMAP t dynbuf rl val len (w, d) =
      Some (ret, i, w', d') \<and>
    (ret = len \<longrightarrow> (\<forall>n p. phys_of cs rl (n div 8) = Some p \<longrightarrow> n div 8 < len \<longrightarrow>
       (bit (content w' p) (nat (n mod 8)) \<longleftrightarrow> n \<in> clusters t)))"
proof -
  note sw = host_seq_writer [OF assms(1)]
  from seq_writer.rlwrite_spec [OF sw seq_writer.feeds_bitmap [OF sw] assms(2,6,3-5), of t dynbuf val "(w, d)"]
  obtain ret i w' d' where r: "ntfs_rlwrite (dev_wr io) (dev_sk io) False True cs WRITE_BITMAP t dynbuf rl val len (w, d) =
      Some (ret, i, w', d')"
    "ret = len \<longrightarrow> (\<forall>b p. phys_of cs rl b = Some p \<longrightarrow> b < len \<longrightarrow> content w' p = bitmap_byte t b)" by auto
  have "bit (bitmap_byte t (n div 8)) (nat (n mod 8)) \<longleftrightarrow> n \<in> clusters t" for n
    using bitmap_byte_bit [of "nat (n mod 8)" t "n div 8"] by simp
  with r show ?thesis by auto
qed

text \<open>Two runs of two clusters of four bytes, and a value of ten bytes.\<close>

definition ex_rl :: runlist where
  "ex_rl = [\<lparr>rl_vcn = 0, rl_lcn = 5, rl_length = 2\<rparr>, \<lparr>rl_vcn = 2, rl_lcn = 1, rl_length = 2\<rparr>,
     \<lparr>rl_vcn = 4, rl_lcn = -1, rl_length = 0\<rparr>]"

lemma ex_rl_ok: "contig 0 ex_rl" "\<forall>r \<in> set (live_runs ex_rl). 0 \<le> rl_lcn r" "rl_disjoint ex_rl"
  by (auto simp: ex_rl_def)

theorem rlwrite_places_value_witness:
  "\<exists>ret i w' d'. ntfs_rlwrite (dev_wr ram_io) (dev_sk ram_io) False True 4 WRITE_STANDARD [] [] ex_rl
      (map word_of_nat [0..<10]) 10 (\<lambda>_. 7, ex_dev) = Some (ret, i, w', d') \<and> (ret \<noteq> 10 \<or> w' 5 = 9 \<and> w' 0 = 7)"
proof -
  have p: "phys_of 4 ex_rl 9 = Some 5" "(0 :: int) div 4 \<notin> rl_clusters (live_runs ex_rl)" by (auto simp: ex_rl_def)
  from rlwrite_places_value [OF ram_host _ ex_rl_ok, of 4 10 "map word_of_nat [0..<10]" "[]" "[]" "\<lambda>_. 7" ex_dev]
  obtain ret i w' d' where r: "ntfs_rlwrite (dev_wr ram_io) (dev_sk ram_io) False True 4 WRITE_STANDARD [] [] ex_rl
      (map word_of_nat [0..<10]) 10 (\<lambda>_. 7, ex_dev) = Some (ret, i, w', d')"
    "ret = 10 \<Longrightarrow> w' 5 = map word_of_nat [0..<10] ! 9 \<and> w' 0 = 7" using p by auto
  then show ?thesis by auto
qed

theorem rlwrite_bitmap_on_device_witness:
  "\<exists>ret i w' d'. ntfs_rlwrite (dev_wr ram_io) (dev_sk ram_io) False True 4 WRITE_BITMAP
      [\<lparr>ba_lcn = 1, ba_length = 6\<rparr>] [0, 0] ex_rl [] 10 (\<lambda>_. 7, ex_dev) = Some (ret, i, w', d') \<and>
    (ret \<noteq> 10 \<or> bit (w' 20) 6 \<and> \<not> bit (w' 20) 7)"
proof -
  have p: "phys_of 4 ex_rl (6 div 8) = Some 20" "phys_of 4 ex_rl (7 div 8) = Some 20" by (simp_all add: ex_rl_def)
  from rlwrite_bitmap_on_device [OF ram_host _ ex_rl_ok, of 4 10 "[\<lparr>ba_lcn = 1, ba_length = 6\<rparr>]" "[0, 0]" "[]" "\<lambda>_. 7" ex_dev]
  obtain ret i w' d' where r: "ntfs_rlwrite (dev_wr ram_io) (dev_sk ram_io) False True 4 WRITE_BITMAP
      [\<lparr>ba_lcn = 1, ba_length = 6\<rparr>] [0, 0] ex_rl [] 10 (\<lambda>_. 7, ex_dev) = Some (ret, i, w', d')"
    "ret = 10 \<Longrightarrow> \<forall>n p. phys_of 4 ex_rl (n div 8) = Some p \<longrightarrow> n div 8 < 10 \<longrightarrow>
       (bit (w' p) (nat (n mod 8)) \<longleftrightarrow> n \<in> clusters [\<lparr>ba_lcn = 1, ba_length = 6\<rparr>])" by auto
  have "bit (w' 20) 6 \<and> \<not> bit (w' 20) 7" if "ret = 10"
    using r(2) [OF that, rule_format, OF p(1)] r(2) [OF that, rule_format, OF p(2)] by simp
  with r(1) show ?thesis by blast
qed

section \<open>The backup boot sector\<close>

text \<open>
  the backup boot sector lies behind the volume. With sectors of at least 512 bytes it fills
  exactly the sector reserved for it, from the end of the last sector of the volume to the end of the
  device. With sectors of 256 bytes it starts one sector too early and overwrites the last sector of the
  volume.
\<close>

theorem backup_boot_sector_place:
  assumes "vol_ok max_cs opts v"
  shows "(512 \<le> sector_size opts \<longrightarrow> backup_pos opts = num_sectors opts * sector_size opts \<and>
      backup_pos opts + backup_size opts = (num_sectors opts + reserved_sectors (sector_size opts)) * sector_size opts) \<and>
    (sector_size opts < 512 \<longrightarrow> sector_size opts = 256 \<and> backup_pos opts = (num_sectors opts - 1) * sector_size opts)"
proof -
  obtain j where j: "sector_size opts = 2 ^ j" "8 \<le> j" "j \<le> 12" using assms by (auto simp: vol_ok_def)
  then have "j \<in> {8, 9, 10, 11, 12}" by auto
  with j(1) have "sector_size opts \<in> {256, 512, 1024, 2048, 4096}" by auto
  then show ?thesis by (auto simp: backup_pos_def backup_size_def reserved_sectors_def algebra_simps)
qed

theorem backup_boot_sector_place_witness:
  "backup_pos ex_opts' = 2097151 * 512 \<and> backup_pos ex_opts' + backup_size ex_opts' = 2 ^ 30"
  using backup_boot_sector_place [OF ex_vol_ok] by (simp add: ex_opts'_def reserved_sectors_def)

text \<open>The size is a whole number of clusters, so there are no sectors behind the last one to zero.\<close>

lemma tail_sectors_none: "vol_ok max_cs opts v \<Longrightarrow> tail_sectors opts v = 0"
  using vol_ok_numbers(1) [of max_cs opts v] by (auto simp: tail_sectors_def push_bit_eq_mult)

text \<open>
  A write the device takes in two pieces repeats the start of the buffer: with a device that takes one
  byte at a time the second byte of the buffer never arrives.
\<close>

lemma partial_write_repeats:
  "mkntfs_write (\<lambda>d bs. (1, d @ take 1 bs)) False [] [1, 2] 2 = Some (2, [1, 1])"
  by (simp add: mkntfs_write_def mkwrite_loop.simps [of _ _ 2] mkwrite_loop.simps [of _ _ 1])

end
