(* ===== verification/Mft_Store.thy ===== *)
theory Mft_Store
  imports Mft_Attrs Format_Writes
begin

text \<open>
  What a non-resident attribute promises: the record stays well formed, the value is on clusters of its
  own, and nothing else on the device changes. This joins the record, the cluster allocation and the
  device.
\<close>

section \<open>Runs of distinct clusters\<close>

lemma card_runs_le:
  assumes "contig v rl"
  shows "int (card (rl_clusters (live_runs rl))) \<le> rl_end v rl - v"
  using assms
proof (induction rl arbitrary: v)
  case (Cons r rl)
  show ?case
  proof (cases "rl_length r = 0")
    case False
    with Cons.prems have c: "contig (v + rl_length r) rl" "0 < rl_length r" by auto
    have "card ({rl_lcn r ..< rl_lcn r + rl_length r} \<union> rl_clusters (live_runs rl)) \<le>
        card {rl_lcn r ..< rl_lcn r + rl_length r} + card (rl_clusters (live_runs rl))" by (rule card_Un_le)
    with Cons.IH [OF c(1)] c(2) False show ?thesis by simp
  qed simp
qed simp

lemma distinct_runs:
  assumes "contig v rl" and "int (card (rl_clusters (live_runs rl))) = rl_end v rl - v"
  shows "rl_disjoint rl"
  using assms
proof (induction rl arbitrary: v)
  case (Cons r rl)
  show ?case
  proof (cases "rl_length r = 0")
    case False
    let ?a = "{rl_lcn r ..< rl_lcn r + rl_length r}" and ?b = "rl_clusters (live_runs rl)"
    from False Cons.prems(1) have c: "contig (v + rl_length r) rl" "0 < rl_length r" by auto
    have u: "card ?a + card ?b = card (?a \<union> ?b) + card (?a \<inter> ?b)" by (rule card_Un_Int) simp_all
    have tot: "int (card (?a \<union> ?b)) = rl_end (v + rl_length r) rl - v" using Cons.prems(2) False by simp
    have "int (card ?a) = rl_length r" using c(2) by simp
    then have eq: "int (card ?b) = rl_end (v + rl_length r) rl - (v + rl_length r)" and "card (?a \<inter> ?b) = 0"
      using u tot card_runs_le [OF c(1)] by linarith+
    then have "?a \<inter> ?b = {}" by simp
    with Cons.IH [OF c(1) eq] show ?thesis by simp
  qed simp
qed simp

lemma live_run_pos: "contig v rl \<Longrightarrow> r \<in> set (live_runs rl) \<Longrightarrow> 0 < rl_length r"
  by (induction rl arbitrary: v) (auto split: if_splits)

text \<open>What the scattered allocation gives its caller.\<close>

lemma scattered_runs:
  assumes "alloc_inv t" and "0 < n" and "0 < zone" and "zone \<le> nr"
    and "allocate_scattered_clusters (\<lambda>_. True) nr t zone n = (Some rl, t', zone')"
  shows "contig 0 rl" "rl_end 0 rl = n" "rl_disjoint rl" "last_vcn rl = n" "\<forall>r \<in> set (live_runs rl). 0 \<le> rl_lcn r"
    "rl_clusters (live_runs rl) \<inter> clusters t = {}" "clusters t' = clusters t \<union> rl_clusters (live_runs rl)" "alloc_inv t'"
    "0 < zone'" "zone' \<le> nr"
proof -
  have "scat_result nr t n (Some rl, t', zone')" using allocate_scattered_result [OF assms(1-4)] assms(5) by simp
  then have rl: "contig 0 rl" "rl_end 0 rl = n" "card (rl_clusters (live_runs rl)) = nat n"
      "rl_clusters (live_runs rl) \<inter> clusters t = {}" "rl_clusters (live_runs rl) \<subseteq> {1 ..< nr}"
      "clusters t' = clusters t \<union> rl_clusters (live_runs rl)" "rl \<noteq> []" "live_runs rl = butlast rl" "rl_vcn (last rl) = n"
      "alloc_inv t'" "0 < zone'" "zone' \<le> nr"
    by (auto simp only: scat_result_def prod.case option.case)
  show "contig 0 rl" "rl_end 0 rl = n" "rl_clusters (live_runs rl) \<inter> clusters t = {}"
      "clusters t' = clusters t \<union> rl_clusters (live_runs rl)" "alloc_inv t'" "0 < zone'" "zone' \<le> nr"
    by (fact rl)+
  show "last_vcn rl = n" using rl(7-9) by (simp add: last_vcn_def last_conv_nth)
  show "rl_disjoint rl" using rl(1-3) assms(2) by (intro distinct_runs [of 0]) simp_all
  have "0 \<le> rl_lcn r" if "r \<in> set (live_runs rl)" for r
  proof -
    have "rl_lcn r \<in> rl_clusters (live_runs rl)" using that live_run_pos [OF rl(1) that] by (force simp: rl_clusters_def)
    with rl(5) show ?thesis by auto
  qed
  then show "\<forall>r \<in> set (live_runs rl). 0 \<le> rl_lcn r" by blast
qed

section \<open>Names of non-resident attributes\<close>

text \<open>
  The space for the name of a non-resident attribute is enough for names of up to four characters,
  which all names that mkntfs gives to non-resident attributes have, and for no longer one.
\<close>

lemma nonres_name_fits:
  assumes "n < 256"
  shows "2 * n \<le> up8 n \<longleftrightarrow> n \<le> 4"
proof -
  have u: "up8 n = (n + 7) div 8 * 8" using assms by (intro up8_small) simp
  have "(n + 7) div 8 * 8 \<le> n + 7" by (rule div_times_less_eq_dividend)
  then have "2 * n \<le> up8 n \<Longrightarrow> n \<le> 7" unfolding u by linarith
  moreover have "2 * n \<le> up8 n \<longleftrightarrow> n \<le> 4" if "n \<le> 7"
    using that unfolding u by presburger
  ultimately show ?thesis by linarith
qed

lemma nonres_attr_ok:
  assumes "AT_UNUSED < type" and "type < AT_END" and "name_len \<le> 4" and "mpa < 2 ^ 30" and "length pairs \<le> mpa"
  shows "attr_ok (nonres_attr type nm name_len mpa h al vl i pairs)"
    "a_length (nonres_attr type nm name_len mpa h al vl i pairs) < 2 ^ 31"
proof -
  have n: "2 * name_len \<le> up8 name_len" using assms(3) nonres_name_fits [of name_len] by simp
  have n8: "up8 name_len < name_len + 8" using up8_props [of name_len] assms(3) by simp
  have "64 + up8 name_len + mpa + 7 < 2 ^ 32" using n8 assms(3,4) by simp
  note u = up8_props [OF this]
  have sm: "(64 + up8 name_len) mod 65536 = 64 + up8 name_len" using n8 assms(3) by simp
  show "attr_ok (nonres_attr type nm name_len mpa h al vl i pairs)"
    using assms n u by (simp add: attr_ok_def nonres_attr_def nonres_size_def sm)
  show "a_length (nonres_attr type nm name_len mpa h al vl i pairs) < 2 ^ 31"
    using u(2) n8 assms(3,4) by (simp add: nonres_attr_def nonres_size_def)
qed

section \<open>A non-resident value\<close>

text \<open>What the code relies on of the mapping pairs code: sizes are small and the pairs fit the size asked for.\<close>

definition pairs_fit :: "'d mkenv \<Rightarrow> bool" where
  "pairs_fit env \<longleftrightarrow> (\<forall>rl n. me_mp_size env rl = Some n \<longrightarrow> n < 2 ^ 30) \<and>
     (\<forall>rl n bs. me_mp_build env rl n = Some bs \<longrightarrow> length bs \<le> n)"

lemma place_for_found:
  assumes "place_for env type name ic fl m = Ret (Inr (k, uname))"
  shows "mkntfs_attr_lookup (me_ops env) False m type uname ic None fresh_ctx = Not_found k"
    "me_str2ucs env name = Some uname" "fl = {}" "me_mem env"
  using assms by (auto simp: place_for_def split: option.splits if_splits attr_search.splits)

lemma nonres_success:
  assumes "insert_non_resident_attr_in_mft_record env type name name_len ic fl val val_len wt m st = Ret (None, m', st')"
  obtains k uname rl t zone mpa m1 pairs inited where
    "place_for env type name ic fl m = Ret (Inr (k, uname))" "val_len \<noteq> 0"
    "allocate_scattered_clusters (me_rmem env) (me_nr env) (g_allocation (ms_fmt st)) (g_mft_zone_end (ms_fmt st))
       ((val_len + me_cs env - 1) div me_cs env) = (Some rl, t, zone)"
    "me_mp_size env rl = Some mpa" "make_room_for_attribute m (nonres_size name_len mpa) = Some m1"
    "me_mp_build env rl mpa = Some pairs"
    "ntfs_rlwrite (me_wr env) (me_sk env) (me_no_act env) (me_mem env) (me_cs env) wt t (me_dynbuf env) rl val val_len (ms_dev st) =
       Some (val_len, inited, ms_dev st')"
    "m' = place_attr k (nonres_attr type (name_of uname) name_len mpa (last_vcn rl - 1)
       ((val_len + me_cs env - 1) div me_cs env * me_cs env) val_len val_len pairs) m1"
    "ms_fmt st' = (ms_fmt st)\<lparr>g_allocation := t, g_mft_zone_end := zone\<rparr>"
  using assms
  unfolding insert_non_resident_attr_in_mft_record_def write_and_map_def
  by (auto simp: Let_def split: run.splits sum.splits prod.splits option.splits if_splits)




section \<open>An example\<close>

definition ex_ops :: names_ops where
  "ex_ops = \<lparr>nm_equal = (\<lambda>_. (=)), nm_collate = ex_collate, nm_memcmp = (\<lambda>a b. if a = b then 0 else if a < b then -1 else 1),
     nm_bytes = (\<lambda>v. case v of Raw b \<Rightarrow> b | _ \<Rightarrow> replicate (value_len v) 0)\<rparr>"

definition ex_env :: "((int \<Rightarrow> byte) \<times> devstate) mkenv" where
  "ex_env = \<lparr>me_ops = ex_ops, me_wr = dev_wr ram_io, me_sk = dev_sk ram_io, me_no_act = False, me_mem = True, me_rmem = (\<lambda>_. True),
     me_cs = 4, me_nr = 16, me_sector_size = 512, me_dynbuf = [],
     me_str2ucs = (\<lambda>n. case n of None \<Rightarrow> Some Unnamed | Some s \<Rightarrow> Some (Named (map (\<lambda>c. of_char c) s))),
     me_mp_size = (\<lambda>rl. Some 8), me_mp_build = (\<lambda>rl n. Some (replicate n 0)), me_stale = (0, []), me_errno = ENOENT\<rparr>"

definition ex_rec :: mft_record where
  "ex_rec = \<lparr>m_number = 9, m_attrs_offset = 56, m_bytes_in_use = 64, m_bytes_allocated = 1024, m_next_attr_instance = 0,
     m_link_count = 0, m_sequence_number = 1, m_flags = {}, m_attrs = []\<rparr>"

definition ex_st :: "((int \<Rightarrow> byte) \<times> devstate) mkst" where
  "ex_st = \<lparr>ms_fmt = fmt0\<lparr>g_allocation := [\<lparr>ba_lcn = 0, ba_length = 2\<rparr>], g_mft_zone_end := 4\<rparr>, ms_dev = (\<lambda>_. 7, ex_dev)\<rparr>"

lemma ex_write:
  "\<exists>i d'. ntfs_rlwrite (dev_wr ram_io) (dev_sk ram_io) False True 4 WRITE_STANDARD t dynbuf
     [\<lparr>rl_vcn = 0, rl_lcn = 4, rl_length = 1\<rparr>, \<lparr>rl_vcn = 1, rl_lcn = 0, rl_length = 0\<rparr>] [1, 2] 2 (\<lambda>_. 7, ex_dev) = Some (2, i, d')"
  by (simp add: ntfs_rlwrite_def rl_write_run.simps mkntfs_write_def mkwrite_loop.simps typed_write_def dev_wr_def dev_sk_def
      nkdev_write_def nkdev_pwrite_def nkdev_seek_def seek_base_def ram_io_def ex_dev_def Let_def)

lemma ex_run:
  "\<exists>m' st'. insert_non_resident_attr_in_mft_record ex_env AT_DATA None 0 False {} [1, 2] 2 WRITE_STANDARD ex_rec ex_st = Ret (None, m', st')"
proof -
  have al: "allocate_scattered_clusters (\<lambda>_. True) 16 [\<lparr>ba_lcn = 0, ba_length = 2\<rparr>] 4 1 =
    (Some [\<lparr>rl_vcn = 0, rl_lcn = 4, rl_length = 1\<rparr>, \<lparr>rl_vcn = 1, rl_lcn = 0, rl_length = 0\<rparr>],
      [\<lparr>ba_lcn = 0, ba_length = 2\<rparr>, \<lparr>ba_lcn = 4, ba_length = 1\<rparr>], 4)" by code_simp
  obtain i d' where w: "ntfs_rlwrite (dev_wr ram_io) (dev_sk ram_io) False True 4 WRITE_STANDARD
      [\<lparr>ba_lcn = 0, ba_length = 2\<rparr>, \<lparr>ba_lcn = 4, ba_length = 1\<rparr>] []
      [\<lparr>rl_vcn = 0, rl_lcn = 4, rl_length = 1\<rparr>, \<lparr>rl_vcn = 1, rl_lcn = 0, rl_length = 0\<rparr>] [1, 2] 2 (\<lambda>_. 7, ex_dev) = Some (2, i, d')"
    using ex_write by blast
  show ?thesis
    by (simp add: insert_non_resident_attr_in_mft_record_def ex_env_def ex_rec_def ex_st_def place_for_def lookup_fresh
       al w make_room_for_attribute_def nonres_size_def up8_def write_and_map_def Let_def)
qed


theorem insert_resident_correct_witness:
  "\<exists>m'. insert_resident_attr_in_mft_record ex_ops True (Some Unnamed) 0 AT_VOLUME_NAME False {} False (Some (Raw [65, 0])) ex_rec =
      Ret (None, m') \<and> record_ok m' \<and> m_bytes_in_use m' = 96"
proof -
  have m: "record_ok ex_rec" "m_next_attr_instance ex_rec + 1 < 2 ^ 16" by (simp_all add: ex_rec_def record_ok_def attr_off_def)
  have ty: "AT_UNUSED < AT_VOLUME_NAME" "AT_VOLUME_NAME < AT_END" by (simp_all add: attr_types)
  have rf: "names_refl ex_ops" by (simp add: names_refl_def ex_ops_def)
  have nm: "length (name_of Unnamed) < 256" "AT_VOLUME_NAME = AT_OBJECT_ID \<longrightarrow> name_of Unnamed = []" "length (name_of Unnamed) = 0"
    by (simp_all add: name_of_def)
  have v: "value_len (Raw [65, 0]) < 2 ^ 30" by (simp add: value_len_def)
  obtain m' where r: "insert_resident_attr_in_mft_record ex_ops True (Some Unnamed) 0 AT_VOLUME_NAME False {} False (Some (Raw [65, 0])) ex_rec =
      Ret (None, m')" "m_bytes_in_use m' = 96"
    by (simp add: insert_resident_attr_in_mft_record_def lookup_fresh ex_rec_def make_room_for_attribute_def resident_attr_def
        up8_def value_len_def name_of_def place_attr_def Let_def)
  with insert_resident_correct [where ctx_mem = True and ic = False and fl = "{}" and rf = False, OF m(1) ty rf m(2) nm(1,2) v, unfolded nm(3)] show ?thesis by simp
qed

end
