(* ===== verification/Link_Props.thy ===== *)
theory Link_Props
  imports Dir_Links Mft_Store
begin

text \<open>
  What the index and link operations of the formatter guarantee: entries of resident indexes stay sorted and
  the record around them well formed, and a link is counted, named and entered together or not at all.
\<close>

section \<open>Views in index roots\<close>

lemma sum_list_update_grow:
  "k < length xs \<Longrightarrow> f y = f (xs ! k) + (d :: nat) \<Longrightarrow> sum_list (map f (xs[k := y])) = sum_list (map f xs) + d"
proof (induction xs arbitrary: k)
  case (Cons x xs)
  then show ?case by (cases k) auto
qed simp

lemma record_ok_grow:
  assumes m: "record_ok m" and k: "k < length (m_attrs m)" and a: "attr_ok a"
    and same: "a_type a = a_type (m_attrs m ! k)" "a_instance a = a_instance (m_attrs m ! k)"
    and len: "a_length a = a_length (m_attrs m ! k) + sz" and room: "m_bytes_in_use m + sz \<le> m_bytes_allocated m"
  shows "record_ok ((set_attr k a m)\<lparr>m_bytes_in_use := m_bytes_in_use m + sz\<rparr>)"
proof -
  have ty: "map a_type ((m_attrs m)[k := a]) = map a_type (m_attrs m)" "map a_instance ((m_attrs m)[k := a]) = map a_instance (m_attrs m)"
    using k same by (simp_all add: map_update list_update_same_conv)
  have "a_instance a < m_next_attr_instance m" using m k same(2) by (simp add: record_ok_def)
  then have "\<forall>x \<in> set ((m_attrs m)[k := a]). attr_ok x \<and> a_instance x < m_next_attr_instance m"
    using m a by (auto simp: record_ok_def dest!: set_update_subset_insert [THEN subsetD])
  moreover have "sum_list (map a_length ((m_attrs m)[k := a])) = sum_list (map a_length (m_attrs m)) + sz"
    by (rule sum_list_update_grow [OF k len])
  ultimately show ?thesis
    using m room by (simp add: record_ok_def set_attr_def attr_off_def ty)
qed

text \<open>The index root of that name, its rule, and the entries in it.\<close>

definition root_at :: "mft_record \<Rightarrow> nat \<Rightarrow> index_root \<Rightarrow> bool" where
  "root_at m k r \<longleftrightarrow> k < length (m_attrs m) \<and> (\<exists>vo vl rf. a_form (m_attrs m ! k) = Resident vo vl (Index_root r) rf)"

definition view_root_ok :: "index_root \<Rightarrow> bool" where
  "view_root_ok r \<longleftrightarrow> ir_collation_rule r \<in> {COLLATION_NTOFS_ULONG, COLLATION_NTOFS_ULONGS, COLLATION_NTOFS_SECURITY_HASH} \<and>
     header_ok (view_ok (ir_collation_rule r)) (view_rank (ir_collation_rule r)) (ir_header r) \<and>
     ih_allocated_size (ir_header r) = ih_index_length (ir_header r)"

lemma grow_index_ok:
  assumes r: "view_root_ok r" and k: "view_ok (ir_collation_rule r) (ie_key e)" and e: "\<not> ie_end e" "ie_length e = sz" "0 < sz"
    and sm: "ih_allocated_size (ir_header r) + sz < 2 ^ 31"
  shows "case index_place (view_test mc (ir_collation_rule r) (ie_key e)) (ih_index_length (ir_header r)) 0 0 (ih_entries (ir_header r)) of
      None \<Rightarrow> \<exists>x \<in> live (ir_header r). view_rank (ir_collation_rule r) (ie_key x) = view_rank (ir_collation_rule r) (ie_key e)
    | Some j \<Rightarrow> view_root_ok (r\<lparr>ir_header := grow_index j e sz (ir_header r)\<rparr>) \<and>
        live (grow_index j e sz (ir_header r)) = insert e (live (ir_header r)) \<and>
        (\<forall>x \<in> live (ir_header r). view_rank (ir_collation_rule r) (ie_key x) \<noteq> view_rank (ir_collation_rule r) (ie_key e))"
proof -
  define rule where "rule = ir_collation_rule r"
  define h where "h = ir_header r"
  have rl: "rule \<in> {COLLATION_NTOFS_ULONG, COLLATION_NTOFS_ULONGS, COLLATION_NTOFS_SECURITY_HASH}"
    and ho: "header_ok (view_ok rule) (view_rank rule) h" and tight: "ih_allocated_size h = ih_index_length h"
    using r by (auto simp: view_root_ok_def rule_def h_def)
  note ki = view_index [OF rl, of mc]
  define body where "body = butlast (ih_entries h)"
  have eo: "entries_ok (view_ok rule) (view_rank rule) body (ih_entries h)" using ho by (simp add: header_ok_def body_def)
  obtain t where t: "ih_entries h = body @ [t]" using eo by (auto simp: entries_ok_def)
  have len: "0 + sum_list (map ie_length body) < ih_index_length h" using ho t by (simp add: header_ok_def)
  have k': "view_ok rule (ie_key e)" using k by (simp add: rule_def)
  note pl = keyed_index.place_of [OF ki k' eo len, of 0]
  define j where "j = length (takeWhile (before_key (view_rank rule) (ie_key e)) body)"
  show ?thesis
  proof (cases "\<exists>x \<in> set body. view_rank rule (ie_key x) = view_rank rule (ie_key e)")
    case True
    then show ?thesis using pl by (simp add: rule_def [symmetric] h_def [symmetric] live_def body_def)
  next
    case False
    have eo': "entries_ok (view_ok rule) (view_rank rule) (insert_entry j e body) (insert_entry j e (ih_entries h))"
      using keyed_index.insert_sorted [OF ki k' eo _ refl e(1), of j] False by (simp add: j_def)
    have "header_ok (view_ok rule) (view_rank rule) (grow_index j e sz h)"
      using ho eo' entries_ok_butlast [OF eo'] e sm
      by (auto simp: header_ok_def grow_index_def set_insert_entry sum_insert_entry h_def)
    then have "view_root_ok (r\<lparr>ir_header := grow_index j e sz h\<rparr>)"
      using rl tight by (simp add: view_root_ok_def rule_def grow_index_def)
    moreover have "live (grow_index j e sz h) = insert e (live h)"
      using entries_ok_butlast [OF eo'] by (simp add: live_def grow_index_def set_insert_entry body_def)
    ultimately show ?thesis using pl False by (simp add: rule_def [symmetric] h_def [symmetric] live_def body_def j_def)
  qed
qed

lemma attr_in_use:
  assumes "record_ok m" and "k < length (m_attrs m)"
  shows "a_length (m_attrs m ! k) \<le> m_bytes_in_use m"
proof -
  have "a_length (m_attrs m ! k) \<in> set (map a_length (m_attrs m))" using assms(2) by simp
  then have "a_length (m_attrs m ! k) \<le> sum_list (map a_length (m_attrs m))" by (rule member_le_sum_list) simp
  then show ?thesis using assms(1) by (simp add: record_ok_def attr_off_def)
qed


text \<open>
  The test whether the entry fits never fails when the record has the size of the volume's records: then an entry that
  does not fit is entered all the same, and the record claims more bytes than it has.
\<close>

lemma view_index_overflow:
  assumes found: "mkntfs_attr_lookup (me_ops env) False m AT_INDEX_ROOT (Named name) False None fresh_ctx = Found k"
    and "root_at m k r" and "me_mem env" and "record_size = m_bytes_allocated m"
    and "index_place (view_test (nm_memcmp (me_ops env)) (ir_collation_rule r) (ie_key e)) (ih_index_length (ir_header r)) 0 0
      (ih_entries (ir_header r)) = Some j"
    and "m_bytes_in_use m + sz > m_bytes_allocated m"
  shows "\<exists>m'. insert_index_entry_in_res_dir_index env record_size e sz name AT_UNUSED m = Ret (None, m') \<and>
    m_bytes_in_use m' > m_bytes_allocated m'"
  using assms by (auto simp: root_at_def insert_index_entry_in_res_dir_index_def Let_def attr_types set_attr_def)

section \<open>Links are counted\<close>

definition name_count :: "mft_record \<Rightarrow> nat" where
  "name_count m = length (filter (\<lambda>a. a_type a = AT_FILE_NAME) (m_attrs m))"

lemma record_ok_links [simp]: "record_ok (m\<lparr>m_link_count := n\<rparr>) = record_ok m"
  by (simp add: record_ok_def attr_off_def)

lemma name_count_insert:
  "m_attrs m' = take k (m_attrs m) @ a # drop k (m_attrs m) \<Longrightarrow> a_type a = AT_FILE_NAME \<Longrightarrow> name_count m' = name_count m + 1"
proof -
  assume a: "m_attrs m' = take k (m_attrs m) @ a # drop k (m_attrs m)" "a_type a = AT_FILE_NAME"
  have "name_count m = length (filter (\<lambda>a. a_type a = AT_FILE_NAME) (take k (m_attrs m) @ drop k (m_attrs m)))"
    by (simp add: name_count_def)
  then show ?thesis using a by (simp add: name_count_def del: append_take_drop_id)
qed


lemma insert_resident_links:
  assumes "insert_resident_attr_in_mft_record ops mem uname nl type ic fl rf v m = Ret (e, m')"
  shows "m_link_count m' = m_link_count m"
  using assms
  by (auto simp: insert_resident_attr_in_mft_record_def place_attr_def make_room_for_attribute_def Let_def
      split: option.splits if_splits attr_search.splits)

lemma link_file_spec:
  assumes m: "record_ok m" "m_next_attr_instance m + 1 < 2 ^ 16" and ops: "names_refl (me_ops env)" "me_str2ucs env None = Some Unnamed"
    and f: "length (fn_file_name f) < 256" and nr: "\<forall>a \<in> set (m_attrs m). \<forall>r. a_type a = AT_FILE_NAME \<longrightarrow> a_form a \<noteq> Non_resident r"
    and enter: "\<forall>e i'. enter f idx = Ret (Some e, i') \<longrightarrow> i' = idx" "enter f idx \<noteq> Hang"
  shows "case link_file env enter f m idx of
      Ret (None, m', i') \<Rightarrow> record_ok m' \<and> m_link_count m' = m_link_count m + 1 \<and> name_count m' = name_count m + 1 \<and>
        (\<exists>a \<in> set (m_attrs m'). a_type a = AT_FILE_NAME \<and> res_value (a_form a) = File_name f) \<and> enter f idx = Ret (None, i')
    | Ret (Some e, m', i') \<Rightarrow> record_ok m' \<and> m_link_count m' = m_link_count m \<and> i' = idx
    | Undef \<Rightarrow> enter f idx = Undef
    | Hang \<Rightarrow> False"
proof (cases "m_link_count m = 0xffff")
  case True
  then show ?thesis using m by (simp add: link_file_def)
next
  case False
  define m1 where "m1 = m\<lparr>m_link_count := m_link_count m + 1\<rparr>"
  define ins where "ins = insert_resident_attr_in_mft_record (me_ops env) (me_mem env) (Some Unnamed) 0 AT_FILE_NAME False {} True
      (Some (File_name f)) m1"
  have m1: "record_ok m1" "m_next_attr_instance m1 + 1 < 2 ^ 16" "m_attrs m1 = m_attrs m" "m_link_count m1 = m_link_count m + 1"
    using m by (simp_all add: m1_def)
  have ty: "AT_UNUSED < AT_FILE_NAME" "AT_FILE_NAME < AT_END" by (simp_all add: attr_types)
  have nm: "length (name_of Unnamed) < 256" "AT_FILE_NAME = AT_OBJECT_ID \<longrightarrow> name_of Unnamed = []" "length (name_of Unnamed) = 0"
    by (simp_all add: name_of_def)
  have v: "value_len (File_name f) < 2 ^ 30" using f by (simp add: value_len_def file_name_size_def)
  note sp = insert_resident_spec [where ctx_mem = "me_mem env" and ic = False and fl = "{}" and rf = True,
      OF m1(1) ty ops(1) m1(2) nm(1,2) v, unfolded nm(3), folded ins_def]
  have lf: "link_file env enter f m idx =
      (case ins of
         Hang \<Rightarrow> Hang
       | Undef \<Rightarrow> Undef
       | Ret (Some e, m2) \<Rightarrow> Ret (Some e, m2\<lparr>m_link_count := m_link_count m2 - 1\<rparr>, idx)
       | Ret (None, m2) \<Rightarrow>
           (case enter f idx of
              Hang \<Rightarrow> Hang
            | Undef \<Rightarrow> Undef
            | Ret (Some e, idx1) \<Rightarrow> Ret (Some e, m2\<lparr>m_link_count := m_link_count m2 - 1\<rparr>, idx1)
            | Ret (None, idx1) \<Rightarrow> Ret (None, m2, idx1)))"
    using False by (simp add: link_file_def ops(2) ins_def m1_def)
  show ?thesis
  proof (cases ins)
    case (Ret x)
    obtain eo m2 where x: "x = (eo, m2)" by (cases x)
    have lc: "m_link_count m2 = m_link_count m + 1" using insert_resident_links [OF Ret [unfolded x ins_def]] m1(4) by simp
    show ?thesis
    proof (cases eo)
      case None
      from sp Ret x None obtain k a where s: "record_ok m2" "m_attrs m2 = take k (m_attrs m) @ a # drop k (m_attrs m)"
          "a_type a = AT_FILE_NAME" "res_value (a_form a) = File_name f" using m1(3) by auto
      have "name_count m2 = name_count m + 1" by (rule name_count_insert [OF s(2,3)])
      moreover have "a \<in> set (m_attrs m2)" using s(2) by simp
      ultimately show ?thesis
        using lf Ret x None s lc enter by (cases "enter f idx") (auto split: prod.splits option.splits)
    next
      case (Some e)
      then show ?thesis using lf Ret x sp lc m1 m by simp
    qed
  next
    case Undef
    with sp nr m1(3) show ?thesis by auto
  qed (use sp in simp)
qed

text \<open>
  C26: a link to a file is made completely or not at all. On success the link count of the file and the
  number of its file names have both grown by one, the record is well formed, and the directory block holds the same name in
  sorted order; on failure the link count and the directory are as before.
\<close>

theorem hardlink_atomic:
  assumes m: "record_ok m" "m_next_attr_instance m + 1 < 2 ^ 16" and ops: "names_refl (me_ops env)" "me_str2ucs env None = Some Unnamed"
    and nr: "\<forall>a \<in> set (m_attrs m). \<forall>r. a_type a = AT_FILE_NAME \<longrightarrow> a_form a \<noteq> Non_resident r"
    and dir: "collates up (nm_collate (me_ops env))" "header_ok name_ok (name_rank up) idx" and ns: "ns \<noteq> FILE_NAME_POSIX"
  shows "case create_hardlink env mb now parent ref allocated data flags packed_ea reparse name ns m idx of
      Ret (None, m', idx') \<Rightarrow> record_ok m' \<and> m_link_count m' = m_link_count m + 1 \<and> name_count m' = name_count m + 1 \<and>
        header_ok name_ok (name_rank up) idx' \<and>
        (\<exists>f e a. live idx' = insert e (live idx) \<and> ie_key e = File_key f \<and> ie_indexed_file e = ref \<and>
           a \<in> set (m_attrs m') \<and> a_type a = AT_FILE_NAME \<and> res_value (a_form a) = File_name f \<and> mb name = Some (fn_file_name f))
    | Ret (Some e, m', idx') \<Rightarrow> record_ok m' \<and> m_link_count m' = m_link_count m \<and> idx' = idx
    | _ \<Rightarrow> False"
proof -
  define enter where "enter = (\<lambda>f h. Ret (insert_file_link_in_dir_index (nm_collate (me_ops env)) ref f h))"
  show ?thesis
  proof (cases "\<not> me_mem env \<or> packed_ea \<noteq> 0 \<and> reparse \<noteq> 0 \<or> (\<exists>e. check_name mb name = Inl e)")
    case True
    then show ?thesis using m(1) by (auto simp: create_hardlink_def)
  next
    case False
    then obtain u where u: "check_name mb name = Inr u" by (cases "check_name mb name") auto
    then have mb: "mb name = Some u" "length u < 256" by (auto simp: check_name_def split: option.splits if_splits)
    define f where "f = link_name parent (stdinfo_time env now m)
       (if allocated \<noteq> 0 \<and> non_resident_unnamed_data env m then allocated else up8_int data) data flags packed_ea reparse ns u"
    have f: "fn_file_name f = u" "fn_file_name_type f = ns" by (simp_all add: f_def link_name_def)
    have cr: "create_hardlink env mb now parent ref allocated data flags packed_ea reparse name ns m idx = link_file env enter f m idx"
      using False u by (auto simp: create_hardlink_def enter_def f_def)
    have fl: "length (fn_file_name f) < 256" and ft: "fn_file_name_type f \<noteq> FILE_NAME_POSIX" using mb ns f by simp_all
    note di = dir_insert_spec [OF dir ft fl, of ref]
    have en: "\<forall>e i'. enter f idx = Ret (Some e, i') \<longrightarrow> i' = idx" "enter f idx \<noteq> Hang" "enter f idx \<noteq> Undef"
      using di by (auto simp: enter_def split: prod.splits)
    note lf = link_file_spec [where enter = enter and idx = idx, OF m ops fl nr en(1,2)]
    show ?thesis
    proof (cases "link_file env enter f m idx")
      case (Ret x)
      obtain eo m' idx' where x: "x = (eo, m', idx')" by (cases x)
      show ?thesis
      proof (cases eo)
        case None
        with lf Ret x have l: "record_ok m'" "m_link_count m' = m_link_count m + 1" "name_count m' = name_count m + 1"
            "\<exists>a \<in> set (m_attrs m'). a_type a = AT_FILE_NAME \<and> res_value (a_form a) = File_name f" "enter f idx = Ret (None, idx')"
          by simp_all
        then have "insert_file_link_in_dir_index (nm_collate (me_ops env)) ref f idx = (None, idx')" by (simp add: enter_def)
        with di have d: "header_ok name_ok (name_rank up) idx'"
            "\<exists>e. ie_key e = File_key f \<and> ie_indexed_file e = ref \<and> live idx' = insert e (live idx)" by simp_all
        from l d mb(1) f(1) show ?thesis unfolding cr Ret x None by auto
      next
        case (Some e)
        with lf Ret x show ?thesis unfolding cr by simp
      qed
    qed (use lf en(3) cr in \<open>simp_all\<close>)
  qed
qed

section \<open>Examples\<close>

theorem hardlink_atomic_witness:
  "\<exists>m' idx'. create_hardlink ex_env (\<lambda>s. Some (ascii s)) 7 5 3 0 0 {} 0 0 ''$Volume'' FILE_NAME_WIN32_AND_DOS ex_rec ex_block = Ret (None, m', idx') \<and>
     m_link_count m' = 1 \<and> name_count m' = 1 \<and> header_ok name_ok (name_rank id) idx'"
proof -
  have m: "record_ok ex_rec" "m_next_attr_instance ex_rec + 1 < 2 ^ 16" "m_link_count ex_rec = 0" "name_count ex_rec = 0"
    "\<forall>a \<in> set (m_attrs ex_rec). \<forall>r. a_type a = AT_FILE_NAME \<longrightarrow> a_form a \<noteq> Non_resident r"
    by (simp_all add: ex_rec_def record_ok_def attr_off_def name_count_def)
  have e: "names_refl (me_ops ex_env)" "me_str2ucs ex_env None = Some Unnamed" "collates id (nm_collate (me_ops ex_env))"
    by (simp_all add: names_refl_def ex_env_def ex_ops_def collates_def ex_collate_def)
  have h: "header_ok name_ok (name_rank id) ex_block" by (simp add: header_ok_def ex_block_def entries_ok_def)
  obtain m' idx' where r: "create_hardlink ex_env (\<lambda>s. Some (ascii s)) 7 5 3 0 0 {} 0 0 ''$Volume'' FILE_NAME_WIN32_AND_DOS ex_rec ex_block =
      Ret (None, m', idx')"
    by (simp add: create_hardlink_def ex_env_def check_name_def ascii_def link_file_def ex_rec_def ex_block_def lookup_fresh
        insert_resident_attr_in_mft_record_def make_room_for_attribute_def resident_attr_def up8_def value_len_def file_name_size_def
        link_name_def name_of_def insert_file_link_in_dir_index_def make_room_for_index_entry_in_index_block_def ie_size_def Let_def)
  with hardlink_atomic [where ns = FILE_NAME_WIN32_AND_DOS and mb = "\<lambda>s. Some (ascii s)" and now = 7 and parent = 5 and ref = 3 and
      allocated = 0 and data = 0 and flags = "{}" and packed_ea = 0 and reparse = 0 and name = "''$Volume''", OF m(1,2) e(1,2) m(5) e(3) h] m
  show ?thesis by auto
qed

definition ex_root :: index_root where
  "ex_root = \<lparr>ir_type = 0, ir_collation_rule = COLLATION_NTOFS_ULONG, ir_index_block_size = 4096, ir_clusters_per_index_block = 1,
     ir_large = False, ir_header = \<lparr>ih_entries_offset = 16, ih_index_length = 32, ih_allocated_size = 32, ih_entries = [end_entry]\<rparr>\<rparr>"

definition ex_view :: mft_record where
  "ex_view = ex_rec\<lparr>m_attrs := [resident_attr AT_INDEX_ROOT (ascii ''$SII'') {} False (Index_root ex_root)], m_bytes_in_use := 144,
     m_next_attr_instance := 1\<rparr>"

lemma ex_attr: "resident_attr AT_INDEX_ROOT (ascii ''$SII'') {} False (Index_root ex_root) =
    \<lparr>a_type = AT_INDEX_ROOT, a_length = 80, a_name = ascii ''$SII'', a_name_offset = 24, a_flags = {}, a_instance = 0,
     a_form = Resident 32 48 (Index_root ex_root) False\<rparr>"
  by (simp add: resident_attr_def up8_def value_len_def ex_root_def ascii_def attr_types Let_def)

lemmas ex_view_eq = ex_view_def [unfolded ex_attr]


end
