(* ===== verification/Boot.thy ===== *)
theory Boot
  imports Vol_Params
begin

text \<open>
  The boot sector: the template of \<^verbatim>\<open>boot.c\<close>, and the parameters \<^verbatim>\<open>mkntfs_create_root_structures\<close> writes into
  it (\<^verbatim>\<open>mkntfs.c\<close>). The offsets of the parameters are those of the on-disk structure.
\<close>

section \<open>The template\<close>

definition str_bytes :: "string \<Rightarrow> byte list" where
  "str_bytes s = map of_char s"

definition boot_code :: "byte list" where
  "boot_code =
     [0x0e, 0x1f, 0xbe, 0x71, 0x7c,
      0xac, 0x22, 0xc0, 0x74, 0x0b, 0x56, 0xb4, 0x0e, 0xbb, 0x07, 0x00, 0xcd, 0x10, 0x5e, 0xeb, 0xf0,
      0x32, 0xe4, 0xcd, 0x16, 0xcd, 0x19, 0xeb, 0xfe]"

definition boot_message :: "byte list" where
  "boot_message =
     str_bytes ''This is not a bootable disk. Please insert a bootable floppy and'' @ [13, 10] @
     str_bytes ''press any key to try again ... '' @ [13, 10]"

text \<open>The array is longer than its initialiser; the rest is zero.\<close>

definition boot_array :: "byte list" where
  "boot_array =
     [0xeb, 0x52, 0x90] @ str_bytes ''NTFS    '' @ [0] @ replicate 72 0 @ boot_code @ boot_message @ replicate 298 0 @ [0x55, 0xaa] @
     replicate (4136 - 512) 0"

section \<open>The parameters\<close>

definition le_int :: "nat \<Rightarrow> int \<Rightarrow> byte list" where
  "le_int n x = le_bytes n (nat (x mod 256 ^ n))"

definition sectors_per_cluster_field :: "mkntfs_options \<Rightarrow> vol_params \<Rightarrow> int" where
  "sectors_per_cluster_field opts v =
     (let spc = nat (int (vp_csize v) div sector_size opts) in if spc > 128 then 257 - int (ffs spc) else int spc)"

text \<open>The size of records in clusters, or minus its binary logarithm if they are smaller than a cluster; \<open>None\<close> is an error.\<close>

definition clusters_field :: "nat \<Rightarrow> nat \<Rightarrow> nat \<Rightarrow> int option" where
  "clusters_field record_size bits cs =
     (if record_size \<ge> cs then Some (int (record_size div cs))
      else if 2 ^ bits \<noteq> record_size then None
      else Some (- int bits))"

definition serial_number :: "nat \<Rightarrow> nat \<Rightarrow> nat" where
  "serial_number r1 r2 = (r1 * 2 ^ 32) mod 2 ^ 64 + r2 mod 2 ^ 32"

definition boot_fields :: "mkntfs_options \<Rightarrow> vol_params \<Rightarrow> int \<Rightarrow> int \<Rightarrow> int \<Rightarrow> int \<Rightarrow> nat \<Rightarrow> (nat \<times> byte list) list" where
  "boot_fields opts v mft_lcn mftmirr_lcn cpm cpi serial =
     [(0x0b, le_int 2 (sector_size opts)), (0x0d, le_int 1 (sectors_per_cluster_field opts v)), (0x15, [0xf8]),
      (0x18, le_int 2 (sectors_per_track opts)), (0x1a, le_int 2 (heads opts)), (0x1c, le_int 4 (part_start_sect opts)),
      (0x24, [0x80]), (0x26, [0x80]), (0x28, le_int 8 (num_sectors opts)), (0x30, le_int 8 mft_lcn), (0x38, le_int 8 mftmirr_lcn),
      (0x40, le_int 1 cpm), (0x44, le_int 1 cpi), (0x48, le_bytes 8 serial), (0x50, le_bytes 4 0)]"

definition put_fields :: "byte list \<Rightarrow> (nat \<times> byte list) list \<Rightarrow> byte list" where
  "put_fields buf fs = foldl (\<lambda>b (off, bs). put_bytes b off bs) buf fs"

definition boot_sector :: "mkntfs_options \<Rightarrow> vol_params \<Rightarrow> int \<Rightarrow> int \<Rightarrow> nat \<Rightarrow> byte list option" where
  "boot_sector opts v mft_lcn mftmirr_lcn serial =
     (case (clusters_field (vp_mft_record_size v) (ffs (vp_mft_record_size v) - 1) (vp_csize v),
            clusters_field (vp_indx_record_size v) (vp_indx_record_bits v) (vp_csize v)) of
        (Some cpm, Some cpi) \<Rightarrow>
          Some (put_fields (put_bytes (replicate 8192 0) 0 boot_array) (boot_fields opts v mft_lcn mftmirr_lcn cpm cpi serial))
      | _ \<Rightarrow> None)"

section \<open>A reader of boot sectors\<close>

record boot_info =
  bi_sector_size :: nat
  bi_cluster_size :: nat
  bi_mft_record_size :: nat
  bi_indx_record_size :: nat
  bi_num_sectors :: nat
  bi_mft_lcn :: nat
  bi_mftmirr_lcn :: nat
  bi_hidden_sectors :: nat
  bi_serial :: nat

definition read_record_size :: "nat \<Rightarrow> byte \<Rightarrow> nat" where
  "read_record_size cs b = (if sint b > 0 then nat (sint b) * cs else 2 ^ nat (- sint b))"

definition read_boot :: "byte list \<Rightarrow> boot_info" where
  "read_boot bs =
     (let ss = get_le bs 0x0b 2; spc = get_le bs 0x0d 1; cs = ss * (if spc > 128 then 2 ^ (256 - spc) else spc) in
      \<lparr>bi_sector_size = ss, bi_cluster_size = cs,
       bi_mft_record_size = read_record_size cs (bs ! 0x40), bi_indx_record_size = read_record_size cs (bs ! 0x44),
       bi_num_sectors = get_le bs 0x28 8, bi_mft_lcn = get_le bs 0x30 8, bi_mftmirr_lcn = get_le bs 0x38 8,
       bi_hidden_sectors = get_le bs 0x1c 4, bi_serial = get_le bs 0x48 8\<rparr>)"

lemma length_parts [simp]: "length boot_code = 29" "length boot_message = 99" "length boot_array = 4136"
  by (simp_all add: boot_array_def boot_code_def boot_message_def str_bytes_def)

lemma put_fields_Nil [simp]: "put_fields buf [] = buf"
  by (simp add: put_fields_def)

lemma put_fields_Cons [simp]: "put_fields buf ((off, bs) # fs) = put_fields (put_bytes buf off bs) fs"
  by (simp add: put_fields_def)

lemma length_le_int [simp]: "length (le_int n x) = n"
  by (simp add: le_int_def)

lemma le_val_le_int [simp]: "0 \<le> x \<Longrightarrow> x < 256 ^ n \<Longrightarrow> le_val (le_int n x) = nat x"
  by (simp add: le_int_def nat_less_iff)

text \<open>A field is read back as it was written, if none of the later fields overlaps it.\<close>

lemma put_fields_other:
  assumes "a + n \<le> length buf" and "\<forall>(off, bs) \<in> set fs. off + length bs \<le> length buf \<and> (a + n \<le> off \<or> off + length bs \<le> a)"
  shows "get_bytes (put_fields buf fs) a n = get_bytes buf a n" and "length (put_fields buf fs) = length buf"
  using assms
proof (induction fs arbitrary: buf)
  case Nil
  { case 1 then show ?case by simp next case 2 then show ?case by simp }
next
  case (Cons f fs)
  obtain off bs where f: "f = (off, bs)" by (cases f)
  { case 1 with Cons.IH(1) [of "put_bytes buf off bs"] f show ?case by (auto simp: get_put_other) }
  { case 2 with Cons.IH(2) [of "put_bytes buf off bs"] f show ?case by auto }
qed

text \<open>The fields follow each other without overlap, from \<open>lo\<close> on.\<close>

fun laid_out :: "nat \<Rightarrow> nat \<Rightarrow> (nat \<times> byte list) list \<Rightarrow> bool" where
  "laid_out lo n [] = (lo \<le> n)"
| "laid_out lo n ((off, bs) # fs) = (lo \<le> off \<and> laid_out (off + length bs) n fs)"

lemma laid_out_later: "laid_out lo n fs \<Longrightarrow> lo \<le> n \<and> (\<forall>(off, bs) \<in> set fs. lo \<le> off \<and> off + length bs \<le> n)"
proof (induction fs arbitrary: lo)
  case Nil
  then show ?case by simp
next
  case (Cons f fs)
  obtain off bs where "f = (off, bs)" by (cases f)
  with Cons.IH [of "off + length bs"] Cons.prems show ?case by fastforce
qed

lemma put_fields_get:
  assumes "laid_out lo (length buf) fs" and "(a, bs) \<in> set fs"
  shows "get_bytes (put_fields buf fs) a (length bs) = bs"
  using assms
proof (induction fs arbitrary: lo buf)
  case Nil
  then show ?case by simp
next
  case (Cons f fs)
  obtain off b where f: "f = (off, b)" by (cases f)
  from Cons.prems f have lo: "laid_out (off + length b) (length buf) fs" by simp
  with laid_out_later [OF this] have len: "length (put_bytes buf off b) = length buf" by simp
  show ?case
  proof (cases "(a, bs) \<in> set fs")
    case True
    with Cons.IH [of "off + length b" "put_bytes buf off b"] lo len f show ?thesis by simp
  next
    case False
    with Cons.prems(2) f have "a = off" "bs = b" by auto
    with put_fields_other(1) [of off "length b" "put_bytes buf off b" fs] laid_out_later [OF lo] len f show ?thesis
      by fastforce
  qed
qed

lemma le_int_1: "le_int 1 x = [word_of_int x]"
proof -
  have "int (nat (x mod 256)) = x mod 256" by simp
  then have "(word_of_nat (nat (x mod 256)) :: byte) = word_of_int (x mod 256)" by (metis of_int_of_nat_eq)
  also have "\<dots> = word_of_int x" by transfer (simp add: take_bit_eq_mod)
  finally show ?thesis by (simp add: le_int_def)
qed

lemma sint_byte: "-128 \<le> x \<Longrightarrow> x < 128 \<Longrightarrow> sint (word_of_int x :: byte) = x"
  by (simp add: sint_sbintrunc' signed_take_bit_int_eq_self)

lemma read_clusters_field:
  assumes "r = 2 ^ b" and "cs = 2 ^ j" and "b \<le> 12" and "8 \<le> j"
  obtains x where "clusters_field r b cs = Some x" and "read_record_size cs (word_of_int x) = r"
proof (cases "j \<le> b")
  case True
  then have le: "cs \<le> r" and d: "r div cs = 2 ^ (b - j)" using assms by (simp_all add: power_diff)
  have "(2 :: int) ^ (b - j) \<le> 2 ^ 4" using assms by (intro power_increasing) simp_all
  then have small: "int (2 ^ (b - j)) < 128" by simp
  have "-128 \<le> int (2 ^ (b - j))" by (rule order_trans [of _ 0]) simp_all
  with small have s: "sint (word_of_int (int (2 ^ (b - j))) :: byte) = int (2 ^ (b - j))" by (rule sint_byte [rotated])
  have "nat (sint (word_of_int (int (2 ^ (b - j))) :: byte)) * cs = r"
    unfolding s using assms True by (simp add: power_add [symmetric] nat_power_eq)
  moreover have "sint (word_of_int (int (2 ^ (b - j))) :: byte) > 0" unfolding s by simp
  ultimately show ?thesis using that [of "int (2 ^ (b - j))"] le d by (simp add: clusters_field_def read_record_size_def)
next
  case False
  then have "r < cs" using assms by simp
  moreover have "sint (word_of_int (- int b) :: byte) = - int b" using assms by (intro sint_byte) simp_all
  ultimately show ?thesis using that [of "- int b"] assms by (simp add: clusters_field_def read_record_size_def)
qed

lemma sectors_per_cluster_read:
  assumes "sector_size opts = 2 ^ k" and "vp_csize v = 2 ^ j" and "k \<le> j" and "j \<le> k + 12"
  shows "0 \<le> sectors_per_cluster_field opts v" and "sectors_per_cluster_field opts v < 256"
    and "(let spc = nat (sectors_per_cluster_field opts v) in if spc > 128 then 2 ^ (256 - spc) else spc) = (2 :: nat) ^ (j - k)"
proof -
  have "(2 :: int) ^ j div 2 ^ k = 2 ^ (j - k)" using assms(3) by (simp add: power_diff)
  then have spc: "nat (int (vp_csize v) div sector_size opts) = 2 ^ (j - k)" using assms by (simp add: nat_power_eq)
  have big: "2 ^ (j - k) > (128 :: nat) \<longleftrightarrow> j - k > 7"
    using power_strict_increasing_iff [of "2 :: nat" 7 "j - k"] by (simp del: power_strict_increasing_iff)
  have f: "sectors_per_cluster_field opts v = (if j - k > 7 then 256 - int (j - k) else 2 ^ (j - k))"
    by (simp add: sectors_per_cluster_field_def Let_def spc ffs_pow2 big)
  have "(2 :: int) ^ (j - k) \<le> 2 ^ 7" if "j - k \<le> 7" using that by (intro power_increasing) simp_all
  then show "0 \<le> sectors_per_cluster_field opts v" "sectors_per_cluster_field opts v < 256"
    using f assms by (auto split: if_splits)
  show "(let spc = nat (sectors_per_cluster_field opts v) in if spc > 128 then 2 ^ (256 - spc) else spc) = (2 :: nat) ^ (j - k)"
    using f big assms by (auto simp: Let_def nat_power_eq nat_diff_distrib split: if_splits)
qed

section \<open>The boot sector describes the volume\<close>

definition geometry_ok :: "mkntfs_options \<Rightarrow> bool" where
  "geometry_ok opts \<longleftrightarrow> 0 \<le> part_start_sect opts \<and> part_start_sect opts < 2 ^ 32"

lemma boot_fields_laid_out: "laid_out 0x0b 0x54 (boot_fields opts v m mm cpm cpi serial)"
  by (simp add: boot_fields_def)

lemma laid_out_mono: "laid_out lo n fs \<Longrightarrow> n \<le> n' \<Longrightarrow> laid_out lo n' fs"
  by (induction fs arbitrary: lo) auto

definition boot_bytes :: "mkntfs_options \<Rightarrow> vol_params \<Rightarrow> int \<Rightarrow> int \<Rightarrow> int \<Rightarrow> int \<Rightarrow> nat \<Rightarrow> byte list" where
  "boot_bytes opts v m mm cpm cpi serial =
     put_fields (put_bytes (replicate 8192 0) 0 boot_array) (boot_fields opts v m mm cpm cpi serial)"

lemma boot_bytes_fields:
  "length (boot_bytes opts v m mm cpm cpi serial) = 8192"
  "(a, bs) \<in> set (boot_fields opts v m mm cpm cpi serial) \<Longrightarrow> get_bytes (boot_bytes opts v m mm cpm cpi serial) a (length bs) = bs"
  "a + n \<le> 0x0b \<or> 0x54 \<le> a \<Longrightarrow> a + n \<le> 4136 \<Longrightarrow> get_bytes (boot_bytes opts v m mm cpm cpi serial) a n = get_bytes boot_array a n"
proof -
  let ?buf = "put_bytes (replicate 8192 0) 0 boot_array" let ?fs = "boot_fields opts v m mm cpm cpi serial"
  have buf: "length ?buf = 8192" by simp
  note later = laid_out_later [OF boot_fields_laid_out, of opts v m mm cpm cpi serial]
  show "length (boot_bytes opts v m mm cpm cpi serial) = 8192"
    unfolding boot_bytes_def using put_fields_other(2) [of 0 0 ?buf ?fs] later buf by fastforce
  show "get_bytes (boot_bytes opts v m mm cpm cpi serial) a (length bs) = bs" if "(a, bs) \<in> set ?fs"
    unfolding boot_bytes_def
    using put_fields_get [OF laid_out_mono [OF boot_fields_laid_out] that, of ?buf] buf by simp
  show "get_bytes (boot_bytes opts v m mm cpm cpi serial) a n = get_bytes boot_array a n"
    if out: "a + n \<le> 0x0b \<or> 0x54 \<le> a" and le: "a + n \<le> 4136"
  proof -
    have "get_bytes (boot_bytes opts v m mm cpm cpi serial) a n = get_bytes ?buf a n"
      unfolding boot_bytes_def using put_fields_other(1) [of a n ?buf ?fs] later buf out le by fastforce
    also have "\<dots> = get_bytes boot_array a n" using le by (simp add: get_bytes_def put_bytes_def)
    finally show ?thesis .
  qed
qed

text \<open>The exponents of the sizes of an accepted volume.\<close>

lemma vol_ok_exponents:
  assumes "vol_ok max_cs opts v"
  obtains k j where "sector_size opts = 2 ^ k" "8 \<le> k" "k \<le> 12" "vp_csize v = 2 ^ j" "k \<le> j" "j \<le> k + 12"
    "vp_mft_record_size v = 2 ^ vp_mft_record_bits v" "vp_mft_record_bits v \<le> 12"
    "vp_indx_record_size v = 2 ^ 12" "vp_indx_record_bits v = 12"
proof -
  from assms obtain k j where k: "sector_size opts = 2 ^ k" "8 \<le> k" "k \<le> 12" and j: "vp_csize v = 2 ^ j"
    and le: "sector_size opts \<le> int (vp_csize v)" "int (vp_csize v) \<le> 4096 * sector_size opts"
    and mrs: "int (vp_mft_record_size v) = max 1024 (sector_size opts)" "vp_mft_record_size v = 2 ^ vp_mft_record_bits v"
    and irs: "vp_indx_record_size v = 2 ^ 12" "vp_indx_record_bits v = 12"
    by (auto simp: vol_ok_def)
  have "k \<le> j" using le(1) k(1) j by simp
  have "(2 :: int) ^ j \<le> 2 ^ (12 + k)" using le(2) k(1) j by (simp add: power_add)
  then have "j \<le> k + 12" by (simp add: power_increasing_iff)
  have "sector_size opts \<le> 2 ^ 12" unfolding k(1) using k(3) by (intro power_increasing) simp_all
  then have "2 ^ vp_mft_record_bits v \<le> (2 :: nat) ^ 12" using mrs(1) unfolding mrs(2) [symmetric] by simp
  then have "vp_mft_record_bits v \<le> 12" by (rule power_le_imp_le_exp [rotated]) simp
  with that k j \<open>k \<le> j\<close> \<open>j \<le> k + 12\<close> mrs(2) irs show ?thesis by blast
qed

lemma vol_ok_ranges:
  assumes "vol_ok max_cs opts v"
  shows "0 \<le> sector_size opts" "sector_size opts < 2 ^ 16" "0 \<le> num_sectors opts" "num_sectors opts < 2 ^ 64"
proof -
  obtain k where k: "sector_size opts = 2 ^ k" "8 \<le> k" "k \<le> 12" using vol_ok_exponents [OF assms] by metis
  have "(2 :: int) ^ k \<le> 2 ^ 12" using k(3) by (intro power_increasing) simp_all
  with k(1) show "0 \<le> sector_size opts" "sector_size opts < 2 ^ 16" by simp_all
  from assms have size: "2 ^ 20 \<le> num_sectors opts * sector_size opts" "num_sectors opts * sector_size opts \<le> INT64_MAX"
    by (auto simp: vol_ok_def)
  have pos: "1 \<le> sector_size opts" using k(1) by simp
  have "0 < num_sectors opts * sector_size opts" using size(1) by simp
  then show ns: "0 \<le> num_sectors opts" using pos by (simp add: zero_less_mult_iff)
  have "num_sectors opts * 1 \<le> num_sectors opts * sector_size opts" using ns pos by (intro mult_left_mono)
  then show "num_sectors opts < 2 ^ 64" using size(2) by (simp add: INT64_MAX_def)
qed

lemma boot_bytes_get:
  assumes "vol_ok max_cs opts v" and "geometry_ok opts" and "0 \<le> m" "m < 2 ^ 63" and "0 \<le> mm" "mm < 2 ^ 63" and "serial < 2 ^ 64"
    and spc: "0 \<le> sectors_per_cluster_field opts v" "sectors_per_cluster_field opts v < 256"
    and bs: "bs = boot_bytes opts v m mm cpm cpi serial"
  shows "get_le bs 0x0b 2 = nat (sector_size opts)" "get_le bs 0x0d 1 = nat (sectors_per_cluster_field opts v)"
    "get_le bs 0x1c 4 = nat (part_start_sect opts)" "get_le bs 0x28 8 = nat (num_sectors opts)" "get_le bs 0x30 8 = nat m"
    "get_le bs 0x38 8 = nat mm" "get_le bs 0x48 8 = serial" "bs ! 0x40 = word_of_int cpm" "bs ! 0x44 = word_of_int cpi"
proof -
  note f = boot_bytes_fields(2) [where opts = opts and v = v and m = m and mm = mm and cpm = cpm and cpi = cpi and serial = serial,
      folded bs]
  note r = vol_ok_ranges [OF assms(1)]
  show "get_le bs 0x0b 2 = nat (sector_size opts)" using f [of "0x0b" "le_int 2 (sector_size opts)"] r by (simp add: get_le_def boot_fields_def)
  show "get_le bs 0x0d 1 = nat (sectors_per_cluster_field opts v)"
    using f [of "0x0d" "le_int 1 (sectors_per_cluster_field opts v)"] spc by (simp add: get_le_def boot_fields_def)
  show "get_le bs 0x1c 4 = nat (part_start_sect opts)"
    using f [of "0x1c" "le_int 4 (part_start_sect opts)"] assms(2) by (simp add: get_le_def geometry_ok_def boot_fields_def)
  show "get_le bs 0x28 8 = nat (num_sectors opts)" using f [of "0x28" "le_int 8 (num_sectors opts)"] r by (simp add: get_le_def boot_fields_def)
  show "get_le bs 0x30 8 = nat m" using f [of "0x30" "le_int 8 m"] assms(3,4) by (simp add: get_le_def boot_fields_def)
  show "get_le bs 0x38 8 = nat mm" using f [of "0x38" "le_int 8 mm"] assms(5,6) by (simp add: get_le_def boot_fields_def)
  show "get_le bs 0x48 8 = serial" using f [of "0x48" "le_bytes 8 serial"] assms(7) by (simp add: get_le_def boot_fields_def)
  show "bs ! 0x40 = word_of_int cpm" "bs ! 0x44 = word_of_int cpi"
    using f [of "0x40" "le_int 1 cpm"] f [of "0x44" "le_int 1 cpi"] boot_bytes_fields(1) [of opts v m mm cpm cpi serial, folded bs]
    by (simp_all add: boot_fields_def le_int_1 [simplified] get_bytes_def take_Suc_conv_app_nth)
qed

lemma boot_sector_defined:
  assumes "vol_ok max_cs opts v"
  shows "\<exists>bs. boot_sector opts v m mm serial = Some bs"
proof -
  obtain k j where e: "8 \<le> k" "k \<le> j" "vp_csize v = 2 ^ j"
    and mrs: "vp_mft_record_size v = 2 ^ vp_mft_record_bits v" "vp_mft_record_bits v \<le> 12"
    and irs: "vp_indx_record_size v = 2 ^ 12" "vp_indx_record_bits v = 12"
    using vol_ok_exponents [OF assms] by blast
  have ffs: "ffs (vp_mft_record_size v) - 1 = vp_mft_record_bits v" unfolding mrs(1) by (simp add: ffs_pow2)
  obtain x where "clusters_field (vp_mft_record_size v) (vp_mft_record_bits v) (vp_csize v) = Some x"
    using read_clusters_field [OF mrs(1) e(3) mrs(2)] e by auto
  moreover obtain y where "clusters_field (vp_indx_record_size v) (vp_indx_record_bits v) (vp_csize v) = Some y"
    using read_clusters_field [OF irs(1) e(3)] e irs(2) by auto
  ultimately show ?thesis unfolding boot_sector_def ffs by simp
qed

text \<open>
  C32: the boot sector describes the volume that is being made. For accepted parameters it is built without an
  error, and a reader of the on-disk format recovers from it the sizes of sectors, clusters, MFT records and index
  records, the number of sectors and of hidden sectors, the places of the MFT and its mirror, and the serial
  number, also where the sizes are stored as logarithms; the NTFS signature, the boot code with its message
  and the final signature are those of the template.
\<close>

theorem boot_sector_roundtrip:
  assumes "vol_ok max_cs opts v" and "geometry_ok opts" and "0 \<le> m" and "m < 2 ^ 63" and "0 \<le> mm" and "mm < 2 ^ 63"
    and "serial < 2 ^ 64"
  shows "\<exists>bs. boot_sector opts v m mm serial = Some bs \<and> length bs = 8192 \<and>
    read_boot bs = \<lparr>bi_sector_size = nat (sector_size opts), bi_cluster_size = vp_csize v, bi_mft_record_size = vp_mft_record_size v,
      bi_indx_record_size = vp_indx_record_size v, bi_num_sectors = nat (num_sectors opts), bi_mft_lcn = nat m, bi_mftmirr_lcn = nat mm,
      bi_hidden_sectors = nat (part_start_sect opts), bi_serial = serial\<rparr> \<and>
    get_bytes bs 3 8 = str_bytes ''NTFS    '' \<and> get_bytes bs 0x54 (29 + 99) = boot_code @ boot_message \<and> get_bytes bs 0x1fe 2 = [0x55, 0xaa]"
proof -
  obtain k j where e: "sector_size opts = 2 ^ k" "8 \<le> k" "k \<le> 12" "vp_csize v = 2 ^ j" "k \<le> j" "j \<le> k + 12"
    and mrs: "vp_mft_record_size v = 2 ^ vp_mft_record_bits v" "vp_mft_record_bits v \<le> 12"
    and irs: "vp_indx_record_size v = 2 ^ 12" "vp_indx_record_bits v = 12"
    using vol_ok_exponents [OF assms(1)] by blast
  have ffs: "ffs (vp_mft_record_size v) - 1 = vp_mft_record_bits v" unfolding mrs(1) by (simp add: ffs_pow2)
  obtain cpm where cpm: "clusters_field (vp_mft_record_size v) (vp_mft_record_bits v) (vp_csize v) = Some cpm"
    "read_record_size (vp_csize v) (word_of_int cpm) = vp_mft_record_size v"
    using read_clusters_field [OF mrs(1) e(4) mrs(2)] e by auto
  obtain cpi where cpi: "clusters_field (vp_indx_record_size v) (vp_indx_record_bits v) (vp_csize v) = Some cpi"
    "read_record_size (vp_csize v) (word_of_int cpi) = vp_indx_record_size v"
    using read_clusters_field [OF irs(1) e(4)] e irs(2) by auto
  let ?bs = "boot_bytes opts v m mm cpm cpi serial"
  note spc = sectors_per_cluster_read [OF e(1,4,5,6)]
  note g = boot_bytes_get [OF assms spc(1,2) refl, of cpm cpi]
  have "nat (sector_size opts) * 2 ^ (j - k) = vp_csize v" using e by (simp add: power_add [symmetric] nat_power_eq)
  then have read: "read_boot ?bs = \<lparr>bi_sector_size = nat (sector_size opts), bi_cluster_size = vp_csize v,
      bi_mft_record_size = vp_mft_record_size v, bi_indx_record_size = vp_indx_record_size v, bi_num_sectors = nat (num_sectors opts),
      bi_mft_lcn = nat m, bi_mftmirr_lcn = nat mm, bi_hidden_sectors = nat (part_start_sect opts), bi_serial = serial\<rparr>"
    using spc(3) cpm(2) cpi(2) unfolding read_boot_def g by (simp add: Let_def)
  have rest: "get_bytes ?bs 3 8 = str_bytes ''NTFS    ''" "get_bytes ?bs 0x54 (29 + 99) = boot_code @ boot_message"
    "get_bytes ?bs 0x1fe 2 = [0x55, 0xaa]"
    by (simp_all add: boot_bytes_fields(3)) (simp_all add: get_bytes_def boot_array_def str_bytes_def)
  show ?thesis
    using cpm(1) cpi(1) ffs read rest boot_bytes_fields(1) [of opts v m mm cpm cpi serial]
    by (intro exI [of _ ?bs]) (simp add: boot_sector_def boot_bytes_def)
qed

theorem boot_sector_roundtrip_witness:
  "\<exists>bs. boot_sector ex_opts' ex_vol_params 4 100 77 = Some bs \<and> bi_cluster_size (read_boot bs) = 4096 \<and>
     bi_mft_record_size (read_boot bs) = 1024 \<and> bi_mft_lcn (read_boot bs) = 4"
proof -
  have "geometry_ok ex_opts'" by (simp add: geometry_ok_def ex_opts'_def)
  from boot_sector_roundtrip [OF ex_vol_ok this, of 4 100 77] show ?thesis by (auto simp: ex_vol_params_def)
qed

end
