(* ===== verification/Boot_Code.thy ===== *)
theory Boot_Code
  imports Boot
begin

text \<open>
  What the boot code of \<^verbatim>\<open>boot.c\<close> does: an interpreter for the real-mode instructions it consists of, and the proof that
  it prints the message and waits for a key before it starts the boot process again.

  Addresses are linear, since the code runs in segment zero. An interrupt handler may change \<^verbatim>\<open>SI\<close>, in a way that is
  an argument; the code saves it.
\<close>

datatype bios = Print byte | Wait_key | Reboot

record cpu =
  c_ip :: nat
  c_al :: byte
  c_ah :: byte
  c_si :: nat
  c_ds :: nat
  c_zf :: bool
  c_stack :: "nat list"
  c_out :: "bios list"

definition imm16 :: "(nat \<Rightarrow> byte) \<Rightarrow> nat \<Rightarrow> nat" where
  "imm16 mem a = unat (mem a) + 256 * unat (mem (a + 1))"

definition rel8 :: "(nat \<Rightarrow> byte) \<Rightarrow> nat \<Rightarrow> nat" where
  "rel8 mem ip = nat (int ip + 2 + sint (mem (ip + 1)))"

text \<open>One instruction; \<open>None\<close> for one that is not among those of the code, and after the boot process was started again.\<close>

definition cpu_step :: "(nat \<Rightarrow> byte) \<Rightarrow> (nat \<Rightarrow> nat) \<Rightarrow> cpu \<Rightarrow> cpu option" where
  "cpu_step mem clob s =
     (let ip = c_ip s; opc = mem ip; arg = mem (ip + 1) in
      if opc = 0xeb then Some (s\<lparr>c_ip := rel8 mem ip\<rparr>)
      else if opc = 0x0e then Some (s\<lparr>c_ip := ip + 1, c_stack := 0 # c_stack s\<rparr>)
      else if opc = 0x1f then
        (case c_stack s of [] \<Rightarrow> None | v # st \<Rightarrow> Some (s\<lparr>c_ip := ip + 1, c_ds := v, c_stack := st\<rparr>))
      else if opc = 0xbe then Some (s\<lparr>c_ip := ip + 3, c_si := imm16 mem (ip + 1)\<rparr>)
      else if opc = 0xac then Some (s\<lparr>c_ip := ip + 1, c_al := mem (16 * c_ds s + c_si s), c_si := (c_si s + 1) mod 2 ^ 16\<rparr>)
      else if opc = 0x22 \<and> arg = 0xc0 then Some (s\<lparr>c_ip := ip + 2, c_zf := (c_al s = 0)\<rparr>)
      else if opc = 0x74 then Some (s\<lparr>c_ip := (if c_zf s then rel8 mem ip else ip + 2)\<rparr>)
      else if opc = 0x56 then Some (s\<lparr>c_ip := ip + 1, c_stack := c_si s # c_stack s\<rparr>)
      else if opc = 0x5e then
        (case c_stack s of [] \<Rightarrow> None | v # st \<Rightarrow> Some (s\<lparr>c_ip := ip + 1, c_si := v, c_stack := st\<rparr>))
      else if opc = 0xb4 then Some (s\<lparr>c_ip := ip + 2, c_ah := arg\<rparr>)
      else if opc = 0xbb then Some (s\<lparr>c_ip := ip + 3\<rparr>)
      else if opc = 0x32 \<and> arg = 0xe4 then Some (s\<lparr>c_ip := ip + 2, c_ah := 0, c_zf := True\<rparr>)
      else if opc = 0xcd \<and> arg = 0x10 \<and> c_ah s = 0x0e then
        Some (s\<lparr>c_ip := ip + 2, c_si := clob (c_si s), c_out := c_out s @ [Print (c_al s)]\<rparr>)
      else if opc = 0xcd \<and> arg = 0x16 \<and> c_ah s = 0 then
        Some (s\<lparr>c_ip := ip + 2, c_si := clob (c_si s), c_out := c_out s @ [Wait_key]\<rparr>)
      else if opc = 0xcd \<and> arg = 0x19 then Some (s\<lparr>c_out := c_out s @ [Reboot]\<rparr>)
      else None)"

fun cpu_run :: "nat \<Rightarrow> (nat \<Rightarrow> byte) \<Rightarrow> (nat \<Rightarrow> nat) \<Rightarrow> cpu \<Rightarrow> cpu option" where
  "cpu_run 0 mem clob s = Some s"
| "cpu_run (Suc n) mem clob s = (case cpu_step mem clob s of None \<Rightarrow> None | Some s' \<Rightarrow> cpu_run n mem clob s')"

lemma cpu_run_add: "cpu_run (m + n) mem clob s = (case cpu_run m mem clob s of None \<Rightarrow> None | Some s' \<Rightarrow> cpu_run n mem clob s')"
  by (induction m arbitrary: s) (auto split: option.splits)

text \<open>The sector is loaded at \<open>0x7c00\<close>.\<close>

definition loaded :: "byte list \<Rightarrow> (nat \<Rightarrow> byte) \<Rightarrow> bool" where
  "loaded bs mem \<longleftrightarrow> (\<forall>i < 512. mem (0x7c00 + i) = bs ! i)"

definition has_boot_code :: "byte list \<Rightarrow> bool" where
  "has_boot_code bs \<longleftrightarrow> 512 \<le> length bs \<and> get_bytes bs 0 3 = [0xeb, 0x52, 0x90] \<and> get_bytes bs 0x54 129 = boot_code @ boot_message @ [0]"

lemma get_bytes_nth: "get_bytes bs a n = xs \<Longrightarrow> i < length xs \<Longrightarrow> bs ! (a + i) = xs ! i"
  by (auto simp: get_bytes_def)

lemma code_at:
  assumes "loaded bs mem" and "has_boot_code bs" and "i < 129"
  shows "mem (0x7c54 + i) = (boot_code @ boot_message @ [0]) ! i"
proof -
  have "mem (0x7c00 + (0x54 + i)) = bs ! (0x54 + i)" using assms(1,3) by (simp only: loaded_def)
  also have "\<dots> = (boot_code @ boot_message @ [0]) ! i"
    using assms(2,3) by (intro get_bytes_nth [of bs "0x54" 129]) (simp_all add: has_boot_code_def)
  finally show ?thesis by simp
qed

lemma code_bytes:
  assumes "loaded bs mem" and "has_boot_code bs"
  shows "mem 0x7c54 = 0x0e" "mem 0x7c55 = 0x1f" "mem 0x7c56 = 0xbe" "mem 0x7c57 = 0x71" "mem 0x7c58 = 0x7c" "mem 0x7c59 = 0xac"
    "mem 0x7c5a = 0x22" "mem 0x7c5b = 0xc0" "mem 0x7c5c = 0x74" "mem 0x7c5d = 0x0b" "mem 0x7c5e = 0x56" "mem 0x7c5f = 0xb4"
    "mem 0x7c60 = 0x0e" "mem 0x7c61 = 0xbb" "mem 0x7c64 = 0xcd" "mem 0x7c65 = 0x10" "mem 0x7c66 = 0x5e" "mem 0x7c67 = 0xeb"
    "mem 0x7c68 = 0xf0" "mem 0x7c69 = 0x32" "mem 0x7c6a = 0xe4" "mem 0x7c6b = 0xcd" "mem 0x7c6c = 0x16" "mem 0x7c6d = 0xcd" "mem 0x7c6e = 0x19"
  using code_at [OF assms, of 0] code_at [OF assms, of 1] code_at [OF assms, of 2] code_at [OF assms, of 3] code_at [OF assms, of 4]
    code_at [OF assms, of 5] code_at [OF assms, of 6] code_at [OF assms, of 7] code_at [OF assms, of 8] code_at [OF assms, of 9]
    code_at [OF assms, of 10] code_at [OF assms, of 11] code_at [OF assms, of 12] code_at [OF assms, of 13] code_at [OF assms, of 16]
    code_at [OF assms, of 17] code_at [OF assms, of 18] code_at [OF assms, of 19] code_at [OF assms, of 20] code_at [OF assms, of 21]
    code_at [OF assms, of 22] code_at [OF assms, of 23] code_at [OF assms, of 24] code_at [OF assms, of 25] code_at [OF assms, of 26]
  by (simp_all add: boot_code_def)

lemma message_at:
  assumes "loaded bs mem" and "has_boot_code bs" and "i \<le> 99"
  shows "mem (0x7c71 + i) = (boot_message @ [0]) ! i"
  using code_at [OF assms(1,2), of "29 + i"] assms(3) by (simp add: nth_append)

lemma message_chars: "\<forall>c \<in> set boot_message. c \<noteq> 0"
  by (simp add: boot_message_def str_bytes_def)

text \<open>One round of the loop prints one character and comes back with \<^verbatim>\<open>SI\<close> at the next.\<close>

lemma rel8_values:
  assumes "loaded bs mem" and "has_boot_code bs"
  shows "rel8 mem 0x7c5c = 0x7c69" "rel8 mem 0x7c67 = 0x7c59"
  using code_bytes [OF assms] by (simp_all add: rel8_def)

definition reaches :: "(nat \<Rightarrow> byte) \<Rightarrow> (nat \<Rightarrow> nat) \<Rightarrow> cpu \<Rightarrow> cpu \<Rightarrow> bool" where
  "reaches mem clob s s' \<longleftrightarrow> (\<exists>n. cpu_run n mem clob s = Some s')"

lemma reaches_refl: "reaches mem clob s s"
  unfolding reaches_def by (rule exI [of _ 0]) simp

lemma reaches_step: "cpu_step mem clob s = Some s1 \<Longrightarrow> reaches mem clob s1 s' \<Longrightarrow> reaches mem clob s s'"
  unfolding reaches_def by (elim exE, rule_tac x = "Suc n" in exI) simp

lemma reaches_trans: "reaches mem clob s s1 \<Longrightarrow> reaches mem clob s1 s' \<Longrightarrow> reaches mem clob s s'"
  unfolding reaches_def by (elim exE, rule_tac x = "n + na" in exI) (simp add: cpu_run_add)

text \<open>What the instruction at each address does.\<close>

lemma instructions:
  assumes "loaded bs mem" and "has_boot_code bs"
  shows "cpu_step mem clob \<lparr>c_ip = 0x7c54, c_al = al, c_ah = ah, c_si = si, c_ds = ds, c_zf = zf, c_stack = st, c_out = out\<rparr> =
      Some \<lparr>c_ip = 0x7c55, c_al = al, c_ah = ah, c_si = si, c_ds = ds, c_zf = zf, c_stack = 0 # st, c_out = out\<rparr>"
    and "cpu_step mem clob \<lparr>c_ip = 0x7c55, c_al = al, c_ah = ah, c_si = si, c_ds = ds, c_zf = zf, c_stack = v # st, c_out = out\<rparr> =
      Some \<lparr>c_ip = 0x7c56, c_al = al, c_ah = ah, c_si = si, c_ds = v, c_zf = zf, c_stack = st, c_out = out\<rparr>"
    and "cpu_step mem clob \<lparr>c_ip = 0x7c56, c_al = al, c_ah = ah, c_si = si, c_ds = ds, c_zf = zf, c_stack = st, c_out = out\<rparr> =
      Some \<lparr>c_ip = 0x7c59, c_al = al, c_ah = ah, c_si = 0x7c71, c_ds = ds, c_zf = zf, c_stack = st, c_out = out\<rparr>"
    and "cpu_step mem clob \<lparr>c_ip = 0x7c59, c_al = al, c_ah = ah, c_si = si, c_ds = ds, c_zf = zf, c_stack = st, c_out = out\<rparr> =
      Some \<lparr>c_ip = 0x7c5a, c_al = mem (16 * ds + si), c_ah = ah, c_si = (si + 1) mod 2 ^ 16, c_ds = ds, c_zf = zf, c_stack = st, c_out = out\<rparr>"
    and "cpu_step mem clob \<lparr>c_ip = 0x7c5a, c_al = al, c_ah = ah, c_si = si, c_ds = ds, c_zf = zf, c_stack = st, c_out = out\<rparr> =
      Some \<lparr>c_ip = 0x7c5c, c_al = al, c_ah = ah, c_si = si, c_ds = ds, c_zf = (al = 0), c_stack = st, c_out = out\<rparr>"
    and "cpu_step mem clob \<lparr>c_ip = 0x7c5c, c_al = al, c_ah = ah, c_si = si, c_ds = ds, c_zf = True, c_stack = st, c_out = out\<rparr> =
      Some \<lparr>c_ip = 0x7c69, c_al = al, c_ah = ah, c_si = si, c_ds = ds, c_zf = True, c_stack = st, c_out = out\<rparr>"
    and "cpu_step mem clob \<lparr>c_ip = 0x7c5c, c_al = al, c_ah = ah, c_si = si, c_ds = ds, c_zf = False, c_stack = st, c_out = out\<rparr> =
      Some \<lparr>c_ip = 0x7c5e, c_al = al, c_ah = ah, c_si = si, c_ds = ds, c_zf = False, c_stack = st, c_out = out\<rparr>"
    and "cpu_step mem clob \<lparr>c_ip = 0x7c5e, c_al = al, c_ah = ah, c_si = si, c_ds = ds, c_zf = zf, c_stack = st, c_out = out\<rparr> =
      Some \<lparr>c_ip = 0x7c5f, c_al = al, c_ah = ah, c_si = si, c_ds = ds, c_zf = zf, c_stack = si # st, c_out = out\<rparr>"
    and "cpu_step mem clob \<lparr>c_ip = 0x7c5f, c_al = al, c_ah = ah, c_si = si, c_ds = ds, c_zf = zf, c_stack = st, c_out = out\<rparr> =
      Some \<lparr>c_ip = 0x7c61, c_al = al, c_ah = 0x0e, c_si = si, c_ds = ds, c_zf = zf, c_stack = st, c_out = out\<rparr>"
    and "cpu_step mem clob \<lparr>c_ip = 0x7c61, c_al = al, c_ah = ah, c_si = si, c_ds = ds, c_zf = zf, c_stack = st, c_out = out\<rparr> =
      Some \<lparr>c_ip = 0x7c64, c_al = al, c_ah = ah, c_si = si, c_ds = ds, c_zf = zf, c_stack = st, c_out = out\<rparr>"
    and "cpu_step mem clob \<lparr>c_ip = 0x7c64, c_al = al, c_ah = 0x0e, c_si = si, c_ds = ds, c_zf = zf, c_stack = st, c_out = out\<rparr> =
      Some \<lparr>c_ip = 0x7c66, c_al = al, c_ah = 0x0e, c_si = clob si, c_ds = ds, c_zf = zf, c_stack = st, c_out = out @ [Print al]\<rparr>"
    and "cpu_step mem clob \<lparr>c_ip = 0x7c66, c_al = al, c_ah = ah, c_si = si, c_ds = ds, c_zf = zf, c_stack = v # st, c_out = out\<rparr> =
      Some \<lparr>c_ip = 0x7c67, c_al = al, c_ah = ah, c_si = v, c_ds = ds, c_zf = zf, c_stack = st, c_out = out\<rparr>"
    and "cpu_step mem clob \<lparr>c_ip = 0x7c67, c_al = al, c_ah = ah, c_si = si, c_ds = ds, c_zf = zf, c_stack = st, c_out = out\<rparr> =
      Some \<lparr>c_ip = 0x7c59, c_al = al, c_ah = ah, c_si = si, c_ds = ds, c_zf = zf, c_stack = st, c_out = out\<rparr>"
    and "cpu_step mem clob \<lparr>c_ip = 0x7c69, c_al = al, c_ah = ah, c_si = si, c_ds = ds, c_zf = zf, c_stack = st, c_out = out\<rparr> =
      Some \<lparr>c_ip = 0x7c6b, c_al = al, c_ah = 0, c_si = si, c_ds = ds, c_zf = True, c_stack = st, c_out = out\<rparr>"
    and "cpu_step mem clob \<lparr>c_ip = 0x7c6b, c_al = al, c_ah = 0, c_si = si, c_ds = ds, c_zf = zf, c_stack = st, c_out = out\<rparr> =
      Some \<lparr>c_ip = 0x7c6d, c_al = al, c_ah = 0, c_si = clob si, c_ds = ds, c_zf = zf, c_stack = st, c_out = out @ [Wait_key]\<rparr>"
    and "cpu_step mem clob \<lparr>c_ip = 0x7c6d, c_al = al, c_ah = ah, c_si = si, c_ds = ds, c_zf = zf, c_stack = st, c_out = out\<rparr> =
      Some \<lparr>c_ip = 0x7c6d, c_al = al, c_ah = ah, c_si = si, c_ds = ds, c_zf = zf, c_stack = st, c_out = out @ [Reboot]\<rparr>"
  using code_bytes [OF assms] rel8_values [OF assms] by (simp_all add: cpu_step_def Let_def imm16_def)

text \<open>One round of the loop prints one character and comes back with \<^verbatim>\<open>SI\<close> at the next.\<close>

abbreviation loop_state :: "byte \<Rightarrow> byte \<Rightarrow> bool \<Rightarrow> nat list \<Rightarrow> nat \<Rightarrow> bios list \<Rightarrow> cpu" where
  "loop_state al ah zf st i out \<equiv>
     \<lparr>c_ip = 0x7c59, c_al = al, c_ah = ah, c_si = 0x7c71 + i, c_ds = 0, c_zf = zf, c_stack = st, c_out = out\<rparr>"

lemma loop_round:
  assumes "loaded bs mem" and "has_boot_code bs" and "i < 99"
  shows "reaches mem clob (loop_state al ah zf st i out) (loop_state (boot_message ! i) 0x0e False st (i + 1) (out @ [Print (boot_message ! i)]))"
proof -
  note step = instructions [OF assms(1,2), where clob = clob]
  let ?c = "boot_message ! i" let ?si = "0x7c71 + (i + 1)"
  have "mem (16 * 0 + (0x7c71 + i)) = ?c" using message_at [OF assms(1,2), of i] assms(3) by (simp add: nth_append)
  moreover have "(0x7c71 + i + 1) mod 2 ^ 16 = ?si" using assms(3) by simp
  ultimately have 1: "cpu_step mem clob (loop_state al ah zf st i out) =
      Some \<lparr>c_ip = 0x7c5a, c_al = ?c, c_ah = ah, c_si = ?si, c_ds = 0, c_zf = zf, c_stack = st, c_out = out\<rparr>"
    unfolding step(4) by simp
  have "(?c = 0) = False" using message_chars assms(3) by simp
  then have 2: "cpu_step mem clob \<lparr>c_ip = 0x7c5a, c_al = ?c, c_ah = ah, c_si = ?si, c_ds = 0, c_zf = zf, c_stack = st, c_out = out\<rparr> =
      Some \<lparr>c_ip = 0x7c5c, c_al = ?c, c_ah = ah, c_si = ?si, c_ds = 0, c_zf = False, c_stack = st, c_out = out\<rparr>"
    unfolding step(5) by simp
  show ?thesis
    by (rule reaches_step [OF 1], rule reaches_step [OF 2], rule reaches_step [OF step(7)], rule reaches_step [OF step(8)],
        rule reaches_step [OF step(9)], rule reaches_step [OF step(10)], rule reaches_step [OF step(11)],
        rule reaches_step [OF step(12)], rule reaches_step [OF step(13)], rule reaches_refl)
qed

lemma loop_all:
  assumes "loaded bs mem" and "has_boot_code bs" and "i \<le> 99"
  shows "\<exists>al' ah' zf'. reaches mem clob (loop_state al ah zf st 0 []) (loop_state al' ah' zf' st i (map Print (take i boot_message)))"
  using assms(3)
proof (induction i)
  case 0
  show ?case by (intro exI [of _ al] exI [of _ ah] exI [of _ zf]) (simp add: reaches_refl)
next
  case (Suc i)
  then obtain al' ah' zf' where s1: "reaches mem clob (loop_state al ah zf st 0 []) (loop_state al' ah' zf' st i (map Print (take i boot_message)))"
    by auto
  from Suc.prems have "map Print (take (Suc i) boot_message) = map Print (take i boot_message) @ [Print (boot_message ! i)]"
    by (simp add: take_Suc_conv_app_nth)
  moreover note reaches_trans [OF s1 loop_round [OF assms(1,2)]] Suc.prems
  ultimately show ?case by (metis Suc_eq_plus1 Suc_le_lessD)
qed

lemma loop_end:
  assumes "loaded bs mem" and "has_boot_code bs"
  shows "\<exists>s'. reaches mem clob (loop_state al ah zf st 99 out) s' \<and> c_out s' = (out @ [Wait_key]) @ [Reboot]"
proof -
  note step = instructions [OF assms, where clob = clob]
  have "mem (16 * 0 + (0x7c71 + 99)) = 0" using message_at [OF assms, of 99] by (simp add: nth_append)
  then have 1: "cpu_step mem clob (loop_state al ah zf st 99 out) =
      Some \<lparr>c_ip = 0x7c5a, c_al = 0, c_ah = ah, c_si = 0x7cd5, c_ds = 0, c_zf = zf, c_stack = st, c_out = out\<rparr>"
    unfolding step(4) by simp
  have 2: "cpu_step mem clob \<lparr>c_ip = 0x7c5a, c_al = 0, c_ah = ah, c_si = 0x7cd5, c_ds = 0, c_zf = zf, c_stack = st, c_out = out\<rparr> =
      Some \<lparr>c_ip = 0x7c5c, c_al = 0, c_ah = ah, c_si = 0x7cd5, c_ds = 0, c_zf = True, c_stack = st, c_out = out\<rparr>"
    unfolding step(5) by simp
  have "reaches mem clob (loop_state al ah zf st 99 out)
      \<lparr>c_ip = 0x7c6d, c_al = 0, c_ah = 0, c_si = clob 0x7cd5, c_ds = 0, c_zf = True, c_stack = st, c_out = (out @ [Wait_key]) @ [Reboot]\<rparr>"
    by (rule reaches_step [OF 1], rule reaches_step [OF 2], rule reaches_step [OF step(6)], rule reaches_step [OF step(14)],
        rule reaches_step [OF step(15)], rule reaches_step [OF step(16)], rule reaches_refl)
  then show ?thesis by fastforce
qed

text \<open>
  C33: the boot code of the volume prints the message, waits for a key and starts the boot process again. This
  holds of the sector the formatter writes, loaded at its address, whatever the registers and the stack hold before
  and whatever the handlers called leave in \<^verbatim>\<open>SI\<close>.
\<close>

theorem boot_code_prints:
  assumes "boot_sector opts v m mm serial = Some bs" and "loaded bs mem" and "c_ip s = 0x7c00" and "c_out s = []"
  shows "\<exists>n s'. cpu_run n mem clob s = Some s' \<and> c_out s' = map Print boot_message @ [Wait_key, Reboot]"
proof -
  from assms(1) obtain cpm cpi where bs: "bs = boot_bytes opts v m mm cpm cpi serial"
    by (auto simp: boot_sector_def boot_bytes_def split: option.splits)
  have code: "has_boot_code bs"
    unfolding has_boot_code_def bs boot_bytes_fields(1)
    by (simp add: boot_bytes_fields(3)) (simp add: get_bytes_def boot_array_def str_bytes_def)
  note step = instructions [OF assms(2) code, where clob = clob]
  obtain al ah si ds zf st where s: "s = \<lparr>c_ip = 0x7c00, c_al = al, c_ah = ah, c_si = si, c_ds = ds, c_zf = zf, c_stack = st, c_out = []\<rparr>"
    using assms(3,4) by (cases s) simp
  have "get_bytes bs 0 3 = [0xeb, 0x52, 0x90]" using code by (simp add: has_boot_code_def)
  from get_bytes_nth [OF this, of 0] get_bytes_nth [OF this, of 1] have "mem 0x7c00 = 0xeb" "mem 0x7c01 = 0x52"
    using assms(2) [unfolded loaded_def, rule_format, of 0] assms(2) [unfolded loaded_def, rule_format, of 1] by simp_all
  then have jump: "cpu_step mem clob s = Some \<lparr>c_ip = 0x7c54, c_al = al, c_ah = ah, c_si = si, c_ds = ds, c_zf = zf, c_stack = st, c_out = []\<rparr>"
    by (simp add: s cpu_step_def rel8_def)
  have "reaches mem clob s (loop_state al ah zf st 0 [])"
    using step(3) by (intro reaches_step [OF jump] reaches_step [OF step(1)] reaches_step [OF step(2)] reaches_step [OF step(3)]) (simp add: reaches_refl)
  moreover obtain al' ah' zf' where "reaches mem clob (loop_state al ah zf st 0 []) (loop_state al' ah' zf' st 99 (map Print boot_message))"
    using loop_all [OF assms(2) code, of 99] by fastforce
  moreover obtain s' where "reaches mem clob (loop_state al' ah' zf' st 99 (map Print boot_message)) s'"
    "c_out s' = (map Print boot_message @ [Wait_key]) @ [Reboot]"
    using loop_end [OF assms(2) code] by blast
  ultimately have "reaches mem clob s s'" "c_out s' = map Print boot_message @ [Wait_key, Reboot]"
    using reaches_trans by (blast, simp)
  then show ?thesis unfolding reaches_def by blast
qed

text \<open>The one-gigabyte example's boot sector in an otherwise empty memory.\<close>

definition ex_memory :: "nat \<Rightarrow> byte" where
  "ex_memory a =
     (case boot_sector ex_opts' ex_vol_params 4 100 77 of
        Some bs \<Rightarrow> if 0x7c00 \<le> a \<and> a < 0x7c00 + 512 then bs ! (a - 0x7c00) else 0
      | None \<Rightarrow> 0)"

theorem boot_code_prints_witness:
  "\<exists>n s'. cpu_run n ex_memory (\<lambda>_. 0)
       \<lparr>c_ip = 0x7c00, c_al = 1, c_ah = 2, c_si = 3, c_ds = 4, c_zf = True, c_stack = [], c_out = []\<rparr> = Some s' \<and>
     c_out s' = map Print boot_message @ [Wait_key, Reboot]"
proof -
  have "geometry_ok ex_opts'" by (simp add: geometry_ok_def ex_opts'_def)
  then obtain bs where bs: "boot_sector ex_opts' ex_vol_params 4 100 77 = Some bs"
    using boot_sector_defined [OF ex_vol_ok] by blast
  then have "loaded bs ex_memory" by (simp add: loaded_def ex_memory_def)
  then show ?thesis by (rule boot_code_prints [OF bs]) simp_all
qed

end
