(* ===== verification/Attrdef.thy ===== *)
theory Attrdef
  imports Prelude
begin

text \<open>
  The table of attribute definitions that becomes \<^verbatim>\<open>$AttrDef\<close> (\<^verbatim>\<open>attrdef.c\<close>): sixteen entries of 160 bytes, each a
  name of up to 64 characters, the type, the flags, and the least and greatest size of a value.
\<close>

section \<open>The table\<close>

definition attrdef_0 :: "byte list" where
  "attrdef_0 =
     [0x24, 0x00, 0x53, 0x00, 0x54, 0x00, 0x41, 0x00, 0x4E, 0x00, 0x44, 0x00, 0x41, 0x00, 0x52, 0x00,
      0x44, 0x00, 0x5F, 0x00, 0x49, 0x00, 0x4E, 0x00, 0x46, 0x00, 0x4F, 0x00, 0x52, 0x00, 0x4D, 0x00,
      0x41, 0x00, 0x54, 0x00, 0x49, 0x00, 0x4F, 0x00, 0x4E, 0x00, 0x00, 0x00, 0x00, 0x00, 0x00, 0x00,
      0x00, 0x00, 0x00, 0x00, 0x00, 0x00, 0x00, 0x00, 0x00, 0x00, 0x00, 0x00, 0x00, 0x00, 0x00, 0x00,
      0x00, 0x00, 0x00, 0x00, 0x00, 0x00, 0x00, 0x00, 0x00, 0x00, 0x00, 0x00, 0x00, 0x00, 0x00, 0x00,
      0x00, 0x00, 0x00, 0x00, 0x00, 0x00, 0x00, 0x00, 0x00, 0x00, 0x00, 0x00, 0x00, 0x00, 0x00, 0x00,
      0x00, 0x00, 0x00, 0x00, 0x00, 0x00, 0x00, 0x00, 0x00, 0x00, 0x00, 0x00, 0x00, 0x00, 0x00, 0x00,
      0x00, 0x00, 0x00, 0x00, 0x00, 0x00, 0x00, 0x00, 0x00, 0x00, 0x00, 0x00, 0x00, 0x00, 0x00, 0x00,
      0x10, 0x00, 0x00, 0x00, 0x00, 0x00, 0x00, 0x00, 0x00, 0x00, 0x00, 0x00, 0x40, 0x00, 0x00, 0x00,
      0x30, 0x00, 0x00, 0x00, 0x00, 0x00, 0x00, 0x00, 0x48, 0x00, 0x00, 0x00, 0x00, 0x00, 0x00, 0x00]"

definition attrdef_1 :: "byte list" where
  "attrdef_1 =
     [0x24, 0x00, 0x41, 0x00, 0x54, 0x00, 0x54, 0x00, 0x52, 0x00, 0x49, 0x00, 0x42, 0x00, 0x55, 0x00,
      0x54, 0x00, 0x45, 0x00, 0x5F, 0x00, 0x4C, 0x00, 0x49, 0x00, 0x53, 0x00, 0x54, 0x00, 0x00, 0x00,
      0x00, 0x00, 0x00, 0x00, 0x00, 0x00, 0x00, 0x00, 0x00, 0x00, 0x00, 0x00, 0x00, 0x00, 0x00, 0x00,
      0x00, 0x00, 0x00, 0x00, 0x00, 0x00, 0x00, 0x00, 0x00, 0x00, 0x00, 0x00, 0x00, 0x00, 0x00, 0x00,
      0x00, 0x00, 0x00, 0x00, 0x00, 0x00, 0x00, 0x00, 0x00, 0x00, 0x00, 0x00, 0x00, 0x00, 0x00, 0x00,
      0x00, 0x00, 0x00, 0x00, 0x00, 0x00, 0x00, 0x00, 0x00, 0x00, 0x00, 0x00, 0x00, 0x00, 0x00, 0x00,
      0x00, 0x00, 0x00, 0x00, 0x00, 0x00, 0x00, 0x00, 0x00, 0x00, 0x00, 0x00, 0x00, 0x00, 0x00, 0x00,
      0x00, 0x00, 0x00, 0x00, 0x00, 0x00, 0x00, 0x00, 0x00, 0x00, 0x00, 0x00, 0x00, 0x00, 0x00, 0x00,
      0x20, 0x00, 0x00, 0x00, 0x00, 0x00, 0x00, 0x00, 0x00, 0x00, 0x00, 0x00, 0x80, 0x00, 0x00, 0x00,
      0x00, 0x00, 0x00, 0x00, 0x00, 0x00, 0x00, 0x00, 0xFF, 0xFF, 0xFF, 0xFF, 0xFF, 0xFF, 0xFF, 0xFF]"

definition attrdef_2 :: "byte list" where
  "attrdef_2 =
     [0x24, 0x00, 0x46, 0x00, 0x49, 0x00, 0x4C, 0x00, 0x45, 0x00, 0x5F, 0x00, 0x4E, 0x00, 0x41, 0x00,
      0x4D, 0x00, 0x45, 0x00, 0x00, 0x00, 0x00, 0x00, 0x00, 0x00, 0x00, 0x00, 0x00, 0x00, 0x00, 0x00,
      0x00, 0x00, 0x00, 0x00, 0x00, 0x00, 0x00, 0x00, 0x00, 0x00, 0x00, 0x00, 0x00, 0x00, 0x00, 0x00,
      0x00, 0x00, 0x00, 0x00, 0x00, 0x00, 0x00, 0x00, 0x00, 0x00, 0x00, 0x00, 0x00, 0x00, 0x00, 0x00,
      0x00, 0x00, 0x00, 0x00, 0x00, 0x00, 0x00, 0x00, 0x00, 0x00, 0x00, 0x00, 0x00, 0x00, 0x00, 0x00,
      0x00, 0x00, 0x00, 0x00, 0x00, 0x00, 0x00, 0x00, 0x00, 0x00, 0x00, 0x00, 0x00, 0x00, 0x00, 0x00,
      0x00, 0x00, 0x00, 0x00, 0x00, 0x00, 0x00, 0x00, 0x00, 0x00, 0x00, 0x00, 0x00, 0x00, 0x00, 0x00,
      0x00, 0x00, 0x00, 0x00, 0x00, 0x00, 0x00, 0x00, 0x00, 0x00, 0x00, 0x00, 0x00, 0x00, 0x00, 0x00,
      0x30, 0x00, 0x00, 0x00, 0x00, 0x00, 0x00, 0x00, 0x00, 0x00, 0x00, 0x00, 0x42, 0x00, 0x00, 0x00,
      0x44, 0x00, 0x00, 0x00, 0x00, 0x00, 0x00, 0x00, 0x42, 0x02, 0x00, 0x00, 0x00, 0x00, 0x00, 0x00]"

definition attrdef_3 :: "byte list" where
  "attrdef_3 =
     [0x24, 0x00, 0x4F, 0x00, 0x42, 0x00, 0x4A, 0x00, 0x45, 0x00, 0x43, 0x00, 0x54, 0x00, 0x5F, 0x00,
      0x49, 0x00, 0x44, 0x00, 0x00, 0x00, 0x00, 0x00, 0x00, 0x00, 0x00, 0x00, 0x00, 0x00, 0x00, 0x00,
      0x00, 0x00, 0x00, 0x00, 0x00, 0x00, 0x00, 0x00, 0x00, 0x00, 0x00, 0x00, 0x00, 0x00, 0x00, 0x00,
      0x00, 0x00, 0x00, 0x00, 0x00, 0x00, 0x00, 0x00, 0x00, 0x00, 0x00, 0x00, 0x00, 0x00, 0x00, 0x00,
      0x00, 0x00, 0x00, 0x00, 0x00, 0x00, 0x00, 0x00, 0x00, 0x00, 0x00, 0x00, 0x00, 0x00, 0x00, 0x00,
      0x00, 0x00, 0x00, 0x00, 0x00, 0x00, 0x00, 0x00, 0x00, 0x00, 0x00, 0x00, 0x00, 0x00, 0x00, 0x00,
      0x00, 0x00, 0x00, 0x00, 0x00, 0x00, 0x00, 0x00, 0x00, 0x00, 0x00, 0x00, 0x00, 0x00, 0x00, 0x00,
      0x00, 0x00, 0x00, 0x00, 0x00, 0x00, 0x00, 0x00, 0x00, 0x00, 0x00, 0x00, 0x00, 0x00, 0x00, 0x00,
      0x40, 0x00, 0x00, 0x00, 0x00, 0x00, 0x00, 0x00, 0x00, 0x00, 0x00, 0x00, 0x40, 0x00, 0x00, 0x00,
      0x00, 0x00, 0x00, 0x00, 0x00, 0x00, 0x00, 0x00, 0x00, 0x01, 0x00, 0x00, 0x00, 0x00, 0x00, 0x00]"

definition attrdef_4 :: "byte list" where
  "attrdef_4 =
     [0x24, 0x00, 0x53, 0x00, 0x45, 0x00, 0x43, 0x00, 0x55, 0x00, 0x52, 0x00, 0x49, 0x00, 0x54, 0x00,
      0x59, 0x00, 0x5F, 0x00, 0x44, 0x00, 0x45, 0x00, 0x53, 0x00, 0x43, 0x00, 0x52, 0x00, 0x49, 0x00,
      0x50, 0x00, 0x54, 0x00, 0x4F, 0x00, 0x52, 0x00, 0x00, 0x00, 0x00, 0x00, 0x00, 0x00, 0x00, 0x00,
      0x00, 0x00, 0x00, 0x00, 0x00, 0x00, 0x00, 0x00, 0x00, 0x00, 0x00, 0x00, 0x00, 0x00, 0x00, 0x00,
      0x00, 0x00, 0x00, 0x00, 0x00, 0x00, 0x00, 0x00, 0x00, 0x00, 0x00, 0x00, 0x00, 0x00, 0x00, 0x00,
      0x00, 0x00, 0x00, 0x00, 0x00, 0x00, 0x00, 0x00, 0x00, 0x00, 0x00, 0x00, 0x00, 0x00, 0x00, 0x00,
      0x00, 0x00, 0x00, 0x00, 0x00, 0x00, 0x00, 0x00, 0x00, 0x00, 0x00, 0x00, 0x00, 0x00, 0x00, 0x00,
      0x00, 0x00, 0x00, 0x00, 0x00, 0x00, 0x00, 0x00, 0x00, 0x00, 0x00, 0x00, 0x00, 0x00, 0x00, 0x00,
      0x50, 0x00, 0x00, 0x00, 0x00, 0x00, 0x00, 0x00, 0x00, 0x00, 0x00, 0x00, 0x80, 0x00, 0x00, 0x00,
      0x00, 0x00, 0x00, 0x00, 0x00, 0x00, 0x00, 0x00, 0xFF, 0xFF, 0xFF, 0xFF, 0xFF, 0xFF, 0xFF, 0xFF]"

definition attrdef_5 :: "byte list" where
  "attrdef_5 =
     [0x24, 0x00, 0x56, 0x00, 0x4F, 0x00, 0x4C, 0x00, 0x55, 0x00, 0x4D, 0x00, 0x45, 0x00, 0x5F, 0x00,
      0x4E, 0x00, 0x41, 0x00, 0x4D, 0x00, 0x45, 0x00, 0x00, 0x00, 0x00, 0x00, 0x00, 0x00, 0x00, 0x00,
      0x00, 0x00, 0x00, 0x00, 0x00, 0x00, 0x00, 0x00, 0x00, 0x00, 0x00, 0x00, 0x00, 0x00, 0x00, 0x00,
      0x00, 0x00, 0x00, 0x00, 0x00, 0x00, 0x00, 0x00, 0x00, 0x00, 0x00, 0x00, 0x00, 0x00, 0x00, 0x00,
      0x00, 0x00, 0x00, 0x00, 0x00, 0x00, 0x00, 0x00, 0x00, 0x00, 0x00, 0x00, 0x00, 0x00, 0x00, 0x00,
      0x00, 0x00, 0x00, 0x00, 0x00, 0x00, 0x00, 0x00, 0x00, 0x00, 0x00, 0x00, 0x00, 0x00, 0x00, 0x00,
      0x00, 0x00, 0x00, 0x00, 0x00, 0x00, 0x00, 0x00, 0x00, 0x00, 0x00, 0x00, 0x00, 0x00, 0x00, 0x00,
      0x00, 0x00, 0x00, 0x00, 0x00, 0x00, 0x00, 0x00, 0x00, 0x00, 0x00, 0x00, 0x00, 0x00, 0x00, 0x00,
      0x60, 0x00, 0x00, 0x00, 0x00, 0x00, 0x00, 0x00, 0x00, 0x00, 0x00, 0x00, 0x40, 0x00, 0x00, 0x00,
      0x02, 0x00, 0x00, 0x00, 0x00, 0x00, 0x00, 0x00, 0x00, 0x01, 0x00, 0x00, 0x00, 0x00, 0x00, 0x00]"

definition attrdef_6 :: "byte list" where
  "attrdef_6 =
     [0x24, 0x00, 0x56, 0x00, 0x4F, 0x00, 0x4C, 0x00, 0x55, 0x00, 0x4D, 0x00, 0x45, 0x00, 0x5F, 0x00,
      0x49, 0x00, 0x4E, 0x00, 0x46, 0x00, 0x4F, 0x00, 0x52, 0x00, 0x4D, 0x00, 0x41, 0x00, 0x54, 0x00,
      0x49, 0x00, 0x4F, 0x00, 0x4E, 0x00, 0x00, 0x00, 0x00, 0x00, 0x00, 0x00, 0x00, 0x00, 0x00, 0x00,
      0x00, 0x00, 0x00, 0x00, 0x00, 0x00, 0x00, 0x00, 0x00, 0x00, 0x00, 0x00, 0x00, 0x00, 0x00, 0x00,
      0x00, 0x00, 0x00, 0x00, 0x00, 0x00, 0x00, 0x00, 0x00, 0x00, 0x00, 0x00, 0x00, 0x00, 0x00, 0x00,
      0x00, 0x00, 0x00, 0x00, 0x00, 0x00, 0x00, 0x00, 0x00, 0x00, 0x00, 0x00, 0x00, 0x00, 0x00, 0x00,
      0x00, 0x00, 0x00, 0x00, 0x00, 0x00, 0x00, 0x00, 0x00, 0x00, 0x00, 0x00, 0x00, 0x00, 0x00, 0x00,
      0x00, 0x00, 0x00, 0x00, 0x00, 0x00, 0x00, 0x00, 0x00, 0x00, 0x00, 0x00, 0x00, 0x00, 0x00, 0x00,
      0x70, 0x00, 0x00, 0x00, 0x00, 0x00, 0x00, 0x00, 0x00, 0x00, 0x00, 0x00, 0x40, 0x00, 0x00, 0x00,
      0x0C, 0x00, 0x00, 0x00, 0x00, 0x00, 0x00, 0x00, 0x0C, 0x00, 0x00, 0x00, 0x00, 0x00, 0x00, 0x00]"

definition attrdef_7 :: "byte list" where
  "attrdef_7 =
     [0x24, 0x00, 0x44, 0x00, 0x41, 0x00, 0x54, 0x00, 0x41, 0x00, 0x00, 0x00, 0x00, 0x00, 0x00, 0x00,
      0x00, 0x00, 0x00, 0x00, 0x00, 0x00, 0x00, 0x00, 0x00, 0x00, 0x00, 0x00, 0x00, 0x00, 0x00, 0x00,
      0x00, 0x00, 0x00, 0x00, 0x00, 0x00, 0x00, 0x00, 0x00, 0x00, 0x00, 0x00, 0x00, 0x00, 0x00, 0x00,
      0x00, 0x00, 0x00, 0x00, 0x00, 0x00, 0x00, 0x00, 0x00, 0x00, 0x00, 0x00, 0x00, 0x00, 0x00, 0x00,
      0x00, 0x00, 0x00, 0x00, 0x00, 0x00, 0x00, 0x00, 0x00, 0x00, 0x00, 0x00, 0x00, 0x00, 0x00, 0x00,
      0x00, 0x00, 0x00, 0x00, 0x00, 0x00, 0x00, 0x00, 0x00, 0x00, 0x00, 0x00, 0x00, 0x00, 0x00, 0x00,
      0x00, 0x00, 0x00, 0x00, 0x00, 0x00, 0x00, 0x00, 0x00, 0x00, 0x00, 0x00, 0x00, 0x00, 0x00, 0x00,
      0x00, 0x00, 0x00, 0x00, 0x00, 0x00, 0x00, 0x00, 0x00, 0x00, 0x00, 0x00, 0x00, 0x00, 0x00, 0x00,
      0x80, 0x00, 0x00, 0x00, 0x00, 0x00, 0x00, 0x00, 0x00, 0x00, 0x00, 0x00, 0x00, 0x00, 0x00, 0x00,
      0x00, 0x00, 0x00, 0x00, 0x00, 0x00, 0x00, 0x00, 0xFF, 0xFF, 0xFF, 0xFF, 0xFF, 0xFF, 0xFF, 0xFF]"

definition attrdef_8 :: "byte list" where
  "attrdef_8 =
     [0x24, 0x00, 0x49, 0x00, 0x4E, 0x00, 0x44, 0x00, 0x45, 0x00, 0x58, 0x00, 0x5F, 0x00, 0x52, 0x00,
      0x4F, 0x00, 0x4F, 0x00, 0x54, 0x00, 0x00, 0x00, 0x00, 0x00, 0x00, 0x00, 0x00, 0x00, 0x00, 0x00,
      0x00, 0x00, 0x00, 0x00, 0x00, 0x00, 0x00, 0x00, 0x00, 0x00, 0x00, 0x00, 0x00, 0x00, 0x00, 0x00,
      0x00, 0x00, 0x00, 0x00, 0x00, 0x00, 0x00, 0x00, 0x00, 0x00, 0x00, 0x00, 0x00, 0x00, 0x00, 0x00,
      0x00, 0x00, 0x00, 0x00, 0x00, 0x00, 0x00, 0x00, 0x00, 0x00, 0x00, 0x00, 0x00, 0x00, 0x00, 0x00,
      0x00, 0x00, 0x00, 0x00, 0x00, 0x00, 0x00, 0x00, 0x00, 0x00, 0x00, 0x00, 0x00, 0x00, 0x00, 0x00,
      0x00, 0x00, 0x00, 0x00, 0x00, 0x00, 0x00, 0x00, 0x00, 0x00, 0x00, 0x00, 0x00, 0x00, 0x00, 0x00,
      0x00, 0x00, 0x00, 0x00, 0x00, 0x00, 0x00, 0x00, 0x00, 0x00, 0x00, 0x00, 0x00, 0x00, 0x00, 0x00,
      0x90, 0x00, 0x00, 0x00, 0x00, 0x00, 0x00, 0x00, 0x00, 0x00, 0x00, 0x00, 0x40, 0x00, 0x00, 0x00,
      0x00, 0x00, 0x00, 0x00, 0x00, 0x00, 0x00, 0x00, 0xFF, 0xFF, 0xFF, 0xFF, 0xFF, 0xFF, 0xFF, 0xFF]"

definition attrdef_9 :: "byte list" where
  "attrdef_9 =
     [0x24, 0x00, 0x49, 0x00, 0x4E, 0x00, 0x44, 0x00, 0x45, 0x00, 0x58, 0x00, 0x5F, 0x00, 0x41, 0x00,
      0x4C, 0x00, 0x4C, 0x00, 0x4F, 0x00, 0x43, 0x00, 0x41, 0x00, 0x54, 0x00, 0x49, 0x00, 0x4F, 0x00,
      0x4E, 0x00, 0x00, 0x00, 0x00, 0x00, 0x00, 0x00, 0x00, 0x00, 0x00, 0x00, 0x00, 0x00, 0x00, 0x00,
      0x00, 0x00, 0x00, 0x00, 0x00, 0x00, 0x00, 0x00, 0x00, 0x00, 0x00, 0x00, 0x00, 0x00, 0x00, 0x00,
      0x00, 0x00, 0x00, 0x00, 0x00, 0x00, 0x00, 0x00, 0x00, 0x00, 0x00, 0x00, 0x00, 0x00, 0x00, 0x00,
      0x00, 0x00, 0x00, 0x00, 0x00, 0x00, 0x00, 0x00, 0x00, 0x00, 0x00, 0x00, 0x00, 0x00, 0x00, 0x00,
      0x00, 0x00, 0x00, 0x00, 0x00, 0x00, 0x00, 0x00, 0x00, 0x00, 0x00, 0x00, 0x00, 0x00, 0x00, 0x00,
      0x00, 0x00, 0x00, 0x00, 0x00, 0x00, 0x00, 0x00, 0x00, 0x00, 0x00, 0x00, 0x00, 0x00, 0x00, 0x00,
      0xA0, 0x00, 0x00, 0x00, 0x00, 0x00, 0x00, 0x00, 0x00, 0x00, 0x00, 0x00, 0x80, 0x00, 0x00, 0x00,
      0x00, 0x00, 0x00, 0x00, 0x00, 0x00, 0x00, 0x00, 0xFF, 0xFF, 0xFF, 0xFF, 0xFF, 0xFF, 0xFF, 0xFF]"

definition attrdef_10 :: "byte list" where
  "attrdef_10 =
     [0x24, 0x00, 0x42, 0x00, 0x49, 0x00, 0x54, 0x00, 0x4D, 0x00, 0x41, 0x00, 0x50, 0x00, 0x00, 0x00,
      0x00, 0x00, 0x00, 0x00, 0x00, 0x00, 0x00, 0x00, 0x00, 0x00, 0x00, 0x00, 0x00, 0x00, 0x00, 0x00,
      0x00, 0x00, 0x00, 0x00, 0x00, 0x00, 0x00, 0x00, 0x00, 0x00, 0x00, 0x00, 0x00, 0x00, 0x00, 0x00,
      0x00, 0x00, 0x00, 0x00, 0x00, 0x00, 0x00, 0x00, 0x00, 0x00, 0x00, 0x00, 0x00, 0x00, 0x00, 0x00,
      0x00, 0x00, 0x00, 0x00, 0x00, 0x00, 0x00, 0x00, 0x00, 0x00, 0x00, 0x00, 0x00, 0x00, 0x00, 0x00,
      0x00, 0x00, 0x00, 0x00, 0x00, 0x00, 0x00, 0x00, 0x00, 0x00, 0x00, 0x00, 0x00, 0x00, 0x00, 0x00,
      0x00, 0x00, 0x00, 0x00, 0x00, 0x00, 0x00, 0x00, 0x00, 0x00, 0x00, 0x00, 0x00, 0x00, 0x00, 0x00,
      0x00, 0x00, 0x00, 0x00, 0x00, 0x00, 0x00, 0x00, 0x00, 0x00, 0x00, 0x00, 0x00, 0x00, 0x00, 0x00,
      0xB0, 0x00, 0x00, 0x00, 0x00, 0x00, 0x00, 0x00, 0x00, 0x00, 0x00, 0x00, 0x80, 0x00, 0x00, 0x00,
      0x00, 0x00, 0x00, 0x00, 0x00, 0x00, 0x00, 0x00, 0xFF, 0xFF, 0xFF, 0xFF, 0xFF, 0xFF, 0xFF, 0xFF]"

definition attrdef_11 :: "byte list" where
  "attrdef_11 =
     [0x24, 0x00, 0x52, 0x00, 0x45, 0x00, 0x50, 0x00, 0x41, 0x00, 0x52, 0x00, 0x53, 0x00, 0x45, 0x00,
      0x5F, 0x00, 0x50, 0x00, 0x4F, 0x00, 0x49, 0x00, 0x4E, 0x00, 0x54, 0x00, 0x00, 0x00, 0x00, 0x00,
      0x00, 0x00, 0x00, 0x00, 0x00, 0x00, 0x00, 0x00, 0x00, 0x00, 0x00, 0x00, 0x00, 0x00, 0x00, 0x00,
      0x00, 0x00, 0x00, 0x00, 0x00, 0x00, 0x00, 0x00, 0x00, 0x00, 0x00, 0x00, 0x00, 0x00, 0x00, 0x00,
      0x00, 0x00, 0x00, 0x00, 0x00, 0x00, 0x00, 0x00, 0x00, 0x00, 0x00, 0x00, 0x00, 0x00, 0x00, 0x00,
      0x00, 0x00, 0x00, 0x00, 0x00, 0x00, 0x00, 0x00, 0x00, 0x00, 0x00, 0x00, 0x00, 0x00, 0x00, 0x00,
      0x00, 0x00, 0x00, 0x00, 0x00, 0x00, 0x00, 0x00, 0x00, 0x00, 0x00, 0x00, 0x00, 0x00, 0x00, 0x00,
      0x00, 0x00, 0x00, 0x00, 0x00, 0x00, 0x00, 0x00, 0x00, 0x00, 0x00, 0x00, 0x00, 0x00, 0x00, 0x00,
      0xC0, 0x00, 0x00, 0x00, 0x00, 0x00, 0x00, 0x00, 0x00, 0x00, 0x00, 0x00, 0x80, 0x00, 0x00, 0x00,
      0x00, 0x00, 0x00, 0x00, 0x00, 0x00, 0x00, 0x00, 0x00, 0x40, 0x00, 0x00, 0x00, 0x00, 0x00, 0x00]"

definition attrdef_12 :: "byte list" where
  "attrdef_12 =
     [0x24, 0x00, 0x45, 0x00, 0x41, 0x00, 0x5F, 0x00, 0x49, 0x00, 0x4E, 0x00, 0x46, 0x00, 0x4F, 0x00,
      0x52, 0x00, 0x4D, 0x00, 0x41, 0x00, 0x54, 0x00, 0x49, 0x00, 0x4F, 0x00, 0x4E, 0x00, 0x00, 0x00,
      0x00, 0x00, 0x00, 0x00, 0x00, 0x00, 0x00, 0x00, 0x00, 0x00, 0x00, 0x00, 0x00, 0x00, 0x00, 0x00,
      0x00, 0x00, 0x00, 0x00, 0x00, 0x00, 0x00, 0x00, 0x00, 0x00, 0x00, 0x00, 0x00, 0x00, 0x00, 0x00,
      0x00, 0x00, 0x00, 0x00, 0x00, 0x00, 0x00, 0x00, 0x00, 0x00, 0x00, 0x00, 0x00, 0x00, 0x00, 0x00,
      0x00, 0x00, 0x00, 0x00, 0x00, 0x00, 0x00, 0x00, 0x00, 0x00, 0x00, 0x00, 0x00, 0x00, 0x00, 0x00,
      0x00, 0x00, 0x00, 0x00, 0x00, 0x00, 0x00, 0x00, 0x00, 0x00, 0x00, 0x00, 0x00, 0x00, 0x00, 0x00,
      0x00, 0x00, 0x00, 0x00, 0x00, 0x00, 0x00, 0x00, 0x00, 0x00, 0x00, 0x00, 0x00, 0x00, 0x00, 0x00,
      0xD0, 0x00, 0x00, 0x00, 0x00, 0x00, 0x00, 0x00, 0x00, 0x00, 0x00, 0x00, 0x40, 0x00, 0x00, 0x00,
      0x08, 0x00, 0x00, 0x00, 0x00, 0x00, 0x00, 0x00, 0x08, 0x00, 0x00, 0x00, 0x00, 0x00, 0x00, 0x00]"

definition attrdef_13 :: "byte list" where
  "attrdef_13 =
     [0x24, 0x00, 0x45, 0x00, 0x41, 0x00, 0x00, 0x00, 0x00, 0x00, 0x00, 0x00, 0x00, 0x00, 0x00, 0x00,
      0x00, 0x00, 0x00, 0x00, 0x00, 0x00, 0x00, 0x00, 0x00, 0x00, 0x00, 0x00, 0x00, 0x00, 0x00, 0x00,
      0x00, 0x00, 0x00, 0x00, 0x00, 0x00, 0x00, 0x00, 0x00, 0x00, 0x00, 0x00, 0x00, 0x00, 0x00, 0x00,
      0x00, 0x00, 0x00, 0x00, 0x00, 0x00, 0x00, 0x00, 0x00, 0x00, 0x00, 0x00, 0x00, 0x00, 0x00, 0x00,
      0x00, 0x00, 0x00, 0x00, 0x00, 0x00, 0x00, 0x00, 0x00, 0x00, 0x00, 0x00, 0x00, 0x00, 0x00, 0x00,
      0x00, 0x00, 0x00, 0x00, 0x00, 0x00, 0x00, 0x00, 0x00, 0x00, 0x00, 0x00, 0x00, 0x00, 0x00, 0x00,
      0x00, 0x00, 0x00, 0x00, 0x00, 0x00, 0x00, 0x00, 0x00, 0x00, 0x00, 0x00, 0x00, 0x00, 0x00, 0x00,
      0x00, 0x00, 0x00, 0x00, 0x00, 0x00, 0x00, 0x00, 0x00, 0x00, 0x00, 0x00, 0x00, 0x00, 0x00, 0x00,
      0xE0, 0x00, 0x00, 0x00, 0x00, 0x00, 0x00, 0x00, 0x00, 0x00, 0x00, 0x00, 0x00, 0x00, 0x00, 0x00,
      0x00, 0x00, 0x00, 0x00, 0x00, 0x00, 0x00, 0x00, 0x00, 0x00, 0x01, 0x00, 0x00, 0x00, 0x00, 0x00]"

definition attrdef_14 :: "byte list" where
  "attrdef_14 =
     [0x24, 0x00, 0x4C, 0x00, 0x4F, 0x00, 0x47, 0x00, 0x47, 0x00, 0x45, 0x00, 0x44, 0x00, 0x5F, 0x00,
      0x55, 0x00, 0x54, 0x00, 0x49, 0x00, 0x4C, 0x00, 0x49, 0x00, 0x54, 0x00, 0x59, 0x00, 0x5F, 0x00,
      0x53, 0x00, 0x54, 0x00, 0x52, 0x00, 0x45, 0x00, 0x41, 0x00, 0x4D, 0x00, 0x00, 0x00, 0x00, 0x00,
      0x00, 0x00, 0x00, 0x00, 0x00, 0x00, 0x00, 0x00, 0x00, 0x00, 0x00, 0x00, 0x00, 0x00, 0x00, 0x00,
      0x00, 0x00, 0x00, 0x00, 0x00, 0x00, 0x00, 0x00, 0x00, 0x00, 0x00, 0x00, 0x00, 0x00, 0x00, 0x00,
      0x00, 0x00, 0x00, 0x00, 0x00, 0x00, 0x00, 0x00, 0x00, 0x00, 0x00, 0x00, 0x00, 0x00, 0x00, 0x00,
      0x00, 0x00, 0x00, 0x00, 0x00, 0x00, 0x00, 0x00, 0x00, 0x00, 0x00, 0x00, 0x00, 0x00, 0x00, 0x00,
      0x00, 0x00, 0x00, 0x00, 0x00, 0x00, 0x00, 0x00, 0x00, 0x00, 0x00, 0x00, 0x00, 0x00, 0x00, 0x00,
      0x00, 0x01, 0x00, 0x00, 0x00, 0x00, 0x00, 0x00, 0x00, 0x00, 0x00, 0x00, 0x80, 0x00, 0x00, 0x00,
      0x00, 0x00, 0x00, 0x00, 0x00, 0x00, 0x00, 0x00, 0x00, 0x00, 0x01, 0x00, 0x00, 0x00, 0x00, 0x00]"

definition attrdef_15 :: "byte list" where
  "attrdef_15 =
     [0x00, 0x00, 0x00, 0x00, 0x00, 0x00, 0x00, 0x00, 0x00, 0x00, 0x00, 0x00, 0x00, 0x00, 0x00, 0x00,
      0x00, 0x00, 0x00, 0x00, 0x00, 0x00, 0x00, 0x00, 0x00, 0x00, 0x00, 0x00, 0x00, 0x00, 0x00, 0x00,
      0x00, 0x00, 0x00, 0x00, 0x00, 0x00, 0x00, 0x00, 0x00, 0x00, 0x00, 0x00, 0x00, 0x00, 0x00, 0x00,
      0x00, 0x00, 0x00, 0x00, 0x00, 0x00, 0x00, 0x00, 0x00, 0x00, 0x00, 0x00, 0x00, 0x00, 0x00, 0x00,
      0x00, 0x00, 0x00, 0x00, 0x00, 0x00, 0x00, 0x00, 0x00, 0x00, 0x00, 0x00, 0x00, 0x00, 0x00, 0x00,
      0x00, 0x00, 0x00, 0x00, 0x00, 0x00, 0x00, 0x00, 0x00, 0x00, 0x00, 0x00, 0x00, 0x00, 0x00, 0x00,
      0x00, 0x00, 0x00, 0x00, 0x00, 0x00, 0x00, 0x00, 0x00, 0x00, 0x00, 0x00, 0x00, 0x00, 0x00, 0x00,
      0x00, 0x00, 0x00, 0x00, 0x00, 0x00, 0x00, 0x00, 0x00, 0x00, 0x00, 0x00, 0x00, 0x00, 0x00, 0x00,
      0x00, 0x00, 0x00, 0x00, 0x00, 0x00, 0x00, 0x00, 0x00, 0x00, 0x00, 0x00, 0x00, 0x00, 0x00, 0x00,
      0x00, 0x00, 0x00, 0x00, 0x00, 0x00, 0x00, 0x00, 0x00, 0x00, 0x00, 0x00, 0x00, 0x00, 0x00, 0x00]"

definition attrdef_ntfs3x_array :: "byte list" where
  "attrdef_ntfs3x_array =
     concat [attrdef_0, attrdef_1, attrdef_2, attrdef_3, attrdef_4, attrdef_5, attrdef_6, attrdef_7, attrdef_8, attrdef_9,
       attrdef_10, attrdef_11, attrdef_12, attrdef_13, attrdef_14, attrdef_15]"

section \<open>What it says\<close>

record attr_def =
  ad_name :: string
  ad_type :: nat
  ad_flags :: nat
  ad_min :: nat
  ad_max :: nat

definition attr_defs :: "attr_def list" where
  "attr_defs =
     [\<lparr>ad_name = ''$STANDARD_INFORMATION'', ad_type = 0x10, ad_flags = 0x40, ad_min = 0x30, ad_max = 0x48\<rparr>,
      \<lparr>ad_name = ''$ATTRIBUTE_LIST'', ad_type = 0x20, ad_flags = 0x80, ad_min = 0x0, ad_max = 2 ^ 64 - 1\<rparr>,
      \<lparr>ad_name = ''$FILE_NAME'', ad_type = 0x30, ad_flags = 0x42, ad_min = 0x44, ad_max = 0x242\<rparr>,
      \<lparr>ad_name = ''$OBJECT_ID'', ad_type = 0x40, ad_flags = 0x40, ad_min = 0x0, ad_max = 0x100\<rparr>,
      \<lparr>ad_name = ''$SECURITY_DESCRIPTOR'', ad_type = 0x50, ad_flags = 0x80, ad_min = 0x0, ad_max = 2 ^ 64 - 1\<rparr>,
      \<lparr>ad_name = ''$VOLUME_NAME'', ad_type = 0x60, ad_flags = 0x40, ad_min = 0x2, ad_max = 0x100\<rparr>,
      \<lparr>ad_name = ''$VOLUME_INFORMATION'', ad_type = 0x70, ad_flags = 0x40, ad_min = 0xc, ad_max = 0xc\<rparr>,
      \<lparr>ad_name = ''$DATA'', ad_type = 0x80, ad_flags = 0x0, ad_min = 0x0, ad_max = 2 ^ 64 - 1\<rparr>,
      \<lparr>ad_name = ''$INDEX_ROOT'', ad_type = 0x90, ad_flags = 0x40, ad_min = 0x0, ad_max = 2 ^ 64 - 1\<rparr>,
      \<lparr>ad_name = ''$INDEX_ALLOCATION'', ad_type = 0xa0, ad_flags = 0x80, ad_min = 0x0, ad_max = 2 ^ 64 - 1\<rparr>,
      \<lparr>ad_name = ''$BITMAP'', ad_type = 0xb0, ad_flags = 0x80, ad_min = 0x0, ad_max = 2 ^ 64 - 1\<rparr>,
      \<lparr>ad_name = ''$REPARSE_POINT'', ad_type = 0xc0, ad_flags = 0x80, ad_min = 0x0, ad_max = 0x4000\<rparr>,
      \<lparr>ad_name = ''$EA_INFORMATION'', ad_type = 0xd0, ad_flags = 0x40, ad_min = 0x8, ad_max = 0x8\<rparr>,
      \<lparr>ad_name = ''$EA'', ad_type = 0xe0, ad_flags = 0x0, ad_min = 0x0, ad_max = 0x10000\<rparr>,
      \<lparr>ad_name = ''$LOGGED_UTILITY_STREAM'', ad_type = 0x100, ad_flags = 0x80, ad_min = 0x0, ad_max = 0x10000\<rparr>,
      \<lparr>ad_name = '''', ad_type = 0x0, ad_flags = 0x0, ad_min = 0x0, ad_max = 0x0\<rparr>]"

definition attr_def_bytes :: "attr_def \<Rightarrow> byte list" where
  "attr_def_bytes d =
     (let n = concat (map (\<lambda>c. [of_char c, 0]) (ad_name d)) in
      n @ replicate (128 - length n) 0 @ le_bytes 4 (ad_type d) @ le_bytes 8 0 @ le_bytes 4 (ad_flags d) @
      le_bytes 8 (ad_min d) @ le_bytes 8 (ad_max d))"

lemma le_bytes_zero: "le_bytes n 0 = replicate n 0"
  by (induction n) simp_all

lemma replicate_step: "replicate (numeral k) x = x # replicate (pred_numeral k) x"
  by (simp only: numeral_eq_Suc [of k] replicate.simps)

lemmas attr_def_simps = attr_def_bytes_def attr_defs_def le_bytes_numeral le_bytes_zero replicate_step Let_def

lemma attrdef_entry_0: "attrdef_0 = attr_def_bytes (attr_defs ! 0)"
  by (simp add: attr_def_simps attrdef_0_def)

lemma attrdef_entry_1: "attrdef_1 = attr_def_bytes (attr_defs ! 1)"
  by (simp add: attr_def_simps attrdef_1_def)

lemma attrdef_entry_2: "attrdef_2 = attr_def_bytes (attr_defs ! 2)"
  by (simp add: attr_def_simps attrdef_2_def)

lemma attrdef_entry_3: "attrdef_3 = attr_def_bytes (attr_defs ! 3)"
  by (simp add: attr_def_simps attrdef_3_def)

lemma attrdef_entry_4: "attrdef_4 = attr_def_bytes (attr_defs ! 4)"
  by (simp add: attr_def_simps attrdef_4_def)

lemma attrdef_entry_5: "attrdef_5 = attr_def_bytes (attr_defs ! 5)"
  by (simp add: attr_def_simps attrdef_5_def)

lemma attrdef_entry_6: "attrdef_6 = attr_def_bytes (attr_defs ! 6)"
  by (simp add: attr_def_simps attrdef_6_def)

lemma attrdef_entry_7: "attrdef_7 = attr_def_bytes (attr_defs ! 7)"
  by (simp add: attr_def_simps attrdef_7_def)

lemma attrdef_entry_8: "attrdef_8 = attr_def_bytes (attr_defs ! 8)"
  by (simp add: attr_def_simps attrdef_8_def)

lemma attrdef_entry_9: "attrdef_9 = attr_def_bytes (attr_defs ! 9)"
  by (simp add: attr_def_simps attrdef_9_def)

lemma attrdef_entry_10: "attrdef_10 = attr_def_bytes (attr_defs ! 10)"
  by (simp add: attr_def_simps attrdef_10_def)

lemma attrdef_entry_11: "attrdef_11 = attr_def_bytes (attr_defs ! 11)"
  by (simp add: attr_def_simps attrdef_11_def)

lemma attrdef_entry_12: "attrdef_12 = attr_def_bytes (attr_defs ! 12)"
  by (simp add: attr_def_simps attrdef_12_def)

lemma attrdef_entry_13: "attrdef_13 = attr_def_bytes (attr_defs ! 13)"
  by (simp add: attr_def_simps attrdef_13_def)

lemma attrdef_entry_14: "attrdef_14 = attr_def_bytes (attr_defs ! 14)"
  by (simp add: attr_def_simps attrdef_14_def)

lemma attrdef_entry_15: "attrdef_15 = attr_def_bytes (attr_defs ! 15)"
  by (simp add: attr_def_simps attrdef_15_def)

lemmas attrdef_entries = attrdef_entry_0 attrdef_entry_1 attrdef_entry_2 attrdef_entry_3 attrdef_entry_4 attrdef_entry_5
  attrdef_entry_6 attrdef_entry_7 attrdef_entry_8 attrdef_entry_9 attrdef_entry_10 attrdef_entry_11 attrdef_entry_12
  attrdef_entry_13 attrdef_entry_14 attrdef_entry_15

lemma attrdef_table: "attrdef_ntfs3x_array = concat (map attr_def_bytes attr_defs)"
  unfolding attrdef_ntfs3x_array_def attrdef_entries by (simp add: attr_defs_def)

text \<open>A reader of one entry, and of a table.\<close>

definition read_attr_def :: "byte list \<Rightarrow> attr_def" where
  "read_attr_def e =
     \<lparr>ad_name = map (\<lambda>b. char_of (unat b)) (takeWhile (\<lambda>b. b \<noteq> 0) (map (\<lambda>j. e ! (2 * j)) [0..<64])), ad_type = get_le e 0x80 4,
      ad_flags = get_le e 0x8c 4, ad_min = get_le e 0x90 8, ad_max = get_le e 0x98 8\<rparr>"

fun read_table :: "byte list \<Rightarrow> attr_def list" where
  "read_table [] = []"
| "read_table (b # bs) = read_attr_def (take 160 (b # bs)) # read_table (drop 159 bs)"

definition attr_def_ok :: "attr_def \<Rightarrow> bool" where
  "attr_def_ok d \<longleftrightarrow> length (ad_name d) < 64 \<and> (\<forall>c \<in> set (ad_name d). of_char c \<noteq> (0 :: byte)) \<and> ad_type d < 2 ^ 32 \<and>
     ad_flags d < 2 ^ 32 \<and> ad_min d < 2 ^ 64 \<and> ad_max d < 2 ^ 64"

lemma length_wide [simp]: "length (concat (map (\<lambda>c. [of_char c, 0]) s)) = 2 * length s"
  by (induction s) simp_all

lemma nth_wide: "j < length s \<Longrightarrow> concat (map (\<lambda>c. [of_char c, 0 :: byte]) s) ! (2 * j) = of_char (s ! j)"
proof (induction s arbitrary: j)
  case Nil
  then show ?case by simp
next
  case (Cons c s)
  then show ?case by (cases j) simp_all
qed

lemma char_of_byte: "char_of (unat (of_char c :: byte)) = c"
proof -
  have "(of_char c :: byte) = word_of_nat (of_char c)" by (simp add: of_nat_of_char)
  moreover have "(of_char c :: nat) < 256" by simp
  ultimately have "unat (of_char c :: byte) = of_char c" by (simp only: unat_byte_of_nat)
  then show ?thesis by simp
qed

lemma length_attr_def_bytes: "attr_def_ok d \<Longrightarrow> length (attr_def_bytes d) = 160"
  by (simp add: attr_def_bytes_def attr_def_ok_def Let_def)

lemma read_name:
  assumes "attr_def_ok d"
  shows "map (\<lambda>b. char_of (unat b)) (takeWhile (\<lambda>b. b \<noteq> 0) (map (\<lambda>j. attr_def_bytes d ! (2 * j)) [0..<64])) = ad_name d"
proof -
  let ?s = "ad_name d" let ?n = "concat (map (\<lambda>c. [of_char c, 0 :: byte]) ?s)"
  have len: "length ?s < 64" using assms by (simp add: attr_def_ok_def)
  have j: "attr_def_bytes d ! (2 * j) = (if j < length ?s then of_char (?s ! j) else 0)" if "j < 64" for j
    using that len diff_less_mono [of "2 * j" 128 "2 * length ?s"] by (auto simp: attr_def_bytes_def Let_def nth_append nth_wide)
  have "map (\<lambda>j. attr_def_bytes d ! (2 * j)) [0..<64] = map of_char ?s @ replicate (64 - length ?s) 0"
    using len by (intro nth_equalityI) (simp_all add: j nth_append)
  moreover have "takeWhile (\<lambda>b. b \<noteq> 0) (map of_char ?s @ replicate (64 - length ?s) (0 :: byte)) = map of_char ?s"
    using assms len by (subst takeWhile_append2) (auto simp: attr_def_ok_def takeWhile_eq_Nil_iff)
  ultimately show ?thesis by (simp add: char_of_byte comp_def)
qed

lemma read_attr_def_bytes:
  assumes "attr_def_ok d"
  shows "read_attr_def (attr_def_bytes d) = d"
proof -
  let ?n = "concat (map (\<lambda>c. [of_char c, 0 :: byte]) (ad_name d))"
  let ?p = "?n @ replicate (128 - length ?n) 0"
  have b: "attr_def_bytes d = ?p @ le_bytes 4 (ad_type d) @ le_bytes 8 0 @ le_bytes 4 (ad_flags d) @ le_bytes 8 (ad_min d) @ le_bytes 8 (ad_max d)"
    by (simp add: attr_def_bytes_def Let_def)
  have p: "length ?p = 128" using assms by (simp add: attr_def_ok_def)
  have "get_le (attr_def_bytes d) 0x80 4 = ad_type d" "get_le (attr_def_bytes d) 0x8c 4 = ad_flags d"
    "get_le (attr_def_bytes d) 0x90 8 = ad_min d" "get_le (attr_def_bytes d) 0x98 8 = ad_max d"
    using assms unfolding b get_le_def get_bytes_def attr_def_ok_def
    by (simp_all only: drop_append take_append p length_le_bytes) (simp_all add: attr_def_ok_def)
  then show ?thesis using read_name [OF assms] by (simp add: read_attr_def_def)
qed

lemma read_table_concat: "\<forall>d \<in> set ds. attr_def_ok d \<Longrightarrow> read_table (concat (map attr_def_bytes ds)) = ds"
proof (induction ds)
  case Nil
  then show ?case by simp
next
  case (Cons d ds)
  then have len: "length (attr_def_bytes d) = 160" by (simp add: length_attr_def_bytes)
  then obtain b bs where b: "attr_def_bytes d = b # bs" "length bs = 159" by (cases "attr_def_bytes d") auto
  have "read_table (concat (map attr_def_bytes (d # ds))) = read_attr_def (b # bs) # read_table (concat (map attr_def_bytes ds))"
    using b by simp
  then show ?case using Cons b read_attr_def_bytes [of d] by simp
qed

text \<open>A value of \<open>n\<close> bytes is allowed for an attribute of type \<open>t\<close> by a table.\<close>

definition table_allows :: "byte list \<Rightarrow> nat \<Rightarrow> nat \<Rightarrow> bool" where
  "table_allows tab t n = list_ex (\<lambda>d. ad_type d = t \<and> ad_min d \<le> n \<and> n \<le> ad_max d) (read_table tab)"

lemma read_attrdef: "read_table attrdef_ntfs3x_array = attr_defs"
  unfolding attrdef_table by (rule read_table_concat) (simp add: attr_defs_def attr_def_ok_def)

end
