(* ===== verification/Root_Files.thy ===== *)
theory Root_Files
  imports Dir_Links Boot Attrdef
begin

text \<open>
  The creation of the system files: \<^verbatim>\<open>mkntfs_create_root_structures\<close> and \<^verbatim>\<open>create_file_volume\<close> (\<^verbatim>\<open>mkntfs.c\<close>).

  The buffer of MFT records is a list of records. A step works on the buffer, the index block of the root directory, the bitmap of the
  MFT, the static buffers of the security descriptors, the formatter's variables and the device. The surroundings (memory,
  \<^verbatim>\<open>errno\<close>, the time) may differ from call to call, so they are a function of a clock that every call advances.
\<close>

section \<open>Surroundings and state\<close>

text \<open>
  What the steps take from outside: besides the surroundings, the conversion of names, the library's empty record for a number, the
  bytes of a buffer of records, the library's resizing of an attribute and the bytes of an index block, its check of boot
  sectors, the bytes of the volume information and of the data of an object id, the volume's parameters, label and upcase
  table with its information, a fresh identifier and two random numbers.
\<close>

record 'd root_cfg =
  rc_env :: "nat \<Rightarrow> 'd mkenv"
  rc_now :: "nat \<Rightarrow> int"
  rc_mb :: "string \<Rightarrow> ntfschar list option"
  rc_layout :: "nat \<Rightarrow> mft_record option"
  rc_bytes :: "mft_record list \<Rightarrow> byte list"
  rc_resize :: "mft_record \<Rightarrow> nat \<Rightarrow> attr_value \<Rightarrow> nat \<Rightarrow> mft_record option"
  rc_blk :: "index_header \<Rightarrow> byte list option"
  rc_is_ntfs :: "byte list \<Rightarrow> bool"
  rc_vi :: "bool \<Rightarrow> nat \<Rightarrow> nat \<Rightarrow> byte list"
  rc_oi :: "nat \<Rightarrow> byte list"
  rc_sdc :: sd_consts
  rc_quota :: quota_consts
  rc_opts :: mkntfs_options
  rc_vol :: vol_params
  rc_vol_name :: "string option"
  rc_upcase :: "ntfschar list"
  rc_upcaseinfo :: "byte list"
  rc_guid :: "byte list"
  rc_random :: "nat \<times> nat"

record 'd root_st =
  rs_recs :: "mft_record list"
  rs_index :: "index_header option"
  rs_mft_bitmap :: "byte list"
  rs_sd :: "byte list"
  rs_root_sd :: "byte list"
  rs_clock :: nat
  rs_mk :: "'d mkst"

type_synonym 'd root_step = "'d root_cfg \<Rightarrow> 'd root_st \<Rightarrow> (errno option \<times> 'd root_st) run"

text \<open>\<^verbatim>\<open>if (!err) err = ...\<close>, and a sequence of such statements.\<close>

definition andthen :: "'d root_step \<Rightarrow> 'd root_step \<Rightarrow> 'd root_step" where
  "andthen f g c s = (case f c s of Ret (None, s') \<Rightarrow> g c s' | r \<Rightarrow> r)"

fun all_of :: "'d root_step list \<Rightarrow> 'd root_step" where
  "all_of [] = (\<lambda>c s. Ret (None, s))"
| "all_of (f # fs) = andthen f (all_of fs)"

definition set_record :: "nat \<Rightarrow> mft_record \<Rightarrow> 'd root_st \<Rightarrow> 'd root_st" where
  "set_record i m s = s\<lparr>rs_recs := (rs_recs s)[i := m], rs_clock := rs_clock s + 1\<rparr>"

text \<open>A call on one record, one that may also need the state, and one on the index in a record.\<close>

definition on_record :: "nat \<Rightarrow> ('d root_cfg \<Rightarrow> 'd root_st \<Rightarrow> 'd mkenv \<Rightarrow> mft_record \<Rightarrow> 'd mkst \<Rightarrow> 'd attr_result) \<Rightarrow> 'd root_step" where
  "on_record i f c s =
     (case f c s (rc_env c (rs_clock s)) (rs_recs s ! i) (rs_mk s) of
        Hang \<Rightarrow> Hang
      | Undef \<Rightarrow> Undef
      | Ret (e, m, mk) \<Rightarrow> Ret (e, (set_record i m s)\<lparr>rs_mk := mk\<rparr>))"

definition on_view :: "nat \<Rightarrow> ('d root_cfg \<Rightarrow> 'd root_st \<Rightarrow> 'd mkenv \<Rightarrow> mft_record \<Rightarrow> (errno option \<times> mft_record) run) \<Rightarrow> 'd root_step" where
  "on_view i f c s =
     (case f c s (rc_env c (rs_clock s)) (rs_recs s ! i) of
        Hang \<Rightarrow> Hang
      | Undef \<Rightarrow> Undef
      | Ret (e, m) \<Rightarrow> Ret (e, set_record i m s))"

definition set_flags :: "nat \<Rightarrow> record_flag set \<Rightarrow> 'd root_step" where
  "set_flags i fl c s = Ret (None, set_record i ((rs_recs s ! i)\<lparr>m_flags := m_flags (rs_recs s ! i) \<union> fl\<rparr>) s)"

section \<open>Links and descriptors\<close>

text \<open>\<^verbatim>\<open>MK_LE_MREF\<close>: a record number of 48 bits and a sequence number.\<close>

definition mk_mref :: "nat \<Rightarrow> nat \<Rightarrow> nat" where
  "mk_mref n sq = n + sq * 2 ^ 48"

definition root_ref :: nat where "root_ref = mk_mref 5 5"
definition extend_ref :: nat where "extend_ref = mk_mref 11 11"

definition sys_flags :: "file_flag set" where
  "sys_flags = {FILE_ATTR_HIDDEN, FILE_ATTR_SYSTEM}"

text \<open>\<^verbatim>\<open>create_hardlink\<close> into the index block of the root directory.\<close>

definition link_root ::
  "nat \<Rightarrow> nat \<Rightarrow> ('d root_cfg \<Rightarrow> 'd root_st \<Rightarrow> int) \<Rightarrow> ('d root_cfg \<Rightarrow> 'd root_st \<Rightarrow> int) \<Rightarrow> file_flag set \<Rightarrow> string \<Rightarrow> 'd root_step" where
  "link_root i ref allocated data fl name c s =
     (case rs_index s of
        None \<Rightarrow> Undef
      | Some idx \<Rightarrow>
          (case create_hardlink (rc_env c (rs_clock s)) (rc_mb c) (rc_now c (rs_clock s)) root_ref ref (allocated c s) (data c s) fl 0 0
                  name FILE_NAME_WIN32_AND_DOS (rs_recs s ! i) idx of
             Hang \<Rightarrow> Hang
           | Undef \<Rightarrow> Undef
           | Ret (e, m, idx') \<Rightarrow> Ret (e, (set_record i m s)\<lparr>rs_index := Some idx'\<rparr>)))"

text \<open>\<^verbatim>\<open>create_hardlink_res\<close> into the index root of \<^verbatim>\<open>$Extend\<close>.\<close>

definition link_extend :: "nat \<Rightarrow> nat \<Rightarrow> file_flag set \<Rightarrow> string \<Rightarrow> 'd root_step" where
  "link_extend i ref fl name c s =
     (case create_hardlink_res (rc_env c (rs_clock s)) (vp_mft_record_size (rc_vol c)) (rc_mb c) (rc_now c (rs_clock s)) extend_ref ref 0 0
             fl 0 0 name FILE_NAME_WIN32_AND_DOS (rs_recs s ! i) (rs_recs s ! 11) of
        Hang \<Rightarrow> Hang
      | Undef \<Rightarrow> Undef
      | Ret (e, m, p) \<Rightarrow> Ret (e, (set_record i m s)\<lparr>rs_recs := (rs_recs s)[i := m, 11 := p]\<rparr>))"

text \<open>The descriptor of a system file, made in the static buffer and added to the record.\<close>

definition add_system_sd :: "nat \<Rightarrow> 'd root_step" where
  "add_system_sd i c s =
     (case init_system_file_sd (rc_sdc c) (int i) (rs_sd s) of
        (sd, buf) \<Rightarrow>
          on_record i (\<lambda>c s env m mk. add_attr_sd env (case sd of None \<Rightarrow> [] | Some b \<Rightarrow> b) m mk) c (s\<lparr>rs_sd := buf\<rparr>))"

definition add_root_sd :: "'d root_step" where
  "add_root_sd c s =
     (let sd = init_root_sd (rc_sdc c) (rs_root_sd s)
      in on_record 5 (\<lambda>c s env m mk. add_attr_sd env sd m mk) c (s\<lparr>rs_root_sd := sd\<rparr>))"

definition add_view_root :: "nat \<Rightarrow> string \<Rightarrow> nat \<Rightarrow> nat \<Rightarrow> collation \<Rightarrow> 'd root_step" where
  "add_view_root i name name_len indexed rule =
     on_record i (\<lambda>c s env m mk. add_attr_index_root env (Some name) name_len False indexed rule (vp_indx_record_size (rc_vol c)) m mk)"

definition add_empty_data :: "nat \<Rightarrow> 'd root_step" where
  "add_empty_data i = on_record i (\<lambda>c s env m mk. add_attr_data env None 0 False {} None m mk)"

section \<open>Empty records and standard information\<close>

text \<open>The sequence number of a system file is its record number, but one for \<^verbatim>\<open>$MFT\<close> and the files in \<^verbatim>\<open>$Extend\<close>.\<close>

definition system_record :: "'d root_cfg \<Rightarrow> nat \<Rightarrow> mft_record option" where
  "system_record c i = map_option (\<lambda>m. m\<lparr>m_sequence_number := (if i = 0 \<or> i > 23 then 1 else i)\<rparr>) (rc_layout c i)"

definition free_record :: "'d root_cfg \<Rightarrow> nat \<Rightarrow> mft_record option" where
  "free_record c i = map_option (\<lambda>m. m\<lparr>m_flags := {}, m_sequence_number := i mod 2 ^ 16\<rparr>) (rc_layout c i)"

fun lay_out :: "(nat \<Rightarrow> mft_record option) \<Rightarrow> nat list \<Rightarrow> mft_record list option" where
  "lay_out f [] = Some []"
| "lay_out f (i # is) =
     (case f i of None \<Rightarrow> None | Some m \<Rightarrow> (case lay_out f is of None \<Rightarrow> None | Some ms \<Rightarrow> Some (m # ms)))"

definition nr_sysfiles :: nat where "nr_sysfiles = 27"

text \<open>The rest of the buffer, up to the size of the MFT, is filled with free records.\<close>

definition layout_records :: "'d root_cfg \<Rightarrow> int \<Rightarrow> mft_record list option" where
  "layout_records c mft_size =
     (let rs = vp_mft_record_size (rc_vol c); n = (nat mft_size + rs - 1) div rs in
      case lay_out (system_record c) [0..<nr_sysfiles] of
        None \<Rightarrow> None
      | Some ms \<Rightarrow> (case lay_out (free_record c) [nr_sysfiles..<n] of None \<Rightarrow> None | Some fs \<Rightarrow> Some (ms @ fs)))"

definition used_system_file :: "nat \<Rightarrow> bool" where
  "used_system_file i \<longleftrightarrow> i < 16 \<or> i > 23"

definition system_file_attrs :: "mkntfs_options \<Rightarrow> nat \<Rightarrow> file_flag set" where
  "system_file_attrs opts i =
     sys_flags \<union>
     (if i = 5 then {FILE_ATTR_ARCHIVE} \<union> (if disable_indexing opts then {FILE_ATTR_NOT_CONTENT_INDEXED} else {}) \<union>
        (if enable_compression opts then {FILE_ATTR_COMPRESSED} else {}) else {}) \<union>
     (if i = 9 then {FILE_ATTR_VIEW_INDEX_PRESENT} else {}) \<union>
     (if i \<in> {24, 25, 26} then {FILE_ATTR_ARCHIVE, FILE_ATTR_VIEW_INDEX_PRESENT} else {})"

definition system_security_id :: "nat \<Rightarrow> nat" where
  "system_security_id i =
     (if i \<in> {0, 1, 2, 6, 8, 10} then 0x0100 else if i \<in> {9, 11, 24, 25, 26} then 0x0101 else 0)"

text \<open>One round of the loop over the system files; the outcome of adding the attribute is not looked at.\<close>

definition system_file_info :: "nat \<Rightarrow> 'd root_step" where
  "system_file_info i c s =
     (let m = rs_recs s ! i;
          m1 = (if used_system_file i then m\<lparr>m_number := i, m_flags := m_flags m \<union> {MFT_RECORD_IN_USE}\<rparr> else m);
          s1 = s\<lparr>rs_recs := (rs_recs s)[i := m1],
                 rs_mft_bitmap := (if used_system_file i then set_bit_at (rs_mft_bitmap s) i else rs_mft_bitmap s)\<rparr>
      in case on_record i
                (\<lambda>c s env m mk. add_attr_std_info env (rc_now c (rs_clock s)) (system_file_attrs (rc_opts c) i) (system_security_id i) m mk)
                c s1 of
           Ret (_, s2) \<Rightarrow> Ret (None, s2)
         | r \<Rightarrow> r)"

section \<open>The root directory\<close>

definition count_link :: "nat \<Rightarrow> 'd root_step" where
  "count_link i c s = Ret (None, set_record i ((rs_recs s ! i)\<lparr>m_link_count := (m_link_count (rs_recs s ! i) + 1) mod 2 ^ 16\<rparr>) s)"

definition upgrade_root :: "'d root_step" where
  "upgrade_root c s =
     (case upgrade_to_large_index (rc_env c (rs_clock s)) (rc_resize c) (rc_blk c) ''$I30'' 4 False (rs_recs s ! 5) (rs_mk s) of
        Hang \<Rightarrow> Hang
      | Undef \<Rightarrow> Undef
      | Ret (e, idx, m, mk) \<Rightarrow> Ret (e, (set_record 5 m s)\<lparr>rs_mk := mk, rs_index := (case idx of None \<Rightarrow> rs_index s | Some h \<Rightarrow> Some h)\<rparr>))"

text \<open>The directory contains its own name, which is taken from its record.\<close>

definition enter_root_name :: "'d root_step" where
  "enter_root_name c s =
     (let env = rc_env c (rs_clock s); m = rs_recs s ! 5 in
      if \<not> me_mem env then Ret (Some (me_errno env), s)
      else
        (case mkntfs_attr_lookup (me_ops env) False m AT_FILE_NAME Unnamed False None fresh_ctx of
           Found k \<Rightarrow>
             (case (a_form (m_attrs m ! k), rs_index s) of
                (Resident _ _ (File_name f) _, Some idx) \<Rightarrow>
                  (case insert_file_link_in_dir_index (nm_collate (me_ops env)) root_ref f idx of
                     (e, idx') \<Rightarrow> Ret (e, (set_record 5 m s)\<lparr>rs_index := Some idx'\<rparr>))
              | _ \<Rightarrow> Undef)
         | Undefined \<Rightarrow> Undef
         | _ \<Rightarrow> Ret (Some (me_errno env), s)))"

definition create_root_dir :: "'d root_step" where
  "create_root_dir =
     all_of
       [set_flags 5 {MFT_RECORD_IS_DIRECTORY},
        count_link 5,
        on_record 5 (\<lambda>c s env m mk. add_attr_file_name env (rc_mb c) root_ref 0 0 (sys_flags \<union> {FILE_ATTR_I30_INDEX_PRESENT}) 0 0 ''.''
          FILE_NAME_WIN32_AND_DOS m mk),
        add_root_sd,
        add_view_root 5 ''$I30'' 4 AT_FILE_NAME COLLATION_FILE_NAME,
        upgrade_root,
        enter_root_name]"

section \<open>The system files\<close>

definition fmt_of :: "'d root_st \<Rightarrow> fmt" where "fmt_of s = ms_fmt (rs_mk s)"

definition csize :: "'d root_cfg \<Rightarrow> int" where "csize c = int (vp_csize (rc_vol c))"

text \<open>\<^verbatim>\<open>(x + cluster_size - 1) & ~(cluster_size - 1)\<close>, unsigned 32-bit, for a cluster size that is a power of two.\<close>

definition up_clusters :: "'d root_cfg \<Rightarrow> int \<Rightarrow> int" where
  "up_clusters c x = (x + csize c - 1) mod 2 ^ 32 div csize c * csize c"

definition create_mft :: "'d root_step" where
  "create_mft =
     all_of
       [on_record 0 (\<lambda>c s env m mk. add_attr_data_positioned env None 0 False {} (g_rl_mft (fmt_of s)) (rc_bytes c (rs_recs s))
          (g_mft_size (fmt_of s)) m mk),
        link_root 0 (mk_mref 0 1) (\<lambda>c s. ((g_mft_size (fmt_of s) - 1) OR (csize c - 1)) + 1) (\<lambda>c s. g_mft_size (fmt_of s)) sys_flags ''$MFT'',
        on_record 0 (\<lambda>c s env m mk. add_attr_bitmap_positioned env None 0 False (g_rl_mft_bmp (fmt_of s))
          (take (nat (g_mft_bitmap_byte_size (fmt_of s))) (rs_mft_bitmap s)) m mk)]"

definition mirr_size :: "'d root_cfg \<Rightarrow> 'd root_st \<Rightarrow> int" where
  "mirr_size c s = rl_length (g_rl_mftmirr (fmt_of s) ! 0) * csize c"

definition create_mftmirr :: "'d root_step" where
  "create_mftmirr =
     all_of
       [on_record 1 (\<lambda>c s env m mk. add_attr_data_positioned env None 0 False {} (g_rl_mftmirr (fmt_of s)) (rc_bytes c (rs_recs s))
          (mirr_size c s) m mk),
        link_root 1 (mk_mref 1 1) mirr_size mirr_size sys_flags ''$MFTMirr'']"

definition create_logfile :: "'d root_step" where
  "create_logfile =
     all_of
       [on_record 2 (\<lambda>c s env m mk. add_attr_data_positioned env None 0 False {} (g_rl_logfile (fmt_of s)) [] (g_logfile_size (fmt_of s)) m mk),
        link_root 2 (mk_mref 2 2) (\<lambda>c s. g_logfile_size (fmt_of s)) (\<lambda>c s. g_logfile_size (fmt_of s)) sys_flags ''$LogFile'']"

definition attrdef_len :: int where "attrdef_len = 2560"

definition create_attrdef :: "'d root_step" where
  "create_attrdef =
     all_of
       [on_record 4 (\<lambda>c s env m mk. add_attr_data env None 0 False {} (Some attrdef_ntfs3x_array) m mk),
        link_root 4 (mk_mref 4 4) (\<lambda>c s. up_clusters c attrdef_len) (\<lambda>c s. attrdef_len) sys_flags ''$AttrDef'',
        add_system_sd 4]"

definition create_bitmap :: "'d root_step" where
  "create_bitmap =
     all_of
       [on_record 6 (\<lambda>c s env m mk. insert_non_resident_attr_in_mft_record env AT_DATA None 0 False {} []
          (g_lcn_bitmap_byte_size (fmt_of s)) WRITE_BITMAP m mk),
        link_root 6 (mk_mref 6 6) (\<lambda>c s. up_clusters c (g_lcn_bitmap_byte_size (fmt_of s))) (\<lambda>c s. g_lcn_bitmap_byte_size (fmt_of s))
          sys_flags ''$Bitmap'']"

text \<open>The boot sector is built from the places the layout chose.\<close>

definition the_boot_sector :: "'d root_cfg \<Rightarrow> 'd root_st \<Rightarrow> byte list option" where
  "the_boot_sector c s =
     boot_sector (rc_opts c) (rc_vol c) (g_mft_lcn (fmt_of s)) (g_mftmirr_lcn (fmt_of s)) (serial_number (fst (rc_random c)) (snd (rc_random c)))"

definition create_boot :: "byte list \<Rightarrow> 'd root_step" where
  "create_boot bs =
     all_of
       [on_record 7 (\<lambda>c s env m mk. add_attr_data_positioned env None 0 False {} (g_rl_boot (fmt_of s)) bs 8192 m mk),
        link_root 7 (mk_mref 7 7) (\<lambda>c s. up_clusters c 8192) (\<lambda>c s. 8192) sys_flags ''$Boot'',
        add_system_sd 7]"

definition create_file_volume :: "bool \<Rightarrow> byte list \<Rightarrow> 'd root_step" where
  "create_file_volume dirty guid =
     all_of
       [link_root 3 (mk_mref 3 3) (\<lambda>c s. 0) (\<lambda>c s. 0) sys_flags ''$Volume'',
        add_system_sd 3,
        add_empty_data 3,
        on_record 3 (\<lambda>c s env m mk. add_attr_vol_name env (rc_mb c) (rc_vol_name c) m mk),
        on_record 3 (\<lambda>c s env m mk. add_attr_vol_info env (rc_vi c) dirty 3 1 m mk),
        (\<lambda>c s. if with_uuid (rc_opts c) then on_record 3 (\<lambda>c s env m mk. add_attr_object_id env guid m mk) c s else Ret (None, s))]"

definition create_badclus :: "'d root_step" where
  "create_badclus =
     all_of
       [on_record 8 (\<lambda>c s env m mk. add_attr_data_positioned env (Some ''$Bad'') 4 False {} (g_rl_bad (fmt_of s)) []
          (vp_nr_clusters (rc_vol c) * csize c) m mk),
        add_empty_data 8,
        link_root 8 (mk_mref 8 8) (\<lambda>c s. 0) (\<lambda>c s. 0) sys_flags ''$BadClus'']"

text \<open>The stream of security descriptors, with its copy at \<open>0x40000\<close>.\<close>

definition sds_stream :: "sd_consts \<Rightarrow> byte list" where
  "sds_stream c = (let b = init_secure_sds c (replicate (0x40000 + 0xfc) 0) in put_bytes b 0x40000 (take 0xfc b))"

definition create_secure :: "'d root_step" where
  "create_secure =
     all_of
       [set_flags 9 {MFT_RECORD_IS_VIEW_INDEX},
        link_root 9 (mk_mref 9 9) (\<lambda>c s. 0) (\<lambda>c s. 0) (sys_flags \<union> {FILE_ATTR_VIEW_INDEX_PRESENT}) ''$Secure'',
        (\<lambda>c s. if me_mem (rc_env c (rs_clock s)) then Ret (None, s) else Ret (Some ENOMEM, s)),
        on_record 9 (\<lambda>c s env m mk. add_attr_data env (Some ''$SDS'') 4 False {} (Some (sds_stream (rc_sdc c))) m mk),
        add_view_root 9 ''$SDH'' 4 AT_UNUSED COLLATION_NTOFS_SECURITY_HASH,
        add_view_root 9 ''$SII'' 4 AT_UNUSED COLLATION_NTOFS_ULONG,
        on_view 9 (\<lambda>c s env m. initialize_secure env (me_mem env) (vp_mft_record_size (rc_vol c)) (sds_header_at (sds_stream (rc_sdc c))) 0xfc m)]"

definition create_upcase :: "'d root_step" where
  "create_upcase =
     all_of
       [on_record 10 (\<lambda>c s env m mk. add_attr_data env None 0 False {} (Some (ucs_bytes (rc_upcase c))) m mk),
        on_record 10 (\<lambda>c s env m mk. add_attr_data env (Some ''$Info'') 5 False {} (Some (rc_upcaseinfo c)) m mk),
        link_root 10 (mk_mref 10 10) (\<lambda>c s. up_clusters c (2 * int (length (rc_upcase c)))) (\<lambda>c s. 2 * int (length (rc_upcase c))) sys_flags
          ''$UpCase'']"

definition create_extend :: "'d root_step" where
  "create_extend =
     all_of
       [set_flags 11 {MFT_RECORD_IS_DIRECTORY},
        link_root 11 (mk_mref 11 11) (\<lambda>c s. 0) (\<lambda>c s. 0) (sys_flags \<union> {FILE_ATTR_I30_INDEX_PRESENT}) ''$Extend'',
        add_view_root 11 ''$I30'' 4 AT_FILE_NAME COLLATION_FILE_NAME]"

definition create_reserved :: "nat \<Rightarrow> 'd root_step" where
  "create_reserved i = all_of [add_empty_data i, add_system_sd i]"

definition extend_flags :: "file_flag set" where
  "extend_flags = sys_flags \<union> {FILE_ATTR_ARCHIVE, FILE_ATTR_VIEW_INDEX_PRESENT}"

definition create_quota :: "'d root_step" where
  "create_quota =
     all_of
       [set_flags 24 {MFT_RECORD_IS_4, MFT_RECORD_IS_VIEW_INDEX},
        link_extend 24 (mk_mref 24 1) extend_flags ''$Quota'',
        add_view_root 24 ''$Q'' 2 AT_UNUSED COLLATION_NTOFS_ULONG,
        add_view_root 24 ''$O'' 2 AT_UNUSED COLLATION_NTOFS_SID,
        on_view 24 (\<lambda>c s env m. initialize_quota env (rc_quota c) (rc_sdc c) (vp_mft_record_size (rc_vol c)) (rc_now c (rs_clock s)) m)]"

definition create_objid :: "byte list \<Rightarrow> 'd root_step" where
  "create_objid guid =
     all_of
       [set_flags 25 {MFT_RECORD_IS_4, MFT_RECORD_IS_VIEW_INDEX},
        link_extend 25 (mk_mref 25 1) extend_flags ''$ObjId'',
        add_view_root 25 ''$O'' 2 AT_UNUSED COLLATION_NTOFS_ULONGS,
        (\<lambda>c s. if with_uuid (rc_opts c)
                then on_view 25 (\<lambda>c s env m. index_obj_id_insert env (vp_mft_record_size (rc_vol c)) (rc_oi c) guid (mk_mref 3 3) m) c s
                else Ret (None, s))]"

definition create_reparse :: "'d root_step" where
  "create_reparse =
     all_of
       [set_flags 26 {MFT_RECORD_IS_4, MFT_RECORD_IS_VIEW_INDEX},
        link_extend 26 (mk_mref 26 1) extend_flags ''$Reparse'',
        add_view_root 26 ''$R'' 2 AT_UNUSED COLLATION_NTOFS_ULONGS]"

section \<open>All of them\<close>

text \<open>
  \<^verbatim>\<open>$Boot\<close>, its backup, and \<^verbatim>\<open>$Volume\<close>, which becomes dirty if the backup could not be written. The steps before fail for want of
  memory, or because the sector is not a boot sector.
\<close>

definition backup_boot :: "byte list \<Rightarrow> 'd root_cfg \<Rightarrow> 'd root_st \<Rightarrow> (int \<times> 'd root_st) run" where
  "backup_boot bs c s =
     (let env = rc_env c (rs_clock s) in
      case create_backup_boot_sector (me_wr env) (me_sk env) (rc_opts c) bs (ms_dev (rs_mk s)) of
        None \<Rightarrow> Hang
      | Some (r, d) \<Rightarrow> Ret (r, s\<lparr>rs_mk := (rs_mk s)\<lparr>ms_dev := d\<rparr>, rs_clock := rs_clock s + 1\<rparr>))"

definition volume_guid :: "'d root_cfg \<Rightarrow> byte list" where
  "volume_guid c = (if use_epoch_time (rc_opts c) then replicate 16 0 else rc_guid c)"

definition create_boot_and_volume :: "'d root_step" where
  "create_boot_and_volume c s =
     (if \<not> me_mem (rc_env c (rs_clock s)) then Ret (Some ENOMEM, s)
      else
        (case the_boot_sector c s of
           None \<Rightarrow> Ret (Some EINVAL, s)
         | Some bs \<Rightarrow>
             if \<not> rc_is_ntfs c bs then Ret (Some EINVAL, s)
             else
               (case create_boot bs c s of
                  Ret (None, s1) \<Rightarrow>
                    (case backup_boot bs c s1 of
                       Hang \<Rightarrow> Hang
                     | Undef \<Rightarrow> Undef
                     | Ret (r, s2) \<Rightarrow> create_file_volume (r \<noteq> 0) (volume_guid c) c s2)
                | r \<Rightarrow> r)))"

definition create_files :: "'d root_step" where
  "create_files c =
     all_of
       ([system_file_info i. i \<leftarrow> [0..<nr_sysfiles]] @
        [create_root_dir, create_mft, create_mftmirr, create_logfile, create_attrdef, create_bitmap, create_boot_and_volume,
         create_badclus, create_secure, create_upcase, create_extend] @
        [create_reserved i. i \<leftarrow> [0xc..<0x10]] @
        [create_quota, create_objid (volume_guid c), create_reparse]) c"

text \<open>The result: whether it succeeded, and the state.\<close>

definition mkntfs_create_root_structures :: "'d root_cfg \<Rightarrow> 'd root_st \<Rightarrow> (bool \<times> 'd root_st) run" where
  "mkntfs_create_root_structures c s =
     (case layout_records c (g_mft_size (fmt_of s)) of
        None \<Rightarrow> Ret (False, s)
      | Some recs \<Rightarrow>
          (case create_files c (s\<lparr>rs_recs := recs\<rparr>) of
             Hang \<Rightarrow> Hang
           | Undef \<Rightarrow> Undef
           | Ret (e, s') \<Rightarrow> Ret (e = None, s')))"

end
