(* ===== verification/Attr_Sizes.thy ===== *)
theory Attr_Sizes
  imports Attrdef Mft_Store
begin

text \<open>
  The attributes the formatter puts into MFT records have sizes that the table of attribute definitions allows. The
  steps of the formatter on one record are a step relation, one rule for each of its functions.
\<close>

section \<open>What adding an attribute keeps\<close>

definition attr_size :: "attr_record \<Rightarrow> nat" where
  "attr_size a = (case a_form a of Resident _ n _ _ \<Rightarrow> n | Non_resident r \<Rightarrow> nat (nr_data_size r))"

definition attr_val :: "attr_record \<Rightarrow> attr_value option" where
  "attr_val a = (case a_form a of Resident _ _ v _ \<Rightarrow> Some v | Non_resident _ \<Rightarrow> None)"

lemma room_attrs: "make_room_for_attribute m sz = Some m1 \<Longrightarrow> m_attrs m1 = m_attrs m"
  by (auto simp: make_room_for_attribute_def split: if_splits)

lemma ucs_bytes_length [simp]: "length (ucs_bytes u) = 2 * length u"
  by (induction u) (simp_all add: ucs_bytes_def)

lemma nonres_attr_sized: "a_type (nonres_attr type nm nl mpa hi al n x y) = type" "attr_size (nonres_attr type nm nl mpa hi al n x y) = nat n"
  "attr_val (nonres_attr type nm nl mpa hi al n x y) = None"
  by (simp_all add: nonres_attr_def attr_size_def attr_val_def)

text \<open>
  The interface between the functions that add attributes and the properties of records: a property that survives when an
  attribute of a good type, value (\<open>None\<close> when it is not resident) and size is put into the room made for it survives every one of
  them.
\<close>

locale record_property =
  fixes P :: "mft_record \<Rightarrow> bool" and good :: "nat \<Rightarrow> attr_value option \<Rightarrow> nat \<Rightarrow> bool"
  assumes place: "P m \<Longrightarrow> make_room_for_attribute m sz = Some m1 \<Longrightarrow> good (a_type a) (attr_val a) (attr_size a) \<Longrightarrow>
    P (place_attr k a m1)"
begin

lemma inserted:
  assumes "insert_resident_attr_in_mft_record ops mem uname nl type ic fl rf val m = Ret (e, m')" and "P m"
    and "v = (case val of None \<Rightarrow> Raw [] | Some v \<Rightarrow> v)" and "good type (Some v) (value_len v)"
  shows "P m'"
proof -
  have a: "a_type (resident_attr type nm fl rf v) = type" "attr_size (resident_attr type nm fl rf v) = value_len v"
    "attr_val (resident_attr type nm fl rf v) = Some v" for nm
    by (simp_all add: resident_attr_def attr_size_def attr_val_def Let_def)
  from assms(1) have "m' = m \<or> (\<exists>k nm m1 sz. make_room_for_attribute m sz = Some m1 \<and> m' = place_attr k (resident_attr type nm fl rf v) m1)"
    by (auto simp: insert_resident_attr_in_mft_record_def Let_def assms(3) split: option.splits if_splits attr_search.splits)
  then show ?thesis using assms(2,4) a place by metis
qed

lemma resident:
  assumes "add_resident env type name nl ic fl rf val m st = Ret (e, m', st')" and "P m"
    and "good type (Some (case val of None \<Rightarrow> Raw [] | Some v \<Rightarrow> v)) (value_len (case val of None \<Rightarrow> Raw [] | Some v \<Rightarrow> v))"
  shows "P m'"
  using assms inserted [OF _ assms(2) refl] by (auto simp: add_resident_def split: run.splits prod.splits)

lemma nonres_write:
  assumes w: "write_and_map env wt rl val n mpa k (nonres_attr type nm nl mpa hi al n) init m1 st1 = Ret (e, m', st')"
    and "make_room_for_attribute m sz = Some m1" and "P m" and "good type None (nat n)"
  shows "P m'"
proof -
  from w obtain k x y where "m' = place_attr k (nonres_attr type nm nl mpa hi al n x y) m1"
    by (auto simp: write_and_map_def Let_def split: option.splits if_splits)
  then show ?thesis using place [OF assms(3,2)] assms(4) by (simp add: nonres_attr_sized)
qed

lemma non_resident:
  assumes res: "insert_non_resident_attr_in_mft_record env type name nl ic fl val n wt m st = Ret (e, m', st')" and "P m"
    and "good type None (nat n)"
  shows "P m'"
proof (cases "\<exists>k uname. place_for env type name ic fl m = Ret (Inr (k, uname)) \<and> n \<noteq> 0")
  case False
  with res assms(2) show ?thesis
    by (auto simp: insert_non_resident_attr_in_mft_record_def split: run.splits sum.splits option.splits if_splits)
next
  case True
  then obtain k uname where p: "place_for env type name ic fl m = Ret (Inr (k, uname))" "n \<noteq> 0" by blast
  obtain orl t zone where al: "allocate_scattered_clusters (me_rmem env) (me_nr env) (g_allocation (ms_fmt st)) (g_mft_zone_end (ms_fmt st))
      ((n + me_cs env - 1) div me_cs env) = (orl, t, zone)" by (metis prod_cases3)
  show ?thesis
    using res assms(2) nonres_write [OF _ _ assms(2,3)]
    by (auto simp: insert_non_resident_attr_in_mft_record_def p al Let_def split: option.splits)
qed

lemma positioned:
  assumes res: "insert_positioned_attr_in_mft_record env type name nl ic fl rl val n m st = Ret (e, m', st')" and "P m"
    and "good type None (nat n)"
  shows "P m'"
proof (cases "\<exists>k uname. place_for env type name ic fl m = Ret (Inr (k, uname))")
  case False
  with res assms(2) show ?thesis
    by (auto simp: insert_positioned_attr_in_mft_record_def split: run.splits sum.splits)
next
  case True
  then obtain k uname where p: "place_for env type name ic fl m = Ret (Inr (k, uname))" by blast
  show ?thesis
  proof (cases "if n \<noteq> 0 then me_mp_size env rl else Some 0")
    case None
    with res assms(2) show ?thesis by (simp add: insert_positioned_attr_in_mft_record_def p)
  next
    case (Some mpa)
    show ?thesis
      using res assms(2) nonres_write [OF _ _ assms(2,3)]
      by (auto simp: insert_positioned_attr_in_mft_record_def p Some split: option.splits if_splits)
  qed
qed

lemma std_info:
  "add_attr_std_info env now fl sid m st = Ret (e, m', st') \<Longrightarrow> P m \<Longrightarrow>
    (\<And>si n. n = 72 \<or> n = 48 \<Longrightarrow> good AT_STANDARD_INFORMATION (Some (Std_info si)) n) \<Longrightarrow> P m'"
  by (auto simp: add_attr_std_info_def value_len_def elim!: resident)

lemma file_name:
  assumes "add_attr_file_name env mb p al da fl ea rp s ns m st = Ret (e, m', st')" and "P m"
    and "\<And>f. check_name mb s = Inr (fn_file_name f) \<Longrightarrow> fn_file_name_type f = ns \<Longrightarrow> 68 \<le> file_name_size f \<Longrightarrow> file_name_size f \<le> 576 \<Longrightarrow>
      good AT_FILE_NAME (Some (File_name f)) (file_name_size f)"
  shows "P m'"
proof (cases "find_value env m AT_STANDARD_INFORMATION Unnamed")
  case (Ret x)
  show ?thesis
  proof (cases "\<exists>vo vl si rf u. x = Inr (Resident vo vl (Std_info si) rf) \<and> check_name mb s = Inr u")
    case False
    with assms Ret show ?thesis
      by (auto simp: add_attr_file_name_def split: if_splits sum.splits attr_form.splits attr_value.splits)
  next
    case True
    then obtain vo vl si rf u where x: "x = Inr (Resident vo vl (Std_info si) rf)" and u: "check_name mb s = Inr u" by blast
    then have "u \<noteq> []" "length u \<le> 255" by (auto simp: check_name_def split: option.splits if_splits)
    then have "1 \<le> length u" by (cases u) simp_all
    then have g: "good AT_FILE_NAME (Some (File_name f)) (file_name_size f)" if "fn_file_name f = u" "fn_file_name_type f = ns" for f
      using that u \<open>length u \<le> 255\<close> by (intro assms(3)) (simp_all add: file_name_size_def)
    show ?thesis
      using assms Ret x u by (auto simp: add_attr_file_name_def value_len_def g split: if_splits elim!: resident)
  qed
qed (use assms in \<open>auto simp: add_attr_file_name_def split: if_splits\<close>)

lemma object_id: "add_attr_object_id env guid m st = Ret (e, m', st') \<Longrightarrow> P m \<Longrightarrow> good AT_OBJECT_ID (Some (Raw guid)) (length guid) \<Longrightarrow> P m'"
  by (auto simp: add_attr_object_id_def value_len_def elim!: resident)

lemma sd:
  "add_attr_sd env sd m st = Ret (e, m', st') \<Longrightarrow> P m \<Longrightarrow>
    (\<And>v. v = Some (Raw sd) \<or> v = None \<Longrightarrow> good AT_SECURITY_DESCRIPTOR v (length sd)) \<Longrightarrow> P m'"
  by (auto simp: add_attr_sd_def value_len_def split: if_splits elim!: resident non_resident)

lemma data:
  "add_attr_data env name nl ic fl val m st = Ret (e, m', st') \<Longrightarrow> P m \<Longrightarrow>
    (\<And>v. v = Some (Raw (case val of None \<Rightarrow> [] | Some b \<Rightarrow> b)) \<or> v = None \<Longrightarrow>
      good AT_DATA v (length (case val of None \<Rightarrow> [] | Some b \<Rightarrow> b))) \<Longrightarrow> P m'"
  by (cases val) (auto simp: add_attr_data_def value_len_def Let_def split: if_splits elim!: resident non_resident)

lemma data_positioned:
  "add_attr_data_positioned env name nl ic fl rl val n m st = Ret (e, m', st') \<Longrightarrow> P m \<Longrightarrow> good AT_DATA None (nat n) \<Longrightarrow> P m'"
  by (auto simp: add_attr_data_positioned_def elim!: positioned)

lemma vol_name:
  assumes "add_attr_vol_name env mb s m st = Ret (e, m', st')" and "P m"
    and g: "\<And>u. s = None \<and> u = [] \<or> (\<exists>t. s = Some t \<and> mb t = Some u \<and> length u \<le> 128) \<Longrightarrow>
      good AT_VOLUME_NAME (Some (Raw (ucs_bytes u))) (2 * length u)"
  shows "P m'"
proof (cases s)
  case None
  with g [of "[]"] assms(1,2) show ?thesis
    by (auto simp: add_attr_vol_name_def value_len_def ucs_bytes_def elim!: resident)
next
  case (Some t)
  with g assms(1,2) show ?thesis
    by (auto simp: add_attr_vol_name_def value_len_def split: option.splits if_splits elim!: resident)
qed

lemma vol_info:
  "add_attr_vol_info env vi dirty major minor m st = Ret (e, m', st') \<Longrightarrow> P m \<Longrightarrow>
    good AT_VOLUME_INFORMATION (Some (Raw (vi dirty major minor))) (length (vi dirty major minor)) \<Longrightarrow> P m'"
  by (auto simp: add_attr_vol_info_def value_len_def elim!: resident)

lemma index_root:
  "add_attr_index_root env name nl ic t rule bs m st = Ret (e, m', st') \<Longrightarrow> P m \<Longrightarrow>
    (\<And>r. ih_entries (ir_header r) = [end_entry] \<Longrightarrow> ir_index_block_size r = bs \<Longrightarrow> good AT_INDEX_ROOT (Some (Index_root r)) 48) \<Longrightarrow> P m'"
  by (auto simp: add_attr_index_root_def value_len_def Let_def split: if_splits elim!: resident)

lemma index_alloc:
  "add_attr_index_alloc env name nl ic val m st = Ret (e, m', st') \<Longrightarrow> P m \<Longrightarrow> good AT_INDEX_ALLOCATION None (length val) \<Longrightarrow> P m'"
  by (auto simp: add_attr_index_alloc_def elim!: non_resident)

lemma bitmap:
  "add_attr_bitmap env name nl ic val m st = Ret (e, m', st') \<Longrightarrow> P m \<Longrightarrow>
    (\<And>v. v = Some (Raw val) \<or> v = None \<Longrightarrow> good AT_BITMAP v (length val)) \<Longrightarrow> P m'"
  by (auto simp: add_attr_bitmap_def value_len_def split: if_splits elim!: resident non_resident)

lemma bitmap_positioned:
  "add_attr_bitmap_positioned env name nl ic rl val m st = Ret (e, m', st') \<Longrightarrow> P m \<Longrightarrow> good AT_BITMAP None (length val) \<Longrightarrow> P m'"
  by (auto simp: add_attr_bitmap_positioned_def elim!: positioned)

end

section \<open>Sizes of attributes\<close>

definition sized :: "mft_record \<Rightarrow> bool" where
  "sized m = list_all (\<lambda>a. table_allows attrdef_ntfs3x_array (a_type a) (attr_size a)) (m_attrs m)"

interpretation sized: record_property sized "\<lambda>t _. table_allows attrdef_ntfs3x_array t"
proof unfold_locales
  fix m sz m1 a k
  assume "sized m" "make_room_for_attribute m sz = Some m1" "table_allows attrdef_ntfs3x_array (a_type a) (attr_size a)"
  moreover from this(2) have "m_attrs m1 = m_attrs m" by (rule room_attrs)
  ultimately show "sized (place_attr k a m1)"
    by (auto simp: sized_def place_attr_def list_all_iff attr_size_def dest: in_set_takeD in_set_dropD)
qed

text \<open>The fields of the header that identify a record, and that no attribute changes.\<close>

definition ident :: "mft_record \<Rightarrow> nat \<times> nat \<times> record_flag set" where
  "ident m = (m_number m, m_sequence_number m, m_flags m)"

interpretation ident: record_property "\<lambda>m. ident m = h" "\<lambda>_ _ _. True" for h
  by unfold_locales (auto simp: ident_def place_attr_def make_room_for_attribute_def split: if_splits)

text \<open>
  Properties of all attribute values of a record survive if they hold of the value that is added: that there is neither a name nor an
  index, that every name is the given one, and that besides every index is empty.
\<close>

definition all_values :: "(attr_value option \<Rightarrow> bool) \<Rightarrow> mft_record \<Rightarrow> bool" where
  "all_values p m = list_all (\<lambda>a. p (attr_val a)) (m_attrs m)"

interpretation all_values: record_property "all_values p" "\<lambda>_ v _. p v" for p
proof unfold_locales
  fix m sz m1 a k
  assume "all_values p m" "make_room_for_attribute m sz = Some m1" "p (attr_val a)"
  moreover from this(2) have "m_attrs m1 = m_attrs m" by (rule room_attrs)
  ultimately show "all_values p (place_attr k a m1)"
    by (auto simp: all_values_def place_attr_def list_all_iff attr_val_def dest: in_set_takeD in_set_dropD)
qed

definition plain :: "attr_value option \<Rightarrow> bool" where
  "plain v \<longleftrightarrow> (case v of Some (File_name _) \<Rightarrow> False | Some (Index_root _) \<Rightarrow> False | _ \<Rightarrow> True)"

definition names_are :: "ntfschar list \<Rightarrow> attr_value option \<Rightarrow> bool" where
  "names_are u v \<longleftrightarrow> (case v of Some (File_name f) \<Rightarrow> fn_file_name f = u \<and> fn_file_name_type f \<noteq> FILE_NAME_POSIX | _ \<Rightarrow> True)"

definition new_dir :: "ntfschar list \<Rightarrow> nat \<Rightarrow> attr_value option \<Rightarrow> bool" where
  "new_dir u bs v \<longleftrightarrow> names_are u v \<and>
     (case v of Some (Index_root r) \<Rightarrow> ih_entries (ir_header r) = [end_entry] \<and> ir_index_block_size r = bs | _ \<Rightarrow> True)"

text \<open>The bounds of the table for the types the formatter uses.\<close>

lemma table_bounds:
  "table_allows attrdef_ntfs3x_array AT_STANDARD_INFORMATION n = (48 \<le> n \<and> n \<le> 72)"
  "table_allows attrdef_ntfs3x_array AT_FILE_NAME n = (68 \<le> n \<and> n \<le> 578)"
  "table_allows attrdef_ntfs3x_array AT_OBJECT_ID n = (n \<le> 256)"
  "table_allows attrdef_ntfs3x_array AT_SECURITY_DESCRIPTOR n = (n < 2 ^ 64)"
  "table_allows attrdef_ntfs3x_array AT_VOLUME_NAME n = (2 \<le> n \<and> n \<le> 256)"
  "table_allows attrdef_ntfs3x_array AT_VOLUME_INFORMATION n = (n = 12)"
  "table_allows attrdef_ntfs3x_array AT_DATA n = (n < 2 ^ 64)"
  "table_allows attrdef_ntfs3x_array AT_INDEX_ROOT n = (n < 2 ^ 64)"
  "table_allows attrdef_ntfs3x_array AT_INDEX_ALLOCATION n = (n < 2 ^ 64)"
  "table_allows attrdef_ntfs3x_array AT_BITMAP n = (n < 2 ^ 64)"
  unfolding table_allows_def read_attrdef attr_defs_def attr_types by (simp_all, linarith+)

section \<open>The steps on a record\<close>

text \<open>
  \<open>mb\<close> converts names, \<open>vi\<close> gives the bytes of the volume information. The name of the volume is not empty here: without
  a label the formatter adds an empty one.
\<close>

inductive adds :: "'d mkenv \<Rightarrow> (string \<Rightarrow> ntfschar list option) \<Rightarrow> (bool \<Rightarrow> nat \<Rightarrow> nat \<Rightarrow> byte list) \<Rightarrow> mft_record \<Rightarrow> mft_record \<Rightarrow> bool"
  for env mb vi where
  std_info: "add_attr_std_info env now fl sid m st = Ret (e, m', st') \<Longrightarrow> adds env mb vi m m'"
| file_name: "add_attr_file_name env mb p al da fl ea rp s ns m st = Ret (e, m', st') \<Longrightarrow> adds env mb vi m m'"
| object_id: "length guid = 16 \<Longrightarrow> add_attr_object_id env guid m st = Ret (e, m', st') \<Longrightarrow> adds env mb vi m m'"
| sd: "length sd < 2 ^ 64 \<Longrightarrow> add_attr_sd env sd m st = Ret (e, m', st') \<Longrightarrow> adds env mb vi m m'"
| data: "length (case val of None \<Rightarrow> [] | Some b \<Rightarrow> b) < 2 ^ 64 \<Longrightarrow> add_attr_data env name nl ic fl val m st = Ret (e, m', st') \<Longrightarrow>
    adds env mb vi m m'"
| data_positioned: "n < 2 ^ 64 \<Longrightarrow> add_attr_data_positioned env name nl ic fl rl val n m st = Ret (e, m', st') \<Longrightarrow> adds env mb vi m m'"
| vol_name: "mb s \<noteq> Some [] \<Longrightarrow> add_attr_vol_name env mb (Some s) m st = Ret (e, m', st') \<Longrightarrow> adds env mb vi m m'"
| vol_info: "add_attr_vol_info env vi dirty major minor m st = Ret (e, m', st') \<Longrightarrow> adds env mb vi m m'"
| index_root: "add_attr_index_root env name nl ic t rule bs m st = Ret (e, m', st') \<Longrightarrow> adds env mb vi m m'"
| index_alloc: "length val < 2 ^ 64 \<Longrightarrow> add_attr_index_alloc env name nl ic val m st = Ret (e, m', st') \<Longrightarrow> adds env mb vi m m'"
| bitmap: "length val < 2 ^ 64 \<Longrightarrow> add_attr_bitmap env name nl ic val m st = Ret (e, m', st') \<Longrightarrow> adds env mb vi m m'"
| bitmap_positioned: "length val < 2 ^ 64 \<Longrightarrow> add_attr_bitmap_positioned env name nl ic rl val m st = Ret (e, m', st') \<Longrightarrow> adds env mb vi m m'"

lemma adds_sized:
  assumes "adds env mb vi m m'" and "sized m" and "\<forall>d a b. length (vi d a b) = 12"
  shows "sized m'"
  using assms(1,2)
proof (induction rule: adds.induct)
  case std_info
  then show ?case by (auto simp: table_bounds elim: sized.std_info)
next
  case file_name
  then show ?case by (auto simp: table_bounds elim: sized.file_name)
next
  case object_id
  then show ?case by (auto simp: table_bounds elim: sized.object_id)
next
  case sd
  then show ?case by (auto simp: table_bounds elim: sized.sd)
next
  case data
  then show ?case by (auto simp: table_bounds elim: sized.data)
next
  case data_positioned
  then show ?case by (auto simp: table_bounds nat_less_iff elim: sized.data_positioned)
next
  case (vol_name s)
  then show ?case by (intro sized.vol_name [OF vol_name(2,3)]) (auto simp: table_bounds Suc_le_eq)
next
  case vol_info
  then show ?case using assms(3) by (auto simp: table_bounds elim: sized.vol_info)
next
  case index_root
  then show ?case by (auto simp: table_bounds elim: sized.index_root)
next
  case index_alloc
  then show ?case by (auto simp: table_bounds elim: sized.index_alloc)
next
  case bitmap
  then show ?case by (auto simp: table_bounds elim: sized.bitmap)
next
  case bitmap_positioned
  then show ?case by (auto simp: table_bounds elim: sized.bitmap_positioned)
qed


text \<open>Without a label the volume name is empty, which the table does not allow.\<close>

lemma no_label_not_allowed: "\<not> table_allows attrdef_ntfs3x_array AT_VOLUME_NAME (value_len (Raw []))"
  by (simp add: table_bounds value_len_def)


end
