(* ===== verification/Root_Props.thy ===== *)
theory Root_Props
  imports Root_Files Attr_Sizes
begin

text \<open>
  What the creation of the system files leaves behind: the index of the root directory lists exactly the system files, with
  references that agree with the records, and the records in use are those the bitmap of the MFT marks.
\<close>

section \<open>Steps\<close>

text \<open>What identifies a record, as far as the steps keep it: its number, its sequence number and whether it is in use.\<close>

definition card_of :: "mft_record \<Rightarrow> nat \<times> nat \<times> bool" where
  "card_of m = (m_number m, m_sequence_number m, MFT_RECORD_IN_USE \<in> m_flags m)"

lemma card_of_ident: "ident m = ident m' \<Longrightarrow> card_of m = card_of m'"
  by (simp add: ident_def card_of_def)

lemma map_update_same: "f x = f (xs ! i) \<Longrightarrow> map f (xs[i := x]) = map f xs"
  by (cases "i < length xs") (simp_all add: map_update list_update_same_conv list_update_beyond)

definition key_name :: "index_key \<Rightarrow> ntfschar list" where
  "key_name k = (case k of File_key f \<Rightarrow> fn_file_name f | _ \<Rightarrow> [])"

text \<open>The names and references an index holds, and those that links of the given names make.\<close>

definition listing :: "index_header \<Rightarrow> (ntfschar list option \<times> nat) set" where
  "listing h = (\<lambda>e. (Some (key_name (ie_key e)), ie_indexed_file e)) ` live h"

definition links :: "'d root_cfg \<Rightarrow> (string \<times> nat) set \<Rightarrow> (ntfschar list option \<times> nat) set" where
  "links c L = (\<lambda>(nm, ref). (rc_mb c nm, ref)) ` L"

definition dir_ok :: "(ntfschar \<Rightarrow> ntfschar) \<Rightarrow> index_header \<Rightarrow> bool" where
  "dir_ok up h = header_ok name_ok (name_rank up) h"

text \<open>A step that succeeds keeps the cards and the bitmap and adds the links to the directory.\<close>

definition step_adds :: "'d root_cfg \<Rightarrow> (ntfschar \<Rightarrow> ntfschar) \<Rightarrow> 'd root_step \<Rightarrow> (string \<times> nat) set \<Rightarrow> bool" where
  "step_adds c up f L \<longleftrightarrow> (\<forall>s s'. f c s = Ret (None, s') \<longrightarrow>
     map card_of (rs_recs s') = map card_of (rs_recs s) \<and> rs_mft_bitmap s' = rs_mft_bitmap s \<and>
     (\<forall>h. rs_index s = Some h \<and> dir_ok up h \<longrightarrow> (\<exists>h'. rs_index s' = Some h' \<and> dir_ok up h' \<and> listing h' = listing h \<union> links c L)))"

lemma links_Un: "links c (L \<union> M) = links c L \<union> links c M"
  by (simp add: links_def image_Un)

lemma step_adds_andthen:
  assumes "step_adds c up f L" and "step_adds c up g M"
  shows "step_adds c up (andthen f g) (L \<union> M)"
  unfolding step_adds_def
proof (intro allI impI)
  fix s s'
  assume "andthen f g c s = Ret (None, s')"
  then obtain s1 where s1: "f c s = Ret (None, s1)" "g c s1 = Ret (None, s')"
    by (auto simp: andthen_def split: run.splits option.splits)
  note a = assms [unfolded step_adds_def, rule_format]
  show "map card_of (rs_recs s') = map card_of (rs_recs s) \<and> rs_mft_bitmap s' = rs_mft_bitmap s \<and>
     (\<forall>h. rs_index s = Some h \<and> dir_ok up h \<longrightarrow>
        (\<exists>h'. rs_index s' = Some h' \<and> dir_ok up h' \<and> listing h' = listing h \<union> links c (L \<union> M)))"
    using a(1) [OF s1(1)] a(2) [OF s1(2)] by (simp add: links_Un) (metis Un_assoc)
qed

lemma step_adds_all:
  "list_all2 (step_adds c up) fs Ls \<Longrightarrow> step_adds c up (all_of fs) (\<Union> (set Ls))"
proof (induction rule: list_all2_induct)
  case Nil
  then show ?case by (simp add: step_adds_def links_def)
next
  case (Cons f fs L Ls)
  then show ?case using step_adds_andthen by fastforce
qed

lemma on_record_adds:
  assumes "\<And>s env m mk e m' mk'. g c s env m mk = Ret (e, m', mk') \<Longrightarrow> ident m' = ident m"
  shows "step_adds c up (on_record i g) {}"
  using card_of_ident [OF assms]
  by (auto simp: step_adds_def on_record_def set_record_def links_def split: run.splits prod.splits intro!: map_update_same)

lemma on_view_adds:
  assumes "\<And>s env m e m'. g c s env m = Ret (e, m') \<Longrightarrow> ident m' = ident m"
  shows "step_adds c up (on_view i g) {}"
  using card_of_ident [OF assms]
  by (auto simp: step_adds_def on_view_def set_record_def links_def split: run.splits prod.splits intro!: map_update_same)

lemma set_flags_adds: "MFT_RECORD_IN_USE \<notin> fl \<Longrightarrow> step_adds c up (set_flags i fl) {}"
  by (auto simp: step_adds_def set_flags_def set_record_def links_def card_of_def intro!: map_update_same)

section \<open>Links\<close>

lemma link_file_inv:
  assumes "link_file env enter f m idx = Ret (None, m', idx')"
  shows "enter f idx = Ret (None, idx')" and "ident m' = ident m"
proof -
  let ?m = "m\<lparr>m_link_count := m_link_count m + 1\<rparr>"
  from assms show "enter f idx = Ret (None, idx')"
    by (auto simp: link_file_def Let_def split: if_splits run.splits option.splits prod.splits)
  from assms have "insert_resident_attr_in_mft_record (me_ops env) (me_mem env) (me_str2ucs env None) 0 AT_FILE_NAME False {} True
      (Some (File_name f)) ?m = Ret (None, m')"
    by (auto simp: link_file_def Let_def split: if_splits run.splits option.splits prod.splits)
  from ident.inserted [OF this refl] show "ident m' = ident m" by (simp add: ident_def)
qed

lemma create_hardlink_inv:
  assumes "create_hardlink env mb now p ref al da fl ea rp nm ns m idx = Ret (None, m', idx')"
  shows "\<exists>f. check_name mb nm = Inr (fn_file_name f) \<and> fn_file_name_type f = ns \<and>
      insert_file_link_in_dir_index (nm_collate (me_ops env)) ref f idx = (None, idx')" and "ident m' = ident m"
proof -
  define f where "f = (\<lambda>u. link_name p (stdinfo_time env now m) (if al \<noteq> 0 \<and> non_resident_unnamed_data env m then al else up8_int da) da
    fl ea rp ns u)"
  have f: "fn_file_name (f u) = u" "fn_file_name_type (f u) = ns" for u by (simp_all add: f_def link_name_def)
  from assms obtain u where u: "check_name mb nm = Inr u"
    and l: "link_file env (\<lambda>f h. Ret (insert_file_link_in_dir_index (nm_collate (me_ops env)) ref f h)) (f u) m idx = Ret (None, m', idx')"
    by (auto simp: create_hardlink_def f_def split: if_splits sum.splits)
  from link_file_inv [OF l] u show "\<exists>f. check_name mb nm = Inr (fn_file_name f) \<and> fn_file_name_type f = ns \<and>
      insert_file_link_in_dir_index (nm_collate (me_ops env)) ref f idx = (None, idx')" "ident m' = ident m"
    by (auto intro!: exI [of _ "f u"] simp: f)
qed

lemma check_name_length: "check_name mb nm = Inr u \<Longrightarrow> mb nm = Some u \<and> length u < 256"
  by (auto simp: check_name_def split: option.splits if_splits)

text \<open>The surroundings of every call compare names as documented.\<close>

definition names_ok :: "'d root_cfg \<Rightarrow> (ntfschar \<Rightarrow> ntfschar) \<Rightarrow> bool" where
  "names_ok c up \<longleftrightarrow> (\<forall>n. collates up (nm_collate (me_ops (rc_env c n))))"

lemma enter_listing:
  assumes "names_ok c up" and "insert_file_link_in_dir_index (nm_collate (me_ops (rc_env c n))) ref f h = (None, h')" and "dir_ok up h"
    and "fn_file_name_type f \<noteq> FILE_NAME_POSIX" and "length (fn_file_name f) < 256"
  shows "dir_ok up h' \<and> listing h' = listing h \<union> {(Some (fn_file_name f), ref)}"
proof -
  have "collates up (nm_collate (me_ops (rc_env c n)))" using assms(1) by (simp add: names_ok_def)
  from dir_insert_spec [OF this assms(3) [unfolded dir_ok_def] assms(4,5), of ref] assms(2)
  obtain e where "header_ok name_ok (name_rank up) h'" "ie_key e = File_key f" "ie_indexed_file e = ref" "live h' = insert e (live h)"
    by auto
  then show ?thesis by (auto simp: dir_ok_def listing_def key_name_def)
qed

lemma link_root_adds:
  assumes "names_ok c up"
  shows "step_adds c up (link_root i ref al da fl nm) {(nm, ref)}"
  unfolding step_adds_def
proof (intro allI impI)
  fix s s'
  assume r: "link_root i ref al da fl nm c s = Ret (None, s')"
  then obtain h m h' where h: "rs_index s = Some h" and cr: "create_hardlink (rc_env c (rs_clock s)) (rc_mb c) (rc_now c (rs_clock s)) root_ref ref
      (al c s) (da c s) fl 0 0 nm FILE_NAME_WIN32_AND_DOS (rs_recs s ! i) h = Ret (None, m, h')"
    and s': "s' = (set_record i m s)\<lparr>rs_index := Some h'\<rparr>"
    by (auto simp: link_root_def split: option.splits run.splits prod.splits)
  note inv = create_hardlink_inv [OF cr]
  from inv(1) obtain f where f: "check_name (rc_mb c) nm = Inr (fn_file_name f)" "fn_file_name_type f = FILE_NAME_WIN32_AND_DOS"
      "insert_file_link_in_dir_index (nm_collate (me_ops (rc_env c (rs_clock s)))) ref f h = (None, h')" by blast
  note nm = check_name_length [OF f(1)]
  have "dir_ok up h' \<and> listing h' = listing h \<union> links c {(nm, ref)}" if "dir_ok up h"
    using enter_listing [OF assms f(3) that] f(2) nm by (simp add: links_def)
  then show "map card_of (rs_recs s') = map card_of (rs_recs s) \<and> rs_mft_bitmap s' = rs_mft_bitmap s \<and>
     (\<forall>h. rs_index s = Some h \<and> dir_ok up h \<longrightarrow> (\<exists>h'. rs_index s' = Some h' \<and> dir_ok up h' \<and> listing h' = listing h \<union> links c {(nm, ref)}))"
    using card_of_ident [OF inv(2)] h by (auto simp: s' set_record_def intro!: map_update_same)
qed

lemma index_entry_ident: "insert_index_entry_in_res_dir_index env rsz e sz nm t m = Ret (er, m') \<Longrightarrow> ident m' = ident m"
  by (auto simp: insert_index_entry_in_res_dir_index_def Let_def set_attr_def ident_def
      split: if_splits attr_search.splits attr_form.splits attr_value.splits option.splits)

lemma then_insert_ident:
  assumes "then_insert r f = Ret (e, m')" and "\<And>e m1. r = Ret (e, m1) \<Longrightarrow> ident m1 = ident m"
    and "\<And>m1 e m2. f m1 = Ret (e, m2) \<Longrightarrow> ident m2 = ident m1"
  shows "ident m' = ident m"
proof (cases r)
  case (Ret x)
  obtain eo m1 where x: "x = (eo, m1)" by (cases x)
  show ?thesis using assms(1) assms(2) [OF Ret [unfolded x]] assms(3) Ret x by (cases eo) (auto simp: then_insert_def)
qed (use assms(1) in \<open>simp_all add: then_insert_def\<close>)

lemma secure_ident: "secure_from env rsz at sz pos m = Ret (e, m') \<Longrightarrow> ident m' = ident m"
proof (induction "sz - pos" arbitrary: pos m e m' rule: less_induct)
  case less
  show ?case
  proof (cases "pos < sz \<and> sds_length (at pos) \<noteq> 0")
    case True
    have "16 div 16 * 16 \<le> (sds_length (at pos) + 15) div 16 * 16" using True by (intro mult_le_mono1 div_le_mono) simp
    then have "sz - (pos + (sds_length (at pos) + 15) div 16 * 16) < sz - pos" using True by simp linarith
    from less.hyps [OF this] less.prems True show ?thesis
      by (auto simp: secure_from.simps [of env rsz at sz pos] elim!: then_insert_ident dest: index_entry_ident)
  next
    case False
    with less.prems show ?thesis by (subst (asm) secure_from.simps) auto
  qed
qed

lemma view_idents:
  "initialize_secure env mem rsz at sz m = Ret (e, m') \<Longrightarrow> ident m' = ident m"
  "initialize_quota env q sdc rsz now m = Ret (e, m') \<Longrightarrow> ident m' = ident m"
  "index_obj_id_insert env rsz oi guid ref m = Ret (e, m') \<Longrightarrow> ident m' = ident m"
  by (auto simp: initialize_secure_def initialize_quota_def index_obj_id_insert_def Let_def dest: secure_ident index_entry_ident
      split: if_splits elim!: then_insert_ident)

lemma link_extend_adds: "i \<noteq> 11 \<Longrightarrow> step_adds c up (link_extend i ref fl nm) {}"
  unfolding step_adds_def
proof (intro allI impI)
  fix s s'
  assume "i \<noteq> 11" and r: "link_extend i ref fl nm c s = Ret (None, s')"
  then obtain m p where cr: "create_hardlink_res (rc_env c (rs_clock s)) (vp_mft_record_size (rc_vol c)) (rc_mb c) (rc_now c (rs_clock s))
      extend_ref ref 0 0 fl 0 0 nm FILE_NAME_WIN32_AND_DOS (rs_recs s ! i) (rs_recs s ! 11) = Ret (None, m, p)"
    and s': "s' = (set_record i m s)\<lparr>rs_recs := (rs_recs s)[i := m, 11 := p]\<rparr>"
    by (auto simp: link_extend_def split: run.splits prod.splits)
  from cr obtain u where l: "link_file (rc_env c (rs_clock s))
      (\<lambda>f p. insert_index_entry_in_res_dir_index (rc_env c (rs_clock s)) (vp_mft_record_size (rc_vol c)) (dir_entry ref f)
          ((file_name_size f + 7) div 8 * 8 + 0x10) (ascii ''$I30'') AT_FILE_NAME p)
      (link_name extend_ref (stdinfo_time (rc_env c (rs_clock s)) (rc_now c (rs_clock s)) (rs_recs s ! i)) 0 0 fl 0 0 FILE_NAME_WIN32_AND_DOS u)
      (rs_recs s ! i) (rs_recs s ! 11) = Ret (None, m, p)"
    by (auto simp: create_hardlink_res_def split: if_splits sum.splits)
  note inv = link_file_inv [OF l]
  from card_of_ident [OF inv(2)] card_of_ident [OF index_entry_ident [OF inv(1)]] \<open>i \<noteq> 11\<close>
  show "map card_of (rs_recs s') = map card_of (rs_recs s) \<and> rs_mft_bitmap s' = rs_mft_bitmap s \<and>
     (\<forall>h. rs_index s = Some h \<and> dir_ok up h \<longrightarrow> (\<exists>h'. rs_index s' = Some h' \<and> dir_ok up h' \<and> listing h' = listing h \<union> links c {}))"
    by (simp add: s' set_record_def map_update_same links_def)
qed

section \<open>The files\<close>

lemma add_sd_adds: "step_adds c up (add_system_sd i) {}" "step_adds c up add_root_sd {}"
proof -
  have r: "step_adds c up (on_record i (\<lambda>c s env m mk. add_attr_sd env sd m mk)) {}" for i sd
    by (rule on_record_adds) (auto elim!: ident.sd [OF _ refl])
  show "step_adds c up (add_system_sd i) {}" "step_adds c up add_root_sd {}"
    using r [unfolded step_adds_def] unfolding step_adds_def
    by (fastforce simp: add_system_sd_def add_root_sd_def Let_def split: prod.splits)+
qed

text \<open>A pause, and a step that is left out under a condition.\<close>

lemma guard_adds:
  "step_adds c up f {} \<Longrightarrow> step_adds c up (\<lambda>c s. if b c s then f c s else Ret (None, s)) {}"
  "step_adds c up (\<lambda>c s. if b c s then Ret (None, s) else Ret (Some e, s)) {}"
  by (auto simp: step_adds_def links_def)

text \<open>Adding attributes to a record adds nothing to the directory.\<close>

lemma attribute_adds:
  "step_adds c up (on_record i (\<lambda>c s env m mk. add_attr_data_positioned env (nm c s) nl ic fl (rl c s) (v c s) (n c s) m mk)) {}"
  "step_adds c up (on_record i (\<lambda>c s env m mk. add_attr_bitmap_positioned env (nm c s) nl ic (rl c s) (v c s) m mk)) {}"
  "step_adds c up (on_record i (\<lambda>c s env m mk. add_attr_data env (nm c s) nl ic fl (ov c s) m mk)) {}"
  "step_adds c up (on_record i (\<lambda>c s env m mk. insert_non_resident_attr_in_mft_record env t (nm c s) nl ic fl (v c s) (n c s) wt m mk)) {}"
  "step_adds c up (on_record i (\<lambda>c s env m mk. add_attr_vol_name env (mb c s) (vn c s) m mk)) {}"
  "step_adds c up (on_record i (\<lambda>c s env m mk. add_attr_vol_info env (vi c s) d x y m mk)) {}"
  "step_adds c up (on_record i (\<lambda>c s env m mk. add_attr_object_id env g m mk)) {}"
  "step_adds c up (add_empty_data i) {}" "step_adds c up (add_view_root i name nl t rule) {}"
  unfolding add_empty_data_def add_view_root_def
  by (rule on_record_adds, auto elim!: ident.data_positioned [OF _ refl] ident.bitmap_positioned [OF _ refl] ident.data [OF _ refl]
      ident.non_resident [OF _ refl] ident.vol_name [OF _ refl] ident.vol_info [OF _ refl] ident.object_id [OF _ refl]
      ident.index_root [OF _ refl])+

lemma view_adds:
  "step_adds c up (on_view i (\<lambda>c s env m. initialize_secure env (mem c s env) (rsz c s) (at c s) sz m)) {}"
  "step_adds c up (on_view i (\<lambda>c s env m. initialize_quota env (q c s) (sdc c s) (rsz c s) (now c s) m)) {}"
  "step_adds c up (on_view i (\<lambda>c s env m. index_obj_id_insert env (rsz c s) (oi c s) g ref m)) {}"
  by (rule on_view_adds, erule view_idents)+

lemma all_of_adds:
  "step_adds c up (all_of []) {}"
  "step_adds c up f L \<Longrightarrow> step_adds c up (all_of fs) {} \<Longrightarrow> step_adds c up (all_of (f # fs)) L"
  "step_adds c up f {} \<Longrightarrow> step_adds c up (all_of fs) L \<Longrightarrow> step_adds c up (all_of (f # fs)) L"
proof -
  show "step_adds c up (all_of []) {}" by (simp add: step_adds_def links_def)
  show "step_adds c up f L \<Longrightarrow> step_adds c up (all_of fs) {} \<Longrightarrow> step_adds c up (all_of (f # fs)) L"
    using step_adds_andthen [of c up f L "all_of fs" "{}"] by simp
  show "step_adds c up f {} \<Longrightarrow> step_adds c up (all_of fs) L \<Longrightarrow> step_adds c up (all_of (f # fs)) L"
    using step_adds_andthen [of c up f "{}" "all_of fs" L] by simp
qed

lemmas step_adds_rules = all_of_adds(1) guard_adds attribute_adds view_adds add_sd_adds link_extend_adds set_flags_adds

lemmas create_defs = create_mft_def create_mftmirr_def create_logfile_def create_attrdef_def create_bitmap_def create_boot_def
  create_file_volume_def create_badclus_def create_secure_def create_upcase_def create_extend_def create_reserved_def create_quota_def
  create_objid_def create_reparse_def

lemma files_add:
  assumes "names_ok c up"
  shows "step_adds c up create_mft {(''$MFT'', mk_mref 0 1)}"
    "step_adds c up create_mftmirr {(''$MFTMirr'', mk_mref 1 1)}"
    "step_adds c up create_logfile {(''$LogFile'', mk_mref 2 2)}"
    "step_adds c up create_attrdef {(''$AttrDef'', mk_mref 4 4)}"
    "step_adds c up create_bitmap {(''$Bitmap'', mk_mref 6 6)}"
    "step_adds c up (create_boot bs) {(''$Boot'', mk_mref 7 7)}"
    "step_adds c up (create_file_volume d g) {(''$Volume'', mk_mref 3 3)}"
    "step_adds c up create_badclus {(''$BadClus'', mk_mref 8 8)}"
    "step_adds c up create_secure {(''$Secure'', mk_mref 9 9)}"
    "step_adds c up create_upcase {(''$UpCase'', mk_mref 10 10)}"
    "step_adds c up create_extend {(''$Extend'', mk_mref 11 11)}"
    "step_adds c up (create_reserved i) {}" "step_adds c up create_quota {}" "step_adds c up (create_objid g) {}"
    "step_adds c up create_reparse {}"
  unfolding create_defs
  by ((rule step_adds_rules link_root_adds [OF assms] | rule all_of_adds(2), rule link_root_adds [OF assms] | rule all_of_adds(3) | simp; fail)+)

lemma boot_and_volume_adds:
  assumes "names_ok c up"
  shows "step_adds c up create_boot_and_volume {(''$Boot'', mk_mref 7 7), (''$Volume'', mk_mref 3 3)}"
  unfolding step_adds_def
proof (intro allI impI)
  fix s s'
  let ?L = "{(''$Boot'', mk_mref 7 7), (''$Volume'', mk_mref 3 3)}"
  assume "create_boot_and_volume c s = Ret (None, s')"
  then obtain bs s1 r s2 where r: "create_boot bs c s = Ret (None, s1)" "backup_boot bs c s1 = Ret (r, s2)"
      "create_file_volume (r \<noteq> 0) (volume_guid c) c s2 = Ret (None, s')"
    by (auto simp: create_boot_and_volume_def split: if_splits option.splits run.splits prod.splits)
  have s2: "rs_recs s2 = rs_recs s1" "rs_index s2 = rs_index s1" "rs_mft_bitmap s2 = rs_mft_bitmap s1"
    using r(2) by (auto simp: backup_boot_def Let_def split: option.splits)
  note a = files_add(6) [OF assms, unfolded step_adds_def, rule_format, OF r(1)]
    and b = files_add(7) [OF assms, unfolded step_adds_def, rule_format, OF r(3)]
  have u: "links c ?L = links c {(''$Boot'', mk_mref 7 7)} \<union> links c {(''$Volume'', mk_mref 3 3)}" by (auto simp: links_def)
  show "map card_of (rs_recs s') = map card_of (rs_recs s) \<and> rs_mft_bitmap s' = rs_mft_bitmap s \<and>
     (\<forall>h. rs_index s = Some h \<and> dir_ok up h \<longrightarrow> (\<exists>h'. rs_index s' = Some h' \<and> dir_ok up h' \<and> listing h' = listing h \<union> links c ?L))"
    using a b s2 unfolding u by (simp add: s2) (metis Un_assoc)
qed

section \<open>The loop over the system files\<close>

lemma all_of_append: "all_of (fs @ gs) = andthen (all_of fs) (all_of gs)"
proof -
  have assoc: "andthen (andthen f g) h = andthen f (andthen g h)" for f g h :: "'a root_step"
    by (intro ext) (simp add: andthen_def split: run.splits prod.splits option.splits)
  have unit: "andthen (\<lambda>c s. Ret (None, s)) g = g" for g :: "'a root_step"
    by (intro ext) (simp add: andthen_def)
  show ?thesis by (induction fs) (simp_all add: assoc unit)
qed

text \<open>The state after the rounds for the files below \<open>n\<close>.\<close>

definition info_done :: "nat \<Rightarrow> 'd root_st \<Rightarrow> 'd root_st \<Rightarrow> bool" where
  "info_done n s0 s \<longleftrightarrow> length (rs_recs s) = length (rs_recs s0) \<and> length (rs_mft_bitmap s) = length (rs_mft_bitmap s0) \<and>
     rs_index s = rs_index s0 \<and>
     (\<forall>i < length (rs_recs s0). let m = rs_recs s ! i; m0 = rs_recs s0 ! i in
        (if i < n \<and> used_system_file i then card_of m = (i, m_sequence_number m0, True) else card_of m = card_of m0) \<and>
        (m_attrs m0 = [] \<longrightarrow> all_values plain m)) \<and>
     (\<forall>i. test_bit (rs_mft_bitmap s) i \<longleftrightarrow> test_bit (rs_mft_bitmap s0) i \<or> i < n \<and> used_system_file i)"

lemma info_round:
  assumes "info_done n s0 s" and "system_file_info n c s = Ret (e, s')" and "n < 8 * length (rs_mft_bitmap s0)"
  shows "e = None \<and> info_done (Suc n) s0 s'"
proof -
  let ?m = "rs_recs s ! n"
  define m1 where "m1 = (if used_system_file n then ?m\<lparr>m_number := n, m_flags := m_flags ?m \<union> {MFT_RECORD_IN_USE}\<rparr> else ?m)"
  define bm where "bm = (if used_system_file n then set_bit_at (rs_mft_bitmap s) n else rs_mft_bitmap s)"
  define s1 where "s1 = s\<lparr>rs_recs := (rs_recs s)[n := m1], rs_mft_bitmap := bm\<rparr>"
  from assms(2) obtain e' m2 mk where e: "e = None"
    and r: "add_attr_std_info (rc_env c (rs_clock s)) (rc_now c (rs_clock s)) (system_file_attrs (rc_opts c) n) (system_security_id n)
      (rs_recs s1 ! n) (rs_mk s) = Ret (e', m2, mk)"
    and s': "s' = (set_record n m2 s1)\<lparr>rs_mk := mk\<rparr>"
    by (auto simp: system_file_info_def on_record_def Let_def s1_def m1_def bm_def split: run.splits prod.splits)
  have at: "i < length (rs_recs s0) \<Longrightarrow> rs_recs s' ! i = (if i = n then m2 else rs_recs s ! i)" for i
    using assms(1) by (simp add: s' s1_def set_record_def info_done_def nth_list_update)
  have "card_of m2 = card_of m1" "m_attrs (rs_recs s0 ! n) = [] \<longrightarrow> all_values plain m2" if "n < length (rs_recs s0)"
  proof -
    have m1: "rs_recs s1 ! n = m1" using assms(1) that by (simp add: s1_def info_done_def)
    from r [unfolded m1] show "card_of m2 = card_of m1" by (rule card_of_ident [OF ident.std_info [OF _ refl]]) simp
    have "m_attrs (rs_recs s0 ! n) = [] \<Longrightarrow> all_values plain m1"
      using assms(1) that by (simp add: info_done_def Let_def m1_def all_values_def)
    then show "m_attrs (rs_recs s0 ! n) = [] \<longrightarrow> all_values plain m2"
      using all_values.std_info [OF r [unfolded m1], of plain] by (simp add: plain_def)
  qed
  moreover have "card_of m1 = (if used_system_file n then (n, m_sequence_number ?m, True) else card_of ?m)"
    by (simp add: m1_def card_of_def)
  moreover have "n < length (rs_recs s0) \<Longrightarrow> card_of ?m = card_of (rs_recs s0 ! n)"
    using assms(1) by (simp add: info_done_def Let_def)
  then have "n < length (rs_recs s0) \<Longrightarrow> m_sequence_number ?m = m_sequence_number (rs_recs s0 ! n)" by (simp add: card_of_def)
  moreover have "test_bit bm i \<longleftrightarrow> test_bit (rs_mft_bitmap s) i \<or> i = n \<and> used_system_file n" for i
    using assms(1,3) by (auto simp: bm_def info_done_def test_set_bit_at)
  moreover have "length bm = length (rs_mft_bitmap s)" by (simp add: bm_def)
  moreover have "rs_mft_bitmap s' = bm" "rs_index s' = rs_index s" "length (rs_recs s') = length (rs_recs s)"
    by (simp_all add: s' s1_def set_record_def)
  ultimately show ?thesis
    using assms(1) e at by (auto simp: info_done_def Let_def less_Suc_eq)
qed

lemma info_all:
  assumes "all_of [system_file_info i. i \<leftarrow> [0..<n]] c s0 = Ret (e, s)" and "n \<le> 8 * length (rs_mft_bitmap s0)"
  shows "e = None \<and> info_done n s0 s"
  using assms
proof (induction n arbitrary: e s)
  case 0
  then show ?case by (simp add: info_done_def Let_def all_values_def)
next
  case (Suc n)
  obtain s1 where s1: "all_of [system_file_info i. i \<leftarrow> [0..<n]] c s0 = Ret (None, s1)" "system_file_info n c s1 = Ret (e, s)"
    and inv: "info_done n s0 s1"
  proof (cases "all_of [system_file_info i. i \<leftarrow> [0..<n]] c s0")
    case (Ret x)
    obtain e1 s1 where x: "x = (e1, s1)" by (cases x)
    have ih: "e1 = None \<and> info_done n s0 s1" using Suc.IH [of e1 s1] Ret x Suc.prems(2) by simp
    show ?thesis
      using that [of s1] ih Ret x Suc.prems(1)
      by (auto simp: all_of_append andthen_def split: run.splits prod.splits option.splits)
  qed (use Suc.prems(1) in \<open>simp_all add: all_of_append andthen_def\<close>)
  from info_round [OF inv s1(2)] Suc.prems(2) show ?case by simp
qed

section \<open>The root directory\<close>

text \<open>Documented of the library: resizing the value of an attribute replaces that attribute, and leaves the header as it is.\<close>

definition resizes :: "'d root_cfg \<Rightarrow> bool" where
  "resizes c \<longleftrightarrow> (\<forall>m k v n m'. rc_resize c m k v n = Some m' \<longrightarrow>
     ident m' = ident m \<and> (\<exists>a. attr_val a = Some v \<and> m_attrs m' = (m_attrs m)[k := a]))"

lemma resized:
  assumes "resizes c" and "rc_resize c m k v n = Some m'" and "all_values p m" and "p (Some v)"
  shows "ident m' = ident m" and "all_values p m'"
proof -
  from assms(1,2) obtain a where a: "ident m' = ident m" "attr_val a = Some v" "m_attrs m' = (m_attrs m)[k := a]"
    unfolding resizes_def by metis
  show "ident m' = ident m" by (rule a(1))
  show "all_values p m'"
    using assms(3,4) a(2) set_update_subset_insert [of "m_attrs m" k a] by (auto simp: all_values_def list_all_iff a(3))
qed

lemma new_dir_names: "new_dir u bs v \<Longrightarrow> names_are u v"
  by (simp add: new_dir_def)

lemma all_values_mono: "all_values p m \<Longrightarrow> (\<And>v. p v \<Longrightarrow> q v) \<Longrightarrow> all_values q m"
  by (auto simp: all_values_def list_all_iff)

lemma find_from_range: "find_from ops type name ic val alloc off k as = Found j \<Longrightarrow> k \<le> j \<and> j < k + length as"
proof (induction as arbitrary: off k)
  case (Cons a as)
  from Cons.IH [of "off + a_length a" "k + 1"] Cons.prems show ?case
    by (auto simp: Let_def split: if_splits verdict.splits option.splits attr_form.splits)
qed (simp split: if_splits)

lemma found_value:
  assumes "mkntfs_attr_lookup ops False m type name ic val fresh_ctx = Found k" and "all_values p m"
  shows "p (attr_val (m_attrs m ! k))"
proof -
  have "k < length (m_attrs m)"
    using find_from_range assms(1) by (fastforce simp: mkntfs_attr_lookup_def mkntfs_attr_find_def fresh_ctx_def)
  then show ?thesis using assms(2) by (simp add: all_values_def list_all_length)
qed

text \<open>The new index block is that of an empty directory.\<close>

lemma empty_block: "dir_ok up (new_block 4096 [end_entry])" "listing (new_block 4096 [end_entry]) = {}"
  by (simp_all add: dir_ok_def header_ok_def entries_ok_def new_block_def usa_count_def end_entry_def listing_def live_def Let_def)

lemma attr_result_cases:
  "r = Hang \<or> r = Undef \<or> (\<exists>e m st. r = Ret (Some e, m, st)) \<or> (\<exists>m st. r = Ret (None, m, st))" for r :: "('e option \<times> 'm \<times> 's) run"
  by (metis run.exhaust prod_cases3 not_None_eq)

lemma upgrade_inv:
  assumes up: "upgrade_to_large_index env (rc_resize c) blk name nl False m st = Ret (None, idx, m', st')"
    and "resizes c" and "all_values (new_dir u 4096) m"
  shows "idx = Some (new_block 4096 [end_entry])" and "ident m' = ident m" and "all_values (names_are u) m'"
proof -
  note d = upgrade_to_large_index_def
  obtain uname where un: "me_str2ucs env (Some name) = Some uname" using up by (cases "me_str2ucs env (Some name)") (simp_all add: d)
  have mem: "me_mem env" using up by (cases "me_mem env") (simp_all add: d un)
  obtain k where k: "mkntfs_attr_lookup (me_ops env) False m AT_INDEX_ROOT uname False None fresh_ctx = Found k"
    using up by (cases "mkntfs_attr_lookup (me_ops env) False m AT_INDEX_ROOT uname False None fresh_ctx") (simp_all add: d un mem)
  obtain vo vl v rf where f': "a_form (m_attrs m ! k) = Resident vo vl v rf"
    using up by (cases "a_form (m_attrs m ! k)") (simp_all add: d un mem k)
  have fl: "a_flags (m_attrs m ! k) = {}" using up by (cases "a_flags (m_attrs m ! k) = {}") (simp_all add: d un mem k f')
  obtain r where f: "a_form (m_attrs m ! k) = Resident vo vl (Index_root r) rf"
    using up by (cases v) (simp_all add: d un mem k f' fl)
  obtain m1 st1 where bm: "add_attr_bitmap env (Some name) nl False [1, 0, 0, 0, 0, 0, 0, 0] m st = Ret (None, m1, st1)"
    using up attr_result_cases [of "add_attr_bitmap env (Some name) nl False [1, 0, 0, 0, 0, 0, 0, 0] m st"]
    by (elim disjE exE) (simp_all add: d un mem k f fl)
  let ?r = "large_root r" and ?b = "new_block (ir_index_block_size r) (up_to_end (ih_entries (ir_header r)))"
  obtain m2 where rz: "rc_resize c m1 k (Index_root ?r) (16 + ih_allocated_size (ir_header ?r)) = Some m2"
    using up by (cases "rc_resize c m1 k (Index_root ?r) (16 + ih_allocated_size (ir_header ?r))") (simp_all add: d un mem k f fl bm Let_def)
  obtain bytes where bl: "blk ?b = Some bytes"
    using up by (cases "blk ?b") (simp_all add: d un mem k f fl bm Let_def rz)
  have ia: "add_attr_index_alloc env (Some name) nl False bytes m2 st1 = Ret (None, m', st')" and idx: "idx = Some ?b"
    using up attr_result_cases [of "add_attr_index_alloc env (Some name) nl False bytes m2 st1"]
    by (elim disjE exE; simp add: d un mem k f fl bm Let_def rz bl)+
  have "new_dir u 4096 (Some (Index_root r))" using found_value [OF k assms(3)] f by (simp add: attr_val_def)
  then show "idx = Some (new_block 4096 [end_entry])" by (simp add: idx new_dir_def up_to_end_def end_entry_def)
  have nm: "names_are u (Some (Index_root x))" "names_are u (Some (Raw b))" "names_are u None" for x b by (simp_all add: names_are_def)
  have m1: "all_values (names_are u) m1"
    by (rule all_values.bitmap [OF bm all_values_mono [OF assms(3) new_dir_names]]) (auto simp: nm)
  note m2 = resized [OF assms(2) rz m1 nm(1)]
  show "all_values (names_are u) m'" using all_values.index_alloc [OF ia m2(2)] nm by simp
  have "ident m' = ident m2" by (rule ident.index_alloc [OF ia refl]) simp
  also note m2(1)
  also have "ident m1 = ident m" by (rule ident.bitmap [OF bm refl]) simp
  finally show "ident m' = ident m" .
qed

lemma enter_root_name_inv:
  assumes "enter_root_name c s = Ret (None, s')" and "names_ok c up" and "rs_index s = Some h" and "dir_ok up h"
    and "all_values (names_are u) (rs_recs s ! 5)" and "length u < 256"
  shows "map card_of (rs_recs s') = map card_of (rs_recs s) \<and> rs_mft_bitmap s' = rs_mft_bitmap s \<and>
    (\<exists>h'. rs_index s' = Some h' \<and> dir_ok up h' \<and> listing h' = listing h \<union> {(Some u, root_ref)})"
proof -
  let ?env = "rc_env c (rs_clock s)" and ?m = "rs_recs s ! 5"
  from assms(1,3) obtain k vo vl f rf h' where
    k: "mkntfs_attr_lookup (me_ops ?env) False ?m AT_FILE_NAME Unnamed False None fresh_ctx = Found k"
    and a: "a_form (m_attrs ?m ! k) = Resident vo vl (File_name f) rf"
    and i: "insert_file_link_in_dir_index (nm_collate (me_ops ?env)) root_ref f h = (None, h')"
    and s': "s' = (set_record 5 ?m s)\<lparr>rs_index := Some h'\<rparr>"
    by (auto simp: enter_root_name_def Let_def split: if_splits attr_search.splits attr_form.splits attr_value.splits prod.splits)
  have "names_are u (Some (File_name f))" using found_value [OF k assms(5)] a by (simp add: attr_val_def)
  then have f: "fn_file_name f = u" "fn_file_name_type f \<noteq> FILE_NAME_POSIX" by (simp_all add: names_are_def)
  from enter_listing [OF assms(2) i assms(4) f(2)] assms(6) f(1) show ?thesis by (auto simp: s' set_record_def)
qed

lemma andthen_Ret: "andthen f g c s = Ret (None, s') \<longleftrightarrow> (\<exists>s1. f c s = Ret (None, s1) \<and> g c s1 = Ret (None, s'))"
  by (auto simp: andthen_def split: run.splits option.splits)

text \<open>What a call on the record of the root directory does to it.\<close>

lemma on_record_values:
  assumes "on_record i g c s = Ret (None, s')" and "i < length (rs_recs s)"
    and "\<And>mk e m' mk'. g c s (rc_env c (rs_clock s)) (rs_recs s ! i) mk = Ret (e, m', mk') \<Longrightarrow> all_values q m'"
  shows "all_values q (rs_recs s' ! i) \<and> length (rs_recs s') = length (rs_recs s)"
  using assms(1,2) assms(3) [of "rs_mk s"] by (auto simp: on_record_def set_record_def split: run.splits prod.splits)

definition root_prefix :: "'d root_step" where
  "root_prefix =
     all_of
       [set_flags 5 {MFT_RECORD_IS_DIRECTORY},
        count_link 5,
        on_record 5 (\<lambda>c s env m mk. add_attr_file_name env (rc_mb c) root_ref 0 0 (sys_flags \<union> {FILE_ATTR_I30_INDEX_PRESENT}) 0 0 ''.''
          FILE_NAME_WIN32_AND_DOS m mk),
        add_root_sd,
        add_view_root 5 ''$I30'' 4 AT_FILE_NAME COLLATION_FILE_NAME]"

lemma root_prefix_adds: "step_adds c up root_prefix {}"
proof -
  have "step_adds c up (count_link 5) {}"
    by (auto simp: step_adds_def count_link_def set_record_def links_def card_of_def intro!: map_update_same)
  moreover have "step_adds c up (on_record 5 (\<lambda>c s env m mk. add_attr_file_name env (rc_mb c) root_ref 0 0 (sys_flags \<union> {FILE_ATTR_I30_INDEX_PRESENT})
      0 0 ''.'' FILE_NAME_WIN32_AND_DOS m mk)) {}"
    by (rule on_record_adds) (auto elim!: ident.file_name [OF _ refl])
  ultimately show ?thesis
    unfolding root_prefix_def by (intro all_of_adds(1) all_of_adds(3) set_flags_adds add_sd_adds attribute_adds) simp_all
qed

lemma root_prefix_values:
  assumes "root_prefix c s = Ret (None, s')" and "vp_indx_record_size (rc_vol c) = 4096" and "5 < length (rs_recs s)"
    and "all_values plain (rs_recs s ! 5)"
  shows "\<exists>u. check_name (rc_mb c) ''.'' = Inr u \<and> all_values (new_dir u 4096) (rs_recs s' ! 5)"
proof -
  from assms(1) obtain s2 s3 s4 where s2: "s2 = set_record 5 ((rs_recs s ! 5)\<lparr>m_flags := m_flags (rs_recs s ! 5) \<union> {MFT_RECORD_IS_DIRECTORY},
        m_link_count := (m_link_count (rs_recs s ! 5) + 1) mod 2 ^ 16\<rparr>) (s\<lparr>rs_clock := rs_clock s + 1\<rparr>)"
    and s3: "on_record 5 (\<lambda>c s env m mk. add_attr_file_name env (rc_mb c) root_ref 0 0 (sys_flags \<union> {FILE_ATTR_I30_INDEX_PRESENT}) 0 0 ''.''
          FILE_NAME_WIN32_AND_DOS m mk) c s2 = Ret (None, s3)"
    and s4: "add_root_sd c s3 = Ret (None, s4)"
    and s': "add_view_root 5 ''$I30'' 4 AT_FILE_NAME COLLATION_FILE_NAME c s4 = Ret (None, s')"
    using assms(3) by (auto simp: root_prefix_def andthen_Ret set_flags_def count_link_def set_record_def)
  have p2: "all_values plain (rs_recs s2 ! 5)" "5 < length (rs_recs s2)"
    using assms(3,4) by (simp_all add: s2 set_record_def all_values_def)
  show ?thesis
  proof (cases "check_name (rc_mb c) ''.''")
    case (Inl e)
    then show ?thesis using s3 by (auto simp: on_record_def add_attr_file_name_def split: run.splits sum.splits if_splits attr_form.splits attr_value.splits)
  next
    case (Inr u)
    have new: "new_dir u 4096 v" if "plain v" for v using that by (auto simp: plain_def new_dir_def names_are_def split: option.splits attr_value.splits)
    have "all_values (new_dir u 4096) (rs_recs s3 ! 5) \<and> length (rs_recs s3) = length (rs_recs s2)"
      by (rule on_record_values [OF s3 p2(2)]) (erule all_values.file_name [OF _ all_values_mono [OF p2(1) new]], simp_all add: Inr new_dir_def names_are_def)
    then have p3: "all_values (new_dir u 4096) (rs_recs s3 ! 5)" "5 < length (rs_recs s3)" using p2(2) by simp_all
    have "all_values (new_dir u 4096) (rs_recs s4 ! 5) \<and> length (rs_recs s4) = length (rs_recs s3)"
    proof -
      have sd: "all_values (new_dir u 4096) m'" if "add_attr_sd env sd (rs_recs s3 ! 5) mk = Ret (e, m', mk')" for env sd mk e m' mk'
        by (rule all_values.sd [OF that p3(1)]) (auto simp: new_dir_def names_are_def)
      show ?thesis
        by (rule on_record_values [OF s4 [unfolded add_root_sd_def Let_def], of "new_dir u 4096", simplified, OF p3(2)]) (erule sd)
    qed
    then have p4: "all_values (new_dir u 4096) (rs_recs s4 ! 5)" "5 < length (rs_recs s4)" using p3(2) by simp_all
    have "all_values (new_dir u 4096) (rs_recs s' ! 5) \<and> length (rs_recs s') = length (rs_recs s4)"
      by (rule on_record_values [OF s' [unfolded add_view_root_def] p4(2)])
        (erule all_values.index_root [OF _ p4(1)], simp add: new_dir_def names_are_def assms(2))
    with Inr show ?thesis by simp
  qed
qed

lemma root_dir_inv:
  assumes r: "create_root_dir c s = Ret (None, s')" and n: "names_ok c up" and "resizes c" and "vp_indx_record_size (rc_vol c) = 4096"
    and "5 < length (rs_recs s)" and "all_values plain (rs_recs s ! 5)"
  shows "map card_of (rs_recs s') = map card_of (rs_recs s) \<and> rs_mft_bitmap s' = rs_mft_bitmap s \<and>
    (\<exists>h. rs_index s' = Some h \<and> dir_ok up h \<and> listing h = links c {(''.'', root_ref)})"
proof -
  have "create_root_dir = andthen root_prefix (andthen upgrade_root (andthen enter_root_name (all_of [])))"
    using all_of_append [of "[_, _, _, _, _]" "[upgrade_root, enter_root_name]"] by (simp add: create_root_dir_def root_prefix_def)
  from r [unfolded this] obtain s1 s2 where s1: "root_prefix c s = Ret (None, s1)" and s2: "upgrade_root c s1 = Ret (None, s2)"
    and s': "enter_root_name c s2 = Ret (None, s')"
    by (auto simp: andthen_Ret)
  obtain u where u: "check_name (rc_mb c) ''.'' = Inr u" "all_values (new_dir u 4096) (rs_recs s1 ! 5)"
    using root_prefix_values [OF s1 assms(4-6)] by blast
  have p: "map card_of (rs_recs s1) = map card_of (rs_recs s)" "rs_mft_bitmap s1 = rs_mft_bitmap s"
    using root_prefix_adds [unfolded step_adds_def, rule_format, OF s1] by simp_all
  have len: "5 < length (rs_recs s1)" using arg_cong [OF p(1), of length] assms(5) by simp
  from s2 obtain idx m mk where ug: "upgrade_to_large_index (rc_env c (rs_clock s1)) (rc_resize c) (rc_blk c) ''$I30'' 4 False (rs_recs s1 ! 5)
      (rs_mk s1) = Ret (None, idx, m, mk)"
    and e2: "s2 = (set_record 5 m s1)\<lparr>rs_mk := mk, rs_index := (case idx of None \<Rightarrow> rs_index s1 | Some h \<Rightarrow> Some h)\<rparr>"
    by (auto simp: upgrade_root_def split: run.splits prod.splits)
  note inv = upgrade_inv [OF ug assms(3) u(2)]
  have i2: "rs_index s2 = Some (new_block 4096 [end_entry])" "all_values (names_are u) (rs_recs s2 ! 5)" "rs_mft_bitmap s2 = rs_mft_bitmap s1"
      "map card_of (rs_recs s2) = map card_of (rs_recs s1)"
    using inv len card_of_ident [OF inv(2)] by (simp_all add: e2 set_record_def map_update_same)
  from enter_root_name_inv [OF s' n i2(1) empty_block(1) i2(2)] check_name_length [OF u(1)] i2(3,4) p
  show ?thesis by (simp add: empty_block(2) links_def)
qed

section \<open>All of them\<close>

text \<open>The files of the root directory and their record numbers; a reference has the record's sequence number.\<close>

definition root_files :: "(string \<times> nat) list" where
  "root_files = [(''.'', 5), (''$MFT'', 0), (''$MFTMirr'', 1), (''$LogFile'', 2), (''$Volume'', 3), (''$AttrDef'', 4), (''$Bitmap'', 6),
     (''$Boot'', 7), (''$BadClus'', 8), (''$Secure'', 9), (''$UpCase'', 10), (''$Extend'', 11)]"

definition first_seq :: "nat \<Rightarrow> nat" where
  "first_seq i = (if i = 0 \<or> i > 23 then 1 else i)"

definition root_links :: "(string \<times> nat) set" where
  "root_links = (\<lambda>(nm, i). (nm, mk_mref i (first_seq i))) ` set root_files"

definition later_files :: "'d root_cfg \<Rightarrow> 'd root_step list" where
  "later_files c =
     [create_mft, create_mftmirr, create_logfile, create_attrdef, create_bitmap, create_boot_and_volume,
      create_badclus, create_secure, create_upcase, create_extend] @
     [create_reserved i. i \<leftarrow> [0xc..<0x10]] @ [create_quota, create_objid (volume_guid c), create_reparse]"

lemma later_files_add:
  assumes "names_ok c up"
  shows "step_adds c up (all_of (later_files c)) (root_links - {(''.'', root_ref)})"
proof -
  have four: "[0xc..<0x10] = [12, 13, 14, 15 :: nat]" by (simp add: upt_rec)
  have "list_all2 (step_adds c up) (later_files c)
      [{(''$MFT'', mk_mref 0 1)}, {(''$MFTMirr'', mk_mref 1 1)}, {(''$LogFile'', mk_mref 2 2)}, {(''$AttrDef'', mk_mref 4 4)},
       {(''$Bitmap'', mk_mref 6 6)}, {(''$Boot'', mk_mref 7 7), (''$Volume'', mk_mref 3 3)}, {(''$BadClus'', mk_mref 8 8)},
       {(''$Secure'', mk_mref 9 9)}, {(''$UpCase'', mk_mref 10 10)}, {(''$Extend'', mk_mref 11 11)}, {}, {}, {}, {}, {}, {}, {}]"
    using files_add [OF assms] boot_and_volume_adds [OF assms] by (simp add: later_files_def four)
  from step_adds_all [OF this] show ?thesis by (simp add: root_links_def root_files_def first_seq_def root_ref_def insert_commute)
qed

text \<open>Documented of the library: a new record has no attributes and is not in use.\<close>

definition fresh_records :: "'d root_cfg \<Rightarrow> bool" where
  "fresh_records c \<longleftrightarrow> (\<forall>i m. rc_layout c i = Some m \<longrightarrow> m_attrs m = [] \<and> m_flags m = {})"

lemma lay_out_spec:
  "lay_out f is = Some ms \<Longrightarrow> length ms = length is \<and> (\<forall>j < length is. f (is ! j) = Some (ms ! j))"
proof (induction "is" arbitrary: ms)
  case (Cons i "is")
  then show ?case by (auto simp: nth_Cons split: option.splits nat.splits)
qed simp

lemma laid_out:
  assumes "layout_records c n = Some recs" and "fresh_records c" and "i < 27"
  shows "27 \<le> length recs \<and> m_attrs (recs ! i) = [] \<and> MFT_RECORD_IN_USE \<notin> m_flags (recs ! i) \<and>
    m_sequence_number (recs ! i) = first_seq i"
proof -
  from assms(1) obtain ms fs where ms: "lay_out (system_record c) [0..<nr_sysfiles] = Some ms" "recs = ms @ fs"
    by (auto simp: layout_records_def Let_def split: option.splits)
  from lay_out_spec [OF ms(1)] assms(3) have "length ms = 27" "system_record c i = Some (ms ! i)" by (simp_all add: nr_sysfiles_def)
  then obtain m where "rc_layout c i = Some m" "ms ! i = m\<lparr>m_sequence_number := (if i = 0 \<or> i > 23 then 1 else i)\<rparr>"
    by (auto simp: system_record_def)
  with assms(2,3) ms(2) \<open>length ms = 27\<close> show ?thesis by (simp add: fresh_records_def nth_append first_seq_def)
qed

theorem root_structures:
  assumes r: "mkntfs_create_root_structures c s = Ret (True, s')"
    and n: "names_ok c up" and "resizes c" and "fresh_records c" and "vp_indx_record_size (rc_vol c) = 4096"
    and b: "27 \<le> 8 * length (rs_mft_bitmap s)" "\<forall>i < 27. \<not> test_bit (rs_mft_bitmap s) i"
  shows "(\<exists>h. rs_index s' = Some h \<and> dir_ok up h \<and> listing h = links c root_links) \<and>
    (\<forall>(nm, i) \<in> set root_files. m_number (rs_recs s' ! i) = i \<and> m_sequence_number (rs_recs s' ! i) = first_seq i \<and>
       MFT_RECORD_IN_USE \<in> m_flags (rs_recs s' ! i)) \<and>
    (\<forall>i < 27. test_bit (rs_mft_bitmap s') i \<longleftrightarrow> MFT_RECORD_IN_USE \<in> m_flags (rs_recs s' ! i))"
proof -
  from r obtain recs where recs: "layout_records c (g_mft_size (fmt_of s)) = Some recs" "create_files c (s\<lparr>rs_recs := recs\<rparr>) = Ret (None, s')"
    by (auto simp: mkntfs_create_root_structures_def split: option.splits run.splits)
  note lay = laid_out [OF recs(1) assms(4)]
  let ?s0 = "s\<lparr>rs_recs := recs\<rparr>"
  have "create_files c = all_of ([system_file_info i. i \<leftarrow> [0..<27]] @ create_root_dir # later_files c) c"
    by (simp only: create_files_def nr_sysfiles_def later_files_def append_Cons append_Nil)
  also have "\<dots> = andthen (all_of [system_file_info i. i \<leftarrow> [0..<27]]) (andthen create_root_dir (all_of (later_files c))) c"
    by (simp only: all_of_append all_of.simps)
  finally have "create_files c = \<dots>" .
  from recs(2) [unfolded this] obtain s1 s2 where s1: "all_of [system_file_info i. i \<leftarrow> [0..<27]] c ?s0 = Ret (None, s1)"
    and s2: "create_root_dir c s1 = Ret (None, s2)" and s': "all_of (later_files c) c s2 = Ret (None, s')"
    by (auto simp: andthen_Ret)
  have inf: "info_done 27 ?s0 s1" using info_all [OF s1] b(1) by simp
  have len: "27 \<le> length (rs_recs s1)" using inf lay [of 0] by (simp add: info_done_def)
  have "all_values plain (rs_recs s1 ! 5)" using inf lay [of 5] by (simp add: info_done_def Let_def)
  from root_dir_inv [OF s2 n assms(3,5) _ this] len obtain h where h: "rs_index s2 = Some h" "dir_ok up h" "listing h = links c {(''.'', root_ref)}"
    and c2: "map card_of (rs_recs s2) = map card_of (rs_recs s1)" "rs_mft_bitmap s2 = rs_mft_bitmap s1" by auto
  from later_files_add [OF n, unfolded step_adds_def, rule_format, OF s'] h c2
  have c': "map card_of (rs_recs s') = map card_of (rs_recs s1)" "rs_mft_bitmap s' = rs_mft_bitmap s1"
    and "\<exists>h'. rs_index s' = Some h' \<and> dir_ok up h' \<and> listing h' = links c {(''.'', root_ref)} \<union> links c (root_links - {(''.'', root_ref)})"
    by auto
  moreover have "{(''.'', root_ref)} \<union> (root_links - {(''.'', root_ref)}) = root_links" by (auto simp: root_links_def root_files_def first_seq_def root_ref_def)
  ultimately have idx: "\<exists>h. rs_index s' = Some h \<and> dir_ok up h \<and> listing h = links c root_links" by (metis links_Un)
  have card: "card_of (rs_recs s' ! i) = (if used_system_file i then (i, first_seq i, True) else card_of (recs ! i))"
    if "i < 27" for i
  proof -
    have "i < length (rs_recs s')" using arg_cong [OF c'(1), of length] len that by simp
    then have "card_of (rs_recs s' ! i) = card_of (rs_recs s1 ! i)" using arg_cong [OF c'(1), of "\<lambda>l. l ! i"] arg_cong [OF c'(1), of length] by simp
    moreover have "i < length recs" using lay [OF that] that by simp
    ultimately show ?thesis using inf lay [OF that] that by (auto simp: info_done_def Let_def)
  qed
  have "\<forall>(nm, i) \<in> set root_files. m_number (rs_recs s' ! i) = i \<and> m_sequence_number (rs_recs s' ! i) = first_seq i \<and>
       MFT_RECORD_IN_USE \<in> m_flags (rs_recs s' ! i)"
  proof (intro ballI, clarify)
    fix nm i
    assume "(nm, i) \<in> set root_files"
    then have "i < 16" by (auto simp: root_files_def)
    then have "card_of (rs_recs s' ! i) = (i, first_seq i, True)" using card [of i] by (simp add: used_system_file_def)
    then show "m_number (rs_recs s' ! i) = i \<and> m_sequence_number (rs_recs s' ! i) = first_seq i \<and> MFT_RECORD_IN_USE \<in> m_flags (rs_recs s' ! i)"
      by (simp add: card_of_def)
  qed
  moreover have "\<forall>i < 27. test_bit (rs_mft_bitmap s') i \<longleftrightarrow> MFT_RECORD_IN_USE \<in> m_flags (rs_recs s' ! i)"
  proof (intro allI impI)
    fix i :: nat
    assume i: "i < 27"
    have "test_bit (rs_mft_bitmap s') i \<longleftrightarrow> used_system_file i" using inf b(2) i by (simp add: c'(2) info_done_def)
    then show "test_bit (rs_mft_bitmap s') i \<longleftrightarrow> MFT_RECORD_IN_USE \<in> m_flags (rs_recs s' ! i)"
      using card [OF i] lay [OF i] by (cases "used_system_file i") (simp_all add: card_of_def)
  qed
  ultimately show ?thesis using idx by blast
qed

end
