(* ===== verification/Record_Map.thy ===== *)
theory Record_Map
  imports Root_Props Link_Props
begin

text \<open>
  MFT records as finite maps from attribute types and names to values. On a record whose attributes are in collation order the search finds what
  the map has, and the functions that add attributes succeed as long as there is room, and update the map.
\<close>

section \<open>Records in collation order\<close>

type_synonym attr_key = "nat \<times> ntfschar list"

definition attr_key :: "attr_record \<Rightarrow> attr_key" where
  "attr_key a = (a_type a, a_name a)"

definition key_less :: "(ntfschar \<Rightarrow> ntfschar) \<Rightarrow> attr_key \<Rightarrow> attr_key \<Rightarrow> bool" where
  "key_less up k1 k2 \<longleftrightarrow> fst k1 < fst k2 \<or> fst k1 = fst k2 \<and> map up (snd k1) < map up (snd k2)"

definition same_key :: "(ntfschar \<Rightarrow> ntfschar) \<Rightarrow> attr_key \<Rightarrow> attr_key \<Rightarrow> bool" where
  "same_key up k1 k2 \<longleftrightarrow> fst k1 = fst k2 \<and> map up (snd k1) = map up (snd k2)"

lemma key_less_trans: "key_less up x y \<Longrightarrow> key_less up y z \<Longrightarrow> key_less up x z"
  by (auto simp: key_less_def)

lemma key_less_total: "\<not> same_key up x y \<Longrightarrow> key_less up x y \<or> key_less up y x"
  by (auto simp: key_less_def same_key_def)

lemma same_key_refl [simp]: "same_key up x x"
  by (simp add: same_key_def)

lemma key_less_irrefl: "key_less up x y \<Longrightarrow> \<not> same_key up x y"
  by (auto simp: key_less_def same_key_def)

abbreviation keys_sorted :: "(ntfschar \<Rightarrow> ntfschar) \<Rightarrow> attr_record list \<Rightarrow> bool" where
  "keys_sorted up as \<equiv> sorted_wrt (\<lambda>a b. key_less up (attr_key a) (attr_key b)) as"

text \<open>What later steps need of a value: that it is the standard information, the name, or the index root.\<close>

datatype kind = K_std | K_name name_space "ntfschar list" | K_root index_root | K_other

definition value_kind :: "attr_value \<Rightarrow> kind" where
  "value_kind v = (case v of Std_info _ \<Rightarrow> K_std | File_name f \<Rightarrow> K_name (fn_file_name_type f) (fn_file_name f) | Index_root r \<Rightarrow> K_root r | _ \<Rightarrow> K_other)"

definition attr_kind :: "attr_record \<Rightarrow> kind" where
  "attr_kind a = (case a_form a of Resident _ _ v _ \<Rightarrow> value_kind v | Non_resident _ \<Rightarrow> K_other)"

definition vals :: "mft_record \<Rightarrow> attr_key \<rightharpoonup> kind" where
  "vals m = map_of (map (\<lambda>a. (attr_key a, attr_kind a)) (m_attrs m))"

text \<open>
  The names of attributes are compared as the library documents it: equality is equality, and the collation that ignores case follows the
  upcase table.
\<close>

definition good_names :: "(ntfschar \<Rightarrow> ntfschar) \<Rightarrow> names_ops \<Rightarrow> bool" where
  "good_names up ops \<longleftrightarrow> collates up (nm_collate ops) \<and> (\<forall>a b. nm_equal ops False a b \<longleftrightarrow> a = b)"

section \<open>The search\<close>

definition place_of_key :: "(ntfschar \<Rightarrow> ntfschar) \<Rightarrow> attr_key \<Rightarrow> attr_record list \<Rightarrow> nat" where
  "place_of_key up k as = length (takeWhile (\<lambda>a. key_less up (attr_key a) k) as)"

definition plain_name :: "name_arg \<Rightarrow> bool" where
  "plain_name nm \<longleftrightarrow> nm = Unnamed \<or> (\<exists>n. nm = Named n \<and> n \<noteq> [])"

lemma name_test_differs:
  assumes "good_names up ops" and "plain_name nm" and "map up (name_of nm) \<noteq> map up an"
  shows "name_test ops False nm an = (if map up (name_of nm) < map up an then Before else Skip)"
proof -
  have ne: "\<not> nm_equal ops False (name_of nm) an" using assms(1,3) by (auto simp: good_names_def)
  have c: "nm_collate ops True a b = (if map up a < map up b then -1 else if map up a = map up b then 0 else 1)" for a b
    using assms(1) by (auto simp: good_names_def collates_def)
  from assms(2) consider "nm = Unnamed" | n where "nm = Named n" by (auto simp: plain_name_def)
  then show ?thesis
  proof cases
    case 1
    with assms(3) show ?thesis by (cases an) (auto simp: name_test_def name_of_def)
  next
    case 2
    with assms(3) ne show ?thesis by (auto simp: name_test_def name_of_def c)
  qed
qed

lemma name_test_same:
  assumes "good_names up ops" and "plain_name nm"
  shows "name_test ops False nm (name_of nm) = Match"
  using assms by (auto simp: name_test_def name_of_def plain_name_def good_names_def)

lemma find_absent:
  assumes "good_names up ops" and "plain_name nm" and "type \<noteq> AT_UNUSED"
    and "\<forall>a \<in> set as. 0 < a_length a \<and> a_type a < AT_END" and "off + sum_list (map a_length as) \<le> alloc"
    and "\<forall>a \<in> set as. \<not> same_key up (attr_key a) (type, name_of nm)" and "keys_sorted up as"
  shows "find_from ops type nm False val alloc off k as = Not_found (k + place_of_key up (type, name_of nm) as)"
  using assms(4-7)
proof (induction as arbitrary: off k)
  case (Cons a as)
  let ?k = "(type, name_of nm)"
  have ih: "find_from ops type nm False val alloc (off + a_length a) (k + 1) as = Not_found (k + 1 + place_of_key up ?k as)"
    using Cons.prems by (intro Cons.IH) auto
  show ?case
  proof (cases "a_type a = type")
    case True
    then have ne: "map up (name_of nm) \<noteq> map up (a_name a)" using Cons.prems(3) by (auto simp: same_key_def attr_key_def)
    note t = name_test_differs [OF assms(1,2) ne]
    show ?thesis
    proof (cases "map up (name_of nm) < map up (a_name a)")
      case lt: True
      then have "\<not> key_less up (attr_key a) ?k" using True by (auto simp: key_less_def attr_key_def)
      with lt t True Cons.prems(1,2) assms(3) show ?thesis by (auto simp: place_of_key_def Let_def)
    next
      case False
      then have "key_less up (attr_key a) ?k" using ne True by (auto simp: key_less_def attr_key_def)
      with False t True Cons.prems(1,2) ih assms(3) show ?thesis by (auto simp: place_of_key_def Let_def)
    qed
  next
    case False
    then consider "a_type a < type" "key_less up (attr_key a) ?k" | "a_type a > type" "\<not> key_less up (attr_key a) ?k"
      by (auto simp: key_less_def attr_key_def linorder_neq_iff)
    then show ?thesis
      using Cons.prems(1,2) ih assms(3) False by cases (auto simp: place_of_key_def Let_def)
  qed
qed (simp add: place_of_key_def)

lemma find_present:
  assumes "good_names up ops" and "plain_name nm" and "type \<noteq> AT_UNUSED"
    and "\<forall>a \<in> set as. 0 < a_length a \<and> a_type a < AT_END" and "off + sum_list (map a_length as) \<le> alloc"
    and "keys_sorted up as" and "b \<in> set as" and "attr_key b = (type, name_of nm)"
  shows "\<exists>j < length as. as ! j = b \<and> find_from ops type nm False None alloc off k as = Found (k + j)"
  using assms(4-7)
proof (induction as arbitrary: off k)
  case (Cons a as)
  show ?case
  proof (cases "a = b")
    case True
    then have "a_type a = type" "a_name a = name_of nm" using assms(8) by (auto simp: attr_key_def)
    then show ?thesis
      using True Cons.prems(1,2) assms(3) name_test_same [OF assms(1,2)]
      by (intro exI [of _ 0]) (auto simp: Let_def)
  next
    case False
    then have b: "b \<in> set as" using Cons.prems(4) by simp
    then have lt: "key_less up (attr_key a) (type, name_of nm)" using Cons.prems(3) assms(8) by auto
    have "\<exists>j < length as. as ! j = b \<and> find_from ops type nm False None alloc (off + a_length a) (k + 1) as = Found (k + 1 + j)"
      using Cons.prems b by (intro Cons.IH) auto
    then obtain j where j: "j < length as" "as ! j = b"
      "find_from ops type nm False None alloc (off + a_length a) (k + 1) as = Found (k + 1 + j)" by blast
    have "find_from ops type nm False None alloc off k (a # as) = Found (k + 1 + j)"
    proof (cases "a_type a = type")
      case True
      then have "map up (a_name a) < map up (name_of nm)" using lt by (auto simp: key_less_def attr_key_def)
      then have "name_test ops False nm (a_name a) = Skip" using name_test_differs [OF assms(1,2), of "a_name a"] by auto
      with True j(3) Cons.prems(1,2) assms(3) show ?thesis by (auto simp: Let_def)
    next
      case False
      then have "a_type a < type" using lt by (auto simp: key_less_def attr_key_def)
      with False j(3) Cons.prems(1,2) assms(3) show ?thesis by (auto simp: Let_def)
    qed
    then show ?thesis using j(1,2) by (intro exI [of _ "Suc j"]) simp
  qed
qed simp


section \<open>Room in a record\<close>

text \<open>
  A record in collation order that uses at most \<open>u\<close> bytes. Every attribute takes at least eight of them, so instance numbers never run out.
\<close>

definition fits :: "(ntfschar \<Rightarrow> ntfschar) \<Rightarrow> mft_record \<Rightarrow> nat \<Rightarrow> bool" where
  "fits up m u \<longleftrightarrow> record_ok m \<and> keys_sorted up (m_attrs m) \<and> (\<forall>a \<in> set (m_attrs m). a_flags a = {}) \<and>
     m_bytes_in_use m \<le> u \<and> u \<le> 1024 \<and> m_bytes_allocated m = 1024 \<and> m_next_attr_instance m \<le> length (m_attrs m)"

lemma fits_mono: "fits up m u \<Longrightarrow> u \<le> w \<Longrightarrow> w \<le> 1024 \<Longrightarrow> fits up m w"
  by (auto simp: fits_def)

lemma fits_count:
  assumes "fits up m u"
  shows "8 * length (m_attrs m) \<le> u"
proof -
  have "8 * length as \<le> sum_list (map a_length as)" if "\<forall>a \<in> set as. attr_ok a" for as
    using that
  proof (induction as)
    case (Cons a as)
    then have "0 < a_length a" "8 dvd a_length a" by (auto simp: attr_ok_def)
    then have "8 \<le> a_length a" by (auto dest: dvd_imp_le)
    with Cons show ?case by simp
  qed simp
  from this [of "m_attrs m"] assms show ?thesis by (simp add: fits_def record_ok_def attr_off_def)
qed

lemma fits_find:
  assumes "fits up m u"
  shows "\<forall>a \<in> set (m_attrs m). 0 < a_length a \<and> a_type a < AT_END"
    "m_attrs_offset m + sum_list (map a_length (m_attrs m)) \<le> m_bytes_allocated m" "keys_sorted up (m_attrs m)"
  using assms by (auto simp: fits_def record_ok_def attr_ok_def attr_off_def)

text \<open>No attribute that the search would take for one with the key.\<close>

definition lacks :: "(ntfschar \<Rightarrow> ntfschar) \<Rightarrow> mft_record \<Rightarrow> attr_key \<Rightarrow> bool" where
  "lacks up m k \<longleftrightarrow> (\<forall>x \<in> dom (vals m). \<not> same_key up x k)"

lemma dom_vals: "dom (vals m) = attr_key ` set (m_attrs m)"
  by (simp add: vals_def dom_map_of_conv_image_fst image_image)

lemma lookup_lacks:
  assumes "fits up m u" and "good_names up ops" and "plain_name nm" and "type \<noteq> AT_UNUSED" and "lacks up m (type, name_of nm)"
  shows "mkntfs_attr_lookup ops False m type nm False val fresh_ctx = Not_found (place_of_key up (type, name_of nm) (m_attrs m))"
  unfolding lookup_fresh using find_absent [OF assms(2-4) fits_find(1,2) [OF assms(1)] _ fits_find(3) [OF assms(1)], of val 0] assms(5)
  by (simp add: lacks_def dom_vals)

lemma vals_attr:
  assumes "vals m key = Some v"
  obtains a where "a \<in> set (m_attrs m)" "attr_key a = key" "attr_kind a = v"
  using map_of_SomeD [OF assms [unfolded vals_def]] by auto

lemma lookup_has:
  assumes "fits up m u" and "good_names up ops" and "plain_name nm" and "type \<noteq> AT_UNUSED" and "vals m (type, name_of nm) = Some v"
  obtains j where "j < length (m_attrs m)" "attr_key (m_attrs m ! j) = (type, name_of nm)" "attr_kind (m_attrs m ! j) = v"
    "mkntfs_attr_lookup ops False m type nm False None fresh_ctx = Found j"
proof -
  from assms(5) obtain b where b: "b \<in> set (m_attrs m)" "attr_key b = (type, name_of nm)" "attr_kind b = v" by (rule vals_attr)
  from find_present [OF assms(2-4) fits_find [OF assms(1)] b(1,2), of 0] b that show ?thesis by (auto simp: lookup_fresh)
qed

section \<open>A new attribute\<close>

lemma sorted_insert:
  assumes "keys_sorted up as" and "\<forall>a \<in> set as. \<not> same_key up (attr_key a) key" and "attr_key b = key"
  defines "k \<equiv> place_of_key up key as"
  shows "keys_sorted up (take k as @ b # drop k as)"
proof -
  let ?P = "\<lambda>a. key_less up (attr_key a) key"
  define p q where "p = takeWhile ?P as" and "q = dropWhile ?P as"
  have pq: "as = p @ q" "take k as = p" "drop k as = q"
    by (simp_all add: p_def q_def k_def place_of_key_def takeWhile_eq_take [symmetric] dropWhile_eq_drop [symmetric])
  have p: "\<forall>x \<in> set p. ?P x" by (auto simp: p_def dest: set_takeWhileD)
  have q: "\<forall>x \<in> set q. key_less up key (attr_key x)"
  proof (cases q)
    case (Cons y ys)
    have "\<not> ?P y" using Cons hd_dropWhile [of ?P as] by (auto simp: q_def)
    moreover have "\<not> same_key up (attr_key y) key" using assms(2) Cons pq(1) by auto
    ultimately have y: "key_less up key (attr_key y)" using key_less_total by blast
    moreover have "\<forall>x \<in> set ys. key_less up (attr_key y) (attr_key x)" using assms(1) pq(1) Cons by (auto simp: sorted_wrt_append)
    ultimately show ?thesis using Cons key_less_trans by fastforce
  qed simp
  show ?thesis
    unfolding pq(2,3) using assms(1,3) pq(1) p q by (auto simp: sorted_wrt_append dest: key_less_trans)
qed

lemma map_of_insert:
  assumes "k \<notin> fst ` set xs"
  shows "map_of (take j xs @ (k, v) # drop j xs) = (map_of xs)(k \<mapsto> v)"
proof
  fix x
  have "map_of xs = map_of (take j xs @ drop j xs)" by simp
  also have "\<dots> = map_of (drop j xs) ++ map_of (take j xs)" by (simp del: append_take_drop_id)
  finally have e: "map_of xs = map_of (drop j xs) ++ map_of (take j xs)" .
  have "map_of (take j xs) k = None"
    using assms by (auto simp: map_of_eq_None_iff dest: in_set_takeD)
  then show "map_of (take j xs @ (k, v) # drop j xs) x = ((map_of xs)(k \<mapsto> v)) x"
    unfolding e by (simp add: map_add_def split: option.splits)
qed

lemma place_fits:
  assumes m: "fits up m u" and key: "attr_key a = (type, name_of nm)" and l: "lacks up m (type, name_of nm)" and n: "good_names up ops" "plain_name nm"
    and a: "attr_ok a" "a_flags a = {}" "u + a_length a \<le> 1024"
  defines "k \<equiv> place_of_key up (type, name_of nm) (m_attrs m)"
  shows "\<exists>m1. make_room_for_attribute m (a_length a) = Some m1 \<and> fits up (place_attr k a m1) (u + a_length a) \<and>
    vals (place_attr k a m1) = (vals m)((type, name_of nm) \<mapsto> attr_kind a)"
proof -
  have f: "record_ok m" "m_bytes_in_use m \<le> u" "m_bytes_allocated m = 1024" "m_next_attr_instance m \<le> length (m_attrs m)"
    "\<forall>a \<in> set (m_attrs m). a_flags a = {}" using m by (simp_all add: fits_def)
  have al: "0 < a_length a" "8 dvd a_length a" "a_type a \<noteq> AT_UNUSED" using a(1) by (auto simp: attr_ok_def)
  then have "8 \<le> a_length a" by (auto dest: dvd_imp_le)
  define m1 where "m1 = m\<lparr>m_bytes_in_use := m_bytes_in_use m + a_length a\<rparr>"
  have room: "make_room_for_attribute m (a_length a) = Some m1"
    using f(2,3) a(3) al(1) by (simp add: make_room_for_attribute_def m1_def)
  have ty: "a_type a = type" using key by (simp add: attr_key_def)
  have nf: "mkntfs_attr_lookup ops False m (a_type a) nm False None fresh_ctx = Not_found k"
    using lookup_lacks [OF m n _ l] al(3) ty by (simp add: k_def)
  have small: "a_length a < 2 ^ 31" "m_next_attr_instance m + 1 < 2 ^ 16" using a(3) f(2,4) fits_count [OF m] by simp_all
  note p = place_attr_ok [OF f(1) nf a(1) room small]
  let ?b = "a\<lparr>a_instance := m_next_attr_instance m\<rparr>"
  have at: "m_attrs (place_attr k a m1) = take k (m_attrs m) @ ?b # drop k (m_attrs m)" using p(3,4) by (simp add: place_attr_def)
  have b: "attr_key ?b = (type, name_of nm)" "attr_kind ?b = attr_kind a" using key by (simp_all add: attr_key_def attr_kind_def)
  have new: "\<forall>x \<in> set (m_attrs m). \<not> same_key up (attr_key x) (type, name_of nm)" using l by (simp add: lacks_def dom_vals)
  have "keys_sorted up (m_attrs (place_attr k a m1))"
    unfolding at using sorted_insert [OF fits_find(3) [OF m] new b(1)] by (simp add: k_def)
  moreover have "\<forall>x \<in> set (m_attrs (place_attr k a m1)). a_flags x = {}"
    using f(5) a(2) by (auto simp: at dest: in_set_takeD in_set_dropD)
  ultimately have "fits up (place_attr k a m1) (u + a_length a)"
    using p(1) f(2-4) a(3) \<open>8 \<le> a_length a\<close> small(2) by (auto simp: fits_def place_attr_def m1_def)
  moreover have "vals (place_attr k a m1) = (vals m)((type, name_of nm) \<mapsto> attr_kind a)"
  proof -
    have "(type, name_of nm) \<notin> fst ` set (map (\<lambda>a. (attr_key a, attr_kind a)) (m_attrs m))" using new by auto
    from map_of_insert [OF this, of k "attr_kind a"] show ?thesis
      by (simp add: vals_def at take_map drop_map b)
  qed
  ultimately show ?thesis using room by blast
qed

end
