(* ===== verification/Full_Writes.thy ===== *)
theory Full_Writes
  imports Format_Writes
begin

text \<open>
  Writes along a runlist of one run, on a device that takes what it is given inside its bounds: they are complete, whatever the type of the data.
\<close>

section \<open>A device that takes every write\<close>

locale full_device =
  fixes wr :: "'d \<Rightarrow> byte list \<Rightarrow> int \<times> 'd"
    and sk :: "'d \<Rightarrow> int \<Rightarrow> bool \<times> 'd"
    and ready :: "'d \<Rightarrow> bool"
    and pos :: "'d \<Rightarrow> int"
    and lim :: int
  assumes wr_all: "ready d \<Longrightarrow> 0 \<le> pos d \<Longrightarrow> pos d + int (length bs) \<le> lim \<Longrightarrow>
      \<exists>d'. wr d bs = (int (length bs), d') \<and> ready d' \<and> pos d' = pos d + int (length bs)"
    and sk_all: "ready d \<Longrightarrow> 0 \<le> off \<Longrightarrow> off \<le> lim \<Longrightarrow> \<exists>d'. sk d off = (True, d') \<and> ready d' \<and> pos d' = off"
begin

lemma typed_write_some:
  assumes "0 \<le> tot" and "0 < len" and "wt = WRITE_STANDARD \<longrightarrow> tot + len \<le> int (length val)" and "dynbuf \<noteq> []"
    and "ready d" and "0 \<le> pos d" and "pos d + len \<le> lim"
  shows "\<exists>n d'. typed_write wr wt val t dynbuf tot len d = (n, d') \<and> 0 < n \<and> n \<le> len \<and> ready d' \<and> pos d' = pos d + n"
proof -
  have "\<exists>bs. typed_write wr wt val t dynbuf tot len d = wr d bs \<and> 0 < length bs \<and> int (length bs) \<le> len"
  proof (cases wt)
    case WRITE_STANDARD
    then show ?thesis
      using assms(1-3) by (intro exI [of _ "take (nat len) (drop (nat tot) val)"]) (simp add: typed_write_def)
  next
    case WRITE_LOGFILE
    then show ?thesis using assms(2,4) by (auto simp: typed_write_def mkntfs_logfile_write_def partial_len_def)
  next
    case WRITE_BITMAP
    define pl where "pl = partial_len dynbuf len"
    have pl: "0 < pl" "pl \<le> len" "pl \<le> int (length dynbuf)" using assms(2,4) by (auto simp: pl_def partial_len_def)
    then have "length (take (nat pl) (bitmap_build t dynbuf (tot * 8) (pl * 8))) = nat pl"
      using bitmap_build_spec(2) [of "pl * 8" dynbuf 0 t "tot * 8"] by simp
    with pl WRITE_BITMAP show ?thesis by (auto simp: typed_write_def mkntfs_bitmap_write_def pl_def [symmetric])
  qed
  then obtain bs where bs: "typed_write wr wt val t dynbuf tot len d = wr d bs" "0 < length bs" "int (length bs) \<le> len" by blast
  with wr_all [of d bs] assms(5-7) show ?thesis by force
qed

lemma run_full:
  assumes "0 \<le> tot" and "0 < len" and "wt = WRITE_STANDARD \<longrightarrow> tot + len \<le> int (length val)" and "dynbuf \<noteq> []"
    and "ready d" and "0 \<le> pos d" and "pos d + len \<le> lim"
  shows "\<exists>i d'. rl_write_run (typed_write wr wt val t dynbuf) tot len inited 0 d = Some (tot + len, 0, i, d') \<and> ready d' \<and> pos d' = pos d + len"
  using assms
proof (induction "nat len" arbitrary: tot len inited d rule: less_induct)
  case less
  from typed_write_some [OF less.prems] obtain n d1 where
    n: "typed_write wr wt val t dynbuf tot len d = (n, d1)" "0 < n" "n \<le> len" "ready d1" "pos d1 = pos d + n" by blast
  show ?case
  proof (cases "n = len")
    case True
    with n show ?thesis by (subst rl_write_run.simps) simp
  next
    case False
    have "\<exists>i d'. rl_write_run (typed_write wr wt val t dynbuf) (tot + n) (len - n) (inited + n) 0 d1 = Some (tot + n + (len - n), 0, i, d') \<and> ready d' \<and>
        pos d' = pos d1 + (len - n)"
      by (rule less.hyps) (use n False less.prems in auto)
    with n False show ?thesis by (subst rl_write_run.simps) auto
  qed
qed

lemma mkwrite_full:
  assumes "0 < count" and "count \<le> int (length b)" and "ready d" and "0 \<le> pos d" and "pos d + count \<le> lim"
  shows "\<exists>d'. mkwrite_loop wr b count 0 0 d = Some (count, d') \<and> ready d'"
proof -
  have "int (length (take (nat count) b)) = count" using assms by simp
  with wr_all [of d "take (nat count) b"] assms obtain d' where "wr d (take (nat count) b) = (count, d')" "ready d'" by auto
  then show ?thesis using assms(1) by (subst mkwrite_loop.simps) simp
qed

lemma rlwrite_one_run:
  assumes cs: "0 < cs" and l: "0 \<le> l" "0 < k" "(l + k) * cs \<le> lim" and n: "0 < n" "n \<le> k * cs" "wt = WRITE_STANDARD \<longrightarrow> n \<le> int (length val)"
    and b: "dynbuf \<noteq> []" "ready d" and tm: "rl_length tm = 0"
  shows "\<exists>i d'. ntfs_rlwrite wr sk False True cs wt t dynbuf [\<lparr>rl_vcn = v, rl_lcn = l, rl_length = k\<rparr>, tm] val n d = Some (n, i, d') \<and> ready d'"
proof -
  have "0 \<le> l * cs" "0 \<le> k * cs" "(l + k) * cs = l * cs + k * cs" using cs l by (simp_all add: algebra_simps)
  with l(3) have bnd: "0 \<le> l * cs" "l * cs \<le> lim" "l * cs + k * cs \<le> lim" by linarith+
  obtain d1 where d1: "sk d (l * cs) = (True, d1)" "pos d1 = l * cs" "ready d1" using sk_all [OF b(2) bnd(1,2)] by blast
  have "\<exists>i d'. rl_write_run (typed_write wr wt val t dynbuf) 0 n 0 0 d1 = Some (0 + n, 0, i, d') \<and> ready d' \<and> pos d' = pos d1 + n"
    by (rule run_full) (use n b bnd d1 in auto)
  then obtain i d2 where d2: "rl_write_run (typed_write wr wt val t dynbuf) 0 n 0 0 d1 = Some (n, 0, i, d2)" "pos d2 = l * cs + n" "ready d2"
    using d1(2) by auto
  have ne: "l \<noteq> -1" "k \<noteq> 0" using l by auto
  show ?thesis
  proof (cases "n = k * cs")
    case True
    then show ?thesis using d1 d2 ne n(1) tm by (simp add: ntfs_rlwrite_def Let_def)
  next
    case False
    then have r: "rl_write_runs (typed_write wr wt val t dynbuf) sk cs n [\<lparr>rl_vcn = v, rl_lcn = l, rl_length = k\<rparr>, tm] 0 0 0 d =
        Some (Inr (n, k * cs - n, i, d2))"
      using d1 d2 ne n(1,2) tm by (simp add: Let_def)
    have "\<exists>d'. mkwrite_loop wr (replicate (nat (k * cs - n)) 0) (k * cs - n) 0 0 d2 = Some (k * cs - n, d') \<and> ready d'"
      by (rule mkwrite_full) (use False n d2 bnd in auto)
    then show ?thesis using r False n(2) by (auto simp: ntfs_rlwrite_def mkntfs_write_def)
  qed
qed

end

lemma rlwrite_sparse_run:
  assumes "0 < k" and "rl_length tm = 0"
  shows "ntfs_rlwrite wr sk False mem cs wt t dynbuf [\<lparr>rl_vcn = v, rl_lcn = -1, rl_length = k\<rparr>, tm] val (k * cs) d = Some (k * cs, 0, d)"
  using assms by (simp add: ntfs_rlwrite_def Let_def)

text \<open>The callback device on a host whose write callback takes everything inside the bounds.\<close>

lemma host_full_device:
  assumes "\<forall>w bs off. 0 \<le> off \<and> off + int (length bs) \<le> lim \<longrightarrow> fst (io_pwrite io w bs off) = int (length bs)"
  shows "full_device (dev_wr io) (dev_sk io) (\<lambda>s. \<not> d_readonly (snd s)) (\<lambda>s. d_pos (snd s)) lim"
proof
  fix s :: "'a \<times> devstate" and bs :: "byte list"
  assume a: "\<not> d_readonly (snd s)" "0 \<le> d_pos (snd s)" "d_pos (snd s) + int (length bs) \<le> lim"
  obtain w' where p: "io_pwrite io (fst s) bs (d_pos (snd s)) = (int (length bs), w')"
    using assms a by (metis fst_conv surj_pair)
  then show "\<exists>s'. dev_wr io s bs = (int (length bs), s') \<and> \<not> d_readonly (snd s') \<and> d_pos (snd s') = d_pos (snd s) + int (length bs)"
    using a(1) by (auto simp: dev_wr_def nkdev_write_def nkdev_pwrite_def)
next
  fix off and s :: "'a \<times> devstate"
  assume "0 \<le> (off :: int)" "\<not> d_readonly (snd s)"
  then show "\<exists>s'. dev_sk io s off = (True, s') \<and> \<not> d_readonly (snd s') \<and> d_pos (snd s') = off"
    by (simp add: dev_sk_def nkdev_seek_def seek_base_def Let_def)
qed

interpretation ram_full: full_device "dev_wr ram_io" "dev_sk ram_io" "\<lambda>s. \<not> d_readonly (snd s)" "\<lambda>s. d_pos (snd s)" "2 ^ 30"
  by (rule host_full_device) (simp add: ram_io_def)


section \<open>Clusters in one piece\<close>

text \<open>
  When the clusters behind the end of the MFT zone are taken up to some place and free from there, the formatter's allocation takes them from
  there, as one run.
\<close>

lemma scan_used:
  assumes "alloc_inv (sc_t s)" and "{lcn ..< p} \<subseteq> clusters (sc_t s)" and "lcn \<le> p" and "p \<le> e"
  shows "\<exists>t. scan_zone rmem lcn e s = scan_zone rmem p e (s\<lparr>sc_t := t\<rparr>) \<and> alloc_inv t \<and> clusters t = clusters (sc_t s)"
  using assms
proof (induction "nat (p - lcn)" arbitrary: lcn s)
  case 0
  then show ?case by (intro exI [of _ "sc_t s"]) simp
next
  case (Suc n)
  then have lt: "lcn < p" "lcn \<in> clusters (sc_t s)" by auto
  obtain used t' where g: "bitmap_get_and_set True (sc_t s) lcn 1 = (used, t')" by fastforce
  note gs = get_and_set_spec [OF Suc.prems(1) g]
  have t': "used" "alloc_inv t'" "clusters t' = clusters (sc_t s)" using gs lt(2) by auto
  have "\<exists>t. scan_zone rmem (lcn + 1) e (s\<lparr>sc_t := t'\<rparr>) = scan_zone rmem p e ((s\<lparr>sc_t := t'\<rparr>)\<lparr>sc_t := t\<rparr>) \<and> alloc_inv t \<and>
      clusters t = clusters (sc_t (s\<lparr>sc_t := t'\<rparr>))"
    by (rule Suc.hyps(1)) (use Suc.hyps(2) Suc.prems t' lt in auto)
  moreover have "scan_zone rmem lcn e s = scan_zone rmem (lcn + 1) e (s\<lparr>sc_t := t'\<rparr>)"
    using g t'(1) lt(1) Suc.prems(4) by (subst scan_zone.simps) simp
  ultimately show ?case using t'(3) by simp
qed

text \<open>So far \<open>k\<close> clusters were taken, from \<open>p\<close> on.\<close>

definition one_piece :: "s64 \<Rightarrow> s64 \<Rightarrow> scat \<Rightarrow> bool" where
  "one_piece p k s \<longleftrightarrow> sc_vcn s = k \<and>
     (if k = 0 then sc_rl s = [] \<and> sc_prev_lcn s = 0 \<and> sc_prev_len s = 0
      else sc_rl s = [\<lparr>rl_vcn = 0, rl_lcn = p, rl_length = k\<rparr>] \<and> sc_prev_lcn s = p \<and> sc_prev_len s = k)"

lemma take_in_piece:
  assumes "one_piece p k s" and "0 < p" and "0 \<le> k"
  shows "one_piece p (k + 1) ((take_cluster (p + k) (s\<lparr>sc_t := t, sc_rlsize := z\<rparr>))\<lparr>sc_left := m\<rparr>)"
proof (cases "k = 0")
  case True
  then show ?thesis using assms by (simp add: one_piece_def take_cluster_def)
next
  case False
  then have s: "sc_vcn s = k" "sc_rl s = [\<lparr>rl_vcn = 0, rl_lcn = p, rl_length = k\<rparr>]" "sc_prev_lcn s = p" "sc_prev_len s = k"
    using assms(1) by (simp_all add: one_piece_def)
  have "k + 1 \<noteq> 0" using assms(3) by simp
  with s show ?thesis by (simp add: one_piece_def take_cluster_def)
qed

lemma scan_one:
  assumes "alloc_inv (sc_t s)" and "lcn \<notin> clusters (sc_t s)" and "lcn < e"
  obtains t z where "alloc_inv t" "clusters t = insert lcn (clusters (sc_t s))"
    "scan_zone (\<lambda>_. True) lcn e s =
      (if sc_left s = 1 then Scan_done ((take_cluster lcn (s\<lparr>sc_t := t, sc_rlsize := z\<rparr>))\<lparr>sc_left := sc_left s - 1\<rparr>)
       else scan_zone (\<lambda>_. True) (lcn + 1) e ((take_cluster lcn (s\<lparr>sc_t := t, sc_rlsize := z\<rparr>))\<lparr>sc_left := sc_left s - 1\<rparr>))"
proof -
  obtain used t where g: "bitmap_get_and_set True (sc_t s) lcn 1 = (used, t)" by fastforce
  note gs = get_and_set_spec [OF assms(1) g]
  define z where "z = (if (length (sc_rl s) + 2) * RL_SIZE \<ge> sc_rlsize s then sc_rlsize s + 4096 else sc_rlsize s)"
  have left: "sc_left (take_cluster x y) = sc_left y" for x y by (simp add: take_cluster_def)
  show thesis
  proof (rule that [of t z])
    show "alloc_inv t" "clusters t = insert lcn (clusters (sc_t s))" using gs by simp_all
    have "\<not> used" using gs(1) assms(2) by simp
    then show "scan_zone (\<lambda>_. True) lcn e s =
      (if sc_left s = 1 then Scan_done ((take_cluster lcn (s\<lparr>sc_t := t, sc_rlsize := z\<rparr>))\<lparr>sc_left := sc_left s - 1\<rparr>)
       else scan_zone (\<lambda>_. True) (lcn + 1) e ((take_cluster lcn (s\<lparr>sc_t := t, sc_rlsize := z\<rparr>))\<lparr>sc_left := sc_left s - 1\<rparr>))"
      using assms(3) by (simp add: scan_zone.simps [of _ lcn e s] g [unfolded One_nat_def] Let_def left z_def)
  qed
qed

lemma scan_piece:
  assumes "alloc_inv (sc_t s)" and "0 < m" and "sc_left s = m" and "{p + k ..< p + k + m} \<inter> clusters (sc_t s) = {}" and "p + k + m \<le> e" and "0 < p" and "0 \<le> k"
    and "one_piece p k s"
  obtains s1 where "alloc_inv (sc_t s1)" "clusters (sc_t s1) = insert (p + k) (clusters (sc_t s))" "sc_left s1 = m - 1" "one_piece p (k + 1) s1"
    "scan_zone (\<lambda>_. True) (p + k) e s = (if m = 1 then Scan_done s1 else scan_zone (\<lambda>_. True) (p + (k + 1)) e s1)"
proof -
  have in_e: "p + k \<in> {p + k ..< p + k + m}" "p + k < e" using assms(2,5) by simp_all
  from this(1) have new: "p + k \<notin> clusters (sc_t s)" using assms(4) by blast
  obtain t z where t: "alloc_inv t" "clusters t = insert (p + k) (clusters (sc_t s))"
    and run: "scan_zone (\<lambda>_. True) (p + k) e s =
      (if sc_left s = 1 then Scan_done ((take_cluster (p + k) (s\<lparr>sc_t := t, sc_rlsize := z\<rparr>))\<lparr>sc_left := sc_left s - 1\<rparr>)
       else scan_zone (\<lambda>_. True) (p + k + 1) e ((take_cluster (p + k) (s\<lparr>sc_t := t, sc_rlsize := z\<rparr>))\<lparr>sc_left := sc_left s - 1\<rparr>))"
    by (rule scan_one [OF assms(1) new in_e(2)])
  define s1 where "s1 = (take_cluster (p + k) (s\<lparr>sc_t := t, sc_rlsize := z\<rparr>))\<lparr>sc_left := sc_left s - 1\<rparr>"
  have e: "sc_t s1 = t" by (simp add: s1_def take_cluster_def)
  have "sc_left s1 = m - 1" using assms(3) by (simp add: s1_def)
  moreover have "one_piece p (k + 1) s1" unfolding s1_def by (rule take_in_piece [OF assms(8,6,7)])
  moreover have "scan_zone (\<lambda>_. True) (p + k) e s = (if m = 1 then Scan_done s1 else scan_zone (\<lambda>_. True) (p + (k + 1)) e s1)"
    using run assms(3) by (simp only: s1_def add.assoc)
  ultimately show ?thesis using that [of s1] t unfolding e by blast
qed

lemma scan_free:
  assumes "alloc_inv (sc_t s)" and "0 < m" and "sc_left s = m" and "{p + k ..< p + k + m} \<inter> clusters (sc_t s) = {}" and "p + k + m \<le> e" and "0 < p" and "0 \<le> k"
    and "one_piece p k s"
  shows "\<exists>s'. scan_zone (\<lambda>_. True) (p + k) e s = Scan_done s' \<and> one_piece p (k + m) s' \<and>
    alloc_inv (sc_t s') \<and> clusters (sc_t s') = clusters (sc_t s) \<union> {p + k ..< p + k + m}"
  using assms
proof (induction "nat m" arbitrary: m k s)
  case 0
  from 0(1,3) have False by simp
  then show ?case ..
next
  case (Suc n)
  have piece: "{p + k ..< p + k + m} = insert (p + k) {p + (k + 1) ..< p + (k + 1) + (m - 1)}" "p + k \<notin> {p + (k + 1) ..< p + (k + 1) + (m - 1)}"
    using Suc.prems(2) by auto
  obtain s1 where s1: "alloc_inv (sc_t s1)" "clusters (sc_t s1) = insert (p + k) (clusters (sc_t s))" "sc_left s1 = m - 1" "one_piece p (k + 1) s1"
    and run: "scan_zone (\<lambda>_. True) (p + k) e s = (if m = 1 then Scan_done s1 else scan_zone (\<lambda>_. True) (p + (k + 1)) e s1)"
    by (rule scan_piece [OF Suc.prems])
  show ?case
  proof (cases "m = 1")
    case True
    have "clusters (sc_t s1) = clusters (sc_t s) \<union> {p + k ..< p + k + m}" unfolding s1(2) piece(1) unfolding True by simp
    with run s1 True show ?thesis by (intro exI [of _ s1]) simp
  next
    case False
    have "\<exists>s'. scan_zone (\<lambda>_. True) (p + (k + 1)) e s1 = Scan_done s' \<and> one_piece p (k + 1 + (m - 1)) s' \<and>
        alloc_inv (sc_t s') \<and> clusters (sc_t s') = clusters (sc_t s1) \<union> {p + (k + 1) ..< p + (k + 1) + (m - 1)}"
    proof (rule Suc.hyps(1) [OF _ s1(1) _ s1(3) _ _ Suc.prems(6) _ s1(4)])
      show "{p + (k + 1) ..< p + (k + 1) + (m - 1)} \<inter> clusters (sc_t s1) = {}" using Suc.prems(4) piece(2) unfolding s1(2) piece(1) by blast
    qed (use Suc.hyps(2) Suc.prems(2,5,7) False in simp_all)
    moreover have "clusters (sc_t s1) \<union> {p + (k + 1) ..< p + (k + 1) + (m - 1)} = clusters (sc_t s) \<union> {p + k ..< p + k + m}"
      unfolding s1(2) piece(1) by blast
    moreover have "k + 1 + (m - 1) = k + m" by simp
    ultimately show ?thesis using run False by (simp only: if_False simp_thms)
  qed
qed

lemma allocate_one_run:
  assumes "alloc_inv t" and "0 < zone" and "zone \<le> p" and "{zone ..< p} \<subseteq> clusters t" and "{p ..< p + n} \<inter> clusters t = {}" and "p + n \<le> nr" and "0 < n"
  shows "\<exists>t' v. allocate_scattered_clusters (\<lambda>_. True) nr t zone n =
      (Some [\<lparr>rl_vcn = 0, rl_lcn = p, rl_length = n\<rparr>, \<lparr>rl_vcn = v, rl_lcn = 0, rl_length = 0\<rparr>], t', zone) \<and>
    alloc_inv t' \<and> clusters t' = clusters t \<union> {p ..< p + n}"
proof -
  define s where "s = \<lparr>sc_t = t, sc_rl = [], sc_vcn = 0, sc_prev_lcn = 0, sc_prev_len = 0, sc_left = n, sc_rlsize = 0\<rparr>"
  from scan_used [of s zone p nr "\<lambda>_. True"] assms obtain t1 where
    1: "scan_zone (\<lambda>_. True) zone nr s = scan_zone (\<lambda>_. True) p nr (s\<lparr>sc_t := t1\<rparr>)" "alloc_inv t1" "clusters t1 = clusters t" by (auto simp: s_def)
  from scan_free [of "s\<lparr>sc_t := t1\<rparr>" n p 0 nr] assms 1 obtain s' where
    s': "scan_zone (\<lambda>_. True) p nr (s\<lparr>sc_t := t1\<rparr>) = Scan_done s'" "one_piece p n s'"
    "alloc_inv (sc_t s')" "clusters (sc_t s') = clusters t \<union> {p ..< p + n}" by (auto simp: s_def one_piece_def)
  have "sc_rl s' = [\<lparr>rl_vcn = 0, rl_lcn = p, rl_length = n\<rparr>]" using s'(2) assms(7) by (simp add: one_piece_def)
  with 1(1) s' assms(7) show ?thesis
    by (auto simp: allocate_scattered_clusters_def s_def [symmetric] scat_loop.simps [of _ _ zone])
qed

end
