(* ===== verification/Record_Adds.thy ===== *)
theory Record_Adds
  imports Record_Map Full_Writes
begin

text \<open>
  Adding attributes succeeds when there is memory, the device takes what it is given, and there is room: in the record for the attribute, on the
  volume for a value that is not resident.
\<close>

section \<open>What is needed\<close>

text \<open>
  A runlist of one run for a value: inside the volume, and then with room for the value, or sparse.
\<close>

definition writable :: "int \<Rightarrow> int \<Rightarrow> write_type \<Rightarrow> runlist \<Rightarrow> byte list \<Rightarrow> int \<Rightarrow> bool" where
  "writable cs nr wt rl val n \<longleftrightarrow> (\<exists>l k tm. rl = [\<lparr>rl_vcn = 0, rl_lcn = l, rl_length = k\<rparr>, tm] \<and> rl_length tm = 0 \<and> 0 < k \<and> 0 < n \<and>
     (0 \<le> l \<and> l + k \<le> nr \<and> n \<le> k * cs \<and> (wt = WRITE_STANDARD \<longrightarrow> n \<le> int (length val)) \<or> l = -1 \<and> n = k * cs))"

text \<open>The names of attributes that the formatter gives.\<close>

definition attr_names :: "string set" where
  "attr_names = {[], ''$I30'', ''$Bad'', ''$SDS'', ''$SDH'', ''$SII'', ''$Info'', ''$Q'', ''$O'', ''$R''}"

text \<open>
  Memory, a device that takes what it is given inside the volume, the comparison and conversion of names as documented, and the mapping pairs of one
  run, which never take more than 64 bytes: one for the sizes, at most eight for each number and one at the end.
\<close>

definition willing :: "(ntfschar \<Rightarrow> ntfschar) \<Rightarrow> ('d \<Rightarrow> bool) \<Rightarrow> 'd mkenv \<Rightarrow> bool" where
  "willing up R env \<longleftrightarrow> me_mem env \<and> me_rmem env = (\<lambda>_. True) \<and> good_names up (me_ops env) \<and> 0 < me_cs env \<and> me_dynbuf env \<noteq> [] \<and>
     (\<exists>pos. full_device (me_wr env) (me_sk env) R pos (me_nr env * me_cs env)) \<and>
     me_str2ucs env None = Some Unnamed \<and> (\<forall>s \<in> attr_names. s \<noteq> [] \<longrightarrow> me_str2ucs env (Some s) = Some (Named (ascii s))) \<and>
     (\<forall>r tm. rl_length tm = 0 \<longrightarrow>
        (\<exists>n bs. me_mp_size env [r, tm] = Some n \<and> n \<le> 64 \<and> me_mp_build env [r, tm] n = Some bs \<and> length bs \<le> n))"

lemma writes_fully:
  assumes "willing up R env" and "writable (me_cs env) (me_nr env) wt rl val n" and "R d"
  shows "\<exists>i d'. ntfs_rlwrite (me_wr env) (me_sk env) (me_no_act env) (me_mem env) (me_cs env) wt t (me_dynbuf env) rl val n d = Some (n, i, d') \<and> R d'"
proof (cases "me_no_act env")
  case True
  then show ?thesis using assms(3) by (simp add: ntfs_rlwrite_def)
next
  case False
  have e: "me_mem env" "0 < me_cs env" "me_dynbuf env \<noteq> []" using assms(1) by (simp_all add: willing_def)
  obtain pos where dev: "full_device (me_wr env) (me_sk env) R pos (me_nr env * me_cs env)" using assms(1) by (auto simp: willing_def)
  obtain l k tm where rl: "rl = [\<lparr>rl_vcn = 0, rl_lcn = l, rl_length = k\<rparr>, tm]" "rl_length tm = 0" "0 < k" "0 < n"
    and fit: "0 \<le> l \<and> l + k \<le> me_nr env \<and> n \<le> k * me_cs env \<and> (wt = WRITE_STANDARD \<longrightarrow> n \<le> int (length val)) \<or> l = -1 \<and> n = k * me_cs env"
    using assms(2) unfolding writable_def by blast
  from fit show ?thesis
  proof
    assume l: "0 \<le> l \<and> l + k \<le> me_nr env \<and> n \<le> k * me_cs env \<and> (wt = WRITE_STANDARD \<longrightarrow> n \<le> int (length val))"
    then have "(l + k) * me_cs env \<le> me_nr env * me_cs env" using e(2) by (intro mult_right_mono) simp_all
    with full_device.rlwrite_one_run [OF dev e(2) _ rl(3) _ rl(4) _ _ e(3) assms(3) rl(2), of l wt val t 0] l
    show ?thesis by (simp add: False e(1) rl(1))
  next
    assume "l = -1 \<and> n = k * me_cs env"
    then show ?thesis using assms(3) by (simp add: False rl(1) rlwrite_sparse_run [OF rl(3,2)])
  qed
qed

lemma writable_pairs:
  assumes "willing up R env" and "writable cs nr wt rl val n"
  obtains mpa bs where "me_mp_size env rl = Some mpa" "mpa \<le> 64" "me_mp_build env rl mpa = Some bs" "length bs \<le> mpa" "0 < n" "n \<le> rl_total rl * cs"
proof -
  obtain l k tm where rl: "rl = [\<lparr>rl_vcn = 0, rl_lcn = l, rl_length = k\<rparr>, tm]" "rl_length tm = 0" "0 < k" "0 < n" "n \<le> k * cs"
    using assms(2) by (auto simp: writable_def)
  then have "n \<le> rl_total rl * cs" by (simp add: rl_total_def)
  with assms(1) rl that show ?thesis unfolding willing_def by blast
qed

text \<open>The name as it is given to the functions: none, or a text.\<close>

definition arg_of :: "string \<Rightarrow> string option" where
  "arg_of s = (if s = [] then None else Some s)"

definition uname_of :: "string \<Rightarrow> name_arg" where
  "uname_of s = (if s = [] then Unnamed else Named (ascii s))"

lemma uname_of [simp]: "plain_name (uname_of s)" "name_of (uname_of s) = ascii s" "length (ascii s) = length s"
  by (auto simp: plain_name_def uname_of_def name_of_def ascii_def)

lemma ascii_Nil [simp]: "ascii [] = []" by (simp add: ascii_def)

lemma willing_name: "willing up R env \<Longrightarrow> s \<in> attr_names \<Longrightarrow> me_str2ucs env (arg_of s) = Some (uname_of s)"
  by (simp add: willing_def arg_of_def uname_of_def)

text \<open>The number, the room and the values of a record; until it has a name it has at most one link.\<close>

definition holds :: "(ntfschar \<Rightarrow> ntfschar) \<Rightarrow> nat \<Rightarrow> mft_record \<Rightarrow> nat \<Rightarrow> (attr_key \<rightharpoonup> kind) \<Rightarrow> bool" where
  "holds up i m u V \<longleftrightarrow> fits up m u \<and> m_number m = i \<and> vals m = V \<and> ((AT_FILE_NAME, []) \<notin> dom V \<longrightarrow> m_link_count m \<le> 1)"

abbreviation absent :: "(ntfschar \<Rightarrow> ntfschar) \<Rightarrow> (attr_key \<rightharpoonup> 'v) \<Rightarrow> attr_key \<Rightarrow> bool" where
  "absent up V k \<equiv> \<forall>x \<in> dom V. \<not> same_key up x k"

lemma holds_place:
  assumes m: "holds up i m u V" and key: "attr_key a = (type, ascii s)" and l: "absent up V (type, ascii s)" and n: "good_names up ops"
    and a: "attr_ok a" "a_flags a = {}" "u + a_length a \<le> w" "w \<le> 1024"
  obtains k m1 where "mkntfs_attr_lookup ops False m type (uname_of s) False val fresh_ctx = Not_found k"
    "make_room_for_attribute m (a_length a) = Some m1" "holds up i (place_attr k a m1) w (V((type, ascii s) \<mapsto> attr_kind a))"
proof -
  define k where "k = place_of_key up (type, ascii s) (m_attrs m)"
  have f: "fits up m u" "m_number m = i" "vals m = V" using m by (simp_all add: holds_def)
  have l': "lacks up m (type, name_of (uname_of s))" using l f(3) by (simp add: lacks_def)
  have ty: "type \<noteq> AT_UNUSED" using a(1) key by (auto simp: attr_ok_def attr_key_def)
  have key': "attr_key a = (type, name_of (uname_of s))" using key by simp
  have w: "u + a_length a \<le> 1024" using a(3,4) by simp
  from place_fits [OF f(1) key' l' n uname_of(1) a(1,2) w]
  obtain m1 where m1: "make_room_for_attribute m (a_length a) = Some m1" "fits up (place_attr k a m1) (u + a_length a)"
    "vals (place_attr k a m1) = (vals m)((type, ascii s) \<mapsto> attr_kind a)" by (auto simp: k_def)
  have "m_number (place_attr k a m1) = i" "m_link_count (place_attr k a m1) = m_link_count m"
    using m1(1) f(2) by (auto simp: place_attr_def make_room_for_attribute_def split: if_splits)
  then have "holds up i (place_attr k a m1) w (V((type, ascii s) \<mapsto> attr_kind a))"
    using m m1(3) f(3) fits_mono [OF m1(2) a(3,4)] by (simp add: holds_def)
  with that m1(1) lookup_lacks [OF f(1) n uname_of(1) ty l', of val] show ?thesis by (simp add: k_def)
qed

section \<open>Resident attributes\<close>

definition res_size :: "string \<Rightarrow> nat \<Rightarrow> nat" where
  "res_size s n = (24 + (2 * length s + 7) div 8 * 8 + n + 7) div 8 * 8"

definition known_attr :: "nat \<Rightarrow> string \<Rightarrow> bool" where
  "known_attr t s \<longleftrightarrow> AT_UNUSED < t \<and> t < AT_END \<and> s \<in> attr_names"

lemma insert_resident_ok:
  assumes "willing up R env" and "holds up i m u V" and "absent up V (type, ascii s)" and "known_attr type s" and "type = AT_OBJECT_ID \<longrightarrow> s = []"
    and "v = (case val of None \<Rightarrow> Raw [] | Some v \<Rightarrow> v)" and "u + res_size s (value_len v) \<le> w" and "w \<le> 1024" and "length s < 256"
  shows "\<exists>m'. insert_resident_attr_in_mft_record (me_ops env) (me_mem env) (me_str2ucs env (arg_of s)) (length s) type False {} rf val m =
      Ret (None, m') \<and> holds up i m' w (V((type, ascii s) \<mapsto> value_kind v)) \<and> m_link_count m' = m_link_count m"
proof -
  define a where "a = resident_attr type (ascii s) {} rf v"
  have "res_size s (value_len v) \<le> 1024" using assms(7,8) by simp
  moreover have "24 + (2 * length s + 7) div 8 * 8 + value_len v \<le> res_size s (value_len v)" by (simp add: res_size_def)
  ultimately have small: "value_len v < 2 ^ 30" "24 + (2 * length s + 7) div 8 * 8 + value_len v + 7 < 2 ^ 32" by simp_all
  have u8: "up8 (2 * length s) = (2 * length s + 7) div 8 * 8" using assms(9) by (intro up8_small) simp
  have len: "a_length a = res_size s (value_len v)"
    using up8_small [OF small(2)] by (simp add: a_def resident_attr_def Let_def u8 res_size_def)
  have ok: "attr_ok a" using resident_attr_ok [of type "ascii s" v "{}" rf] assms(4,5,9) small(1) by (simp add: a_def known_attr_def)
  have nm: "me_str2ucs env (arg_of s) = Some (uname_of s)" using willing_name [OF assms(1)] assms(4) by (simp add: known_attr_def)
  have key: "attr_key a = (type, ascii s)" "a_flags a = {}" "attr_kind a = value_kind v"
    by (simp_all add: a_def resident_attr_def attr_key_def attr_kind_def Let_def)
  have gn: "good_names up (me_ops env)" "me_mem env" using assms(1) by (simp_all add: willing_def)
  have fit: "u + a_length a \<le> w" using len assms(7) by simp
  from holds_place [OF assms(2) key(1) assms(3) gn(1) ok key(2) fit assms(8)]
  obtain k m1 where p: "mkntfs_attr_lookup (me_ops env) False m type (uname_of s) False val fresh_ctx = Not_found k"
    "make_room_for_attribute m (a_length a) = Some m1" "holds up i (place_attr k a m1) w (V((type, ascii s) \<mapsto> attr_kind a))" .
  have "m_link_count (place_attr k a m1) = m_link_count m"
    using p(2) by (auto simp: place_attr_def make_room_for_attribute_def split: if_splits)
  then show ?thesis
    using p gn(2) nm
    by (simp add: insert_resident_attr_in_mft_record_def Let_def assms(6) [symmetric] a_def [symmetric] key)
qed

lemma add_resident_ok:
  assumes "willing up R env" and "holds up i m u V" and "absent up V (type, ascii s)" and "known_attr type s" and "type = AT_OBJECT_ID \<longrightarrow> s = []"
    and "v = (case val of None \<Rightarrow> Raw [] | Some v \<Rightarrow> v)" and "u + res_size s (value_len v) \<le> w" and "w \<le> 1024" and "length s < 256"
  shows "\<exists>m'. add_resident env type (arg_of s) (length s) False {} rf val m st = Ret (None, m', st) \<and>
    holds up i m' w (V((type, ascii s) \<mapsto> value_kind v))"
  using insert_resident_ok [OF assms, of rf] by (auto simp: add_resident_def)

section \<open>Attributes on the volume\<close>

text \<open>
  From the end of the MFT zone the clusters are taken up to some place, and the next \<open>n\<close> are free; and the device is ready.
\<close>

definition rich :: "('d \<Rightarrow> bool) \<Rightarrow> int \<Rightarrow> nat \<Rightarrow> 'd mkst \<Rightarrow> bool" where
  "rich R nr n st \<longleftrightarrow> R (ms_dev st) \<and> alloc_inv (g_allocation (ms_fmt st)) \<and> 0 < g_mft_zone_end (ms_fmt st) \<and>
     (\<exists>p. g_mft_zone_end (ms_fmt st) \<le> p \<and> p + int n \<le> nr \<and> {g_mft_zone_end (ms_fmt st) ..< p} \<subseteq> clusters (g_allocation (ms_fmt st)) \<and>
        {p ..< p + int n} \<inter> clusters (g_allocation (ms_fmt st)) = {})"

text \<open>The formatter's variables but for the allocation and the zone.\<close>

definition places :: "fmt \<Rightarrow> fmt" where
  "places f = f\<lparr>g_allocation := [], g_mft_zone_end := 0\<rparr>"

definition clusters_for :: "int \<Rightarrow> int \<Rightarrow> nat" where
  "clusters_for cs n = nat ((n + cs - 1) div cs)"

lemma write_and_map_ok:
  assumes w: "willing up R env" and m: "holds up i m u V" and l: "absent up V (type, ascii s)" and ty: "known_attr type s" "length s \<le> 4"
    and room: "u + 136 \<le> w" "w \<le> 1024" and wr: "writable (me_cs env) (me_nr env) wt rl val n"
  shows "\<exists>k m1 mpa. place_for env type (arg_of s) False {} m = Ret (Inr (k, uname_of s)) \<and> me_mp_size env rl = Some mpa \<and>
    make_room_for_attribute m (nonres_size (length s) mpa) = Some m1 \<and>
    (\<forall>h al init st. R (ms_dev st) \<longrightarrow>
       (\<exists>m' d'. write_and_map env wt rl val n mpa k (nonres_attr type (ascii s) (length s) mpa h al n) init m1 st =
          Ret (None, m', st\<lparr>ms_dev := d'\<rparr>) \<and> R d' \<and> holds up i m' w (V((type, ascii s) \<mapsto> K_other))))"
proof -
  have gn: "good_names up (me_ops env)" "me_mem env" using w by (simp_all add: willing_def)
  obtain mpa bs where sz: "me_mp_size env rl = Some mpa" and mpa: "mpa \<le> 64" and bs: "me_mp_build env rl mpa = Some bs" "length bs \<le> mpa"
    by (rule writable_pairs [OF w wr])
  have up: "up8 (length s) \<le> 8" "up8 (length s) mod 8 = 0" using ty(2) by (simp_all add: up8_def)
  have len: "nonres_size (length s) mpa \<le> 136" using up(1) mpa by (simp add: nonres_size_def up8_def)
  have at: "attr_ok (nonres_attr type (ascii s) (length s) mpa h al n x bs)"
    "attr_key (nonres_attr type (ascii s) (length s) mpa h al n x bs) = (type, ascii s)"
    "a_flags (nonres_attr type (ascii s) (length s) mpa h al n x bs) = {}"
    "a_length (nonres_attr type (ascii s) (length s) mpa h al n x bs) = nonres_size (length s) mpa"
    "attr_kind (nonres_attr type (ascii s) (length s) mpa h al n x bs) = K_other" for h al x
    using nonres_attr_ok(1) [OF _ _ ty(2), of type mpa bs] ty(1) mpa bs(2)
    by (simp_all add: known_attr_def attr_key_def attr_kind_def) (simp_all add: nonres_attr_def)
  have fit: "u + nonres_size (length s) mpa \<le> w" using len room(1) by simp
  define k where "k = place_of_key up (type, ascii s) (m_attrs m)"
  have "\<exists>m1. mkntfs_attr_lookup (me_ops env) False m type (uname_of s) False None fresh_ctx = Not_found k \<and>
      make_room_for_attribute m (nonres_size (length s) mpa) = Some m1 \<and>
      holds up i (place_attr k (nonres_attr type (ascii s) (length s) mpa h al n x bs) m1) w (V((type, ascii s) \<mapsto> K_other))" for h al x
  proof -
    have ne: "type \<noteq> AT_UNUSED" using ty(1) by (simp add: known_attr_def)
    have f: "fits up m u" "lacks up m (type, name_of (uname_of s))" using m l by (simp_all add: holds_def lacks_def)
    from lookup_lacks [OF f(1) gn(1) uname_of(1) ne f(2)]
    have k: "mkntfs_attr_lookup (me_ops env) False m type (uname_of s) False None fresh_ctx = Not_found k" by (simp add: k_def)
    from holds_place [OF m at(2) l gn(1) at(1,3) _ room(2), of h al x None] at(4,5) fit k show ?thesis by (metis attr_search.inject(2))
  qed
  then obtain m1 where m1: "mkntfs_attr_lookup (me_ops env) False m type (uname_of s) False None fresh_ctx = Not_found k"
      "make_room_for_attribute m (nonres_size (length s) mpa) = Some m1"
    and h: "\<And>h al x. holds up i (place_attr k (nonres_attr type (ascii s) (length s) mpa h al n x bs) m1) w (V((type, ascii s) \<mapsto> K_other))"
    by (metis option.inject)
  have "place_for env type (arg_of s) False {} m = Ret (Inr (k, uname_of s))"
    using m1(1) gn(2) willing_name [OF w, of s] ty(1) by (simp add: place_for_def known_attr_def)
  moreover have "\<exists>m' d'. write_and_map env wt rl val n mpa k (nonres_attr type (ascii s) (length s) mpa h al n) init m1 st =
       Ret (None, m', st\<lparr>ms_dev := d'\<rparr>) \<and> R d' \<and> holds up i m' w (V((type, ascii s) \<mapsto> K_other))" if "R (ms_dev st)" for h al init st
    using writes_fully [OF w wr that, of "g_allocation (ms_fmt st)"] h bs(1) by (auto simp: write_and_map_def Let_def)
  ultimately show ?thesis using m1(2) sz by blast
qed

lemma clusters_for_pos: "0 < cs \<Longrightarrow> 0 < n \<Longrightarrow> 0 < (n + cs - 1) div (cs :: int)"
  by (simp add: pos_imp_zdiv_pos_iff)

lemma clusters_for_cover: "0 < cs \<Longrightarrow> n \<le> (n + cs - 1) div cs * (cs :: int)"
proof -
  assume "0 < cs"
  then have "(n + cs - 1) mod cs < cs" "(n + cs - 1) div cs * cs + (n + cs - 1) mod cs = n + cs - 1" by simp_all
  then show ?thesis by linarith
qed

lemma allocate_rich:
  assumes "rich R (me_nr env) (clusters_for (me_cs env) n + k) st" and "0 < n" and "0 < me_cs env" and "wt = WRITE_STANDARD \<longrightarrow> n \<le> int (length val)"
  shows "\<exists>rl t zone. allocate_scattered_clusters (\<lambda>_. True) (me_nr env) (g_allocation (ms_fmt st)) (g_mft_zone_end (ms_fmt st))
      ((n + me_cs env - 1) div me_cs env) = (Some rl, t, zone) \<and> writable (me_cs env) (me_nr env) wt rl val n \<and>
    (\<forall>d. R d \<longrightarrow> rich R (me_nr env) k (st\<lparr>ms_fmt := (ms_fmt st)\<lparr>g_allocation := t, g_mft_zone_end := zone\<rparr>, ms_dev := d\<rparr>))"
proof -
  define c where "c = (n + me_cs env - 1) div me_cs env"
  define T z where "T = g_allocation (ms_fmt st)" and "z = g_mft_zone_end (ms_fmt st)"
  have c: "0 < c" "n \<le> c * me_cs env" "int (clusters_for (me_cs env) n) = c"
    using clusters_for_pos [OF assms(3,2)] clusters_for_cover [OF assms(3), of n] by (simp_all add: c_def clusters_for_def)
  obtain p where r: "alloc_inv T" "0 < z" and p: "z \<le> p" "p + (c + int k) \<le> me_nr env" "{z ..< p} \<subseteq> clusters T" "{p ..< p + (c + int k)} \<inter> clusters T = {}"
    using assms(1) c(3) by (auto simp: rich_def T_def z_def)
  have sub: "{p ..< p + (c + int k)} = {p ..< p + c} \<union> {p + c ..< p + c + int k}" using c(1) by auto
  have free: "{p ..< p + c} \<inter> clusters T = {}" "p + c \<le> me_nr env" using p(2,4) unfolding sub by auto
  from allocate_one_run [OF r p(1,3) free c(1)] obtain t v where
    al: "allocate_scattered_clusters (\<lambda>_. True) (me_nr env) T z c =
      (Some [\<lparr>rl_vcn = 0, rl_lcn = p, rl_length = c\<rparr>, \<lparr>rl_vcn = v, rl_lcn = 0, rl_length = 0\<rparr>], t, z)"
    and t: "alloc_inv t" "clusters t = clusters T \<union> {p ..< p + c}" by blast
  have pp: "0 \<le> p" using r(2) p(1) by simp
  have "{z ..< p + c} \<subseteq> clusters t" using p(3) unfolding t(2) by auto
  moreover have "{p + c ..< p + c + int k} \<inter> clusters t = {}" using p(4) unfolding sub t(2) by auto
  ultimately have "rich R (me_nr env) k (st\<lparr>ms_fmt := (ms_fmt st)\<lparr>g_allocation := t, g_mft_zone_end := z\<rparr>, ms_dev := d\<rparr>)" if "R d" for d
    unfolding rich_def using that t(1) r(2) p(1,2) c(1) by (auto intro!: exI [of _ "p + c"])
  moreover have "writable (me_cs env) (me_nr env) wt [\<lparr>rl_vcn = 0, rl_lcn = p, rl_length = c\<rparr>, \<lparr>rl_vcn = v, rl_lcn = 0, rl_length = 0\<rparr>] val n"
    using c assms(2,4) free(2) pp by (auto simp: writable_def)
  ultimately show ?thesis using al by (auto simp: c_def T_def z_def)
qed

text \<open>A call that succeeds on a record, takes clusters and leaves the places of the system files alone.\<close>

definition adds_on ::
  "(ntfschar \<Rightarrow> ntfschar) \<Rightarrow> ('d \<Rightarrow> bool) \<Rightarrow> int \<Rightarrow> nat \<Rightarrow> 'd mkst \<Rightarrow> nat \<Rightarrow> nat \<Rightarrow> (attr_key \<rightharpoonup> kind) \<Rightarrow> 'd attr_result \<Rightarrow> bool" where
  "adds_on up R nr i st k w V r \<longleftrightarrow> (\<exists>m' st'. r = Ret (None, m', st') \<and> holds up i m' w V \<and> rich R nr k st' \<and> places (ms_fmt st') = places (ms_fmt st))"

lemma insert_non_resident_ok:
  assumes w: "willing up R env" and m: "holds up i m u V" and l: "absent up V (type, ascii s)" and ty: "known_attr type s" "length s \<le> 4"
    and room: "u + 136 \<le> w" "w \<le> 1024" and n: "0 < n" "wt = WRITE_STANDARD \<longrightarrow> n \<le> int (length val)"
    and st: "rich R (me_nr env) (clusters_for (me_cs env) n + k) st"
  shows "adds_on up R (me_nr env) i st k w (V((type, ascii s) \<mapsto> K_other))
    (insert_non_resident_attr_in_mft_record env type (arg_of s) (length s) False {} val n wt m st)"
proof -
  have e: "0 < me_cs env" "me_rmem env = (\<lambda>_. True)" using w by (simp_all add: willing_def)
  from allocate_rich [OF st n(1) e(1) n(2)] obtain rl t zone where
    al: "allocate_scattered_clusters (\<lambda>_. True) (me_nr env) (g_allocation (ms_fmt st)) (g_mft_zone_end (ms_fmt st))
      ((n + me_cs env - 1) div me_cs env) = (Some rl, t, zone)" and wr: "writable (me_cs env) (me_nr env) wt rl val n"
    and r: "\<And>d. R d \<Longrightarrow> rich R (me_nr env) k (st\<lparr>ms_fmt := (ms_fmt st)\<lparr>g_allocation := t, g_mft_zone_end := zone\<rparr>, ms_dev := d\<rparr>)"
    by blast
  have ready: "R (ms_dev st)" using st by (simp add: rich_def)
  let ?st = "st\<lparr>ms_fmt := (ms_fmt st)\<lparr>g_allocation := t, g_mft_zone_end := zone\<rparr>\<rparr>"
  from write_and_map_ok [OF w m l ty room wr] obtain j m1 mpa where
    p: "place_for env type (arg_of s) False {} m = Ret (Inr (j, uname_of s))" "me_mp_size env rl = Some mpa"
      "make_room_for_attribute m (nonres_size (length s) mpa) = Some m1"
    and wm: "\<And>h al init. R (ms_dev ?st) \<Longrightarrow> \<exists>m' d'. write_and_map env wt rl val n mpa j (nonres_attr type (ascii s) (length s) mpa h al n) init m1 ?st =
       Ret (None, m', ?st\<lparr>ms_dev := d'\<rparr>) \<and> R d' \<and> holds up i m' w (V((type, ascii s) \<mapsto> K_other))" by blast
  from wm [of "last_vcn rl - 1" "(n + me_cs env - 1) div me_cs env * me_cs env" "\<lambda>_. n"] ready obtain m' d' where
    "insert_non_resident_attr_in_mft_record env type (arg_of s) (length s) False {} val n wt m st = Ret (None, m', ?st\<lparr>ms_dev := d'\<rparr>)"
    "R d'" "holds up i m' w (V((type, ascii s) \<mapsto> K_other))"
    using p al n(1) e(2) by (auto simp: insert_non_resident_attr_in_mft_record_def Let_def)
  then show ?thesis using r [of d'] by (auto simp: adds_on_def places_def)
qed

lemma insert_positioned_ok:
  assumes w: "willing up R env" and m: "holds up i m u V" and l: "absent up V (type, ascii s)" and ty: "known_attr type s" "length s \<le> 4"
    and room: "u + 136 \<le> w" "w \<le> 1024"
    and wr: "writable (me_cs env) (me_nr env) (if type = AT_DATA \<and> i = FILE_LogFile then WRITE_LOGFILE else WRITE_STANDARD) rl val n"
    and st: "rich R (me_nr env) k st"
  shows "adds_on up R (me_nr env) i st k w (V((type, ascii s) \<mapsto> K_other))
    (insert_positioned_attr_in_mft_record env type (arg_of s) (length s) False {} rl val n m st)"
proof -
  have num: "m_number m = i" using m by (simp add: holds_def)
  have n: "0 < n" "\<not> rl_total rl * me_cs env < n" using writable_pairs [OF w wr] by (metis not_less)+
  have ready: "R (ms_dev st)" using st by (simp add: rich_def)
  from write_and_map_ok [OF w m l ty room wr] obtain j m1 mpa where
    p: "place_for env type (arg_of s) False {} m = Ret (Inr (j, uname_of s))" "me_mp_size env rl = Some mpa"
      "make_room_for_attribute m (nonres_size (length s) mpa) = Some m1"
    and wm: "\<And>h al init. R (ms_dev st) \<Longrightarrow>
       \<exists>m' d'. write_and_map env (if type = AT_DATA \<and> i = FILE_LogFile then WRITE_LOGFILE else WRITE_STANDARD) rl val n mpa j
       (nonres_attr type (ascii s) (length s) mpa h al n) init m1 st = Ret (None, m', st\<lparr>ms_dev := d'\<rparr>) \<and> R d' \<and>
       holds up i m' w (V((type, ascii s) \<mapsto> K_other))"
    by blast
  from wm [OF ready, of "rl_total rl - 1" "rl_total rl * me_cs env" "\<lambda>x. x"] obtain m' d' where
    "insert_positioned_attr_in_mft_record env type (arg_of s) (length s) False {} rl val n m st = Ret (None, m', st\<lparr>ms_dev := d'\<rparr>)"
    "R d'" "holds up i m' w (V((type, ascii s) \<mapsto> K_other))"
    using p n num by (auto simp: insert_positioned_attr_in_mft_record_def)
  then show ?thesis using st by (auto simp: adds_on_def rich_def)
qed

end
