(* ===== verification/Root_Adds.thy ===== *)
theory Root_Adds
  imports Record_Adds
begin

text \<open>The functions that add the attributes of the system files succeed when there is room.\<close>

section \<open>Values of a given size\<close>

lemma known_attrs [simp]:
  "known_attr AT_STANDARD_INFORMATION s = (s \<in> attr_names)" "known_attr AT_FILE_NAME s = (s \<in> attr_names)" "known_attr AT_OBJECT_ID s = (s \<in> attr_names)"
  "known_attr AT_SECURITY_DESCRIPTOR s = (s \<in> attr_names)" "known_attr AT_VOLUME_NAME s = (s \<in> attr_names)"
  "known_attr AT_VOLUME_INFORMATION s = (s \<in> attr_names)" "known_attr AT_DATA s = (s \<in> attr_names)" "known_attr AT_INDEX_ROOT s = (s \<in> attr_names)"
  "known_attr AT_INDEX_ALLOCATION s = (s \<in> attr_names)" "known_attr AT_BITMAP s = (s \<in> attr_names)"
  by (simp_all add: known_attr_def attr_types)

lemma no_name [simp]: "[] \<in> attr_names"
  by (simp add: attr_names_def)

lemma kind_simps [simp]:
  "value_kind (Raw b) = K_other" "value_kind (Std_info si) = K_std" "value_kind (File_name f) = K_name (fn_file_name_type f) (fn_file_name f)" "value_kind (Index_root r) = K_root r"
  "value_len (Raw b) = length b"
  by (simp_all add: value_kind_def value_len_def)

text \<open>The room that a record, a call and the volume must have together.\<close>

definition may_add :: "(ntfschar \<Rightarrow> ntfschar) \<Rightarrow> ('d \<Rightarrow> bool) \<Rightarrow> 'd mkenv \<Rightarrow> nat \<Rightarrow> mft_record \<Rightarrow> nat \<Rightarrow> (attr_key \<rightharpoonup> kind) \<Rightarrow> nat \<Rightarrow> string \<Rightarrow> bool" where
  "may_add up R env i m u V type s \<longleftrightarrow> willing up R env \<and> holds up i m u V \<and> absent up V (type, ascii s) \<and> known_attr type s"

lemma add_resident_adds:
  assumes "may_add up R env i m u V type s" and "rich R (me_nr env) k st" and "type = AT_OBJECT_ID \<longrightarrow> s = []" and "length s < 256"
    and "v = (case val of None \<Rightarrow> Raw [] | Some v \<Rightarrow> v)" and "u + res_size s (value_len v) \<le> w" and "w \<le> 1024"
  shows "adds_on up R (me_nr env) i st k w (V((type, ascii s) \<mapsto> value_kind v)) (add_resident env type (arg_of s) (length s) False {} rf val m st)"
  using add_resident_ok [of up R env i m u V type s v val w rf st] assms by (auto simp: adds_on_def may_add_def)

lemma holds_sizes: "holds up i m u V \<Longrightarrow> m_bytes_in_use m \<le> u \<and> m_bytes_allocated m = 1024"
  by (simp add: holds_def fits_def)

lemma data_small:
  assumes "may_add up R env i m u V AT_DATA s" and "rich R (me_nr env) k st" and "length s < 256" and "b = (case val of None \<Rightarrow> [] | Some b \<Rightarrow> b)"
    and "u + 24 + length b \<le> 512" and "u + res_size s (length b) \<le> w" and "w \<le> 1024"
  shows "adds_on up R (me_nr env) i st k w (V((AT_DATA, ascii s) \<mapsto> K_other)) (add_attr_data env (arg_of s) (length s) False {} val m st)"
proof -
  have h: "m_bytes_in_use m \<le> u" "m_bytes_allocated m = 1024" using assms(1) holds_sizes by (auto simp: may_add_def)
  have "Raw b = (case map_option Raw val of None \<Rightarrow> Raw [] | Some v \<Rightarrow> v)" using assms(4) by (cases val) simp_all
  from add_resident_adds [OF assms(1,2) _ assms(3) this, of w False] assms(6,7) h assms(5)
  show ?thesis by (simp add: add_attr_data_def Let_def assms(4) [symmetric] attr_types)
qed

lemma data_large:
  assumes "may_add up R env i m u V AT_DATA s" and "rich R (me_nr env) (clusters_for (me_cs env) (int (length b)) + k) st" and "length s \<le> 4"
    and "512 < length b" and "u + 136 \<le> w" and "w \<le> 1024"
  shows "adds_on up R (me_nr env) i st k w (V((AT_DATA, ascii s) \<mapsto> K_other)) (add_attr_data env (arg_of s) (length s) False {} (Some b) m st)"
proof -
  have h: "m_bytes_allocated m = 1024" using assms(1) holds_sizes by (auto simp: may_add_def)
  have "b \<noteq> []" using assms(4) by auto
  with insert_non_resident_ok [of up R env i m u V AT_DATA s w "int (length b)" WRITE_STANDARD b k st] assms h
  show ?thesis by (auto simp: may_add_def add_attr_data_def Let_def)
qed

lemma sd_small:
  assumes "may_add up R env i m u V AT_SECURITY_DESCRIPTOR []" and "rich R (me_nr env) k st"
    and "u + res_size [] (length sd) \<le> w" and "w \<le> 1024"
  shows "adds_on up R (me_nr env) i st k w (V((AT_SECURITY_DESCRIPTOR, []) \<mapsto> K_other)) (add_attr_sd env sd m st)"
proof -
  have h: "m_bytes_in_use m \<le> u" "m_bytes_allocated m = 1024" using assms(1) holds_sizes by (auto simp: may_add_def)
  have "24 + length sd \<le> res_size [] (length sd)" by (simp add: res_size_def)
  with h assms(3,4) have "\<not> m_bytes_in_use m + 24 + length sd > m_bytes_allocated m" by simp
  with add_resident_adds [OF assms(1,2), of "Raw sd" "Some (Raw sd)" w False] assms(3,4)
  show ?thesis by (simp add: add_attr_sd_def arg_of_def)
qed

lemma sd_large:
  assumes "may_add up R env i m u V AT_SECURITY_DESCRIPTOR []" and "rich R (me_nr env) (clusters_for (me_cs env) (int (length sd)) + k) st"
    and "1024 < length sd" and "u + 136 \<le> w" and "w \<le> 1024"
  shows "adds_on up R (me_nr env) i st k w (V((AT_SECURITY_DESCRIPTOR, []) \<mapsto> K_other)) (add_attr_sd env sd m st)"
proof -
  have h: "m_bytes_allocated m = 1024" using assms(1) holds_sizes by (auto simp: may_add_def)
  have "sd \<noteq> []" using assms(3) by auto
  with insert_non_resident_ok [of up R env i m u V AT_SECURITY_DESCRIPTOR "[]" w "int (length sd)" WRITE_STANDARD sd k st] assms h
  show ?thesis by (auto simp: may_add_def add_attr_sd_def arg_of_def)
qed

section \<open>The other attributes\<close>

lemma bitmap_small:
  assumes "may_add up R env i m u V AT_BITMAP s" and "rich R (me_nr env) k st" and "length s < 256"
    and "u + res_size s (length b) \<le> w" and "w \<le> 1024"
  shows "adds_on up R (me_nr env) i st k w (V((AT_BITMAP, ascii s) \<mapsto> K_other)) (add_attr_bitmap env (arg_of s) (length s) False b m st)"
proof -
  have h: "m_bytes_in_use m \<le> u" "m_bytes_allocated m = 1024" using assms(1) holds_sizes by (auto simp: may_add_def)
  have "24 + length b \<le> res_size s (length b)" by (simp add: res_size_def)
  with h assms(4,5) have "\<not> m_bytes_in_use m + 24 + length b > m_bytes_allocated m" by simp
  with add_resident_adds [OF assms(1,2) _ assms(3), of "Raw b" "Some (Raw b)" w False] assms(4,5)
  show ?thesis by (simp add: add_attr_bitmap_def attr_types)
qed

definition std_size :: "nat \<Rightarrow> nat" where
  "std_size sid = (if sid \<noteq> 0 then 96 else 72)"

lemma std_info_adds:
  assumes "may_add up R env i m u V AT_STANDARD_INFORMATION []" and "rich R (me_nr env) k st" and "u + std_size sid \<le> w" and "w \<le> 1024"
  shows "adds_on up R (me_nr env) i st k w (V((AT_STANDARD_INFORMATION, []) \<mapsto> K_std)) (add_attr_std_info env now fl sid m st)"
proof -
  define v where "v = Std_info \<lparr>si_times = (now, now, now, now), si_file_attributes = fl, si_security_id = sid\<rparr>"
  have "value_kind v = K_std" "res_size [] (value_len v) = std_size sid" by (simp_all add: v_def value_len_def res_size_def std_size_def)
  with add_resident_adds [OF assms(1,2), of v "Some v" w False] assms(3,4)
  show ?thesis by (simp add: add_attr_std_info_def arg_of_def v_def [symmetric])
qed

lemma object_id_adds:
  assumes "may_add up R env i m u V AT_OBJECT_ID []" and "rich R (me_nr env) k st" and "length guid = 16" and "u + 40 \<le> w" and "w \<le> 1024"
  shows "adds_on up R (me_nr env) i st k w (V((AT_OBJECT_ID, []) \<mapsto> K_other)) (add_attr_object_id env guid m st)"
  using add_resident_adds [OF assms(1,2), of "Raw guid" "Some (Raw guid)" w False] assms(3-5)
  by (simp add: add_attr_object_id_def arg_of_def res_size_def)

lemma vol_info_adds:
  assumes "may_add up R env i m u V AT_VOLUME_INFORMATION []" and "rich R (me_nr env) k st" and "length (vi d x y) = 12" and "u + 40 \<le> w" and "w \<le> 1024"
  shows "adds_on up R (me_nr env) i st k w (V((AT_VOLUME_INFORMATION, []) \<mapsto> K_other)) (add_attr_vol_info env vi d x y m st)"
  using add_resident_adds [OF assms(1,2), of "Raw (vi d x y)" "Some (Raw (vi d x y))" w False] assms(3-5)
  by (simp add: add_attr_vol_info_def arg_of_def res_size_def)

text \<open>A label of at most 128 characters.\<close>

lemma vol_name_adds:
  assumes "may_add up R env i m u V AT_VOLUME_NAME []" and "rich R (me_nr env) k st" and "u + 280 \<le> w" and "w \<le> 1024"
    and "\<forall>s. name = Some s \<longrightarrow> (\<exists>u. mb s = Some u \<and> length u \<le> 128)"
  shows "adds_on up R (me_nr env) i st k w (V((AT_VOLUME_NAME, []) \<mapsto> K_other)) (add_attr_vol_name env mb name m st)"
proof (cases name)
  case None
  then show ?thesis
    using add_resident_adds [OF assms(1,2), of "Raw []" None w False] assms(3,4) by (simp add: add_attr_vol_name_def arg_of_def res_size_def)
next
  case (Some s)
  with assms(5) obtain u where u: "mb s = Some u" "length u \<le> 128" by blast
  have "res_size [] (2 * length u) \<le> 280" using u(2) by (simp add: res_size_def)
  then show ?thesis
    using add_resident_adds [OF assms(1,2), of "Raw (ucs_bytes u)" "Some (Raw (ucs_bytes u))" w False] assms(3,4) u Some
    by (simp add: add_attr_vol_name_def arg_of_def)
qed

text \<open>An empty index root.\<close>

definition new_root :: "nat \<Rightarrow> nat \<Rightarrow> collation \<Rightarrow> nat \<Rightarrow> index_root" where
  "new_root cs indexed rule bs =
     \<lparr>ir_type = (if indexed = AT_FILE_NAME then AT_FILE_NAME else 0), ir_collation_rule = rule, ir_index_block_size = bs,
      ir_clusters_per_index_block = (if bs \<ge> cs then bs div cs else drop_bit 9 bs) mod 256, ir_large = False,
      ir_header = \<lparr>ih_entries_offset = 16, ih_index_length = 32, ih_allocated_size = 32, ih_entries = [end_entry]\<rparr>\<rparr>"

text \<open>The block size goes with the cluster size.\<close>

definition block_fits :: "'d mkenv \<Rightarrow> nat \<Rightarrow> bool" where
  "block_fits env bs \<longleftrightarrow> pow2 bs \<and> me_sector_size env \<le> bs \<and> (nat (me_cs env) \<le> bs \<longrightarrow> bs mod nat (me_cs env) = 0)"

lemma index_root_adds:
  assumes "may_add up R env i m u V AT_INDEX_ROOT s" and "rich R (me_nr env) k st" and "length s < 256" and "block_fits env bs"
    and "t = AT_FILE_NAME \<longrightarrow> rule = COLLATION_FILE_NAME" and "u + res_size s 48 \<le> w" and "w \<le> 1024"
  shows "adds_on up R (me_nr env) i st k w (V((AT_INDEX_ROOT, ascii s) \<mapsto> K_root (new_root (nat (me_cs env)) t rule bs)))
    (add_attr_index_root env (arg_of s) (length s) False t rule bs m st)"
proof -
  define r where "r = new_root (nat (me_cs env)) t rule bs"
  have "me_mem env" using assms(1) by (simp add: may_add_def willing_def)
  then have run: "add_attr_index_root env (arg_of s) (length s) False t rule bs m st =
      add_resident env AT_INDEX_ROOT (arg_of s) (length s) False {} False (Some (Index_root r)) m st"
    using assms(4,5) by (auto simp: add_attr_index_root_def Let_def block_fits_def r_def new_root_def)
  have "value_len (Index_root r) = 48" by (simp add: value_len_def r_def new_root_def)
  with add_resident_adds [OF assms(1,2) _ assms(3), of "Index_root r" "Some (Index_root r)" w False] assms(6,7)
  show ?thesis unfolding run by (simp add: r_def attr_types)
qed

end
