(* ===== verification/Root_World.thy ===== *)
theory Root_World
  imports Root_Adds
begin

text \<open>
  The state in which the system files are made, as far as the success of a step depends on it: what the records hold, how many clusters are
  free, and what the index block of the root directory lists.
\<close>

section \<open>States and steps\<close>

record plan =
  p_recs :: "nat \<Rightarrow> mft_record \<Rightarrow> bool"
  p_free :: nat
  p_dir :: "(string set \<times> nat) option"

text \<open>An index block that lists the names, compared without case, and uses at most \<open>l\<close> bytes.\<close>

definition dir_lists :: "(ntfschar \<Rightarrow> ntfschar) \<Rightarrow> string set \<Rightarrow> nat \<Rightarrow> index_header \<Rightarrow> bool" where
  "dir_lists up N l h \<longleftrightarrow> header_ok name_ok (name_rank up) h \<and> (\<lambda>e. name_rank up (ie_key e)) ` live h = (\<lambda>s. map up (ascii s)) ` N \<and>
     ih_index_length h \<le> l \<and> 4072 \<le> ih_allocated_size h"

definition world :: "(ntfschar \<Rightarrow> ntfschar) \<Rightarrow> ('d \<Rightarrow> bool) \<Rightarrow> 'd root_cfg \<Rightarrow> fmt \<Rightarrow> plan \<Rightarrow> 'd root_st \<Rightarrow> bool" where
  "world up R c F W s \<longleftrightarrow> 27 \<le> length (rs_recs s) \<and> g_mft_size F \<le> 1024 * int (length (rs_recs s)) \<and> (\<forall>i < 27. p_recs W i (rs_recs s ! i)) \<and>
     rich R (vp_nr_clusters (rc_vol c)) (p_free W) (rs_mk s) \<and> places (fmt_of s) = places F \<and>
     rs_mft_bitmap s \<noteq> [] \<and> length (rs_sd s) = 0x68 \<and> length (rs_root_sd s) = 0x102c \<and>
     (case p_dir W of None \<Rightarrow> True | Some (N, l) \<Rightarrow> (\<exists>h. rs_index s = Some h \<and> dir_lists up N l h))"

text \<open>A step that succeeds in every state of the first kind and leaves one of the second.\<close>

definition run_ok :: "'d root_cfg \<Rightarrow> 'd root_step \<Rightarrow> ('d root_st \<Rightarrow> bool) \<Rightarrow> ('d root_st \<Rightarrow> bool) \<Rightarrow> bool" where
  "run_ok c f P Q \<longleftrightarrow> (\<forall>s. P s \<longrightarrow> (\<exists>s'. f c s = Ret (None, s') \<and> Q s'))"

lemma run_ok_Nil: "run_ok c (all_of []) P P"
  by (simp add: run_ok_def)

lemma run_ok_Cons: "run_ok c f P Q \<Longrightarrow> run_ok c (all_of fs) Q R \<Longrightarrow> run_ok c (all_of (f # fs)) P R"
  by (fastforce simp: run_ok_def andthen_def)

lemma run_ok_last: "run_ok c f P Q \<Longrightarrow> run_ok c (all_of [f]) P Q"
  by (rule run_ok_Cons [OF _ run_ok_Nil])

lemma run_ok_weaken: "run_ok c f P Q \<Longrightarrow> (\<And>s. P' s \<Longrightarrow> P s) \<Longrightarrow> (\<And>s. Q s \<Longrightarrow> Q' s) \<Longrightarrow> run_ok c f P' Q'"
  unfolding run_ok_def by blast

text \<open>What every step needs of the surroundings.\<close>

definition sys_names :: "string set" where
  "sys_names = {''.'', ''$MFT'', ''$MFTMirr'', ''$LogFile'', ''$Volume'', ''$AttrDef'', ''$Bitmap'', ''$Boot'', ''$BadClus'', ''$Secure'', ''$UpCase'',
     ''$Extend'', ''$Quota'', ''$ObjId'', ''$Reparse''}"

definition prepared :: "(ntfschar \<Rightarrow> ntfschar) \<Rightarrow> ('d \<Rightarrow> bool) \<Rightarrow> 'd root_cfg \<Rightarrow> bool" where
  "prepared up R c \<longleftrightarrow> (\<forall>n. willing up R (rc_env c n) \<and> me_cs (rc_env c n) = csize c \<and> me_nr (rc_env c n) = vp_nr_clusters (rc_vol c) \<and>
       block_fits (rc_env c n) 4096) \<and>
     vp_mft_record_size (rc_vol c) = 1024 \<and> vp_indx_record_size (rc_vol c) = 4096 \<and>
     (\<forall>s \<in> sys_names. rc_mb c s = Some (ascii s)) \<and>
     inj_on (\<lambda>s. map up (ascii s)) sys_names \<and> inj_on (\<lambda>s. map up (ascii s)) attr_names"

lemma prepared_env:
  assumes "prepared up R c"
  shows "willing up R (rc_env c n)" "me_cs (rc_env c n) = csize c" "me_nr (rc_env c n) = vp_nr_clusters (rc_vol c)" "block_fits (rc_env c n) 4096"
    "me_mem (rc_env c n)" "0 < csize c"
proof -
  show w: "willing up R (rc_env c n)" and cs: "me_cs (rc_env c n) = csize c" and "me_nr (rc_env c n) = vp_nr_clusters (rc_vol c)" "block_fits (rc_env c n) 4096"
    using assms by (simp_all add: prepared_def)
  then show "me_mem (rc_env c n)" "0 < csize c" unfolding willing_def by simp_all
qed

section \<open>Steps on one record\<close>

definition at_rec :: "(ntfschar \<Rightarrow> ntfschar) \<Rightarrow> nat \<Rightarrow> nat \<Rightarrow> (attr_key \<rightharpoonup> kind) \<Rightarrow> nat \<Rightarrow> plan \<Rightarrow> plan" where
  "at_rec up i u V n W = W\<lparr>p_recs := (p_recs W)(i := (\<lambda>m. holds up i m u V)), p_free := p_free W - n\<rparr>"

lemma at_rec_simps [simp]:
  "p_recs (at_rec up i u V n W) j = (if j = i then (\<lambda>m. holds up i m u V) else p_recs W j)" "p_free (at_rec up i u V n W) = p_free W - n"
  "p_dir (at_rec up i u V n W) = p_dir W"
  by (simp_all add: at_rec_def)

lemma world_record:
  assumes "world up R c F W s" and "holds up i m u V" and "rich R (vp_nr_clusters (rc_vol c)) (p_free W - n) mk" and "places (ms_fmt mk) = places (fmt_of s)"
    and "i < 27"
  shows "world up R c F (at_rec up i u V n W) ((set_record i m s)\<lparr>rs_mk := mk\<rparr>)"
  using assms by (auto simp: world_def set_record_def fmt_of_def nth_list_update split: option.splits)

lemma on_record_ok:
  assumes "i < 27" and "p_recs W i = (\<lambda>m. holds up i m u V)" and "n \<le> p_free W"
    and f: "\<And>s m. world up R c F W s \<Longrightarrow> holds up i m u V \<Longrightarrow> rich R (vp_nr_clusters (rc_vol c)) (n + (p_free W - n)) (rs_mk s) \<Longrightarrow>
      adds_on up R (vp_nr_clusters (rc_vol c)) i (rs_mk s) (p_free W - n) w V' (f c s (rc_env c (rs_clock s)) m (rs_mk s))"
  shows "run_ok c (on_record i f) (world up R c F W) (world up R c F (at_rec up i w V' n W))"
  unfolding run_ok_def
proof (intro allI impI)
  fix s
  assume s: "world up R c F W s"
  have m: "holds up i (rs_recs s ! i) u V" using s assms(1,2) by (auto simp: world_def)
  have r: "rich R (vp_nr_clusters (rc_vol c)) (n + (p_free W - n)) (rs_mk s)" using s assms(3) by (simp add: world_def)
  from f [OF s m r] obtain m' mk' where res: "f c s (rc_env c (rs_clock s)) (rs_recs s ! i) (rs_mk s) = Ret (None, m', mk')"
    and h: "holds up i m' w V'" "rich R (vp_nr_clusters (rc_vol c)) (p_free W - n) mk'" "places (ms_fmt mk') = places (ms_fmt (rs_mk s))"
    by (auto simp: adds_on_def)
  from world_record [OF s h(1,2) _ assms(1)] h(3) have "world up R c F (at_rec up i w V' n W) ((set_record i m' s)\<lparr>rs_mk := mk'\<rparr>)"
    by (simp add: fmt_of_def)
  then show "\<exists>s'. on_record i f c s = Ret (None, s') \<and> world up R c F (at_rec up i w V' n W) s'" by (simp add: on_record_def res)
qed

text \<open>
  The steps on a record. The premises say that the record has no attribute with the key, and that there is room in it and on the volume.
\<close>

definition at_step :: "(ntfschar \<Rightarrow> ntfschar) \<Rightarrow> ('d \<Rightarrow> bool) \<Rightarrow> 'd root_cfg \<Rightarrow> plan \<Rightarrow> nat \<Rightarrow> nat \<Rightarrow> (attr_key \<rightharpoonup> kind) \<Rightarrow> bool" where
  "at_step up R c W i u V \<longleftrightarrow> prepared up R c \<and> i < 27 \<and> p_recs W i = (\<lambda>m. holds up i m u V)"

definition new_attr :: "(ntfschar \<Rightarrow> ntfschar) \<Rightarrow> ('d \<Rightarrow> bool) \<Rightarrow> 'd root_cfg \<Rightarrow> plan \<Rightarrow> nat \<Rightarrow> nat \<Rightarrow> (attr_key \<rightharpoonup> kind) \<Rightarrow> nat \<Rightarrow> string \<Rightarrow> bool" where
  "new_attr up R c W i u V type s \<longleftrightarrow> at_step up R c W i u V \<and> absent up V (type, ascii s) \<and> known_attr type s"

lemma attr_step:
  assumes a: "new_attr up R c W i u V type s" and n: "n \<le> p_free W"
    and f: "\<And>(x :: 'd root_st) m env. env = rc_env c (rs_clock x) \<Longrightarrow> may_add up R env i m u V type s \<Longrightarrow> rich R (me_nr env) (n + (p_free W - n)) (rs_mk x) \<Longrightarrow>
      world up R c F W x \<Longrightarrow> me_cs env = csize c \<Longrightarrow> adds_on up R (me_nr env) i (rs_mk x) (p_free W - n) w V' (f c x env m (rs_mk x))"
  shows "run_ok (c :: 'd root_cfg) (on_record i f) (world up R c F W) (world up R c F (at_rec up i w V' n W))"
proof -
  have st: "prepared up R c" "i < 27" "p_recs W i = (\<lambda>m. holds up i m u V)" using a by (simp_all add: new_attr_def at_step_def)
  show ?thesis
  proof (rule on_record_ok [OF st(2,3) n])
    fix x :: "'d root_st" and m
    assume x: "world up R c F W x" "holds up i m u V" "rich R (vp_nr_clusters (rc_vol c)) (n + (p_free W - n)) (rs_mk x)"
    have "may_add up R (rc_env c (rs_clock x)) i m u V type s"
      using a x(2) prepared_env(1) [OF st(1)] by (simp add: may_add_def new_attr_def)
    from f [OF refl this _ x(1)] x(3) prepared_env(2,3) [OF st(1)]
    show "adds_on up R (vp_nr_clusters (rc_vol c)) i (rs_mk x) (p_free W - n) w V' (f c x (rc_env c (rs_clock x)) m (rs_mk x))" by simp
  qed
qed

lemma data_small_step:
  assumes "new_attr up R c W i u V AT_DATA s" and "name = arg_of s" and "nl = length s" and "nl < 256" and "u + 24 + length b \<le> 512"
    and "u + res_size s (length b) \<le> w" and "w \<le> 1024" and "\<And>x. b = (case val c x of None \<Rightarrow> [] | Some b \<Rightarrow> b)"
  shows "run_ok c (on_record i (\<lambda>c s env m mk. add_attr_data env name nl False {} (val c s) m mk)) (world up R c F W)
    (world up R c F (at_rec up i w (V((AT_DATA, ascii s) \<mapsto> K_other)) 0 W))"
  by (rule attr_step [OF assms(1)]) (use assms(2-) data_small [OF _ _ _ assms(8) assms(5-7)] in \<open>simp_all\<close>)

lemma data_large_step:
  fixes c :: "'d root_cfg"
  assumes "new_attr up R c W i u V AT_DATA s" and "name = arg_of s" and "nl = length s" and "nl \<le> 4" and "512 < length b"
    and "u + 136 \<le> w" and "w \<le> 1024" and "clusters_for (csize c) (int (length b)) \<le> p_free W" and "\<And>x. val c x = Some b"
  shows "run_ok c (on_record i (\<lambda>c s env m mk. add_attr_data env name nl False {} (val c s) m mk)) (world up R c F W)
    (world up R c F (at_rec up i w (V((AT_DATA, ascii s) \<mapsto> K_other)) (clusters_for (csize c) (int (length b))) W))"
proof (rule attr_step [OF assms(1,8)])
  fix x :: "'d root_st" and m and env :: "'d mkenv"
  assume e: "may_add up R env i m u V AT_DATA s" "me_cs env = csize c"
    "rich R (me_nr env) (clusters_for (csize c) (int (length b)) + (p_free W - clusters_for (csize c) (int (length b)))) (rs_mk x)"
  from data_large [OF e(1) e(3) [folded e(2)] _ assms(5-7)] assms(2-4,9)
  show "adds_on up R (me_nr env) i (rs_mk x) (p_free W - clusters_for (csize c) (int (length b))) w (V((AT_DATA, ascii s) \<mapsto> K_other))
      (add_attr_data env name nl False {} (val c x) m (rs_mk x))" by (simp add: e(2))
qed

lemma empty_data_step:
  assumes "new_attr up R c W i u V AT_DATA []" and "u + 24 \<le> 512" and "u + 24 \<le> w" and "w \<le> 1024"
  shows "run_ok c (add_empty_data i) (world up R c F W) (world up R c F (at_rec up i w (V((AT_DATA, []) \<mapsto> K_other)) 0 W))"
  using data_small_step [OF assms(1), of None 0 "[]" w "\<lambda>c s. None"] assms(2-4)
  by (simp add: add_empty_data_def arg_of_def res_size_def)

lemma object_id_step:
  assumes "new_attr up R c W i u V AT_OBJECT_ID []" and "length g = 16" and "u + 40 \<le> w" and "w \<le> 1024"
  shows "run_ok c (on_record i (\<lambda>c s env m mk. add_attr_object_id env g m mk)) (world up R c F W)
    (world up R c F (at_rec up i w (V((AT_OBJECT_ID, []) \<mapsto> K_other)) 0 W))"
  by (rule attr_step [OF assms(1)]) (use assms(2-) object_id_adds in \<open>simp_all\<close>)

lemma vol_info_step:
  assumes "new_attr up R c W i u V AT_VOLUME_INFORMATION []" and "length (rc_vi c d x y) = 12" and "u + 40 \<le> w" and "w \<le> 1024"
  shows "run_ok c (on_record i (\<lambda>c s env m mk. add_attr_vol_info env (rc_vi c) d x y m mk)) (world up R c F W)
    (world up R c F (at_rec up i w (V((AT_VOLUME_INFORMATION, []) \<mapsto> K_other)) 0 W))"
  by (rule attr_step [OF assms(1)]) (use assms(2-) vol_info_adds in \<open>simp_all\<close>)

lemma vol_name_step:
  assumes "new_attr up R c W i u V AT_VOLUME_NAME []" and "\<forall>s. rc_vol_name c = Some s \<longrightarrow> (\<exists>u. rc_mb c s = Some u \<and> length u \<le> 128)"
    and "u + 280 \<le> w" and "w \<le> 1024"
  shows "run_ok c (on_record i (\<lambda>c s env m mk. add_attr_vol_name env (rc_mb c) (rc_vol_name c) m mk)) (world up R c F W)
    (world up R c F (at_rec up i w (V((AT_VOLUME_NAME, []) \<mapsto> K_other)) 0 W))"
  by (rule attr_step [OF assms(1)]) (use assms(2-) vol_name_adds in \<open>simp_all\<close>)

lemma view_root_step:
  fixes c :: "'d root_cfg"
  assumes "new_attr up R c W i u V AT_INDEX_ROOT s" and "nl = length s" and "s \<noteq> []" and "nl < 256" and "t = AT_FILE_NAME \<longrightarrow> rule = COLLATION_FILE_NAME"
    and "u + res_size s 48 \<le> w" and "w \<le> 1024"
  shows "run_ok c (add_view_root i s nl t rule) (world up R c F W)
    (world up R c F (at_rec up i w (V((AT_INDEX_ROOT, ascii s) \<mapsto> K_root (new_root (vp_csize (rc_vol c)) t rule 4096))) 0 W))"
proof -
  have p: "prepared up R c" "vp_indx_record_size (rc_vol c) = 4096" using assms(1) by (simp_all add: new_attr_def at_step_def prepared_def)
  show ?thesis
    unfolding add_view_root_def
  proof (rule attr_step [OF assms(1)])
    fix x :: "'d root_st" and m and env :: "'d mkenv"
    assume e: "env = rc_env c (rs_clock x)" "may_add up R env i m u V AT_INDEX_ROOT s" "rich R (me_nr env) (0 + (p_free W - 0)) (rs_mk x)" "me_cs env = csize c"
    have "block_fits env 4096" using prepared_env(4) [OF p(1)] e(1) by simp
    from index_root_adds [OF e(2) e(3) _ this assms(5-7)] assms(2-4) p(2) e(4)
    show "adds_on up R (me_nr env) i (rs_mk x) (p_free W - 0) w (V((AT_INDEX_ROOT, ascii s) \<mapsto> K_root (new_root (vp_csize (rc_vol c)) t rule 4096)))
        (add_attr_index_root env (Some s) nl False t rule (vp_indx_record_size (rc_vol c)) m (rs_mk x))"
      by (simp add: arg_of_def csize_def)
  qed simp
qed

lemma positioned_data_step:
  fixes c :: "'d root_cfg"
  assumes "new_attr up R c W i u V AT_DATA s" and "name = arg_of s" and "nl = length s" and "nl \<le> 4" and "u + 136 \<le> w" and "w \<le> 1024"
    and "\<And>x. world up R c F W x \<Longrightarrow> writable (csize c) (vp_nr_clusters (rc_vol c)) (if i = 2 then WRITE_LOGFILE else WRITE_STANDARD) (rl c x) (val c x) (n c x)"
  shows "run_ok c (on_record i (\<lambda>c s env m mk. add_attr_data_positioned env name nl False {} (rl c s) (val c s) (n c s) m mk)) (world up R c F W)
    (world up R c F (at_rec up i w (V((AT_DATA, ascii s) \<mapsto> K_other)) 0 W))"
proof (rule attr_step [OF assms(1)])
  fix x :: "'d root_st" and m and env :: "'d mkenv"
  assume e: "env = rc_env c (rs_clock x)" "may_add up R env i m u V AT_DATA s" "rich R (me_nr env) (0 + (p_free W - 0)) (rs_mk x)" "world up R c F W x"
    "me_cs env = csize c"
  have nr: "me_nr env = vp_nr_clusters (rc_vol c)" using prepared_env(3) [of up R c] assms(1) e(1) by (simp add: new_attr_def at_step_def)
  from e(2) have "willing up R env" "holds up i m u V" "absent up V (AT_DATA, ascii s)" "known_attr AT_DATA s" by (simp_all add: may_add_def)
  from insert_positioned_ok [OF this, of w "rl c x" "val c x" "n c x" "p_free W" "rs_mk x"] assms(2-6) assms(7) [OF e(4), folded nr] e(3,5)
  show "adds_on up R (me_nr env) i (rs_mk x) (p_free W - 0) w (V((AT_DATA, ascii s) \<mapsto> K_other))
      (add_attr_data_positioned env name nl False {} (rl c x) (val c x) (n c x) m (rs_mk x))"
    by (simp add: add_attr_data_positioned_def FILE_LogFile_def)
qed simp

lemma positioned_bitmap_step:
  fixes c :: "'d root_cfg"
  assumes "new_attr up R c W i u V AT_BITMAP []" and "u + 136 \<le> w" and "w \<le> 1024"
    and "\<And>x. world up R c F W x \<Longrightarrow> writable (csize c) (vp_nr_clusters (rc_vol c)) WRITE_STANDARD (rl c x) (val c x) (int (length (val c x)))"
  shows "run_ok c (on_record i (\<lambda>c s env m mk. add_attr_bitmap_positioned env None 0 False (rl c s) (val c s) m mk)) (world up R c F W)
    (world up R c F (at_rec up i w (V((AT_BITMAP, []) \<mapsto> K_other)) 0 W))"
proof (rule attr_step [OF assms(1)])
  fix x :: "'d root_st" and m and env :: "'d mkenv"
  assume e: "env = rc_env c (rs_clock x)" "may_add up R env i m u V AT_BITMAP []" "rich R (me_nr env) (0 + (p_free W - 0)) (rs_mk x)" "world up R c F W x"
    "me_cs env = csize c"
  have nr: "me_nr env = vp_nr_clusters (rc_vol c)" using prepared_env(3) [of up R c] assms(1) e(1) by (simp add: new_attr_def at_step_def)
  from e(2) have "willing up R env" "holds up i m u V" "absent up V (AT_BITMAP, ascii [])" "known_attr AT_BITMAP []" by (simp_all add: may_add_def)
  from insert_positioned_ok [OF this, of w "rl c x" "val c x" "int (length (val c x))" "p_free W" "rs_mk x"] assms(2,3) assms(4) [OF e(4), folded nr] e(3,5)
  show "adds_on up R (me_nr env) i (rs_mk x) (p_free W - 0) w (V((AT_BITMAP, []) \<mapsto> K_other))
      (add_attr_bitmap_positioned env None 0 False (rl c x) (val c x) m (rs_mk x))"
    by (simp add: add_attr_bitmap_positioned_def arg_of_def attr_types)
qed simp

end
