(* ===== verification/Root_Steps.thy ===== *)
theory Root_Steps
  imports Root_World
begin

text \<open>Links, security descriptors and view indexes: the steps that do more than add an attribute.\<close>

section \<open>Flags and descriptors\<close>

lemma holds_flags [simp]: "holds up i (m\<lparr>m_flags := fl\<rparr>) u V = holds up i m u V"
  by (simp add: holds_def fits_def vals_def record_ok_def attr_off_def)

lemma set_flags_step:
  assumes "at_step up R c W i u V"
  shows "run_ok c (set_flags i fl) (world up R c F W) (world up R c F W)"
  using assms by (auto simp: run_ok_def set_flags_def at_step_def world_def set_record_def fmt_of_def nth_list_update split: option.splits)

lemma system_sd_length:
  assumes "length buf = 0x68"
  shows "\<exists>sd buf'. init_system_file_sd c (int i) buf = (Some sd, buf') \<and> length sd = 0x64 \<and> length buf' = 0x68"
proof -
  let ?h = "\<lparr>sr_revision = 1, sr_control = rel_control c, sr_owner = 0x48, sr_group = 0x54, sr_sacl = 0, sr_dacl = 0x14\<rparr>"
  have "length (put_sd buf 0 ?h 2 0x34 (system_file_aces c (int i)) (system_sid c 1) (admins_sid c 1)) = 0x68"
    using assms by (simp add: put_sd_def system_file_aces_def Let_def)
  then show ?thesis by (simp add: init_system_file_sd_def Let_def)
qed

lemma root_sd_length: "length buf = 0x102c \<Longrightarrow> length (init_root_sd c buf) = 0x102c"
  by (simp add: init_root_sd_def put_sd_def root_aces_def Let_def)

lemma system_sd_step:
  fixes c :: "'d root_cfg"
  assumes "new_attr up R c W i u V AT_SECURITY_DESCRIPTOR []" and "u + 128 \<le> w" and "w \<le> 1024"
  shows "run_ok c (add_system_sd i) (world up R c F W) (world up R c F (at_rec up i w (V((AT_SECURITY_DESCRIPTOR, []) \<mapsto> K_other)) 0 W))"
  unfolding run_ok_def
proof (intro allI impI)
  fix s :: "'d root_st"
  assume s: "world up R c F W s"
  then obtain sd buf where sd: "init_system_file_sd (rc_sdc c) (int i) (rs_sd s) = (Some sd, buf)" "length sd = 0x64" "length buf = 0x68"
    using system_sd_length [of "rs_sd s" "rc_sdc c" i] by (auto simp: world_def)
  have "run_ok c (on_record i (\<lambda>c s env m mk. add_attr_sd env sd m mk)) (world up R c F W)
      (world up R c F (at_rec up i w (V((AT_SECURITY_DESCRIPTOR, []) \<mapsto> K_other)) 0 W))"
    by (rule attr_step [OF assms(1)], simp, rule sd_small) (use assms(2,3) sd(2) in \<open>simp_all add: res_size_def\<close>)
  moreover have "world up R c F W (s\<lparr>rs_sd := buf\<rparr>)" using s sd(3) by (auto simp: world_def fmt_of_def split: option.splits)
  ultimately show "\<exists>s'. add_system_sd i c s = Ret (None, s') \<and> world up R c F (at_rec up i w (V((AT_SECURITY_DESCRIPTOR, []) \<mapsto> K_other)) 0 W) s'"
    by (auto simp: add_system_sd_def sd(1) run_ok_def)
qed

definition root_sd_clusters :: "'d root_cfg \<Rightarrow> nat" where
  "root_sd_clusters c = clusters_for (csize c) 0x102c"

lemma root_sd_step:
  fixes c :: "'d root_cfg"
  assumes "new_attr up R c W 5 u V AT_SECURITY_DESCRIPTOR []" and "u + 136 \<le> w" and "w \<le> 1024" and "root_sd_clusters c \<le> p_free W"
  shows "run_ok c add_root_sd (world up R c F W) (world up R c F (at_rec up 5 w (V((AT_SECURITY_DESCRIPTOR, []) \<mapsto> K_other)) (root_sd_clusters c) W))"
  unfolding run_ok_def
proof (intro allI impI)
  fix s :: "'d root_st"
  assume s: "world up R c F W s"
  define sd where "sd = init_root_sd (rc_sdc c) (rs_root_sd s)"
  have sd: "length sd = 0x102c" using s root_sd_length by (simp add: world_def sd_def)
  have "run_ok c (on_record 5 (\<lambda>c s env m mk. add_attr_sd env sd m mk)) (world up R c F W)
      (world up R c F (at_rec up 5 w (V((AT_SECURITY_DESCRIPTOR, []) \<mapsto> K_other)) (root_sd_clusters c) W))"
  proof (rule attr_step [OF assms(1,4)])
    fix x :: "'d root_st" and m and env :: "'d mkenv"
    assume e: "may_add up R env 5 m u V AT_SECURITY_DESCRIPTOR []" "me_cs env = csize c"
      "rich R (me_nr env) (root_sd_clusters c + (p_free W - root_sd_clusters c)) (rs_mk x)"
    show "adds_on up R (me_nr env) 5 (rs_mk x) (p_free W - root_sd_clusters c) w (V((AT_SECURITY_DESCRIPTOR, []) \<mapsto> K_other))
        (add_attr_sd env sd m (rs_mk x))"
      by (rule sd_large [OF e(1) _ _ assms(2,3)]) (use e(3) sd in \<open>simp_all add: root_sd_clusters_def e(2)\<close>)
  qed
  moreover have "world up R c F W (s\<lparr>rs_root_sd := sd\<rparr>)" using s sd by (auto simp: world_def fmt_of_def split: option.splits)
  ultimately show "\<exists>s'. add_root_sd c s = Ret (None, s') \<and>
      world up R c F (at_rec up 5 w (V((AT_SECURITY_DESCRIPTOR, []) \<mapsto> K_other)) (root_sd_clusters c) W) s'"
    by (auto simp: add_root_sd_def Let_def sd_def [symmetric] run_ok_def)
qed

section \<open>Names in a directory\<close>

lemma insert_resident_count:
  "insert_resident_attr_in_mft_record ops mem un nl type ic fl rf val (m\<lparr>m_link_count := n\<rparr>) =
    (case insert_resident_attr_in_mft_record ops mem un nl type ic fl rf val m of
       Ret (e, m') \<Rightarrow> Ret (e, m'\<lparr>m_link_count := n\<rparr>) | Hang \<Rightarrow> Hang | Undef \<Rightarrow> Undef)"
  by (auto simp: insert_resident_attr_in_mft_record_def lookup_fresh make_room_for_attribute_def place_attr_def Let_def
      split: option.splits attr_search.splits)

lemma holds_count: "holds up i m u V \<Longrightarrow> (AT_FILE_NAME, []) \<in> dom V \<Longrightarrow> holds up i (m\<lparr>m_link_count := n\<rparr>) u V"
  by (simp add: holds_def fits_def vals_def)

lemma link_file_ok:
  assumes w: "willing up R env" and m: "holds up i m u V" and l: "absent up V (AT_FILE_NAME, [])" and f: "length (fn_file_name f) \<le> 8"
    and room: "u + 112 \<le> v" "v \<le> 1024" and e: "enter f idx = Ret (None, idx')"
  shows "\<exists>m'. link_file env enter f m idx = Ret (None, m', idx') \<and>
    holds up i m' v (V((AT_FILE_NAME, []) \<mapsto> K_name (fn_file_name_type f) (fn_file_name f)))"
proof -
  have "res_size [] (value_len (File_name f)) \<le> 112" using f by (simp add: res_size_def value_len_def file_name_size_def)
  with insert_resident_ok [OF w m, of AT_FILE_NAME "[]" "File_name f" "Some (File_name f)" v True] l room
  obtain m' where m': "insert_resident_attr_in_mft_record (me_ops env) (me_mem env) (me_str2ucs env None) 0 AT_FILE_NAME False {} True (Some (File_name f)) m =
      Ret (None, m')" "holds up i m' v (V((AT_FILE_NAME, []) \<mapsto> K_name (fn_file_name_type f) (fn_file_name f)))"
    by (auto simp: arg_of_def)
  have "(AT_FILE_NAME, []) \<notin> dom V" using l [rule_format, of "(AT_FILE_NAME, [])"] by auto
  then have "m_link_count m \<noteq> 0xffff" using m by (auto simp: holds_def)
  then show ?thesis
    using m' e holds_count [OF m'(2), of "Suc (m_link_count m)"] by (simp add: link_file_def insert_resident_count Let_def)
qed

lemma sys_name_length: "s \<in> sys_names \<Longrightarrow> length s \<le> 8 \<and> s \<noteq> []"
  by (auto simp: sys_names_def)

lemma prepared_name:
  assumes "prepared up R c" and "s \<in> sys_names"
  shows "check_name (rc_mb c) s = Inr (ascii s)"
  using assms sys_name_length [OF assms(2)] by (auto simp: prepared_def check_name_def ascii_def)

lemma enter_name:
  assumes c: "collates up collate" and h: "dir_lists up N l h" and f: "fn_file_name f = ascii s" "fn_file_name_type f \<noteq> FILE_NAME_POSIX"
    and s: "s \<in> sys_names" "s \<notin> N" "N \<subseteq> sys_names" "inj_on (\<lambda>s. map up (ascii s)) sys_names" and room: "l + 104 \<le> 4072"
  shows "\<exists>h'. insert_file_link_in_dir_index collate ref f h = (None, h') \<and> dir_lists up (insert s N) (l + 104) h'"
proof -
  have ho: "header_ok name_ok (name_rank up) h" and li: "(\<lambda>e. name_rank up (ie_key e)) ` live h = (\<lambda>s. map up (ascii s)) ` N"
    and il: "ih_index_length h \<le> l" "4072 \<le> ih_allocated_size h" using h by (simp_all add: dir_lists_def)
  have n: "length s \<le> 8" using sys_name_length [OF s(1)] by simp
  then have "(89 + 2 * length s) div 8 \<le> (89 + 2 * 8) div 8" by (intro div_le_mono) simp
  then have len: "length (fn_file_name f) < 256" "ie_size (file_name_size f) \<le> 104"
    using n f(1) by (simp_all add: ie_size_def file_name_size_def)
  have new: "map up (ascii s) \<notin> (\<lambda>e. name_rank up (ie_key e)) ` live h"
    unfolding li using s by (auto dest: inj_onD)
  obtain eo h' where r: "insert_file_link_in_dir_index collate ref f h = (eo, h')" by fastforce
  note sp = dir_insert_spec [OF c ho f(2) len(1), of ref, unfolded r]
  have "eo = None"
  proof (cases eo)
    case (Some x)
    with sp new f(1) il len(2) room show ?thesis by (auto simp: image_iff)
  qed
  with sp obtain e where e: "header_ok name_ok (name_rank up) h'" "ie_key e = File_key f" "live h' = insert e (live h)" by auto
  have "ih_index_length h' \<le> l + 104 \<and> ih_allocated_size h' = ih_allocated_size h"
    using r \<open>eo = None\<close> il len(2) ho
    by (auto simp: insert_file_link_in_dir_index_def make_room_for_index_entry_in_index_block_def Let_def header_ok_def split: option.splits if_splits)
  moreover have "(\<lambda>e. name_rank up (ie_key e)) ` live h' = (\<lambda>s. map up (ascii s)) ` insert s N"
    using e li f(1) by (simp add: name_rank_def)
  ultimately show ?thesis using r \<open>eo = None\<close> e(1) il(2) by (simp add: dir_lists_def)
qed

definition link_plan :: "(ntfschar \<Rightarrow> ntfschar) \<Rightarrow> nat \<Rightarrow> nat \<Rightarrow> (attr_key \<rightharpoonup> kind) \<Rightarrow> string \<Rightarrow> string set \<Rightarrow> nat \<Rightarrow> plan \<Rightarrow> plan" where
  "link_plan up i w V s N l W =
     at_rec up i w (V((AT_FILE_NAME, []) \<mapsto> K_name FILE_NAME_WIN32_AND_DOS (ascii s))) 0 (W\<lparr>p_dir := Some (insert s N, l + 104)\<rparr>)"

lemma link_root_step:
  fixes c :: "'d root_cfg"
  assumes a: "new_attr up R c W i u V AT_FILE_NAME []" and d: "p_dir W = Some (N, l)" and s: "s \<in> sys_names" "s \<notin> N" "N \<subseteq> sys_names"
    and room: "l + 104 \<le> 4072" "u + 112 \<le> w" "w \<le> 1024"
  shows "run_ok c (link_root i ref al da fl s) (world up R c F W) (world up R c F (link_plan up i w V s N l W))"
  unfolding run_ok_def
proof (intro allI impI)
  fix x :: "'d root_st"
  assume x: "world up R c F W x"
  have p: "prepared up R c" "i < 27" "p_recs W i = (\<lambda>m. holds up i m u V)" "absent up V (AT_FILE_NAME, [])"
    using a by (simp_all add: new_attr_def at_step_def)
  have m: "holds up i (rs_recs x ! i) u V" using x p(2,3) by (auto simp: world_def)
  obtain h where h: "rs_index x = Some h" "dir_lists up N l h" using x d by (auto simp: world_def)
  define env where "env = rc_env c (rs_clock x)"
  have env: "willing up R env" "me_mem env" "collates up (nm_collate (me_ops env))"
    using prepared_env(1,5) [OF p(1)] by (simp_all add: env_def willing_def good_names_def)
  define t where "t = stdinfo_time env (rc_now c (rs_clock x)) (rs_recs x ! i)"
  define f where "f = link_name root_ref t (if al c x \<noteq> 0 \<and> non_resident_unnamed_data env (rs_recs x ! i) then al c x else up8_int (da c x)) (da c x) fl 0 0
      FILE_NAME_WIN32_AND_DOS (ascii s)"
  have f: "fn_file_name f = ascii s" "fn_file_name_type f = FILE_NAME_WIN32_AND_DOS" by (simp_all add: f_def link_name_def)
  have inj: "inj_on (\<lambda>s. map up (ascii s)) sys_names" using p(1) by (simp add: prepared_def)
  from enter_name [OF env(3) h(2) f(1) _ s inj room(1), of ref] f(2)
  obtain h' where h': "insert_file_link_in_dir_index (nm_collate (me_ops env)) ref f h = (None, h')" "dir_lists up (insert s N) (l + 104) h'" by auto
  have len: "length (fn_file_name f) \<le> 8" using sys_name_length [OF s(1)] f(1) by simp
  from link_file_ok [OF env(1) m p(4) len room(2,3), of "\<lambda>f h. Ret (insert_file_link_in_dir_index (nm_collate (me_ops env)) ref f h)" h h'] h'(1) f
  obtain m' where m': "link_file env (\<lambda>f h. Ret (insert_file_link_in_dir_index (nm_collate (me_ops env)) ref f h)) f (rs_recs x ! i) h = Ret (None, m', h')"
    "holds up i m' w (V((AT_FILE_NAME, []) \<mapsto> K_name FILE_NAME_WIN32_AND_DOS (ascii s)))" by auto
  have run: "link_root i ref al da fl s c x = Ret (None, (set_record i m' x)\<lparr>rs_index := Some h'\<rparr>)"
    using m'(1) env(2) prepared_name [OF p(1) s(1)]
    by (simp add: link_root_def h(1) create_hardlink_def env_def [symmetric] t_def [symmetric] f_def [symmetric])
  have "world up R c F (link_plan up i w V s N l W) ((set_record i m' x)\<lparr>rs_index := Some h'\<rparr>)"
    using x m'(2) h'(2) p(2) by (auto simp: world_def link_plan_def set_record_def fmt_of_def nth_list_update)
  with run show "\<exists>s'. link_root i ref al da fl s c x = Ret (None, s') \<and> world up R c F (link_plan up i w V s N l W) s'" by simp
qed

section \<open>Entries in an index root\<close>

lemma holds_root:
  assumes w: "good_names up ops" and m: "holds up i m u V" and k: "V (AT_INDEX_ROOT, ascii s) = Some (K_root r)"
  obtains j vo rf where "mkntfs_attr_lookup ops False m AT_INDEX_ROOT (uname_of s) False None fresh_ctx = Found j" "j < length (m_attrs m)"
    "attr_key (m_attrs m ! j) = (AT_INDEX_ROOT, ascii s)" "a_form (m_attrs m ! j) = Resident vo (16 + ih_index_length (ir_header r)) (Index_root r) rf"
proof -
  have f: "fits up m u" "vals m = V" using m by (simp_all add: holds_def)
  have "vals m (AT_INDEX_ROOT, name_of (uname_of s)) = Some (K_root r)" using k f(2) by simp
  from lookup_has [OF f(1) w uname_of(1) _ this] obtain j where
    j: "j < length (m_attrs m)" "attr_key (m_attrs m ! j) = (AT_INDEX_ROOT, ascii s)" "attr_kind (m_attrs m ! j) = K_root r"
      "mkntfs_attr_lookup ops False m AT_INDEX_ROOT (uname_of s) False None fresh_ctx = Found j"
    by (auto simp: attr_types)
  obtain vo vl rf where a: "a_form (m_attrs m ! j) = Resident vo vl (Index_root r) rf"
    using j(3) by (auto simp: attr_kind_def value_kind_def split: attr_form.splits attr_value.splits)
  have "attr_ok (m_attrs m ! j)" using f(1) j(1) by (simp add: fits_def record_ok_def)
  then have "vl = 16 + ih_index_length (ir_header r)" using a by (simp add: attr_ok_def value_len_def)
  with that j a show ?thesis by blast
qed

lemma keys_sorted_update:
  "j < length as \<Longrightarrow> attr_key b = attr_key (as ! j) \<Longrightarrow> keys_sorted up (as[j := b]) = keys_sorted up as"
  unfolding sorted_wrt_iff_nth_less by (auto simp: nth_list_update)

lemma vals_update:
  assumes "fits up m u" and "j < length (m_attrs m)" and "attr_key b = attr_key (m_attrs m ! j)"
  shows "vals (m\<lparr>m_attrs := (m_attrs m)[j := b]\<rparr>) = (vals m)(attr_key b \<mapsto> attr_kind b)"
proof -
  let ?f = "\<lambda>a. (attr_key a, attr_kind a)"
  have "map_of (map ?f (as[j := b])) = (map_of (map ?f as))(attr_key b \<mapsto> attr_kind b)"
    if "keys_sorted up as" "j < length as" "attr_key b = attr_key (as ! j)" for as j
    using that
  proof (induction as arbitrary: j)
    case (Cons a as)
    show ?case
    proof (cases j)
      case (Suc n)
      then have "key_less up (attr_key a) (attr_key b)" using Cons.prems by auto
      then have "attr_key a \<noteq> attr_key b" using key_less_irrefl by fastforce
      moreover have "map_of (map ?f (as[n := b])) = (map_of (map ?f as))(attr_key b \<mapsto> attr_kind b)"
        using Cons.prems Suc by (intro Cons.IH) auto
      ultimately show ?thesis using Suc by (simp add: fun_upd_twist [of "attr_key a" "attr_key b"] del: fun_upd_apply)
    qed (use Cons.prems in \<open>simp del: fun_upd_apply\<close>)
  qed simp
  from this [OF fits_find(3) [OF assms(1)] assms(2,3)] show ?thesis by (simp add: vals_def)
qed

lemma holds_grow:
  assumes m: "holds up i m u V" and j: "j < length (m_attrs m)" "attr_key (m_attrs m ! j) = (AT_INDEX_ROOT, ascii s)"
    and a: "a_form (m_attrs m ! j) = Resident vo vl (Index_root r) rf" and sz: "8 dvd sz" "u + sz \<le> w" "w \<le> 1024"
  shows "holds up i ((set_attr j (grow_root p e sz (m_attrs m ! j) vo vl r rf) m)\<lparr>m_bytes_in_use := m_bytes_in_use m + sz\<rparr>) w
    (V((AT_INDEX_ROOT, ascii s) \<mapsto> K_root (r\<lparr>ir_header := grow_index p e sz (ir_header r)\<rparr>)))"
proof -
  have f: "fits up m u" "vals m = V" "m_number m = i" and lc: "(AT_FILE_NAME, []) \<notin> dom V \<longrightarrow> m_link_count m \<le> 1" using m by (simp_all add: holds_def)
  then have ro: "record_ok m" "m_bytes_in_use m \<le> u" "m_bytes_allocated m = 1024" by (simp_all add: fits_def)
  define b where "b = grow_root p e sz (m_attrs m ! j) vo vl r rf"
  have ak: "attr_ok (m_attrs m ! j)" using ro(1) j(1) by (simp add: record_ok_def)
  have vl: "vl = 16 + ih_index_length (ir_header r)" using ak a by (simp add: attr_ok_def value_len_def)
  have b: "a_form b = Resident vo (vl + sz) (Index_root (r\<lparr>ir_header := grow_index p e sz (ir_header r)\<rparr>)) rf" "a_type b = a_type (m_attrs m ! j)"
    "a_instance b = a_instance (m_attrs m ! j)" "a_length b = a_length (m_attrs m ! j) + sz" "attr_key b = attr_key (m_attrs m ! j)"
    "a_flags b = a_flags (m_attrs m ! j)" "a_name b = a_name (m_attrs m ! j)" "a_name_offset b = a_name_offset (m_attrs m ! j)"
    by (simp_all add: b_def grow_root_def attr_key_def)
  have "attr_ok b" using ak a sz(1) by (simp add: attr_ok_def b value_len_def grow_index_def vl)
  from record_ok_grow [OF ro(1) j(1) this b(2,3,4)] ro sz
  have ok: "record_ok ((set_attr j b m)\<lparr>m_bytes_in_use := m_bytes_in_use m + sz\<rparr>)" by simp
  have "vals (m\<lparr>m_attrs := (m_attrs m)[j := b]\<rparr>) = V((AT_INDEX_ROOT, ascii s) \<mapsto> K_root (r\<lparr>ir_header := grow_index p e sz (ir_header r)\<rparr>))"
    using vals_update [OF f(1) j(1) b(5)] f(2) j(2) by (simp add: b(5) attr_kind_def b(1))
  then have v: "vals ((set_attr j b m)\<lparr>m_bytes_in_use := m_bytes_in_use m + sz\<rparr>) =
      V((AT_INDEX_ROOT, ascii s) \<mapsto> K_root (r\<lparr>ir_header := grow_index p e sz (ir_header r)\<rparr>))" by (simp add: vals_def set_attr_def)
  have "\<forall>x \<in> set ((m_attrs m)[j := b]). a_flags x = {}"
    using f(1) j(1) b(6) by (auto simp: fits_def dest!: set_update_subset_insert [THEN subsetD])
  moreover have "keys_sorted up ((m_attrs m)[j := b])" using keys_sorted_update [OF j(1) b(5)] fits_find(3) [OF f(1)] by simp
  ultimately have "fits up ((set_attr j b m)\<lparr>m_bytes_in_use := m_bytes_in_use m + sz\<rparr>) w"
    using f(1) ok sz ro by (simp add: fits_def set_attr_def)
  then show ?thesis using v f(3) lc by (simp add: holds_def b_def set_attr_def attr_types)
qed

text \<open>A view in an index root: its rule and the keys it has.\<close>

definition has_view :: "(attr_key \<rightharpoonup> kind) \<Rightarrow> string \<Rightarrow> collation \<Rightarrow> byte list set \<Rightarrow> bool" where
  "has_view V s rule K \<longleftrightarrow> (\<exists>r. V (AT_INDEX_ROOT, ascii s) = Some (K_root r) \<and> ir_collation_rule r = rule \<and> view_root_ok r \<and>
     ie_key ` live (ir_header r) = View_key ` K)"

lemma view_insert_ok:
  assumes w: "willing up R env" and m: "holds up i m u V" and v: "has_view V s rule K" and s: "s \<noteq> []" and k: "4 dvd length key" "\<forall>x \<in> K. key_words rule x \<noteq> key_words rule key"
    and sz: "8 dvd sz" "0 < sz" "u + sz \<le> w" "w \<le> 1024"
  shows "\<exists>m' V'. insert_index_entry_in_res_dir_index env 1024 (view_entry sz key data) sz (ascii s) AT_UNUSED m = Ret (None, m') \<and>
    holds up i m' w V' \<and> has_view V' s rule (insert key K) \<and> dom V' = dom V \<and> (\<forall>x. x \<noteq> (AT_INDEX_ROOT, ascii s) \<longrightarrow> V' x = V x)"
proof -
  from v obtain r where r: "V (AT_INDEX_ROOT, ascii s) = Some (K_root r)" "ir_collation_rule r = rule" "view_root_ok r"
    "ie_key ` live (ir_header r) = View_key ` K" by (auto simp: has_view_def)
  have e: "good_names up (me_ops env)" "me_mem env" using w by (simp_all add: willing_def)
  from holds_root [OF e(1) m r(1)] obtain j vo rf where j: "mkntfs_attr_lookup (me_ops env) False m AT_INDEX_ROOT (uname_of s) False None fresh_ctx = Found j"
    "j < length (m_attrs m)" "attr_key (m_attrs m ! j) = (AT_INDEX_ROOT, ascii s)"
    "a_form (m_attrs m ! j) = Resident vo (16 + ih_index_length (ir_header r)) (Index_root r) rf" by blast
  define E where "E = view_entry sz key data"
  have E: "view_ok (ir_collation_rule r) (ie_key E)" "\<not> ie_end E" "ie_length E = sz" "ie_key E = View_key key"
    using k(1) by (simp_all add: E_def view_entry_def view_ok_def)
  have al: "m_bytes_allocated m = 1024" using m holds_sizes by blast
  have "attr_ok (m_attrs m ! j)" "a_length (m_attrs m ! j) \<le> m_bytes_in_use m" "m_bytes_in_use m \<le> u"
    using m j(2) attr_in_use [of m j] by (simp_all add: holds_def fits_def record_ok_def)
  then have "ih_index_length (ir_header r) \<le> 1024" using j(4) sz by (simp add: attr_ok_def)
  then have sm: "ih_allocated_size (ir_header r) + sz < 2 ^ 31" using r(3) sz by (simp add: view_root_ok_def)
  note g = grow_index_ok [OF r(3) E(1-3) sz(2) sm, of "nm_memcmp (me_ops env)"]
  let ?p = "index_place (view_test (nm_memcmp (me_ops env)) (ir_collation_rule r) (ie_key E)) (ih_index_length (ir_header r)) 0 0 (ih_entries (ir_header r))"
  have "?p \<noteq> None"
  proof
    assume "?p = None"
    with g obtain x where "x \<in> live (ir_header r)" "view_rank rule (ie_key x) = view_rank rule (ie_key E)" by (auto simp: r(2))
    moreover from this(1) have "ie_key x \<in> View_key ` K" unfolding r(4) [symmetric] by (rule imageI)
    ultimately show False using k(2) E(4) by (auto simp: view_rank_def)
  qed
  then obtain p where p: "?p = Some p" by blast
  have un: "uname_of s = Named (ascii s)" using s by (simp add: uname_of_def)
  let ?m = "(set_attr j (grow_root p E sz (m_attrs m ! j) vo (16 + ih_index_length (ir_header r)) r rf) m)\<lparr>m_bytes_in_use := m_bytes_in_use m + sz\<rparr>"
  let ?r = "r\<lparr>ir_header := grow_index p E sz (ir_header r)\<rparr>"
  have "insert_index_entry_in_res_dir_index env 1024 E sz (ascii s) AT_UNUSED m = Ret (None, ?m)"
    using j e al p by (simp add: insert_index_entry_in_res_dir_index_def Let_def un attr_types)
  moreover have "holds up i ?m w (V((AT_INDEX_ROOT, ascii s) \<mapsto> K_root ?r))" by (rule holds_grow [OF m j(2-4) sz(1,3,4)])
  moreover have "has_view (V((AT_INDEX_ROOT, ascii s) \<mapsto> K_root ?r)) s rule (insert key K)"
    using g p r(2,4) E(4) by (auto simp: has_view_def)
  ultimately show ?thesis
    unfolding E_def by (intro exI [of _ ?m] exI [of _ "V((AT_INDEX_ROOT, ascii s) \<mapsto> K_root ?r)"]) (use r(1) in \<open>auto simp: E_def\<close>)
qed

lemma new_root_view:
  "rule \<in> {COLLATION_NTOFS_ULONG, COLLATION_NTOFS_ULONGS, COLLATION_NTOFS_SECURITY_HASH} \<Longrightarrow> V (AT_INDEX_ROOT, ascii s) = Some (K_root (new_root cs t rule bs)) \<Longrightarrow>
    has_view V s rule {}"
  by (auto simp: has_view_def new_root_def view_root_ok_def header_ok_def entries_ok_def live_def end_entry_def)

end
