(* ===== verification/Root_Views.thy ===== *)
theory Root_Views
  imports Root_Steps
begin

text \<open>The indexes of \<^verbatim>\<open>$Secure\<close>, \<^verbatim>\<open>$Quota\<close>, \<^verbatim>\<open>$ObjId\<close> and \<^verbatim>\<open>$Extend\<close> take their entries.\<close>

section \<open>A record that is finished\<close>

text \<open>Nothing more is asked of it.\<close>

definition finish :: "nat \<Rightarrow> plan \<Rightarrow> plan" where
  "finish i W = W\<lparr>p_recs := (p_recs W)(i := (\<lambda>_. True))\<rparr>"

lemma finish_simps [simp]:
  "p_recs (finish i W) j = (if j = i then (\<lambda>_. True) else p_recs W j)" "p_free (finish i W) = p_free W" "p_dir (finish i W) = p_dir W"
  by (simp_all add: finish_def)

lemma world_finish: "world up R c F W s \<Longrightarrow> world up R c F (finish i W) s"
  by (auto simp: world_def)

lemma finish_step: "run_ok c f P (world up R c F W) \<Longrightarrow> run_ok c f P (world up R c F (finish i W))"
  by (erule run_ok_weaken) (auto intro: world_finish)

lemma on_view_step:
  fixes c :: "'d root_cfg"
  assumes a: "at_step up R c W i u V"
    and f: "\<And>(x :: 'd root_st) m env. willing up R env \<Longrightarrow> holds up i m u V \<Longrightarrow> \<exists>m'. f c x env m = Ret (None, m')"
  shows "run_ok c (on_view i f) (world up R c F W) (world up R c F (finish i W))"
  unfolding run_ok_def
proof (intro allI impI)
  fix s :: "'d root_st"
  assume s: "world up R c F W s"
  have p: "prepared up R c" "i < 27" "p_recs W i = (\<lambda>m. holds up i m u V)" using a by (simp_all add: at_step_def)
  have "holds up i (rs_recs s ! i) u V" using s p(2,3) by (auto simp: world_def)
  with f prepared_env(1) [OF p(1)] obtain m' where "f c s (rc_env c (rs_clock s)) (rs_recs s ! i) = Ret (None, m')" by blast
  moreover have "world up R c F (finish i W) (set_record i m' s)"
    using s p(2) by (auto simp: world_def set_record_def fmt_of_def nth_list_update split: option.splits)
  ultimately show "\<exists>s'. on_view i f c s = Ret (None, s') \<and> world up R c F (finish i W) s'" by (simp add: on_view_def)
qed

section \<open>The security indexes\<close>

lemma sds_stream_length: "length (sds_stream c) = 0x400fc"
proof -
  define buf where "buf = replicate (0x40000 + 0xfc) (0 :: byte)"
  have l: "length buf = 0x400fc" by (simp only: buf_def length_replicate)
  then have "length (init_secure_sds c buf) = 0x400fc" by (subst init_secure_sds_bytes) simp_all
  then show ?thesis unfolding sds_stream_def Let_def buf_def [symmetric] by simp
qed

lemma sds_stream_headers:
  "sds_header_at (sds_stream c) 0 = \<lparr>sds_hash = 0xF80312F0, sds_security_id = 0x0100, sds_offset = 0, sds_length = 0x7C\<rparr>"
  "sds_header_at (sds_stream c) 0x80 = \<lparr>sds_hash = 0xB32451, sds_security_id = 0x0101, sds_offset = 0x80, sds_length = 0x7C\<rparr>"
proof -
  define buf where "buf = replicate (0x40000 + 0xfc) (0 :: byte)"
  have l: "length buf = 0x400fc" by (simp only: buf_def length_replicate)
  define b where "b = init_secure_sds c buf"
  have lb: "length b = 0x400fc" using l unfolding b_def by (subst init_secure_sds_bytes) simp_all
  have st: "sds_stream c = put_bytes b 0x40000 (take 0xfc b)" by (simp only: sds_stream_def Let_def buf_def [symmetric] b_def)
  have g: "get_le (put_bytes b 0x40000 (take 0xfc b)) p n = get_le b p n" if "p + n \<le> 0x40000" for p n
    using that lb by (simp add: get_le_def get_put_other)
  have same: "sds_header_at (sds_stream c) p = sds_header_at b p" if "p \<le> 0x80" for p
    unfolding sds_header_at_def st using that by (simp add: g)
  have "0xfc \<le> length buf" using l by simp
  note e = sds_entries [OF this, of c, folded b_def, unfolded sds_entry_def Let_def, THEN arg_cong [of _ _ fst]]
  show "sds_header_at (sds_stream c) 0 = \<lparr>sds_hash = 0xF80312F0, sds_security_id = 0x0100, sds_offset = 0, sds_length = 0x7C\<rparr>"
    "sds_header_at (sds_stream c) 0x80 = \<lparr>sds_hash = 0xB32451, sds_security_id = 0x0101, sds_offset = 0x80, sds_length = 0x7C\<rparr>"
    using e same [of 0] same [of "0x80"] by simp_all
qed

definition sds_key :: "sds_header \<Rightarrow> byte list" where
  "sds_key s = le_bytes 4 (sds_hash s) @ le_bytes 4 (sds_security_id s)"

lemma has_view_other:
  "has_view V s rule K \<Longrightarrow> (\<forall>x. x \<noteq> (AT_INDEX_ROOT, ascii t) \<longrightarrow> V' x = V x) \<Longrightarrow> ascii s \<noteq> ascii t \<Longrightarrow> has_view V' s rule K"
  unfolding has_view_def by simp

lemma secure_entries_ok:
  assumes w: "willing up R env" and m: "holds up i m u V" and v: "has_view V ''$SDH'' COLLATION_NTOFS_SECURITY_HASH K" "has_view V ''$SII'' COLLATION_NTOFS_ULONG L"
    and n: "ascii ''$SDH'' \<noteq> ascii ''$SII''" and u: "u + 88 \<le> x" "x \<le> 1024"
    and k: "\<forall>x \<in> K. key_words COLLATION_NTOFS_SECURITY_HASH x \<noteq> key_words COLLATION_NTOFS_SECURITY_HASH (sds_key s)"
      "\<forall>x \<in> L. key_words COLLATION_NTOFS_ULONG x \<noteq> key_words COLLATION_NTOFS_ULONG (le_bytes 4 (sds_security_id s))"
  shows "\<exists>m' V'. then_insert (insert_index_entry_in_res_dir_index env 1024 (sdh_entry s) 0x30 (ascii ''$SDH'') AT_UNUSED m)
      (insert_index_entry_in_res_dir_index env 1024 (sii_entry s) 0x28 (ascii ''$SII'') AT_UNUSED) = Ret (None, m') \<and>
    holds up i m' x V' \<and> has_view V' ''$SDH'' COLLATION_NTOFS_SECURITY_HASH (insert (sds_key s) K) \<and>
    has_view V' ''$SII'' COLLATION_NTOFS_ULONG (insert (le_bytes 4 (sds_security_id s)) L)"
proof -
  have "4 dvd length (sds_key s)" by (simp add: sds_key_def)
  from view_insert_ok [OF w m v(1) _ this k(1), of "0x30" "u + 48" "sds_header_bytes s @ le_bytes 4 0x00490049"] u
  obtain m1 V1 where 1: "insert_index_entry_in_res_dir_index env 1024 (sdh_entry s) 0x30 (ascii ''$SDH'') AT_UNUSED m = Ret (None, m1)"
    "holds up i m1 (u + 48) V1" "has_view V1 ''$SDH'' COLLATION_NTOFS_SECURITY_HASH (insert (sds_key s) K)"
    "\<forall>x. x \<noteq> (AT_INDEX_ROOT, ascii ''$SDH'') \<longrightarrow> V1 x = V x"
    by (auto simp: sdh_entry_def sds_key_def)
  have v2: "has_view V1 ''$SII'' COLLATION_NTOFS_ULONG L" by (rule has_view_other [OF v(2) 1(4)]) (use n in simp)
  have "4 dvd length (le_bytes 4 (sds_security_id s))" by simp
  from view_insert_ok [OF w 1(2) v2 _ this k(2), of "0x28" x "sds_header_bytes s"] u
  obtain m2 V2 where 2: "insert_index_entry_in_res_dir_index env 1024 (sii_entry s) 0x28 (ascii ''$SII'') AT_UNUSED m1 = Ret (None, m2)"
    "holds up i m2 x V2" "has_view V2 ''$SII'' COLLATION_NTOFS_ULONG (insert (le_bytes 4 (sds_security_id s)) L)"
    "\<forall>x. x \<noteq> (AT_INDEX_ROOT, ascii ''$SII'') \<longrightarrow> V2 x = V1 x"
    by (auto simp: sii_entry_def)
  have "has_view V2 ''$SDH'' COLLATION_NTOFS_SECURITY_HASH (insert (sds_key s) K)" by (rule has_view_other [OF 1(3) 2(4) n])
  with 1 2 show ?thesis by (auto simp: then_insert_def)
qed

lemma secure_step:
  fixes c :: "'d root_cfg"
  assumes a: "at_step up R c W 9 u V" and v: "has_view V ''$SDH'' COLLATION_NTOFS_SECURITY_HASH {}" "has_view V ''$SII'' COLLATION_NTOFS_ULONG {}"
    and u: "u + 176 \<le> 1024"
  shows "run_ok c (on_view 9 (\<lambda>c s env m. initialize_secure env (me_mem env) (vp_mft_record_size (rc_vol c)) (sds_header_at (sds_stream (rc_sdc c))) 0xfc m))
    (world up R c F W) (world up R c F (finish 9 W))"
proof (rule on_view_step [OF a])
  fix x :: "'d root_st" and m and env :: "'d mkenv"
  assume w: "willing up R env" and m: "holds up 9 m u V"
  have rs: "vp_mft_record_size (rc_vol c) = 1024" using a by (simp add: at_step_def prepared_def)
  have n: "ascii ''$SDH'' \<noteq> ascii ''$SII''" by (simp add: ascii_def)
  let ?at = "sds_header_at (sds_stream (rc_sdc c))"
  have len: "sds_length (?at 0) = 0x7c" "sds_length (?at 0x80) = 0x7c" by (simp_all add: sds_stream_headers)
  from secure_entries_ok [OF w m v n, of "u + 88" "?at 0"] u
  obtain m1 V1 where 1: "then_insert (insert_index_entry_in_res_dir_index env 1024 (sdh_entry (?at 0)) 0x30 (ascii ''$SDH'') AT_UNUSED m)
      (insert_index_entry_in_res_dir_index env 1024 (sii_entry (?at 0)) 0x28 (ascii ''$SII'') AT_UNUSED) = Ret (None, m1)"
    "holds up 9 m1 (u + 88) V1" "has_view V1 ''$SDH'' COLLATION_NTOFS_SECURITY_HASH {sds_key (?at 0)}"
    "has_view V1 ''$SII'' COLLATION_NTOFS_ULONG {le_bytes 4 (sds_security_id (?at 0))}" by auto
  have k: "key_words COLLATION_NTOFS_SECURITY_HASH (sds_key (?at 0)) \<noteq> key_words COLLATION_NTOFS_SECURITY_HASH (sds_key (?at 0x80))"
    "key_words COLLATION_NTOFS_ULONG (le_bytes 4 (sds_security_id (?at 0))) \<noteq> key_words COLLATION_NTOFS_ULONG (le_bytes 4 (sds_security_id (?at 0x80)))"
    by (simp_all add: key_words_def sds_key_def sds_stream_headers get_le_def get_bytes_def)
  from secure_entries_ok [OF w 1(2-4) n, of 1024 "?at 0x80"] u k
  obtain m2 where 2: "then_insert (insert_index_entry_in_res_dir_index env 1024 (sdh_entry (?at 0x80)) 0x30 (ascii ''$SDH'') AT_UNUSED m1)
      (insert_index_entry_in_res_dir_index env 1024 (sii_entry (?at 0x80)) 0x28 (ascii ''$SII'') AT_UNUSED) = Ret (None, m2)" by auto
  have last: "secure_from env 1024 ?at 0xfc 0x100 m2 = Ret (None, m2)" by (subst secure_from.simps) simp
  have "secure_from env 1024 ?at 0xfc 0x80 m1 = Ret (None, m2)"
    by (subst secure_from.simps) (simp add: len 2 last then_insert_def [of "Ret (None, m2)"])
  then have "secure_from env 1024 ?at 0xfc 0 m = Ret (None, m2)"
    by (subst secure_from.simps) (simp add: len 1(1) then_insert_def [of "Ret (None, m1)"])
  then show "\<exists>m'. initialize_secure env (me_mem env) (vp_mft_record_size (rc_vol c)) ?at 0xfc m = Ret (None, m')"
    using w by (simp add: initialize_secure_def rs willing_def)
qed

section \<open>The quota and object id indexes\<close>

text \<open>An entry for an index that has none, whatever its rule.\<close>

lemma first_entry_ok:
  assumes w: "willing up R env" and m: "holds up i m u V" and r: "V (AT_INDEX_ROOT, ascii s) = Some (K_root (new_root cs t rule bs))" and s: "s \<noteq> []"
    and sz: "8 dvd sz" "u + sz \<le> 1024"
  shows "\<exists>m'. insert_index_entry_in_res_dir_index env 1024 e sz (ascii s) AT_UNUSED m = Ret (None, m')"
proof -
  have e: "good_names up (me_ops env)" "me_mem env" using w by (simp_all add: willing_def)
  from holds_root [OF e(1) m r] obtain j vo rf where "mkntfs_attr_lookup (me_ops env) False m AT_INDEX_ROOT (uname_of s) False None fresh_ctx = Found j"
    "a_form (m_attrs m ! j) = Resident vo (16 + ih_index_length (ir_header (new_root cs t rule bs))) (Index_root (new_root cs t rule bs)) rf" by blast
  moreover have "uname_of s = Named (ascii s)" "AT_UNUSED \<noteq> AT_FILE_NAME" using s by (simp_all add: uname_of_def attr_types)
  moreover have "\<not> m_bytes_allocated m + sz < 1024" using m holds_sizes [of up i m u V] by simp
  moreover define r where "r = new_root cs t rule bs"
  have "index_place f (ih_index_length (ir_header r)) 0 0 (ih_entries (ir_header r)) = Some 0" for f
    by (simp add: r_def new_root_def end_entry_def)
  ultimately show ?thesis
    using e(2) by (simp add: insert_index_entry_in_res_dir_index_def Let_def r_def [symmetric] add.commute [of sz])
qed

lemma quota_step:
  fixes c :: "'d root_cfg"
  assumes a: "at_step up R c W 24 u V" and v: "V (AT_INDEX_ROOT, ascii ''$Q'') = Some (K_root (new_root cs AT_UNUSED COLLATION_NTOFS_ULONG 4096))"
      "V (AT_INDEX_ROOT, ascii ''$O'') = Some (K_root (new_root cs AT_UNUSED COLLATION_NTOFS_SID 4096))"
    and u: "u + 200 \<le> 1024" and q: "QUOTA_FIRST_USER_ID (rc_quota c) mod 2 ^ 32 \<noteq> 1"
  shows "run_ok c (on_view 24 (\<lambda>c s env m. initialize_quota env (rc_quota c) (rc_sdc c) (vp_mft_record_size (rc_vol c)) (rc_now c (rs_clock s)) m))
    (world up R c F W) (world up R c F (finish 24 W))"
proof (rule on_view_step [OF a])
  fix x :: "'d root_st" and m and env :: "'d mkenv"
  assume w: "willing up R env" and m: "holds up 24 m u V"
  have rs: "vp_mft_record_size (rc_vol c) = 1024" using a by (simp add: at_step_def prepared_def)
  have n: "ascii ''$Q'' \<noteq> ascii ''$O''" by (simp add: ascii_def)
  let ?id = "le_bytes 4 (QUOTA_FIRST_USER_ID (rc_quota c))" and ?qc = "quota_control (rc_quota c) (rc_now c (rs_clock x))"
  have h: "has_view V ''$Q'' COLLATION_NTOFS_ULONG {}" using new_root_view [of COLLATION_NTOFS_ULONG V "''$Q''" cs AT_UNUSED 4096] v(1) by simp
  from view_insert_ok [OF w m h, of "le_bytes 4 1" "0x48" "u + 72" ?qc] u
  obtain m1 V1 where 1: "insert_index_entry_in_res_dir_index env 1024 (view_entry 0x48 (le_bytes 4 1) ?qc) 0x48 (ascii ''$Q'') AT_UNUSED m = Ret (None, m1)"
    "holds up 24 m1 (u + 72) V1" "has_view V1 ''$Q'' COLLATION_NTOFS_ULONG {le_bytes 4 1}" "\<forall>x. x \<noteq> (AT_INDEX_ROOT, ascii ''$Q'') \<longrightarrow> V1 x = V x" by auto
  have k: "key_words COLLATION_NTOFS_ULONG (le_bytes 4 1) \<noteq> key_words COLLATION_NTOFS_ULONG ?id"
    using q le_val_le_bytes [of 4 "QUOTA_FIRST_USER_ID (rc_quota c)"] by (simp add: key_words_def get_le_def get_bytes_def)
  from view_insert_ok [OF w 1(2,3), of ?id "0x58" "u + 160" "?qc @ sid_bytes (admins_sid (rc_sdc c) 1)"] u k
  obtain m2 V2 where 2: "insert_index_entry_in_res_dir_index env 1024 (view_entry 0x58 ?id (?qc @ sid_bytes (admins_sid (rc_sdc c) 1))) 0x58 (ascii ''$Q'') AT_UNUSED m1 =
      Ret (None, m2)" "holds up 24 m2 (u + 160) V2" "\<forall>x. x \<noteq> (AT_INDEX_ROOT, ascii ''$Q'') \<longrightarrow> V2 x = V1 x" by auto
  have "V2 (AT_INDEX_ROOT, ascii ''$O'') = Some (K_root (new_root cs AT_UNUSED COLLATION_NTOFS_SID 4096))" using v(2) 1(4) 2(3) n by simp
  from first_entry_ok [OF w 2(2) this, of "0x28" "view_entry 0x28 (sid_bytes (admins_sid (rc_sdc c) 1)) (?id @ le_bytes 4 32)"] u
  obtain m3 where "insert_index_entry_in_res_dir_index env 1024 (view_entry 0x28 (sid_bytes (admins_sid (rc_sdc c) 1)) (?id @ le_bytes 4 32)) 0x28 (ascii ''$O'') AT_UNUSED m2 =
      Ret (None, m3)" by auto
  with 1(1) 2(1) show "\<exists>m'. initialize_quota env (rc_quota c) (rc_sdc c) (vp_mft_record_size (rc_vol c)) (rc_now c (rs_clock x)) m = Ret (None, m')"
    by (simp add: initialize_quota_def rs then_insert_def)
qed

lemma object_index_step:
  fixes c :: "'d root_cfg"
  assumes a: "at_step up R c W 25 u V" and v: "V (AT_INDEX_ROOT, ascii ''$O'') = Some (K_root (new_root cs t rule 4096))"
    and u: "u + 88 \<le> 1024" and q: "length (rc_oi c ref) = 56"
  shows "run_ok c (on_view 25 (\<lambda>c s env m. index_obj_id_insert env (vp_mft_record_size (rc_vol c)) (rc_oi c) guid ref m))
    (world up R c F W) (world up R c F (finish 25 W))"
proof (rule on_view_step [OF a])
  fix x :: "'d root_st" and m and env :: "'d mkenv"
  assume w: "willing up R env" and m: "holds up 25 m u V"
  have rs: "vp_mft_record_size (rc_vol c) = 1024" using a by (simp add: at_step_def prepared_def)
  from first_entry_ok [OF w m v, of "0x58"] u q w
  show "\<exists>m'. index_obj_id_insert env (vp_mft_record_size (rc_vol c)) (rc_oi c) guid ref m = Ret (None, m')"
    by (simp add: index_obj_id_insert_def rs Let_def willing_def)
qed

section \<open>The directory \<^verbatim>\<open>$Extend\<close>\<close>

text \<open>A record with a directory in its index root.\<close>

definition ext_dir :: "(ntfschar \<Rightarrow> ntfschar) \<Rightarrow> string set \<Rightarrow> nat \<Rightarrow> mft_record \<Rightarrow> bool" where
  "ext_dir up E u m \<longleftrightarrow> (\<exists>V r. holds up 11 m u V \<and> V (AT_INDEX_ROOT, ascii ''$I30'') = Some (K_root r) \<and>
     header_ok name_ok (name_rank up) (ir_header r) \<and> ih_allocated_size (ir_header r) = ih_index_length (ir_header r) \<and>
     (\<lambda>e. name_rank up (ie_key e)) ` live (ir_header r) = (\<lambda>s. map up (ascii s)) ` E)"

lemma new_ext_dir:
  assumes "holds up 11 m u V" and "V (AT_INDEX_ROOT, ascii ''$I30'') = Some (K_root (new_root cs t rule bs))"
  shows "ext_dir up {} u m"
  using assms by (auto simp: ext_dir_def new_root_def header_ok_def entries_ok_def live_def end_entry_def)

lemma dir_grow:
  assumes c: "collates up collate" and ho: "header_ok name_ok (name_rank up) h" and tight: "ih_allocated_size h = ih_index_length h"
    and f: "fn_file_name_type f \<noteq> FILE_NAME_POSIX" and new: "map up (fn_file_name f) \<notin> (\<lambda>e. name_rank up (ie_key e)) ` live h"
    and sz: "sz = (file_name_size f + 7) div 8 * 8 + 0x10" "ih_allocated_size h + sz < 2 ^ 31"
  shows "\<exists>p. index_place (file_test collate f) (ih_index_length h) 0 0 (ih_entries h) = Some p \<and>
    header_ok name_ok (name_rank up) (grow_index p (dir_entry ref f) sz h) \<and> live (grow_index p (dir_entry ref f) sz h) = insert (dir_entry ref f) (live h)"
proof -
  define body where "body = butlast (ih_entries h)"
  have ki: "keyed_index name_ok (name_rank up) (dir_test collate)" by (rule dir_index [OF c])
  have fk: "name_ok (File_key f)" "name_rank up (File_key f) = map up (fn_file_name f)" using f by (simp_all add: name_ok_def name_rank_def)
  have eo: "entries_ok name_ok (name_rank up) body (ih_entries h)" using ho by (simp add: header_ok_def body_def)
  obtain t where t: "ih_entries h = body @ [t]" using eo by (auto simp: entries_ok_def)
  have len: "0 + sum_list (map ie_length body) < ih_index_length h" using ho t by (simp add: header_ok_def)
  have new': "\<forall>x \<in> set body. name_rank up (ie_key x) \<noteq> name_rank up (File_key f)" using new unfolding live_def body_def fk(2) by (metis (no_types, lifting) imageI)
  define p where "p = length (takeWhile (before_key (name_rank up) (File_key f)) body)"
  have pl: "index_place (file_test collate f) (ih_index_length h) 0 0 (ih_entries h) = Some p"
    using keyed_index.place_of [OF ki fk(1) eo len, of 0] new' by (simp add: dir_test_def p_def)
  have eo': "entries_ok name_ok (name_rank up) (insert_entry p (dir_entry ref f) body) (insert_entry p (dir_entry ref f) (ih_entries h))"
    using keyed_index.insert_sorted [OF ki fk(1) eo, of "dir_entry ref f" p] new' by (simp add: p_def dir_entry_def)
  have "ie_length (dir_entry ref f) = sz" by (simp add: dir_entry_def sz(1))
  then have "header_ok name_ok (name_rank up) (grow_index p (dir_entry ref f) sz h)"
    using ho eo' entries_ok_butlast [OF eo'] sz tight by (auto simp: header_ok_def grow_index_def set_insert_entry sum_insert_entry)
  moreover have "live (grow_index p (dir_entry ref f) sz h) = insert (dir_entry ref f) (live h)"
    using entries_ok_butlast [OF eo'] by (simp add: live_def grow_index_def set_insert_entry body_def)
  ultimately show ?thesis using pl by blast
qed

lemma ext_entry_ok:
  assumes w: "willing up R env" and m: "ext_dir up E u m" and f: "fn_file_name f = ascii s" "fn_file_name_type f \<noteq> FILE_NAME_POSIX"
    and s: "s \<in> sys_names" "s \<notin> E" "E \<subseteq> sys_names" "inj_on (\<lambda>s. map up (ascii s)) sys_names" and room: "u + 104 \<le> v" "v \<le> 1024"
  shows "\<exists>m'. insert_index_entry_in_res_dir_index env 1024 (dir_entry ref f) ((file_name_size f + 7) div 8 * 8 + 0x10) (ascii ''$I30'') AT_FILE_NAME m =
      Ret (None, m') \<and> ext_dir up (insert s E) v m'"
proof -
  define sz where "sz = (file_name_size f + 7) div 8 * 8 + 0x10"
  have "length s \<le> 8" using sys_name_length [OF s(1)] by simp
  then have "(73 + 2 * length s) div 8 \<le> (73 + 2 * 8) div 8" by (intro div_le_mono) simp
  then have sz: "sz \<le> 104" "0 < sz" "8 dvd sz" using f(1) by (simp_all add: sz_def file_name_size_def)
  from m obtain V r where h: "holds up 11 m u V" "V (AT_INDEX_ROOT, ascii ''$I30'') = Some (K_root r)"
    and ho: "header_ok name_ok (name_rank up) (ir_header r)" and li: "(\<lambda>e. name_rank up (ie_key e)) ` live (ir_header r) = (\<lambda>s. map up (ascii s)) ` E"
    and tight: "ih_allocated_size (ir_header r) = ih_index_length (ir_header r)"
    by (auto simp: ext_dir_def)
  have e: "good_names up (me_ops env)" "me_mem env" using w by (simp_all add: willing_def)
  from holds_root [OF e(1) h] obtain j vo rf where j: "mkntfs_attr_lookup (me_ops env) False m AT_INDEX_ROOT (uname_of ''$I30'') False None fresh_ctx = Found j"
    "j < length (m_attrs m)" "attr_key (m_attrs m ! j) = (AT_INDEX_ROOT, ascii ''$I30'')"
    "a_form (m_attrs m ! j) = Resident vo (16 + ih_index_length (ir_header r)) (Index_root r) rf" by blast
  have al: "m_bytes_allocated m = 1024" using h(1) holds_sizes by blast
  have "attr_ok (m_attrs m ! j)" "a_length (m_attrs m ! j) \<le> m_bytes_in_use m" "m_bytes_in_use m \<le> u"
    using h(1) j(2) attr_in_use [of m j] by (simp_all add: holds_def fits_def record_ok_def)
  then have small: "ih_allocated_size (ir_header r) + sz < 2 ^ 31" using j(4) sz tight room by (simp add: attr_ok_def)
  have "collates up (nm_collate (me_ops env))" using e(1) by (simp add: good_names_def)
  moreover have "map up (fn_file_name f) \<notin> (\<lambda>e. name_rank up (ie_key e)) ` live (ir_header r)" unfolding li f(1) using s by (auto dest: inj_onD)
  ultimately obtain p where pl: "index_place (file_test (nm_collate (me_ops env)) f) (ih_index_length (ir_header r)) 0 0 (ih_entries (ir_header r)) = Some p"
    and gr: "header_ok name_ok (name_rank up) (grow_index p (dir_entry ref f) sz (ir_header r))"
      "live (grow_index p (dir_entry ref f) sz (ir_header r)) = insert (dir_entry ref f) (live (ir_header r))"
    using dir_grow [OF _ ho tight f(2) _ sz_def small, of "nm_collate (me_ops env)" ref] by blast
  let ?r = "r\<lparr>ir_header := grow_index p (dir_entry ref f) sz (ir_header r)\<rparr>"
  let ?m = "(set_attr j (grow_root p (dir_entry ref f) sz (m_attrs m ! j) vo (16 + ih_index_length (ir_header r)) r rf) m)\<lparr>m_bytes_in_use := m_bytes_in_use m + sz\<rparr>"
  have run: "insert_index_entry_in_res_dir_index env 1024 (dir_entry ref f) sz (ascii ''$I30'') AT_FILE_NAME m = Ret (None, ?m)"
    using j e al pl by (simp add: insert_index_entry_in_res_dir_index_def Let_def uname_of_def dir_entry_def [of ref f])
  have hm: "holds up 11 ?m v (V((AT_INDEX_ROOT, ascii ''$I30'') \<mapsto> K_root ?r))" using room sz by (intro holds_grow [OF h(1) j(2-4)]) simp_all
  have "(\<lambda>e. name_rank up (ie_key e)) ` live (ir_header ?r) = (\<lambda>s. map up (ascii s)) ` insert s E"
    using li gr(2) f(1) by (simp add: dir_entry_def name_rank_def)
  then have "ext_dir up (insert s E) v ?m"
    unfolding ext_dir_def using hm tight gr(1)
    by (intro exI [of _ "V((AT_INDEX_ROOT, ascii ''$I30'') \<mapsto> K_root ?r)"] exI [of _ ?r]) (simp add: grow_index_def)
  with run show ?thesis unfolding sz_def by blast
qed

lemma link_extend_step:
  fixes c :: "'d root_cfg"
  assumes a: "new_attr up R c W i u V AT_FILE_NAME []" and d: "p_recs W 11 = ext_dir up E v" "i \<noteq> 11" and s: "s \<in> sys_names" "s \<notin> E" "E \<subseteq> sys_names"
    and room: "v + 104 \<le> x" "x \<le> 1024" "u + 112 \<le> w" "w \<le> 1024"
  shows "run_ok c (link_extend i ref fl s) (world up R c F W)
    (world up R c F (at_rec up i w (V((AT_FILE_NAME, []) \<mapsto> K_name FILE_NAME_WIN32_AND_DOS (ascii s))) 0 (W\<lparr>p_recs := (p_recs W)(11 := ext_dir up (insert s E) x)\<rparr>)))"
  unfolding run_ok_def
proof (intro allI impI)
  fix y :: "'d root_st"
  assume y: "world up R c F W y"
  have p: "prepared up R c" "i < 27" "p_recs W i = (\<lambda>m. holds up i m u V)" "absent up V (AT_FILE_NAME, [])" "vp_mft_record_size (rc_vol c) = 1024"
    using a by (simp_all add: new_attr_def at_step_def prepared_def)
  have "p_recs W i (rs_recs y ! i)" "p_recs W 11 (rs_recs y ! 11)" using y p(2) by (simp_all add: world_def)
  then have m: "holds up i (rs_recs y ! i) u V" "ext_dir up E v (rs_recs y ! 11)" unfolding p(3) d(1) by simp_all
  define env where "env = rc_env c (rs_clock y)"
  have env: "willing up R env" "me_mem env" using prepared_env(1,5) [OF p(1)] by (simp_all add: env_def)
  define f where "f = link_name extend_ref (stdinfo_time env (rc_now c (rs_clock y)) (rs_recs y ! i)) 0 0 fl 0 0 FILE_NAME_WIN32_AND_DOS (ascii s)"
  have f: "fn_file_name f = ascii s" "fn_file_name_type f = FILE_NAME_WIN32_AND_DOS" by (simp_all add: f_def link_name_def)
  have inj: "inj_on (\<lambda>s. map up (ascii s)) sys_names" using p(1) by (simp add: prepared_def)
  let ?enter = "\<lambda>f p. insert_index_entry_in_res_dir_index env 1024 (dir_entry ref f) ((file_name_size f + 7) div 8 * 8 + 0x10) (ascii ''$I30'') AT_FILE_NAME p"
  from ext_entry_ok [OF env(1) m(2) f(1) _ s inj room(1,2), of ref] f(2)
  obtain q where q: "?enter f (rs_recs y ! 11) = Ret (None, q)" "ext_dir up (insert s E) x q" by auto
  have len: "length (fn_file_name f) \<le> 8" using sys_name_length [OF s(1)] f(1) by simp
  from link_file_ok [OF env(1) m(1) p(4) len room(3,4), of ?enter, OF q(1)] f
  obtain m' where m': "link_file env ?enter f (rs_recs y ! i) (rs_recs y ! 11) = Ret (None, m', q)"
    "holds up i m' w (V((AT_FILE_NAME, []) \<mapsto> K_name FILE_NAME_WIN32_AND_DOS (ascii s)))" by auto
  have run: "link_extend i ref fl s c y = Ret (None, (set_record i m' y)\<lparr>rs_recs := (rs_recs y)[i := m', 11 := q]\<rparr>)"
    using m'(1) env(2) prepared_name [OF p(1) s(1)]
    by (simp add: link_extend_def create_hardlink_res_def env_def [symmetric] p(5) f_def [symmetric])
  have "world up R c F (at_rec up i w (V((AT_FILE_NAME, []) \<mapsto> K_name FILE_NAME_WIN32_AND_DOS (ascii s))) 0
      (W\<lparr>p_recs := (p_recs W)(11 := ext_dir up (insert s E) x)\<rparr>)) ((set_record i m' y)\<lparr>rs_recs := (rs_recs y)[i := m', 11 := q]\<rparr>)"
    using y m'(2) q(2) p(2) d(2) by (auto simp: world_def set_record_def fmt_of_def nth_list_update split: option.splits)
  with run show "\<exists>s'. link_extend i ref fl s c y = Ret (None, s') \<and> world up R c F (at_rec up i w (V((AT_FILE_NAME, []) \<mapsto> K_name FILE_NAME_WIN32_AND_DOS (ascii s))) 0
      (W\<lparr>p_recs := (p_recs W)(11 := ext_dir up (insert s E) x)\<rparr>)) s'" by blast
qed

end
