(* ===== verification/Root_Dir.thy ===== *)
theory Root_Dir
  imports Root_Views
begin

text \<open>The first steps: standard information in every record, and the root directory with its index block.\<close>

section \<open>Standard information\<close>

text \<open>A record as the library lays it out: no attributes, no links, and an array of update sequence numbers behind the header.\<close>

definition blank :: "(ntfschar \<Rightarrow> ntfschar) \<Rightarrow> mft_record \<Rightarrow> bool" where
  "blank up m \<longleftrightarrow> fits up m 64 \<and> m_attrs m = [] \<and> m_link_count m = 0"

definition std_only :: "attr_key \<rightharpoonup> kind" where
  "std_only = [(AT_STANDARD_INFORMATION, []) \<mapsto> K_std]"

definition info_size :: "nat \<Rightarrow> nat" where
  "info_size i = 64 + std_size (system_security_id i)"

definition informed :: "(ntfschar \<Rightarrow> ntfschar) \<Rightarrow> nat \<Rightarrow> mft_record \<Rightarrow> bool" where
  "informed up i m \<longleftrightarrow> (used_system_file i \<longrightarrow> holds up i m (info_size i) std_only \<and> m_link_count m = 0)"

definition info_plan :: "(ntfschar \<Rightarrow> ntfschar) \<Rightarrow> nat \<Rightarrow> nat \<Rightarrow> plan" where
  "info_plan up free k = \<lparr>p_recs = (\<lambda>i. if i < k then informed up i else blank up), p_free = free, p_dir = None\<rparr>"

lemma insert_resident_keeps_links:
  "insert_resident_attr_in_mft_record ops mem un nl type ic fl rf val m = Ret (None, m') \<Longrightarrow> m_link_count m' = m_link_count m"
  by (auto simp: insert_resident_attr_in_mft_record_def make_room_for_attribute_def place_attr_def Let_def
      split: option.splits if_splits attr_search.splits)

lemma blank_info:
  assumes w: "willing up R env" and m: "blank up m" and r: "rich R (me_nr env) k st"
  shows "\<exists>m' st'. add_attr_std_info env now fl sid m st = Ret (None, m', st') \<and> holds up (m_number m) m' (64 + std_size sid) std_only \<and>
    m_link_count m' = 0 \<and> rich R (me_nr env) k st' \<and> places (ms_fmt st') = places (ms_fmt st)"
proof -
  have h: "holds up (m_number m) m 64 Map.empty" using m by (simp add: blank_def holds_def vals_def)
  have a: "may_add up R env (m_number m) m 64 Map.empty AT_STANDARD_INFORMATION []" using w h by (simp add: may_add_def)
  have "64 + std_size sid \<le> 1024" by (simp add: std_size_def)
  from std_info_adds [OF a r order_refl this, of now fl] obtain m' st' where
    m': "add_attr_std_info env now fl sid m st = Ret (None, m', st')" "holds up (m_number m) m' (64 + std_size sid) std_only"
      "rich R (me_nr env) k st'" "places (ms_fmt st') = places (ms_fmt st)" by (auto simp: adds_on_def std_only_def)
  have "m_link_count m' = m_link_count m"
    using m'(1) by (auto simp: add_attr_std_info_def add_resident_def split: run.splits dest: insert_resident_keeps_links)
  then show ?thesis using m m' by (simp add: blank_def)
qed

lemma info_step:
  fixes c :: "'d root_cfg"
  assumes p: "prepared up R c" and i: "i < 27"
  shows "run_ok c (system_file_info i) (world up R c F (info_plan up n i)) (world up R c F (info_plan up n (Suc i)))"
  unfolding run_ok_def
proof (intro allI impI)
  fix s :: "'d root_st"
  assume s: "world up R c F (info_plan up n i) s"
  define m1 where "m1 = (if used_system_file i then (rs_recs s ! i)\<lparr>m_number := i, m_flags := m_flags (rs_recs s ! i) \<union> {MFT_RECORD_IN_USE}\<rparr> else rs_recs s ! i)"
  have "p_recs (info_plan up n i) i (rs_recs s ! i)" using s i by (auto simp: world_def)
  then have "blank up (rs_recs s ! i)" by (simp add: info_plan_def)
  then have b: "blank up m1" by (auto simp: m1_def blank_def fits_def record_ok_def attr_off_def)
  have num: "used_system_file i \<Longrightarrow> m_number m1 = i" by (simp add: m1_def)
  have len: "i < length (rs_recs s)" using s i by (simp add: world_def)
  have r: "rich R (me_nr (rc_env c (rs_clock s))) n (rs_mk s)" using s prepared_env(3) [OF p] by (simp add: world_def info_plan_def)
  from blank_info [OF prepared_env(1) [OF p] b r, of "rc_now c (rs_clock s)" "system_file_attrs (rc_opts c) i" "system_security_id i"]
  obtain m' mk' where m': "add_attr_std_info (rc_env c (rs_clock s)) (rc_now c (rs_clock s)) (system_file_attrs (rc_opts c) i) (system_security_id i) m1 (rs_mk s) =
      Ret (None, m', mk')" "holds up (m_number m1) m' (info_size i) std_only" "m_link_count m' = 0"
    "rich R (vp_nr_clusters (rc_vol c)) n mk'" "places (ms_fmt mk') = places (fmt_of s)"
    using prepared_env(3) [OF p] by (auto simp: info_size_def fmt_of_def)
  define bm where "bm = (if used_system_file i then set_bit_at (rs_mft_bitmap s) i else rs_mft_bitmap s)"
  have bm: "bm \<noteq> []" using s by (auto simp: bm_def world_def set_bit_at_def)
  define s' where "s' = s\<lparr>rs_recs := (rs_recs s)[i := m'], rs_mft_bitmap := bm, rs_clock := rs_clock s + 1, rs_mk := mk'\<rparr>"
  have run: "system_file_info i c s = Ret (None, s')"
    using m'(1) len by (simp add: system_file_info_def Let_def on_record_def m1_def [symmetric] bm_def [symmetric] set_record_def s'_def)
  have inf: "informed up i m'" using m' num by (auto simp: informed_def)
  have old: "(if j < i then informed up j else blank up) (rs_recs s ! j)" if "j < 27" for j using s that by (simp add: world_def info_plan_def)
  have "(if j < Suc i then informed up j else blank up) ((rs_recs s)[i := m'] ! j)" if "j < 27" for j
    using old [OF that] inf len by (cases j i rule: linorder_cases) simp_all
  then have "world up R c F (info_plan up n (Suc i)) s'"
    using s m'(4,5) bm by (simp add: world_def s'_def info_plan_def fmt_of_def)
  with run show "\<exists>s'. system_file_info i c s = Ret (None, s') \<and> world up R c F (info_plan up n (Suc i)) s'" by blast
qed

lemma run_ok_append: "run_ok c (all_of fs) P Q \<Longrightarrow> run_ok c (all_of gs) Q S \<Longrightarrow> run_ok c (all_of (fs @ gs)) P S"
  by (fastforce simp: run_ok_def all_of_append andthen_def)

lemma info_loop:
  assumes "prepared up R c" and "k \<le> 27"
  shows "run_ok c (all_of [system_file_info i. i \<leftarrow> [0..<k]]) (world up R c F (info_plan up n 0)) (world up R c F (info_plan up n k))"
  using assms(2)
proof (induction k)
  case 0
  show ?case using run_ok_Nil by simp
next
  case (Suc k)
  then have "run_ok c (all_of [system_file_info i. i \<leftarrow> [0..<k]]) (world up R c F (info_plan up n 0)) (world up R c F (info_plan up n k))" by simp
  from run_ok_append [OF this run_ok_last [OF info_step [OF assms(1)]]] Suc.prems show ?case by simp
qed


section \<open>The record of the root directory\<close>

lemma change_step:
  fixes c :: "'d root_cfg"
  assumes "i < 27" and "\<And>m. p_recs W i m \<Longrightarrow> P (f m)"
  shows "run_ok c (\<lambda>c s. Ret (None, set_record i (f (rs_recs s ! i)) s)) (world up R c F W) (world up R c F (W\<lparr>p_recs := (p_recs W)(i := P)\<rparr>))"
  using assms by (auto simp: run_ok_def world_def set_record_def fmt_of_def nth_list_update split: option.splits)

text \<open>The directory gets its flag and its one link.\<close>

lemma start_dir:
  fixes c :: "'d root_cfg"
  assumes "p_recs W 5 = (\<lambda>m. holds up 5 m u V \<and> m_link_count m = 0)"
  shows "run_ok c (all_of [set_flags 5 fl, count_link 5]) (world up R c F W) (world up R c F (at_rec up 5 u V 0 W))"
proof -
  let ?P = "\<lambda>m. holds up 5 m u V \<and> m_link_count m = 0"
  have "run_ok c (set_flags 5 fl) (world up R c F W) (world up R c F (W\<lparr>p_recs := (p_recs W)(5 := ?P)\<rparr>))"
    unfolding set_flags_def by (rule change_step) (auto simp: assms)
  moreover have "run_ok c (count_link 5) (world up R c F (W\<lparr>p_recs := (p_recs W)(5 := ?P)\<rparr>))
      (world up R c F ((W\<lparr>p_recs := (p_recs W)(5 := ?P)\<rparr>)\<lparr>p_recs := (p_recs (W\<lparr>p_recs := (p_recs W)(5 := ?P)\<rparr>))(5 := \<lambda>m. holds up 5 m u V)\<rparr>))"
    unfolding count_link_def by (rule change_step) (auto simp: holds_def fits_def vals_def)
  ultimately show ?thesis by (intro run_ok_Cons run_ok_last) (auto simp: at_rec_def)
qed

text \<open>The name, with the times of the standard information.\<close>

lemma find_std:
  assumes w: "willing up R env" and m: "holds up i m u V" and v: "V (AT_STANDARD_INFORMATION, []) = Some K_std"
  obtains vo vl si rf where "find_value env m AT_STANDARD_INFORMATION Unnamed = Ret (Inr (Resident vo vl (Std_info si) rf))"
proof -
  have gn: "good_names up (me_ops env)" using w by (simp add: willing_def)
  have f: "fits up m u" "vals m (AT_STANDARD_INFORMATION, name_of Unnamed) = Some K_std" using m v by (simp_all add: holds_def name_of_def)
  have pn: "plain_name Unnamed" "AT_STANDARD_INFORMATION \<noteq> AT_UNUSED" by (simp_all add: plain_name_def attr_types)
  from lookup_has [OF f(1) gn pn f(2)] obtain j where j: "attr_kind (m_attrs m ! j) = K_std"
    "mkntfs_attr_lookup (me_ops env) False m AT_STANDARD_INFORMATION Unnamed False None fresh_ctx = Found j" by blast
  obtain vo vl si rf where "a_form (m_attrs m ! j) = Resident vo vl (Std_info si) rf"
    using j(1) by (auto simp: attr_kind_def value_kind_def split: attr_form.splits attr_value.splits)
  with j(2) that show ?thesis by (simp add: find_value_def mkntfs_attr_lookup_def)
qed

lemma dot_name_step:
  fixes c :: "'d root_cfg"
  assumes a: "new_attr up R c W 5 u V AT_FILE_NAME []" and v: "V (AT_STANDARD_INFORMATION, []) = Some K_std" and room: "u + 112 \<le> w" "w \<le> 1024"
  shows "run_ok c (on_record 5 (\<lambda>c s env m mk. add_attr_file_name env (rc_mb c) ref 0 0 fl 0 0 ''.'' FILE_NAME_WIN32_AND_DOS m mk)) (world up R c F W)
    (world up R c F (at_rec up 5 w (V((AT_FILE_NAME, []) \<mapsto> K_name FILE_NAME_WIN32_AND_DOS (ascii ''.''))) 0 W))"
proof (rule attr_step [OF a])
  fix x :: "'d root_st" and m and env :: "'d mkenv"
  assume e: "may_add up R env 5 m u V AT_FILE_NAME []" "rich R (me_nr env) (0 + (p_free W - 0)) (rs_mk x)"
  have p: "prepared up R c" using a by (simp add: new_attr_def at_step_def)
  have w: "willing up R env" "holds up 5 m u V" "me_mem env" using e(1) by (simp_all add: may_add_def willing_def)
  obtain vo vl si rf where si: "find_value env m AT_STANDARD_INFORMATION Unnamed = Ret (Inr (Resident vo vl (Std_info si) rf))" by (rule find_std [OF w(1,2) v])
  define f where "f = \<lparr>fn_parent_directory = ref, fn_times = si_times si, fn_allocated_size = 0, fn_data_size = 0, fn_file_attributes = fl,
      fn_packed_ea_size = 0, fn_reparse_point_tag = 0, fn_file_name_type = FILE_NAME_WIN32_AND_DOS, fn_file_name = ascii ''.''\<rparr>"
  have nm: "check_name (rc_mb c) ''.'' = Inr (ascii ''.'')" by (rule prepared_name [OF p]) (simp add: sys_names_def)
  have run: "add_attr_file_name env (rc_mb c) ref 0 0 fl 0 0 ''.'' FILE_NAME_WIN32_AND_DOS m (rs_mk x) =
      add_resident env AT_FILE_NAME (arg_of []) (length ([] :: string)) False {} True (Some (File_name f)) m (rs_mk x)"
    by (simp add: add_attr_file_name_def w(3) si nm f_def arg_of_def)
  have "res_size [] (value_len (File_name f)) \<le> 112" by (simp add: res_size_def value_len_def file_name_size_def f_def)
  with add_resident_adds [OF e, of "File_name f" "Some (File_name f)" w True] room
  show "adds_on up R (me_nr env) 5 (rs_mk x) (p_free W - 0) w (V((AT_FILE_NAME, []) \<mapsto> K_name FILE_NAME_WIN32_AND_DOS (ascii ''.'')))
      (add_attr_file_name env (rc_mb c) ref 0 0 fl 0 0 ''.'' FILE_NAME_WIN32_AND_DOS m (rs_mk x))"
    unfolding run by (simp add: attr_types f_def)
qed simp


section \<open>The index block of the root directory\<close>

lemma insert_resident_keeps:
  assumes "record_ok m" and "insert_resident_attr_in_mft_record ops mem un nl type ic fl rf val m = Ret (None, m')" and "type \<noteq> AT_UNUSED"
    and k: "k < length (m_attrs m)" "a_type (m_attrs m ! k) < type"
  shows "k < length (m_attrs m') \<and> m_attrs m' ! k = m_attrs m ! k"
proof -
  from assms(2) obtain nm j a m1 where nf: "mkntfs_attr_lookup ops False m type nm False val fresh_ctx = Not_found j"
    and m1: "make_room_for_attribute m (a_length a) = Some m1" "m' = place_attr j a m1"
    by (auto simp: insert_resident_attr_in_mft_record_def Let_def split: option.splits if_splits attr_search.splits)
  have srt: "sorted (map a_type (m_attrs m))" "\<forall>a \<in> set (m_attrs m). a_type a < AT_END" using assms(1) by (simp_all add: record_ok_def attr_ok_def)
  from not_found_place [OF nf [unfolded lookup_fresh] srt assms(3)]
  have j: "j \<le> length (m_attrs m)" "\<forall>x \<in> set (drop j (m_attrs m)). type \<le> a_type x" by simp_all
  have "k < j"
  proof (rule ccontr)
    assume "\<not> k < j"
    then have "m_attrs m ! k = drop j (m_attrs m) ! (k - j)" "k - j < length (drop j (m_attrs m))" using k(1) j(1) by simp_all
    then have "m_attrs m ! k \<in> set (drop j (m_attrs m))" by (metis nth_mem)
    with j(2) k(2) show False by auto
  qed
  moreover have "m_attrs m1 = m_attrs m" using m1(1) by (auto simp: make_room_for_attribute_def split: if_splits)
  ultimately show ?thesis using k(1) m1(2) by (simp add: place_attr_def nth_append)
qed

text \<open>Documented of the library: the value is replaced, the attribute gets the size it needs, and there must be room for it.\<close>

definition resized_value :: "mft_record \<Rightarrow> nat \<Rightarrow> attr_value \<Rightarrow> nat \<Rightarrow> mft_record option" where
  "resized_value m k v n =
     (case a_form (m_attrs m ! k) of
        Non_resident _ \<Rightarrow> None
      | Resident vo _ _ rf \<Rightarrow>
          let a = (m_attrs m ! k)\<lparr>a_length := (vo + n + 7) div 8 * 8, a_form := Resident vo n v rf\<rparr>;
              used = m_bytes_in_use m + a_length a - a_length (m_attrs m ! k)
          in if used > m_bytes_allocated m then None else Some (m\<lparr>m_attrs := (m_attrs m)[k := a], m_bytes_in_use := used\<rparr>))"

definition resizing :: "'d root_cfg \<Rightarrow> bool" where
  "resizing c \<longleftrightarrow> (\<forall>m k v n. record_ok m \<and> k < length (m_attrs m) \<longrightarrow> rc_resize c m k v n = resized_value m k v n)"

lemma holds_replace:
  assumes m: "holds up i m u V" and j: "j < length (m_attrs m)"
    and b: "attr_ok b" "attr_key b = attr_key (m_attrs m ! j)" "a_instance b = a_instance (m_attrs m ! j)" "a_flags b = {}"
    and w: "used = m_bytes_in_use m + a_length b - a_length (m_attrs m ! j)" "used \<le> w" "w \<le> 1024"
  shows "holds up i (m\<lparr>m_attrs := (m_attrs m)[j := b], m_bytes_in_use := used\<rparr>) w (V(attr_key b \<mapsto> attr_kind b))"
proof -
  have f: "fits up m u" "vals m = V" using m by (simp_all add: holds_def)
  then have ro: "record_ok m" "m_bytes_allocated m = 1024" by (simp_all add: fits_def)
  have ty: "a_type b = a_type (m_attrs m ! j)" using b(2) by (simp add: attr_key_def)
  have same: "map a_type ((m_attrs m)[j := b]) = map a_type (m_attrs m)" "map a_instance ((m_attrs m)[j := b]) = map a_instance (m_attrs m)"
    using j ty b(3) by (simp_all add: map_update list_update_same_conv)
  have sum: "sum_list (map a_length ((m_attrs m)[j := b])) = sum_list (map a_length (m_attrs m)) + a_length b - a_length (m_attrs m ! j)"
    using j by (simp add: map_update sum_list_update)
  have le: "a_length (m_attrs m ! j) \<le> sum_list (map a_length (m_attrs m))" using j member_le_sum_list [of "a_length (m_attrs m ! j)" "map a_length (m_attrs m)"] by simp
  have at: "\<forall>x \<in> set ((m_attrs m)[j := b]). x = b \<or> x \<in> set (m_attrs m)" by (auto dest!: set_update_subset_insert [THEN subsetD])
  have inst: "a_instance b < m_next_attr_instance m" using ro(1) j b(3) by (simp add: record_ok_def)
  have "record_ok (m\<lparr>m_attrs := (m_attrs m)[j := b], m_bytes_in_use := used\<rparr>)"
    using ro at b(1) inst w le by (auto simp: record_ok_def same sum attr_off_def)
  moreover have "keys_sorted up ((m_attrs m)[j := b])" using keys_sorted_update [OF j b(2)] fits_find(3) [OF f(1)] by simp
  moreover have "\<forall>x \<in> set ((m_attrs m)[j := b]). a_flags x = {}" using at b(4) f(1) by (auto simp: fits_def)
  ultimately have "fits up (m\<lparr>m_attrs := (m_attrs m)[j := b], m_bytes_in_use := used\<rparr>) w" using f(1) w by (simp add: fits_def)
  moreover have "vals (m\<lparr>m_attrs := (m_attrs m)[j := b], m_bytes_in_use := used\<rparr>) = V(attr_key b \<mapsto> attr_kind b)"
    using vals_update [OF f(1) j b(2)] f(2) by (simp add: vals_def)
  ultimately show ?thesis using m by (auto simp: holds_def)
qed

text \<open>The empty root becomes one that points to the block.\<close>

lemma large_new_root:
  "value_len (Index_root (large_root (new_root cs t rule bs))) = 56" "ih_allocated_size (ir_header (large_root (new_root cs t rule bs))) = 40"
  "up_to_end (ih_entries (ir_header (new_root cs t rule bs))) = [end_entry]" "ir_index_block_size (new_root cs t rule bs) = bs"
  by (simp_all add: new_root_def large_root_def up_to_end_def node_entry_def end_entry_def value_len_def Let_def)

lemma resize_ok:
  assumes c: "resizing c" and m: "holds up i m u V" and k: "k < length (m_attrs m)" "attr_key (m_attrs m ! k) = (AT_INDEX_ROOT, ascii s)"
    and a: "a_form (m_attrs m ! k) = Resident vo 48 v0 rf" and r: "value_len (Index_root r) = 56" and w: "u + 8 \<le> w" "w \<le> 1024"
  shows "\<exists>m'. rc_resize c m k (Index_root r) 56 = Some m' \<and> holds up i m' w (V((AT_INDEX_ROOT, ascii s) \<mapsto> K_root r))"
proof -
  define b where "b = (m_attrs m ! k)\<lparr>a_length := (vo + 56 + 7) div 8 * 8, a_form := Resident vo 56 (Index_root r) rf\<rparr>"
  have ro: "record_ok m" "m_bytes_in_use m \<le> u" "m_bytes_allocated m = 1024" "a_flags (m_attrs m ! k) = {}"
    using m k(1) by (simp_all add: holds_def fits_def)
  then have ak: "attr_ok (m_attrs m ! k)" using k(1) by (simp add: record_ok_def)
  then obtain q where q: "a_length (m_attrs m ! k) = 8 * q" "vo + 48 \<le> 8 * q" using a by (auto simp: attr_ok_def elim!: dvdE)
  have "(vo + 63) div 8 \<le> (8 * q + 15) div 8" using q(2) by (intro div_le_mono) simp
  moreover have "(8 * q + 15) div 8 = q + 1" by simp
  ultimately have len: "(vo + 63) div 8 * 8 \<le> 8 * q + 8" "vo + 56 \<le> (vo + 63) div 8 * 8" by simp_all
  have b: "attr_ok b" "attr_key b = attr_key (m_attrs m ! k)" "a_instance b = a_instance (m_attrs m ! k)" "a_flags b = {}" "attr_kind b = K_root r"
    using ak a r ro(4) len(2) by (auto simp: b_def attr_ok_def attr_key_def attr_kind_def)
  define used where "used = m_bytes_in_use m + a_length b - a_length (m_attrs m ! k)"
  have "a_length b = (vo + 63) div 8 * 8" by (simp add: b_def)
  then have used: "used \<le> w" using len(1) q(1) ro(2) w(1) unfolding used_def by linarith
  have "rc_resize c m k (Index_root r) 56 = Some (m\<lparr>m_attrs := (m_attrs m)[k := b], m_bytes_in_use := used\<rparr>)"
  proof -
    have "rc_resize c m k (Index_root r) 56 = resized_value m k (Index_root r) 56" using c k(1) ro(1) by (simp add: resizing_def)
    also have "\<dots> = Some (m\<lparr>m_attrs := (m_attrs m)[k := b], m_bytes_in_use := used\<rparr>)"
      unfolding resized_value_def a attr_form.case Let_def b_def [symmetric] used_def [symmetric] using used ro(3) w(2) by simp
    finally show ?thesis .
  qed
  with holds_replace [OF m k(1) b(1-4) used_def used w(2)] k(2) b(2,5) show ?thesis by auto
qed


text \<open>The bitmap is placed behind the root, which stays where it was found.\<close>

lemma bitmap_behind_root:
  assumes w: "willing up R env" and m: "holds up i m u V" and r: "V (AT_INDEX_ROOT, ascii ''$I30'') = Some (K_root r0)"
    and ab: "absent up V (AT_BITMAP, ascii ''$I30'')" and free: "rich R (me_nr env) n st" and room: "u + 40 \<le> 1024"
  obtains k vo rf m1 st1 where
    "mkntfs_attr_lookup (me_ops env) False m AT_INDEX_ROOT (uname_of ''$I30'') False None fresh_ctx = Found k" "a_flags (m_attrs m ! k) = {}"
    "a_form (m_attrs m ! k) = Resident vo (16 + ih_index_length (ir_header r0)) (Index_root r0) rf"
    "add_attr_bitmap env (Some ''$I30'') 4 False [1, 0, 0, 0, 0, 0, 0, 0] m st = Ret (None, m1, st1)"
    "holds up i m1 (u + 40) (V((AT_BITMAP, ascii ''$I30'') \<mapsto> K_other))" "rich R (me_nr env) n st1" "places (ms_fmt st1) = places (ms_fmt st)"
    "k < length (m_attrs m1)" "m_attrs m1 ! k = m_attrs m ! k" "attr_key (m_attrs m ! k) = (AT_INDEX_ROOT, ascii ''$I30'')"
proof -
  have gn: "good_names up (me_ops env)" using w by (simp add: willing_def)
  have i30: "''$I30'' \<in> attr_names" by (simp add: attr_names_def)
  from holds_root [OF gn m r] obtain k vo rf where
    k: "mkntfs_attr_lookup (me_ops env) False m AT_INDEX_ROOT (uname_of ''$I30'') False None fresh_ctx = Found k" "k < length (m_attrs m)"
      "attr_key (m_attrs m ! k) = (AT_INDEX_ROOT, ascii ''$I30'')"
      "a_form (m_attrs m ! k) = Resident vo (16 + ih_index_length (ir_header r0)) (Index_root r0) rf" by blast
  have fl: "a_flags (m_attrs m ! k) = {}" "record_ok m" using m k(2) by (simp_all add: holds_def fits_def)
  have rm: "u + res_size ''$I30'' (length [1, 0, 0, 0, 0, 0, 0, 0 :: byte]) \<le> u + 40" by (simp add: res_size_def)
  have ma: "may_add up R env i m u V AT_BITMAP ''$I30''" using w m ab i30 by (simp add: may_add_def)
  have four: "length ''$I30'' = 4" by simp
  from bitmap_small [OF ma free _ rm, unfolded four] room obtain m1 st1 where
    b: "add_attr_bitmap env (Some ''$I30'') 4 False [1, 0, 0, 0, 0, 0, 0, 0] m st = Ret (None, m1, st1)"
      "holds up i m1 (u + 40) (V((AT_BITMAP, ascii ''$I30'') \<mapsto> K_other))" "rich R (me_nr env) n st1" "places (ms_fmt st1) = places (ms_fmt st)"
    by (auto simp: adds_on_def arg_of_def)
  have sm: "\<not> m_bytes_in_use m + 24 + 8 > m_bytes_allocated m" using holds_sizes [OF m] room by simp
  have "k < length (m_attrs m1) \<and> m_attrs m1 ! k = m_attrs m ! k"
  proof (rule insert_resident_keeps [OF fl(2)])
    show "insert_resident_attr_in_mft_record (me_ops env) (me_mem env) (me_str2ucs env (Some ''$I30'')) 4 AT_BITMAP False {} False
        (Some (Raw [1, 0, 0, 0, 0, 0, 0, 0])) m = Ret (None, m1)"
      using b(1) sm by (auto simp: add_attr_bitmap_def add_resident_def split: run.splits)
    show "AT_BITMAP \<noteq> AT_UNUSED" "a_type (m_attrs m ! k) < AT_BITMAP" using k(3) by (simp_all add: attr_types attr_key_def)
  qed (rule k(2))
  with that k b fl(1) show ?thesis by blast
qed

lemma upgrade_ok:
  fixes env :: "'d mkenv"
  defines "rt \<equiv> (AT_INDEX_ROOT, ascii ''$I30'')" and "bm \<equiv> (AT_BITMAP, ascii ''$I30'')" and "ia \<equiv> (AT_INDEX_ALLOCATION, ascii ''$I30'')"
  assumes w: "willing up R env" and m: "holds up i m u V" and r: "V rt = Some (K_root (new_root cs t rule 4096))" and abs: "absent up V bm" "absent up V ia"
    and c: "resizing c" and blk: "\<forall>h. \<exists>b. rc_blk c h = Some b \<and> length b = 4096" and room: "u + 184 \<le> x" "x \<le> 1024"
    and free: "rich R (me_nr env) (clusters_for (me_cs env) 4096 + n) st"
  shows "\<exists>m' st'. upgrade_to_large_index env (rc_resize c) (rc_blk c) ''$I30'' 4 False m st = Ret (None, Some (new_block 4096 [end_entry]), m', st') \<and>
    holds up i m' x (V(bm \<mapsto> K_other, rt \<mapsto> K_root (large_root (new_root cs t rule 4096)), ia \<mapsto> K_other)) \<and>
    rich R (me_nr env) n st' \<and> places (ms_fmt st') = places (ms_fmt st)"
proof -
  define r0 where "r0 = new_root cs t rule 4096"
  have r0: "V (AT_INDEX_ROOT, ascii ''$I30'') = Some (K_root r0)" "16 + ih_index_length (ir_header r0) = 48" using r by (simp_all add: rt_def r0_def new_root_def)
  have i30: "''$I30'' \<in> attr_names" "me_mem env" "length ''$I30'' = 4" using w by (simp_all add: attr_names_def willing_def)
  then have nm: "me_str2ucs env (Some ''$I30'') = Some (uname_of ''$I30'')" using willing_name [OF w, of "''$I30''"] by (simp add: arg_of_def)
  have "u + 40 \<le> 1024" using room by simp
  from bitmap_behind_root [OF w m r0(1) abs(1) [unfolded bm_def] free this, unfolded r0(2)] obtain k vo rf m1 st1 where
    k: "mkntfs_attr_lookup (me_ops env) False m AT_INDEX_ROOT (uname_of ''$I30'') False None fresh_ctx = Found k" "a_flags (m_attrs m ! k) = {}"
      "a_form (m_attrs m ! k) = Resident vo 48 (Index_root r0) rf"
    and b: "add_attr_bitmap env (Some ''$I30'') 4 False [1, 0, 0, 0, 0, 0, 0, 0] m st = Ret (None, m1, st1)" "holds up i m1 (u + 40) (V(bm \<mapsto> K_other))"
      "rich R (me_nr env) (clusters_for (me_cs env) 4096 + n) st1" "places (ms_fmt st1) = places (ms_fmt st)"
    and k1: "k < length (m_attrs m1)" "m_attrs m1 ! k = m_attrs m ! k" "attr_key (m_attrs m ! k) = (AT_INDEX_ROOT, ascii ''$I30'')" by (metis bm_def)
  from resize_ok [OF c b(2) k1(1), of "''$I30''" vo "Index_root r0" rf "large_root r0" "u + 48"] k1(2,3) k(3) room obtain m2 where
    m2: "rc_resize c m1 k (Index_root (large_root r0)) 56 = Some m2" "holds up i m2 (u + 48) (V(bm \<mapsto> K_other, rt \<mapsto> K_root (large_root r0)))"
    by (auto simp: r0_def large_new_root rt_def)
  obtain bs where bs: "rc_blk c (new_block 4096 [end_entry]) = Some bs" "length bs = 4096" using blk by blast
  have "absent up (V(bm \<mapsto> K_other, rt \<mapsto> K_root (large_root r0))) (AT_INDEX_ALLOCATION, ascii ''$I30'')"
    using abs(2) by (auto simp: same_key_def attr_types bm_def rt_def ia_def)
  from insert_non_resident_ok [OF w m2(2) this, of x "int (length bs)" WRITE_STANDARD bs n st1, unfolded i30(3)] bs(2) b(3) i30(1) room
  obtain m3 st3 where m3: "add_attr_index_alloc env (Some ''$I30'') 4 False bs m2 st1 = Ret (None, m3, st3)"
    "holds up i m3 x (V(bm \<mapsto> K_other, rt \<mapsto> K_root (large_root r0), ia \<mapsto> K_other))" "rich R (me_nr env) n st3" "places (ms_fmt st3) = places (ms_fmt st1)"
    by (auto simp: adds_on_def arg_of_def add_attr_index_alloc_def ia_def)
  have "upgrade_to_large_index env (rc_resize c) (rc_blk c) ''$I30'' 4 False m st = Ret (None, Some (new_block 4096 [end_entry]), m3, st3)"
    using k nm i30(2) b(1) m2(1) bs(1) m3(1) by (simp add: upgrade_to_large_index_def Let_def r0_def large_new_root)
  with m3(2-4) b(4) show ?thesis by (auto simp: r0_def)
qed

lemma upgrade_step:
  fixes c :: "'d root_cfg"
  defines "rt \<equiv> (AT_INDEX_ROOT, ascii ''$I30'')" and "bm \<equiv> (AT_BITMAP, ascii ''$I30'')" and "ia \<equiv> (AT_INDEX_ALLOCATION, ascii ''$I30'')"
  assumes at: "at_step up R c W 5 u V" and r: "V rt = Some (K_root (new_root cs t rule 4096))" and abs: "absent up V bm" "absent up V ia"
    and c: "resizing c" and blk: "\<forall>h. \<exists>b. rc_blk c h = Some b \<and> length b = 4096" and room: "u + 184 \<le> w" "w \<le> 1024"
    and n: "clusters_for (csize c) 4096 \<le> p_free W"
  shows "run_ok c upgrade_root (world up R c F W)
    (world up R c F (at_rec up 5 w (V(bm \<mapsto> K_other, rt \<mapsto> K_root (large_root (new_root cs t rule 4096)), ia \<mapsto> K_other))
      (clusters_for (csize c) 4096) (W\<lparr>p_dir := Some ({}, 56)\<rparr>)))"
  unfolding run_ok_def
proof (intro allI impI)
  fix x :: "'d root_st"
  assume x: "world up R c F W x"
  have p: "prepared up R c" "p_recs W 5 = (\<lambda>m. holds up 5 m u V)" using at by (simp_all add: at_step_def)
  define env m where "env = rc_env c (rs_clock x)" and "m = rs_recs x ! 5"
  have "p_recs W 5 m" using x by (auto simp: world_def m_def)
  then have m: "holds up 5 m u V" unfolding p(2) .
  have env: "willing up R env" "me_cs env = csize c" "me_nr env = vp_nr_clusters (rc_vol c)" using prepared_env [OF p(1)] by (simp_all add: env_def)
  let ?n = "clusters_for (csize c) 4096" and ?h = "new_block 4096 [end_entry]"
  let ?V = "V(bm \<mapsto> K_other, rt \<mapsto> K_root (large_root (new_root cs t rule 4096)), ia \<mapsto> K_other)"
  have free: "rich R (me_nr env) (clusters_for (me_cs env) 4096 + (p_free W - ?n)) (rs_mk x)" using x n env by (simp add: world_def)
  from upgrade_ok [OF env(1) m r [unfolded rt_def] abs [unfolded bm_def ia_def] c blk room free] obtain m3 st3 where
    m3: "upgrade_to_large_index env (rc_resize c) (rc_blk c) ''$I30'' 4 False m (rs_mk x) = Ret (None, Some ?h, m3, st3)"
    "holds up 5 m3 w ?V" "rich R (me_nr env) (p_free W - ?n) st3" "places (ms_fmt st3) = places (ms_fmt (rs_mk x))" by (auto simp: bm_def rt_def ia_def)
  have dl: "dir_lists up {} 56 ?h"
    by (simp add: dir_lists_def header_ok_def entries_ok_def new_block_def usa_count_def end_entry_def live_def Let_def)
  have "upgrade_root c x = Ret (None, (set_record 5 m3 x)\<lparr>rs_mk := st3, rs_index := Some ?h\<rparr>)"
    using m3(1) by (simp add: upgrade_root_def env_def [symmetric] m_def [symmetric])
  moreover have "world up R c F (at_rec up 5 w ?V ?n (W\<lparr>p_dir := Some ({}, 56)\<rparr>)) ((set_record 5 m3 x)\<lparr>rs_mk := st3, rs_index := Some ?h\<rparr>)"
    using x m3(2-4) dl env(3) by (auto simp: world_def set_record_def fmt_of_def nth_list_update)
  ultimately show "\<exists>s'. upgrade_root c x = Ret (None, s') \<and> world up R c F (at_rec up 5 w ?V ?n (W\<lparr>p_dir := Some ({}, 56)\<rparr>)) s'" by blast
qed

lemma enter_root_step:
  fixes c :: "'d root_cfg"
  assumes at: "at_step up R c W 5 u V" and v: "V (AT_FILE_NAME, []) = Some (K_name FILE_NAME_WIN32_AND_DOS (ascii ''.''))"
    and d: "p_dir W = Some (N, l)" "''.'' \<notin> N" "N \<subseteq> sys_names" "l + 104 \<le> 4072"
  shows "run_ok c enter_root_name (world up R c F W) (world up R c F (W\<lparr>p_dir := Some (insert ''.'' N, l + 104)\<rparr>))"
  unfolding run_ok_def
proof (intro allI impI)
  fix x :: "'d root_st"
  assume x: "world up R c F W x"
  have p: "prepared up R c" "p_recs W 5 = (\<lambda>m. holds up 5 m u V)" using at by (simp_all add: at_step_def)
  define env m where "env = rc_env c (rs_clock x)" and "m = rs_recs x ! 5"
  have "p_recs W 5 m" using x by (auto simp: world_def m_def)
  then have m: "fits up m u" "vals m (AT_FILE_NAME, name_of Unnamed) = Some (K_name FILE_NAME_WIN32_AND_DOS (ascii ''.''))"
    unfolding p(2) using v by (simp_all add: holds_def name_of_def)
  have env: "me_mem env" "good_names up (me_ops env)" using prepared_env(1,5) [OF p(1)] by (simp_all add: env_def willing_def)
  have pn: "plain_name Unnamed" "AT_FILE_NAME \<noteq> AT_UNUSED" by (simp_all add: plain_name_def attr_types)
  from lookup_has [OF m(1) env(2) pn m(2)] obtain j where j: "attr_kind (m_attrs m ! j) = K_name FILE_NAME_WIN32_AND_DOS (ascii ''.'')"
    "mkntfs_attr_lookup (me_ops env) False m AT_FILE_NAME Unnamed False None fresh_ctx = Found j" by blast
  obtain vo vl f rf where f: "a_form (m_attrs m ! j) = Resident vo vl (File_name f) rf" "fn_file_name f = ascii ''.''" "fn_file_name_type f = FILE_NAME_WIN32_AND_DOS"
    using j(1) by (auto simp: attr_kind_def value_kind_def split: attr_form.splits attr_value.splits)
  obtain h where h: "rs_index x = Some h" "dir_lists up N l h" using x d(1) by (auto simp: world_def)
  have inj: "inj_on (\<lambda>s. map up (ascii s)) sys_names" and dot: "''.'' \<in> sys_names" using p(1) by (simp_all add: prepared_def sys_names_def)
  have co: "collates up (nm_collate (me_ops env))" using env(2) by (simp add: good_names_def)
  from enter_name [OF co h(2) f(2) _ dot d(2,3) inj d(4), of root_ref] f(3)
  obtain h' where h': "insert_file_link_in_dir_index (nm_collate (me_ops env)) root_ref f h = (None, h')" "dir_lists up (insert ''.'' N) (l + 104) h'" by auto
  have "enter_root_name c x = Ret (None, (set_record 5 m x)\<lparr>rs_index := Some h'\<rparr>)"
    using j(2) f(1) h(1) h'(1) env(1) by (simp add: enter_root_name_def Let_def env_def [symmetric] m_def [symmetric])
  moreover have "world up R c F (W\<lparr>p_dir := Some (insert ''.'' N, l + 104)\<rparr>) ((set_record 5 m x)\<lparr>rs_index := Some h'\<rparr>)"
    using x h'(2) by (auto simp: world_def set_record_def fmt_of_def m_def)
  ultimately show "\<exists>s'. enter_root_name c x = Ret (None, s') \<and> world up R c F (W\<lparr>p_dir := Some (insert ''.'' N, l + 104)\<rparr>) s'" by blast
qed

section \<open>The cluster bitmap and the boot sector\<close>

lemma places_eq:
  assumes "world up R c F W x"
  shows "g_mft_size (fmt_of x) = g_mft_size F" "g_mft_bitmap_byte_size (fmt_of x) = g_mft_bitmap_byte_size F" "g_lcn_bitmap_byte_size (fmt_of x) = g_lcn_bitmap_byte_size F"
    "g_logfile_size (fmt_of x) = g_logfile_size F" "g_mft_lcn (fmt_of x) = g_mft_lcn F" "g_mftmirr_lcn (fmt_of x) = g_mftmirr_lcn F"
    "g_rl_mft (fmt_of x) = g_rl_mft F" "g_rl_mft_bmp (fmt_of x) = g_rl_mft_bmp F" "g_rl_mftmirr (fmt_of x) = g_rl_mftmirr F"
    "g_rl_logfile (fmt_of x) = g_rl_logfile F" "g_rl_boot (fmt_of x) = g_rl_boot F" "g_rl_bad (fmt_of x) = g_rl_bad F"
proof -
  have e: "places (fmt_of x) = places F" using assms by (simp add: world_def)
  have "g (places f) = g f" if "g = g_mft_size \<or> g = g_mft_bitmap_byte_size \<or> g = g_lcn_bitmap_byte_size \<or> g = g_logfile_size \<or> g = g_mft_lcn \<or> g = g_mftmirr_lcn"
    for g :: "fmt \<Rightarrow> int" and f using that by (auto simp: places_def)
  with e show "g_mft_size (fmt_of x) = g_mft_size F" "g_mft_bitmap_byte_size (fmt_of x) = g_mft_bitmap_byte_size F"
    "g_lcn_bitmap_byte_size (fmt_of x) = g_lcn_bitmap_byte_size F"
    "g_logfile_size (fmt_of x) = g_logfile_size F" "g_mft_lcn (fmt_of x) = g_mft_lcn F" "g_mftmirr_lcn (fmt_of x) = g_mftmirr_lcn F" by metis+
  have "g (places f) = g f" if "g = g_rl_mft \<or> g = g_rl_mft_bmp \<or> g = g_rl_mftmirr \<or> g = g_rl_logfile \<or> g = g_rl_boot \<or> g = g_rl_bad"
    for g :: "fmt \<Rightarrow> runlist" and f using that by (auto simp: places_def)
  with e show "g_rl_mft (fmt_of x) = g_rl_mft F" "g_rl_mft_bmp (fmt_of x) = g_rl_mft_bmp F" "g_rl_mftmirr (fmt_of x) = g_rl_mftmirr F"
    "g_rl_logfile (fmt_of x) = g_rl_logfile F" "g_rl_boot (fmt_of x) = g_rl_boot F" "g_rl_bad (fmt_of x) = g_rl_bad F" by metis+
qed

lemma bitmap_data_step:
  fixes c :: "'d root_cfg"
  assumes a: "new_attr up R c W 6 u V AT_DATA []" and n: "0 < g_lcn_bitmap_byte_size F" "clusters_for (csize c) (g_lcn_bitmap_byte_size F) \<le> p_free W"
    and room: "u + 136 \<le> w" "w \<le> 1024"
  shows "run_ok c (on_record 6 (\<lambda>c s env m mk. insert_non_resident_attr_in_mft_record env AT_DATA None 0 False {} []
      (g_lcn_bitmap_byte_size (fmt_of s)) WRITE_BITMAP m mk)) (world up R c F W)
    (world up R c F (at_rec up 6 w (V((AT_DATA, []) \<mapsto> K_other)) (clusters_for (csize c) (g_lcn_bitmap_byte_size F)) W))"
proof (rule attr_step [OF a n(2)])
  fix x :: "'d root_st" and m and env :: "'d mkenv"
  let ?n = "clusters_for (csize c) (g_lcn_bitmap_byte_size F)"
  assume e: "may_add up R env 6 m u V AT_DATA []" "rich R (me_nr env) (?n + (p_free W - ?n)) (rs_mk x)" "world up R c F W x" "me_cs env = csize c"
  from e(1) have "willing up R env" "holds up 6 m u V" "absent up V (AT_DATA, ascii [])" "known_attr AT_DATA []" by (simp_all add: may_add_def)
  from insert_non_resident_ok [OF this, of w "g_lcn_bitmap_byte_size F" WRITE_BITMAP "[]" "p_free W - ?n" "rs_mk x"] n(1) room e(2,4) places_eq(3) [OF e(3)]
  show "adds_on up R (me_nr env) 6 (rs_mk x) (p_free W - ?n) w (V((AT_DATA, []) \<mapsto> K_other))
      (insert_non_resident_attr_in_mft_record env AT_DATA None 0 False {} [] (g_lcn_bitmap_byte_size (fmt_of x)) WRITE_BITMAP m (rs_mk x))"
    by (simp add: arg_of_def)
qed

end
