(* ===== verification/Root_Plan.thy ===== *)
theory Root_Plan
  imports Root_Dir
begin

text \<open>The system files one after the other: every one of them can be made where there is room.\<close>

section \<open>Places and room\<close>

text \<open>A place for a value: one run inside the volume that is long enough.\<close>

definition covers :: "'d root_cfg \<Rightarrow> runlist \<Rightarrow> int \<Rightarrow> bool" where
  "covers c rl n \<longleftrightarrow> (\<exists>l k. rl = one_run l k \<and> 0 \<le> l \<and> 0 < k \<and> l + k \<le> vp_nr_clusters (rc_vol c) \<and> 0 < n \<and> n \<le> k * csize c)"

lemma covers_writable:
  assumes "covers c rl n" and "0 < m" and "m \<le> n" and "wt = WRITE_STANDARD \<longrightarrow> m \<le> int (length val)"
  shows "writable (csize c) (vp_nr_clusters (rc_vol c)) wt rl val m"
  using assms by (auto simp: covers_def writable_def one_run_def)

text \<open>What the layout of the volume must provide.\<close>

definition mirror_bytes :: "'d root_cfg \<Rightarrow> fmt \<Rightarrow> int" where
  "mirror_bytes c F = rl_length (g_rl_mftmirr F ! 0) * csize c"

definition places_ready :: "'d root_cfg \<Rightarrow> fmt \<Rightarrow> bool" where
  "places_ready c F \<longleftrightarrow> covers c (g_rl_mft F) (g_mft_size F) \<and> covers c (g_rl_mft_bmp F) (g_mft_bitmap_byte_size F) \<and>
     covers c (g_rl_mftmirr F) (mirror_bytes c F) \<and> mirror_bytes c F \<le> g_mft_size F \<and> covers c (g_rl_logfile F) (g_logfile_size F) \<and>
     covers c (g_rl_boot F) 8192 \<and> g_rl_bad F = one_run (-1) (vp_nr_clusters (rc_vol c)) \<and> 0 < vp_nr_clusters (rc_vol c) \<and>
     0 < g_lcn_bitmap_byte_size F"

section \<open>A file in the root directory\<close>

lemma absent_upd [simp]: "absent up (V(k \<mapsto> v)) k' \<longleftrightarrow> \<not> same_key up k k' \<and> absent up V k'"
  by auto

lemma absent_std [simp]: "absent up std_only k \<longleftrightarrow> \<not> same_key up (AT_STANDARD_INFORMATION, []) k"
  by (simp add: std_only_def)

lemma same_key_types [simp]: "t \<noteq> t' \<Longrightarrow> \<not> same_key up (t, a) (t', b)"
  by (simp add: same_key_def)

lemma types_differ [simp]:
  "AT_STANDARD_INFORMATION \<noteq> AT_DATA" "AT_STANDARD_INFORMATION \<noteq> AT_FILE_NAME" "AT_STANDARD_INFORMATION \<noteq> AT_BITMAP"
  "AT_STANDARD_INFORMATION \<noteq> AT_SECURITY_DESCRIPTOR" "AT_STANDARD_INFORMATION \<noteq> AT_INDEX_ROOT" "AT_STANDARD_INFORMATION \<noteq> AT_VOLUME_NAME"
  "AT_STANDARD_INFORMATION \<noteq> AT_VOLUME_INFORMATION" "AT_STANDARD_INFORMATION \<noteq> AT_OBJECT_ID" "AT_STANDARD_INFORMATION \<noteq> AT_INDEX_ALLOCATION"
  "AT_FILE_NAME \<noteq> AT_DATA" "AT_FILE_NAME \<noteq> AT_BITMAP" "AT_FILE_NAME \<noteq> AT_SECURITY_DESCRIPTOR" "AT_FILE_NAME \<noteq> AT_INDEX_ROOT"
  "AT_FILE_NAME \<noteq> AT_VOLUME_NAME" "AT_FILE_NAME \<noteq> AT_VOLUME_INFORMATION" "AT_FILE_NAME \<noteq> AT_OBJECT_ID" "AT_FILE_NAME \<noteq> AT_INDEX_ALLOCATION"
  "AT_DATA \<noteq> AT_FILE_NAME" "AT_DATA \<noteq> AT_BITMAP" "AT_DATA \<noteq> AT_SECURITY_DESCRIPTOR" "AT_DATA \<noteq> AT_INDEX_ROOT" "AT_DATA \<noteq> AT_VOLUME_NAME"
  "AT_DATA \<noteq> AT_VOLUME_INFORMATION" "AT_DATA \<noteq> AT_OBJECT_ID"
  "AT_SECURITY_DESCRIPTOR \<noteq> AT_DATA" "AT_SECURITY_DESCRIPTOR \<noteq> AT_INDEX_ROOT" "AT_SECURITY_DESCRIPTOR \<noteq> AT_BITMAP"
  "AT_SECURITY_DESCRIPTOR \<noteq> AT_INDEX_ALLOCATION" "AT_SECURITY_DESCRIPTOR \<noteq> AT_VOLUME_NAME" "AT_SECURITY_DESCRIPTOR \<noteq> AT_VOLUME_INFORMATION"
  "AT_SECURITY_DESCRIPTOR \<noteq> AT_OBJECT_ID" "AT_INDEX_ROOT \<noteq> AT_BITMAP" "AT_INDEX_ROOT \<noteq> AT_INDEX_ALLOCATION"
  "AT_VOLUME_NAME \<noteq> AT_VOLUME_INFORMATION" "AT_VOLUME_NAME \<noteq> AT_OBJECT_ID" "AT_VOLUME_INFORMATION \<noteq> AT_OBJECT_ID"
  by (simp_all add: attr_types)

lemma names_differ:
  assumes "prepared up R c" and "s \<in> attr_names" and "t \<in> attr_names" and "s \<noteq> t"
  shows "\<not> same_key up (a, ascii s) (b, ascii t)"
proof -
  have "inj_on (\<lambda>s. map up (ascii s)) attr_names" using assms(1) by (simp add: prepared_def)
  with assms(2-4) show ?thesis by (auto simp: same_key_def dest: inj_onD)
qed

text \<open>The record has its standard information, and the directory has room for one more name.\<close>

definition can_file :: "(ntfschar \<Rightarrow> ntfschar) \<Rightarrow> ('d \<Rightarrow> bool) \<Rightarrow> 'd root_cfg \<Rightarrow> plan \<Rightarrow> nat \<Rightarrow> string \<Rightarrow> nat \<Rightarrow> bool" where
  "can_file up R c W i s n \<longleftrightarrow> prepared up R c \<and> i < 27 \<and> p_recs W i = (\<lambda>m. holds up i m (info_size i) std_only) \<and> n \<le> p_free W \<and> s \<in> sys_names \<and>
     (\<exists>N l. p_dir W = Some (N, l) \<and> s \<notin> N \<and> N \<subseteq> sys_names \<and> l + 104 \<le> 4072)"

definition add_dir :: "string \<Rightarrow> plan \<Rightarrow> plan" where
  "add_dir s W = W\<lparr>p_dir := map_option (\<lambda>(N, l). (insert s N, l + 104)) (p_dir W)\<rparr>"

definition filed :: "nat \<Rightarrow> string \<Rightarrow> nat \<Rightarrow> plan \<Rightarrow> plan" where
  "filed i s n W = finish i (add_dir s (W\<lparr>p_free := p_free W - n\<rparr>))"

lemma plan_simps [simp]:
  "p_recs (add_dir s W) = p_recs W" "p_free (add_dir s W) = p_free W" "p_dir (add_dir s W) = map_option (\<lambda>(N, l). (insert s N, l + 104)) (p_dir W)"
  "p_recs (filed i s n W) j = (if j = i then (\<lambda>_. True) else p_recs W j)" "p_free (filed i s n W) = p_free W - n"
  "p_dir (filed i s n W) = map_option (\<lambda>(N, l). (insert s N, l + 104)) (p_dir W)"
  by (simp_all add: add_dir_def filed_def)

lemma rich_less:
  assumes "rich R nr n st" and "k \<le> n"
  shows "rich R nr k st"
proof -
  have "{p ..< p + int k} \<subseteq> {p ..< p + int n}" "p + int k \<le> p + int n" for p using assms(2) by auto
  with assms(1) show ?thesis unfolding rich_def by (meson disjoint_iff order_trans subsetD)
qed

lemma world_weaken:
  assumes "world up R c F W s" and "\<And>i m. i < 27 \<Longrightarrow> p_recs W i m \<Longrightarrow> p_recs W' i m" and "p_free W' \<le> p_free W" and "p_dir W' = p_dir W"
  shows "world up R c F W' s"
  using assms rich_less by (auto simp: world_def)

text \<open>The step that enters the name, from a record that lacks one.\<close>

lemma link_step:
  fixes c :: "'d root_cfg"
  assumes a: "new_attr up R c W i u V AT_FILE_NAME []" and d: "p_dir W = Some (N, l)" "s \<in> sys_names" "s \<notin> N" "N \<subseteq> sys_names" "l + 104 \<le> 4072"
    and room: "u + 112 \<le> 1024"
  shows "run_ok c (link_root i ref al da fl s) (world up R c F W)
    (world up R c F (at_rec up i (u + 112) (V((AT_FILE_NAME, []) \<mapsto> K_name FILE_NAME_WIN32_AND_DOS (ascii s))) 0 (add_dir s W)))"
  using link_root_step [OF a d order_refl room, of ref al da fl F] d(1)
  by (simp add: link_plan_def add_dir_def)

lemma can_file_new:
  assumes "can_file up R c W i s n" and "known_attr t nm" and "AT_STANDARD_INFORMATION \<noteq> t"
  shows "new_attr up R c W i (info_size i) std_only t nm"
  using assms by (auto simp: can_file_def new_attr_def at_step_def same_key_def std_only_def split: if_splits)

lemma new_attr_at:
  assumes "prepared up R c" and "i < 27" and "absent up V (t, ascii s)" and "known_attr t s"
  shows "new_attr up R c (at_rec up i u V n W) i u V t s" "new_attr up R c (at_rec up i u V n (add_dir nm W)) i u V t s"
  using assms by (simp_all add: new_attr_def at_step_def)

lemma info_sizes [simp]:
  "i \<in> {0, 1, 2, 6, 8, 9, 10, 11, 24, 25, 26} \<Longrightarrow> info_size i = 160" "i \<in> {3, 4, 5, 7, 12, 13, 14, 15} \<Longrightarrow> info_size i = 136"
  by (auto simp: info_size_def system_security_id_def std_size_def)

end
