(* ===== verification/Root_Make.thy ===== *)
theory Root_Make
  imports Root_Plan
begin

text \<open>Every system file can be made.\<close>

section \<open>Files with a place of their own\<close>

text \<open>What a sequence of steps leaves, as far as later files need it.\<close>

lemma filed_world:
  assumes "world up R c F (at_rec up i w V k (add_dir s W)) x" and "p_free W - n \<le> p_free W - k"
  shows "world up R c F (filed i s n W) x"
  using assms(1) by (rule world_weaken) (use assms(2) in \<open>auto split: if_splits\<close>)

lemma run_filed:
  assumes "run_ok c f P (world up R c F (at_rec up i w V k (add_dir s W)))" and "p_free W - n \<le> p_free W - k"
  shows "run_ok c f P (world up R c F (filed i s n W))"
  by (rule run_ok_weaken [OF assms(1)]) (simp_all add: filed_world [OF _ assms(2)])

lemma at_rec_twice [simp]: "at_rec up i u V n (at_rec up i u' V' n' W) = at_rec up i u V (n' + n) W"
  "add_dir s (at_rec up i u V n W) = at_rec up i u V n (add_dir s W)"
  by (simp_all add: at_rec_def add_dir_def)

text \<open>Data at a place, and the name.\<close>

lemma placed_file:
  fixes c :: "'d root_cfg"
  assumes f: "can_file up R c W i s 0" and i: "info_size i \<le> 160"
    and w: "\<And>x. world up R c F W x \<Longrightarrow> writable (csize c) (vp_nr_clusters (rc_vol c)) (if i = 2 then WRITE_LOGFILE else WRITE_STANDARD) (rl c x) (val c x) (n c x)"
  shows "run_ok c (all_of [on_record i (\<lambda>c s env m mk. add_attr_data_positioned env None 0 False {} (rl c s) (val c s) (n c s) m mk),
      link_root i ref al da fl s]) (world up R c F W)
    (world up R c F (at_rec up i 408 (std_only((AT_DATA, []) \<mapsto> K_other, (AT_FILE_NAME, []) \<mapsto> K_name FILE_NAME_WIN32_AND_DOS (ascii s))) 0 (add_dir s W)))"
proof -
  have p: "prepared up R c" "i < 27" using f by (simp_all add: can_file_def)
  obtain N l where d: "p_dir W = Some (N, l)" "s \<in> sys_names" "s \<notin> N" "N \<subseteq> sys_names" "l + 104 \<le> 4072" using f by (auto simp: can_file_def)
  have a1: "new_attr up R c W i (info_size i) std_only AT_DATA []" by (rule can_file_new [OF f]) simp_all
  let ?V = "std_only((AT_DATA, []) \<mapsto> K_other)"
  have s1: "run_ok c (on_record i (\<lambda>c s env m mk. add_attr_data_positioned env None 0 False {} (rl c s) (val c s) (n c s) m mk)) (world up R c F W)
      (world up R c F (at_rec up i 296 ?V 0 W))"
    using positioned_data_step [OF a1, of None 0 296 F rl val n] w i by (simp add: arg_of_def)
  have a2: "new_attr up R c (at_rec up i 296 ?V 0 W) i 296 ?V AT_FILE_NAME []" using p by (intro new_attr_at) simp_all
  have s2: "run_ok c (link_root i ref al da fl s) (world up R c F (at_rec up i 296 ?V 0 W))
      (world up R c F (at_rec up i 408 (?V((AT_FILE_NAME, []) \<mapsto> K_name FILE_NAME_WIN32_AND_DOS (ascii s))) 0 (add_dir s W)))"
    using link_step [OF a2 _ d(2-5), of ref al da fl F] d(1) by simp
  show ?thesis by (intro run_ok_Cons [OF s1] run_ok_last [OF s2])
qed

lemma create_mft_ok:
  fixes c :: "'d root_cfg"
  assumes f: "can_file up R c W 0 ''$MFT'' 0" and F: "places_ready c F" and b: "\<forall>ms. length (rc_bytes c ms) = 1024 * length ms"
  shows "run_ok c create_mft (world up R c F W) (world up R c F (filed 0 ''$MFT'' 0 W))"
proof -
  have p: "prepared up R c" using f by (simp add: can_file_def)
  have cv: "covers c (g_rl_mft F) (g_mft_size F)" "covers c (g_rl_mft_bmp F) (g_mft_bitmap_byte_size F)" using F by (simp_all add: places_ready_def)
  have "0 < g_mft_size F" using cv(1) by (auto simp: covers_def)
  then have wr: "writable (csize c) (vp_nr_clusters (rc_vol c)) (if (0 :: nat) = 2 then WRITE_LOGFILE else WRITE_STANDARD) (g_rl_mft (fmt_of x)) (rc_bytes c (rs_recs x))
      (g_mft_size (fmt_of x))" if "world up R c F W x" for x
    using covers_writable [OF cv(1), of "g_mft_size F" WRITE_STANDARD "rc_bytes c (rs_recs x)"] that places_eq [OF that] b by (simp add: world_def)
  let ?V = "std_only((AT_DATA, []) \<mapsto> K_other, (AT_FILE_NAME, []) \<mapsto> K_name FILE_NAME_WIN32_AND_DOS (ascii ''$MFT''))"
  note s1 = placed_file [where rl = "\<lambda>c s. g_rl_mft (fmt_of s)" and val = "\<lambda>c s. rc_bytes c (rs_recs s)" and n = "\<lambda>c s. g_mft_size (fmt_of s)", OF f _ wr]
  have a2: "new_attr up R c (at_rec up 0 408 ?V 0 (add_dir ''$MFT'' W)) 0 408 ?V AT_BITMAP []" using p by (intro new_attr_at) simp_all
  have wr2: "writable (csize c) (vp_nr_clusters (rc_vol c)) WRITE_STANDARD (g_rl_mft_bmp (fmt_of x)) (take (nat (g_mft_bitmap_byte_size (fmt_of x))) (rs_mft_bitmap x))
      (int (length (take (nat (g_mft_bitmap_byte_size (fmt_of x))) (rs_mft_bitmap x))))"
    if x: "world up R c F (at_rec up 0 408 ?V 0 (add_dir ''$MFT'' W)) x" for x
  proof -
    have "0 < g_mft_bitmap_byte_size F" using cv(2) by (auto simp: covers_def)
    moreover have "rs_mft_bitmap x \<noteq> []" using x by (simp add: world_def)
    ultimately show ?thesis unfolding places_eq(2,8) [OF x] by (intro covers_writable [OF cv(2)]) simp_all
  qed
  have s2: "run_ok c (on_record 0 (\<lambda>c s env m mk. add_attr_bitmap_positioned env None 0 False (g_rl_mft_bmp (fmt_of s))
          (take (nat (g_mft_bitmap_byte_size (fmt_of s))) (rs_mft_bitmap s)) m mk)) (world up R c F (at_rec up 0 408 ?V 0 (add_dir ''$MFT'' W)))
      (world up R c F (at_rec up 0 544 (?V((AT_BITMAP, []) \<mapsto> K_other)) 0 (add_dir ''$MFT'' W)))"
    using positioned_bitmap_step [where w = 544 and rl = "\<lambda>c s. g_rl_mft_bmp (fmt_of s)"
        and val = "\<lambda>c s. take (nat (g_mft_bitmap_byte_size (fmt_of s))) (rs_mft_bitmap s)", OF a2 _ _ wr2] by simp
  from run_ok_append [OF s1 run_ok_last [OF s2]] show ?thesis
    unfolding create_mft_def by (intro run_filed [where k = 0]) simp_all
qed


lemma placed_filed:
  assumes "run_ok c f P (world up R c F (at_rec up i u V 0 (add_dir s W)))"
  shows "run_ok c f P (world up R c F (filed i s 0 W))"
  using assms by (rule run_filed) simp

lemma create_mftmirr_ok:
  fixes c :: "'d root_cfg"
  assumes f: "can_file up R c W 1 ''$MFTMirr'' 0" and F: "places_ready c F" and b: "\<forall>ms. length (rc_bytes c ms) = 1024 * length ms"
  shows "run_ok c create_mftmirr (world up R c F W) (world up R c F (filed 1 ''$MFTMirr'' 0 W))"
proof -
  have cv: "covers c (g_rl_mftmirr F) (mirror_bytes c F)" "mirror_bytes c F \<le> g_mft_size F" using F by (simp_all add: places_ready_def)
  have n: "0 < mirror_bytes c F" using cv(1) by (auto simp: covers_def)
  have wr: "writable (csize c) (vp_nr_clusters (rc_vol c)) (if (1 :: nat) = 2 then WRITE_LOGFILE else WRITE_STANDARD) (g_rl_mftmirr (fmt_of x)) (rc_bytes c (rs_recs x))
      (mirr_size c x)" if x: "world up R c F W x" for x
  proof -
    have "mirr_size c x = mirror_bytes c F" by (simp add: mirr_size_def mirror_bytes_def places_eq [OF x])
    moreover have "mirror_bytes c F \<le> int (length (rc_bytes c (rs_recs x)))" using x b cv(2) by (simp add: world_def)
    ultimately show ?thesis using covers_writable [OF cv(1) n order_refl, of WRITE_STANDARD "rc_bytes c (rs_recs x)"] by (simp add: places_eq [OF x])
  qed
  show ?thesis
    unfolding create_mftmirr_def
    by (rule placed_filed, rule placed_file [where rl = "\<lambda>c s. g_rl_mftmirr (fmt_of s)" and val = "\<lambda>c s. rc_bytes c (rs_recs s)" and n = mirr_size, OF f _ wr]) simp_all
qed

lemma create_logfile_ok:
  fixes c :: "'d root_cfg"
  assumes f: "can_file up R c W 2 ''$LogFile'' 0" and F: "places_ready c F"
  shows "run_ok c create_logfile (world up R c F W) (world up R c F (filed 2 ''$LogFile'' 0 W))"
proof -
  have cv: "covers c (g_rl_logfile F) (g_logfile_size F)" using F by (simp add: places_ready_def)
  have n: "0 < g_logfile_size F" using cv by (auto simp: covers_def)
  have wr: "writable (csize c) (vp_nr_clusters (rc_vol c)) (if (2 :: nat) = 2 then WRITE_LOGFILE else WRITE_STANDARD) (g_rl_logfile (fmt_of x)) []
      (g_logfile_size (fmt_of x))" if x: "world up R c F W x" for x
    using covers_writable [OF cv n order_refl, of WRITE_LOGFILE "[]"] by (simp add: places_eq [OF x])
  show ?thesis
    unfolding create_logfile_def
    by (rule placed_filed, rule placed_file [where rl = "\<lambda>c s. g_rl_logfile (fmt_of s)" and val = "\<lambda>c s. []" and n = "\<lambda>c s. g_logfile_size (fmt_of s)", OF f _ wr])
      simp_all
qed

lemma create_boot_ok:
  fixes c :: "'d root_cfg"
  assumes f: "can_file up R c W 7 ''$Boot'' 0" and F: "places_ready c F" and b: "length bs = 8192"
  shows "run_ok c (create_boot bs) (world up R c F W) (world up R c F (filed 7 ''$Boot'' 0 W))"
proof -
  have p: "prepared up R c" using f by (simp add: can_file_def)
  have cv: "covers c (g_rl_boot F) 8192" using F by (simp add: places_ready_def)
  have wr: "writable (csize c) (vp_nr_clusters (rc_vol c)) (if (7 :: nat) = 2 then WRITE_LOGFILE else WRITE_STANDARD) (g_rl_boot (fmt_of x)) bs 8192"
    if x: "world up R c F W x" for x using covers_writable [OF cv, of 8192 WRITE_STANDARD bs] b by (simp add: places_eq [OF x])
  let ?V = "std_only((AT_DATA, []) \<mapsto> K_other, (AT_FILE_NAME, []) \<mapsto> K_name FILE_NAME_WIN32_AND_DOS (ascii ''$Boot''))"
  note s1 = placed_file [where rl = "\<lambda>c s. g_rl_boot (fmt_of s)" and val = "\<lambda>c s. bs" and n = "\<lambda>c s. 8192", OF f _ wr]
  have a2: "new_attr up R c (at_rec up 7 408 ?V 0 (add_dir ''$Boot'' W)) 7 408 ?V AT_SECURITY_DESCRIPTOR []" using p by (intro new_attr_at) simp_all
  have s2: "run_ok c (add_system_sd 7) (world up R c F (at_rec up 7 408 ?V 0 (add_dir ''$Boot'' W)))
      (world up R c F (at_rec up 7 536 (?V((AT_SECURITY_DESCRIPTOR, []) \<mapsto> K_other)) 0 (add_dir ''$Boot'' W)))"
    using system_sd_step [OF a2, of 536] by simp
  from run_ok_append [OF s1 run_ok_last [OF s2]] show ?thesis
    unfolding create_boot_def by (intro placed_filed) simp_all
qed


section \<open>Files with values of their own\<close>

lemma link_after:
  fixes c :: "'d root_cfg"
  assumes f: "can_file up R c W i s k" and V: "absent up V (AT_FILE_NAME, [])" and room: "u + 112 \<le> 1024"
  shows "run_ok c (link_root i ref al da fl s) (world up R c F (at_rec up i u V n W))
    (world up R c F (at_rec up i (u + 112) (V((AT_FILE_NAME, []) \<mapsto> K_name FILE_NAME_WIN32_AND_DOS (ascii s))) n (add_dir s W)))"
proof -
  have p: "prepared up R c" "i < 27" using f by (simp_all add: can_file_def)
  obtain N l where d: "p_dir W = Some (N, l)" "s \<in> sys_names" "s \<notin> N" "N \<subseteq> sys_names" "l + 104 \<le> 4072" using f by (auto simp: can_file_def)
  have a: "new_attr up R c (at_rec up i u V n W) i u V AT_FILE_NAME []" using p V by (intro new_attr_at) simp_all
  show ?thesis using link_step [OF a _ d(2-5) room, of ref al da fl F] d(1) by simp
qed

lemma sd_after:
  fixes c :: "'d root_cfg"
  assumes p: "prepared up R c" "i < 27" and V: "absent up V (AT_SECURITY_DESCRIPTOR, [])" and room: "u + 128 \<le> 1024"
  shows "run_ok c (add_system_sd i) (world up R c F (at_rec up i u V n W))
    (world up R c F (at_rec up i (u + 128) (V((AT_SECURITY_DESCRIPTOR, []) \<mapsto> K_other)) n W))"
proof -
  have a: "new_attr up R c (at_rec up i u V n W) i u V AT_SECURITY_DESCRIPTOR []" using p V by (intro new_attr_at) simp_all
  show ?thesis using system_sd_step [OF a order_refl room] by simp
qed

lemma empty_after:
  fixes c :: "'d root_cfg"
  assumes p: "prepared up R c" "i < 27" and V: "absent up V (AT_DATA, [])" and room: "u + 24 \<le> 512"
  shows "run_ok c (add_empty_data i) (world up R c F (at_rec up i u V n W)) (world up R c F (at_rec up i (u + 24) (V((AT_DATA, []) \<mapsto> K_other)) n W))"
proof -
  have a: "new_attr up R c (at_rec up i u V n W) i u V AT_DATA []" using p V by (intro new_attr_at) simp_all
  show ?thesis using empty_data_step [OF a room order_refl] room by simp
qed

lemma view_after:
  fixes c :: "'d root_cfg"
  assumes p: "prepared up R c" "i < 27" and V: "absent up V (AT_INDEX_ROOT, ascii s)" and s: "s \<in> attr_names" "s \<noteq> []" "nl = length s" "length s \<le> 4"
    and t: "t = AT_FILE_NAME \<longrightarrow> rule = COLLATION_FILE_NAME" and room: "u + 80 \<le> 1024"
  shows "run_ok c (add_view_root i s nl t rule) (world up R c F (at_rec up i u V n W))
    (world up R c F (at_rec up i (u + 80) (V((AT_INDEX_ROOT, ascii s) \<mapsto> K_root (new_root (vp_csize (rc_vol c)) t rule 4096))) n W))"
proof -
  have a: "new_attr up R c (at_rec up i u V n W) i u V AT_INDEX_ROOT s" using p V s by (intro new_attr_at) simp_all
  have "(2 * length s + 7) div 8 \<le> (2 * 4 + 7) div 8" using s(4) by (intro div_le_mono) simp
  then have "res_size s 48 \<le> 80" by (simp add: res_size_def)
  then show ?thesis using view_root_step [OF a s(3,2) _ t _ room, of F] s(3,4) by simp
qed

lemma start_rec:
  assumes "can_file up R c W i s n"
  shows "at_rec up i (info_size i) std_only 0 W = W"
  using assms by (cases W) (auto simp: at_rec_def can_file_def)

definition attrdef_clusters :: "'d root_cfg \<Rightarrow> nat" where
  "attrdef_clusters c = clusters_for (csize c) 2560"

lemma attrdef_length: "length attrdef_ntfs3x_array = 2560"
  unfolding attrdef_table by (simp add: attr_defs_def attr_def_bytes_def Let_def)

lemma create_attrdef_ok:
  fixes c :: "'d root_cfg"
  assumes f: "can_file up R c W 4 ''$AttrDef'' (attrdef_clusters c)"
  shows "run_ok c create_attrdef (world up R c F W) (world up R c F (filed 4 ''$AttrDef'' (attrdef_clusters c) W))"
proof -
  have p: "prepared up R c" "attrdef_clusters c \<le> p_free W" using f by (simp_all add: can_file_def)
  have a1: "new_attr up R c W 4 136 std_only AT_DATA []" using can_file_new [OF f, of AT_DATA "[]"] by simp
  let ?V = "std_only((AT_DATA, []) \<mapsto> K_other)" and ?n = "attrdef_clusters c"
  have s1: "run_ok c (on_record 4 (\<lambda>c s env m mk. add_attr_data env None 0 False {} (Some attrdef_ntfs3x_array) m mk)) (world up R c F W)
      (world up R c F (at_rec up 4 272 ?V ?n W))"
    using data_large_step [where val = "\<lambda>c x. Some attrdef_ntfs3x_array" and w = 272 and b = attrdef_ntfs3x_array, OF a1] p(2)
    by (simp add: arg_of_def attrdef_length attrdef_clusters_def)
  note s2 = link_after [OF f, of ?V 272, simplified]
  note s3 = sd_after [OF p(1), of 4 "?V((AT_FILE_NAME, []) \<mapsto> K_name FILE_NAME_WIN32_AND_DOS (ascii ''$AttrDef''))" 384, simplified]
  show ?thesis
    unfolding create_attrdef_def
    by (rule run_filed [where k = ?n, OF run_ok_Cons [OF s1 run_ok_Cons [OF s2 run_ok_last [OF s3]]]]) simp
qed


definition bitmap_clusters :: "'d root_cfg \<Rightarrow> fmt \<Rightarrow> nat" where
  "bitmap_clusters c F = clusters_for (csize c) (g_lcn_bitmap_byte_size F)"

lemma create_bitmap_ok:
  fixes c :: "'d root_cfg"
  assumes f: "can_file up R c W 6 ''$Bitmap'' (bitmap_clusters c F)" and F: "places_ready c F"
  shows "run_ok c create_bitmap (world up R c F W) (world up R c F (filed 6 ''$Bitmap'' (bitmap_clusters c F) W))"
proof -
  let ?V = "std_only((AT_DATA, []) \<mapsto> K_other)" and ?n = "bitmap_clusters c F"
  have n: "?n \<le> p_free W" "0 < g_lcn_bitmap_byte_size F" using f F by (simp_all add: can_file_def places_ready_def)
  have a1: "new_attr up R c W 6 160 std_only AT_DATA []" using can_file_new [OF f, of AT_DATA "[]"] by simp
  note s1 = bitmap_data_step [OF a1 n(2) n(1) [unfolded bitmap_clusters_def], of 296, folded bitmap_clusters_def, simplified]
  note s2 = link_after [OF f, of ?V 296, simplified]
  show ?thesis
    unfolding create_bitmap_def by (rule run_filed [where k = ?n, OF run_ok_Cons [OF s1 run_ok_last [OF s2]]]) simp
qed

lemma create_badclus_ok:
  fixes c :: "'d root_cfg"
  assumes f: "can_file up R c W 8 ''$BadClus'' 0" and F: "places_ready c F"
  shows "run_ok c create_badclus (world up R c F W) (world up R c F (filed 8 ''$BadClus'' 0 W))"
proof -
  have p: "prepared up R c" using f by (simp add: can_file_def)
  have rl: "g_rl_bad F = one_run (-1) (vp_nr_clusters (rc_vol c))" "0 < vp_nr_clusters (rc_vol c)" using F by (simp_all add: places_ready_def)
  have cs: "0 < csize c" using prepared_env(6) [OF p] .
  have bad: "''$Bad'' \<in> attr_names" by (simp add: attr_names_def)
  have a1: "new_attr up R c W 8 160 std_only AT_DATA ''$Bad''" using can_file_new [OF f, of AT_DATA "''$Bad''"] bad by simp
  have wr: "writable (csize c) (vp_nr_clusters (rc_vol c)) (if (8 :: nat) = 2 then WRITE_LOGFILE else WRITE_STANDARD) (g_rl_bad (fmt_of x)) []
      (vp_nr_clusters (rc_vol c) * csize c)" if x: "world up R c F W x" for x
    using rl cs by (simp add: places_eq [OF x] writable_def one_run_def)
  let ?V = "std_only((AT_DATA, ascii ''$Bad'') \<mapsto> K_other)"
  have s1: "run_ok c (on_record 8 (\<lambda>c s env m mk. add_attr_data_positioned env (Some ''$Bad'') 4 False {} (g_rl_bad (fmt_of s)) []
      (vp_nr_clusters (rc_vol c) * csize c) m mk)) (world up R c F W) (world up R c F (at_rec up 8 296 ?V 0 W))"
    using positioned_data_step [where rl = "\<lambda>c s. g_rl_bad (fmt_of s)" and val = "\<lambda>c s. []" and n = "\<lambda>c s. vp_nr_clusters (rc_vol c) * csize c" and w = 296
        and name = "Some ''$Bad''" and nl = 4, OF a1 _ _ _ _ _ wr] by (simp add: arg_of_def)
  have "\<not> same_key up (AT_DATA, ascii ''$Bad'') (AT_DATA, ascii [])" by (rule names_differ [OF p bad]) simp_all
  then have V: "absent up ?V (AT_DATA, [])" by simp
  note s2 = empty_after [OF p _ V, of 8 296, simplified]
  note s3 = link_after [OF f, of "?V((AT_DATA, []) \<mapsto> K_other)" 320, simplified]
  show ?thesis
    unfolding create_badclus_def by (rule placed_filed [OF run_ok_Cons [OF s1 run_ok_Cons [OF s2 run_ok_last [OF s3]]]])
qed

definition upcase_clusters :: "'d root_cfg \<Rightarrow> nat" where
  "upcase_clusters c = clusters_for (csize c) (2 * int (length (rc_upcase c)))"

lemma create_upcase_ok:
  fixes c :: "'d root_cfg"
  assumes f: "can_file up R c W 10 ''$UpCase'' (upcase_clusters c)" and n: "256 < length (rc_upcase c)" "length (rc_upcaseinfo c) \<le> 32"
  shows "run_ok c create_upcase (world up R c F W) (world up R c F (filed 10 ''$UpCase'' (upcase_clusters c) W))"
proof -
  have p: "prepared up R c" "upcase_clusters c \<le> p_free W" using f by (simp_all add: can_file_def)
  let ?V = "std_only((AT_DATA, []) \<mapsto> K_other)" and ?n = "upcase_clusters c"
  let ?V2 = "?V((AT_DATA, ascii ''$Info'') \<mapsto> K_other)"
  have a1: "new_attr up R c W 10 160 std_only AT_DATA []" using can_file_new [OF f, of AT_DATA "[]"] by simp
  have s1: "run_ok c (on_record 10 (\<lambda>c s env m mk. add_attr_data env None 0 False {} (Some (ucs_bytes (rc_upcase c))) m mk)) (world up R c F W)
      (world up R c F (at_rec up 10 296 ?V ?n W))"
    using data_large_step [where val = "\<lambda>c x. Some (ucs_bytes (rc_upcase c))" and w = 296 and b = "ucs_bytes (rc_upcase c)", OF a1] p(2) n(1)
    by (simp add: arg_of_def upcase_clusters_def)
  have info: "''$Info'' \<in> attr_names" by (simp add: attr_names_def)
  have "\<not> same_key up (AT_DATA, ascii []) (AT_DATA, ascii ''$Info'')" by (rule names_differ [OF p(1) _ info]) simp_all
  then have a2: "new_attr up R c (at_rec up 10 296 ?V ?n W) 10 296 ?V AT_DATA ''$Info''" using p(1) info by (intro new_attr_at) simp_all
  have "(24 + 16 + length (rc_upcaseinfo c) + 7) div 8 \<le> (24 + 16 + 32 + 7) div 8" using n(2) by (intro div_le_mono) simp
  then have "res_size ''$Info'' (length (rc_upcaseinfo c)) \<le> 72" by (simp add: res_size_def)
  then have s2: "run_ok c (on_record 10 (\<lambda>c s env m mk. add_attr_data env (Some ''$Info'') 5 False {} (Some (rc_upcaseinfo c)) m mk))
      (world up R c F (at_rec up 10 296 ?V ?n W)) (world up R c F (at_rec up 10 368 ?V2 ?n W))"
    using data_small_step [where val = "\<lambda>c x. Some (rc_upcaseinfo c)" and w = 368 and b = "rc_upcaseinfo c" and name = "Some ''$Info''" and nl = 5, OF a2] n(2)
    by (simp add: arg_of_def)
  note s3 = link_after [OF f, of ?V2 368, simplified]
  show ?thesis
    unfolding create_upcase_def by (rule run_filed [where k = ?n, OF run_ok_Cons [OF s1 run_ok_Cons [OF s2 run_ok_last [OF s3]]]]) simp
qed

end
