(* ===== verification/Root_Rest.thy ===== *)
theory Root_Rest
  imports Root_Make
begin

text \<open>The volume, the security and view indexes, the files of \<^verbatim>\<open>$Extend\<close> and the root directory can be made.\<close>

section \<open>The volume\<close>

lemma create_volume_ok:
  fixes c :: "'d root_cfg"
  assumes f: "can_file up R c W 3 ''$Volume'' 0" and g: "length guid = 16" and vi: "length (rc_vi c dirty 3 1) = 12"
    and nm: "\<forall>s. rc_vol_name c = Some s \<longrightarrow> (\<exists>u. rc_mb c s = Some u \<and> length u \<le> 128)"
  shows "run_ok c (create_file_volume dirty guid) (world up R c F W) (world up R c F (filed 3 ''$Volume'' 0 W))"
proof -
  have p: "prepared up R c" using f by (simp add: can_file_def)
  let ?W = "add_dir ''$Volume'' W"
  define V1 where "V1 = std_only((AT_FILE_NAME, []) \<mapsto> K_name FILE_NAME_WIN32_AND_DOS (ascii ''$Volume''), (AT_SECURITY_DESCRIPTOR, []) \<mapsto> K_other,
      (AT_DATA, []) \<mapsto> K_other)"
  define V2 V3 where "V2 = V1((AT_VOLUME_NAME, []) \<mapsto> K_other)" and "V3 = V2((AT_VOLUME_INFORMATION, []) \<mapsto> K_other)"
  have "at_rec up 3 136 std_only 0 W = W" using start_rec [OF f] by simp
  note s1 = link_after [where V = std_only and u = 136 and n = 0, OF f, unfolded this, simplified]
  note s2 = sd_after [OF p, of 3 "std_only((AT_FILE_NAME, []) \<mapsto> K_name FILE_NAME_WIN32_AND_DOS (ascii ''$Volume''))" 248 F 0 ?W, simplified]
  note s3 = empty_after [OF p, of 3 "std_only((AT_FILE_NAME, []) \<mapsto> K_name FILE_NAME_WIN32_AND_DOS (ascii ''$Volume''), (AT_SECURITY_DESCRIPTOR, []) \<mapsto> K_other)"
      376 F 0 ?W, simplified, folded V1_def]
  have a4: "new_attr up R c (at_rec up 3 400 V1 0 ?W) 3 400 V1 AT_VOLUME_NAME []" using p by (intro new_attr_at) (simp_all add: V1_def)
  note s4 = vol_name_step [OF a4 nm, of 680 F, folded V2_def, simplified]
  have a5: "new_attr up R c (at_rec up 3 680 V2 0 ?W) 3 680 V2 AT_VOLUME_INFORMATION []" using p by (intro new_attr_at) (simp_all add: V1_def V2_def)
  have s5: "run_ok c (on_record 3 (\<lambda>c s env m mk. add_attr_vol_info env (rc_vi c) dirty 3 1 m mk)) (world up R c F (at_rec up 3 680 V2 0 ?W))
      (world up R c F (at_rec up 3 720 V3 0 ?W))" using vol_info_step [OF a5 vi, of 720 F] by (simp add: V3_def)
  have a6: "new_attr up R c (at_rec up 3 720 V3 0 ?W) 3 720 V3 AT_OBJECT_ID []" using p by (intro new_attr_at) (simp_all add: V1_def V2_def V3_def)
  note s6 = object_id_step [OF a6 g, of 760 F, simplified]
  let ?Q = "world up R c F (filed 3 ''$Volume'' 0 W)"
  have "run_ok c (on_record 3 (\<lambda>c s env m mk. add_attr_object_id env guid m mk)) (world up R c F (at_rec up 3 720 V3 0 ?W)) ?Q"
    by (rule placed_filed [OF s6])
  moreover have "?Q s" if "world up R c F (at_rec up 3 720 V3 0 ?W) s" for s using filed_world [OF that, of 0] by simp
  ultimately have s6': "run_ok c (\<lambda>c s. if with_uuid (rc_opts c) then on_record 3 (\<lambda>c s env m mk. add_attr_object_id env guid m mk) c s else Ret (None, s))
      (world up R c F (at_rec up 3 720 V3 0 ?W)) ?Q" by (auto simp: run_ok_def)
  show ?thesis
    unfolding create_file_volume_def
    by (intro run_ok_Cons [OF s1] run_ok_Cons [OF s2] run_ok_Cons [OF s3] run_ok_Cons [OF s4] run_ok_Cons [OF s5] run_ok_last [OF s6'])
qed

section \<open>The boot sector and its backup\<close>

definition the_boot :: "'d root_cfg \<Rightarrow> fmt \<Rightarrow> byte list option" where
  "the_boot c F = boot_sector (rc_opts c) (rc_vol c) (g_mft_lcn F) (g_mftmirr_lcn F) (serial_number (fst (rc_random c)) (snd (rc_random c)))"

text \<open>The device has one sector more than the volume counts, and takes what it is given.\<close>

definition device_ready :: "('d \<Rightarrow> bool) \<Rightarrow> 'd root_cfg \<Rightarrow> bool" where
  "device_ready R c \<longleftrightarrow>
     (\<forall>n. \<exists>pos. full_device (me_wr (rc_env c n)) (me_sk (rc_env c n)) R pos ((num_sectors (rc_opts c) + 1) * sector_size (rc_opts c)))"

lemma backup_ok:
  assumes d: "device_ready R c" and x: "world up R c F W x" and bs: "length bs = 8192"
    and ss: "0 < sector_size (rc_opts c)" "512 \<le> num_sectors (rc_opts c) * sector_size (rc_opts c)"
  shows "\<exists>x'. backup_boot bs c x = Ret (0, x') \<and> world up R c F W x'"
proof -
  define env where "env = rc_env c (rs_clock x)"
  let ?lim = "(num_sectors (rc_opts c) + 1) * sector_size (rc_opts c)"
  obtain pos where dev: "full_device (me_wr env) (me_sk env) R pos ?lim" using d by (auto simp: device_ready_def env_def)
  define sz where "sz = (if backup_size (rc_opts c) > 8192 then 8192 else backup_size (rc_opts c))"
  have lim: "?lim = num_sectors (rc_opts c) * sector_size (rc_opts c) + sector_size (rc_opts c)" by (simp add: algebra_simps)
  have b: "0 < sz" "sz \<le> 8192" "0 \<le> backup_pos (rc_opts c)" "backup_pos (rc_opts c) + sz \<le> ?lim" "backup_pos (rc_opts c) \<le> ?lim"
    using ss unfolding sz_def backup_pos_def lim by (auto simp: backup_size_def)
  have rd: "R (ms_dev (rs_mk x))" using x by (simp add: world_def rich_def)
  obtain d1 where d1: "me_sk env (ms_dev (rs_mk x)) (backup_pos (rc_opts c)) = (True, d1)" "R d1" "pos d1 = backup_pos (rc_opts c)"
    using full_device.sk_all [OF dev rd b(3,5)] by blast
  obtain d2 where d2: "mkntfs_write (me_wr env) (no_action (rc_opts c)) d1 bs sz = Some (sz, d2)" "R d2"
    using full_device.mkwrite_full [OF dev b(1) _ d1(2), of bs] bs b d1 by (cases "no_action (rc_opts c)") (auto simp: mkntfs_write_def)
  have "backup_boot bs c x = Ret (0, x\<lparr>rs_mk := (rs_mk x)\<lparr>ms_dev := d2\<rparr>, rs_clock := rs_clock x + 1\<rparr>)"
    using d1(1) d2(1) by (simp add: backup_boot_def create_backup_boot_sector_def Let_def env_def [symmetric] sz_def [symmetric])
  moreover have "world up R c F W (x\<lparr>rs_mk := (rs_mk x)\<lparr>ms_dev := d2\<rparr>, rs_clock := rs_clock x + 1\<rparr>)"
    using x d2(2) by (auto simp: world_def rich_def fmt_of_def split: option.splits)
  ultimately show ?thesis by blast
qed

lemma boot_and_volume_ok:
  fixes c :: "'d root_cfg"
  assumes f: "can_file up R c W 7 ''$Boot'' 0" "can_file up R c (filed 7 ''$Boot'' 0 W) 3 ''$Volume'' 0" and F: "places_ready c F"
    and bs: "the_boot c F = Some bs" "length bs = 8192" "rc_is_ntfs c bs" and d: "device_ready R c"
    and ss: "0 < sector_size (rc_opts c)" "512 \<le> num_sectors (rc_opts c) * sector_size (rc_opts c)"
    and g: "length (volume_guid c) = 16" and vi: "length (rc_vi c False 3 1) = 12"
    and nm: "\<forall>s. rc_vol_name c = Some s \<longrightarrow> (\<exists>u. rc_mb c s = Some u \<and> length u \<le> 128)"
  shows "run_ok c create_boot_and_volume (world up R c F W) (world up R c F (filed 3 ''$Volume'' 0 (filed 7 ''$Boot'' 0 W)))"
  unfolding run_ok_def
proof (intro allI impI)
  fix x :: "'d root_st"
  assume x: "world up R c F W x"
  have mem: "me_mem (rc_env c (rs_clock x))" using f(1) prepared_env(5) by (auto simp: can_file_def)
  have b: "the_boot_sector c x = Some bs" using bs(1) by (simp add: the_boot_sector_def the_boot_def places_eq [OF x])
  obtain x1 where x1: "create_boot bs c x = Ret (None, x1)" "world up R c F (filed 7 ''$Boot'' 0 W) x1"
    using create_boot_ok [OF f(1) F bs(2)] x by (auto simp: run_ok_def)
  obtain x2 where x2: "backup_boot bs c x1 = Ret (0, x2)" "world up R c F (filed 7 ''$Boot'' 0 W) x2"
    using backup_ok [OF d x1(2) bs(2) ss] by blast
  obtain x3 where "create_file_volume False (volume_guid c) c x2 = Ret (None, x3)" "world up R c F (filed 3 ''$Volume'' 0 (filed 7 ''$Boot'' 0 W)) x3"
    using create_volume_ok [OF f(2) g vi nm] x2(2) by (auto simp: run_ok_def)
  then show "\<exists>s'. create_boot_and_volume c x = Ret (None, s') \<and> world up R c F (filed 3 ''$Volume'' 0 (filed 7 ''$Boot'' 0 W)) s'"
    using mem b bs(3) x1(1) x2(1) by (simp add: create_boot_and_volume_def)
qed


section \<open>Security indexes, \<^verbatim>\<open>$Extend\<close> and the reserved records\<close>

lemma finish_filed: "finish i (at_rec up i u V n (add_dir s W)) = filed i s n W"
  by (simp add: finish_def at_rec_def filed_def add_dir_def)

lemma flags_first:
  assumes "can_file up R c W i s n"
  shows "run_ok c (set_flags i fl) (world up R c F W) (world up R c F W)"
  using assms by (intro set_flags_step [where u = "info_size i" and V = std_only]) (simp add: can_file_def at_step_def)

definition sds_clusters :: "'d root_cfg \<Rightarrow> nat" where
  "sds_clusters c = clusters_for (csize c) 0x400fc"

lemma create_secure_ok:
  fixes c :: "'d root_cfg"
  assumes f: "can_file up R c W 9 ''$Secure'' (sds_clusters c)"
  shows "run_ok c create_secure (world up R c F W) (world up R c F (filed 9 ''$Secure'' (sds_clusters c) W))"
proof -
  have p: "prepared up R c" "sds_clusters c \<le> p_free W" using f by (simp_all add: can_file_def)
  let ?W = "add_dir ''$Secure'' W" and ?n = "sds_clusters c" and ?cs = "vp_csize (rc_vol c)"
  define V1 where "V1 = std_only((AT_FILE_NAME, []) \<mapsto> K_name FILE_NAME_WIN32_AND_DOS (ascii ''$Secure''))"
  define V2 where "V2 = V1((AT_DATA, ascii ''$SDS'') \<mapsto> K_other)"
  define V3 where "V3 = V2((AT_INDEX_ROOT, ascii ''$SDH'') \<mapsto> K_root (new_root ?cs AT_UNUSED COLLATION_NTOFS_SECURITY_HASH 4096))"
  define V4 where "V4 = V3((AT_INDEX_ROOT, ascii ''$SII'') \<mapsto> K_root (new_root ?cs AT_UNUSED COLLATION_NTOFS_ULONG 4096))"
  have names: "''$SDS'' \<in> attr_names" "''$SDH'' \<in> attr_names" "''$SII'' \<in> attr_names" by (simp_all add: attr_names_def)
  have "at_rec up 9 160 std_only 0 W = W" using start_rec [OF f] by simp
  note s1 = link_after [where V = std_only and u = 160 and n = 0, OF f, unfolded this, folded V1_def, simplified]
  have s2: "run_ok c (\<lambda>c s. if me_mem (rc_env c (rs_clock s)) then Ret (None, s) else Ret (Some ENOMEM, s)) P P" for P
    using prepared_env(5) [OF p(1)] by (simp add: run_ok_def)
  have a3: "new_attr up R c (at_rec up 9 272 V1 0 ?W) 9 272 V1 AT_DATA ''$SDS''" using p(1) names by (intro new_attr_at) (simp_all add: V1_def)
  have s3: "run_ok c (on_record 9 (\<lambda>c s env m mk. add_attr_data env (Some ''$SDS'') 4 False {} (Some (sds_stream (rc_sdc c))) m mk))
      (world up R c F (at_rec up 9 272 V1 0 ?W)) (world up R c F (at_rec up 9 408 V2 ?n ?W))"
    using data_large_step [where val = "\<lambda>c x. Some (sds_stream (rc_sdc c))" and w = 408 and b = "sds_stream (rc_sdc c)" and name = "Some ''$SDS''" and nl = 4,
        OF a3, of F] p(2) by (simp add: arg_of_def V2_def sds_clusters_def sds_stream_length)
  have k4: "absent up V2 (AT_INDEX_ROOT, ascii ''$SDH'')" by (simp add: V1_def V2_def)
  have ne: "AT_UNUSED \<noteq> AT_FILE_NAME" "ascii ''$SDH'' \<noteq> ascii ''$SII''" by (simp_all add: attr_types ascii_def)
  have s4: "run_ok c (add_view_root 9 ''$SDH'' 4 AT_UNUSED COLLATION_NTOFS_SECURITY_HASH) (world up R c F (at_rec up 9 408 V2 ?n ?W))
      (world up R c F (at_rec up 9 488 V3 ?n ?W))"
    using view_after [where nl = 4 and u = 408, OF p(1) _ k4 names(2), of 9 AT_UNUSED COLLATION_NTOFS_SECURITY_HASH F ?n ?W] ne(1) by (simp add: V3_def)
  have "\<not> same_key up (AT_INDEX_ROOT, ascii ''$SDH'') (AT_INDEX_ROOT, ascii ''$SII'')" by (rule names_differ [OF p(1) names(2,3)]) simp
  then have k5: "absent up V3 (AT_INDEX_ROOT, ascii ''$SII'')" by (simp add: V1_def V2_def V3_def)
  have s5: "run_ok c (add_view_root 9 ''$SII'' 4 AT_UNUSED COLLATION_NTOFS_ULONG) (world up R c F (at_rec up 9 488 V3 ?n ?W))
      (world up R c F (at_rec up 9 568 V4 ?n ?W))"
    using view_after [where nl = 4 and u = 488, OF p(1) _ k5 names(3), of 9 AT_UNUSED COLLATION_NTOFS_ULONG F ?n ?W] ne(1) by (simp add: V4_def)
  have v: "has_view V4 ''$SDH'' COLLATION_NTOFS_SECURITY_HASH {}" "has_view V4 ''$SII'' COLLATION_NTOFS_ULONG {}"
    using ne(2) by (auto intro!: new_root_view simp: V4_def V3_def)
  have at: "at_step up R c (at_rec up 9 568 V4 ?n ?W) 9 568 V4" using p(1) by (simp add: at_step_def)
  note s6 = secure_step [OF at v, of F, unfolded finish_filed]
  show ?thesis
    unfolding create_secure_def
    by (intro run_ok_Cons [OF flags_first [OF f]] run_ok_Cons [OF s1] run_ok_Cons [OF s2] run_ok_Cons [OF s3] run_ok_Cons [OF s4] run_ok_Cons [OF s5]
        run_ok_last [OF s6]) simp
qed

definition extended :: "(ntfschar \<Rightarrow> ntfschar) \<Rightarrow> plan \<Rightarrow> plan" where
  "extended up W = (add_dir ''$Extend'' W)\<lparr>p_recs := (p_recs W)(11 := ext_dir up {} 352)\<rparr>"

lemma extended_simps [simp]:
  "p_recs (extended up W) j = (if j = 11 then ext_dir up {} 352 else p_recs W j)" "p_free (extended up W) = p_free W"
  "p_dir (extended up W) = p_dir (add_dir ''$Extend'' W)"
  by (simp_all add: extended_def add_dir_def)

lemma create_extend_ok:
  fixes c :: "'d root_cfg"
  assumes f: "can_file up R c W 11 ''$Extend'' 0"
  shows "run_ok c create_extend (world up R c F W) (world up R c F (extended up W))"
proof -
  have p: "prepared up R c" using f by (simp add: can_file_def)
  have i30: "''$I30'' \<in> attr_names" by (simp add: attr_names_def)
  let ?W = "add_dir ''$Extend'' W"
  define V1 where "V1 = std_only((AT_FILE_NAME, []) \<mapsto> K_name FILE_NAME_WIN32_AND_DOS (ascii ''$Extend''))"
  define V2 where "V2 = V1((AT_INDEX_ROOT, ascii ''$I30'') \<mapsto> K_root (new_root (vp_csize (rc_vol c)) AT_FILE_NAME COLLATION_FILE_NAME 4096))"
  have "at_rec up 11 160 std_only 0 W = W" using start_rec [OF f] by simp
  note s1 = link_after [where V = std_only and u = 160 and n = 0, OF f, unfolded this, folded V1_def, simplified]
  have k: "absent up V1 (AT_INDEX_ROOT, ascii ''$I30'')" by (simp add: V1_def)
  note s2 = view_after [where t = AT_FILE_NAME and rule = COLLATION_FILE_NAME and nl = 4 and u = 272 and n = 0 and W = ?W, OF p _ k i30, of 11, folded V2_def]
  have "run_ok c create_extend (world up R c F W) (world up R c F (at_rec up 11 352 V2 0 ?W))"
    unfolding create_extend_def
    by (rule run_ok_Cons [OF flags_first [OF f]], rule run_ok_Cons [OF s1], rule run_ok_last) (use s2 in simp)
  then show ?thesis
  proof (rule run_ok_weaken)
    fix s
    assume "world up R c F (at_rec up 11 352 V2 0 ?W) s"
    then show "world up R c F (extended up W) s"
      by (rule world_weaken) (auto simp: V2_def intro: new_ext_dir split: if_splits)
  qed
qed

lemma create_reserved_ok:
  fixes c :: "'d root_cfg"
  assumes p: "prepared up R c" and i: "i \<in> {12, 13, 14, 15}" and W: "p_recs W i = (\<lambda>m. holds up i m 136 std_only)"
  shows "run_ok c (create_reserved i) (world up R c F W) (world up R c F (finish i W))"
proof -
  have "at_rec up i 136 std_only 0 W = W" using W by (cases W) (auto simp: at_rec_def)
  then have s1: "run_ok c (add_empty_data i) (world up R c F W) (world up R c F (at_rec up i 160 (std_only((AT_DATA, []) \<mapsto> K_other)) 0 W))"
    using empty_after [where V = std_only and u = 136 and n = 0, OF p, of i F W] i by auto
  have s2: "run_ok c (add_system_sd i) (world up R c F (at_rec up i 160 (std_only((AT_DATA, []) \<mapsto> K_other)) 0 W))
      (world up R c F (at_rec up i 288 (std_only((AT_DATA, []) \<mapsto> K_other, (AT_SECURITY_DESCRIPTOR, []) \<mapsto> K_other)) 0 W))"
    using sd_after [where V = "std_only((AT_DATA, []) \<mapsto> K_other)" and u = 160 and n = 0, OF p, of i F W] i by auto
  have "run_ok c (create_reserved i) (world up R c F W)
      (world up R c F (at_rec up i 288 (std_only((AT_DATA, []) \<mapsto> K_other, (AT_SECURITY_DESCRIPTOR, []) \<mapsto> K_other)) 0 W))"
    unfolding create_reserved_def by (rule run_ok_Cons [OF s1 run_ok_last [OF s2]])
  then show ?thesis
    by (rule run_ok_weaken) (auto elim!: world_weaken split: if_splits)
qed

end
