(* ===== verification/Root_Success.thy ===== *)
theory Root_Success
  imports Root_Rest
begin

text \<open>
  The creation of the system files succeeds: on a volume that was laid out, with memory, a device that takes what it is given and enough
  clusters behind the MFT zone.
\<close>

section \<open>The files of \<^verbatim>\<open>$Extend\<close>\<close>

definition can_extend :: "(ntfschar \<Rightarrow> ntfschar) \<Rightarrow> ('d \<Rightarrow> bool) \<Rightarrow> 'd root_cfg \<Rightarrow> plan \<Rightarrow> nat \<Rightarrow> string \<Rightarrow> string set \<Rightarrow> nat \<Rightarrow> bool" where
  "can_extend up R c W i s E v \<longleftrightarrow> prepared up R c \<and> i \<in> {24, 25, 26} \<and> p_recs W i = (\<lambda>m. holds up i m 160 std_only) \<and> p_recs W 11 = ext_dir up E v \<and>
     s \<in> sys_names \<and> s \<notin> E \<and> E \<subseteq> sys_names \<and> v + 104 \<le> 1024"

definition in_extend :: "(ntfschar \<Rightarrow> ntfschar) \<Rightarrow> string \<Rightarrow> string set \<Rightarrow> nat \<Rightarrow> plan \<Rightarrow> plan" where
  "in_extend up s E v W = W\<lparr>p_recs := (p_recs W)(11 := ext_dir up (insert s E) (v + 104))\<rparr>"

lemma in_extend_simps [simp]:
  "p_recs (in_extend up s E v W) j = (if j = 11 then ext_dir up (insert s E) (v + 104) else p_recs W j)"
  "p_free (in_extend up s E v W) = p_free W" "p_dir (in_extend up s E v W) = p_dir W"
  by (simp_all add: in_extend_def)

abbreviation named :: "string \<Rightarrow> attr_key \<rightharpoonup> kind" where
  "named s \<equiv> std_only((AT_FILE_NAME, []) \<mapsto> K_name FILE_NAME_WIN32_AND_DOS (ascii s))"

lemma extend_start:
  fixes c :: "'d root_cfg"
  assumes f: "can_extend up R c W i s E v"
  shows "run_ok c (all_of [set_flags i fl, link_extend i ref fl2 s]) (world up R c F W) (world up R c F (at_rec up i 272 (named s) 0 (in_extend up s E v W)))"
proof -
  have p: "prepared up R c" "i < 27" "i \<noteq> 11" "p_recs W i = (\<lambda>m. holds up i m 160 std_only)" "p_recs W 11 = ext_dir up E v"
    and s: "s \<in> sys_names" "s \<notin> E" "E \<subseteq> sys_names" "v + 104 \<le> 1024" using f by (auto simp: can_extend_def)
  have "at_step up R c W i 160 std_only" using p by (simp add: at_step_def)
  note s1 = set_flags_step [OF this]
  have a: "new_attr up R c W i 160 std_only AT_FILE_NAME []" using p by (simp add: new_attr_def at_step_def)
  have s2: "run_ok c (link_extend i ref fl2 s) (world up R c F W) (world up R c F (at_rec up i 272 (named s) 0 (in_extend up s E v W)))"
    using link_extend_step [OF a p(5,3) s(1-3) order_refl s(4), of 272] by (simp add: in_extend_def)
  show ?thesis by (rule run_ok_Cons [OF s1 run_ok_last [OF s2]])
qed

lemma extend_view:
  fixes c :: "'d root_cfg"
  assumes f: "can_extend up R c W i s E v" and k: "absent up V (AT_INDEX_ROOT, ascii t)" and t: "t \<in> attr_names" "t \<noteq> []" "length t = 2" and u: "u + 80 \<le> 1024"
  shows "run_ok c (add_view_root i t 2 AT_UNUSED rule) (world up R c F (at_rec up i u V 0 W'))
    (world up R c F (at_rec up i (u + 80) (V((AT_INDEX_ROOT, ascii t) \<mapsto> K_root (new_root (vp_csize (rc_vol c)) AT_UNUSED rule 4096))) 0 W'))"
proof -
  have p: "prepared up R c" "i < 27" using f by (auto simp: can_extend_def)
  have "AT_UNUSED \<noteq> AT_FILE_NAME" by (simp add: attr_types)
  then show ?thesis using view_after [OF p k t(1,2), of 2 AT_UNUSED rule u F 0 W'] t(3) u by simp
qed

lemma create_quota_ok:
  fixes c :: "'d root_cfg"
  assumes f: "can_extend up R c W 24 ''$Quota'' E v" and q: "QUOTA_FIRST_USER_ID (rc_quota c) mod 2 ^ 32 \<noteq> 1"
  shows "run_ok c create_quota (world up R c F W) (world up R c F (finish 24 (in_extend up ''$Quota'' E v W)))"
proof -
  have p: "prepared up R c" using f by (simp add: can_extend_def)
  let ?W = "in_extend up ''$Quota'' E v W" and ?cs = "vp_csize (rc_vol c)"
  define V1 where "V1 = (named ''$Quota'')((AT_INDEX_ROOT, ascii ''$Q'') \<mapsto> K_root (new_root ?cs AT_UNUSED COLLATION_NTOFS_ULONG 4096))"
  define V2 where "V2 = V1((AT_INDEX_ROOT, ascii ''$O'') \<mapsto> K_root (new_root ?cs AT_UNUSED COLLATION_NTOFS_SID 4096))"
  have names: "''$Q'' \<in> attr_names" "''$O'' \<in> attr_names" by (simp_all add: attr_names_def)
  note s1 = extend_start [OF f]
  have s2: "run_ok c (add_view_root 24 ''$Q'' 2 AT_UNUSED COLLATION_NTOFS_ULONG) (world up R c F (at_rec up 24 272 (named ''$Quota'') 0 ?W))
      (world up R c F (at_rec up 24 352 V1 0 ?W))"
    using extend_view [OF f _ names(1), of "named ''$Quota''" 272 COLLATION_NTOFS_ULONG F ?W] by (simp add: V1_def)
  have "\<not> same_key up (AT_INDEX_ROOT, ascii ''$Q'') (AT_INDEX_ROOT, ascii ''$O'')" by (rule names_differ [OF p names]) simp
  then have s3: "run_ok c (add_view_root 24 ''$O'' 2 AT_UNUSED COLLATION_NTOFS_SID) (world up R c F (at_rec up 24 352 V1 0 ?W))
      (world up R c F (at_rec up 24 432 V2 0 ?W))"
    using extend_view [OF f _ names(2), of V1 352 COLLATION_NTOFS_SID F ?W] by (simp add: V1_def V2_def)
  have ne: "ascii ''$Q'' \<noteq> ascii ''$O''" by (simp add: ascii_def)
  have at: "at_step up R c (at_rec up 24 432 V2 0 ?W) 24 432 V2" using p by (simp add: at_step_def)
  have v: "V2 (AT_INDEX_ROOT, ascii ''$Q'') = Some (K_root (new_root ?cs AT_UNUSED COLLATION_NTOFS_ULONG 4096))"
    "V2 (AT_INDEX_ROOT, ascii ''$O'') = Some (K_root (new_root ?cs AT_UNUSED COLLATION_NTOFS_SID 4096))" using ne by (simp_all add: V1_def V2_def)
  have e: "finish 24 (at_rec up 24 432 V2 0 ?W) = finish 24 ?W" by (simp add: finish_def at_rec_def)
  note s4 = quota_step [OF at v _ q, of F, unfolded e]
  have "run_ok c (all_of ([set_flags 24 {MFT_RECORD_IS_4, MFT_RECORD_IS_VIEW_INDEX}, link_extend 24 (mk_mref 24 1) extend_flags ''$Quota''] @
        [add_view_root 24 ''$Q'' 2 AT_UNUSED COLLATION_NTOFS_ULONG, add_view_root 24 ''$O'' 2 AT_UNUSED COLLATION_NTOFS_SID,
        on_view 24 (\<lambda>c s env m. initialize_quota env (rc_quota c) (rc_sdc c) (vp_mft_record_size (rc_vol c)) (rc_now c (rs_clock s)) m)]))
      (world up R c F W) (world up R c F (finish 24 ?W))"
    by (intro run_ok_append [OF s1] run_ok_Cons [OF s2] run_ok_Cons [OF s3] run_ok_last [OF s4]) simp
  then show ?thesis by (simp only: create_quota_def append_Cons append_Nil)
qed

lemma create_objid_ok:
  fixes c :: "'d root_cfg"
  assumes f: "can_extend up R c W 25 ''$ObjId'' E v" and q: "length (rc_oi c (mk_mref 3 3)) = 56"
  shows "run_ok c (create_objid guid) (world up R c F W) (world up R c F (finish 25 (in_extend up ''$ObjId'' E v W)))"
proof -
  have p: "prepared up R c" using f by (simp add: can_extend_def)
  let ?W = "in_extend up ''$ObjId'' E v W" and ?r = "new_root (vp_csize (rc_vol c)) AT_UNUSED COLLATION_NTOFS_ULONGS 4096"
  define V1 where "V1 = (named ''$ObjId'')((AT_INDEX_ROOT, ascii ''$O'') \<mapsto> K_root ?r)"
  have o: "''$O'' \<in> attr_names" by (simp add: attr_names_def)
  note s1 = extend_start [OF f]
  have s2: "run_ok c (add_view_root 25 ''$O'' 2 AT_UNUSED COLLATION_NTOFS_ULONGS) (world up R c F (at_rec up 25 272 (named ''$ObjId'') 0 ?W))
      (world up R c F (at_rec up 25 352 V1 0 ?W))"
    using extend_view [OF f _ o, of "named ''$ObjId''" 272 COLLATION_NTOFS_ULONGS F ?W] by (simp add: V1_def)
  have at: "at_step up R c (at_rec up 25 352 V1 0 ?W) 25 352 V1" using p by (simp add: at_step_def)
  have v: "V1 (AT_INDEX_ROOT, ascii ''$O'') = Some (K_root ?r)" by (simp add: V1_def)
  have e: "finish 25 (at_rec up 25 352 V1 0 ?W) = finish 25 ?W" by (simp add: finish_def at_rec_def)
  have "run_ok c (on_view 25 (\<lambda>c s env m. index_obj_id_insert env (vp_mft_record_size (rc_vol c)) (rc_oi c) guid (mk_mref 3 3) m))
      (world up R c F (at_rec up 25 352 V1 0 ?W)) (world up R c F (finish 25 ?W))"
    using object_index_step [where F = F and guid = guid, OF at v _ q, unfolded e] by simp
  moreover have "world up R c F (finish 25 ?W) s" if "world up R c F (at_rec up 25 352 V1 0 ?W) s" for s using world_finish [OF that, of 25] by (simp add: e)
  ultimately have s3: "run_ok c (\<lambda>c s. if with_uuid (rc_opts c)
        then on_view 25 (\<lambda>c s env m. index_obj_id_insert env (vp_mft_record_size (rc_vol c)) (rc_oi c) guid (mk_mref 3 3) m) c s
        else Ret (None, s)) (world up R c F (at_rec up 25 352 V1 0 ?W)) (world up R c F (finish 25 ?W))" by (auto simp: run_ok_def)
  have "run_ok c (all_of ([set_flags 25 {MFT_RECORD_IS_4, MFT_RECORD_IS_VIEW_INDEX}, link_extend 25 (mk_mref 25 1) extend_flags ''$ObjId''] @
        [add_view_root 25 ''$O'' 2 AT_UNUSED COLLATION_NTOFS_ULONGS, \<lambda>c s. if with_uuid (rc_opts c)
        then on_view 25 (\<lambda>c s env m. index_obj_id_insert env (vp_mft_record_size (rc_vol c)) (rc_oi c) guid (mk_mref 3 3) m) c s
        else Ret (None, s)])) (world up R c F W) (world up R c F (finish 25 ?W))"
    by (intro run_ok_append [OF s1] run_ok_Cons [OF s2] run_ok_last [OF s3])
  then show ?thesis by (simp only: create_objid_def append_Cons append_Nil)
qed

lemma create_reparse_ok:
  fixes c :: "'d root_cfg"
  assumes f: "can_extend up R c W 26 ''$Reparse'' E v"
  shows "run_ok c create_reparse (world up R c F W) (world up R c F (finish 26 (in_extend up ''$Reparse'' E v W)))"
proof -
  let ?W = "in_extend up ''$Reparse'' E v W" and ?r = "new_root (vp_csize (rc_vol c)) AT_UNUSED COLLATION_NTOFS_ULONGS 4096"
  have "''$R'' \<in> attr_names" by (simp add: attr_names_def)
  then have s2: "run_ok c (add_view_root 26 ''$R'' 2 AT_UNUSED COLLATION_NTOFS_ULONGS) (world up R c F (at_rec up 26 272 (named ''$Reparse'') 0 ?W))
      (world up R c F (at_rec up 26 352 ((named ''$Reparse'')((AT_INDEX_ROOT, ascii ''$R'') \<mapsto> K_root ?r)) 0 ?W))"
    using extend_view [OF f, of "named ''$Reparse''" "''$R''" 272 COLLATION_NTOFS_ULONGS F ?W] by simp
  have e: "finish 26 (at_rec up 26 x y 0 ?W) = finish 26 ?W" for x y by (simp add: finish_def at_rec_def)
  have "run_ok c (all_of ([set_flags 26 {MFT_RECORD_IS_4, MFT_RECORD_IS_VIEW_INDEX}, link_extend 26 (mk_mref 26 1) extend_flags ''$Reparse''] @
        [add_view_root 26 ''$R'' 2 AT_UNUSED COLLATION_NTOFS_ULONGS])) (world up R c F W) (world up R c F (finish 26 ?W))"
    by (rule run_ok_append [OF extend_start [OF f] run_ok_last]) (rule finish_step [OF s2, of 26, unfolded e])
  then show ?thesis by (simp only: create_reparse_def append_Cons append_Nil)
qed


section \<open>The root directory\<close>

definition dir_clusters :: "'d root_cfg \<Rightarrow> nat" where
  "dir_clusters c = root_sd_clusters c + clusters_for (csize c) 4096"

definition rooted :: "'d root_cfg \<Rightarrow> plan \<Rightarrow> plan" where
  "rooted c W = finish 5 (W\<lparr>p_free := p_free W - dir_clusters c, p_dir := Some ({''.''}, 160)\<rparr>)"

lemma rooted_simps [simp]:
  "p_recs (rooted c W) j = (if j = 5 then (\<lambda>_. True) else p_recs W j)" "p_free (rooted c W) = p_free W - dir_clusters c" "p_dir (rooted c W) = Some ({''.''}, 160)"
  by (simp_all add: rooted_def)

lemma create_root_dir_ok:
  fixes c :: "'d root_cfg"
  assumes p: "prepared up R c" and W: "p_recs W 5 = (\<lambda>m. holds up 5 m 136 std_only \<and> m_link_count m = 0)" and n: "dir_clusters c \<le> p_free W"
    and c: "resizing c" and blk: "\<forall>h. \<exists>b. rc_blk c h = Some b \<and> length b = 4096"
  shows "run_ok c create_root_dir (world up R c F W) (world up R c F (rooted c W))"
proof -
  let ?k = "root_sd_clusters c" and ?b = "clusters_for (csize c) 4096" and ?r = "new_root (vp_csize (rc_vol c)) AT_FILE_NAME COLLATION_FILE_NAME 4096"
  have k: "?k \<le> p_free W" "?b \<le> p_free W - ?k" using n by (simp_all add: dir_clusters_def)
  have i30: "''$I30'' \<in> attr_names" by (simp add: attr_names_def)
  define V2 where "V2 = (named ''.'')((AT_SECURITY_DESCRIPTOR, []) \<mapsto> K_other)"
  define V3 where "V3 = V2((AT_INDEX_ROOT, ascii ''$I30'') \<mapsto> K_root ?r)"
  define V4 where "V4 = V3((AT_BITMAP, ascii ''$I30'') \<mapsto> K_other, (AT_INDEX_ROOT, ascii ''$I30'') \<mapsto> K_root (large_root ?r), (AT_INDEX_ALLOCATION, ascii ''$I30'') \<mapsto> K_other)"
  let ?W = "W\<lparr>p_dir := Some ({}, 56)\<rparr>"
  note s1 = start_dir [OF W]
  have std: "std_only (AT_STANDARD_INFORMATION, []) = Some K_std" by (simp add: std_only_def)
  have a2: "new_attr up R c (at_rec up 5 136 std_only 0 W) 5 136 std_only AT_FILE_NAME []" using p by (intro new_attr_at) simp_all
  note s2 = dot_name_step [OF a2 std, of 248, simplified]
  have a3: "new_attr up R c (at_rec up 5 248 (named ''.'') 0 W) 5 248 (named ''.'') AT_SECURITY_DESCRIPTOR []" using p by (intro new_attr_at) simp_all
  have s3: "run_ok c add_root_sd (world up R c F (at_rec up 5 248 (named ''.'') 0 W)) (world up R c F (at_rec up 5 384 V2 ?k W))"
    using root_sd_step [OF a3, of 384 F] k(1) by (simp add: V2_def)
  have s4: "run_ok c (add_view_root 5 ''$I30'' 4 AT_FILE_NAME COLLATION_FILE_NAME) (world up R c F (at_rec up 5 384 V2 ?k W)) (world up R c F (at_rec up 5 464 V3 ?k W))"
    using view_after [where V = V2 and u = 384 and nl = 4, OF p _ _ i30, of 5 AT_FILE_NAME COLLATION_FILE_NAME F ?k W] by (simp add: V2_def V3_def)
  have at: "at_step up R c (at_rec up 5 464 V3 ?k W) 5 464 V3" using p by (simp add: at_step_def)
  have ab: "absent up V3 (AT_BITMAP, ascii ''$I30'')" "absent up V3 (AT_INDEX_ALLOCATION, ascii ''$I30'')" by (simp_all add: V2_def V3_def)
  have "V3 (AT_INDEX_ROOT, ascii ''$I30'') = Some (K_root ?r)" by (simp add: V3_def)
  from upgrade_step [OF at this ab c blk, of 648 F] k(2)
  have s5: "run_ok c upgrade_root (world up R c F (at_rec up 5 464 V3 ?k W)) (world up R c F (at_rec up 5 648 V4 (dir_clusters c) ?W))"
    by (simp add: V4_def at_rec_def dir_clusters_def)
  have at6: "at_step up R c (at_rec up 5 648 V4 (dir_clusters c) ?W) 5 648 V4" using p by (simp add: at_step_def)
  have "V4 (AT_FILE_NAME, []) = Some (K_name FILE_NAME_WIN32_AND_DOS (ascii ''.''))" by (simp add: V2_def V3_def V4_def)
  note s6 = enter_root_step [OF at6 this, of "{}" 56 F]
  have "run_ok c create_root_dir (world up R c F W) (world up R c F ((at_rec up 5 648 V4 (dir_clusters c) ?W)\<lparr>p_dir := Some ({''.''}, 160)\<rparr>))"
  proof -
    have split: "create_root_dir = all_of ([set_flags 5 {MFT_RECORD_IS_DIRECTORY}, count_link 5] @
       [on_record 5 (\<lambda>c s env m mk. add_attr_file_name env (rc_mb c) root_ref 0 0 (sys_flags \<union> {FILE_ATTR_I30_INDEX_PRESENT}) 0 0 ''.''
          FILE_NAME_WIN32_AND_DOS m mk),
        add_root_sd, add_view_root 5 ''$I30'' 4 AT_FILE_NAME COLLATION_FILE_NAME, upgrade_root, enter_root_name])"
      by (simp only: create_root_dir_def append_Cons append_Nil)
    show ?thesis
      unfolding split
      by (intro run_ok_append [OF s1] run_ok_Cons [OF s2] run_ok_Cons [OF s3] run_ok_Cons [OF s4] run_ok_Cons [OF s5] run_ok_last) (use s6 in simp)
  qed
  then show ?thesis by (rule run_ok_weaken) (auto simp: rooted_def finish_def elim!: world_weaken split: if_splits)
qed


section \<open>All of them\<close>

text \<open>The clusters that the files take besides their places.\<close>

definition clusters_needed :: "'d root_cfg \<Rightarrow> fmt \<Rightarrow> nat" where
  "clusters_needed c F = dir_clusters c + attrdef_clusters c + bitmap_clusters c F + sds_clusters c + upcase_clusters c"

definition informed_plan :: "(ntfschar \<Rightarrow> ntfschar) \<Rightarrow> nat \<Rightarrow> plan" where
  "informed_plan up n =
     \<lparr>p_recs = (\<lambda>i. if i = 5 then (\<lambda>m. holds up 5 m 136 std_only \<and> m_link_count m = 0)
         else if used_system_file i then (\<lambda>m. holds up i m (info_size i) std_only) else (\<lambda>_. True)),
      p_free = n, p_dir = None\<rparr>"

lemma informed_plan_simps [simp]:
  "p_recs (informed_plan up n) 5 = (\<lambda>m. holds up 5 m 136 std_only \<and> m_link_count m = 0)"
  "i \<noteq> 5 \<Longrightarrow> used_system_file i \<Longrightarrow> p_recs (informed_plan up n) i = (\<lambda>m. holds up i m (info_size i) std_only)"
  "p_free (informed_plan up n) = n" "p_dir (informed_plan up n) = None"
  by (simp_all add: informed_plan_def)

lemma informed_world: "world up R c F (info_plan up n 27) s \<Longrightarrow> world up R c F (informed_plan up n) s"
  by (erule world_weaken) (auto simp: info_plan_def informed_plan_def informed_def used_system_file_def split: if_splits)

text \<open>What the files need of the library and the volume, besides what every step needs: the sizes of structures, and the boot sector.\<close>

definition well_supplied :: "'d root_cfg \<Rightarrow> fmt \<Rightarrow> bool" where
  "well_supplied c F \<longleftrightarrow> (\<forall>ms. length (rc_bytes c ms) = 1024 * length ms) \<and> (\<forall>h. \<exists>b. rc_blk c h = Some b \<and> length b = 4096) \<and> resizing c \<and>
     (\<exists>bs. the_boot c F = Some bs \<and> length bs = 8192 \<and> rc_is_ntfs c bs) \<and>
     0 < sector_size (rc_opts c) \<and> 512 \<le> num_sectors (rc_opts c) * sector_size (rc_opts c) \<and>
     length (rc_guid c) = 16 \<and> length (rc_vi c False 3 1) = 12 \<and> length (rc_oi c (mk_mref 3 3)) = 56 \<and>
     (\<forall>s. rc_vol_name c = Some s \<longrightarrow> (\<exists>u. rc_mb c s = Some u \<and> length u \<le> 128)) \<and>
     256 < length (rc_upcase c) \<and> length (rc_upcaseinfo c) \<le> 32 \<and> QUOTA_FIRST_USER_ID (rc_quota c) mod 2 ^ 32 \<noteq> 1"

lemma first_half_ok:
  fixes c :: "'d root_cfg"
  assumes p: "prepared up R c" and d: "device_ready R c" and F: "places_ready c F" and w: "well_supplied c F"
  shows "\<exists>W. run_ok c (all_of [create_root_dir, create_mft, create_mftmirr, create_logfile, create_attrdef, create_bitmap, create_boot_and_volume])
      (world up R c F (informed_plan up (clusters_needed c F))) (world up R c F W) \<and> p_free W = sds_clusters c + upcase_clusters c \<and>
    p_dir W = Some ({''.'', ''$MFT'', ''$MFTMirr'', ''$LogFile'', ''$AttrDef'', ''$Bitmap'', ''$Boot'', ''$Volume''}, 888) \<and>
    (\<forall>i. 7 < i \<and> used_system_file i \<longrightarrow> p_recs W i = (\<lambda>m. holds up i m (info_size i) std_only))"
proof -
  define W0 where "W0 = informed_plan up (clusters_needed c F)"
  define W1 where "W1 = rooted c W0"
  define W2 where "W2 = filed 0 ''$MFT'' 0 W1"
  define W3 where "W3 = filed 1 ''$MFTMirr'' 0 W2"
  define W4 where "W4 = filed 2 ''$LogFile'' 0 W3"
  define W5 where "W5 = filed 4 ''$AttrDef'' (attrdef_clusters c) W4"
  define W6 where "W6 = filed 6 ''$Bitmap'' (bitmap_clusters c F) W5"
  define W7 where "W7 = filed 7 ''$Boot'' 0 W6"
  define W8 where "W8 = filed 3 ''$Volume'' 0 W7"
  note defs = W0_def W1_def W2_def W3_def W4_def W5_def W6_def W7_def W8_def
  note can = can_file_def defs sys_names_def p used_system_file_def clusters_needed_def
  have b: "\<forall>ms. length (rc_bytes c ms) = 1024 * length ms" "resizing c" "\<forall>h. \<exists>b. rc_blk c h = Some b \<and> length b = 4096"
    and ss: "0 < sector_size (rc_opts c)" "512 \<le> num_sectors (rc_opts c) * sector_size (rc_opts c)" and vi: "length (rc_vi c False 3 1) = 12"
    and nm: "\<forall>s. rc_vol_name c = Some s \<longrightarrow> (\<exists>u. rc_mb c s = Some u \<and> length u \<le> 128)"
    using w by (simp_all add: well_supplied_def)
  obtain bs where bs: "the_boot c F = Some bs" "length bs = 8192" "rc_is_ntfs c bs" using w by (auto simp: well_supplied_def)
  have g: "length (volume_guid c) = 16" using w by (simp add: volume_guid_def well_supplied_def)
  have s1: "run_ok c create_root_dir (world up R c F W0) (world up R c F W1)"
    unfolding W1_def using b by (intro create_root_dir_ok p) (simp_all add: W0_def clusters_needed_def)
  have s2: "run_ok c create_mft (world up R c F W1) (world up R c F W2)" unfolding W2_def by (intro create_mft_ok F b(1)) (simp add: can)
  have s3: "run_ok c create_mftmirr (world up R c F W2) (world up R c F W3)" unfolding W3_def by (intro create_mftmirr_ok F b(1)) (simp add: can)
  have s4: "run_ok c create_logfile (world up R c F W3) (world up R c F W4)" unfolding W4_def by (intro create_logfile_ok F) (simp add: can)
  have s5: "run_ok c create_attrdef (world up R c F W4) (world up R c F W5)" unfolding W5_def by (intro create_attrdef_ok) (simp add: can)
  have s6: "run_ok c create_bitmap (world up R c F W5) (world up R c F W6)" unfolding W6_def by (intro create_bitmap_ok F) (simp add: can)
  have c7: "can_file up R c W6 7 ''$Boot'' 0" "can_file up R c (filed 7 ''$Boot'' 0 W6) 3 ''$Volume'' 0" by (simp_all add: can)
  have s7: "run_ok c create_boot_and_volume (world up R c F W6) (world up R c F W8)"
    unfolding W8_def W7_def by (rule boot_and_volume_ok [OF c7 F bs d ss g vi nm])
  have "run_ok c (all_of [create_root_dir, create_mft, create_mftmirr, create_logfile, create_attrdef, create_bitmap, create_boot_and_volume])
      (world up R c F W0) (world up R c F W8)"
    by (intro run_ok_Cons [OF s1] run_ok_Cons [OF s2] run_ok_Cons [OF s3] run_ok_Cons [OF s4] run_ok_Cons [OF s5] run_ok_Cons [OF s6] run_ok_last [OF s7])
  then show ?thesis by (intro exI [of _ W8]) (auto simp: defs clusters_needed_def)
qed


lemma second_half_ok:
  fixes c :: "'d root_cfg"
  assumes p: "prepared up R c" and F: "places_ready c F" and w: "well_supplied c F" and n: "p_free W = sds_clusters c + upcase_clusters c"
    and dir: "p_dir W = Some ({''.'', ''$MFT'', ''$MFTMirr'', ''$LogFile'', ''$AttrDef'', ''$Bitmap'', ''$Boot'', ''$Volume''}, 888)"
    and W: "\<And>i. 7 < i \<Longrightarrow> used_system_file i \<Longrightarrow> p_recs W i = (\<lambda>m. holds up i m (info_size i) std_only)"
  shows "\<exists>W'. run_ok c (all_of ([create_badclus, create_secure, create_upcase, create_extend] @ [create_reserved i. i \<leftarrow> [0xc..<0x10]] @
      [create_quota, create_objid (volume_guid c), create_reparse])) (world up R c F W) (world up R c F W')"
proof -
  define W1 where "W1 = filed 8 ''$BadClus'' 0 W"
  define W2 where "W2 = filed 9 ''$Secure'' (sds_clusters c) W1"
  define W3 where "W3 = filed 10 ''$UpCase'' (upcase_clusters c) W2"
  define W4 where "W4 = extended up W3"
  define W5 where "W5 = finish 12 W4"
  define W6 where "W6 = finish 13 W5"
  define W7 where "W7 = finish 14 W6"
  define W8 where "W8 = finish 15 W7"
  define W9 where "W9 = finish 24 (in_extend up ''$Quota'' {} 352 W8)"
  define W10 where "W10 = finish 25 (in_extend up ''$ObjId'' {''$Quota''} 456 W9)"
  define W11 where "W11 = finish 26 (in_extend up ''$Reparse'' {''$ObjId'', ''$Quota''} 560 W10)"
  note defs = W1_def W2_def W3_def W4_def W5_def W6_def W7_def W8_def W9_def W10_def W11_def
  note can = can_file_def defs sys_names_def p n dir W used_system_file_def
  have q: "256 < length (rc_upcase c)" "length (rc_upcaseinfo c) \<le> 32" "QUOTA_FIRST_USER_ID (rc_quota c) mod 2 ^ 32 \<noteq> 1" "length (rc_oi c (mk_mref 3 3)) = 56"
    using w by (simp_all add: well_supplied_def)
  have s1: "run_ok c create_badclus (world up R c F W) (world up R c F W1)" unfolding W1_def by (intro create_badclus_ok F) (simp add: can)
  have s2: "run_ok c create_secure (world up R c F W1) (world up R c F W2)" unfolding W2_def by (intro create_secure_ok) (simp add: can)
  have s3: "run_ok c create_upcase (world up R c F W2) (world up R c F W3)" unfolding W3_def by (intro create_upcase_ok q) (simp add: can)
  have s4: "run_ok c create_extend (world up R c F W3) (world up R c F W4)" unfolding W4_def by (intro create_extend_ok) (simp add: can)
  have r: "run_ok c (create_reserved 12) (world up R c F W4) (world up R c F W5)" "run_ok c (create_reserved 13) (world up R c F W5) (world up R c F W6)"
    "run_ok c (create_reserved 14) (world up R c F W6) (world up R c F W7)" "run_ok c (create_reserved 15) (world up R c F W7) (world up R c F W8)"
    unfolding W5_def W6_def W7_def W8_def by (intro create_reserved_ok p; simp add: can)+
  note ext = can_extend_def defs sys_names_def p W used_system_file_def
  have s9: "run_ok c create_quota (world up R c F W8) (world up R c F W9)" unfolding W9_def by (intro create_quota_ok q) (simp add: ext)
  have s10: "run_ok c (create_objid (volume_guid c)) (world up R c F W9) (world up R c F W10)" unfolding W10_def by (intro create_objid_ok q) (simp add: ext)
  have s11: "run_ok c create_reparse (world up R c F W10) (world up R c F W11)" unfolding W11_def by (intro create_reparse_ok) (simp add: ext insert_commute)
  have e: "[create_reserved i. i \<leftarrow> [0xc..<0x10]] = [create_reserved 12, create_reserved 13, create_reserved 14, create_reserved 15]"
    by (simp add: upt_rec)
  show ?thesis
    unfolding e append_Cons append_Nil
    by (intro exI [of _ W11] run_ok_Cons [OF s1] run_ok_Cons [OF s2] run_ok_Cons [OF s3] run_ok_Cons [OF s4] run_ok_Cons [OF r(1)] run_ok_Cons [OF r(2)]
        run_ok_Cons [OF r(3)] run_ok_Cons [OF r(4)] run_ok_Cons [OF s9] run_ok_Cons [OF s10] run_ok_last [OF s11])
qed

lemma create_files_ok:
  fixes c :: "'d root_cfg"
  assumes p: "prepared up R c" and d: "device_ready R c" and F: "places_ready c F" and w: "well_supplied c F"
    and s: "world up R c F (info_plan up (clusters_needed c F) 0) s"
  shows "\<exists>s'. create_files c s = Ret (None, s')"
proof -
  have s0: "run_ok c (all_of [system_file_info i. i \<leftarrow> [0..<nr_sysfiles]]) (world up R c F (info_plan up (clusters_needed c F) 0))
      (world up R c F (informed_plan up (clusters_needed c F)))"
    by (rule run_ok_weaken [OF info_loop [OF p]]) (auto simp: nr_sysfiles_def intro: informed_world)
  from first_half_ok [OF p d F w] obtain W where
    s1: "run_ok c (all_of [create_root_dir, create_mft, create_mftmirr, create_logfile, create_attrdef, create_bitmap, create_boot_and_volume])
      (world up R c F (informed_plan up (clusters_needed c F))) (world up R c F W)" and W: "p_free W = sds_clusters c + upcase_clusters c"
      "p_dir W = Some ({''.'', ''$MFT'', ''$MFTMirr'', ''$LogFile'', ''$AttrDef'', ''$Bitmap'', ''$Boot'', ''$Volume''}, 888)"
      "\<And>i. 7 < i \<Longrightarrow> used_system_file i \<Longrightarrow> p_recs W i = (\<lambda>m. holds up i m (info_size i) std_only)" by blast
  from second_half_ok [OF p F w W] obtain W' where
    s2: "run_ok c (all_of ([create_badclus, create_secure, create_upcase, create_extend] @ [create_reserved i. i \<leftarrow> [0xc..<0x10]] @
      [create_quota, create_objid (volume_guid c), create_reparse])) (world up R c F W) (world up R c F W')" by blast
  have e: "create_files c = all_of ([system_file_info i. i \<leftarrow> [0..<nr_sysfiles]] @
      [create_root_dir, create_mft, create_mftmirr, create_logfile, create_attrdef, create_bitmap, create_boot_and_volume] @
      [create_badclus, create_secure, create_upcase, create_extend] @ [create_reserved i. i \<leftarrow> [0xc..<0x10]] @
      [create_quota, create_objid (volume_guid c), create_reparse]) c"
    by (simp only: create_files_def append_Cons append_Nil)
  from run_ok_append [OF s0 run_ok_append [OF s1 s2]] s show ?thesis unfolding e run_ok_def by blast
qed

end
