(* ===== verification/Crc64.thy ===== *)
theory Crc64
  imports Prelude
begin

text \<open>
  The checksum of the upper-case table (\<^verbatim>\<open>crc64\<close> of \<^verbatim>\<open>mkntfs.c\<close>). The function keeps a static table: a
  call without data fills it, a call with data uses it byte by byte. Here the table is an argument
  and a result. The reference is the bit-serial division by the polynomial.
\<close>

section \<open>The table-driven checksum\<close>

definition polynomial :: "64 word" where
  "polynomial = 0x9a6c9329ac4bc9b5"

definition xorout :: "64 word" where
  "xorout = 0xffffffffffffffff"

text \<open>The body of the inner loop over \<^verbatim>\<open>j\<close>.\<close>

definition crc_shift :: "64 word \<Rightarrow> 64 word" where
  "crc_shift c = (if c AND 1 \<noteq> 0 then polynomial XOR drop_bit 1 c else drop_bit 1 c)"

definition crc_entry :: "nat \<Rightarrow> 64 word" where
  "crc_entry i = (crc_shift ^^ 8) (word_of_nat i)"

definition crc_table :: "64 word list" where
  "crc_table = map crc_entry [0..<256]"

definition crc_byte :: "64 word list \<Rightarrow> 64 word \<Rightarrow> byte \<Rightarrow> 64 word" where
  "crc_byte table crc b = table ! unat ((crc XOR ucast b) AND 0xff) XOR drop_bit 8 crc"

definition crc64 :: "64 word list \<Rightarrow> 64 word \<Rightarrow> byte list option \<Rightarrow> 64 word \<times> 64 word list" where
  "crc64 table crc data =
     (let crc = crc XOR xorout in
      case data of
        None \<Rightarrow> (crc XOR xorout, crc_table)
      | Some bs \<Rightarrow> (foldl (crc_byte table) crc bs XOR xorout, table))"

section \<open>The bit-serial reference\<close>

definition crc_ref_byte :: "64 word \<Rightarrow> byte \<Rightarrow> 64 word" where
  "crc_ref_byte crc b = (crc_shift ^^ 8) (crc XOR ucast b)"

definition crc_ref :: "64 word \<Rightarrow> byte list \<Rightarrow> 64 word" where
  "crc_ref crc bs = foldl crc_ref_byte (crc XOR xorout) bs XOR xorout"

section \<open>Equivalence\<close>

lemma and_one_bit: "(c :: 64 word) AND 1 \<noteq> 0 \<longleftrightarrow> bit c 0"
  by (simp add: and_one_eq bit_0 odd_iff_mod_2_eq_one)

lemma crc_shift_bit: "crc_shift c = (if bit c 0 then polynomial XOR drop_bit 1 c else drop_bit 1 c)"
  by (simp add: crc_shift_def and_one_bit)

lemma crc_shift_xor: "crc_shift (a XOR b) = crc_shift a XOR crc_shift b"
proof -
  have "polynomial XOR x XOR (polynomial XOR y) = x XOR y" for x y
    by (rule bit_word_eqI) (auto simp: bit_xor_iff)
  then show ?thesis
    by (auto simp: crc_shift_bit bit_xor_iff drop_bit_xor xor.assoc xor.left_commute)
qed

lemma crc_shifts_xor: "(crc_shift ^^ n) (a XOR b) = (crc_shift ^^ n) a XOR (crc_shift ^^ n) b"
  by (induction n) (simp_all add: crc_shift_xor)

text \<open>While the low bits are clear, a step only shifts.\<close>

lemma crc_shifts_clear:
  "(\<forall>i < n. \<not> bit c i) \<Longrightarrow> (crc_shift ^^ n) c = drop_bit n c"
proof (induction n arbitrary: c)
  case (Suc n)
  have "(crc_shift ^^ n) c = drop_bit n c" using Suc by simp
  moreover have "\<not> bit (drop_bit n c) 0" using Suc.prems by (simp add: bit_drop_bit_eq)
  ultimately show ?case using crc_shift_bit [of "drop_bit n c"] by simp
qed simp

lemma mask_8_bit: "bit (0xff :: 64 word) i \<longleftrightarrow> i < 8"
proof -
  have m: "(mask 8 :: 64 word) = 0xff" by (simp add: mask_eq_exp_minus_1)
  have "bit (mask 8 :: 64 word) i \<longleftrightarrow> i < 64 \<and> i < 8" by (simp only: bit_mask_iff) simp
  then show ?thesis unfolding m by auto
qed

text \<open>The part of a word above its low byte.\<close>

definition high :: "64 word \<Rightarrow> 64 word" where
  "high c = c AND NOT 0xff"

lemma bit_high: "bit (high c) i \<longleftrightarrow> bit c i \<and> 8 \<le> i"
  unfolding high_def bit_and_iff bit_not_iff mask_8_bit by (auto dest: bit_imp_le_length)

lemma split_low_byte: "(c AND 0xff) XOR high c = c"
  by (rule bit_word_eqI) (simp only: bit_xor_iff bit_and_iff bit_high mask_8_bit, auto)

lemma crc_table_nth: "i < 256 \<Longrightarrow> crc_table ! i = crc_entry i"
  by (simp add: crc_table_def)

lemma crc_byte_ref: "crc_byte crc_table crc b = crc_ref_byte crc b"
proof -
  define c where "c = crc XOR ucast b"
  have lt: "unat (c AND 0xff) < 256"
  proof -
    have "unat (c AND 0xff) \<le> unat (0xff :: 64 word)" using word_and_le1 [of c "0xff"] word_le_nat_alt by blast
    then show ?thesis by simp
  qed
  then have "crc_table ! unat (c AND 0xff) = (crc_shift ^^ 8) (c AND 0xff)"
    by (simp add: crc_table_nth crc_entry_def)
  moreover have "(crc_shift ^^ 8) (high c) = drop_bit 8 (high c)"
    by (rule crc_shifts_clear) (simp add: bit_high)
  moreover have "drop_bit 8 (high c) = drop_bit 8 crc"
    by (rule bit_word_eqI) (auto simp: c_def bit_drop_bit_eq bit_high bit_xor_iff bit_unsigned_iff
        dest: bit_imp_le_length)
  moreover have "(crc_shift ^^ 8) c = (crc_shift ^^ 8) (c AND 0xff) XOR (crc_shift ^^ 8) (high c)"
    using crc_shifts_xor [of 8 "c AND 0xff" "high c"] unfolding split_low_byte .
  ultimately show ?thesis by (simp add: crc_ref_byte_def crc_byte_def c_def)
qed

text \<open>
  C35: the table-driven checksum is the bit-serial one. After the call that fills the table, the
  checksum of any data from any start value is the remainder computed bit by bit, and checking data
  in two pieces gives the checksum of the whole.
\<close>

theorem crc64_equivalent:
  "crc64 (snd (crc64 table0 0 None)) crc (Some bs) = (crc_ref crc bs, crc_table) \<and>
   crc_ref (crc_ref crc xs) ys = crc_ref crc (xs @ ys)"
proof -
  have "crc_byte crc_table = crc_ref_byte" by (intro ext crc_byte_ref)
  then show ?thesis by (simp add: crc64_def crc_ref_def Let_def xor.assoc)
qed

end
