(* ===== verification/Mkntfs_Main.thy ===== *)
theory Mkntfs_Main
  imports Root_Files Crc64
begin

text \<open>
  The run of the formatter (\<^verbatim>\<open>mkntfs.c\<close>): \<^verbatim>\<open>mkntfs_time\<close>, the final writes of the index block, the bitmap, the MFT and its mirror,
  \<^verbatim>\<open>mkntfs_redirect\<close> and \<^verbatim>\<open>nk_mkntfs_main\<close>.

  What the run holds is a set of resources; the clean-up at its end releases them. The transfer of a protected record to the
  device and the update sequence number it changes are the library's, so they are arguments.
\<close>

section \<open>Time and the information on the upper-case table\<close>

text \<open>
  \<open>tod\<close> is what \<^verbatim>\<open>gettimeofday\<close> gives (\<open>None\<close>: it fails), \<open>clock\<close> the result of \<^verbatim>\<open>time\<close>, and \<open>to_ntfs\<close> the library's conversion of seconds and
  nanoseconds.
\<close>

definition mkntfs_time :: "(int \<times> int \<Rightarrow> int) \<Rightarrow> (int \<times> int) option \<Rightarrow> int \<Rightarrow> mkntfs_options \<Rightarrow> int" where
  "mkntfs_time to_ntfs tod clock opts =
     to_ntfs (if use_epoch_time opts then (0, 0) else case tod of Some (sec, usec) \<Rightarrow> (sec, usec * 1000) | None \<Rightarrow> (clock, 0))"

text \<open>\<^verbatim>\<open>struct UPCASEINFO\<close>: its length, the checksum of the table, and zero in the other fields.\<close>

definition upcase_info :: "64 word list \<Rightarrow> ntfschar list \<Rightarrow> byte list" where
  "upcase_info table up =
     (let table' = snd (crc64 table 0 None); crc = fst (crc64 table' 0 (Some (ucs_bytes up)))
      in le_bytes 4 32 @ le_bytes 4 0 @ le_bytes 8 (unat crc) @ replicate 16 0)"

section \<open>The last writes\<close>

text \<open>\<open>decompress\<close> reads the runlist of a non-resident attribute, \<open>blk\<close> protects the block for the device.\<close>

definition mkntfs_sync_index_record ::
  "'d mkenv \<Rightarrow> (attr_record \<Rightarrow> runlist option) \<Rightarrow> (index_header \<Rightarrow> byte list option) \<Rightarrow> index_header \<Rightarrow> mft_record \<Rightarrow> ntfschar list \<Rightarrow>
   'd mkst \<Rightarrow> (bool \<times> 'd mkst) run" where
  "mkntfs_sync_index_record env decompress blk idx m name st =
     (if \<not> me_mem env then Ret (False, st)
      else
        (case mkntfs_attr_lookup (me_ops env) False m AT_INDEX_ALLOCATION (Named name) False None fresh_ctx of
           Found k \<Rightarrow>
             (case decompress (m_attrs m ! k) of
                None \<Rightarrow> Ret (False, st)
              | Some rl \<Rightarrow>
                  (case a_form (m_attrs m ! k) of
                     Resident _ _ _ _ \<Rightarrow> Undef
                   | Non_resident r \<Rightarrow>
                       if nr_initialized_size r < 10 then Ret (False, st)
                       else
                         let i = 24 + int (ih_allocated_size idx) in
                         (case blk idx of
                            None \<Rightarrow> Ret (False, st)
                          | Some bytes \<Rightarrow>
                              (case ntfs_rlwrite (me_wr env) (me_sk env) (me_no_act env) (me_mem env) (me_cs env) WRITE_STANDARD
                                      (g_allocation (ms_fmt st)) (me_dynbuf env) rl bytes i (ms_dev st) of
                                 None \<Rightarrow> Hang
                               | Some (lw, _, d) \<Rightarrow> Ret (lw = i, st\<lparr>ms_dev := d\<rparr>)))))
         | Undefined \<Rightarrow> Undef
         | _ \<Rightarrow> Ret (False, st)))"

definition sync_bitmap :: "'d mkenv \<Rightarrow> (attr_record \<Rightarrow> runlist option) \<Rightarrow> mft_record \<Rightarrow> 'd mkst \<Rightarrow> (bool \<times> 'd mkst) run" where
  "sync_bitmap env decompress m st =
     (if \<not> me_mem env then Ret (False, st)
      else
        (case mkntfs_attr_lookup (me_ops env) False m AT_DATA Unnamed False None fresh_ctx of
           Found k \<Rightarrow>
             (case a_form (m_attrs m ! k) of
                Resident _ _ _ _ \<Rightarrow> Ret (False, st)
              | Non_resident _ \<Rightarrow>
                  (case decompress (m_attrs m ! k) of
                     None \<Rightarrow> Ret (False, st)
                   | Some rl \<Rightarrow>
                       let n = g_lcn_bitmap_byte_size (ms_fmt st) in
                       (case ntfs_rlwrite (me_wr env) (me_sk env) (me_no_act env) (me_mem env) (me_cs env) WRITE_BITMAP
                               (g_allocation (ms_fmt st)) (me_dynbuf env) rl [] n (ms_dev st) of
                          None \<Rightarrow> Hang
                        | Some (lw, _, d) \<Rightarrow> Ret (lw = n, st\<lparr>ms_dev := d\<rparr>))))
         | Undefined \<Rightarrow> Undef
         | _ \<Rightarrow> Ret (False, st)))"

text \<open>
  A record in memory with its update sequence number. \<open>mst d pos r\<close> is \<^verbatim>\<open>ntfs_mst_pwrite\<close> of one record: how many were written, the
  device, and the number the record has afterwards. \<open>pre\<close> changes the number first: not at all for the MFT, with
  \<^verbatim>\<open>ntfs_mft_usn_dec\<close> for its mirror (\<open>None\<close>: it fails).
\<close>

type_synonym numbered = "mft_record \<times> nat"

fun write_records ::
  "(nat \<Rightarrow> nat option) \<Rightarrow> ('d \<Rightarrow> int \<Rightarrow> numbered \<Rightarrow> int \<times> 'd \<times> nat) \<Rightarrow> bool \<Rightarrow> int \<Rightarrow> int \<Rightarrow> numbered list \<Rightarrow> 'd \<Rightarrow> bool \<times> numbered list \<times> 'd" where
  "write_records pre mst no_act sz pos [] d = (True, [], d)"
| "write_records pre mst no_act sz pos ((m, u) # rs) d =
     (case pre u of
        None \<Rightarrow> (False, (m, u) # rs, d)
      | Some u1 \<Rightarrow>
          (case (if no_act then (1, d, u1) else mst d pos (m, u1)) of
             (lw, d1, u2) \<Rightarrow>
               if lw \<noteq> 1 then (False, (m, u2) # rs, d1)
               else (case write_records pre mst no_act sz (pos + sz) rs d1 of (ok, rs', d2) \<Rightarrow> (ok, (m, u2) # rs', d2))))"

text \<open>The first \<open>n\<close> records; a loop beyond the buffer is undefined.\<close>

definition write_first ::
  "(nat \<Rightarrow> nat option) \<Rightarrow> ('d \<Rightarrow> int \<Rightarrow> numbered \<Rightarrow> int \<times> 'd \<times> nat) \<Rightarrow> bool \<Rightarrow> int \<Rightarrow> int \<Rightarrow> nat \<Rightarrow> numbered list \<Rightarrow> 'd \<Rightarrow>
   (bool \<times> numbered list \<times> 'd) run" where
  "write_first pre mst no_act sz pos n rs d =
     (if n > length rs then Undef
      else case write_records pre mst no_act sz pos (take n rs) d of (ok, rs', d') \<Rightarrow> Ret (ok, rs' @ drop n rs, d'))"

text \<open>\<^verbatim>\<open>$MFT\<close>, and after it \<^verbatim>\<open>$MFTMirr\<close>.\<close>

definition sync_mft ::
  "(nat \<Rightarrow> nat option) \<Rightarrow> ('d \<Rightarrow> int \<Rightarrow> numbered \<Rightarrow> int \<times> 'd \<times> nat) \<Rightarrow> bool \<Rightarrow> vol_params \<Rightarrow> fmt \<Rightarrow> numbered list \<Rightarrow> 'd \<Rightarrow>
   (bool \<times> numbered list \<times> 'd) run" where
  "sync_mft usn_dec mst no_act v s rs d =
     (let sz = int (vp_mft_record_size v); cs = int (vp_csize v) in
      case write_first Some mst no_act sz (g_mft_lcn s * cs) (nat (g_mft_size s div sz)) rs d of
        Ret (True, rs1, d1) \<Rightarrow>
          write_first usn_dec mst no_act sz (g_mftmirr_lcn s * cs) (nat (rl_length (g_rl_mftmirr s ! 0) * cs div sz)) rs1 d1
      | r \<Rightarrow> r)"

section \<open>The run\<close>

text \<open>
  What a run takes from outside, besides what the steps take: memory for the volume, its name, the information and the
  attribute definitions; the upper-case table (empty: it cannot be built) and the static table of the checksum; the opening of the
  partition and the device's information; the memory of the layout; how the device is filled with zeroes; the numbers
  the records start with.
\<close>

record 'd main_cfg =
  mc_vol_mem :: bool
  mc_name_mem :: bool
  mc_info_mem :: bool
  mc_attrdef_mem :: bool
  mc_upcase :: "ntfschar list"
  mc_crc_table :: "64 word list"
  mc_open :: open_calls
  mc_dev_info :: dev_info
  mc_max_cs :: nat
  mc_layout_mem :: "nat \<Rightarrow> nat \<Rightarrow> bool"
  mc_page :: int
  mc_skc :: "'d \<Rightarrow> int \<Rightarrow> 'd"
  mc_eio :: "'d \<Rightarrow> bool"
  mc_bad_mem :: bool
  mc_to_ntfs :: "int \<times> int \<Rightarrow> int"
  mc_tod :: "nat \<Rightarrow> (int \<times> int) option"
  mc_clock :: "nat \<Rightarrow> int"
  mc_root :: "'d root_cfg"
  mc_decompress :: "attr_record \<Rightarrow> runlist option"
  mc_usn :: "nat \<Rightarrow> nat"
  mc_usn_dec :: "nat \<Rightarrow> nat option"
  mc_mst :: "'d \<Rightarrow> int \<Rightarrow> numbered \<Rightarrow> int \<times> 'd \<times> nat"
  mc_sync :: "'d \<Rightarrow> bool \<times> 'd"

datatype resource = R_volume | R_info | R_device | R_open | R_buffers

record 'd main_st =
  k_opts :: mkntfs_options
  k_vol :: vol_params
  k_info :: "byte list"
  k_root :: "'d root_st"
  k_held :: "resource set"

type_synonym 'd phase = "'d main_cfg \<Rightarrow> 'd main_st \<Rightarrow> (bool \<times> 'd main_st) run"

text \<open>\<^verbatim>\<open>if (!...) goto done\<close>.\<close>

fun phases :: "'d phase list \<Rightarrow> 'd phase" where
  "phases [] c s = Ret (True, s)"
| "phases (p # ps) c s = (case p c s of Ret (True, s1) \<Rightarrow> phases ps c s1 | r \<Rightarrow> r)"

abbreviation hold :: "resource \<Rightarrow> 'd main_st \<Rightarrow> 'd main_st" where
  "hold r s \<equiv> s\<lparr>k_held := insert r (k_held s)\<rparr>"

definition k_mk :: "'d main_st \<Rightarrow> 'd mkst" where "k_mk s = rs_mk (k_root s)"

definition set_mk :: "'d mkst \<Rightarrow> 'd main_st \<Rightarrow> 'd main_st" where
  "set_mk mk s = s\<lparr>k_root := (k_root s)\<lparr>rs_mk := mk\<rparr>\<rparr>"

definition volume_phase :: "'d phase" where
  "volume_phase c s =
     (if \<not> mc_vol_mem c then Ret (False, s)
      else if opt_label (k_opts s) \<noteq> None \<and> \<not> mc_name_mem c then Ret (False, hold R_volume s)
      else if mc_upcase c = [] \<or> \<not> mc_info_mem c then Ret (False, (if mc_info_mem c then hold R_info (hold R_volume s) else hold R_volume s))
      else
        let s1 = (hold R_info (hold R_volume s))\<lparr>k_info := upcase_info (mc_crc_table c) (mc_upcase c)\<rparr>
        in Ret (mc_attrdef_mem c, s1))"

definition open_phase :: "'d phase" where
  "open_phase c s =
     (let oc = mc_open c;
          s1 = (if oc_external oc \<or> oc_alloc oc then hold R_device s else s);
          s2 = (if R_device \<in> k_held s1 \<and> oc_open oc (no_action (k_opts s)) then hold R_open s1 else s1)
      in case mkntfs_open_partition oc (k_opts s) of
           (None, _) \<Rightarrow> Ret (False, s2)
         | (Some opts, _) \<Rightarrow> Ret (True, s2\<lparr>k_opts := opts\<rparr>))"

definition params_phase :: "'d phase" where
  "params_phase c s =
     (case mkntfs_override_vol_params (mc_max_cs c) (mc_dev_info c) (given_cluster_size (k_opts s)) (k_opts s) of
        None \<Rightarrow> Ret (False, s)
      | Some (opts, v, _) \<Rightarrow> Ret (True, s\<lparr>k_opts := opts, k_vol := v\<rparr>))"

definition layout_phase :: "'d phase" where
  "layout_phase c s =
     (case mkntfs_layout (mc_layout_mem c) (mc_page c) (k_opts s) (k_vol s) (ms_fmt (k_mk s)) of
        None \<Rightarrow> Hang
      | Some (ok, f) \<Rightarrow>
          Ret (ok, (hold R_buffers s)\<lparr>k_root := (k_root s)\<lparr>rs_mk := (k_mk s)\<lparr>ms_fmt := f\<rparr>,
                      rs_mft_bitmap := replicate (nat (g_mft_bitmap_byte_size f)) 0\<rparr>\<rparr>))"

definition root_cfg_of :: "'d main_cfg \<Rightarrow> 'd main_st \<Rightarrow> 'd root_cfg" where
  "root_cfg_of c s =
     (mc_root c)\<lparr>rc_env := (\<lambda>n. (rc_env (mc_root c) n)\<lparr>me_no_act := no_action (k_opts s), me_cs := csz (k_vol s),
                        me_nr := vp_nr_clusters (k_vol s), me_sector_size := nat (sector_size (k_opts s))\<rparr>),
                  rc_now := (\<lambda>n. mkntfs_time (mc_to_ntfs c) (mc_tod c n) (mc_clock c n) (k_opts s)),
                  rc_opts := k_opts s, rc_vol := k_vol s, rc_vol_name := opt_label (k_opts s), rc_upcase := mc_upcase c,
                  rc_upcaseinfo := k_info s\<rparr>"

definition cur_env :: "'d main_cfg \<Rightarrow> 'd main_st \<Rightarrow> 'd mkenv" where
  "cur_env c s = rc_env (root_cfg_of c s) (rs_clock (k_root s))"

text \<open>The buffer passed to the writes is that of the MFT, which is still all zero.\<close>

definition zero_phase :: "'d phase" where
  "zero_phase c s =
     (if quick_format (k_opts s) then Ret (True, s)
      else
        (case mkntfs_fill_device_with_zeroes (me_wr (cur_env c s)) (me_sk (cur_env c s)) (mc_skc c) (mc_eio c) (mc_bad_mem c)
                (replicate (nat (g_mft_size (ms_fmt (k_mk s)))) 0) (k_opts s) (k_vol s) (ms_fmt (k_mk s)) (ms_dev (k_mk s)) of
           None \<Rightarrow> Hang
         | Some (ok, f, d) \<Rightarrow> Ret (ok, set_mk \<lparr>ms_fmt = f, ms_dev = d\<rparr> s)))"

definition root_phase :: "'d phase" where
  "root_phase c s =
     (case mkntfs_create_root_structures (root_cfg_of c s) (k_root s) of
        Hang \<Rightarrow> Hang
      | Undef \<Rightarrow> Undef
      | Ret (ok, r) \<Rightarrow> Ret (ok, s\<lparr>k_root := r\<rparr>))"

text \<open>A final write to the device through the formatter's state.\<close>

definition on_device :: "('d mkst \<Rightarrow> (bool \<times> 'd mkst) run) \<Rightarrow> 'd main_st \<Rightarrow> (bool \<times> 'd main_st) run" where
  "on_device f s = (case f (k_mk s) of Hang \<Rightarrow> Hang | Undef \<Rightarrow> Undef | Ret (ok, mk) \<Rightarrow> Ret (ok, set_mk mk s))"

definition index_phase :: "'d phase" where
  "index_phase c s =
     (case rs_index (k_root s) of
        None \<Rightarrow> Undef
      | Some idx \<Rightarrow> on_device (mkntfs_sync_index_record (cur_env c s) (mc_decompress c) (rc_blk (mc_root c)) idx
                       (rs_recs (k_root s) ! 5) (ascii ''$I30'')) s)"

definition bitmap_phase :: "'d phase" where
  "bitmap_phase c s = on_device (sync_bitmap (cur_env c s) (mc_decompress c) (rs_recs (k_root s) ! 6)) s"

definition mft_phase :: "'d phase" where
  "mft_phase c s =
     on_device (\<lambda>mk.
       (case sync_mft (mc_usn_dec c) (mc_mst c) (no_action (k_opts s)) (k_vol s) (ms_fmt mk)
               (map (\<lambda>i. (rs_recs (k_root s) ! i, mc_usn c i)) [0..<length (rs_recs (k_root s))]) (ms_dev mk) of
          Hang \<Rightarrow> Hang
        | Undef \<Rightarrow> Undef
        | Ret (ok, _, d) \<Rightarrow> Ret (ok, mk\<lparr>ms_dev := d\<rparr>))) s"

definition sync_phase :: "'d phase" where
  "sync_phase c s = on_device (\<lambda>mk. case mc_sync c (ms_dev mk) of (ok, d) \<Rightarrow> Ret (ok, mk\<lparr>ms_dev := d\<rparr>)) s"

text \<open>\<^verbatim>\<open>mkntfs_cleanup\<close> closes the device, frees everything and resets the variables.\<close>

definition clean_up :: "'d main_st \<Rightarrow> 'd main_st" where
  "clean_up s =
     s\<lparr>k_root := (k_root s)\<lparr>rs_recs := [], rs_index := None, rs_mft_bitmap := [],
                 rs_mk := (k_mk s)\<lparr>ms_fmt := mkntfs_cleanup (ms_fmt (k_mk s))\<rparr>\<rparr>, k_info := [],
       k_held := k_held s - {R_volume, R_info, R_device, R_open, R_buffers}\<rparr>"

definition mkntfs_redirect :: "'d main_cfg \<Rightarrow> 'd main_st \<Rightarrow> (int \<times> 'd main_st) run" where
  "mkntfs_redirect c s =
     (case phases [volume_phase, open_phase, params_phase, layout_phase, zero_phase, root_phase, index_phase, bitmap_phase, mft_phase,
                   sync_phase] c s of
        Hang \<Rightarrow> Hang
      | Undef \<Rightarrow> Undef
      | Ret (ok, s') \<Rightarrow> Ret (if ok then 0 else 1, clean_up s'))"

text \<open>The options are reset before the command line is read.\<close>

definition nk_mkntfs_main :: "'d main_cfg \<Rightarrow> opt_event list \<Rightarrow> 'd main_st \<Rightarrow> (int \<times> 'd main_st) run" where
  "nk_mkntfs_main c evs s =
     (case mkntfs_parse_options evs mkntfs_init_options of
        (r, opts) \<Rightarrow> if r < 0 then mkntfs_redirect c (s\<lparr>k_opts := opts\<rparr>) else Ret (r, s\<lparr>k_opts := opts\<rparr>))"

end
