(* ===== verification/Format_Sync.thy ===== *)
theory Format_Sync
  imports Mkntfs_Main Mft_Store
begin

text \<open>
  What the last writes of the formatter leave on the device: the records of the MFT, and a mirror of the first of them that is the same
  byte by byte although every transfer changes the update sequence number of the record.
\<close>

section \<open>Writing protected records\<close>

text \<open>
  The interface to the library: a transfer that reports one record has stored the record protected with the next number of its
  update sequence, which the record then has, and nothing else; taking a number back gives one whose successor it is.
\<close>

locale record_writer =
  fixes at :: "'d \<Rightarrow> int \<Rightarrow> byte" and mst :: "'d \<Rightarrow> int \<Rightarrow> numbered \<Rightarrow> int \<times> 'd \<times> nat" and usn_dec :: "nat \<Rightarrow> nat option"
    and protect :: "mft_record \<Rightarrow> nat \<Rightarrow> byte list" and usn_next :: "nat \<Rightarrow> nat" and sz :: int
  assumes mst_law: "mst d pos (m, u) = (1, d', u') \<Longrightarrow> u' = usn_next u \<and>
      (\<forall>b. at d' b = (if pos \<le> b \<and> b < pos + sz then protect m (usn_next u) ! nat (b - pos) else at d b))"
    and dec_law: "\<exists>u1. usn_dec (usn_next u) = Some u1 \<and> usn_next u1 = usn_next u"
    and sz_pos: "0 < sz"
begin

text \<open>The bytes of a list of records with the numbers they are stored with.\<close>

definition stored :: "'d \<Rightarrow> int \<Rightarrow> numbered list \<Rightarrow> bool" where
  "stored d pos rs \<longleftrightarrow> (\<forall>i < length rs. \<forall>j. 0 \<le> j \<and> j < sz \<longrightarrow>
     at d (pos + int i * sz + j) = protect (fst (rs ! i)) (snd (rs ! i)) ! nat j)"

definition only_in :: "int \<Rightarrow> int \<Rightarrow> 'd \<Rightarrow> 'd \<Rightarrow> bool" where
  "only_in from to d d' \<longleftrightarrow> (\<forall>b. b < from \<or> to \<le> b \<longrightarrow> at d' b = at d b)"

lemma write_records_spec:
  assumes "write_records pre mst False sz pos rs d = (True, rs', d')"
  shows "map fst rs' = map fst rs \<and> (\<forall>i < length rs. \<exists>u. pre (snd (rs ! i)) = Some u \<and> snd (rs' ! i) = usn_next u) \<and>
    stored d' pos rs' \<and> only_in pos (pos + int (length rs) * sz) d d'"
  using assms
proof (induction rs arbitrary: pos d rs')
  case Nil
  then show ?case by (auto simp: stored_def only_in_def)
next
  case (Cons r rs)
  obtain m u where r: "r = (m, u)" by (cases r)
  from Cons.prems obtain u1 d1 u2 rs2 where pre: "pre u = Some u1" and w: "mst d pos (m, u1) = (1, d1, u2)"
    and rec: "write_records pre mst False sz (pos + sz) rs d1 = (True, rs2, d')" and rs': "rs' = (m, u2) # rs2"
    by (auto simp: r split: option.splits prod.splits if_splits)
  note law = mst_law [OF w] and ih = Cons.IH [OF rec]
  have len: "length rs2 = length rs" using ih by (metis length_map)
  have keep: "at d' b = at d1 b" if "b < pos + sz" for b using ih that by (simp add: only_in_def)
  have "stored d' pos rs'" unfolding stored_def
  proof (intro allI impI)
    fix i j
    assume i: "i < length rs'" and j: "0 \<le> j \<and> j < sz"
    show "at d' (pos + int i * sz + j) = protect (fst (rs' ! i)) (snd (rs' ! i)) ! nat j"
    proof (cases i)
      case 0
      then show ?thesis using j law keep [of "pos + j"] by (simp add: rs')
    next
      case (Suc k)
      then have "at d' (pos + sz + int k * sz + j) = protect (fst (rs2 ! k)) (snd (rs2 ! k)) ! nat j"
        using ih i j len by (simp add: stored_def rs')
      then show ?thesis by (simp add: Suc rs' algebra_simps)
    qed
  qed
  moreover have "at d' b = at d b" if "b < pos \<or> pos + int (length (r # rs)) * sz \<le> b" for b
  proof -
    have "0 \<le> int (length rs) * sz" using sz_pos by simp
    then have "b < pos \<or> pos + sz \<le> b" using that by (simp add: distrib_right) linarith
    then have "at d1 b = at d b" using law by auto
    moreover have "at d' b = at d1 b" using that ih sz_pos keep [of b] by (auto simp: only_in_def algebra_simps)
    ultimately show ?thesis by simp
  qed
  ultimately show ?case
    using ih law pre by (auto simp: r rs' only_in_def nth_Cons split: nat.splits)
qed

text \<open>Both loops: the mirror gets the same bytes.\<close>

lemma sync_mft_spec:
  assumes run: "sync_mft usn_dec mst False v s rs d = Ret (True, rs', d')" and sz: "sz = int (vp_mft_record_size v)"
    and n: "length rs = nat (g_mft_size s div sz)"
    and apart: "g_mft_lcn s * int (vp_csize v) + int (length rs) * sz \<le> g_mftmirr_lcn s * int (vp_csize v)"
  defines "P \<equiv> g_mft_lcn s * int (vp_csize v)" and "Q \<equiv> g_mftmirr_lcn s * int (vp_csize v)"
    and "k \<equiv> nat (rl_length (g_rl_mftmirr s ! 0) * int (vp_csize v) div sz)"
  shows "stored d' P (map (\<lambda>(m, u). (m, usn_next u)) rs) \<and> (\<forall>b. 0 \<le> b \<and> b < int k * sz \<longrightarrow> at d' (Q + b) = at d' (P + b)) \<and>
    (\<forall>b. \<not> (P \<le> b \<and> b < P + int (length rs) * sz) \<and> \<not> (Q \<le> b \<and> b < Q + int k * sz) \<longrightarrow> at d' b = at d b)"
proof -
  have P: "P + int (length rs) * sz \<le> Q" using apart by (simp add: P_def Q_def)
  from run obtain rs1 d1 where 1: "write_records Some mst False sz P rs d = (True, rs1, d1)"
    and 2: "write_first usn_dec mst False sz Q k rs1 d1 = Ret (True, rs', d')"
    by (auto simp: sync_mft_def write_first_def Let_def n [symmetric] P_def Q_def k_def sz [symmetric] split: prod.splits if_splits bool.splits)
  from 2 obtain rs2 where k: "k \<le> length rs1" and w: "write_records usn_dec mst False sz Q (take k rs1) d1 = (True, rs2, d')"
    by (auto simp: write_first_def split: if_splits prod.splits)
  note a = write_records_spec [OF 1] and b = write_records_spec [OF w]
  have l1: "length rs1 = length rs" using a by (metis length_map)
  have l2: "length rs2 = k" using b k by (metis length_map length_take min.absorb2)
  have rs1: "rs1 = map (\<lambda>(m, u). (m, usn_next u)) rs"
  proof (rule nth_equalityI)
    fix i
    assume i: "i < length rs1"
    then have "fst (rs1 ! i) = fst (rs ! i)" using a l1 by (metis nth_map)
    moreover have "snd (rs1 ! i) = usn_next (snd (rs ! i))" using a i l1 by auto
    ultimately show "rs1 ! i = map (\<lambda>(m, u). (m, usn_next u)) rs ! i" using i l1 by (simp add: case_prod_beta prod_eq_iff)
  qed (simp add: l1)
  have rs2: "rs2 ! i = rs1 ! i" if i: "i < k" for i
  proof -
    have "fst (rs2 ! i) = fst (rs1 ! i)" using b i k l2 by (metis nth_map nth_take length_take min.absorb2)
    moreover have "snd (rs2 ! i) = snd (rs1 ! i)"
    proof -
      from b i k obtain u where u: "usn_dec (snd (rs1 ! i)) = Some u" "snd (rs2 ! i) = usn_next u" by auto
      have "snd (rs1 ! i) = usn_next (snd (rs ! i))" using i k l1 by (simp add: rs1 case_prod_beta)
      with dec_law [of "snd (rs ! i)"] u show ?thesis by auto
    qed
    ultimately show ?thesis by (simp add: prod_eq_iff)
  qed
  have keep: "at d' x = at d1 x" if "x < Q \<or> Q + int k * sz \<le> x" for x using b that k by (auto simp: only_in_def)
  have inP: "P + int i * sz + j < Q" if "i < length rs" "j < sz" for i j
  proof -
    have "(int i + 1) * sz \<le> int (length rs) * sz" using that sz_pos by (intro mult_right_mono) simp_all
    with that P show ?thesis by (simp add: algebra_simps)
  qed
  have st: "stored d' P rs1" using a keep inP l1 by (simp add: stored_def)
  have "at d' (Q + x) = at d' (P + x)" if x: "0 \<le> x" "x < int k * sz" for x
  proof -
    define i j where "i = nat (x div sz)" and "j = x mod sz"
    have x': "x = int i * sz + j" using x sz_pos by (simp add: i_def j_def pos_imp_zdiv_nonneg_iff)
    have j: "0 \<le> j" "j < sz" using sz_pos by (simp_all add: j_def)
    have "int i * sz < int k * sz" using x x' j by linarith
    then have i: "i < k" using sz_pos by simp
    have "at d' (Q + int i * sz + j) = protect (fst (rs2 ! i)) (snd (rs2 ! i)) ! nat j" using b i j l2 by (simp add: stored_def)
    moreover have "at d' (P + int i * sz + j) = protect (fst (rs1 ! i)) (snd (rs1 ! i)) ! nat j"
      using st i j k by (simp add: stored_def)
    ultimately show ?thesis using rs2 [OF i] x' by (simp add: add.assoc)
  qed
  moreover have "at d' x = at d x" if "\<not> (P \<le> x \<and> x < P + int (length rs) * sz)" "\<not> (Q \<le> x \<and> x < Q + int k * sz)" for x
    using that a keep [of x] by (auto simp: only_in_def)
  ultimately show ?thesis using st rs1 by blast
qed

end

section \<open>On the layout of the formatter\<close>

lemma fmt_allocate_keeps: "fmt_allocate mem lcn len s = (ok, s') \<Longrightarrow> \<exists>t. s' = s\<lparr>g_allocation := t\<rparr>"
  by (auto simp: fmt_allocate_def split: prod.splits)

lemma layout_mft:
  assumes "mkntfs_layout mem page opts v s0 = Some (True, s)"
  shows "\<exists>k. g_mft_size s = mft_bytes v \<and> g_rl_mft s = one_run (g_mft_lcn s) ((g_mft_size s + csz v - 1) div csz v) \<and>
    g_rl_mftmirr s = one_run (g_mftmirr_lcn s) k"
proof -
  from assms obtain s1 s2 s3 s4 where 0: "mkntfs_initialize_bitmaps (mem 0) page v s0 = (True, s1)" and 1: "mkntfs_initialize_rl_mft (mem 1) opts v s1 = (True, s2)"
    and 2: "mkntfs_initialize_rl_logfile (mem 2) v s2 = Some (True, s3)" and 3: "mkntfs_initialize_rl_boot (mem 3) v s3 = (True, s4)"
    and 4: "mkntfs_initialize_rl_bad (mem 4 1) v s4 = (True, s)"
    by (auto simp: mkntfs_layout_def split: prod.splits option.splits if_splits)
  let ?p = "\<lambda>s. \<exists>k. g_mft_size s = mft_bytes v \<and> g_rl_mft s = one_run (g_mft_lcn s) ((g_mft_size s + csz v - 1) div csz v) \<and> g_rl_mftmirr s = one_run (g_mftmirr_lcn s) k"
  have "g_mft_size s1 = mft_bytes v" using 0
    by (auto simp: mkntfs_initialize_bitmaps_def Let_def fmt_allocate_def split: if_splits prod.splits)
  then have "?p s2" using 1
    by (auto simp: mkntfs_initialize_rl_mft_def Let_def fmt_allocate_def split: if_splits prod.splits)
  then have "?p s3" using 2 by (auto simp: mkntfs_initialize_rl_logfile_def Let_def fmt_allocate_def split: if_splits prod.splits option.splits)
  then have "?p s4" using 3 by (auto simp: mkntfs_initialize_rl_boot_def Let_def fmt_allocate_def split: if_splits prod.splits)
  then show ?thesis using 4 by (auto simp: mkntfs_initialize_rl_bad_def split: if_splits)
qed

lemma mft_before_mirror:
  assumes "mkntfs_layout all_mem page opts v s0 = Some (True, s)" and "vol_ok max_cs opts v" and "1 \<le> vp_nr_clusters v"
    and "g_mft_lcn s0 = 0" and "g_allocation s0 = []"
  shows "g_mft_lcn s * csz v + g_mft_size s \<le> g_mftmirr_lcn s * csz v"
proof -
  have "placed v s" using layout_spec [OF assms(2-5), of page] assms(1) by auto
  moreover obtain k where k: "g_rl_mft s = one_run (g_mft_lcn s) ((g_mft_size s + csz v - 1) div csz v)" "g_rl_mftmirr s = one_run (g_mftmirr_lcn s) k"
    using layout_mft [OF assms(1)] by blast
  ultimately have le: "g_mft_lcn s + (g_mft_size s + csz v - 1) div csz v \<le> g_mftmirr_lcn s"
    by (simp add: placed_def system_areas_def one_run_def)
  have cs: "0 < csz v" using vol_ok_numbers(2) [OF assms(2)] by simp
  have "g_mft_size s \<le> (g_mft_size s + csz v - 1) div csz v * csz v" using round_up_int_ge [OF cs] by simp
  moreover have "(g_mft_lcn s + (g_mft_size s + csz v - 1) div csz v) * csz v \<le> g_mftmirr_lcn s * csz v"
    using le cs by (intro mult_right_mono) simp_all
  ultimately show ?thesis by (simp add: distrib_right)
qed

text \<open>
  C21: after the last writes the MFT and its mirror agree. On the places the layout chose, every record of the MFT is on the device
  with the next number of its update sequence, the clusters of \<^verbatim>\<open>$MFTMirr\<close> hold byte by byte the same as the start of the MFT, and no
  other byte has changed.
\<close>

theorem mirror_identical:
  assumes "record_writer at mst usn_dec protect usn_next (int (vp_mft_record_size v))"
    and "mkntfs_layout all_mem page opts v s0 = Some (True, s)" and "vol_ok max_cs opts v" and "1 \<le> vp_nr_clusters v"
    and "g_mft_lcn s0 = 0" and "g_allocation s0 = []" and "length rs = nat (g_mft_size s div int (vp_mft_record_size v))"
    and "sync_mft usn_dec mst False v s rs d = Ret (True, rs', d')"
  shows "let sz = int (vp_mft_record_size v); P = g_mft_lcn s * csz v; Q = g_mftmirr_lcn s * csz v;
      k = int (nat (rl_length (g_rl_mftmirr s ! 0) * csz v div sz)) in
    (\<forall>i < length rs. \<forall>j. 0 \<le> j \<and> j < sz \<longrightarrow> at d' (P + int i * sz + j) = protect (fst (rs ! i)) (usn_next (snd (rs ! i))) ! nat j) \<and>
    (\<forall>b. 0 \<le> b \<and> b < k * sz \<longrightarrow> at d' (Q + b) = at d' (P + b)) \<and>
    (\<forall>b. \<not> (P \<le> b \<and> b < P + int (length rs) * sz) \<and> \<not> (Q \<le> b \<and> b < Q + k * sz) \<longrightarrow> at d' b = at d b)"
proof -
  let ?sz = "int (vp_mft_record_size v)"
  have sz: "0 < ?sz" using record_writer.sz_pos [OF assms(1)] .
  have "0 \<le> g_mft_size s" using layout_mft [OF assms(2)] by (auto simp: mft_bytes_def csz_def)
  then have "int (length rs) * ?sz \<le> g_mft_size s"
    using sz by (simp add: assms(7) pos_imp_zdiv_nonneg_iff minus_mod_eq_div_mult [symmetric])
  then have "g_mft_lcn s * int (vp_csize v) + int (length rs) * ?sz \<le> g_mftmirr_lcn s * int (vp_csize v)"
    using mft_before_mirror [OF assms(2-6)] by (auto simp: csz_def)
  from record_writer.sync_mft_spec [OF assms(1,8) refl assms(7) this] show ?thesis
    by (auto simp: Let_def csz_def record_writer.stored_def [OF assms(1)] case_prod_beta)
qed

section \<open>The callback device transfers records\<close>

text \<open>
  A transfer through the callback device, as the library documents it, and the numbers of the update sequence, which skip zero and
  \<open>0xffff\<close>.
\<close>

definition dev_mst ::
  "'w nk_io \<Rightarrow> (mft_record \<Rightarrow> nat \<Rightarrow> byte list) \<Rightarrow> (nat \<Rightarrow> nat) \<Rightarrow> 'w \<times> devstate \<Rightarrow> int \<Rightarrow> numbered \<Rightarrow> int \<times> ('w \<times> devstate) \<times> nat" where
  "dev_mst io protect nxt s pos r =
     (let bs = protect (fst r) (nxt (snd r)) in
      case nkdev_pwrite io (fst s) (snd s) bs pos of (n, s') \<Rightarrow> (if n = int (length bs) then 1 else -1, s', nxt (snd r)))"

definition usn_succ :: "nat \<Rightarrow> nat" where
  "usn_succ u = (if u + 1 \<ge> 0xffff then 1 else u + 1)"

definition usn_pred :: "nat \<Rightarrow> nat option" where
  "usn_pred u = Some (if u \<le> 1 then 0xfffe else u - 1)"

lemma dev_record_writer:
  assumes "host_writes io content" and "\<And>m u. length (protect m u) = n" and "0 < n"
  shows "record_writer (\<lambda>s. content (fst s)) (dev_mst io protect usn_succ) usn_pred protect usn_succ (int n)"
proof
  fix s pos m u s' u'
  assume "dev_mst io protect usn_succ s pos (m, u) = (1, s', u')"
  then have w: "u' = usn_succ u" "io_pwrite io (fst s) (protect m (usn_succ u)) pos = (int n, fst s')"
    by (auto simp: dev_mst_def nkdev_pwrite_def Let_def assms(2) split: prod.splits if_splits)
  from assms(1) [unfolded host_writes_def, rule_format, OF w(2)] w(1)
  show "u' = usn_succ u \<and> (\<forall>b. content (fst s') b = (if pos \<le> b \<and> b < pos + int n then protect m (usn_succ u) ! nat (b - pos) else content (fst s) b))"
    by simp
next
  fix u
  show "\<exists>u1. usn_pred (usn_succ u) = Some u1 \<and> usn_succ u1 = usn_succ u" by (auto simp: usn_pred_def usn_succ_def)
qed (use assms(3) in simp)

definition ex_protect :: "mft_record \<Rightarrow> nat \<Rightarrow> byte list" where
  "ex_protect m u = replicate 1024 (word_of_nat u)"

interpretation ram_mst: record_writer "\<lambda>s. fst s" "dev_mst ram_io ex_protect usn_succ" usn_pred ex_protect usn_succ "int 1024"
  by (rule dev_record_writer [OF ram_host]) (simp_all add: ex_protect_def)

lemma write_records_succeed:
  assumes "\<And>d pos r. ok d \<Longrightarrow> \<exists>d' u. mst d pos r = (1, d', u) \<and> ok d'" and "\<And>u. pre u \<noteq> None" and "ok d"
  shows "\<exists>rs' d'. length rs' = length rs \<and> ok d' \<and> write_records pre mst False sz pos rs d = (True, rs', d')"
  using assms(3)
proof (induction rs arbitrary: pos d)
  case (Cons r rs)
  obtain m u where r: "r = (m, u)" by (cases r)
  obtain u1 where u1: "pre u = Some u1" using assms(2) by auto
  obtain d1 u2 where w: "mst d pos (m, u1) = (1, d1, u2)" "ok d1" using assms(1) [OF Cons.prems] by blast
  from Cons.IH [OF w(2), of "pos + sz"] obtain rs' d' where
    "length rs' = length rs" "ok d'" "write_records pre mst False sz (pos + sz) rs d1 = (True, rs', d')" by blast
  then show ?case by (intro exI [of _ "(m, u2) # rs'"] exI [of _ d']) (simp add: r u1 w)
qed simp

text \<open>The one-gigabyte example: its layout.\<close>

definition ex_fmt1 :: fmt where
  "ex_fmt1 = fmt0\<lparr>g_allocation := [\<lparr>ba_lcn = 2, ba_length = 1\<rparr>, \<lparr>ba_lcn = 262143, ba_length = 1\<rparr>],
     g_lcn_bitmap_byte_size := 32768, g_dynamic_buf_size := 4096, g_mft_size := 27648, g_mft_bitmap_byte_size := 8,
     g_rl_mft_bmp := one_run 2 1\<rparr>"

definition ex_fmt2 :: fmt where
  "ex_fmt2 = ex_fmt1\<lparr>g_allocation := [\<lparr>ba_lcn = 2, ba_length = 1\<rparr>, \<lparr>ba_lcn = 4, ba_length = 7\<rparr>, \<lparr>ba_lcn = 131071, ba_length = 1\<rparr>,
       \<lparr>ba_lcn = 262143, ba_length = 1\<rparr>],
     g_mft_lcn := 4, g_mftmirr_lcn := 131071, g_logfile_lcn := 131072, g_mft_zone_end := 32771, g_rl_mft := one_run 4 7,
     g_rl_mftmirr := one_run 131071 1\<rparr>"

definition ex_fmt :: fmt where
  "ex_fmt = ex_fmt2\<lparr>g_allocation :=
      [\<lparr>ba_lcn = 0, ba_length = 2\<rparr>, \<lparr>ba_lcn = 2, ba_length = 1\<rparr>, \<lparr>ba_lcn = 4, ba_length = 7\<rparr>, \<lparr>ba_lcn = 131071, ba_length = 1311\<rparr>,
       \<lparr>ba_lcn = 262143, ba_length = 1\<rparr>],
     g_logfile_size := 5365760, g_rl_logfile := one_run 131072 1310, g_rl_boot := one_run 0 2, g_rl_bad := one_run (-1) 262143\<rparr>"

lemmas ex_layout_defs = fmt_allocate_def bitmap_allocate_def before_def after_def csz_def Let_def ex_vol_params_def

lemma ex_bitmaps: "mkntfs_initialize_bitmaps (\<lambda>_. True) 4096 ex_vol_params fmt0 = (True, ex_fmt1)"
  by (simp add: mkntfs_initialize_bitmaps_def ex_layout_defs lcn_bitmap_bytes_def mft_bytes_def ex_fmt1_def) (simp add: fmt0_def)

lemma ex_rl_mft: "mkntfs_initialize_rl_mft (\<lambda>_. True) ex_opts' ex_vol_params ex_fmt1 = (True, ex_fmt2)"
  by (simp add: mkntfs_initialize_rl_mft_def ex_layout_defs mft_zone_def default_mft_lcn_def ex_fmt1_def ex_fmt2_def fmt0_def one_run_def
      ex_opts'_def ex_opts_def mkntfs_init_options_def)

lemma ex_rl_logfile: "\<exists>s. mkntfs_initialize_rl_logfile (\<lambda>_. True) ex_vol_params ex_fmt2 = Some (True, s) \<and>
    mkntfs_initialize_rl_boot (\<lambda>_. True) ex_vol_params s = (True, ex_fmt\<lparr>g_rl_bad := []\<rparr>)"
proof -
  have "shrink_logfile 4096 131072 262143 5365760 = Some 5365760" by (subst shrink_logfile.simps) simp
  moreover have "standard_logfile_size ex_vol_params = 5365760"
    by (simp add: standard_logfile_size_def ex_vol_params_def push_bit_eq_mult csz_def)
  ultimately show ?thesis
    by (simp add: mkntfs_initialize_rl_logfile_def mkntfs_initialize_rl_boot_def ex_layout_defs ex_fmt1_def ex_fmt2_def ex_fmt_def fmt0_def)
qed

lemma ex_layout: "mkntfs_layout all_mem 4096 ex_opts' ex_vol_params fmt0 = Some (True, ex_fmt)"
  using ex_rl_logfile
  by (auto simp: mkntfs_layout_def ex_bitmaps ex_rl_mft mkntfs_initialize_rl_bad_def) (simp add: ex_fmt_def ex_vol_params_def)

theorem mirror_identical_witness:
  "\<exists>rs' d'. sync_mft usn_pred (dev_mst ram_io ex_protect usn_succ) False ex_vol_params ex_fmt (replicate 27 (ex_rec, 1)) (\<lambda>_. 7, ex_dev) =
      Ret (True, rs', d') \<and> fst d' 16389 = 2 \<and> fst d' 536866821 = fst d' 16389 \<and> fst d' 5 = 7"
proof -
  let ?mst = "dev_mst ram_io ex_protect usn_succ" and ?rs = "replicate 27 (ex_rec, 1 :: nat)" and ?d = "(\<lambda>_. 7, ex_dev)"
  have ok: "\<exists>d' u. ?mst d pos r = (1, d', u) \<and> \<not> d_readonly (snd d')" if "\<not> d_readonly (snd d)" for d pos r
    using that by (simp add: dev_mst_def nkdev_pwrite_def ram_io_def Let_def)
  note go = write_records_succeed [where ok = "\<lambda>d. \<not> d_readonly (snd d)" and mst = ?mst, OF ok]
  obtain rs1 d1 where 1: "length rs1 = 27" "\<not> d_readonly (snd d1)" "write_records Some ?mst False 1024 16384 ?rs ?d = (True, rs1, d1)"
    using go [of Some ?d ?rs 1024 16384] by (auto simp: ex_dev_def)
  obtain rs2 d2 where 2: "write_records usn_pred ?mst False 1024 536866816 (take 4 rs1) d1 = (True, rs2, d2)"
    using go [of usn_pred d1 "take 4 rs1" 1024 536866816] 1(2) by (auto simp: usn_pred_def)
  have run: "sync_mft usn_pred ?mst False ex_vol_params ex_fmt ?rs ?d = Ret (True, rs2 @ drop 4 rs1, d2)"
    using 1(1,3) 2 by (simp add: sync_mft_def write_first_def ex_vol_params_def ex_fmt_def ex_fmt2_def ex_fmt1_def one_run_def Let_def)
  have "record_writer (\<lambda>s. fst s) ?mst usn_pred ex_protect usn_succ (int (vp_mft_record_size ex_vol_params))"
    using ram_mst.record_writer_axioms by (simp add: ex_vol_params_def)
  note r = mirror_identical [OF this ex_layout ex_vol_ok _ _ _ _ run]
  have n: "g_mft_lcn ex_fmt = 4" "g_mftmirr_lcn ex_fmt = 131071" "csz ex_vol_params = 4096" "vp_mft_record_size ex_vol_params = 1024"
    "rl_length (g_rl_mftmirr ex_fmt ! 0) = 1" "g_mft_size ex_fmt = 27648" "g_mft_lcn fmt0 = 0" "g_allocation fmt0 = []"
    "1 \<le> vp_nr_clusters ex_vol_params"
    by (simp_all add: ex_fmt_def ex_fmt2_def ex_fmt1_def one_run_def csz_def ex_vol_params_def fmt0_def)
  have us: "usn_succ (Suc 0) = 2" by (simp add: usn_succ_def)
  have all: "(\<forall>i < 27. \<forall>j. 0 \<le> j \<and> j < 1024 \<longrightarrow> fst d2 (16384 + int i * 1024 + j) = ex_protect ex_rec 2 ! nat j) \<and>
      (\<forall>b. 0 \<le> b \<and> b < 4096 \<longrightarrow> fst d2 (536866816 + b) = fst d2 (16384 + b)) \<and>
      (\<forall>b. \<not> (16384 \<le> b \<and> b < 44032) \<and> \<not> (536866816 \<le> b \<and> b < 536870912) \<longrightarrow> fst d2 b = 7)"
    using r by (simp add: n us)
  have "fst d2 16389 = 2 \<and> fst d2 536866821 = fst d2 16389 \<and> fst d2 5 = 7"
    using all [THEN conjunct1, rule_format, of 0 5] all [THEN conjunct2, THEN conjunct1, rule_format, of 5]
      all [THEN conjunct2, THEN conjunct2, rule_format, of 5] by (simp add: ex_protect_def)
  with run show ?thesis by blast
qed

end
