(* ===== verification/Root_Total.thy ===== *)
theory Root_Total
  imports Root_Success Format_Sync
begin

text \<open>
  The system files are made, and are what they should be: the success of \<^verbatim>\<open>mkntfs_create_root_structures\<close> together with what it leaves, from what
  the library documents, memory, a device that takes what it is given, and a volume with enough clusters.
\<close>

section \<open>The surroundings\<close>

text \<open>There is memory at every call, and the calls are given the parameters of the volume.\<close>

definition well_equipped :: "'d root_cfg \<Rightarrow> bool" where
  "well_equipped c \<longleftrightarrow> (\<forall>n. me_mem (rc_env c n) \<and> me_rmem (rc_env c n) = (\<lambda>_. True) \<and> me_dynbuf (rc_env c n) \<noteq> [] \<and>
     me_cs (rc_env c n) = csize c \<and> me_nr (rc_env c n) = vp_nr_clusters (rc_vol c) \<and> int (me_sector_size (rc_env c n)) = sector_size (rc_opts c))"

text \<open>
  Documented of the library: names are compared and converted character by character, the upcase table keeps the names of system files and of
  attributes apart, the mapping pairs of one run take at most 64 bytes, a new record is empty, and resizing replaces one value.
\<close>

definition names_served :: "(ntfschar \<Rightarrow> ntfschar) \<Rightarrow> 'd root_cfg \<Rightarrow> bool" where
  "names_served up c \<longleftrightarrow>
     (\<forall>n. good_names up (me_ops (rc_env c n)) \<and> me_str2ucs (rc_env c n) None = Some Unnamed \<and>
        (\<forall>s \<in> attr_names. s \<noteq> [] \<longrightarrow> me_str2ucs (rc_env c n) (Some s) = Some (Named (ascii s)))) \<and>
     (\<forall>s \<in> sys_names. rc_mb c s = Some (ascii s)) \<and> inj_on (\<lambda>s. map up (ascii s)) sys_names \<and> inj_on (\<lambda>s. map up (ascii s)) attr_names"

definition pairs_served :: "'d root_cfg \<Rightarrow> bool" where
  "pairs_served c \<longleftrightarrow> (\<forall>n r tm. rl_length tm = 0 \<longrightarrow>
     (\<exists>k bs. me_mp_size (rc_env c n) [r, tm] = Some k \<and> k \<le> 64 \<and> me_mp_build (rc_env c n) [r, tm] k = Some bs \<and> length bs \<le> k))"

definition empty_record :: "mft_record \<Rightarrow> bool" where
  "empty_record m \<longleftrightarrow> m_attrs m = [] \<and> m_flags m = {} \<and> m_link_count m = 0 \<and> m_next_attr_instance m = 0 \<and> m_attrs_offset m = 56 \<and> m_bytes_in_use m = 64 \<and>
     m_bytes_allocated m = 1024"

definition records_served :: "'d root_cfg \<Rightarrow> bool" where
  "records_served c \<longleftrightarrow> (\<forall>i. \<exists>m. rc_layout c i = Some m \<and> empty_record m) \<and> resizing c \<and> resizes c \<and>
     (\<forall>ms. length (rc_bytes c ms) = 1024 * length ms) \<and> (\<forall>h. \<exists>b. rc_blk c h = Some b \<and> length b = 4096)"

text \<open>The values that are given have the sizes of their structures; the upcase table is larger than a record; a label has at most 128 characters.\<close>

definition values_sized :: "'d root_cfg \<Rightarrow> bool" where
  "values_sized c \<longleftrightarrow> length (rc_guid c) = 16 \<and> length (rc_vi c False 3 1) = 12 \<and> length (rc_oi c (mk_mref 3 3)) = 56 \<and>
     256 < length (rc_upcase c) \<and> length (rc_upcaseinfo c) \<le> 32 \<and> QUOTA_FIRST_USER_ID (rc_quota c) mod 2 ^ 32 \<noteq> 1 \<and>
     (\<forall>s. rc_vol_name c = Some s \<longrightarrow> (\<exists>u. rc_mb c s = Some u \<and> length u \<le> 128))"

text \<open>The static buffers, and a bitmap for the MFT in which nothing is set.\<close>

definition buffers_ready :: "'d root_st \<Rightarrow> bool" where
  "buffers_ready s \<longleftrightarrow> length (rs_sd s) = 0x68 \<and> length (rs_root_sd s) = 0x102c \<and> 27 \<le> 8 * length (rs_mft_bitmap s) \<and> (\<forall>i < 27. \<not> test_bit (rs_mft_bitmap s) i)"

lemma full_device_less: "full_device wr sk R pos lim \<Longrightarrow> l \<le> lim \<Longrightarrow> full_device wr sk R pos l"
  unfolding full_device_def by force

lemma volume_in_device:
  assumes "vol_ok max_cs (rc_opts c) (rc_vol c)"
  shows "vp_nr_clusters (rc_vol c) * csize c \<le> (num_sectors (rc_opts c) + 1) * sector_size (rc_opts c)"
    "0 < csize c" "0 < sector_size (rc_opts c)" "512 \<le> num_sectors (rc_opts c) * sector_size (rc_opts c)"
proof -
  obtain k j where k: "sector_size (rc_opts c) = 2 ^ k" "vp_csize (rc_vol c) = 2 ^ j" using assms by (auto simp: vol_ok_def)
  then show cs: "0 < csize c" "0 < sector_size (rc_opts c)" by (simp_all add: csize_def)
  show "512 \<le> num_sectors (rc_opts c) * sector_size (rc_opts c)" using assms by (simp add: vol_ok_def)
  have "vp_nr_clusters (rc_vol c) = num_sectors (rc_opts c) * sector_size (rc_opts c) div csize c" using assms by (simp add: vol_ok_def csize_def)
  then have "vp_nr_clusters (rc_vol c) * csize c \<le> num_sectors (rc_opts c) * sector_size (rc_opts c)"
    using cs(1) pos_mod_sign [of "csize c" "num_sectors (rc_opts c) * sector_size (rc_opts c)"] by (simp add: minus_mod_eq_div_mult [symmetric])
  with cs(2) show "vp_nr_clusters (rc_vol c) * csize c \<le> (num_sectors (rc_opts c) + 1) * sector_size (rc_opts c)" by (simp add: algebra_simps)
qed

lemma block_size_fits:
  assumes "vol_ok max_cs (rc_opts c) (rc_vol c)" and "well_equipped c"
  shows "block_fits (rc_env c n) 4096"
proof -
  obtain k j where k: "sector_size (rc_opts c) = 2 ^ k" "k \<le> 12" "vp_csize (rc_vol c) = 2 ^ j" using assms(1) by (auto simp: vol_ok_def)
  have e: "nat (me_cs (rc_env c n)) = 2 ^ j" "int (me_sector_size (rc_env c n)) = 2 ^ k" using assms(2) k by (simp_all add: well_equipped_def csize_def)
  have "(2 :: int) ^ k \<le> 2 ^ 12" using k(2) by (intro power_increasing) simp_all
  then have "int (me_sector_size (rc_env c n)) \<le> 4096" unfolding e(2) by simp
  then have "me_sector_size (rc_env c n) \<le> 4096" by linarith
  moreover have "4096 mod (2 :: nat) ^ j = 0" if "(2 :: nat) ^ j \<le> 4096"
  proof -
    have "(2 :: nat) ^ j \<le> 2 ^ 12" using that by simp
    then have "j \<le> 12" using power_le_imp_le_exp [of "2 :: nat" j 12] by simp
    then have "(2 :: nat) ^ j dvd 2 ^ 12" by (rule le_imp_power_dvd)
    then show ?thesis by (simp add: dvd_eq_mod_eq_0)
  qed
  ultimately show ?thesis by (simp add: block_fits_def pow2_def e(1))
qed

lemma prepared_intro:
  assumes v: "vol_ok max_cs (rc_opts c) (rc_vol c)" and e: "vp_mft_record_size (rc_vol c) = 1024" "well_equipped c" "names_served up c" "pairs_served c"
    and d: "device_ready R c"
  shows "prepared up R c"
proof -
  note vd = volume_in_device [OF v]
  have "willing up R (rc_env c n)" for n
  proof -
    have q: "me_mem (rc_env c n)" "me_rmem (rc_env c n) = (\<lambda>_. True)" "me_dynbuf (rc_env c n) \<noteq> []" "me_cs (rc_env c n) = csize c"
      "me_nr (rc_env c n) = vp_nr_clusters (rc_vol c)" using e(2) by (simp_all add: well_equipped_def)
    obtain pos where "full_device (me_wr (rc_env c n)) (me_sk (rc_env c n)) R pos ((num_sectors (rc_opts c) + 1) * sector_size (rc_opts c))"
      using d by (auto simp: device_ready_def)
    from full_device_less [OF this vd(1)] have "\<exists>pos. full_device (me_wr (rc_env c n)) (me_sk (rc_env c n)) R pos (me_nr (rc_env c n) * me_cs (rc_env c n))"
      unfolding q by blast
    with q vd(2) e(3,4) show ?thesis by (simp add: willing_def names_served_def pairs_served_def)
  qed
  moreover have "vp_indx_record_size (rc_vol c) = 4096" using v by (simp add: vol_ok_def)
  ultimately show ?thesis using e block_size_fits [OF v e(2)] by (simp add: prepared_def well_equipped_def names_served_def)
qed


section \<open>The records to begin with\<close>

lemma lay_out_all: "(\<And>i. i \<in> set is \<Longrightarrow> \<exists>m. f i = Some m) \<Longrightarrow> \<exists>ms. lay_out f is = Some ms"
proof (induction "is")
  case (Cons i "is")
  then obtain m ms where "f i = Some m" "lay_out f is = Some ms" by (meson list.set_intros)
  then show ?case by simp
qed simp

lemma records_laid_out:
  assumes "records_served c" and "vp_mft_record_size (rc_vol c) = 1024" and "0 \<le> n"
  shows "\<exists>recs. layout_records c n = Some recs \<and> 27 \<le> length recs \<and> n \<le> 1024 * int (length recs) \<and> (\<forall>i < 27. blank up (recs ! i))"
proof -
  have r: "\<exists>m. rc_layout c i = Some m \<and> empty_record m" for i using assms(1) by (simp add: records_served_def)
  have d: "\<exists>m. system_record c i = Some m" "\<exists>m. free_record c i = Some m" for i using r [of i] by (auto simp: system_record_def free_record_def)
  define k where "k = (nat n + 1023) div 1024"
  obtain ms where ms: "lay_out (system_record c) [0..<nr_sysfiles] = Some ms" using lay_out_all d(1) by blast
  obtain fs where fs: "lay_out (free_record c) [nr_sysfiles..<k] = Some fs" using lay_out_all d(2) by blast
  note l = lay_out_spec [OF ms] lay_out_spec [OF fs]
  have len: "length ms = 27" "length (ms @ fs) = max 27 k" using l by (simp_all add: nr_sysfiles_def)
  have "nat n \<le> 1024 * k" by (simp add: k_def)
  then have "n \<le> 1024 * int k" using assms(3) by linarith
  moreover have "int k \<le> int (length (ms @ fs))" unfolding len(2) by simp
  ultimately have n: "n \<le> 1024 * int (length (ms @ fs))" by linarith
  have "blank up ((ms @ fs) ! i)" if "i < 27" for i
  proof -
    obtain m where m: "rc_layout c i = Some m" "empty_record m" using r by blast
    have "(ms @ fs) ! i = m\<lparr>m_sequence_number := (if i = 0 \<or> i > 23 then 1 else i)\<rparr>"
      using l(1) that len(1) m(1) by (auto simp: nr_sysfiles_def nth_append system_record_def)
    then show ?thesis using m(2) by (simp add: blank_def fits_def record_ok_def attr_off_def empty_record_def)
  qed
  moreover have "layout_records c n = Some (ms @ fs)" using ms fs by (simp add: layout_records_def assms(2) k_def Let_def add.commute)
  ultimately show ?thesis using len n by (intro exI [of _ "ms @ fs"]) auto
qed

lemma boot_sector_length: "boot_sector opts v m mm serial = Some bs \<Longrightarrow> length bs = 8192"
  using boot_bytes_fields(1) by (auto simp: boot_sector_def boot_bytes_def [symmetric] split: option.splits prod.splits)

section \<open>Success\<close>

text \<open>
  C20: the system files are made, and are what they should be. On a volume with accepted parameters and records of 1024 bytes, with memory, with the
  library as documented, on a device that takes every write inside its bounds, when every system file with a place of its own has one that is long
  enough, and when behind the MFT zone there is a free stretch of clusters for the others, \<^verbatim>\<open>mkntfs_create_root_structures\<close> returns success. The root
  directory then lists exactly the system files with their references, each under its name and in the order of the upcase table; the records of these
  files carry their numbers, their sequence numbers and the flag for a record in use; and the bitmap of the MFT has the bits of the records in use.
\<close>

theorem root_structures_made:
  fixes c :: "'d root_cfg"
  assumes v: "vol_ok max_cs (rc_opts c) (rc_vol c)" and rs: "vp_mft_record_size (rc_vol c) = 1024"
    and e: "well_equipped c" "names_served up c" "pairs_served c" and d: "device_ready R c"
    and r: "records_served c" and sz: "values_sized c" and boot: "\<forall>bs. the_boot c (fmt_of s) = Some bs \<longrightarrow> rc_is_ntfs c bs"
    and F: "places_ready c (fmt_of s)" and free: "rich R (vp_nr_clusters (rc_vol c)) (clusters_needed c (fmt_of s)) (rs_mk s)" and b: "buffers_ready s"
  shows "\<exists>s'. mkntfs_create_root_structures c s = Ret (True, s') \<and>
    (\<exists>h. rs_index s' = Some h \<and> dir_ok up h \<and> listing h = links c root_links) \<and>
    (\<forall>(nm, i) \<in> set root_files. m_number (rs_recs s' ! i) = i \<and> m_sequence_number (rs_recs s' ! i) = first_seq i \<and>
       MFT_RECORD_IN_USE \<in> m_flags (rs_recs s' ! i)) \<and>
    (\<forall>i < 27. test_bit (rs_mft_bitmap s') i \<longleftrightarrow> MFT_RECORD_IN_USE \<in> m_flags (rs_recs s' ! i))"
proof -
  define F where "F = fmt_of s"
  have p: "prepared up R c" by (rule prepared_intro [OF v rs e d])
  have "\<exists>bs. the_boot c F = Some bs" unfolding the_boot_def by (rule boot_sector_defined [OF v])
  then have "\<exists>bs. the_boot c F = Some bs \<and> length bs = 8192 \<and> rc_is_ntfs c bs" using boot boot_sector_length unfolding the_boot_def F_def by blast
  then have w: "well_supplied c F"
    using r sz volume_in_device(3,4) [OF v] by (simp add: well_supplied_def records_served_def values_sized_def)
  have "0 \<le> g_mft_size F" using F by (auto simp: places_ready_def covers_def F_def)
  from records_laid_out [OF r rs this] obtain recs where recs: "layout_records c (g_mft_size F) = Some recs" "27 \<le> length recs"
    "g_mft_size F \<le> 1024 * int (length recs)" "\<forall>i < 27. blank up (recs ! i)" by blast
  have bm: "rs_mft_bitmap s \<noteq> []" using b by (auto simp: buffers_ready_def)
  have "world up R c F (info_plan up (clusters_needed c F) 0) (s\<lparr>rs_recs := recs\<rparr>)"
    using recs(2-4) free bm b by (simp add: world_def info_plan_def fmt_of_def F_def buffers_ready_def)
  from create_files_ok [OF p d F [folded F_def] w this] obtain s' where "create_files c (s\<lparr>rs_recs := recs\<rparr>) = Ret (None, s')" by blast
  then have run: "mkntfs_create_root_structures c s = Ret (True, s')" using recs(1) by (simp add: mkntfs_create_root_structures_def F_def)
  have n: "names_ok c up" using e(2) by (simp add: names_ok_def names_served_def good_names_def)
  have fr: "fresh_records c" unfolding fresh_records_def
  proof (intro allI impI)
    fix i m
    assume "rc_layout c i = Some m"
    moreover obtain m' where "rc_layout c i = Some m'" "empty_record m'" using r by (meson records_served_def)
    ultimately show "m_attrs m = [] \<and> m_flags m = {}" by (simp add: empty_record_def)
  qed
  have "resizes c" "vp_indx_record_size (rc_vol c) = 4096" using r v by (simp_all add: records_served_def vol_ok_def)
  from root_structures [OF run n this(1) fr this(2)] b run show ?thesis by (auto simp: buffers_ready_def)
qed


section \<open>A volume of one gigabyte\<close>

text \<open>The system files on a host in memory, after the layout of the example.\<close>

definition ex_root_env :: "((int \<Rightarrow> byte) \<times> devstate) mkenv" where
  "ex_root_env = \<lparr>me_ops = ex_ops, me_wr = dev_wr ram_io, me_sk = dev_sk ram_io, me_no_act = False, me_mem = True, me_rmem = (\<lambda>_. True),
     me_cs = 4096, me_nr = 262143, me_sector_size = 512, me_dynbuf = replicate 4096 0,
     me_str2ucs = (\<lambda>n. case n of None \<Rightarrow> Some Unnamed | Some s \<Rightarrow> Some (Named (ascii s))),
     me_mp_size = (\<lambda>rl. Some 18), me_mp_build = (\<lambda>rl n. Some (replicate n 0)), me_stale = (0, []), me_errno = ENOENT\<rparr>"

definition ex_new_record :: "nat \<Rightarrow> mft_record" where
  "ex_new_record i = \<lparr>m_number = i, m_attrs_offset = 56, m_bytes_in_use = 64, m_bytes_allocated = 1024, m_next_attr_instance = 0, m_link_count = 0,
     m_sequence_number = 1, m_flags = {}, m_attrs = []\<rparr>"

definition ex_root_cfg :: "((int \<Rightarrow> byte) \<times> devstate) root_cfg" where
  "ex_root_cfg = \<lparr>rc_env = (\<lambda>_. ex_root_env), rc_now = int, rc_mb = (\<lambda>s. Some (ascii s)), rc_layout = (\<lambda>i. Some (ex_new_record i)),
     rc_bytes = (\<lambda>ms. replicate (1024 * length ms) 0), rc_resize = resized_value, rc_blk = (\<lambda>_. Some (replicate 4096 0)), rc_is_ntfs = (\<lambda>_. True),
     rc_vi = (\<lambda>_ _ _. replicate 12 0), rc_oi = (\<lambda>_. replicate 56 0), rc_sdc = ms_consts,
     rc_quota = \<lparr>QUOTA_FLAG_DEFAULT_LIMITS = 1, QUOTA_FIRST_USER_ID = 0x100\<rparr>, rc_opts = ex_opts', rc_vol = ex_vol_params, rc_vol_name = Some ''data'',
     rc_upcase = replicate 65536 0, rc_upcaseinfo = replicate 32 0, rc_guid = replicate 16 0, rc_random = (1, 2)\<rparr>"

definition ex_root_st :: "((int \<Rightarrow> byte) \<times> devstate) root_st" where
  "ex_root_st = \<lparr>rs_recs = [], rs_index = None, rs_mft_bitmap = replicate 8 0, rs_sd = replicate 0x68 0, rs_root_sd = replicate 0x102c 0, rs_clock = 0,
     rs_mk = \<lparr>ms_fmt = ex_fmt, ms_dev = (\<lambda>_. 0, ex_dev)\<rparr>\<rparr>"

lemma ex_resizes: "resizes ex_root_cfg"
  unfolding resizes_def
proof (intro allI impI)
  fix m k v n m'
  assume "rc_resize ex_root_cfg m k v n = Some m'"
  then have r: "resized_value m k v n = Some m'" by (simp add: ex_root_cfg_def)
  then obtain vo vl v0 rf where f: "a_form (m_attrs m ! k) = Resident vo vl v0 rf" by (auto simp: resized_value_def split: attr_form.splits)
  let ?a = "(m_attrs m ! k)\<lparr>a_length := (vo + n + 7) div 8 * 8, a_form := Resident vo n v rf\<rparr>"
  have "m_attrs m' = (m_attrs m)[k := ?a]" "ident m' = ident m" using r f by (auto simp: resized_value_def Let_def ident_def split: if_splits)
  then show "ident m' = ident m \<and> (\<exists>a. attr_val a = Some v \<and> m_attrs m' = (m_attrs m)[k := a])"
    by (intro conjI exI [of _ ?a]) (simp_all add: attr_val_def)
qed

lemma ex_served: "well_equipped ex_root_cfg" "names_served id ex_root_cfg" "pairs_served ex_root_cfg" "records_served ex_root_cfg" "values_sized ex_root_cfg"
    "buffers_ready ex_root_st"
proof -
  show "well_equipped ex_root_cfg"
    by (simp add: well_equipped_def ex_root_cfg_def ex_root_env_def csize_def ex_vol_params_def ex_opts'_def)
  have "inj_on ascii sys_names" "inj_on ascii attr_names" by (simp_all add: inj_on_def sys_names_def attr_names_def ascii_def)
  then show "names_served id ex_root_cfg"
    by (simp add: names_served_def ex_root_cfg_def ex_root_env_def good_names_def ex_ops_def collates_def ex_collate_def)
  show "pairs_served ex_root_cfg" by (simp add: pairs_served_def ex_root_cfg_def ex_root_env_def)
  show "records_served ex_root_cfg"
    using ex_resizes by (simp add: records_served_def resizing_def ex_root_cfg_def empty_record_def ex_new_record_def)
  show "values_sized ex_root_cfg" by (simp add: values_sized_def ex_root_cfg_def ascii_def)
  show "buffers_ready ex_root_st" by (auto simp: buffers_ready_def ex_root_st_def test_bit_def)
qed

lemma ex_device: "device_ready (\<lambda>d. \<not> d_readonly (snd d)) ex_root_cfg"
proof -
  have "full_device (dev_wr ram_io) (dev_sk ram_io) (\<lambda>d. \<not> d_readonly (snd d)) (\<lambda>s. d_pos (snd s)) (2 ^ 30)" by (rule ram_full.full_device_axioms)
  then show ?thesis unfolding device_ready_def by (auto simp: ex_root_cfg_def ex_root_env_def ex_opts'_def)
qed

lemma ex_fmt_fields:
  "g_rl_mft ex_fmt = one_run 4 7" "g_rl_mft_bmp ex_fmt = one_run 2 1" "g_rl_mftmirr ex_fmt = one_run 131071 1" "g_rl_logfile ex_fmt = one_run 131072 1310"
  "g_rl_boot ex_fmt = one_run 0 2" "g_rl_bad ex_fmt = one_run (-1) 262143" "g_mft_size ex_fmt = 27648" "g_mft_bitmap_byte_size ex_fmt = 8"
  "g_logfile_size ex_fmt = 5365760" "g_lcn_bitmap_byte_size ex_fmt = 32768" "g_mft_zone_end ex_fmt = 32771"
  "g_allocation ex_fmt = [\<lparr>ba_lcn = 0, ba_length = 2\<rparr>, \<lparr>ba_lcn = 2, ba_length = 1\<rparr>, \<lparr>ba_lcn = 4, ba_length = 7\<rparr>, \<lparr>ba_lcn = 131071, ba_length = 1311\<rparr>,
     \<lparr>ba_lcn = 262143, ba_length = 1\<rparr>]"
  by (simp_all add: ex_fmt_def ex_fmt1_def ex_fmt2_def)

lemma ex_places: "places_ready ex_root_cfg ex_fmt"
  by (simp add: places_ready_def covers_def mirror_bytes_def ex_fmt_fields ex_root_cfg_def csize_def ex_vol_params_def one_run_def)

lemma ex_needed: "clusters_needed ex_root_cfg ex_fmt = 109"
proof -
  have "csize ex_root_cfg = 4096" "length (rc_upcase ex_root_cfg) = 65536" by (simp_all add: ex_root_cfg_def csize_def ex_vol_params_def)
  then show ?thesis
    by (simp add: clusters_needed_def dir_clusters_def root_sd_clusters_def attrdef_clusters_def bitmap_clusters_def sds_clusters_def upcase_clusters_def
        clusters_for_def ex_fmt_fields)
qed

lemma ex_free: "rich (\<lambda>d. \<not> d_readonly (snd d)) 262143 109 (rs_mk ex_root_st)"
proof -
  have "clusters (g_allocation ex_fmt) \<inter> {32771 ..< 32880} = {}" by (auto simp: ex_fmt_fields clusters_def)
  moreover have "alloc_inv (g_allocation ex_fmt)" by (simp add: ex_fmt_fields alloc_inv_def)
  ultimately show ?thesis
    unfolding rich_def by (intro conjI exI [of _ 32771]) (auto simp: ex_root_st_def ex_fmt_fields(11) ex_dev_def)
qed


theorem root_structures_made_witness:
  "\<exists>s'. mkntfs_create_root_structures ex_root_cfg ex_root_st = Ret (True, s') \<and>
    (\<exists>h. rs_index s' = Some h \<and> dir_ok id h \<and> listing h = links ex_root_cfg root_links) \<and>
    m_number (rs_recs s' ! 9) = 9 \<and> test_bit (rs_mft_bitmap s') 9"
proof -
  have f: "fmt_of ex_root_st = ex_fmt" "rc_opts ex_root_cfg = ex_opts'" "rc_vol ex_root_cfg = ex_vol_params" "vp_nr_clusters ex_vol_params = 262143"
    "vp_mft_record_size ex_vol_params = 1024" "\<And>bs. rc_is_ntfs ex_root_cfg bs"
    by (simp_all add: fmt_of_def ex_root_st_def ex_root_cfg_def ex_vol_params_def)
  have v: "vol_ok (2 ^ 21) (rc_opts ex_root_cfg) (rc_vol ex_root_cfg)" "vp_mft_record_size (rc_vol ex_root_cfg) = 1024"
    "places_ready ex_root_cfg (fmt_of ex_root_st)"
    "rich (\<lambda>d. \<not> d_readonly (snd d)) (vp_nr_clusters (rc_vol ex_root_cfg)) (clusters_needed ex_root_cfg (fmt_of ex_root_st)) (rs_mk ex_root_st)"
    "\<forall>bs. the_boot ex_root_cfg (fmt_of ex_root_st) = Some bs \<longrightarrow> rc_is_ntfs ex_root_cfg bs"
    using ex_vol_ok ex_places ex_free by (simp_all add: f ex_needed)
  from root_structures_made [OF v(1,2) ex_served(1-3) ex_device ex_served(4,5) v(5,3,4) ex_served(6)] obtain s' where
    s': "mkntfs_create_root_structures ex_root_cfg ex_root_st = Ret (True, s')"
      "\<exists>h. rs_index s' = Some h \<and> dir_ok id h \<and> listing h = links ex_root_cfg root_links"
      "\<forall>(nm, i) \<in> set root_files. m_number (rs_recs s' ! i) = i \<and> m_sequence_number (rs_recs s' ! i) = first_seq i \<and>
         MFT_RECORD_IN_USE \<in> m_flags (rs_recs s' ! i)"
      "\<forall>i < 27. test_bit (rs_mft_bitmap s') i \<longleftrightarrow> MFT_RECORD_IN_USE \<in> m_flags (rs_recs s' ! i)" by blast
  have "(''$Secure'', 9) \<in> set root_files" by (simp add: root_files_def)
  with s'(3) have "m_number (rs_recs s' ! 9) = 9" "MFT_RECORD_IN_USE \<in> m_flags (rs_recs s' ! 9)" by auto
  with s' show ?thesis by auto
qed

end
