(* ===== verification/Format_Ends.thy ===== *)
theory Format_Ends
  imports Format_Sync
begin

text \<open>
  The formatter ends. Its loops that retry a write are bounded by the retries and by what the device takes, whatever runlists and values
  they are given; every step that makes a system file therefore ends, and so does the whole run.
\<close>

section \<open>Writes end\<close>

text \<open>
  The interface: a device that reports an error or a number of bytes between none and all. The sequential writer of the callback device
  is one.
\<close>

locale bounded_writer =
  fixes wr :: "'d \<Rightarrow> byte list \<Rightarrow> int \<times> 'd"
  assumes bounded: "wr d bs = (n, d') \<Longrightarrow> n \<noteq> -1 \<Longrightarrow> 0 \<le> n \<and> n \<le> int (length bs)"
begin

lemma mkwrite_loop_ends [simp]: "mkwrite_loop wr b count tot retry d \<noteq> None"
proof (induction "4 * nat count + (3 - retry)" arbitrary: count tot retry d rule: less_induct)
  case less
  obtain n d1 where w: "wr d (take (nat count) b) = (n, d1)" by fastforce
  have n: "n = -1 \<or> 0 \<le> n \<and> n \<le> int (nat count)" using bounded [OF w] by auto
  have 1: "mkwrite_loop wr b count tot (retry + 1) d1 \<noteq> None" if "retry + 1 < 3" using less.hyps that by simp
  have 2: "mkwrite_loop wr b (count - n) (tot + n) retry d1 \<noteq> None" if "n \<noteq> -1" "n \<noteq> 0" "retry < 3"
  proof (rule less.hyps)
    have "0 < n" "n \<le> int (nat count)" using n that by auto
    then show "4 * nat (count - n) + (3 - retry) < 4 * nat count + (3 - retry)" by linarith
  qed
  from 1 2 n show ?case by (subst mkwrite_loop.simps) (auto simp: w)
qed

lemma mkntfs_write_ends' [simp]: "mkntfs_write wr na d b count \<noteq> None"
  by (metis mkntfs_write_def mkwrite_loop_ends option.distinct(1))

lemma typed_write_bounded:
  assumes "typed_write wr wt val t dynbuf tot len d = (n, d')" and "n \<noteq> -1"
  shows "0 \<le> n \<and> n \<le> int (nat len)"
proof -
  obtain bs where bs: "wr d bs = (n, d')" "length bs \<le> nat len"
  proof (cases wt)
    case WRITE_STANDARD
    with assms(1) that [of "take (nat len) (drop (nat tot) val)"] show ?thesis by (simp add: typed_write_def)
  next
    case WRITE_BITMAP
    let ?pl = "partial_len dynbuf len"
    have "length (take (nat ?pl) (bitmap_build t dynbuf (tot * 8) (?pl * 8))) \<le> nat len" by (simp add: partial_len_def) linarith
    with WRITE_BITMAP assms(1) that show ?thesis by (simp add: typed_write_def mkntfs_bitmap_write_def Let_def)
  next
    case WRITE_LOGFILE
    have "length (replicate (nat (partial_len dynbuf len)) (255 :: byte)) \<le> nat len" by (simp add: partial_len_def) linarith
    with WRITE_LOGFILE assms(1) that show ?thesis by (simp add: typed_write_def mkntfs_logfile_write_def Let_def)
  qed
  with bounded [OF bs(1) assms(2)] show ?thesis by (meson of_nat_mono order_trans)
qed

lemma rl_write_run_ends [simp]: "rl_write_run (typed_write wr wt val t dynbuf) tot len inited retry d \<noteq> None"
proof (induction "4 * nat len + (3 - retry)" arbitrary: tot len inited retry d rule: less_induct)
  case less
  let ?w = "typed_write wr wt val t dynbuf"
  obtain n d1 where w: "?w tot len d = (n, d1)" by fastforce
  have n: "n = -1 \<or> 0 \<le> n \<and> n \<le> int (nat len)" using typed_write_bounded [OF w] by auto
  have 1: "rl_write_run ?w tot len inited (retry + 1) d1 \<noteq> None" if "retry + 1 < 3" using less.hyps that by simp
  have 2: "rl_write_run ?w (tot + n) (len - n) (inited + n) retry d1 \<noteq> None" if "n \<noteq> -1" "n \<noteq> 0" "retry < 3"
  proof (rule less.hyps)
    have "0 < n" "n \<le> int (nat len)" using n that by auto
    then show "4 * nat (len - n) + (3 - retry) < 4 * nat len + (3 - retry)" by linarith
  qed
  from 1 2 n show ?case by (subst rl_write_run.simps) (auto simp: w)
qed

lemma rl_write_runs_ends [simp]: "rl_write_runs (typed_write wr wt val t dynbuf) sk cs n rl tot delta inited d \<noteq> None"
proof (induction rl arbitrary: tot delta inited d)
  case (Cons r rl)
  then show ?case
    by (auto simp: Let_def split: prod.splits option.splits)
qed simp

lemma rlwrite_ends [simp]: "ntfs_rlwrite wr sk na mem cs wt t dynbuf rl val n d \<noteq> None"
  by (auto simp: ntfs_rlwrite_def split: option.splits sum.splits prod.splits)

lemma zero_clusters_ends [simp]: "zero_clusters wr sk eio na memb buf cs pos k s d \<noteq> None"
  by (induction k arbitrary: pos s d) (auto split: option.splits prod.splits)

lemma zero_sectors_ends [simp]: "zero_sectors wr skc eio na buf ss k d \<noteq> None"
  by (induction k arbitrary: d) (auto split: option.splits prod.splits)

lemma fill_ends [simp]: "mkntfs_fill_device_with_zeroes wr sk skc eio memb buf opts v s d \<noteq> None"
  by (auto simp: mkntfs_fill_device_with_zeroes_def split: option.splits prod.splits)

lemma backup_ends [simp]: "create_backup_boot_sector wr sk opts bs d \<noteq> None"
  by (auto simp: create_backup_boot_sector_def Let_def split: option.splits prod.splits)

section \<open>Adding attributes ends\<close>

lemma write_and_map_ends [simp]: "me_wr env = wr \<Longrightarrow> write_and_map env wt rl val n mpa k attr init m st \<noteq> Hang"
  by (auto simp: write_and_map_def Let_def split: option.splits prod.splits)

lemma resident_ends [simp]: "add_resident env type name nl ic fl rf val m st \<noteq> Hang"
  by (auto simp: add_resident_def insert_resident_attr_in_mft_record_def Let_def split: run.splits option.splits if_splits attr_search.splits)

lemma place_for_ends [simp]: "place_for env type name ic fl m \<noteq> Hang"
  by (auto simp: place_for_def split: option.splits attr_search.splits)

lemma positioned_ends [simp]: "me_wr env = wr \<Longrightarrow> insert_positioned_attr_in_mft_record env type name nl ic fl rl val n m st \<noteq> Hang"
  by (auto simp: insert_positioned_attr_in_mft_record_def split: run.splits sum.splits option.splits prod.splits)

lemma non_resident_ends [simp]: "me_wr env = wr \<Longrightarrow> insert_non_resident_attr_in_mft_record env type name nl ic fl val n wt m st \<noteq> Hang"
  by (auto simp: insert_non_resident_attr_in_mft_record_def Let_def split: run.splits sum.splits option.splits prod.splits)

end

text \<open>A sequential writer is bounded.\<close>

sublocale seq_writer \<subseteq> bounded_writer wr
  using wr_law by unfold_locales blast

section \<open>Making the system files ends\<close>

text \<open>A step that never runs without end, in surroundings that always write through the same device.\<close>

definition step_ends :: "'d root_cfg \<Rightarrow> 'd root_step \<Rightarrow> bool" where
  "step_ends c f \<longleftrightarrow> (\<forall>s. f c s \<noteq> Hang)"

lemma andthen_ends: "step_ends c f \<Longrightarrow> step_ends c g \<Longrightarrow> step_ends c (andthen f g)"
  by (auto simp: step_ends_def andthen_def split: run.splits option.splits)

lemma all_of_ends: "list_all (step_ends c) fs \<Longrightarrow> step_ends c (all_of fs)"
proof (induction fs)
  case Nil
  then show ?case by (simp add: step_ends_def)
qed (simp add: andthen_ends)

lemma on_record_ends:
  "(\<And>s env m mk. me_wr env = me_wr (rc_env c (rs_clock s)) \<Longrightarrow> g c s env m mk \<noteq> Hang) \<Longrightarrow> step_ends c (on_record i g)"
  by (auto simp: step_ends_def on_record_def split: run.splits)

lemma on_view_ends: "(\<And>s env m. g c s env m \<noteq> Hang) \<Longrightarrow> step_ends c (on_view i g)"
  by (auto simp: step_ends_def on_view_def split: run.splits)

lemma insert_entry_ends: "insert_index_entry_in_res_dir_index env rsz e sz nm t m \<noteq> Hang"
  by (auto simp: insert_index_entry_in_res_dir_index_def Let_def
      split: attr_search.splits attr_form.splits attr_value.splits option.splits index_key.splits)

lemma then_insert_ends: "r \<noteq> Hang \<Longrightarrow> (\<And>m. f m \<noteq> Hang) \<Longrightarrow> then_insert r f \<noteq> Hang"
  by (auto simp: then_insert_def split: run.splits option.splits)

lemma secure_ends: "secure_from env rsz at sz pos m \<noteq> Hang"
proof (induction "sz - pos" arbitrary: pos m rule: less_induct)
  case less
  have "secure_from env rsz at sz (pos + (sds_length (at pos) + 15) div 16 * 16) m' \<noteq> Hang"
    if "pos < sz" "sds_length (at pos) \<noteq> 0" for m'
  proof (rule less.hyps)
    have "16 div 16 * 16 \<le> (sds_length (at pos) + 15) div 16 * 16" using that by (intro mult_le_mono1 div_le_mono) simp
    then show "sz - (pos + (sds_length (at pos) + 15) div 16 * 16) < sz - pos" using that by simp
  qed
  then show ?case by (subst secure_from.simps) (auto simp: then_insert_ends insert_entry_ends)
qed

lemma view_ends:
  "initialize_secure env mem rsz at sz m \<noteq> Hang" "initialize_quota env q sdc rsz now m \<noteq> Hang"
  "index_obj_id_insert env rsz oi guid ref m \<noteq> Hang"
  by (simp_all add: initialize_secure_def initialize_quota_def index_obj_id_insert_def secure_ends insert_entry_ends then_insert_ends Let_def)

lemma link_file_ends:
  assumes "\<And>f i. enter f i \<noteq> Hang"
  shows "link_file env enter f m idx \<noteq> Hang"
  using assms by (auto simp: link_file_def insert_resident_attr_in_mft_record_def Let_def
      split: run.splits option.splits attr_search.splits prod.splits)

lemma links_end: "step_ends c (link_root i ref al da fl nm)" "step_ends c (link_extend i ref fl nm)"
  by (auto simp: step_ends_def link_root_def link_extend_def create_hardlink_def create_hardlink_res_def link_file_ends insert_entry_ends
      split: option.splits run.splits sum.splits)

lemma set_flags_ends: "step_ends c (set_flags i fl)" "step_ends c (count_link i)"
  by (simp_all add: step_ends_def set_flags_def count_link_def)

lemma guard_ends:
  "step_ends c f \<Longrightarrow> step_ends c (\<lambda>c s. if b c s then f c s else Ret (None, s))"
  "step_ends c (\<lambda>c s. if b c s then Ret (None, s) else Ret (Some e, s))"
  by (auto simp: step_ends_def)

context bounded_writer
begin

definition writes_through :: "'d root_cfg \<Rightarrow> bool" where
  "writes_through c \<longleftrightarrow> (\<forall>n. me_wr (rc_env c n) = wr)"

lemma through_ends:
  "writes_through c \<Longrightarrow> (\<And>s env m mk. me_wr env = wr \<Longrightarrow> g c s env m mk \<noteq> Hang) \<Longrightarrow> step_ends c (on_record i g)"
  by (rule on_record_ends) (simp add: writes_through_def)

lemma attribute_ends:
  assumes "writes_through c"
  shows "step_ends c (on_record i (\<lambda>c s env m mk. add_attr_data_positioned env (nm c s) nl ic fl (rl c s) (v c s) (n c s) m mk))"
    "step_ends c (on_record i (\<lambda>c s env m mk. add_attr_bitmap_positioned env (nm c s) nl ic (rl c s) (v c s) m mk))"
    "step_ends c (on_record i (\<lambda>c s env m mk. add_attr_data env (nm c s) nl ic fl (ov c s) m mk))"
    "step_ends c (on_record i (\<lambda>c s env m mk. insert_non_resident_attr_in_mft_record env t (nm c s) nl ic fl (v c s) (n c s) wt m mk))"
    "step_ends c (on_record i (\<lambda>c s env m mk. add_attr_vol_name env (mb c s) (vn c s) m mk))"
    "step_ends c (on_record i (\<lambda>c s env m mk. add_attr_vol_info env (vi c s) d x y m mk))"
    "step_ends c (on_record i (\<lambda>c s env m mk. add_attr_object_id env g m mk))"
    "step_ends c (on_record i (\<lambda>c s env m mk. add_attr_sd env sd m mk))"
    "step_ends c (on_record i (\<lambda>c s env m mk. add_attr_std_info env (now c s) (ff c s) sid m mk))"
    "step_ends c (on_record i (\<lambda>c s env m mk. add_attr_file_name env (mb c s) p al da fl' ea rp str ns m mk))"
    "step_ends c (add_empty_data i)" "step_ends c (add_view_root i name nl t rule)"
  unfolding add_empty_data_def add_view_root_def
  by (rule through_ends [OF assms],
      auto simp: add_attr_data_positioned_def add_attr_bitmap_positioned_def add_attr_data_def add_attr_vol_name_def add_attr_vol_info_def
        add_attr_object_id_def add_attr_sd_def add_attr_std_info_def add_attr_file_name_def add_attr_index_root_def find_value_def Let_def
        split: option.splits run.splits sum.splits attr_form.splits attr_value.splits attr_search.splits)+

lemma sd_ends:
  assumes "writes_through c"
  shows "step_ends c (add_system_sd i)" "step_ends c add_root_sd"
  using attribute_ends(8) [OF assms, unfolded step_ends_def]
  by (auto simp: step_ends_def add_system_sd_def add_root_sd_def Let_def split: prod.splits option.splits)

lemma system_file_info_ends: "writes_through c \<Longrightarrow> step_ends c (system_file_info i)"
  using attribute_ends(9) [unfolded step_ends_def]
  by (auto simp: step_ends_def system_file_info_def Let_def split: run.splits)

lemma upgrade_ends: "me_wr env = wr \<Longrightarrow> upgrade_to_large_index env rz blk name nl ic m st \<noteq> Hang"
  by (auto simp: upgrade_to_large_index_def add_attr_bitmap_def add_attr_index_alloc_def Let_def
      split: option.splits attr_search.splits attr_form.splits attr_value.splits run.splits)

lemma root_dir_ends: "writes_through c \<Longrightarrow> step_ends c create_root_dir"
proof -
  assume c: "writes_through c"
  have "step_ends c upgrade_root"
    using c by (auto simp: step_ends_def upgrade_root_def writes_through_def upgrade_ends split: run.splits)
  moreover have "step_ends c enter_root_name"
    by (auto simp: step_ends_def enter_root_name_def Let_def split: attr_search.splits attr_form.splits attr_value.splits option.splits prod.splits)
  ultimately show ?thesis
    unfolding create_root_dir_def by (intro all_of_ends) (simp add: attribute_ends [OF c] sd_ends [OF c] set_flags_ends)
qed

lemma files_end:
  assumes "writes_through c"
  shows "step_ends c create_mft" "step_ends c create_mftmirr" "step_ends c create_logfile" "step_ends c create_attrdef"
    "step_ends c create_bitmap" "step_ends c (create_boot bs)" "step_ends c (create_file_volume d g)" "step_ends c create_badclus"
    "step_ends c create_secure" "step_ends c create_upcase" "step_ends c create_extend" "step_ends c (create_reserved i)"
    "step_ends c create_quota" "step_ends c (create_objid g)" "step_ends c create_reparse"
  unfolding create_mft_def create_mftmirr_def create_logfile_def create_attrdef_def create_bitmap_def create_boot_def
    create_file_volume_def create_badclus_def create_secure_def create_upcase_def create_extend_def create_reserved_def create_quota_def
    create_objid_def create_reparse_def
  by (intro all_of_ends, simp add: attribute_ends [OF assms] sd_ends [OF assms] links_end set_flags_ends guard_ends view_ends on_view_ends)+

lemma boot_and_volume_ends: "writes_through c \<Longrightarrow> step_ends c create_boot_and_volume"
  using files_end(6,7) [unfolded step_ends_def]
  by (auto simp: step_ends_def create_boot_and_volume_def backup_boot_def writes_through_def Let_def split: option.splits run.splits prod.splits)

lemma root_structures_end: "writes_through c \<Longrightarrow> mkntfs_create_root_structures c s \<noteq> Hang"
proof -
  assume c: "writes_through c"
  have "create_files c s' \<noteq> Hang" for s'
    unfolding create_files_def
    by (rule all_of_ends [unfolded step_ends_def, rule_format])
      (simp add: list_all_iff files_end [OF c] boot_and_volume_ends [OF c] root_dir_ends [OF c] system_file_info_ends [OF c]
        flip: step_ends_def)
  then show ?thesis by (auto simp: mkntfs_create_root_structures_def split: option.splits run.splits)
qed

section \<open>The run ends\<close>

lemma sync_ends:
  assumes "me_wr env = wr"
  shows "mkntfs_sync_index_record env dc blk idx m name st \<noteq> Hang" "sync_bitmap env dc m st \<noteq> Hang"
  unfolding mkntfs_sync_index_record_def sync_bitmap_def assms
  by (auto simp: Let_def split: attr_search.splits attr_form.splits option.splits prod.splits)

lemma last_phases_end:
  assumes "\<forall>n. me_wr (rc_env (mc_root c) n) = wr"
  shows "zero_phase c s \<noteq> Hang" "root_phase c s \<noteq> Hang" "index_phase c s \<noteq> Hang" "bitmap_phase c s \<noteq> Hang"
proof -
  have e: "me_wr (cur_env c s) = wr" and c: "writes_through (root_cfg_of c s)"
    using assms by (simp_all add: cur_env_def root_cfg_of_def writes_through_def)
  show "zero_phase c s \<noteq> Hang" using fill_ends by (auto simp: zero_phase_def e split: option.splits)
  show "root_phase c s \<noteq> Hang" using root_structures_end [OF c] by (auto simp: root_phase_def split: run.splits)
  show "index_phase c s \<noteq> Hang" "bitmap_phase c s \<noteq> Hang"
    using sync_ends [OF e] by (auto simp: index_phase_def bitmap_phase_def on_device_def split: option.splits run.splits)
qed

end

lemma mft_sync_phases_end: "mft_phase c s \<noteq> Hang" "sync_phase c s \<noteq> Hang"
  by (auto simp: mft_phase_def sync_phase_def on_device_def sync_mft_def write_first_def Let_def split: run.splits prod.splits if_splits bool.splits)

text \<open>Accepted parameters give at least one cluster, unless a cluster larger than the smallest volume was asked for.\<close>

lemma some_cluster:
  assumes "mkntfs_override_vol_params max_cs d cs0 opts = Some (o4, v, w)" and "cs0 \<le> 2 ^ 20"
  shows "vol_ok max_cs o4 v \<and> 1 \<le> vp_nr_clusters v"
proof -
  have v: "vol_ok max_cs o4 v" by (rule override_vol_ok [OF assms(1)])
  then have nr: "vp_nr_clusters v = num_sectors o4 * sector_size o4 div int (vp_csize v)" "2 ^ 20 \<le> num_sectors o4 * sector_size o4"
    "0 < vp_csize v" by (auto simp: vol_ok_def)
  have "int (vp_csize v) \<le> num_sectors o4 * sector_size o4"
    using default_cluster_size [OF assms(1)] assms(2) nr by (auto split: if_splits)
  then have "0 < vp_nr_clusters v" using nr by (simp add: pos_imp_zdiv_pos_iff)
  with v show ?thesis by simp
qed

text \<open>The phases before the layout leave the formatter's variables alone and end with accepted parameters.\<close>

lemma open_cluster_size: "mkntfs_open_partition oc opts = (Some opts', b) \<Longrightarrow> opt_cluster_size opts' = opt_cluster_size opts"
  by (auto simp: mkntfs_open_partition_def Let_def sectors_of_stat_def split: option.splits if_splits)

lemma volume_phase_inv: "volume_phase c s = Ret (ok, s') \<Longrightarrow> k_root s' = k_root s \<and> k_opts s' = k_opts s"
  by (auto simp: volume_phase_def Let_def split: if_splits)

lemma open_phase_inv: "open_phase c s = Ret (ok, s') \<Longrightarrow> k_root s' = k_root s \<and> opt_cluster_size (k_opts s') = opt_cluster_size (k_opts s)"
  by (auto simp: open_phase_def Let_def dest: open_cluster_size split: option.splits prod.splits if_splits)

lemma params_phase_inv:
  assumes "params_phase c s = Ret (True, s')" and "opt_cluster_size (k_opts s) \<le> 2 ^ 20"
  shows "k_root s' = k_root s \<and> vol_ok (mc_max_cs c) (k_opts s') (k_vol s') \<and> 1 \<le> vp_nr_clusters (k_vol s')"
proof -
  have "given_cluster_size (k_opts s) \<le> 2 ^ 20"
    using assms(2) by (auto simp: given_cluster_size_def nat_le_iff)
  with assms(1) show ?thesis
    by (auto simp: params_phase_def dest: some_cluster split: option.splits)
qed

lemma first_phases_end: "volume_phase c s \<noteq> Hang" "open_phase c s \<noteq> Hang" "params_phase c s \<noteq> Hang"
  by (auto simp: volume_phase_def open_phase_def params_phase_def Let_def split: if_splits option.splits prod.splits)

lemma layout_phase_ends:
  assumes "mc_layout_mem c = all_mem" and "vol_ok max_cs (k_opts s) (k_vol s)" and "1 \<le> vp_nr_clusters (k_vol s)"
    and "g_mft_lcn (ms_fmt (k_mk s)) = 0" and "g_allocation (ms_fmt (k_mk s)) = []"
  shows "layout_phase c s \<noteq> Hang"
  using layout_spec [OF assms(2-5), of "mc_page c"] by (auto simp: layout_phase_def assms(1) split: option.splits prod.splits)

lemma phases_Cons_ends:
  "p c s \<noteq> Hang \<Longrightarrow> (\<And>s1. p c s = Ret (True, s1) \<Longrightarrow> phases ps c s1 \<noteq> Hang) \<Longrightarrow> phases (p # ps) c s \<noteq> Hang"
  by (auto split: run.splits bool.splits)

lemma redirect_ends:
  assumes "bounded_writer wr" and "\<forall>n. me_wr (rc_env (mc_root c) n) = wr" and "mc_layout_mem c = all_mem"
    and "opt_cluster_size (k_opts s) \<le> 2 ^ 20" and "g_mft_lcn (ms_fmt (k_mk s)) = 0" and "g_allocation (ms_fmt (k_mk s)) = []"
  shows "mkntfs_redirect c s \<noteq> Hang"
proof -
  note last = bounded_writer.last_phases_end [OF assms(1,2)] mft_sync_phases_end
  have "phases [volume_phase, open_phase, params_phase, layout_phase, zero_phase, root_phase, index_phase, bitmap_phase, mft_phase, sync_phase]
      c s \<noteq> Hang"
  proof (intro phases_Cons_ends first_phases_end last)
    fix s1 s2 s3
    assume p: "volume_phase c s = Ret (True, s1)" "open_phase c s1 = Ret (True, s2)" "params_phase c s2 = Ret (True, s3)"
    have r: "k_root s2 = k_root s" "opt_cluster_size (k_opts s2) \<le> 2 ^ 20"
      using volume_phase_inv [OF p(1)] open_phase_inv [OF p(2)] assms(4) by simp_all
    from params_phase_inv [OF p(3) r(2)] r(1) assms(5,6) show "layout_phase c s3 \<noteq> Hang"
      by (intro layout_phase_ends [OF assms(3), of "mc_max_cs c"]) (simp_all add: k_mk_def)
  qed simp
  then show ?thesis by (auto simp: mkntfs_redirect_def split: run.splits)
qed


section \<open>An example\<close>

text \<open>A host in memory, a library that succeeds, and no data in what it returns.\<close>

definition ex_root_cfg :: "((int \<Rightarrow> byte) \<times> devstate) root_cfg" where
  "ex_root_cfg = \<lparr>rc_env = (\<lambda>_. ex_env), rc_now = (\<lambda>_. 0), rc_mb = (\<lambda>s. Some (ascii s)), rc_layout = (\<lambda>_. Some ex_rec),
     rc_bytes = (\<lambda>_. []), rc_resize = (\<lambda>m k v n. Some (m\<lparr>m_attrs := (m_attrs m)[k := (m_attrs m ! k)\<lparr>a_form := Resident 24 n v False\<rparr>]\<rparr>)), rc_blk = (\<lambda>_. Some (replicate 4096 0)), rc_is_ntfs = (\<lambda>_. True),
     rc_vi = (\<lambda>_ _ _. replicate 12 0), rc_oi = (\<lambda>_. replicate 56 0), rc_sdc = ms_consts,
     rc_quota = \<lparr>QUOTA_FLAG_DEFAULT_LIMITS = 1, QUOTA_FIRST_USER_ID = 0x100\<rparr>, rc_opts = ex_opts', rc_vol = ex_vol_params,
     rc_vol_name = None, rc_upcase = [65], rc_upcaseinfo = [], rc_guid = replicate 16 0, rc_random = (1, 2)\<rparr>"

definition ex_main_cfg :: "((int \<Rightarrow> byte) \<times> devstate) main_cfg" where
  "ex_main_cfg = \<lparr>mc_vol_mem = True, mc_name_mem = True, mc_info_mem = True, mc_attrdef_mem = True, mc_upcase = [65], mc_crc_table = [],
     mc_open = \<lparr>oc_external = True, oc_alloc = False, oc_open = (\<lambda>_. True), oc_stat = Some \<lparr>ds_is_blk = True, ds_size = 0, ds_blocks = 0\<rparr>,
       oc_mounted = None\<rparr>,
     mc_dev_info = ex_dev_info, mc_max_cs = 2 ^ 21, mc_layout_mem = all_mem, mc_page = 4096, mc_skc = (\<lambda>d _. d), mc_eio = (\<lambda>_. False),
     mc_bad_mem = True, mc_to_ntfs = fst, mc_tod = (\<lambda>_. None), mc_clock = (\<lambda>_. 0), mc_root = ex_root_cfg, mc_decompress = (\<lambda>_. None),
     mc_usn = (\<lambda>_. 1), mc_usn_dec = usn_pred, mc_mst = dev_mst ram_io ex_protect usn_succ, mc_sync = (\<lambda>d. (True, d))\<rparr>"

definition ex_main_st :: "((int \<Rightarrow> byte) \<times> devstate) main_st" where
  "ex_main_st = \<lparr>k_opts = mkntfs_init_options, k_vol = ex_vol_params, k_info = [],
     k_root = \<lparr>rs_recs = [], rs_index = None, rs_mft_bitmap = [], rs_sd = replicate 0x68 0, rs_root_sd = replicate 0x102c 0, rs_clock = 0,
       rs_mk = \<lparr>ms_fmt = fmt0, ms_dev = (\<lambda>_. 7, ex_dev)\<rparr>\<rparr>, k_held = {}\<rparr>"


end
