(* ===== verification/Spec2Isabelle.thy ===== *)
theory Spec2Isabelle
  imports Mem_Engine Mount Namespace Mft_Search Utils_Text Link_Props Boot_Code Root_Total Format_Ends
begin

text \<open>
  NTFSKit mounts NTFS volumes through a file-system extension. Its C code is a bridge over the NTFS engine
  libntfs-3g (\<^verbatim>\<open>src/NTFSModule/bridge\<close>) and the formatter \<^verbatim>\<open>mkntfs\<close>, which runs inside the same process
  (\<^verbatim>\<open>src/NTFSModule/bridge/mkntfs\<close>). This development models both, file by file, and proves what a user of the volume relies on.

  \<^bold>\<open>How the parts fit together.\<close> The Swift module calls the bridge (\<^verbatim>\<open>ntfs_bridge.c\<close>). The bridge opens the host's storage
  as a device of libntfs-3g through callbacks, if need be behind the BitLocker decryption of \<^verbatim>\<open>nk_bde.c\<close>, and mounts the volume. For
  reads and writes of file data it hands device extents to the kernel (\<^verbatim>\<open>nk_blockmap\<close>) and learns later whether they have landed
  (\<^verbatim>\<open>nk_complete_write\<close>, \<^verbatim>\<open>nk_abort_write\<close>); a table of high-water marks remembers up to where data may be in flight. Formatting calls
  \<^verbatim>\<open>nk_mkntfs_main\<close>, which parses options, chooses the volume's parameters, places the system files, builds their MFT records
  and writes everything through the same callbacks.

  \<^bold>\<open>Conventions.\<close> \<open>Prelude\<close> has the machine integers, byte buffers, little-endian fields and error numbers. A \<^verbatim>\<open>struct\<close> is a record, an
  enumeration a datatype. Where 64-bit arithmetic is guarded by the code the values are \<^typ>\<open>int\<close> and the range is a theorem; where it wraps, the
  wrap-around is written out. A function that changes state takes the state and returns it. An error is a value: \<^verbatim>\<open>errno\<close>, a negative
  result, or \<open>None\<close>. Loops that need not end are options, \<open>None\<close> being the run that does not end, and that they end is a theorem;
  the formatter's steps distinguish in the datatype \<open>run\<close> between a result, a loop that does not end (\<open>Hang\<close>) and undefined
  behaviour (\<open>Undef\<close>). There is no fuel anywhere. libntfs-3g, libbde, the C library's memory and clock and the host's callbacks are arguments of
  the definitions; what the code relies on of them is stated as a predicate or as the assumptions of a locale, and each such predicate is
  instantiated by a concrete host and engine in the witnesses.

  \<^bold>\<open>The bridge\<close> (\<^verbatim>\<open>ntfs_bridge.c\<close>, \<^verbatim>\<open>nk_bde.c\<close>).

  \<^item> \<open>Wr_Table\<close>: \<^verbatim>\<open>struct nk_wr\<close> and \<^verbatim>\<open>wr_find\<close>, \<^verbatim>\<open>wr_set\<close>, \<^verbatim>\<open>wr_drop\<close>. The locale \<open>hwm_table\<close> is the finite map the block map relies on; the array implements it.

  \<^item> \<open>Runlist\<close>: \<^verbatim>\<open>bad_runlist\<close>, \<^verbatim>\<open>zero_raw\<close> and the emission of extents. An accepted runlist is contiguous, inside the volume and free of
    overflow; zeroing clears exactly its range; the extents tile the window.

  \<^item> \<open>Koio\<close>: \<^verbatim>\<open>nk_blockmap\<close>, \<^verbatim>\<open>nk_complete_write\<close>, \<^verbatim>\<open>nk_abort_write\<close>, \<^verbatim>\<open>nk_truncate\<close> on a record of the engine's operations. \<open>Koio_Props\<close>,
    \<open>Koio_Data\<close> and \<open>Koio_Complete\<close> show that a read map never shows stale cluster contents, that a write map and the completion
    calls change no byte that is initialised or in flight, what \<^verbatim>\<open>initialized_size\<close> and the marks are afterwards, and that the hole
    loop ends. \<open>Mem_Engine\<close> is an engine that meets all assumptions, with runs of the calls on it.

  \<^item> \<open>Stat\<close>: \<^verbatim>\<open>nk_stat_path\<close>, \<^verbatim>\<open>fill_stat\<close>, \<^verbatim>\<open>nk_statvfs\<close>, \<^verbatim>\<open>nk_label\<close>. A file reported as mappable is never refused by a read map.

  \<^item> \<open>Namespace\<close>: listing, reading and writing by copy, creating, deleting, renaming, symbolic links, the label and extended
    attributes. A rename never loses the file; nothing is cut short silently.

  \<^item> \<open>Device\<close>: the callback device, the libbfio handle and the decrypted device; the locale \<open>seq_device\<close> is the device with a position that
    all three are. A read-only device never writes.

  \<^item> \<open>Mount\<close>: mount, unmount, check and format as owners of resources, the construction and release of the BitLocker chain. Nothing leaks and
    nothing is released twice on any path; the result of the check.

  \<^bold>\<open>The formatter\<close> (\<^verbatim>\<open>mkntfs.c\<close>, \<^verbatim>\<open>sd.c\<close>, \<^verbatim>\<open>attrdef.c\<close>, \<^verbatim>\<open>boot.c\<close>, \<^verbatim>\<open>utils.c\<close>).

  \<^item> \<open>Mkntfs_Options\<close> (the parser), \<open>Vol_Params\<close> (\<^verbatim>\<open>mkntfs_open_partition\<close>, \<^verbatim>\<open>mkntfs_override_vol_params\<close>: accepted parameters are consistent powers of
    two that fit their fields).

  \<^item> \<open>Bitmap_Alloc\<close> and \<open>Scattered\<close>: the list of allocated runs as an implementation of the locale \<open>cluster_set\<close>, the bitmap built from it, and the
    allocation of scattered clusters, which ends, takes only free clusters, and succeeds whenever enough of them are free.
    \<open>Layout\<close> places the system files side by side, and has two volumes the placement does not handle.

  \<^item> \<open>Format_IO\<close>, \<open>Format_Writes\<close>: the writes along runlists. The locale \<open>seq_writer\<close> is what a device with a position does; over it the writes end
    and put a value where its runlist says. The callback device is an instance for every host whose write callback stores what it says.

  \<^item> \<open>Index_Entries\<close>, \<open>Mft_Record\<close>, \<open>Mft_Attrs\<close>, \<open>Dir_Links\<close>: index entries and their collation (locale \<open>keyed_index\<close>), MFT records, every
    \<^verbatim>\<open>add_attr_*\<close>, the indexes of \<^verbatim>\<open>$Secure\<close>, \<^verbatim>\<open>$Quota\<close> and \<^verbatim>\<open>$ObjId\<close>, hard links. \<open>Mft_Store\<close>, \<open>Link_Props\<close> and \<open>Attr_Sizes\<close> show that records stay
    well formed, values lie on clusters of their own, links are counted, named and entered together, and that all attributes conform to the table of
    \<open>Attrdef\<close> (locale \<open>record_property\<close>: what every function that adds an attribute keeps).

  \<^item> \<open>Security_Desc\<close>, \<open>Attrdef\<close>, \<open>Boot\<close>, \<open>Boot_Code\<close>, \<open>Crc64\<close>: the bytes of the security descriptors, the attribute definitions, the boot sector and the
    checksum of the upper-case table; they read back as what they are meant to be, and the boot code prints its message.

  \<^item> \<open>Root_Files\<close>: \<^verbatim>\<open>mkntfs_create_root_structures\<close> and \<^verbatim>\<open>create_file_volume\<close>, every step on the list of records. \<open>Root_Props\<close>: the root directory lists exactly the
    system files, and the MFT's bitmap marks exactly the records in use.

  \<^item> \<open>Root_Total\<close>: the system files are made, with the theories it rests on. \<open>Full_Writes\<close> (locale \<open>full_device\<close>: a device that takes every write inside its
    bounds, with the callback device as an instance) shows that writes of one run are complete and that free clusters in one piece are taken as one
    run; \<open>Record_Map\<close> reads a record as a map from attribute types and names to values, \<open>Record_Adds\<close> and \<open>Root_Adds\<close> show that adding an attribute succeeds
    while there is room, \<open>Root_World\<close>, \<open>Root_Steps\<close>, \<open>Root_Views\<close> and \<open>Root_Dir\<close> that every step of the creation does, and \<open>Root_Plan\<close>, \<open>Root_Make\<close>, \<open>Root_Rest\<close> and
    \<open>Root_Success\<close> put the files together. The bounds behind this: a record has 1024 bytes, of which the fullest one takes 760; an index block has room for
    the fifteen names of the root directory; the mapping pairs of one run take at most 64 bytes.

  \<^item> \<open>Mkntfs_Main\<close>: the last writes, \<^verbatim>\<open>mkntfs_redirect\<close> with its clean-up, and \<^verbatim>\<open>nk_mkntfs_main\<close>. \<open>Format_Sync\<close>: the mirror of the MFT is byte by byte the
    start of the MFT (locale \<open>record_writer\<close>). \<open>Format_Ends\<close>: the whole run ends and releases what it holds (locale \<open>bounded_writer\<close>, which every
    \<open>seq_writer\<close> is).

  \<^item> \<open>Utils\<close>, \<open>Utils_Text\<close>, \<open>Mft_Search\<close>: sizes and ranges, path names, names of attributes, cached bitmap look-ups, device checks, and the search through the MFT.

  \<^bold>\<open>Bounds.\<close> Record sizes, field widths and structure sizes are those of the on-disk format. Allocation of list nodes is assumed to succeed where the
  code has no branch for its failure that matters (\<open>Scattered\<close>, \<open>Layout\<close> with \<open>all_mem\<close>); elsewhere it is an argument. Examples use a volume of one gigabyte
  (\<open>Vol_Params\<close>) or of a few clusters (\<open>Mem_Engine\<close>, \<open>Mft_Store\<close>).

  \<^bold>\<open>Not modelled.\<close> The Swift module and the app (framework glue and user interface), \<^verbatim>\<open>test_bridge.c\<close> (a test program), log and terminal output (\<^verbatim>\<open>utils_dump_mem\<close>,
  usage, version and licence texts, progress), the set-up of the locale, \<^verbatim>\<open>getopt_long\<close> itself, whose events are the input of the option parser, and
  everything inside libntfs-3g and libbde.
\<close>

end
